(* ===== verification/Prelude.thy ===== *)
theory Prelude
  imports Main "HOL-Library.Multiset" "HOL-Library.Product_Lexorder"
begin

text \<open>
  Shared vocabulary of the development: the error monad in which every engine operation
  runs, JavaScript's notions the source relies on (truthiness of optional strings and
  numbers, the remainder operator, \<^verbatim>\<open>Array.prototype.find\<close> and \<^verbatim>\<open>new Set\<close>, rounding of a
  binary64 product), and the list lemmas about keyed lookup and keyed update that carry the
  component proofs.
\<close>

named_theorems engine_defs \<open>definitions of engine operations, unfolded together\<close>
named_theorems frame \<open>what an operation leaves unchanged\<close>

section \<open>Results\<close>

text \<open>
  A thrown exception is \<^term>\<open>Inl\<close>, a returned value \<^term>\<open>Inr\<close>. \<open>andThen\<close> sequences two
  computations and stops at the first exception, as a \<^verbatim>\<open>throw\<close> does.
\<close>

definition andThen :: "'e + 'a \<Rightarrow> ('a \<Rightarrow> 'e + 'b) \<Rightarrow> 'e + 'b" where
  "andThen m f = (case m of Inl e \<Rightarrow> Inl e | Inr x \<Rightarrow> f x)"

definition raiseIf :: "bool \<Rightarrow> 'e \<Rightarrow> 'e + unit" where
  "raiseIf b e = (if b then Inl e else Inr ())"

definition ofOption :: "'e \<Rightarrow> 'a option \<Rightarrow> 'e + 'a" where
  "ofOption e x = (case x of None \<Rightarrow> Inl e | Some y \<Rightarrow> Inr y)"

text \<open>\<^verbatim>\<open>xs.reduce(f, init)\<close> for a callback that may throw.\<close>

fun foldM :: "('b \<Rightarrow> 'a \<Rightarrow> 'e + 'b) \<Rightarrow> 'b \<Rightarrow> 'a list \<Rightarrow> 'e + 'b" where
  "foldM f b [] = Inr b"
| "foldM f b (x # xs) = andThen (f b x) (\<lambda>b'. foldM f b' xs)"

text \<open>\<^verbatim>\<open>xs.map(f)\<close> for a callback that may throw.\<close>

fun mapM :: "('a \<Rightarrow> 'e + 'b) \<Rightarrow> 'a list \<Rightarrow> 'e + 'b list" where
  "mapM f [] = Inr []"
| "mapM f (x # xs) = andThen (f x) (\<lambda>y. andThen (mapM f xs) (\<lambda>ys. Inr (y # ys)))"

text \<open>\<^verbatim>\<open>xs.some(f)\<close> and \<^verbatim>\<open>xs.every(f)\<close> for a callback that may throw: both stop early.\<close>

fun someM :: "('a \<Rightarrow> 'e + bool) \<Rightarrow> 'a list \<Rightarrow> 'e + bool" where
  "someM f [] = Inr False"
| "someM f (x # xs) = andThen (f x) (\<lambda>b. if b then Inr True else someM f xs)"

fun everyM :: "('a \<Rightarrow> 'e + bool) \<Rightarrow> 'a list \<Rightarrow> 'e + bool" where
  "everyM f [] = Inr True"
| "everyM f (x # xs) = andThen (f x) (\<lambda>b. if b then everyM f xs else Inr False)"

text \<open>A \<^verbatim>\<open>map\<close> whose callback also writes variables of the enclosing function.\<close>

fun mapAccumM :: "('s \<Rightarrow> 'a \<Rightarrow> 'e + ('s \<times> 'b)) \<Rightarrow> 's \<Rightarrow> 'a list \<Rightarrow> 'e + ('s \<times> 'b list)" where
  "mapAccumM f s [] = Inr (s, [])"
| "mapAccumM f s (x # xs) =
     andThen (f s x) (\<lambda>(s', y). andThen (mapAccumM f s' xs) (\<lambda>(s'', ys). Inr (s'', y # ys)))"

lemma andThen_simps [simp]:
  "andThen (Inl e) f = Inl e"
  "andThen (Inr x) f = f x"
  by (simp_all add: andThen_def)

lemma andThen_Inr_iff [simp]:
  "andThen m f = Inr y \<longleftrightarrow> (\<exists>x. m = Inr x \<and> f x = Inr y)"
  by (cases m) auto

lemma andThen_Inl_iff:
  "andThen m f = Inl e \<longleftrightarrow> m = Inl e \<or> (\<exists>x. m = Inr x \<and> f x = Inl e)"
  by (cases m) auto

lemma andThen_cong [fundef_cong]:
  assumes "m = m'" and "\<And>x. m' = Inr x \<Longrightarrow> f x = f' x"
  shows "andThen m f = andThen m' f'"
  using assms by (cases m') auto

lemma raiseIf_Inr_iff [simp]: "raiseIf b e = Inr u \<longleftrightarrow> \<not> b"
  by (simp add: raiseIf_def)

lemma raiseIf_Inl_iff [simp]: "raiseIf b e = Inl e' \<longleftrightarrow> b \<and> e' = e"
  by (auto simp: raiseIf_def)

lemma raiseIf_simps [simp]:
  "raiseIf True e = Inl e"
  "raiseIf False e = Inr ()"
  by (simp_all add: raiseIf_def)

lemma ofOption_Inr_iff [simp]: "ofOption e x = Inr y \<longleftrightarrow> x = Some y"
  by (auto simp: ofOption_def split: option.splits)

lemma ofOption_Inl_iff [simp]: "ofOption e x = Inl e' \<longleftrightarrow> x = None \<and> e' = e"
  by (auto simp: ofOption_def split: option.splits)

lemma ofOption_simps [simp]:
  "ofOption e None = Inl e"
  "ofOption e (Some y) = Inr y"
  by (simp_all add: ofOption_def)

lemma foldM_invariant:
  assumes "foldM f b xs = Inr b'" and "P b"
    and "\<And>x c c'. x \<in> set xs \<Longrightarrow> P c \<Longrightarrow> f c x = Inr c' \<Longrightarrow> P c'"
  shows "P b'"
  using assms by (induction xs arbitrary: b) auto

lemma mapM_Inr_iff:
  "mapM f xs = Inr ys \<longleftrightarrow> list_all2 (\<lambda>x y. f x = Inr y) xs ys"
proof (induction xs arbitrary: ys)
  case Nil
  then show ?case by auto
next
  case (Cons x xs)
  then show ?case by (cases ys) auto
qed

lemma someM_False_iff: "someM f xs = Inr False \<longleftrightarrow> (\<forall>x\<in>set xs. f x = Inr False)"
  by (induction xs) (auto split: if_splits)

section \<open>JavaScript conventions\<close>

text \<open>\<^verbatim>\<open>null\<close>, \<^verbatim>\<open>undefined\<close>, the empty string and the number 0 are falsy.\<close>

fun truthy :: "string option \<Rightarrow> bool" where
  "truthy None = False"
| "truthy (Some s) = (s \<noteq> [])"

fun truthyNum :: "int option \<Rightarrow> bool" where
  "truthyNum None = False"
| "truthyNum (Some n) = (n \<noteq> 0)"

text \<open>A condition on an optional value that holds when it is absent.\<close>

fun ifSome :: "('a \<Rightarrow> bool) \<Rightarrow> 'a option \<Rightarrow> bool" where
  "ifSome P None = True"
| "ifSome P (Some x) = P x"

text \<open>\<^verbatim>\<open>a % b\<close> takes the sign of the dividend.\<close>

definition jsRem :: "int \<Rightarrow> int \<Rightarrow> int" where
  "jsRem a b = sgn a * (\<bar>a\<bar> mod \<bar>b\<bar>)"

lemma jsRem_nonneg [simp]: "0 \<le> a \<Longrightarrow> 0 < b \<Longrightarrow> jsRem a b = a mod b"
  by (cases "a = 0") (auto simp: jsRem_def)

text \<open>\<^verbatim>\<open>xs[i]\<close>: \<^term>\<open>None\<close> is the \<^verbatim>\<open>undefined\<close> an out-of-range index gives.\<close>

definition jsNth :: "'a list \<Rightarrow> int \<Rightarrow> 'a option" where
  "jsNth xs i = (if 0 \<le> i \<and> i < int (length xs) then Some (xs ! nat i) else None)"

text \<open>\<^verbatim>\<open>xs.findIndex(p)\<close>: -1 when no element satisfies the predicate.\<close>

fun jsFindIndex :: "('a \<Rightarrow> bool) \<Rightarrow> 'a list \<Rightarrow> int" where
  "jsFindIndex p [] = -1"
| "jsFindIndex p (x # xs) =
     (if p x then 0 else let i = jsFindIndex p xs in if i = -1 then -1 else i + 1)"

text \<open>\<^verbatim>\<open>s.trim()\<close> on the ASCII white space characters.\<close>

definition jsSpace :: "char \<Rightarrow> bool" where
  "jsSpace c \<longleftrightarrow> (let n = of_char c :: nat in n = 32 \<or> (9 \<le> n \<and> n \<le> 13))"

definition jsTrim :: "string \<Rightarrow> string" where
  "jsTrim s = rev (dropWhile jsSpace (rev (dropWhile jsSpace s)))"

text \<open>The elements of \<^verbatim>\<open>new Set(xs)\<close> in insertion order.\<close>

definition jsSet :: "'a list \<Rightarrow> 'a list" where
  "jsSet xs = rev (remdups (rev xs))"

lemma set_jsSet [simp]: "set (jsSet xs) = set xs"
  by (simp add: jsSet_def)

lemma distinct_jsSet [simp]: "distinct (jsSet xs)"
  by (simp add: jsSet_def)

lemma jsSet_distinct: "distinct xs \<Longrightarrow> jsSet xs = xs"
  by (simp add: jsSet_def distinct_remdups_id)

lemma jsSet_snoc: "distinct xs \<Longrightarrow> jsSet (xs @ [x]) = (if x \<in> set xs then xs else xs @ [x])"
  by (simp add: jsSet_def distinct_remdups_id)

section \<open>Rounding a binary64 product\<close>

text \<open>
  A JavaScript number is an IEEE binary64 value. Every amount in the engine is an integer
  (or a multiple of a quarter) far below \<open>2 ^ 53\<close>, so sums and differences are exact; only
  products with a decimal constant such as \<^verbatim>\<open>1.1\<close> round. \<open>nearestEven n d\<close> is \<open>n / d\<close>
  rounded to the nearest integer, ties to even; \<open>round53 n\<close> keeps 53 significant bits.
\<close>

definition nearestEven :: "int \<Rightarrow> int \<Rightarrow> int" where
  "nearestEven n d =
     (let q = n div d; r = n mod d
      in if 2 * r > d \<or> (2 * r = d \<and> odd q) then q + 1 else q)"

function bitLength :: "int \<Rightarrow> nat" where
  "bitLength n = (if n \<le> 0 then 0 else Suc (bitLength (n div 2)))"
  by pat_completeness auto
termination
  by (relation "measure nat") auto

declare bitLength.simps [simp del]

definition round53 :: "int \<Rightarrow> int" where
  "round53 n =
     (let b = bitLength \<bar>n\<bar>
      in if b \<le> 53 then n
         else sgn n * (nearestEven \<bar>n\<bar> (2 ^ (b - 53)) * 2 ^ (b - 53)))"

text \<open>
  The literal \<open>num / den\<close> as a binary64 value in units of \<open>2 ^ - k\<close>, where \<open>k\<close> places its
  leading bit at position 52.
\<close>

definition doubleLiteral :: "int \<Rightarrow> int \<Rightarrow> nat \<Rightarrow> int" where
  "doubleLiteral num den k = nearestEven (num * 2 ^ k) den"

section \<open>Keyed lists\<close>

text \<open>
  Players and properties are arrays searched with \<^verbatim>\<open>find\<close> and rewritten with \<^verbatim>\<open>map\<close>, always by
  comparing one key field. \<open>updateBy key k f\<close> is the recurring
  \<^verbatim>\<open>xs.map((c) => c.key !== k ? c : { ...c, ... })\<close>.
\<close>

definition updateBy :: "('a \<Rightarrow> 'k) \<Rightarrow> 'k \<Rightarrow> ('a \<Rightarrow> 'a) \<Rightarrow> 'a list \<Rightarrow> 'a list" where
  "updateBy key k f xs = map (\<lambda>c. if key c \<noteq> k then c else f c) xs"

definition findBy :: "('a \<Rightarrow> 'k) \<Rightarrow> 'k \<Rightarrow> 'a list \<Rightarrow> 'a option" where
  "findBy key k xs = find (\<lambda>c. key c = k) xs"

lemma findBy_simps [simp]:
  "findBy key k [] = None"
  "findBy key k (x # xs) = (if key x = k then Some x else findBy key k xs)"
  by (simp_all add: findBy_def)

lemma updateBy_simps [simp]:
  "updateBy key k f [] = []"
  "updateBy key k f (x # xs) = (if key x = k then f x else x) # updateBy key k f xs"
  by (simp_all add: updateBy_def)

lemma length_updateBy [simp]: "length (updateBy key k f xs) = length xs"
  by (simp add: updateBy_def)

lemma findBy_None_iff: "findBy key k xs = None \<longleftrightarrow> k \<notin> key ` set xs"
  by (induction xs) auto

lemma findBy_SomeD: "findBy key k xs = Some x \<Longrightarrow> x \<in> set xs \<and> key x = k"
  by (induction xs) (auto split: if_splits)

lemma findBy_Some_iff:
  assumes "distinct (map key xs)"
  shows "findBy key k xs = Some x \<longleftrightarrow> x \<in> set xs \<and> key x = k"
  using assms by (induction xs) force+

lemma ex_findBy: "k \<in> key ` set xs \<Longrightarrow> \<exists>x. findBy key k xs = Some x"
  by (induction xs) auto

lemma map_key_updateBy [simp]:
  assumes "\<And>x. key (f x) = key x"
  shows "map key (updateBy key k f xs) = map key xs"
  using assms by (induction xs) auto

lemma map_other_updateBy [simp]:
  assumes "\<And>x. g (f x) = g x"
  shows "map g (updateBy key k f xs) = map g xs"
  using assms by (induction xs) auto

lemma set_updateBy: "set (updateBy key k f xs) = {if key x = k then f x else x | x. x \<in> set xs}"
  by (auto simp: updateBy_def)

lemma updateByE:
  assumes "y \<in> set (updateBy key k f xs)"
  obtains x where "x \<in> set xs" "key x \<noteq> k" "y = x"
        | x where "x \<in> set xs" "key x = k" "y = f x"
  using assms by (auto simp: updateBy_def split: if_splits)

lemma findBy_updateBy:
  assumes "\<And>x. key (f x) = key x"
  shows "findBy key k' (updateBy key k f xs) =
     (if k' = k then map_option f (findBy key k xs) else findBy key k' xs)"
  using assms by (induction xs) auto

lemma updateBy_absent: "k \<notin> key ` set xs \<Longrightarrow> updateBy key k f xs = xs"
  by (induction xs) auto

lemma updateBy_found_cong:
  assumes "distinct (map key xs)" "findBy key k xs = Some x" "f x = g x"
  shows "updateBy key k f xs = updateBy key k g xs"
proof -
  have "y = x" if "y \<in> set xs" "key y = k" for y
    using that assms(2) findBy_Some_iff [OF assms(1)] by (metis option.inject)
  with assms(3) show ?thesis unfolding updateBy_def by (auto intro!: map_cong)
qed

lemma updateBy_twice:
  assumes "\<And>x. key (f x) = key x"
  shows "updateBy key k g (updateBy key k f xs) = updateBy key k (g \<circ> f) xs"
  using assms by (induction xs) auto

lemma updateBy_id:
  assumes "distinct (map key xs)" "findBy key k xs = Some x" "f x = x"
  shows "updateBy key k f xs = xs"
proof -
  have "updateBy key k f xs = updateBy key k (\<lambda>y. y) xs"
    using assms by (intro updateBy_found_cong) auto
  then show ?thesis by (simp add: updateBy_def)
qed

text \<open>Summing a measure over a keyed list: an update at one key changes one summand.\<close>

lemma sum_list_updateBy:
  fixes g :: "'a \<Rightarrow> int"
  assumes "distinct (map key xs)" and "findBy key k xs = Some x"
  shows "(\<Sum>y\<leftarrow>updateBy key k f xs. g y) = (\<Sum>y\<leftarrow>xs. g y) - g x + g (f x)"
  using assms
proof (induction xs)
  case Nil
  then show ?case by simp
next
  case (Cons y ys)
  show ?case
  proof (cases "key y = k")
    case True
    with Cons.prems have "k \<notin> key ` set ys" and "x = y" by auto
    with True show ?thesis by (simp add: updateBy_absent)
  next
    case False
    with Cons show ?thesis by simp
  qed
qed

lemma sum_list_updateBy_nat:
  fixes g :: "'a \<Rightarrow> nat"
  assumes "distinct (map key xs)" and "findBy key k xs = Some x"
  shows "(\<Sum>y\<leftarrow>updateBy key k f xs. g y) + g x = (\<Sum>y\<leftarrow>xs. g y) + g (f x)"
  using assms
proof (induction xs)
  case Nil
  then show ?case by simp
next
  case (Cons y ys)
  show ?case
  proof (cases "key y = k")
    case True
    with Cons.prems have "k \<notin> key ` set ys" and "x = y" by auto
    with True show ?thesis by (simp add: updateBy_absent)
  next
    case False
    with Cons show ?thesis by simp
  qed
qed

section \<open>Cyclic order\<close>

text \<open>
  Players take turns in a ring. \<open>ringNext xs x\<close> is the element after \<open>x\<close>, the first one after the
  last; \<open>iterM\<close> repeats a step that may fail.
\<close>

definition ringNext :: "'a list \<Rightarrow> 'a \<Rightarrow> 'a option" where
  "ringNext xs x =
     (case dropWhile (\<lambda>y. y \<noteq> x) xs of
        [] \<Rightarrow> None
      | _ # ys \<Rightarrow> Some (hd (ys @ takeWhile (\<lambda>y. y \<noteq> x) xs @ [x])))"

text \<open>The other elements of the ring, in order from the one after \<open>x\<close>.\<close>

definition ringAfter :: "'a list \<Rightarrow> 'a \<Rightarrow> 'a list" where
  "ringAfter xs x = tl (dropWhile (\<lambda>y. y \<noteq> x) xs) @ takeWhile (\<lambda>y. y \<noteq> x) xs"

fun iterM :: "nat \<Rightarrow> ('s \<Rightarrow> 's option) \<Rightarrow> 's \<Rightarrow> 's option" where
  "iterM 0 f s = Some s"
| "iterM (Suc n) f s = Option.bind (f s) (iterM n f)"

lemma takeWhile_first [simp]:
  "x \<notin> set us \<Longrightarrow> takeWhile (\<lambda>y. y \<noteq> x) (us @ x # vs) = us"
  "x \<notin> set us \<Longrightarrow> dropWhile (\<lambda>y. y \<noteq> x) (us @ x # vs) = x # vs"
  by (induction us) auto

lemma ringNext_split: "x \<notin> set us \<Longrightarrow> ringNext (us @ x # vs) x = Some (hd (vs @ us @ [x]))"
  by (simp add: ringNext_def)

lemma ringNext_nth:
  assumes "distinct xs" "i < length xs"
  shows "ringNext xs (xs ! i) = Some (xs ! (Suc i mod length xs))"
proof -
  let ?us = "take i xs" and ?vs = "drop (Suc i) xs"
  have xs: "xs = ?us @ xs ! i # ?vs" by (rule id_take_nth_drop [OF assms(2)])
  have "xs ! i \<notin> set ?us"
  proof
    assume "xs ! i \<in> set ?us"
    then obtain j where "j < i" "xs ! j = xs ! i" by (auto simp: in_set_conv_nth)
    with assms show False by (simp add: nth_eq_iff_index_eq)
  qed
  then have "ringNext xs (xs ! i) = Some (hd (?vs @ ?us @ [xs ! i]))"
    by (subst xs) (rule ringNext_split)
  also have "hd (?vs @ ?us @ [xs ! i]) = xs ! (Suc i mod length xs)"
  proof (cases "Suc i < length xs")
    case True
    then show ?thesis by (simp add: hd_append hd_drop_conv_nth)
  next
    case False
    then have "Suc i = length xs" using assms(2) by simp
    then show ?thesis using assms(2) by (cases i) (auto simp: hd_append hd_conv_nth)
  qed
  finally show ?thesis .
qed

lemma ringAfter_split: "x \<notin> set us \<Longrightarrow> ringAfter (us @ x # vs) x = vs @ us"
  by (simp add: ringAfter_def)

lemma ringAfter_rotate1:
  assumes "distinct xs" "x \<in> set xs"
  shows "ringAfter (rotate1 xs) x = ringAfter xs x"
proof (cases xs)
  case (Cons y ys)
  show ?thesis
  proof (cases "x = y")
    case True
    with assms Cons show ?thesis
      using ringAfter_split [of x ys "[]"] ringAfter_split [of x "[]" ys] by simp
  next
    case False
    then obtain us vs where ys: "ys = us @ x # vs" "x \<notin> set us"
      using assms Cons split_list_first [of x ys] by auto
    with False Cons show ?thesis
      using ringAfter_split [of x "y # us" vs] ringAfter_split [of x us "vs @ [y]"] by simp
  qed
qed (use assms in simp)

lemma ringAfter_rotate:
  "distinct xs \<Longrightarrow> x \<in> set xs \<Longrightarrow> ringAfter (rotate n xs) x = ringAfter xs x"
  by (induction n) (simp_all add: ringAfter_rotate1 rotate_Suc)

lemma ringAfter_rotation:
  assumes "x \<in> set xs"
  obtains n where "rotate n xs = x # ringAfter xs x"
proof -
  obtain us vs where xs: "xs = us @ x # vs" "x \<notin> set us"
    using split_list_first [OF assms] by blast
  have "rotate (length us) xs = x # ringAfter xs x"
    unfolding xs(1) by (simp add: rotate_append ringAfter_split [OF xs(2)])
  then show thesis by (rule that)
qed

text \<open>Seen from an element further on, the ring is the same list started elsewhere.\<close>

lemma ringAfter_shift:
  assumes "distinct xs" "x \<in> set xs" "ringAfter xs x = ws @ y # zs"
  shows "ringAfter xs y = zs @ x # ws"
proof -
  obtain n where n: "rotate n xs = x # ws @ y # zs"
    using ringAfter_rotation [OF assms(2)] assms(3) by metis
  have "distinct (x # ws @ y # zs)" "y \<in> set xs"
    using assms(1) n by (metis distinct_rotate, metis set_rotate in_set_conv_decomp append_Cons)
  then show ?thesis
    using ringAfter_rotate [OF assms(1), of y n] n ringAfter_split [of y "x # ws" zs] by auto
qed

lemma set_ringAfter:
  assumes "distinct xs" "x \<in> set xs"
  shows "set xs = insert x (set (ringAfter xs x))" "x \<notin> set (ringAfter xs x)"
proof -
  obtain n where n: "rotate n xs = x # ringAfter xs x" by (rule ringAfter_rotation [OF assms(2)])
  show "set xs = insert x (set (ringAfter xs x))" using arg_cong [OF n, of set] by simp
  show "x \<notin> set (ringAfter xs x)" using assms(1) arg_cong [OF n, of distinct] by simp
qed

lemma jsFindIndex_append:
  assumes "\<forall>y\<in>set us. \<not> P y" "P x"
  shows "jsFindIndex P (us @ x # vs) = int (length us)"
  using assms by (induction us) (auto simp: Let_def)

text \<open>\<^verbatim>\<open>xs[(index + offset) % xs.length]\<close> walks the ring from the element after \<^verbatim>\<open>xs[index]\<close>.\<close>

lemma jsNth_ring:
  assumes "1 \<le> k" "k \<le> length (us @ x # vs)"
  shows "jsNth (us @ x # vs) (jsRem (int (length us) + int k) (int (length (us @ x # vs)))) =
     Some ((vs @ us @ [x]) ! (k - 1))"
proof -
  let ?xs = "us @ x # vs" and ?n = "length (us @ x # vs)"
  have n: "0 < ?n" by simp
  have "vs @ us @ [x] = rotate (length (us @ [x])) ((us @ [x]) @ vs)"
    by (simp only: rotate_append)
  also have "\<dots> ! (k - 1) = ?xs ! ((length us + k) mod ?n)"
    using assms by (subst nth_rotate) auto
  finally have eq: "?xs ! ((length us + k) mod ?n) = (vs @ us @ [x]) ! (k - 1)" ..
  have "jsRem (int (length us) + int k) (int ?n) = int ((length us + k) mod ?n)"
    using n by (subst jsRem_nonneg) (auto simp: zmod_int)
  then have "jsNth ?xs (jsRem (int (length us) + int k) (int ?n)) =
      Some (?xs ! ((length us + k) mod ?n))"
    using n by (simp only: jsNth_def) (simp del: length_append)
  then show ?thesis by (simp only: eq)
qed

section \<open>Sorting\<close>

text \<open>\<^verbatim>\<open>Array.prototype.sort\<close> is stable; with an integer comparator it is \<^term>\<open>sort_key\<close>.\<close>

lemma sort_key_eq_Nil_iff [simp]: "sort_key f xs = [] \<longleftrightarrow> xs = []"
  by (metis length_0_conv length_sort)

lemma hd_sort_key_le:
  assumes "x \<in> set xs"
  shows "f (hd (sort_key f xs)) \<le> f x"
proof -
  obtain y ys where ys: "sort_key f xs = y # ys"
    using assms by (cases "sort_key f xs") auto
  have "sorted (map f (sort_key f xs))" by (rule sorted_sort_key)
  moreover have "x \<in> set (sort_key f xs)" using assms by simp
  ultimately show ?thesis unfolding ys by auto
qed

section \<open>Operations with a state and a result\<close>

definition thenS :: "'s \<times> ('e + 'a) \<Rightarrow> ('a \<Rightarrow> 's \<Rightarrow> 's \<times> ('e + 'b)) \<Rightarrow> 's \<times> ('e + 'b)" where
  "thenS r f = (case r of (s, Inl e) \<Rightarrow> (s, Inl e) | (s, Inr x) \<Rightarrow> f x s)"

lemma thenS_simps [simp]:
  "thenS (s, Inl e) f = (s, Inl e)"
  "thenS (s, Inr x) f = f x s"
  by (simp_all add: thenS_def)

end
