(* ===== verification/Game_Types.thy ===== *)
theory Game_Types
  imports Prelude
begin

text \<open>
  The data of the game engine: \<^verbatim>\<open>src/src/game/engine/game-engine.types.ts\<close> and
  \<^verbatim>\<open>game-board.types.ts\<close>. A string union is a datatype with one constructor per string, a
  tagged union of objects a datatype with one constructor per tag, an object type a record.
  An optional or nullable field is an option; \<^verbatim>\<open>undefined\<close> and \<^verbatim>\<open>null\<close>, which the engine
  never tells apart, are both \<^term>\<open>None\<close>. Money, positions, seats and timestamps are
  integers: every amount on the board is an integer (see \<^verbatim>\<open>Game_Board\<close>), so the fractional
  part of a JavaScript number never occurs in a state.
\<close>

section \<open>Board\<close>

datatype PropertySetKey =
  Brown | Light_blue | Pink | Orange | Red | Yellow | Green | Dark_blue

datatype GameTileKind =
  Kind_go | Kind_property | Kind_airport | Kind_utility | Kind_tax | Kind_chance
| Kind_world_fund | Kind_jail | Kind_free_parking | Kind_go_to_jail

datatype (plugins only: code size) GameTile =
  GoTile (tile_index: int) (tile_key: string) (tile_name: string)
| PropertyTile (tile_index: int) (tile_key: string) (tile_name: string)
    (setKey: PropertySetKey) (price: int) (baseRent: int) (rentByHouseCount: "int list")
    (hotelRent: int) (houseCost: int) (mortgageValue: int)
| AirportTile (tile_index: int) (tile_key: string) (tile_name: string)
    (price: int) (rentByOwnedCount: "int list") (mortgageValue: int)
| UtilityTile (tile_index: int) (tile_key: string) (tile_name: string)
    (price: int) (rentMultiplierByOwnedCount: "int list") (mortgageValue: int)
| TaxTile (tile_index: int) (tile_key: string) (tile_name: string) (taxAmount: int)
| ChanceTile (tile_index: int) (tile_key: string) (tile_name: string)
| WorldFundTile (tile_index: int) (tile_key: string) (tile_name: string)
| JailTile (tile_index: int) (tile_key: string) (tile_name: string)
| FreeParkingTile (tile_index: int) (tile_key: string) (tile_name: string)
| GoToJailTile (tile_index: int) (tile_key: string) (tile_name: string)

fun kind :: "GameTile \<Rightarrow> GameTileKind" where
  "kind (GoTile _ _ _) = Kind_go"
| "kind (PropertyTile _ _ _ _ _ _ _ _ _ _) = Kind_property"
| "kind (AirportTile _ _ _ _ _ _) = Kind_airport"
| "kind (UtilityTile _ _ _ _ _ _) = Kind_utility"
| "kind (TaxTile _ _ _ _) = Kind_tax"
| "kind (ChanceTile _ _ _) = Kind_chance"
| "kind (WorldFundTile _ _ _) = Kind_world_fund"
| "kind (JailTile _ _ _) = Kind_jail"
| "kind (FreeParkingTile _ _ _) = Kind_free_parking"
| "kind (GoToJailTile _ _ _) = Kind_go_to_jail"

datatype GameBoardKey = Classic

record GameBoard =
  board_key :: GameBoardKey
  board_name :: string
  passGoCash :: int
  jailPosition :: int
  tiles :: "GameTile list"

section \<open>Game state\<close>

datatype GameMode = Ranked | Casual

datatype GamePhase =
  Awaiting_first_turn | Awaiting_roll | Awaiting_property_decision | Awaiting_auction_bid
| Awaiting_debt_resolution | Awaiting_turn_end | Finished | Cancelled

datatype PlayerType = Human | Bot

datatype BotDifficulty = Easy | Normal | Hard

type_synonym DiceRoll = "int \<times> int"

datatype GameCardDeckKey = Chance | World_fund

datatype GameCardEffectType =
  Effect_collect_money | Effect_pay_money | Effect_move_to_tile | Effect_move_relative
| Effect_move_to_nearest | Effect_go_to_jail | Effect_get_out_of_jail_free
| Effect_collect_from_each_player | Effect_pay_each_player | Effect_property_repairs

datatype GameCardEffect =
  Collect_money int
| Pay_money int
| Move_to_tile string bool
| Move_relative int
| Move_to_nearest GameTileKind bool
| Go_to_jail
| Get_out_of_jail_free
| Collect_from_each_player int
| Pay_each_player int
| Property_repairs int int

fun effectType :: "GameCardEffect \<Rightarrow> GameCardEffectType" where
  "effectType (Collect_money _) = Effect_collect_money"
| "effectType (Pay_money _) = Effect_pay_money"
| "effectType (Move_to_tile _ _) = Effect_move_to_tile"
| "effectType (Move_relative _) = Effect_move_relative"
| "effectType (Move_to_nearest _ _) = Effect_move_to_nearest"
| "effectType Go_to_jail = Effect_go_to_jail"
| "effectType Get_out_of_jail_free = Effect_get_out_of_jail_free"
| "effectType (Collect_from_each_player _) = Effect_collect_from_each_player"
| "effectType (Pay_each_player _) = Effect_pay_each_player"
| "effectType (Property_repairs _ _) = Effect_property_repairs"

record GameEngineCard =
  card_key :: string
  card_title :: string
  card_effect :: GameCardEffect

record GameEngineDeckState =
  drawPile :: "string list"
  discardPile :: "string list"

record GameEngineDecks =
  chance :: GameEngineDeckState
  worldFund :: GameEngineDeckState

record GameEnginePlayer =
  roomPlayerId :: string
  userId :: "string option"
  username :: "string option"
  playerType :: PlayerType
  botDifficulty :: "BotDifficulty option"
  botName :: "string option"
  seatNumber :: int
  cash :: int
  position :: int
  inJail :: bool
  jailTurnCount :: int
  getOutOfJailFreeCards :: int
  getOutOfJailFreeCardKeys :: "string list option"
  consecutiveMissedTurns :: "int option"
  lastMissedTurnNumber :: "int option"
  lastBotTradeProposalTurnNumber :: "int option"
  bankrupt :: bool

record GameEngineProperty =
  tileKey :: string
  ownerRoomPlayerId :: "string option"
  houseCount :: nat
  hasHotel :: bool
  mortgaged :: bool

record GameEngineAuction =
  auction_tileKey :: string
  currentBid :: int
  highestBidderRoomPlayerId :: "string option"
  currentBidderRoomPlayerId :: "string option"
  bidExpiresAt :: "int option"
  activeRoomPlayerIds :: "string list"
  passedRoomPlayerIds :: "string list"

record GameEngineTradeOffer =
  trade_id :: string
  fromRoomPlayerId :: string
  toRoomPlayerId :: string
  offeredCash :: int
  requestedCash :: int
  offeredPropertyKeys :: "string list"
  requestedPropertyKeys :: "string list"
  createdAt :: int

datatype GameEngineDebtReason = Rent | Tax | Card | Jail_fine

record GameEngineDebt =
  debt_roomPlayerId :: string
  creditorRoomPlayerId :: "string option"
  debt_amount :: int
  debt_reason :: GameEngineDebtReason

record GameEngineState =
  state_version :: int
  roomId :: string
  roomCode :: string
  boardKey :: GameBoardKey
  mode :: GameMode
  startedAt :: "int option"
  durationMinutes :: "int option"
  expiresAt :: "int option"
  turnExpiresAt :: "int option"
  phase :: GamePhase
  turnNumber :: int
  currentTurnRoomPlayerId :: string
  consecutiveDoublesCount :: int
  shouldCurrentPlayerPlayAgain :: bool
  lastDiceRoll :: "DiceRoll option"
  pendingTileKey :: "string option"
  auction :: "GameEngineAuction option"
  tradeOffer :: "GameEngineTradeOffer option"
  debt :: "GameEngineDebt option"
  decks :: GameEngineDecks
  players :: "GameEnginePlayer list"
  properties :: "GameEngineProperty list"

record PlayerNetWorth =
  worth_roomPlayerId :: string
  worth_seatNumber :: int
  worth_cash :: int
  ownedPropertyCount :: int
  assetValue :: int
  netWorth :: int

section \<open>Events and errors\<close>

datatype (plugins only: code) GameEngineEvent =
  Player_moved string int int DiceRoll
| Player_rolled_doubles string int
| Player_rolled_third_doubles string
| Player_passed_go string int
| Player_landed_on_tile string string GameTileKind
| Card_drawn string GameCardDeckKey string
| Card_applied string GameCardDeckKey string GameCardEffectType
| Player_sent_to_jail string int
| Jail_escape_roll_succeeded string DiceRoll
| Jail_escape_roll_failed string DiceRoll int
| Jail_forced_fine_paid string int
| Jail_fine_paid string int
| Get_out_of_jail_card_used string
| Player_released_from_jail string
| Property_bought string string int
| Property_purchase_declined string string
| Auction_started string "string list"
| Auction_bid_placed string string int
| Auction_bid_passed string string
| Auction_won string string int
| Rent_paid string string string int
| Tax_paid string string int
| Payment_required string "string option" int GameEngineDebtReason
| Debt_paid string "string option" int GameEngineDebtReason
| Property_house_built string string nat int
| Property_hotel_built string string int
| Property_house_sold string string nat int
| Property_hotel_sold string string int
| Property_mortgaged string string int
| Property_unmortgaged string string int
| Trade_proposed string string string int int "string list" "string list"
| Trade_buildings_liquidated string string string int
| Trade_accepted string string string
| Trade_rejected string string string string
| Trade_cancelled string string string
| Player_bankrupt string "string option"
| Game_finished_by_bankruptcy "string option" "string list" "PlayerNetWorth list"
| Game_finished_by_time int "string option" "string list" "PlayerNetWorth list"
| Game_finished_after_last_human_left int "string option" "string list" "PlayerNetWorth list"
| Turn_ended string string int

datatype (plugins only: code) GameEngineErrorCode =
  GAME_NOT_ACTIVE | PLAYER_NOT_FOUND | NOT_CURRENT_TURN | INVALID_DICE | ROLL_NOT_ALLOWED
| BUY_NOT_ALLOWED | AUCTION_NOT_ALLOWED | DEBT_RESOLUTION_REQUIRED | NO_ACTIVE_DEBT
| JAIL_FINE_NOT_ALLOWED | TURN_END_NOT_ALLOWED | NO_ACTIVE_PLAYERS | NO_PROPERTY_DECISION
| NO_ACTIVE_AUCTION | TILE_NOT_OWNABLE | PROPERTY_ALREADY_OWNED | INSUFFICIENT_FUNDS
| INVALID_AUCTION_BID | AUCTION_PLAYER_NOT_ACTIVE | AUCTION_PLAYER_NOT_CURRENT
| PLAYER_NOT_IN_JAIL | GET_OUT_OF_JAIL_CARD_REQUIRED | CARD_NOT_FOUND | CARD_DECK_EMPTY
| BUILDING_NOT_ALLOWED | PROPERTY_SET_NOT_OWNED | PROPERTY_MORTGAGED | BUILDING_LIMIT_REACHED
| UNEVEN_BUILDING | NO_BUILDING_TO_SELL | MORTGAGE_NOT_ALLOWED | PROPERTY_NOT_OWNED
| PROPERTY_HAS_BUILDINGS | PROPERTY_ALREADY_MORTGAGED | PROPERTY_NOT_MORTGAGED
| TRADE_NOT_ALLOWED | TRADE_NOT_FOUND | INVALID_TRADE | PLAYER_ALREADY_BANKRUPT
| INVALID_BANKRUPTCY_CREDITOR | INVALID_FINISH_TIME | GAME_TIME_NOT_EXPIRED

text \<open>
  What can interrupt an operation: a \<^verbatim>\<open>GameEngineError\<close> with its code, a plain \<^verbatim>\<open>Error\<close> with
  its message, the use of an \<^verbatim>\<open>undefined\<close> array element where the code goes on with it as a
  number or an object, or a loop that does not return. The last two are not exceptions of the
  source; they mark the points where its behaviour leaves the model, and the invariant theorems
  show that well-formed states never reach them.
\<close>

datatype GameEngineError =
  EngineError GameEngineErrorCode
| JsError string
| UndefinedRead
| Diverges

type_synonym GameEngineResult = "GameEngineState \<times> GameEngineEvent list"

text \<open>
  The values the engine reads from its surroundings: the clock (\<^verbatim>\<open>Date.now()\<close>) and a fresh
  identifier (\<^verbatim>\<open>randomUUID()\<close>), one of each per call.
\<close>

record Env =
  dateNow :: int
  randomUUID :: string

end
