(* ===== verification/Game_Board.thy ===== *)
theory Game_Board
  imports Game_Types
begin

text \<open>
  The board, \<^verbatim>\<open>src/src/game/engine/game-board.ts\<close>: the tile constructors, the forty tiles of
  the classic board in order, and the two lookups. The lemmas say that the table is what the
  rest of the engine takes for granted: a tile sits at the index it carries, keys identify
  tiles, a mortgage is half a price, half a house cost is a whole number, and rents grow with
  buildings.
\<close>

definition property ::
  "int \<Rightarrow> string \<Rightarrow> string \<Rightarrow> PropertySetKey \<Rightarrow> int \<Rightarrow> int \<Rightarrow> int list \<Rightarrow> int \<Rightarrow> int \<Rightarrow> GameTile" where
  "property i k n set_key p base_rent rents hotel_rent house_cost =
     PropertyTile i k n set_key p base_rent rents hotel_rent house_cost (p div 2)"

definition airport :: "int \<Rightarrow> string \<Rightarrow> string \<Rightarrow> GameTile" where
  "airport i k n = AirportTile i k n 200 [25, 50, 100, 200] 100"

definition utility :: "int \<Rightarrow> string \<Rightarrow> string \<Rightarrow> GameTile" where
  "utility i k n = UtilityTile i k n 150 [4, 10] 75"

definition tax :: "int \<Rightarrow> string \<Rightarrow> string \<Rightarrow> int \<Rightarrow> GameTile" where
  "tax i k n amount = TaxTile i k n amount"

definition classicTiles :: "GameTile list" where
  "classicTiles =
     [GoTile 0 ''go'' ''Go'',
      property 1 ''nigeria'' ''Nigeria'' Brown 60 2 [10, 30, 90, 160] 250 50,
      WorldFundTile 2 ''world_fund_1'' ''World Fund'',
      property 3 ''ghana'' ''Ghana'' Brown 60 4 [20, 60, 180, 320] 450 50,
      tax 4 ''income_tax'' ''Income Tax'' 200,
      airport 5 ''lagos_airport'' ''Lagos Airport'',
      property 6 ''south_africa'' ''South Africa'' Light_blue 100 6 [30, 90, 270, 400] 550 50,
      ChanceTile 7 ''chance_1'' ''Chance'',
      property 8 ''egypt'' ''Egypt'' Light_blue 100 6 [30, 90, 270, 400] 550 50,
      property 9 ''morocco'' ''Morocco'' Light_blue 120 8 [40, 100, 300, 450] 600 50,
      JailTile 10 ''jail'' ''Jail'',
      property 11 ''brazil'' ''Brazil'' Pink 140 10 [50, 150, 450, 625] 750 100,
      utility 12 ''electric_company'' ''Electric Company'',
      property 13 ''argentina'' ''Argentina'' Pink 140 10 [50, 150, 450, 625] 750 100,
      property 14 ''mexico'' ''Mexico'' Pink 160 12 [60, 180, 500, 700] 900 100,
      airport 15 ''new_york_airport'' ''New York Airport'',
      property 16 ''usa'' ''USA'' Orange 180 14 [70, 200, 550, 750] 950 100,
      WorldFundTile 17 ''world_fund_2'' ''World Fund'',
      property 18 ''canada'' ''Canada'' Orange 180 14 [70, 200, 550, 750] 950 100,
      property 19 ''jamaica'' ''Jamaica'' Orange 200 16 [80, 220, 600, 800] 1000 100,
      FreeParkingTile 20 ''free_parking'' ''Free Parking'',
      property 21 ''uk'' ''United Kingdom'' Red 220 18 [90, 250, 700, 875] 1050 150,
      ChanceTile 22 ''chance_2'' ''Chance'',
      property 23 ''france'' ''France'' Red 220 18 [90, 250, 700, 875] 1050 150,
      property 24 ''spain'' ''Spain'' Red 240 20 [100, 300, 750, 925] 1100 150,
      airport 25 ''london_airport'' ''London Airport'',
      property 26 ''germany'' ''Germany'' Yellow 260 22 [110, 330, 800, 975] 1150 150,
      property 27 ''italy'' ''Italy'' Yellow 260 22 [110, 330, 800, 975] 1150 150,
      utility 28 ''water_works'' ''Water Works'',
      property 29 ''netherlands'' ''Netherlands'' Yellow 280 24 [120, 360, 850, 1025] 1200 150,
      GoToJailTile 30 ''go_to_jail'' ''Go To Jail'',
      property 31 ''india'' ''India'' Green 300 26 [130, 390, 900, 1100] 1275 200,
      property 32 ''china'' ''China'' Green 300 26 [130, 390, 900, 1100] 1275 200,
      WorldFundTile 33 ''world_fund_3'' ''World Fund'',
      property 34 ''japan'' ''Japan'' Green 320 28 [150, 450, 1000, 1200] 1400 200,
      airport 35 ''tokyo_airport'' ''Tokyo Airport'',
      ChanceTile 36 ''chance_3'' ''Chance'',
      property 37 ''south_korea'' ''South Korea'' Dark_blue 350 35 [175, 500, 1100, 1300] 1500 200,
      tax 38 ''luxury_tax'' ''Luxury Tax'' 100,
      property 39 ''australia'' ''Australia'' Dark_blue 400 50 [200, 600, 1400, 1700] 2000 200]"

definition CLASSIC_GAME_BOARD :: GameBoard where
  "CLASSIC_GAME_BOARD =
     \<lparr>board_key = Classic, board_name = ''Classic World Board'', passGoCash = 200,
      jailPosition = 10, tiles = classicTiles\<rparr>"

fun getGameBoard :: "GameBoardKey \<Rightarrow> GameBoard" where
  "getGameBoard Classic = CLASSIC_GAME_BOARD"

definition getTile :: "GameBoard \<Rightarrow> int \<Rightarrow> GameEngineError + GameTile" where
  "getTile board pos = ofOption (JsError ''Unknown board position'') (jsNth (tiles board) pos)"

text \<open>\<^verbatim>\<open>board.tiles.find((candidate) => candidate.key === tileKey)\<close>, used by every component.\<close>

definition findTile :: "GameBoard \<Rightarrow> string \<Rightarrow> GameTile option" where
  "findTile board k = findBy tile_key k (tiles board)"

text \<open>The tiles of one colour set, in board order.\<close>

definition setTilesOf :: "GameBoard \<Rightarrow> PropertySetKey \<Rightarrow> GameTile list" where
  "setTilesOf board sk = filter (\<lambda>t. kind t = Kind_property \<and> setKey t = sk) (tiles board)"

section \<open>The table\<close>

lemma getGameBoard_eq [simp]: "getGameBoard k = CLASSIC_GAME_BOARD"
  by (cases k) simp

lemma board_simps [simp]:
  "tiles CLASSIC_GAME_BOARD = classicTiles"
  "passGoCash CLASSIC_GAME_BOARD = 200"
  "jailPosition CLASSIC_GAME_BOARD = 10"
  by (simp_all add: CLASSIC_GAME_BOARD_def)

lemma length_classicTiles [simp]: "length classicTiles = 40"
  by (simp add: classicTiles_def)

lemma tile_index_classicTiles: "map tile_index classicTiles = map int [0..<40]"
  by code_simp

lemma distinct_tile_key: "distinct (map tile_key classicTiles)"
  by code_simp

definition ownableKind :: "GameTileKind \<Rightarrow> bool" where
  "ownableKind k \<longleftrightarrow> k = Kind_property \<or> k = Kind_airport \<or> k = Kind_utility"

fun tileOk :: "GameTile \<Rightarrow> bool" where
  "tileOk (PropertyTile i k n sk p base rents hotel cost mv) =
     (k \<noteq> [] \<and> 0 < p \<and> 2 * mv = p \<and> 0 < cost \<and> even cost \<and> length rents = 4 \<and>
      0 < base \<and> sorted (2 * base # rents @ [hotel]))"
| "tileOk (AirportTile i k n p rents mv) =
     (k \<noteq> [] \<and> 0 < p \<and> 2 * mv = p \<and> length rents = 4 \<and> sorted (0 # rents))"
| "tileOk (UtilityTile i k n p mults mv) =
     (k \<noteq> [] \<and> 0 < p \<and> 2 * mv = p \<and> length mults = 2 \<and> sorted (0 # mults))"
| "tileOk (TaxTile i k n a) = (k \<noteq> [] \<and> 0 < a)"
| "tileOk t = (tile_key t \<noteq> [])"

lemma list_all_tileOk: "list_all tileOk classicTiles"
  by code_simp

lemma tileOk_classic: "t \<in> set classicTiles \<Longrightarrow> tileOk t"
  using list_all_tileOk by (simp add: list_all_iff)

lemma findTile_SomeD:
  "findTile CLASSIC_GAME_BOARD k = Some t \<Longrightarrow> t \<in> set classicTiles \<and> tile_key t = k"
  by (auto simp: findTile_def dest: findBy_SomeD)

lemma findTile_key:
  "t \<in> set classicTiles \<Longrightarrow> findTile CLASSIC_GAME_BOARD (tile_key t) = Some t"
  by (simp add: findTile_def findBy_Some_iff [OF distinct_tile_key])

lemma findTile_tileOk: "findTile CLASSIC_GAME_BOARD k = Some t \<Longrightarrow> tileOk t"
  by (blast dest: findTile_SomeD tileOk_classic)

lemma getTile_ok:
  assumes "0 \<le> pos" "pos < 40"
  shows "\<exists>t. getTile CLASSIC_GAME_BOARD pos = Inr t \<and> t \<in> set classicTiles \<and> tile_index t = pos"
proof -
  let ?t = "classicTiles ! nat pos"
  have "nat pos < 40" using assms by simp
  then have "tile_index ?t = map tile_index classicTiles ! nat pos" by simp
  also have "\<dots> = pos" using assms by (simp add: tile_index_classicTiles)
  finally have "tile_index ?t = pos" .
  then show ?thesis
    using assms \<open>nat pos < 40\<close> by (auto simp: getTile_def jsNth_def)
qed

lemma getTile_InrD:
  assumes "getTile CLASSIC_GAME_BOARD pos = Inr t"
  shows "t \<in> set classicTiles" "tile_index t = pos" "0 \<le> pos" "pos < 40"
proof -
  from assms show pos: "0 \<le> pos" "pos < 40"
    by (auto simp: getTile_def jsNth_def split: if_splits)
  from getTile_ok [OF this] assms show "t \<in> set classicTiles" "tile_index t = pos" by auto
qed

lemma tile_index_range:
  assumes "t \<in> set classicTiles"
  shows "0 \<le> tile_index t \<and> tile_index t < 40"
proof -
  from assms have "tile_index t \<in> set (map tile_index classicTiles)" by simp
  then show ?thesis unfolding tile_index_classicTiles by auto
qed

lemma getTile_tile_index: "t \<in> set classicTiles \<Longrightarrow> getTile CLASSIC_GAME_BOARD (tile_index t) = Inr t"
proof -
  assume t: "t \<in> set classicTiles"
  obtain i where i: "i < 40" "t = classicTiles ! i"
    using t by (auto simp: in_set_conv_nth)
  have "map tile_index classicTiles ! i = int i"
    using i(1) by (simp add: tile_index_classicTiles)
  with i show ?thesis by (simp add: getTile_def jsNth_def)
qed

text \<open>Half of a house cost, the price a building sells at, is a whole number.\<close>

lemma houseCost_half:
  assumes "t \<in> set classicTiles" "kind t = Kind_property"
  shows "2 * (houseCost t div 2) = houseCost t" "0 < houseCost t div 2"
proof -
  have "tileOk t" using assms(1) by (rule tileOk_classic)
  then show "2 * (houseCost t div 2) = houseCost t" "0 < houseCost t div 2"
    using assms(2) by (cases t; auto)+
qed

lemma ownable_prices:
  assumes "t \<in> set classicTiles" "ownableKind (kind t)"
  shows "0 < price t" "2 * mortgageValue t = price t" "tile_key t \<noteq> []"
proof -
  have "tileOk t" using assms(1) by (rule tileOk_classic)
  then show "0 < price t" "2 * mortgageValue t = price t" "tile_key t \<noteq> []"
    using assms(2) by (cases t; auto simp: ownableKind_def)+
qed

lemma tax_amount_pos: "t \<in> set classicTiles \<Longrightarrow> kind t = Kind_tax \<Longrightarrow> 0 < taxAmount t"
  using tileOk_classic by (cases t) fastforce+

end
