(* ===== verification/Game_Money.thy ===== *)
theory Game_Money
  imports Game_Board
begin

text \<open>
  Cash, \<^verbatim>\<open>src/src/game/engine/game-engine-money.ts\<close>: looking a player up, debiting and
  crediting, transfers, and payments that turn into a debt when the payer is short. The
  \<open>ledger\<close> locale states what the rest of the engine relies on (balances after a debit or a
  credit, the total of all balances) and derives transfers from it; it is interpreted on
  \<open>debitPlayer\<close> and \<open>creditPlayer\<close>.
\<close>

section \<open>Operations\<close>

definition findPlayer :: "GameEngineState \<Rightarrow> string \<Rightarrow> GameEngineError + GameEnginePlayer" where
  "findPlayer s pid = ofOption (EngineError PLAYER_NOT_FOUND) (findBy roomPlayerId pid (players s))"

text \<open>The recurring \<^verbatim>\<open>{ ...state, players: state.players.map(...) }\<close> at one player.\<close>

definition modifyPlayer ::
  "string \<Rightarrow> (GameEnginePlayer \<Rightarrow> GameEnginePlayer) \<Rightarrow> GameEngineState \<Rightarrow> GameEngineState" where
  "modifyPlayer pid f s = s\<lparr>players := updateBy roomPlayerId pid f (players s)\<rparr>"

definition debitPlayer :: "GameEngineState \<Rightarrow> string \<Rightarrow> int \<Rightarrow> GameEngineError + GameEngineState" where
  "debitPlayer s pid amount =
     andThen (raiseIf (amount < 0) (JsError ''Debit amount cannot be negative'')) (\<lambda>_.
     andThen (findPlayer s pid) (\<lambda>player.
     andThen (raiseIf (cash player < amount) (EngineError INSUFFICIENT_FUNDS)) (\<lambda>_.
     Inr (modifyPlayer pid (\<lambda>c. c\<lparr>cash := cash c - amount\<rparr>) s))))"

definition creditPlayer :: "GameEngineState \<Rightarrow> string \<Rightarrow> int \<Rightarrow> GameEngineError + GameEngineState" where
  "creditPlayer s pid amount =
     andThen (raiseIf (amount < 0) (JsError ''Credit amount cannot be negative'')) (\<lambda>_.
     andThen (findPlayer s pid) (\<lambda>_.
     Inr (modifyPlayer pid (\<lambda>c. c\<lparr>cash := cash c + amount\<rparr>) s)))"

definition transferPlayerCash ::
  "GameEngineState \<Rightarrow> string \<Rightarrow> string \<Rightarrow> int \<Rightarrow> GameEngineError + GameEngineState" where
  "transferPlayerCash s fromId toId amount =
     andThen (debitPlayer s fromId amount) (\<lambda>debited. creditPlayer debited toId amount)"

definition createDebtState :: "GameEngineState \<Rightarrow> GameEngineDebt \<Rightarrow> GameEngineState" where
  "createDebtState s d =
     s\<lparr>phase := Awaiting_debt_resolution, pendingTileKey := None, auction := None,
       debt := Some d, shouldCurrentPlayerPlayAgain := False\<rparr>"

text \<open>The third component is the flag \<^verbatim>\<open>paid\<close>.\<close>

definition debitPlayerOrCreateDebt ::
  "GameEngineState \<Rightarrow> string \<Rightarrow> int \<Rightarrow> GameEngineDebtReason \<Rightarrow> string option \<Rightarrow>
   GameEngineError + (GameEngineState \<times> GameEngineEvent list \<times> bool)" where
  "debitPlayerOrCreateDebt s pid amount reason creditor =
     andThen (findPlayer s pid) (\<lambda>player.
     andThen (raiseIf (amount < 0) (JsError ''Debit amount cannot be negative'')) (\<lambda>_.
     if amount \<le> cash player
     then andThen (debitPlayer s pid amount) (\<lambda>s'. Inr (s', [], True))
     else Inr (createDebtState s \<lparr>debt_roomPlayerId = pid, creditorRoomPlayerId = creditor,
                                  debt_amount = amount, debt_reason = reason\<rparr>,
               [Payment_required pid creditor amount reason], False)))"

definition transferPlayerCashOrCreateDebt ::
  "GameEngineState \<Rightarrow> string \<Rightarrow> string \<Rightarrow> int \<Rightarrow> GameEngineDebtReason \<Rightarrow>
   GameEngineError + (GameEngineState \<times> GameEngineEvent list \<times> bool)" where
  "transferPlayerCashOrCreateDebt s fromId toId amount reason =
     andThen (findPlayer s fromId) (\<lambda>debtor.
     andThen (findPlayer s toId) (\<lambda>_.
     if amount \<le> cash debtor
     then andThen (transferPlayerCash s fromId toId amount) (\<lambda>s'. Inr (s', [], True))
     else Inr (createDebtState s \<lparr>debt_roomPlayerId = fromId, creditorRoomPlayerId = Some toId,
                                  debt_amount = amount, debt_reason = reason\<rparr>,
               [Payment_required fromId (Some toId) amount reason], False)))"

section \<open>Looking players up\<close>

definition playerIds :: "GameEngineState \<Rightarrow> string list" where
  "playerIds s = map roomPlayerId (players s)"

definition balance :: "GameEngineState \<Rightarrow> string \<Rightarrow> int option" where
  "balance s pid = map_option cash (findBy roomPlayerId pid (players s))"

definition totalCash :: "GameEngineState \<Rightarrow> int" where
  "totalCash s = (\<Sum>p\<leftarrow>players s. cash p)"

definition solvent :: "GameEngineState \<Rightarrow> bool" where
  "solvent s \<longleftrightarrow> distinct (playerIds s) \<and> list_all (\<lambda>p. 0 \<le> cash p) (players s)"

lemma findPlayer_Inr_iff [simp]:
  "findPlayer s pid = Inr p \<longleftrightarrow> findBy roomPlayerId pid (players s) = Some p"
  by (simp add: findPlayer_def)

lemma findPlayer_Inl_iff [simp]:
  "findPlayer s pid = Inl e \<longleftrightarrow> e = EngineError PLAYER_NOT_FOUND \<and> pid \<notin> set (playerIds s)"
  by (auto simp: findPlayer_def findBy_None_iff playerIds_def)

lemma findPlayer_in_ids: "findBy roomPlayerId pid (players s) = Some p \<Longrightarrow> pid \<in> set (playerIds s)"
  by (auto simp: playerIds_def dest: findBy_SomeD)

lemma ids_findPlayer:
  "pid \<in> set (playerIds s) \<Longrightarrow> \<exists>p. findBy roomPlayerId pid (players s) = Some p"
  by (auto simp: playerIds_def intro: ex_findBy)

lemma findPlayer_unique:
  assumes "distinct (playerIds s)" "p \<in> set (players s)"
  shows "findBy roomPlayerId (roomPlayerId p) (players s) = Some p"
  using assms by (simp add: playerIds_def findBy_Some_iff)

text \<open>An update of one player leaves every other field of the state alone.\<close>

lemma modifyPlayer_frame [simp]:
  "phase (modifyPlayer pid f s) = phase s"
  "properties (modifyPlayer pid f s) = properties s"
  "decks (modifyPlayer pid f s) = decks s"
  "boardKey (modifyPlayer pid f s) = boardKey s"
  "debt (modifyPlayer pid f s) = debt s"
  "auction (modifyPlayer pid f s) = auction s"
  "tradeOffer (modifyPlayer pid f s) = tradeOffer s"
  "pendingTileKey (modifyPlayer pid f s) = pendingTileKey s"
  "currentTurnRoomPlayerId (modifyPlayer pid f s) = currentTurnRoomPlayerId s"
  "turnNumber (modifyPlayer pid f s) = turnNumber s"
  "consecutiveDoublesCount (modifyPlayer pid f s) = consecutiveDoublesCount s"
  "shouldCurrentPlayerPlayAgain (modifyPlayer pid f s) = shouldCurrentPlayerPlayAgain s"
  "lastDiceRoll (modifyPlayer pid f s) = lastDiceRoll s"
  "expiresAt (modifyPlayer pid f s) = expiresAt s"
  "players (modifyPlayer pid f s) = updateBy roomPlayerId pid f (players s)"
  by (simp_all add: modifyPlayer_def)

lemma playerIds_modifyPlayer [simp]:
  assumes "\<And>p. roomPlayerId (f p) = roomPlayerId p"
  shows "playerIds (modifyPlayer pid f s) = playerIds s"
  using assms by (simp add: playerIds_def)

section \<open>The ledger contract\<close>

text \<open>
  What a component that moves money relies on. A \<open>valid\<close> ledger knows its accounts and holds no
  negative balance; a debit succeeds exactly for an amount the account covers, a credit exactly
  for a non-negative amount to a known account, and each changes one balance and the total by
  the amount.
\<close>

locale ledger =
  fixes balance_of :: "'s \<Rightarrow> 'k \<Rightarrow> int option"
    and total :: "'s \<Rightarrow> int"
    and debit :: "'s \<Rightarrow> 'k \<Rightarrow> int \<Rightarrow> 'e + 's"
    and credit :: "'s \<Rightarrow> 'k \<Rightarrow> int \<Rightarrow> 'e + 's"
    and valid :: "'s \<Rightarrow> bool"
  assumes debit_possible: "valid s \<Longrightarrow>
      (\<exists>s'. debit s k a = Inr s') \<longleftrightarrow> 0 \<le> a \<and> (\<exists>b. balance_of s k = Some b \<and> a \<le> b)"
    and debit_balance: "valid s \<Longrightarrow> debit s k a = Inr s' \<Longrightarrow>
      balance_of s' = (balance_of s)(k \<mapsto> the (balance_of s k) - a)"
    and debit_total: "valid s \<Longrightarrow> debit s k a = Inr s' \<Longrightarrow> total s' = total s - a"
    and debit_valid: "valid s \<Longrightarrow> debit s k a = Inr s' \<Longrightarrow> valid s'"
    and credit_possible: "valid s \<Longrightarrow>
      (\<exists>s'. credit s k a = Inr s') \<longleftrightarrow> 0 \<le> a \<and> balance_of s k \<noteq> None"
    and credit_balance: "valid s \<Longrightarrow> credit s k a = Inr s' \<Longrightarrow>
      balance_of s' = (balance_of s)(k \<mapsto> the (balance_of s k) + a)"
    and credit_total: "valid s \<Longrightarrow> credit s k a = Inr s' \<Longrightarrow> total s' = total s + a"
    and credit_valid: "valid s \<Longrightarrow> credit s k a = Inr s' \<Longrightarrow> valid s'"
begin

lemma transfer_possible:
  assumes "valid s"
  shows "(\<exists>s'. andThen (debit s k a) (\<lambda>t. credit t k' a) = Inr s') \<longleftrightarrow>
     0 \<le> a \<and> (\<exists>b. balance_of s k = Some b \<and> a \<le> b) \<and> balance_of s k' \<noteq> None"
proof (cases "\<exists>t. debit s k a = Inr t")
  case False
  then show ?thesis
    using debit_possible [OF assms, of k a] by (simp only: andThen_Inr_iff) blast
next
  case True
  then obtain t where t: "debit s k a = Inr t" ..
  have paid: "0 \<le> a \<and> (\<exists>b. balance_of s k = Some b \<and> a \<le> b)"
    using True debit_possible [OF assms, of k a] by blast
  have "(\<exists>s'. credit t k' a = Inr s') \<longleftrightarrow> 0 \<le> a \<and> balance_of t k' \<noteq> None"
    by (rule credit_possible [OF debit_valid [OF assms t]])
  also have "balance_of t k' \<noteq> None \<longleftrightarrow> balance_of s k' \<noteq> None"
    using paid by (auto simp: debit_balance [OF assms t])
  finally show ?thesis
    using paid by (simp add: t)
qed

lemma transfer_total:
  assumes "valid s" "andThen (debit s k a) (\<lambda>t. credit t k' a) = Inr s'"
  shows "total s' = total s"
proof -
  from assms(2) obtain t where t: "debit s k a = Inr t" and s': "credit t k' a = Inr s'"
    by auto
  show ?thesis
    using debit_total [OF assms(1) t] credit_total [OF debit_valid [OF assms(1) t] s'] by simp
qed

lemma transfer_valid:
  assumes "valid s" "andThen (debit s k a) (\<lambda>t. credit t k' a) = Inr s'"
  shows "valid s'"
proof -
  from assms(2) obtain t where t: "debit s k a = Inr t" and s': "credit t k' a = Inr s'"
    by auto
  show ?thesis by (rule credit_valid [OF debit_valid [OF assms(1) t] s'])
qed

lemma transfer_balance:
  assumes "valid s" "andThen (debit s k a) (\<lambda>t. credit t k' a) = Inr s'" "k \<noteq> k'"
  shows "balance_of s' = (balance_of s)(k \<mapsto> the (balance_of s k) - a, k' \<mapsto> the (balance_of s k') + a)"
proof -
  from assms(2) obtain t where t: "debit s k a = Inr t" and s': "credit t k' a = Inr s'"
    by auto
  show ?thesis
    using assms(3) credit_balance [OF debit_valid [OF assms(1) t] s']
    by (simp add: debit_balance [OF assms(1) t])
qed

lemma transfers_total:
  assumes "valid s"
    and "foldM (\<lambda>t x. andThen (debit t (src x) (amt x)) (\<lambda>u. credit u (dst x) (amt x))) s xs = Inr s'"
  shows "valid s' \<and> total s' = total s"
proof (rule foldM_invariant [where P = "\<lambda>t. valid t \<and> total t = total s", OF assms(2)])
  show "valid s \<and> total s = total s" using assms(1) by simp
  show "\<And>x c c'. x \<in> set xs \<Longrightarrow> valid c \<and> total c = total s \<Longrightarrow>
      andThen (debit c (src x) (amt x)) (\<lambda>u. credit u (dst x) (amt x)) = Inr c' \<Longrightarrow>
      valid c' \<and> total c' = total s"
    using transfer_valid transfer_total by metis
qed

end

section \<open>The engine keeps the contract\<close>

lemma debitPlayer_Inr_iff:
  "debitPlayer s pid a = Inr s' \<longleftrightarrow>
     0 \<le> a \<and> (\<exists>p. findBy roomPlayerId pid (players s) = Some p \<and> a \<le> cash p) \<and>
     s' = modifyPlayer pid (\<lambda>c. c\<lparr>cash := cash c - a\<rparr>) s"
  by (auto simp: debitPlayer_def not_less)

lemma creditPlayer_Inr_iff:
  "creditPlayer s pid a = Inr s' \<longleftrightarrow>
     0 \<le> a \<and> pid \<in> set (playerIds s) \<and> s' = modifyPlayer pid (\<lambda>c. c\<lparr>cash := cash c + a\<rparr>) s"
  by (auto simp: creditPlayer_def not_less dest: findPlayer_in_ids ids_findPlayer)

lemma balance_modifyPlayer:
  assumes "\<And>p. roomPlayerId (f p) = roomPlayerId p" "\<And>p. cash (f p) = g (cash p)"
    and "findBy roomPlayerId pid (players s) = Some p"
  shows "balance (modifyPlayer pid f s) = (balance s)(pid \<mapsto> g (the (balance s pid)))"
  using assms by (auto simp: balance_def findBy_updateBy fun_eq_iff)

lemma totalCash_modifyPlayer:
  assumes "distinct (playerIds s)" "findBy roomPlayerId pid (players s) = Some p"
  shows "totalCash (modifyPlayer pid f s) = totalCash s - cash p + cash (f p)"
  using assms by (simp add: totalCash_def playerIds_def sum_list_updateBy)

lemma solvent_modifyPlayer:
  assumes "solvent s" "\<And>p. roomPlayerId (f p) = roomPlayerId p"
    and "\<And>p. findBy roomPlayerId pid (players s) = Some p \<Longrightarrow> 0 \<le> cash (f p)"
  shows "solvent (modifyPlayer pid f s)"
  using assms findPlayer_unique [of s]
  by (auto simp: solvent_def list_all_iff elim!: updateByE)

interpretation cash_ledger: ledger balance totalCash debitPlayer creditPlayer solvent
proof
  fix s k a
  show "(\<exists>s'. debitPlayer s k a = Inr s') \<longleftrightarrow> 0 \<le> a \<and> (\<exists>b. balance s k = Some b \<and> a \<le> b)"
    by (auto simp: debitPlayer_Inr_iff balance_def)
  show "(\<exists>s'. creditPlayer s k a = Inr s') \<longleftrightarrow> 0 \<le> a \<and> balance s k \<noteq> None"
    by (auto simp: creditPlayer_Inr_iff balance_def dest: findPlayer_in_ids ids_findPlayer)
next
  fix s s' :: GameEngineState and k :: string and a :: int
  assume ok: "solvent s" and dist: "debitPlayer s k a = Inr s'"
  then obtain p where p: "findBy roomPlayerId k (players s) = Some p" "a \<le> cash p"
    and s': "s' = modifyPlayer k (\<lambda>c. c\<lparr>cash := cash c - a\<rparr>) s"
    by (auto simp: debitPlayer_Inr_iff)
  show "balance s' = (balance s)(k \<mapsto> the (balance s k) - a)"
    unfolding s' by (rule balance_modifyPlayer [where g = "\<lambda>b. b - a", OF _ _ p(1)]) auto
  show "totalCash s' = totalCash s - a"
    using ok p by (simp add: s' solvent_def totalCash_modifyPlayer)
  show "solvent s'"
    unfolding s' using ok p by (intro solvent_modifyPlayer) auto
next
  fix s s' :: GameEngineState and k :: string and a :: int
  assume ok: "solvent s" and dist: "creditPlayer s k a = Inr s'"
  then obtain p where p: "findBy roomPlayerId k (players s) = Some p" "0 \<le> a"
    and s': "s' = modifyPlayer k (\<lambda>c. c\<lparr>cash := cash c + a\<rparr>) s"
    by (auto simp: creditPlayer_Inr_iff dest: ids_findPlayer)
  have "0 \<le> cash p"
    using ok p by (auto simp: solvent_def list_all_iff dest: findBy_SomeD)
  show "balance s' = (balance s)(k \<mapsto> the (balance s k) + a)"
    unfolding s' by (rule balance_modifyPlayer [where g = "\<lambda>b. b + a", OF _ _ p(1)]) auto
  show "totalCash s' = totalCash s + a"
    using ok p by (simp add: s' solvent_def totalCash_modifyPlayer)
  show "solvent s'"
    unfolding s' using ok p \<open>0 \<le> cash p\<close> by (intro solvent_modifyPlayer) auto
qed

section \<open>Properties\<close>

definition samplePlayer :: "string \<Rightarrow> int \<Rightarrow> int \<Rightarrow> GameEnginePlayer" where
  "samplePlayer pid seat c =
     \<lparr>roomPlayerId = pid, userId = None, username = None, playerType = Human,
      botDifficulty = None, botName = None, seatNumber = seat, cash = c, position = 0,
      inJail = False, jailTurnCount = 0, getOutOfJailFreeCards = 0,
      getOutOfJailFreeCardKeys = Some [], consecutiveMissedTurns = Some 0,
      lastMissedTurnNumber = None, lastBotTradeProposalTurnNumber = None, bankrupt = False\<rparr>"

definition sampleState :: "GameEnginePlayer list \<Rightarrow> GameEngineState" where
  "sampleState ps =
     \<lparr>state_version = 1, roomId = ''r'', roomCode = ''c'', boardKey = Classic, mode = Casual,
      startedAt = Some 0, durationMinutes = Some 60, expiresAt = Some 3600000,
      turnExpiresAt = Some 90000, phase = Awaiting_first_turn, turnNumber = 1,
      currentTurnRoomPlayerId = (case ps of [] \<Rightarrow> [] | p # _ \<Rightarrow> roomPlayerId p),
      consecutiveDoublesCount = 0, shouldCurrentPlayerPlayAgain = False, lastDiceRoll = None,
      pendingTileKey = None, auction = None, tradeOffer = None, debt = None,
      decks = \<lparr>chance = \<lparr>drawPile = [], discardPile = []\<rparr>,
               worldFund = \<lparr>drawPile = [], discardPile = []\<rparr>\<rparr>,
      players = ps, properties = []\<rparr>"

text \<open>
  On a state with distinct players and no negative cash, a transfer succeeds exactly when the
  amount is not negative, the payer holds it and the receiver exists; then the payer's balance falls
  and the receiver's rises by the amount, no other balance changes, and the total of all cash is the
  same.
\<close>

theorem transfer_conserves_cash:
  assumes "solvent s" "payer \<noteq> receiver"
  shows "((\<exists>s'. transferPlayerCash s payer receiver amount = Inr s') \<longleftrightarrow>
      0 \<le> amount \<and> (\<exists>b. balance s payer = Some b \<and> amount \<le> b) \<and> balance s receiver \<noteq> None) \<and>
    (\<forall>s'. transferPlayerCash s payer receiver amount = Inr s' \<longrightarrow>
      balance s' = (balance s)(payer \<mapsto> the (balance s payer) - amount,
                               receiver \<mapsto> the (balance s receiver) + amount) \<and>
      totalCash s' = totalCash s \<and> solvent s')"
proof (intro conjI allI impI)
  show "(\<exists>s'. transferPlayerCash s payer receiver amount = Inr s') \<longleftrightarrow>
      0 \<le> amount \<and> (\<exists>b. balance s payer = Some b \<and> amount \<le> b) \<and> balance s receiver \<noteq> None"
    unfolding transferPlayerCash_def by (rule cash_ledger.transfer_possible [OF assms(1)])
next
  fix s'
  assume paid: "transferPlayerCash s payer receiver amount = Inr s'"
  note step = assms(1) paid [unfolded transferPlayerCash_def]
  show "balance s' = (balance s)(payer \<mapsto> the (balance s payer) - amount,
                               receiver \<mapsto> the (balance s receiver) + amount)"
    by (rule cash_ledger.transfer_balance [OF step assms(2)])
  show "totalCash s' = totalCash s" by (rule cash_ledger.transfer_total [OF step])
  show "solvent s'" by (rule cash_ledger.transfer_valid [OF step])
qed

definition twoPlayers :: GameEngineState where
  "twoPlayers = sampleState [samplePlayer ''a'' 1 100, samplePlayer ''b'' 2 7]"

lemma twoPlayers_values:
  "solvent twoPlayers" "balance twoPlayers ''a'' = Some 100" "balance twoPlayers ''b'' = Some 7"
  "totalCash twoPlayers = 107"
  by code_simp+

theorem transfer_conserves_cash_witness:
  "\<exists>s'. transferPlayerCash twoPlayers ''a'' ''b'' 30 = Inr s' \<and>
     totalCash s' = 107 \<and> balance s' ''a'' = Some 70 \<and> balance s' ''b'' = Some 37"
  using transfer_conserves_cash [OF twoPlayers_values(1), of "''a''" "''b''" 30]
  by (auto simp: twoPlayers_values)

end
