(* ===== verification/Game_Turns.thy ===== *)
theory Game_Turns
  imports Game_Money
begin

text \<open>
  Guards, dice and the turn cycle: \<^verbatim>\<open>game-engine-assertions.ts\<close>, \<^verbatim>\<open>game-engine-dice.ts\<close>,
  \<^verbatim>\<open>game-engine-turns.ts\<close>, \<^verbatim>\<open>game-engine-cloner.ts\<close> and \<^verbatim>\<open>game-engine-missed-turns.ts\<close> under
  \<^verbatim>\<open>src/src/game/engine\<close>. The lemmas say who plays next: the cyclic successor of the current
  player among the players that are not bankrupt, in seat order.
\<close>

section \<open>Guards\<close>

definition assertGameActive :: "GameEngineState \<Rightarrow> GameEngineError + unit" where
  "assertGameActive s =
     raiseIf (phase s = Finished \<or> phase s = Cancelled) (EngineError GAME_NOT_ACTIVE)"

definition assertNoDebtResolution :: "GameEngineState \<Rightarrow> GameEngineError + unit" where
  "assertNoDebtResolution s =
     raiseIf (phase s = Awaiting_debt_resolution \<or> debt s \<noteq> None)
       (EngineError DEBT_RESOLUTION_REQUIRED)"

definition assertCanRoll :: "GameEngineState \<Rightarrow> GameEngineError + unit" where
  "assertCanRoll s =
     andThen (assertGameActive s) (\<lambda>_.
     andThen (assertNoDebtResolution s) (\<lambda>_.
     raiseIf (phase s \<noteq> Awaiting_first_turn \<and> phase s \<noteq> Awaiting_roll)
       (EngineError ROLL_NOT_ALLOWED)))"

definition assertCanBuyProperty :: "GameEngineState \<Rightarrow> GameEngineError + unit" where
  "assertCanBuyProperty s =
     andThen (assertGameActive s) (\<lambda>_.
     andThen (assertNoDebtResolution s) (\<lambda>_.
     raiseIf (phase s \<noteq> Awaiting_property_decision) (EngineError BUY_NOT_ALLOWED)))"

definition assertCanEndTurn :: "GameEngineState \<Rightarrow> GameEngineError + unit" where
  "assertCanEndTurn s =
     andThen (assertGameActive s) (\<lambda>_.
     andThen (assertNoDebtResolution s) (\<lambda>_.
     raiseIf (phase s \<noteq> Awaiting_turn_end) (EngineError TURN_END_NOT_ALLOWED)))"

definition assertCurrentTurn :: "GameEngineState \<Rightarrow> string \<Rightarrow> GameEngineError + unit" where
  "assertCurrentTurn s pid =
     andThen (ofOption (EngineError PLAYER_NOT_FOUND) (findBy roomPlayerId pid (players s)))
       (\<lambda>player.
     andThen (raiseIf (bankrupt player) (EngineError PLAYER_NOT_FOUND)) (\<lambda>_.
     raiseIf (currentTurnRoomPlayerId s \<noteq> pid) (EngineError NOT_CURRENT_TURN)))"

definition assertValidDice :: "int list \<Rightarrow> GameEngineError + unit" where
  "assertValidDice dice =
     raiseIf (length dice \<noteq> 2 \<or> list_ex (\<lambda>v. v < 1 \<or> v > 6) dice) (EngineError INVALID_DICE)"

section \<open>Dice\<close>

definition isDoubles :: "DiceRoll \<Rightarrow> bool" where
  "isDoubles dice \<longleftrightarrow> fst dice = snd dice"

definition applyDoublesState :: "GameEngineState \<Rightarrow> DiceRoll \<Rightarrow> GameEngineState" where
  "applyDoublesState s dice =
     (if \<not> isDoubles dice
      then s\<lparr>consecutiveDoublesCount := 0, shouldCurrentPlayerPlayAgain := False\<rparr>
      else let n = consecutiveDoublesCount s + 1
           in s\<lparr>consecutiveDoublesCount := n, shouldCurrentPlayerPlayAgain := n < 3\<rparr>)"

definition isThirdConsecutiveDoubles :: "GameEngineState \<Rightarrow> DiceRoll \<Rightarrow> bool" where
  "isThirdConsecutiveDoubles s dice \<longleftrightarrow> isDoubles dice \<and> consecutiveDoublesCount s + 1 \<ge> 3"

section \<open>Copying a state\<close>

definition cloneGamePlayer :: "GameEnginePlayer \<Rightarrow> GameEnginePlayer" where
  "cloneGamePlayer p = p"

definition cloneGameProperty :: "GameEngineProperty \<Rightarrow> GameEngineProperty" where
  "cloneGameProperty p = p"

definition cloneGameAuction :: "GameEngineAuction \<Rightarrow> GameEngineAuction" where
  "cloneGameAuction a =
     a\<lparr>activeRoomPlayerIds := map id (activeRoomPlayerIds a),
       passedRoomPlayerIds := map id (passedRoomPlayerIds a)\<rparr>"

definition cloneGameTradeOffer :: "GameEngineTradeOffer \<Rightarrow> GameEngineTradeOffer" where
  "cloneGameTradeOffer t =
     t\<lparr>offeredPropertyKeys := map id (offeredPropertyKeys t),
       requestedPropertyKeys := map id (requestedPropertyKeys t)\<rparr>"

definition cloneGameDeckState :: "GameEngineDeckState \<Rightarrow> GameEngineDeckState" where
  "cloneGameDeckState d = \<lparr>drawPile = map id (drawPile d), discardPile = map id (discardPile d)\<rparr>"

definition cloneGameDecks :: "GameEngineDecks \<Rightarrow> GameEngineDecks" where
  "cloneGameDecks d =
     \<lparr>chance = cloneGameDeckState (chance d), worldFund = cloneGameDeckState (worldFund d)\<rparr>"

definition cloneDiceRoll :: "DiceRoll \<Rightarrow> DiceRoll" where
  "cloneDiceRoll dice = (fst dice, snd dice)"

definition cloneGameState :: "GameEngineState \<Rightarrow> GameEngineState" where
  "cloneGameState s =
     s\<lparr>lastDiceRoll := map_option cloneDiceRoll (lastDiceRoll s),
       pendingTileKey := pendingTileKey s,
       auction := map_option cloneGameAuction (auction s),
       tradeOffer := map_option cloneGameTradeOffer (tradeOffer s),
       decks := cloneGameDecks (decks s),
       players := map cloneGamePlayer (players s),
       properties := map cloneGameProperty (properties s)\<rparr>"

section \<open>Turn order\<close>

definition getActivePlayers :: "GameEngineState \<Rightarrow> GameEnginePlayer list" where
  "getActivePlayers s = sort_key seatNumber (filter (\<lambda>p. \<not> bankrupt p) (players s))"

definition findNextActivePlayer :: "GameEngineState \<Rightarrow> GameEngineError + GameEnginePlayer" where
  "findNextActivePlayer s =
     (let activePlayers = getActivePlayers s in
      andThen (raiseIf (length activePlayers = 0) (EngineError NO_ACTIVE_PLAYERS)) (\<lambda>_.
      let currentIndex =
        jsFindIndex (\<lambda>p. roomPlayerId p = currentTurnRoomPlayerId s) activePlayers in
      andThen (raiseIf (currentIndex = -1) (EngineError PLAYER_NOT_FOUND)) (\<lambda>_.
      ofOption UndefinedRead
        (jsNth activePlayers (jsRem (currentIndex + 1) (int (length activePlayers)))))))"

definition endTurn :: "GameEngineState \<Rightarrow> string \<Rightarrow> GameEngineError + GameEngineResult" where
  "endTurn s pid =
     (if shouldCurrentPlayerPlayAgain s
      then Inr (s\<lparr>phase := Awaiting_roll, lastDiceRoll := None, tradeOffer := None,
                  shouldCurrentPlayerPlayAgain := False\<rparr>,
                [Turn_ended pid pid (turnNumber s)])
      else andThen (findNextActivePlayer s) (\<lambda>nextPlayer.
        let nextTurnNumber = turnNumber s + 1 in
        Inr (s\<lparr>phase := Awaiting_roll, turnNumber := nextTurnNumber,
               currentTurnRoomPlayerId := roomPlayerId nextPlayer,
               consecutiveDoublesCount := 0, shouldCurrentPlayerPlayAgain := False,
               lastDiceRoll := None, tradeOffer := None\<rparr>,
             [Turn_ended pid (roomPlayerId nextPlayer) nextTurnNumber])))"

section \<open>Missed turns\<close>

definition incrementMissedTurn :: "GameEngineState \<Rightarrow> string option \<Rightarrow> int \<Rightarrow> GameEngineState" where
  "incrementMissedTurn s pid turn =
     (if \<not> truthy pid then s
      else s\<lparr>players := map (\<lambda>p.
        if Some (roomPlayerId p) \<noteq> pid \<or> playerType p \<noteq> Human \<or> bankrupt p
           \<or> lastMissedTurnNumber p = Some turn
        then p
        else p\<lparr>consecutiveMissedTurns :=
                 Some ((case consecutiveMissedTurns p of None \<Rightarrow> 0 | Some n \<Rightarrow> n) + 1),
               lastMissedTurnNumber := Some turn\<rparr>) (players s)\<rparr>)"

definition resetMissedTurn :: "GameEngineState \<Rightarrow> string option \<Rightarrow> GameEngineState" where
  "resetMissedTurn s pid =
     (if \<not> truthy pid then s
      else s\<lparr>players := map (\<lambda>p.
        if Some (roomPlayerId p) \<noteq> pid \<or> playerType p \<noteq> Human
        then p
        else p\<lparr>consecutiveMissedTurns := Some 0, lastMissedTurnNumber := None\<rparr>) (players s)\<rparr>)"

definition getConsecutiveMissedTurns :: "GameEngineState \<Rightarrow> string \<Rightarrow> int" where
  "getConsecutiveMissedTurns s pid =
     (case findBy roomPlayerId pid (players s) of
        None \<Rightarrow> 0
      | Some p \<Rightarrow> (case consecutiveMissedTurns p of None \<Rightarrow> 0 | Some n \<Rightarrow> n))"

section \<open>Copies are equal\<close>

lemma clone_id [simp]:
  "cloneDiceRoll = id" "cloneGamePlayer = id" "cloneGameProperty = id" "cloneGameAuction = id"
  "cloneGameTradeOffer = id" "cloneGameDeckState = id" "cloneGameDecks = id"
proof -
  show deck: "cloneGameDeckState = id"
    by (rule ext) (simp add: cloneGameDeckState_def)
  show "cloneGameDecks = id"
    by (rule ext) (simp add: cloneGameDecks_def deck)
qed (auto simp: cloneDiceRoll_def cloneGamePlayer_def cloneGameProperty_def cloneGameAuction_def
      cloneGameTradeOffer_def)

lemma cloneGameState_id [simp]: "cloneGameState s = s"
  by (simp add: cloneGameState_def option.map_id)

section \<open>The turn cycle\<close>

text \<open>
  The contract between the players and whoever ends a turn: while a state is \<open>ready\<close>, ending the
  turn always succeeds, keeps the seats and passes the turn to the next seat. What follows is
  fairness: in one round every seat plays once, and the turn comes back.
\<close>

locale turn_cycle =
  fixes seats :: "'s \<Rightarrow> 'k list"
    and current :: "'s \<Rightarrow> 'k"
    and advance :: "'s \<Rightarrow> 's option"
    and ready :: "'s \<Rightarrow> bool"
  assumes seated: "ready s \<Longrightarrow> distinct (seats s) \<and> current s \<in> set (seats s)"
    and advances: "ready s \<Longrightarrow> \<exists>t. advance s = Some t \<and> ready t \<and> seats t = seats s \<and>
      ringNext (seats s) (current s) = Some (current t)"
begin

lemma after_turns:
  assumes "ready s" "i < length (seats s)" "current s = seats s ! i"
  shows "\<exists>t. iterM k advance s = Some t \<and> ready t \<and> seats t = seats s \<and>
     current t = seats s ! ((i + k) mod length (seats s))"
  using assms
proof (induction k arbitrary: s i)
  case 0
  then show ?case by simp
next
  case (Suc k)
  let ?n = "length (seats s)"
  obtain t where t: "advance s = Some t" "ready t" "seats t = seats s"
    and "ringNext (seats s) (current s) = Some (current t)"
    using advances [OF Suc.prems(1)] by blast
  then have "current t = seats t ! (Suc i mod ?n)"
    using Suc.prems seated [OF Suc.prems(1)] by (auto simp: ringNext_nth)
  moreover have "Suc i mod ?n < length (seats t)"
    unfolding t(3) by (rule mod_less_divisor) (use Suc.prems(2) in linarith)
  ultimately obtain u where "iterM k advance t = Some u" "ready u" "seats u = seats t"
    "current u = seats t ! ((Suc i mod ?n + k) mod ?n)"
    using Suc.IH [OF t(2), of "Suc i mod ?n"] t(3) by auto
  then show ?case using t by (auto simp: mod_simps)
qed

lemma round_returns:
  assumes "ready s"
  shows "\<exists>t. iterM (length (seats s)) advance s = Some t \<and> current t = current s"
proof -
  obtain i where i: "i < length (seats s)" "current s = seats s ! i"
    using seated [OF assms] by (auto simp: in_set_conv_nth)
  with after_turns [OF assms i, of "length (seats s)"] show ?thesis by auto
qed

lemma everyone_plays:
  assumes "ready s" "x \<in> set (seats s)"
  shows "\<exists>k < length (seats s). \<exists>t. iterM k advance s = Some t \<and> current t = x"
proof -
  let ?n = "length (seats s)"
  obtain i where i: "i < ?n" "current s = seats s ! i"
    using seated [OF assms(1)] by (auto simp: in_set_conv_nth)
  obtain j where j: "j < ?n" "x = seats s ! j"
    using assms(2) by (auto simp: in_set_conv_nth)
  let ?k = "(j + ?n - i) mod ?n"
  have "(i + ?k) mod ?n = (i + (j + ?n - i)) mod ?n" by (simp only: mod_add_right_eq)
  then have "(i + ?k) mod ?n = j" using i j by simp
  moreover have "?k < ?n"
    by (rule mod_less_divisor) (use i(1) in linarith)
  ultimately show ?thesis using after_turns [OF assms(1) i, of ?k] j by auto
qed

end

definition seatOrder :: "GameEngineState \<Rightarrow> string list" where
  "seatOrder s = map roomPlayerId (getActivePlayers s)"

lemma set_getActivePlayers [simp]:
  "set (getActivePlayers s) = {p \<in> set (players s). \<not> bankrupt p}"
  by (auto simp: getActivePlayers_def)

lemma distinct_seatOrder:
  assumes "distinct (playerIds s)"
  shows "distinct (seatOrder s)"
proof -
  have "distinct (map roomPlayerId (filter (\<lambda>p. \<not> bankrupt p) (players s)))"
    using assms by (simp add: playerIds_def distinct_map_filter)
  then show ?thesis
    unfolding seatOrder_def getActivePlayers_def by (simp add: distinct_map)
qed

lemma findNextActivePlayer_ring:
  assumes "distinct (playerIds s)" "currentTurnRoomPlayerId s \<in> set (seatOrder s)"
  shows "\<exists>p. findNextActivePlayer s = Inr p \<and> p \<in> set (getActivePlayers s) \<and>
     ringNext (seatOrder s) (currentTurnRoomPlayerId s) = Some (roomPlayerId p)"
proof -
  let ?ap = "getActivePlayers s" and ?cur = "currentTurnRoomPlayerId s"
  from assms(2) obtain p where p: "p \<in> set ?ap" "roomPlayerId p = ?cur"
    unfolding seatOrder_def by auto
  then obtain us vs where ap: "?ap = us @ p # vs" by (meson split_list)
  have "distinct (map roomPlayerId (us @ p # vs))"
    using distinct_seatOrder [OF assms(1)] by (simp add: ap seatOrder_def)
  then have before: "?cur \<notin> set (map roomPlayerId us)" using p by auto
  have index: "jsFindIndex (\<lambda>q. roomPlayerId q = ?cur) ?ap = int (length us)"
    unfolding ap using before p(2) by (intro jsFindIndex_append) (auto simp: image_iff)
  let ?next = "hd (vs @ us @ [p])"
  have "findNextActivePlayer s = Inr ?next"
    using jsNth_ring [of 1 us p vs] index
    by (simp add: findNextActivePlayer_def Let_def ap hd_conv_nth del: length_append) simp
  moreover have "?next \<in> set ?ap"
    using hd_in_set [of "vs @ us @ [p]"] by (auto simp: ap simp del: set_getActivePlayers)
  moreover have "ringNext (seatOrder s) ?cur = Some (roomPlayerId ?next)"
    using ringNext_split [OF before, of "map roomPlayerId vs"] p(2)
      hd_map [of "vs @ us @ [p]" roomPlayerId]
    by (simp add: seatOrder_def ap)
  ultimately show ?thesis by blast
qed

text \<open>Ending the turn of a player who does not play again.\<close>

definition passTurn :: "GameEngineState \<Rightarrow> GameEngineState option" where
  "passTurn s = (case endTurn s (currentTurnRoomPlayerId s) of Inr (t, evs) \<Rightarrow> Some t | Inl e \<Rightarrow> None)"

definition turnReady :: "GameEngineState \<Rightarrow> bool" where
  "turnReady s \<longleftrightarrow> distinct (playerIds s) \<and> currentTurnRoomPlayerId s \<in> set (seatOrder s) \<and>
     \<not> shouldCurrentPlayerPlayAgain s"

lemma seatOrder_cong: "players t = players s \<Longrightarrow> seatOrder t = seatOrder s"
  by (simp add: seatOrder_def getActivePlayers_def)

interpretation turns: turn_cycle seatOrder currentTurnRoomPlayerId passTurn turnReady
proof
  fix s
  assume ready: "turnReady s"
  then show "distinct (seatOrder s) \<and> currentTurnRoomPlayerId s \<in> set (seatOrder s)"
    by (simp add: turnReady_def distinct_seatOrder)
  from ready obtain p where p: "findNextActivePlayer s = Inr p" "p \<in> set (getActivePlayers s)"
    "ringNext (seatOrder s) (currentTurnRoomPlayerId s) = Some (roomPlayerId p)"
    using findNextActivePlayer_ring unfolding turnReady_def by blast
  let ?t = "s\<lparr>phase := Awaiting_roll, turnNumber := turnNumber s + 1,
    currentTurnRoomPlayerId := roomPlayerId p, consecutiveDoublesCount := 0,
    shouldCurrentPlayerPlayAgain := False, lastDiceRoll := None, tradeOffer := None\<rparr>"
  have "passTurn s = Some ?t"
    using ready p(1) by (simp add: passTurn_def endTurn_def turnReady_def Let_def)
  moreover have "seatOrder ?t = seatOrder s" by (rule seatOrder_cong) simp
  moreover have "turnReady ?t"
    using ready p(2) \<open>seatOrder ?t = seatOrder s\<close>
    by (simp add: turnReady_def playerIds_def) (simp add: seatOrder_def)
  ultimately show "\<exists>t. passTurn s = Some t \<and> turnReady t \<and> seatOrder t = seatOrder s \<and>
      ringNext (seatOrder s) (currentTurnRoomPlayerId s) = Some (currentTurnRoomPlayerId t)"
    using p(3) by auto
qed

end
