(* ===== verification/Game_Properties.thy ===== *)
theory Game_Properties
  imports Game_Turns
begin

text \<open>
  Ownable tiles: initial property records and purchase (\<^verbatim>\<open>game-engine-properties.ts\<close>), rent
  (\<^verbatim>\<open>game-engine-rent.ts\<close>) and tax (\<^verbatim>\<open>game-engine-tax.ts\<close>).
\<close>

section \<open>Property records\<close>

definition isOwnableTile :: "GameTile \<Rightarrow> bool" where
  "isOwnableTile t \<longleftrightarrow> kind t \<in> set [Kind_property, Kind_airport, Kind_utility]"

definition createInitialPropertyState :: "GameBoardKey \<Rightarrow> GameEngineProperty list" where
  "createInitialPropertyState k =
     map (\<lambda>t. \<lparr>tileKey = tile_key t, ownerRoomPlayerId = None, houseCount = 0,
               hasHotel = False, mortgaged = False\<rparr>)
       (filter isOwnableTile (tiles (getGameBoard k)))"

text \<open>\<^verbatim>\<open>state.properties.find((candidate) => candidate.tileKey === tileKey)\<close>.\<close>

definition findProperty :: "GameEngineState \<Rightarrow> string \<Rightarrow> GameEngineProperty option" where
  "findProperty s k = findBy tileKey k (properties s)"

definition findPropertyState ::
  "GameEngineState \<Rightarrow> string \<Rightarrow> GameEngineError + GameEngineProperty" where
  "findPropertyState s k = ofOption (EngineError TILE_NOT_OWNABLE) (findProperty s k)"

definition updatePropertyState ::
  "GameEngineState \<Rightarrow> string \<Rightarrow> (GameEngineProperty \<Rightarrow> GameEngineProperty) \<Rightarrow> GameEngineState" where
  "updatePropertyState s k updates = s\<lparr>properties := updateBy tileKey k updates (properties s)\<rparr>"

definition getTileByKey :: "GameBoard \<Rightarrow> string \<Rightarrow> GameEngineError + GameTile" where
  "getTileByKey board k = ofOption (EngineError TILE_NOT_OWNABLE) (findTile board k)"

definition buyProperty :: "GameEngineState \<Rightarrow> string \<Rightarrow> GameEngineError + GameEngineResult" where
  "buyProperty s pid =
     andThen (raiseIf (\<not> truthy (pendingTileKey s)) (EngineError NO_PROPERTY_DECISION)) (\<lambda>_.
     let key = the (pendingTileKey s) in
     andThen (getTileByKey (getGameBoard (boardKey s)) key) (\<lambda>tile.
     andThen (raiseIf (\<not> isOwnableTile tile) (EngineError TILE_NOT_OWNABLE)) (\<lambda>_.
     andThen (findPropertyState s (tile_key tile)) (\<lambda>prop.
     andThen (raiseIf (truthy (ownerRoomPlayerId prop)) (EngineError PROPERTY_ALREADY_OWNED)) (\<lambda>_.
     andThen (debitPlayer s pid (price tile)) (\<lambda>nextState.
     Inr ((updatePropertyState nextState (tile_key tile) (\<lambda>c. c\<lparr>ownerRoomPlayerId := Some pid\<rparr>))
            \<lparr>phase := Awaiting_turn_end, pendingTileKey := None\<rparr>,
          [Property_bought pid (tile_key tile) (price tile)])))))))"

section \<open>Rent\<close>

definition isRentableTile :: "GameTile \<Rightarrow> bool" where
  "isRentableTile t \<longleftrightarrow>
     kind t = Kind_property \<or> kind t = Kind_airport \<or> kind t = Kind_utility"

definition ownsFullPropertySet :: "GameEngineState \<Rightarrow> GameTile \<Rightarrow> bool" where
  "ownsFullPropertySet s tile =
     (case findProperty s (tile_key tile) of
        None \<Rightarrow> False
      | Some prop \<Rightarrow>
          truthy (ownerRoomPlayerId prop) \<and>
          list_all (\<lambda>setTile. case findProperty s (tile_key setTile) of
                                 None \<Rightarrow> False
                               | Some q \<Rightarrow> ownerRoomPlayerId q = ownerRoomPlayerId prop)
            (setTilesOf (getGameBoard (boardKey s)) (setKey tile)))"

definition countOwnedTilesByKind :: "GameEngineState \<Rightarrow> GameTileKind \<Rightarrow> string \<Rightarrow> int" where
  "countOwnedTilesByKind s k currentTileKey =
     (case findProperty s currentTileKey of
        None \<Rightarrow> 0
      | Some prop \<Rightarrow>
          if \<not> truthy (ownerRoomPlayerId prop) then 0
          else int (length (filter (\<lambda>tile. case findProperty s (tile_key tile) of
                                               None \<Rightarrow> False
                                             | Some q \<Rightarrow> ownerRoomPlayerId q = ownerRoomPlayerId prop)
                     (filter (\<lambda>tile. kind tile = k) (tiles (getGameBoard (boardKey s)))))))"

text \<open>\<^verbatim>\<open>table[ownedCount - 1] ?? table[0]\<close>.\<close>

definition rentEntry :: "int list \<Rightarrow> int \<Rightarrow> GameEngineError + int" where
  "rentEntry table ownedCount =
     (case jsNth table (ownedCount - 1) of
        Some r \<Rightarrow> Inr r
      | None \<Rightarrow> ofOption UndefinedRead (jsNth table 0))"

definition calculateRent :: "GameEngineState \<Rightarrow> GameTile \<Rightarrow> DiceRoll \<Rightarrow> GameEngineError + int" where
  "calculateRent s tile dice =
     (if kind tile = Kind_property then
        andThen (findPropertyState s (tile_key tile)) (\<lambda>prop.
          if hasHotel prop then Inr (hotelRent tile)
          else if houseCount prop > 0
          then ofOption UndefinedRead (jsNth (rentByHouseCount tile) (int (houseCount prop) - 1))
          else if ownsFullPropertySet s tile then Inr (baseRent tile * 2)
          else Inr (baseRent tile))
      else if kind tile = Kind_airport then
        rentEntry (rentByOwnedCount tile) (countOwnedTilesByKind s Kind_airport (tile_key tile))
      else
        andThen (rentEntry (rentMultiplierByOwnedCount tile)
                   (countOwnedTilesByKind s Kind_utility (tile_key tile)))
          (\<lambda>multiplier. Inr ((fst dice + snd dice) * multiplier)))"

definition payRent ::
  "GameEngineState \<Rightarrow> string \<Rightarrow> string \<Rightarrow> DiceRoll \<Rightarrow> GameEngineError + GameEngineResult" where
  "payRent s payer key dice =
     (case findProperty s key of
        None \<Rightarrow> Inr (s, [])
      | Some prop \<Rightarrow>
          if \<not> truthy (ownerRoomPlayerId prop) \<or> ownerRoomPlayerId prop = Some payer
             \<or> mortgaged prop
          then Inr (s, [])
          else (case findTile (getGameBoard (boardKey s)) key of
                  None \<Rightarrow> Inr (s, [])
                | Some tile \<Rightarrow>
                    if \<not> isRentableTile tile then Inr (s, [])
                    else andThen (calculateRent s tile dice) (\<lambda>amount.
                         let owner = the (ownerRoomPlayerId prop) in
                         andThen (transferPlayerCashOrCreateDebt s payer owner amount Rent)
                           (\<lambda>(s', evs, paid).
                         Inr (s', if paid then [Rent_paid payer owner key amount] else evs)))))"

section \<open>Tax\<close>

definition getTaxTile :: "GameEngineState \<Rightarrow> string \<Rightarrow> GameEngineError + GameTile" where
  "getTaxTile s key =
     (case findTile (getGameBoard (boardKey s)) key of
        None \<Rightarrow> Inl (EngineError TILE_NOT_OWNABLE)
      | Some tile \<Rightarrow> if kind tile \<noteq> Kind_tax then Inl (EngineError TILE_NOT_OWNABLE) else Inr tile)"

definition payTax :: "GameEngineState \<Rightarrow> string \<Rightarrow> string \<Rightarrow> GameEngineError + GameEngineResult" where
  "payTax s pid key =
     andThen (getTaxTile s key) (\<lambda>tile.
     andThen (debitPlayerOrCreateDebt s pid (taxAmount tile) Tax None) (\<lambda>(s', evs, paid).
     Inr (s', if paid then [Tax_paid pid (tile_key tile) (taxAmount tile)] else evs)))"

end
