(* ===== verification/Game_Decks.thy ===== *)
theory Game_Decks
  imports Game_Turns "HOL-Library.Word"
begin

unbundle bit_operations_syntax

text \<open>
  The decks of \<^verbatim>\<open>src/src/game/engine/game-engine-cards.ts\<close>: the two lists of cards, the seeded
  shuffle that orders them, drawing a card and returning a kept one. The \<open>card_store\<close> locale
  states the contract: drawing and returning move cards between piles and hands and never create
  or lose one.
\<close>

section \<open>Decks\<close>

definition CHANCE_CARDS :: "GameEngineCard list" where
  "CHANCE_CARDS =
     [\<lparr>card_key = ''chance_bank_dividend'', card_title = ''Bank dividend'', card_effect = Collect_money 50\<rparr>,
      \<lparr>card_key = ''chance_chairman_bonus'', card_title = ''Chairman bonus'', card_effect = Collect_money 150\<rparr>,
      \<lparr>card_key = ''chance_advance_to_go'', card_title = ''Advance to Go'', card_effect = Move_to_tile ''go'' True\<rparr>,
      \<lparr>card_key = ''chance_advance_to_spain'', card_title = ''Advance to Spain'', card_effect = Move_to_tile ''spain'' True\<rparr>,
      \<lparr>card_key = ''chance_advance_to_uk'', card_title = ''Advance to United Kingdom'', card_effect = Move_to_tile ''uk'' True\<rparr>,
      \<lparr>card_key = ''chance_advance_to_lagos_airport'', card_title = ''Advance to Lagos Airport'', card_effect = Move_to_tile ''lagos_airport'' True\<rparr>,
      \<lparr>card_key = ''chance_nearest_airport'', card_title = ''Advance to the nearest Airport'', card_effect = Move_to_nearest Kind_airport True\<rparr>,
      \<lparr>card_key = ''chance_nearest_utility'', card_title = ''Advance to the nearest Utility'', card_effect = Move_to_nearest Kind_utility True\<rparr>,
      \<lparr>card_key = ''chance_go_back_three'', card_title = ''Go back three spaces'', card_effect = Move_relative (-3)\<rparr>,
      \<lparr>card_key = ''chance_go_to_jail'', card_title = ''Go to Jail'', card_effect = Go_to_jail\<rparr>,
      \<lparr>card_key = ''chance_building_repairs'', card_title = ''Make general repairs'', card_effect = Property_repairs 25 100\<rparr>,
      \<lparr>card_key = ''chance_pay_school_fees'', card_title = ''Pay school fees'', card_effect = Pay_money 50\<rparr>,
      \<lparr>card_key = ''chance_speeding_fine'', card_title = ''Speeding fine'', card_effect = Pay_money 15\<rparr>,
      \<lparr>card_key = ''chance_loan_matures'', card_title = ''Loan matures'', card_effect = Collect_money 150\<rparr>,
      \<lparr>card_key = ''chance_pay_each_player'', card_title = ''Pay every player'', card_effect = Pay_each_player 50\<rparr>,
      \<lparr>card_key = ''chance_get_out_of_jail_free'', card_title = ''Get Out of Jail Free'', card_effect = Get_out_of_jail_free\<rparr>]"

definition WORLD_FUND_CARDS :: "GameEngineCard list" where
  "WORLD_FUND_CARDS =
     [\<lparr>card_key = ''world_fund_receive_25'', card_title = ''Receive world fund support'', card_effect = Collect_money 25\<rparr>,
      \<lparr>card_key = ''world_fund_bank_error'', card_title = ''Bank error in your favor'', card_effect = Collect_money 200\<rparr>,
      \<lparr>card_key = ''world_fund_doctor_fee'', card_title = ''Doctor fee'', card_effect = Pay_money 50\<rparr>,
      \<lparr>card_key = ''world_fund_sale_of_stock'', card_title = ''Sale of stock'', card_effect = Collect_money 50\<rparr>,
      \<lparr>card_key = ''world_fund_pay_hospital'', card_title = ''Pay hospital fees'', card_effect = Pay_money 100\<rparr>,
      \<lparr>card_key = ''world_fund_life_insurance'', card_title = ''Life insurance matures'', card_effect = Collect_money 100\<rparr>,
      \<lparr>card_key = ''world_fund_income_tax_refund'', card_title = ''Income tax refund'', card_effect = Collect_money 20\<rparr>,
      \<lparr>card_key = ''world_fund_birthday'', card_title = ''Birthday gift'', card_effect = Collect_from_each_player 10\<rparr>,
      \<lparr>card_key = ''world_fund_holiday_fund'', card_title = ''Holiday fund matures'', card_effect = Collect_money 100\<rparr>,
      \<lparr>card_key = ''world_fund_consultancy_fee'', card_title = ''Consultancy fee'', card_effect = Collect_money 25\<rparr>,
      \<lparr>card_key = ''world_fund_street_repairs'', card_title = ''Street repairs'', card_effect = Property_repairs 40 115\<rparr>,
      \<lparr>card_key = ''world_fund_advance_to_go'', card_title = ''Advance to Go'', card_effect = Move_to_tile ''go'' True\<rparr>,
      \<lparr>card_key = ''world_fund_go_to_jail'', card_title = ''Go to Jail'', card_effect = Go_to_jail\<rparr>,
      \<lparr>card_key = ''world_fund_beauty_contest'', card_title = ''Beauty contest prize'', card_effect = Collect_money 10\<rparr>,
      \<lparr>card_key = ''world_fund_inherit'', card_title = ''Inheritance'', card_effect = Collect_money 100\<rparr>,
      \<lparr>card_key = ''world_fund_get_out_of_jail_free'', card_title = ''Get Out of Jail Free'', card_effect = Get_out_of_jail_free\<rparr>]"

text \<open>A \<^verbatim>\<open>Map\<close> built from a list of entries keeps the last entry of a key.\<close>

definition CARDS_BY_KEY :: "string \<Rightarrow> GameEngineCard option" where
  "CARDS_BY_KEY k = findBy card_key k (rev (CHANCE_CARDS @ WORLD_FUND_CARDS))"

section \<open>The seeded shuffle\<close>

text \<open>
  A JavaScript bitwise operation works on 32 bits, \<^verbatim>\<open>Math.imul\<close> is the 32-bit product and
  \<^verbatim>\<open>>>> 0\<close> reads the result as unsigned: the generator's state is a \<^typ>\<open>32 word\<close>.
\<close>

fun seedHash :: "32 word \<Rightarrow> string \<Rightarrow> 32 word" where
  "seedHash value [] = value"
| "seedHash value (c # cs) = seedHash ((value XOR of_char c) * 16777619) cs"

definition createSeededRandom :: "string \<Rightarrow> 32 word" where
  "createSeededRandom seed = seedHash 2166136261 seed"

definition nextRandom :: "32 word \<Rightarrow> 32 word" where
  "nextRandom random =
     (let v1 = random XOR push_bit 13 random;
          v2 = v1 XOR drop_bit 17 v1
      in v2 XOR push_bit 5 v2)"

definition swapAt :: "'a list \<Rightarrow> nat \<Rightarrow> nat \<Rightarrow> 'a list" where
  "swapAt xs i j = (let current = xs ! i in xs[i := xs ! j, j := current])"

text \<open>The loop variable counts down to 1; \<open>Suc i\<close> is the current index.\<close>

fun shuffleLoop :: "nat \<Rightarrow> 32 word \<Rightarrow> 'a list \<Rightarrow> 'a list" where
  "shuffleLoop 0 random xs = xs"
| "shuffleLoop (Suc i) random xs =
     (let random' = nextRandom random;
          swapIndex = nat (uint random' mod (int (Suc i) + 1))
      in shuffleLoop i random' (swapAt xs (Suc i) swapIndex))"

definition shuffleDeterministically :: "'a list \<Rightarrow> string \<Rightarrow> 'a list" where
  "shuffleDeterministically values seed =
     shuffleLoop (length values - 1) (createSeededRandom seed) values"

definition createInitialDeckState :: "string option \<Rightarrow> GameEngineDecks" where
  "createInitialDeckState seed =
     (let chanceCards = map card_key CHANCE_CARDS;
          worldFundCards = map card_key WORLD_FUND_CARDS
      in \<lparr>chance = \<lparr>drawPile = (if truthy seed
                                 then shuffleDeterministically chanceCards (the seed @ '':chance'')
                                 else chanceCards),
                     discardPile = []\<rparr>,
          worldFund = \<lparr>drawPile = (if truthy seed
                                    then shuffleDeterministically worldFundCards (the seed @ '':world_fund'')
                                    else worldFundCards),
                        discardPile = []\<rparr>\<rparr>)"

section \<open>Drawing and returning\<close>

definition getDeckKeyForCard :: "string \<Rightarrow> GameCardDeckKey option" where
  "getDeckKeyForCard k =
     (if list_ex (\<lambda>card. card_key card = k) CHANCE_CARDS then Some Chance
      else if list_ex (\<lambda>card. card_key card = k) WORLD_FUND_CARDS then Some World_fund
      else None)"

definition getDeck :: "GameEngineState \<Rightarrow> GameCardDeckKey \<Rightarrow> GameEngineDeckState" where
  "getDeck s deckKey = (if deckKey = Chance then chance (decks s) else worldFund (decks s))"

definition setDeck ::
  "GameEngineState \<Rightarrow> GameCardDeckKey \<Rightarrow> GameEngineDeckState \<Rightarrow> GameEngineState" where
  "setDeck s deckKey deck =
     s\<lparr>decks := (if deckKey = Chance then (decks s)\<lparr>chance := deck\<rparr>
                  else (decks s)\<lparr>worldFund := deck\<rparr>)\<rparr>"

definition returnGetOutOfJailCardToDeck ::
  "GameEngineState \<Rightarrow> string option \<Rightarrow> GameEngineError + GameEngineState" where
  "returnGetOutOfJailCardToDeck s cardKey =
     (let resolvedCardKey = (case cardKey of None \<Rightarrow> ''chance_get_out_of_jail_free'' | Some k \<Rightarrow> k) in
      andThen (ofOption (EngineError CARD_NOT_FOUND) (getDeckKeyForCard resolvedCardKey)) (\<lambda>deckKey.
      let deck = getDeck s deckKey in
      Inr (setDeck s deckKey (deck\<lparr>discardPile := discardPile deck @ [resolvedCardKey]\<rparr>))))"

definition drawCard ::
  "GameEngineState \<Rightarrow> GameCardDeckKey \<Rightarrow> GameEngineError + (GameEngineState \<times> string)" where
  "drawCard s deckKey =
     (let deck = getDeck s deckKey;
          pile = (if drawPile deck \<noteq> [] then drawPile deck else discardPile deck);
          discard = (if drawPile deck \<noteq> [] then discardPile deck else [])
      in case pile of
           [] \<Rightarrow> Inl (EngineError CARD_DECK_EMPTY)
         | cardKey # remainingDrawPile \<Rightarrow>
             andThen (raiseIf (cardKey = []) (EngineError CARD_DECK_EMPTY)) (\<lambda>_.
             andThen (ofOption (EngineError CARD_NOT_FOUND) (CARDS_BY_KEY cardKey)) (\<lambda>card.
             Inr (setDeck s deckKey
                    \<lparr>drawPile = remainingDrawPile,
                     discardPile = (if effectType (card_effect card) = Effect_get_out_of_jail_free
                                    then discard else discard @ [cardKey])\<rparr>,
                  cardKey))))"

section \<open>The card table\<close>

definition deckCardKeys :: "GameCardDeckKey \<Rightarrow> string list" where
  "deckCardKeys k = map card_key (if k = Chance then CHANCE_CARDS else WORLD_FUND_CARDS)"

definition jailCardKeys :: "string list" where
  "jailCardKeys = [''chance_get_out_of_jail_free'', ''world_fund_get_out_of_jail_free'']"

definition pileCards :: "GameEngineDeckState \<Rightarrow> string multiset" where
  "pileCards d = mset (drawPile d) + mset (discardPile d)"

text \<open>What the effect of a card of the table may be.\<close>

fun effectOk :: "GameCardEffect \<Rightarrow> bool" where
  "effectOk (Collect_money a) = (0 \<le> a)"
| "effectOk (Pay_money a) = (0 \<le> a)"
| "effectOk (Move_to_tile k b) = (findTile CLASSIC_GAME_BOARD k \<noteq> None)"
| "effectOk (Move_relative n) = (n = -3)"
| "effectOk (Move_to_nearest k b) = (k = Kind_airport \<or> k = Kind_utility)"
| "effectOk Go_to_jail = True"
| "effectOk Get_out_of_jail_free = True"
| "effectOk (Collect_from_each_player a) = (0 \<le> a)"
| "effectOk (Pay_each_player a) = (0 \<le> a)"
| "effectOk (Property_repairs a b) = (0 \<le> a \<and> 0 \<le> b)"

definition cardKeyOk :: "GameCardDeckKey \<Rightarrow> string \<Rightarrow> bool" where
  "cardKeyOk d k \<longleftrightarrow> k \<noteq> [] \<and> getDeckKeyForCard k = Some d \<and>
     (case CARDS_BY_KEY k of
        None \<Rightarrow> False
      | Some c \<Rightarrow> card_key c = k \<and> effectOk (card_effect c) \<and>
          (effectType (card_effect c) = Effect_get_out_of_jail_free \<longleftrightarrow> k \<in> set jailCardKeys))"

lemma card_table: "list_all (cardKeyOk Chance) (deckCardKeys Chance)"
  "list_all (cardKeyOk World_fund) (deckCardKeys World_fund)"
  by code_simp+

lemma deckCardKeys_ok: "k \<in> set (deckCardKeys d) \<Longrightarrow> cardKeyOk d k"
  using card_table by (cases d) (auto simp: list_all_iff)

lemma deckCardKeys_card:
  assumes "k \<in> set (deckCardKeys d)"
  obtains c where "CARDS_BY_KEY k = Some c" "card_key c = k" "effectOk (card_effect c)" "k \<noteq> []"
    "getDeckKeyForCard k = Some d"
    "effectType (card_effect c) = Effect_get_out_of_jail_free \<longleftrightarrow> k \<in> set jailCardKeys"
  using deckCardKeys_ok [OF assms] by (auto simp: cardKeyOk_def split: option.splits)

lemma distinct_deckCardKeys: "distinct (deckCardKeys Chance @ deckCardKeys World_fund)"
  by code_simp

lemma jailCardKeys_home:
  assumes "k \<in> set jailCardKeys"
  shows "\<exists>d. getDeckKeyForCard k = Some d \<and> k \<in> set (deckCardKeys d)"
proof -
  have "list_all (\<lambda>k. (getDeckKeyForCard k = Some Chance \<and> k \<in> set (deckCardKeys Chance)) \<or>
      (getDeckKeyForCard k = Some World_fund \<and> k \<in> set (deckCardKeys World_fund))) jailCardKeys"
    by code_simp
  with assms show ?thesis by (auto simp: list_all_iff)
qed

section \<open>The card store contract\<close>

text \<open>
  Drawing takes a card off its deck when the card is kept and otherwise leaves the deck's cards as
  they are; returning puts one card back on its home deck; no other deck is touched. From this
  alone: a draw followed by the return of the kept card restores the decks, and returning a hand
  adds exactly that hand.
\<close>

locale card_store =
  fixes pile :: "'s \<Rightarrow> 'd \<Rightarrow> 'c multiset"
    and draw :: "'s \<Rightarrow> 'd \<Rightarrow> 'e + ('s \<times> 'c)"
    and giveBack :: "'s \<Rightarrow> 'c \<Rightarrow> 'e + 's"
    and home :: "'c \<Rightarrow> 'd option"
    and kept :: "'c \<Rightarrow> bool"
    and genuine :: "'d \<Rightarrow> 'c \<Rightarrow> bool"
  assumes genuine_home: "genuine d c \<Longrightarrow> home c = Some d"
    and draw_succeeds: "pile s d \<noteq> {#} \<Longrightarrow> \<forall>c \<in># pile s d. genuine d c \<Longrightarrow> \<exists>r. draw s d = Inr r"
    and draw_pile: "draw s d = Inr (s', c) \<Longrightarrow> \<forall>c \<in># pile s d. genuine d c \<Longrightarrow>
      c \<in># pile s d \<and> pile s' = (pile s)(d := pile s d - (if kept c then {#c#} else {#}))"
    and giveBack_succeeds: "home c \<noteq> None \<Longrightarrow> \<exists>s'. giveBack s c = Inr s'"
    and giveBack_pile: "giveBack s c = Inr s' \<Longrightarrow>
      \<exists>d. home c = Some d \<and> pile s' = (pile s)(d := pile s d + {#c#})"
begin

lemma draw_giveBack:
  assumes "draw s d = Inr (s', c)" "\<forall>c \<in># pile s d. genuine d c" "kept c"
  shows "\<exists>s''. giveBack s' c = Inr s'' \<and> pile s'' = pile s"
proof -
  have c: "c \<in># pile s d" and s': "pile s' = (pile s)(d := pile s d - {#c#})"
    using draw_pile [OF assms(1,2)] assms(3) by auto
  then have "home c = Some d" using assms(2) genuine_home by blast
  then obtain s'' where "giveBack s' c = Inr s''" using giveBack_succeeds [of c s'] by auto
  moreover from giveBack_pile [OF this] \<open>home c = Some d\<close> c have "pile s'' = pile s"
    by (auto simp: s' fun_eq_iff)
  ultimately show ?thesis by blast
qed

lemma giveBack_hand:
  assumes "\<forall>c \<in> set cs. home c \<noteq> None"
  shows "\<exists>s'. foldM giveBack s cs = Inr s' \<and>
     (\<forall>d. pile s' d = pile s d + mset (filter (\<lambda>c. home c = Some d) cs))"
  using assms
proof (induction cs arbitrary: s)
  case Nil
  then show ?case by simp
next
  case (Cons c cs)
  obtain t where t: "giveBack s c = Inr t" using giveBack_succeeds Cons.prems by fastforce
  obtain d where d: "home c = Some d" "pile t = (pile s)(d := pile s d + {#c#})"
    using giveBack_pile [OF t] by blast
  obtain u where "foldM giveBack t cs = Inr u"
    "\<forall>d. pile u d = pile t d + mset (filter (\<lambda>c. home c = Some d) cs)"
    using Cons.IH [of t] Cons.prems by auto
  then show ?case using t d by auto
qed

end

lemma getDeck_setDeck [simp]:
  "getDeck (setDeck s d x) d' = (if d' = d then x else getDeck s d')"
  by (cases d; cases d') (auto simp: getDeck_def setDeck_def)

interpretation decks: card_store "\<lambda>s d. pileCards (getDeck s d)" drawCard
  "\<lambda>s k. returnGetOutOfJailCardToDeck s (Some k)" getDeckKeyForCard "\<lambda>k. k \<in> set jailCardKeys"
  "\<lambda>d k. k \<in> set (deckCardKeys d)"
proof
  fix d k
  assume "k \<in> set (deckCardKeys d)"
  then show "getDeckKeyForCard k = Some d" by (rule deckCardKeys_card)
next
  fix s d
  assume "pileCards (getDeck s d) \<noteq> {#}" and ok: "\<forall>k\<in>#pileCards (getDeck s d). k \<in> set (deckCardKeys d)"
  then have "(if drawPile (getDeck s d) \<noteq> [] then drawPile (getDeck s d) else discardPile (getDeck s d)) \<noteq> []"
    by (auto simp: pileCards_def)
  then obtain k ks where ks: "(if drawPile (getDeck s d) \<noteq> [] then drawPile (getDeck s d)
      else discardPile (getDeck s d)) = k # ks"
    by (auto simp: neq_Nil_conv)
  then have "k \<in> set (deckCardKeys d)"
    using ok by (auto simp: pileCards_def split: if_splits)
  then obtain c where "CARDS_BY_KEY k = Some c" "k \<noteq> []" by (rule deckCardKeys_card)
  then show "\<exists>r. drawCard s d = Inr r"
    by (simp add: drawCard_def Let_def ks)
next
  fix s d s' k
  assume draw: "drawCard s d = Inr (s', k)" and ok: "\<forall>k\<in>#pileCards (getDeck s d). k \<in> set (deckCardKeys d)"
  from draw obtain ks where ks: "(if drawPile (getDeck s d) \<noteq> [] then drawPile (getDeck s d)
      else discardPile (getDeck s d)) = k # ks"
    by (auto simp: drawCard_def Let_def split: list.splits if_splits)
  then have k: "k \<in># pileCards (getDeck s d)"
    by (auto simp: pileCards_def split: if_splits)
  with ok have "k \<in> set (deckCardKeys d)" by blast
  then obtain c where c: "CARDS_BY_KEY k = Some c"
    "effectType (card_effect c) = Effect_get_out_of_jail_free \<longleftrightarrow> k \<in> set jailCardKeys"
    by (rule deckCardKeys_card)
  have "pileCards (getDeck s' d) = pileCards (getDeck s d) - (if k \<in> set jailCardKeys then {#k#} else {#})"
    using draw c ks by (auto simp: drawCard_def Let_def pileCards_def split: if_splits)
  moreover have "getDeck s' d' = getDeck s d'" if "d' \<noteq> d" for d'
    using draw that by (auto simp: drawCard_def Let_def split: list.splits)
  ultimately show "k \<in># pileCards (getDeck s d) \<and>
     (\<lambda>d. pileCards (getDeck s' d)) = (\<lambda>d. pileCards (getDeck s d))
       (d := pileCards (getDeck s d) - (if k \<in> set jailCardKeys then {#k#} else {#}))"
    using k by (auto simp: fun_eq_iff)
next
  fix s k
  assume "getDeckKeyForCard k \<noteq> None"
  then show "\<exists>s'. returnGetOutOfJailCardToDeck s (Some k) = Inr s'"
    by (auto simp: returnGetOutOfJailCardToDeck_def Let_def)
next
  fix s s' k
  assume "returnGetOutOfJailCardToDeck s (Some k) = Inr s'"
  then show "\<exists>d. getDeckKeyForCard k = Some d \<and> (\<lambda>d. pileCards (getDeck s' d)) =
      (\<lambda>d. pileCards (getDeck s d))(d := pileCards (getDeck s d) + {#k#})"
    by (auto simp: returnGetOutOfJailCardToDeck_def Let_def pileCards_def fun_eq_iff)
qed

section \<open>The shuffle\<close>

lemma mset_swapAt:
  assumes "i < length xs" "j < length xs"
  shows "mset (swapAt xs i j) = mset xs"
  using assms by (simp add: swapAt_def mset_swap)

lemma length_swapAt [simp]: "length (swapAt xs i j) = length xs"
  by (simp add: swapAt_def Let_def)

lemma mset_shuffleLoop: "i < length xs \<Longrightarrow> mset (shuffleLoop i random xs) = mset xs"
proof (induction i arbitrary: random xs)
  case 0
  then show ?case by simp
next
  case (Suc i)
  let ?r = "nextRandom random"
  let ?j = "nat (uint ?r mod (int (Suc i) + 1))"
  have "uint ?r mod (int (Suc i) + 1) < int (Suc i) + 1" by (rule pos_mod_bound) simp
  then have "?j < length xs" using Suc.prems by linarith
  then show ?case using Suc by (simp add: mset_swapAt Let_def)
qed

lemma mset_shuffle: "mset (shuffleDeterministically values seed) = mset values"
  by (cases "values") (simp_all add: shuffleDeterministically_def mset_shuffleLoop)

lemma initial_piles:
  "pileCards (chance (createInitialDeckState seed)) = mset (deckCardKeys Chance)"
  "pileCards (worldFund (createInitialDeckState seed)) = mset (deckCardKeys World_fund)"
  by (simp_all add: createInitialDeckState_def Let_def pileCards_def deckCardKeys_def mset_shuffle)

end
