(* ===== verification/Game_Invariant.thy ===== *)
theory Game_Invariant
  imports Game_Properties Game_Decks
begin

text \<open>
  The well-formedness of a game state, which every operation of the engine keeps: what holds of
  the players, of the properties, of the cards, and of the fields that belong to the current
  phase. The predicates are stated on the parts of the state they speak about, so that an
  operation only has to account for the parts it writes. The lemmas say how the elementary
  updates of the engine (one player, one property, the deck piles, the phase) act on them.
\<close>

section \<open>Players\<close>

definition heldKeys :: "GameEnginePlayer \<Rightarrow> string list" where
  "heldKeys p = (case getOutOfJailFreeCardKeys p of None \<Rightarrow> [] | Some ks \<Rightarrow> ks)"

definition playerOk :: "GameEnginePlayer \<Rightarrow> bool" where
  "playerOk p \<longleftrightarrow>
     roomPlayerId p \<noteq> [] \<and> 0 \<le> cash p \<and> 0 \<le> position p \<and> position p < 40 \<and>
     0 \<le> jailTurnCount p \<and> getOutOfJailFreeCards p = int (length (heldKeys p))"

definition playersOk :: "GameEnginePlayer list \<Rightarrow> bool" where
  "playersOk ps \<longleftrightarrow> distinct (map roomPlayerId ps) \<and> list_all playerOk ps"

definition activeIds :: "GameEnginePlayer list \<Rightarrow> string set" where
  "activeIds ps = set (map roomPlayerId (filter (\<lambda>p. \<not> bankrupt p) ps))"

definition heldCards :: "GameEnginePlayer list \<Rightarrow> string multiset" where
  "heldCards ps = mset (concat (map heldKeys ps))"

section \<open>Properties\<close>

definition ownableKeys :: "string list" where
  "ownableKeys = map tile_key (filter isOwnableTile classicTiles)"

definition built :: "GameEngineProperty \<Rightarrow> bool" where
  "built q \<longleftrightarrow> 0 < houseCount q \<or> hasHotel q"

definition isPropertyTileKey :: "string \<Rightarrow> bool" where
  "isPropertyTileKey k \<longleftrightarrow>
     (case findTile CLASSIC_GAME_BOARD k of None \<Rightarrow> False | Some t \<Rightarrow> kind t = Kind_property)"

definition propertyOk :: "string set \<Rightarrow> GameEngineProperty \<Rightarrow> bool" where
  "propertyOk owners q \<longleftrightarrow>
     houseCount q \<le> 4 \<and>
     (hasHotel q \<longrightarrow> houseCount q = 0) \<and>
     (built q \<longrightarrow> isPropertyTileKey (tileKey q) \<and> \<not> mortgaged q) \<and>
     (if truthy (ownerRoomPlayerId q) then the (ownerRoomPlayerId q) \<in> owners
      else \<not> built q \<and> \<not> mortgaged q)"

definition propertiesOk :: "string set \<Rightarrow> GameEngineProperty list \<Rightarrow> bool" where
  "propertiesOk owners qs \<longleftrightarrow> map tileKey qs = ownableKeys \<and> list_all (propertyOk owners) qs"

definition unownedKeys :: "GameEngineProperty list \<Rightarrow> string set" where
  "unownedKeys qs = set (map tileKey (filter (\<lambda>q. \<not> truthy (ownerRoomPlayerId q)) qs))"

section \<open>Cards\<close>

definition cardsOk :: "GameEngineDecks \<Rightarrow> string multiset \<Rightarrow> bool" where
  "cardsOk d held \<longleftrightarrow>
     set_mset (pileCards (chance d)) \<subseteq> set (deckCardKeys Chance) \<and>
     set_mset (pileCards (worldFund d)) \<subseteq> set (deckCardKeys World_fund) \<and>
     set_mset held \<subseteq> set jailCardKeys \<and>
     pileCards (chance d) + pileCards (worldFund d) + held =
       mset (deckCardKeys Chance @ deckCardKeys World_fund)"

section \<open>Phases\<close>

definition terminal :: "GamePhase \<Rightarrow> bool" where
  "terminal ph \<longleftrightarrow> ph = Finished \<or> ph = Cancelled"

lemma terminal_simps [simp]:
  "\<not> terminal Awaiting_first_turn" "\<not> terminal Awaiting_roll"
  "\<not> terminal Awaiting_property_decision" "\<not> terminal Awaiting_auction_bid"
  "\<not> terminal Awaiting_debt_resolution" "\<not> terminal Awaiting_turn_end"
  "terminal Finished" "terminal Cancelled"
  by (simp_all add: terminal_def)

definition debtOk :: "string set \<Rightarrow> string \<Rightarrow> GameEngineDebt \<Rightarrow> bool" where
  "debtOk ids current d \<longleftrightarrow>
     debt_roomPlayerId d = current \<and> 0 < debt_amount d \<and>
     (truthy (creditorRoomPlayerId d) \<longrightarrow>
        the (creditorRoomPlayerId d) \<in> ids \<and> the (creditorRoomPlayerId d) \<noteq> current)"

text \<open>The bidder whose turn it is after \<open>i\<close>: the next one in seat order who has not passed.\<close>

definition bidderAfter :: "GameEngineAuction \<Rightarrow> string \<Rightarrow> string option" where
  "bidderAfter a i =
     find (\<lambda>j. j \<notin> set (passedRoomPlayerIds a)) (ringAfter (activeRoomPlayerIds a) i)"

definition auctionOk :: "string set \<Rightarrow> string set \<Rightarrow> GameEngineAuction \<Rightarrow> bool" where
  "auctionOk ids unowned a \<longleftrightarrow>
     auction_tileKey a \<in> unowned \<and>
     distinct (activeRoomPlayerIds a) \<and> set (activeRoomPlayerIds a) \<subseteq> ids \<and> [] \<notin> ids \<and>
     set (passedRoomPlayerIds a) \<subseteq> set (activeRoomPlayerIds a) \<and>
     distinct (passedRoomPlayerIds a) \<and>
     (case currentBidderRoomPlayerId a of
        None \<Rightarrow> False
      | Some c \<Rightarrow> c \<in> set (activeRoomPlayerIds a) \<and> c \<notin> set (passedRoomPlayerIds a)) \<and>
     (case highestBidderRoomPlayerId a of
        None \<Rightarrow> currentBid a = 0
      | Some h \<Rightarrow> 10 \<le> currentBid a \<and> h \<in> set (activeRoomPlayerIds a) \<and>
                  h \<notin> set (passedRoomPlayerIds a) \<and>
                  bidderAfter a h = currentBidderRoomPlayerId a)"

text \<open>A player who went bankrupt during an auction has no cash left to bid with.\<close>

definition bankruptBiddersBroke :: "GameEnginePlayer list \<Rightarrow> GameEngineAuction \<Rightarrow> bool" where
  "bankruptBiddersBroke ps a \<longleftrightarrow>
     list_all (\<lambda>p. bankrupt p \<and> roomPlayerId p \<in> set (activeRoomPlayerIds a) \<longrightarrow> cash p = 0) ps"

definition phaseOk :: "GameEngineState \<Rightarrow> bool" where
  "phaseOk s \<longleftrightarrow>
     (debt s \<noteq> None \<longleftrightarrow> phase s = Awaiting_debt_resolution) \<and>
     (auction s \<noteq> None \<longleftrightarrow> phase s = Awaiting_auction_bid) \<and>
     (pendingTileKey s \<noteq> None \<longleftrightarrow> phase s = Awaiting_property_decision) \<and>
     (terminal (phase s) \<longrightarrow> tradeOffer s = None) \<and>
     ifSome (debtOk (set (playerIds s)) (currentTurnRoomPlayerId s)) (debt s) \<and>
     ifSome (auctionOk (set (playerIds s)) (unownedKeys (properties s))) (auction s) \<and>
     ifSome (bankruptBiddersBroke (players s)) (auction s) \<and>
     ifSome (\<lambda>k. k \<in> unownedKeys (properties s)) (pendingTileKey s)"

section \<open>The invariant\<close>

definition coreOk :: "GameEngineState \<Rightarrow> bool" where
  "coreOk s \<longleftrightarrow>
     playersOk (players s) \<and>
     propertiesOk (activeIds (players s)) (properties s) \<and>
     cardsOk (decks s) (heldCards (players s)) \<and>
     0 \<le> consecutiveDoublesCount s \<and> consecutiveDoublesCount s < 3 \<and>
     (if terminal (phase s) then currentTurnRoomPlayerId s \<in> set (playerIds s)
      else currentTurnRoomPlayerId s \<in> activeIds (players s))"

definition wf_state :: "GameEngineState \<Rightarrow> bool" where
  "wf_state s \<longleftrightarrow> coreOk s \<and> phaseOk s"

lemma wf_stateI [intro]: "coreOk s \<Longrightarrow> phaseOk s \<Longrightarrow> wf_state s"
  by (simp add: wf_state_def)

lemma wf_stateD:
  assumes "wf_state s"
  shows "coreOk s" "phaseOk s" "playersOk (players s)"
    "propertiesOk (activeIds (players s)) (properties s)"
    "cardsOk (decks s) (heldCards (players s))"
  using assms by (simp_all add: wf_state_def coreOk_def)

lemma playerIds_frame [simp]:
  "playerIds (s\<lparr>phase := a\<rparr>) = playerIds s"
  "playerIds (s\<lparr>pendingTileKey := b\<rparr>) = playerIds s"
  "playerIds (s\<lparr>auction := c\<rparr>) = playerIds s"
  "playerIds (s\<lparr>debt := d\<rparr>) = playerIds s"
  "playerIds (s\<lparr>tradeOffer := e\<rparr>) = playerIds s"
  "playerIds (s\<lparr>turnNumber := n\<rparr>) = playerIds s"
  "playerIds (s\<lparr>turnExpiresAt := f\<rparr>) = playerIds s"
  "playerIds (s\<lparr>currentTurnRoomPlayerId := g\<rparr>) = playerIds s"
  "playerIds (s\<lparr>consecutiveDoublesCount := n\<rparr>) = playerIds s"
  "playerIds (s\<lparr>shouldCurrentPlayerPlayAgain := h\<rparr>) = playerIds s"
  "playerIds (s\<lparr>lastDiceRoll := i\<rparr>) = playerIds s"
  "playerIds (s\<lparr>decks := j\<rparr>) = playerIds s"
  "playerIds (s\<lparr>properties := k\<rparr>) = playerIds s"
  by (simp_all add: playerIds_def)

section \<open>Players under elementary updates\<close>

lemma playersOk_distinct: "playersOk ps \<Longrightarrow> distinct (map roomPlayerId ps)"
  by (simp add: playersOk_def)

lemma playersOk_found: "playersOk ps \<Longrightarrow> findBy roomPlayerId pid ps = Some p \<Longrightarrow> playerOk p"
  by (auto simp: playersOk_def list_all_iff dest: findBy_SomeD)

lemma playersOk_find:
  "playersOk ps \<Longrightarrow> p \<in> set ps \<Longrightarrow> findBy roomPlayerId (roomPlayerId p) ps = Some p"
  by (simp add: playersOk_def findBy_Some_iff)

lemma playersOk_nonempty_id: "playersOk ps \<Longrightarrow> [] \<notin> set (map roomPlayerId ps)"
  by (auto simp: playersOk_def list_all_iff playerOk_def)

lemma activeIds_iff:
  assumes "distinct (map roomPlayerId ps)"
  shows "pid \<in> activeIds ps \<longleftrightarrow> (\<exists>p. findBy roomPlayerId pid ps = Some p \<and> \<not> bankrupt p)"
  using assms by (auto simp: activeIds_def findBy_Some_iff)

lemma activeIds_subset: "activeIds ps \<subseteq> set (map roomPlayerId ps)"
  by (auto simp: activeIds_def)

lemma playersOk_updateBy:
  assumes "playersOk ps" "\<And>p. roomPlayerId (f p) = roomPlayerId p"
    and "\<And>p. findBy roomPlayerId pid ps = Some p \<Longrightarrow> playerOk p \<Longrightarrow> playerOk (f p)"
  shows "playersOk (updateBy roomPlayerId pid f ps)"
  using assms findBy_Some_iff [OF playersOk_distinct [OF assms(1)]]
  by (auto simp: playersOk_def list_all_iff elim!: updateByE)

lemma activeIds_updateBy [simp]:
  assumes "\<And>p. roomPlayerId (f p) = roomPlayerId p" "\<And>p. bankrupt (f p) = bankrupt p"
  shows "activeIds (updateBy roomPlayerId pid f ps) = activeIds ps"
proof (induction ps)
  case (Cons p ps)
  then show ?case using assms by (auto simp: activeIds_def)
qed (simp add: activeIds_def)

lemma heldCards_updateBy [simp]:
  assumes "\<And>p. heldKeys (f p) = heldKeys p"
  shows "heldCards (updateBy roomPlayerId pid f ps) = heldCards ps"
  using assms by (simp add: heldCards_def)

lemma heldCards_updateBy_found:
  assumes "distinct (map roomPlayerId ps)" "findBy roomPlayerId pid ps = Some p"
  shows "heldCards (updateBy roomPlayerId pid f ps) + mset (heldKeys p) =
     heldCards ps + mset (heldKeys (f p))"
  using assms
proof (induction ps)
  case (Cons q qs)
  show ?case
  proof (cases "roomPlayerId q = pid")
    case True
    with Cons.prems have "pid \<notin> roomPlayerId ` set qs" and "p = q" by auto
    with True show ?thesis by (simp add: updateBy_absent heldCards_def)
  next
    case False
    with Cons have "heldCards (updateBy roomPlayerId pid f qs) + mset (heldKeys p) =
        heldCards qs + mset (heldKeys (f p))" by simp
    with False show ?thesis by (simp add: heldCards_def ac_simps)
  qed
qed simp

lemma heldKeys_simps [simp]:
  "heldKeys (p\<lparr>cash := c\<rparr>) = heldKeys p"
  "heldKeys (p\<lparr>position := x\<rparr>) = heldKeys p"
  "heldKeys (p\<lparr>inJail := b\<rparr>) = heldKeys p"
  "heldKeys (p\<lparr>jailTurnCount := n\<rparr>) = heldKeys p"
  "heldKeys (p\<lparr>consecutiveMissedTurns := m\<rparr>) = heldKeys p"
  "heldKeys (p\<lparr>lastMissedTurnNumber := m\<rparr>) = heldKeys p"
  "heldKeys (p\<lparr>lastBotTradeProposalTurnNumber := m\<rparr>) = heldKeys p"
  "heldKeys (p\<lparr>bankrupt := b\<rparr>) = heldKeys p"
  "heldKeys (p\<lparr>getOutOfJailFreeCards := n\<rparr>) = heldKeys p"
  "heldKeys (p\<lparr>getOutOfJailFreeCardKeys := Some ks\<rparr>) = ks"
  by (simp_all add: heldKeys_def)

lemma playerOk_simps [simp]:
  "playerOk (p\<lparr>inJail := b\<rparr>) = playerOk p"
  "playerOk (p\<lparr>consecutiveMissedTurns := m\<rparr>) = playerOk p"
  "playerOk (p\<lparr>lastMissedTurnNumber := m'\<rparr>) = playerOk p"
  "playerOk (p\<lparr>lastBotTradeProposalTurnNumber := m\<rparr>) = playerOk p"
  "playerOk p \<Longrightarrow> playerOk (p\<lparr>cash := c\<rparr>) \<longleftrightarrow> 0 \<le> c"
  "playerOk p \<Longrightarrow> playerOk (p\<lparr>position := x\<rparr>) \<longleftrightarrow> 0 \<le> x \<and> x < 40"
  "playerOk p \<Longrightarrow> playerOk (p\<lparr>jailTurnCount := n\<rparr>) \<longleftrightarrow> 0 \<le> n"
  by (auto simp: playerOk_def)

lemma bankruptBiddersBroke_updateBy:
  assumes "playersOk ps" "bankruptBiddersBroke ps a"
    and "\<And>p. roomPlayerId (f p) = roomPlayerId p" "\<And>p. bankrupt (f p) = bankrupt p"
    and "\<And>p. findBy roomPlayerId pid ps = Some p \<Longrightarrow> bankrupt p \<Longrightarrow> cash p = 0 \<Longrightarrow> cash (f p) = 0"
  shows "bankruptBiddersBroke (updateBy roomPlayerId pid f ps) a"
  using assms playersOk_find [OF assms(1)]
  by (auto simp: bankruptBiddersBroke_def list_all_iff elim!: updateByE)

lemma coreOk_modifyPlayer:
  assumes "coreOk s"
    and f: "\<And>p. roomPlayerId (f p) = roomPlayerId p" "\<And>p. bankrupt (f p) = bankrupt p"
      "\<And>p. heldKeys (f p) = heldKeys p"
    and "\<And>p. findBy roomPlayerId pid (players s) = Some p \<Longrightarrow> playerOk p \<Longrightarrow> playerOk (f p)"
  shows "coreOk (modifyPlayer pid f s)"
  using assms by (simp add: coreOk_def playersOk_updateBy)

lemma phaseOk_modifyPlayer:
  assumes "playersOk (players s)" "phaseOk s"
    and f: "\<And>p. roomPlayerId (f p) = roomPlayerId p" "\<And>p. bankrupt (f p) = bankrupt p"
    and "\<And>p. findBy roomPlayerId pid (players s) = Some p \<Longrightarrow> bankrupt p \<Longrightarrow> auction s \<noteq> None \<Longrightarrow>
      cash p = 0 \<Longrightarrow> cash (f p) = 0"
  shows "phaseOk (modifyPlayer pid f s)"
  using assms by (cases "auction s") (auto simp: phaseOk_def intro!: bankruptBiddersBroke_updateBy)

lemma wf_modifyPlayer:
  assumes "wf_state s"
    and "\<And>p. roomPlayerId (f p) = roomPlayerId p" "\<And>p. bankrupt (f p) = bankrupt p"
      "\<And>p. heldKeys (f p) = heldKeys p" "\<And>p. playerOk p \<Longrightarrow> playerOk (f p)"
      "\<And>p. cash (f p) = cash p"
  shows "wf_state (modifyPlayer pid f s)"
  using assms wf_stateD(3) [OF assms(1)]
  by (auto simp: wf_state_def intro!: coreOk_modifyPlayer phaseOk_modifyPlayer)

section \<open>Payments\<close>

lemma debitPlayer_coreOk:
  assumes "coreOk s" "debitPlayer s pid a = Inr s'"
  shows "coreOk s'"
  using assms by (auto simp: debitPlayer_Inr_iff intro!: coreOk_modifyPlayer)

lemma creditPlayer_coreOk:
  assumes "coreOk s" "creditPlayer s pid a = Inr s'"
  shows "coreOk s'"
  using assms by (auto simp: creditPlayer_Inr_iff playerOk_def intro!: coreOk_modifyPlayer)

lemma debitPlayer_wf:
  assumes "wf_state s" "debitPlayer s pid a = Inr s'"
  shows "wf_state s'"
proof
  show "coreOk s'" using assms debitPlayer_coreOk wf_stateD(1) by blast
  from assms(2) obtain p where p: "findBy roomPlayerId pid (players s) = Some p" "a \<le> cash p" "0 \<le> a"
    and s': "s' = modifyPlayer pid (\<lambda>c. c\<lparr>cash := cash c - a\<rparr>) s"
    by (auto simp: debitPlayer_Inr_iff)
  then show "phaseOk s'"
    using wf_stateD(2,3) [OF assms(1)] by (auto intro!: phaseOk_modifyPlayer)
qed

lemma creditPlayer_wf:
  assumes "wf_state s" "creditPlayer s pid a = Inr s'"
    and "pid \<in> activeIds (players s) \<or> auction s = None"
  shows "wf_state s'"
proof
  show "coreOk s'" using assms creditPlayer_coreOk wf_stateD(1) by blast
  show "phaseOk s'"
    using assms(2,3) wf_stateD(2,3) [OF assms(1)]
    by (auto simp: creditPlayer_Inr_iff activeIds_iff [OF playersOk_distinct [OF wf_stateD(3) [OF assms(1)]]]
        intro!: phaseOk_modifyPlayer)
qed

text \<open>What a payment leaves unchanged.\<close>

lemma debitPlayer_frame:
  assumes "debitPlayer s pid a = Inr s'"
  shows "phase s' = phase s" "auction s' = auction s" "debt s' = debt s"
    "pendingTileKey s' = pendingTileKey s" "tradeOffer s' = tradeOffer s"
    "properties s' = properties s" "decks s' = decks s" "boardKey s' = boardKey s"
    "currentTurnRoomPlayerId s' = currentTurnRoomPlayerId s" "turnNumber s' = turnNumber s"
    "playerIds s' = playerIds s" "activeIds (players s') = activeIds (players s)"
    "expiresAt s' = expiresAt s"
  using assms by (auto simp: debitPlayer_Inr_iff)

lemma creditPlayer_frame:
  assumes "creditPlayer s pid a = Inr s'"
  shows "phase s' = phase s" "auction s' = auction s" "debt s' = debt s"
    "pendingTileKey s' = pendingTileKey s" "tradeOffer s' = tradeOffer s"
    "properties s' = properties s" "decks s' = decks s" "boardKey s' = boardKey s"
    "currentTurnRoomPlayerId s' = currentTurnRoomPlayerId s" "turnNumber s' = turnNumber s"
    "playerIds s' = playerIds s" "activeIds (players s') = activeIds (players s)"
    "expiresAt s' = expiresAt s"
  using assms by (auto simp: creditPlayer_Inr_iff)

lemma transferPlayerCash_frame:
  assumes "transferPlayerCash s fromId toId a = Inr s'"
  shows "phase s' = phase s" "auction s' = auction s" "debt s' = debt s"
    "pendingTileKey s' = pendingTileKey s" "tradeOffer s' = tradeOffer s"
    "properties s' = properties s" "decks s' = decks s" "boardKey s' = boardKey s"
    "currentTurnRoomPlayerId s' = currentTurnRoomPlayerId s" "turnNumber s' = turnNumber s"
    "playerIds s' = playerIds s" "activeIds (players s') = activeIds (players s)"
    "expiresAt s' = expiresAt s"
  using assms by (auto simp: transferPlayerCash_def debitPlayer_frame creditPlayer_frame)

lemma transferPlayerCash_wf:
  assumes "wf_state s" "transferPlayerCash s fromId toId a = Inr s'"
    and "toId \<in> activeIds (players s) \<or> auction s = None"
  shows "wf_state s'"
proof -
  from assms(2) obtain t where t: "debitPlayer s fromId a = Inr t" "creditPlayer t toId a = Inr s'"
    by (auto simp: transferPlayerCash_def)
  show ?thesis
    using assms(3) debitPlayer_frame [OF t(1)]
    by (intro creditPlayer_wf [OF debitPlayer_wf [OF assms(1) t(1)] t(2)]) simp
qed

text \<open>Fields that no part of the invariant reads.\<close>

lemma wf_state_frame [simp]:
  "wf_state (s\<lparr>shouldCurrentPlayerPlayAgain := b\<rparr>) = wf_state s"
  "wf_state (s\<lparr>lastDiceRoll := d\<rparr>) = wf_state s"
  "wf_state (s\<lparr>turnNumber := n\<rparr>) = wf_state s"
  "wf_state (s\<lparr>turnExpiresAt := e\<rparr>) = wf_state s"
  by (simp_all add: wf_state_def coreOk_def phaseOk_def)

lemma wf_state_doubles: "wf_state s \<Longrightarrow> 0 \<le> n \<Longrightarrow> n < 3 \<Longrightarrow> wf_state (s\<lparr>consecutiveDoublesCount := n\<rparr>)"
  by (simp add: wf_state_def coreOk_def phaseOk_def)

lemma wf_state_trade: "wf_state s \<Longrightarrow> \<not> terminal (phase s) \<or> t = None \<Longrightarrow> wf_state (s\<lparr>tradeOffer := t\<rparr>)"
  by (auto simp: wf_state_def coreOk_def phaseOk_def)

text \<open>The phases in which the current player rolls, decides or is done.\<close>

definition calm :: "GameEngineState \<Rightarrow> bool" where
  "calm s \<longleftrightarrow> \<not> terminal (phase s) \<and> debt s = None \<and> auction s = None"

lemma calm_current: "wf_state s \<Longrightarrow> calm s \<Longrightarrow> currentTurnRoomPlayerId s \<in> activeIds (players s)"
  by (simp add: wf_state_def coreOk_def calm_def)

lemma wf_turn_end:
  assumes "wf_state s" "calm s"
  shows "wf_state (s\<lparr>phase := Awaiting_turn_end, pendingTileKey := None\<rparr>)"
  using assms by (auto simp: wf_state_def coreOk_def phaseOk_def calm_def)

lemma wf_decision:
  assumes "wf_state s" "calm s" "k \<in> unownedKeys (properties s)"
  shows "wf_state (s\<lparr>phase := Awaiting_property_decision, pendingTileKey := Some k\<rparr>)"
  using assms by (auto simp: wf_state_def coreOk_def phaseOk_def calm_def)

lemma createDebtState_wf:
  assumes "wf_state s" "\<not> terminal (phase s)" "debtOk (set (playerIds s)) (currentTurnRoomPlayerId s) d"
  shows "wf_state (createDebtState s d)"
  using assms by (auto simp: createDebtState_def wf_state_def coreOk_def phaseOk_def)

lemma debitPlayerOrCreateDebt_wf:
  assumes "wf_state s" "\<not> terminal (phase s)"
    and "debitPlayerOrCreateDebt s (currentTurnRoomPlayerId s) amount reason None = Inr (s', evs, paid)"
  shows "wf_state s'"
proof -
  let ?pid = "currentTurnRoomPlayerId s"
  from assms(3) obtain p where p: "findBy roomPlayerId ?pid (players s) = Some p"
    and cases: "if amount \<le> cash p then debitPlayer s ?pid amount = Inr s'
      else s' = createDebtState s \<lparr>debt_roomPlayerId = ?pid, creditorRoomPlayerId = None,
        debt_amount = amount, debt_reason = reason\<rparr>"
    by (auto simp: debitPlayerOrCreateDebt_def split: if_splits)
  have "0 \<le> cash p" using playersOk_found [OF wf_stateD(3) [OF assms(1)] p] by (simp add: playerOk_def)
  then show ?thesis
    using cases assms(1,2)
    by (cases "amount \<le> cash p") (auto simp: debtOk_def intro: debitPlayer_wf createDebtState_wf)
qed

lemma transferPlayerCashOrCreateDebt_wf:
  assumes "wf_state s" "\<not> terminal (phase s)" "toId \<in> activeIds (players s)"
    "toId \<noteq> currentTurnRoomPlayerId s"
    and "transferPlayerCashOrCreateDebt s (currentTurnRoomPlayerId s) toId amount reason = Inr (s', evs, paid)"
  shows "wf_state s'"
proof -
  let ?pid = "currentTurnRoomPlayerId s"
  from assms(5) obtain p where p: "findBy roomPlayerId ?pid (players s) = Some p"
    and cases: "if amount \<le> cash p then transferPlayerCash s ?pid toId amount = Inr s'
      else s' = createDebtState s \<lparr>debt_roomPlayerId = ?pid, creditorRoomPlayerId = Some toId,
        debt_amount = amount, debt_reason = reason\<rparr>"
    by (auto simp: transferPlayerCashOrCreateDebt_def split: if_splits)
  have "0 \<le> cash p" using playersOk_found [OF wf_stateD(3) [OF assms(1)] p] by (simp add: playerOk_def)
  moreover have "toId \<in> set (playerIds s)"
    using assms(3) activeIds_subset [of "players s"] by (auto simp: playerIds_def)
  ultimately show ?thesis
    using cases assms(1-4)
    by (cases "amount \<le> cash p") (auto simp: debtOk_def intro: transferPlayerCash_wf createDebtState_wf)
qed

section \<open>Properties under elementary updates\<close>

lemma isOwnableTile_iff: "isOwnableTile t \<longleftrightarrow> ownableKind (kind t)"
  by (auto simp: isOwnableTile_def ownableKind_def)

lemma isRentableTile_iff: "isRentableTile t \<longleftrightarrow> ownableKind (kind t)"
  by (auto simp: isRentableTile_def ownableKind_def)

lemma distinct_ownableKeys: "distinct ownableKeys"
  unfolding ownableKeys_def by (rule distinct_map_filter) (rule distinct_tile_key)

lemma ownableKeys_iff:
  "k \<in> set ownableKeys \<longleftrightarrow> (\<exists>t. findTile CLASSIC_GAME_BOARD k = Some t \<and> isOwnableTile t)"
  by (auto simp: ownableKeys_def findTile_key dest: findTile_SomeD)

lemma propertiesOk_distinct: "propertiesOk A qs \<Longrightarrow> distinct (map tileKey qs)"
  by (simp add: propertiesOk_def distinct_ownableKeys)

lemma propertiesOk_find:
  assumes "propertiesOk A qs"
  shows "findBy tileKey k qs = Some q \<longleftrightarrow> q \<in> set qs \<and> tileKey q = k"
  by (rule findBy_Some_iff [OF propertiesOk_distinct [OF assms]])

lemma propertiesOk_found: "propertiesOk A qs \<Longrightarrow> findBy tileKey k qs = Some q \<Longrightarrow> propertyOk A q"
  by (auto simp: propertiesOk_def list_all_iff dest: findBy_SomeD)

lemma propertiesOk_lookup:
  assumes "propertiesOk A qs"
  shows "(\<exists>q. findBy tileKey k qs = Some q) \<longleftrightarrow> k \<in> set ownableKeys"
proof -
  have "(\<exists>q. findBy tileKey k qs = Some q) \<longleftrightarrow> k \<in> tileKey ` set qs"
    using findBy_None_iff [of tileKey k qs] by (cases "findBy tileKey k qs") auto
  also have "\<dots> \<longleftrightarrow> k \<in> set ownableKeys"
    using assms by (simp add: propertiesOk_def flip: set_map)
  finally show ?thesis .
qed

lemma propertiesOk_updateBy:
  assumes "propertiesOk A qs" "\<And>q. tileKey (f q) = tileKey q"
    and "\<And>q. findBy tileKey k qs = Some q \<Longrightarrow> propertyOk A q \<Longrightarrow> propertyOk A (f q)"
  shows "propertiesOk A (updateBy tileKey k f qs)"
  using assms(1,2) assms(3) [unfolded propertiesOk_find [OF assms(1)]]
  by (auto simp: propertiesOk_def list_all_iff elim!: updateByE)

lemma propertiesOk_mono:
  assumes "propertiesOk A qs" "A \<subseteq> B"
  shows "propertiesOk B qs"
  using assms by (auto simp: propertiesOk_def propertyOk_def list_all_iff)

lemma unownedKeys_iff:
  assumes "propertiesOk A qs"
  shows "k \<in> unownedKeys qs \<longleftrightarrow> (\<exists>q. findBy tileKey k qs = Some q \<and> \<not> truthy (ownerRoomPlayerId q))"
  by (auto simp: unownedKeys_def propertiesOk_find [OF assms])

lemma unownedKeys_updateBy [simp]:
  assumes "\<And>q. tileKey (f q) = tileKey q" "\<And>q. ownerRoomPlayerId (f q) = ownerRoomPlayerId q"
  shows "unownedKeys (updateBy tileKey k f qs) = unownedKeys qs"
proof (induction qs)
  case (Cons q qs)
  then show ?case using assms by (auto simp: unownedKeys_def)
qed (simp add: unownedKeys_def)

lemma updatePropertyState_frame [simp]:
  "phase (updatePropertyState s k f) = phase s"
  "players (updatePropertyState s k f) = players s"
  "properties (updatePropertyState s k f) = updateBy tileKey k f (properties s)"
  "decks (updatePropertyState s k f) = decks s"
  "boardKey (updatePropertyState s k f) = boardKey s"
  "debt (updatePropertyState s k f) = debt s"
  "auction (updatePropertyState s k f) = auction s"
  "tradeOffer (updatePropertyState s k f) = tradeOffer s"
  "pendingTileKey (updatePropertyState s k f) = pendingTileKey s"
  "currentTurnRoomPlayerId (updatePropertyState s k f) = currentTurnRoomPlayerId s"
  "turnNumber (updatePropertyState s k f) = turnNumber s"
  "consecutiveDoublesCount (updatePropertyState s k f) = consecutiveDoublesCount s"
  "shouldCurrentPlayerPlayAgain (updatePropertyState s k f) = shouldCurrentPlayerPlayAgain s"
  "expiresAt (updatePropertyState s k f) = expiresAt s"
  "playerIds (updatePropertyState s k f) = playerIds s"
  by (simp_all add: updatePropertyState_def playerIds_def)

lemma coreOk_updateProperty:
  assumes "coreOk s" "\<And>q. tileKey (f q) = tileKey q"
    and "\<And>q. findBy tileKey k (properties s) = Some q \<Longrightarrow>
      propertyOk (activeIds (players s)) q \<Longrightarrow> propertyOk (activeIds (players s)) (f q)"
  shows "coreOk (updatePropertyState s k f)"
  using assms by (simp add: coreOk_def propertiesOk_updateBy)

lemma wf_updateProperty:
  assumes "wf_state s" "\<And>q. tileKey (f q) = tileKey q" "\<And>q. ownerRoomPlayerId (f q) = ownerRoomPlayerId q"
    and "\<And>q. findBy tileKey k (properties s) = Some q \<Longrightarrow>
      propertyOk (activeIds (players s)) q \<Longrightarrow> propertyOk (activeIds (players s)) (f q)"
  shows "wf_state (updatePropertyState s k f)"
  using assms by (auto simp: wf_state_def phaseOk_def intro!: coreOk_updateProperty)

section \<open>Cards under elementary updates\<close>

lemma setDeck_frame [simp]:
  "phase (setDeck s d x) = phase s"
  "players (setDeck s d x) = players s"
  "properties (setDeck s d x) = properties s"
  "boardKey (setDeck s d x) = boardKey s"
  "debt (setDeck s d x) = debt s"
  "auction (setDeck s d x) = auction s"
  "tradeOffer (setDeck s d x) = tradeOffer s"
  "pendingTileKey (setDeck s d x) = pendingTileKey s"
  "currentTurnRoomPlayerId (setDeck s d x) = currentTurnRoomPlayerId s"
  "turnNumber (setDeck s d x) = turnNumber s"
  "consecutiveDoublesCount (setDeck s d x) = consecutiveDoublesCount s"
  "shouldCurrentPlayerPlayAgain (setDeck s d x) = shouldCurrentPlayerPlayAgain s"
  "lastDiceRoll (setDeck s d x) = lastDiceRoll s"
  "expiresAt (setDeck s d x) = expiresAt s"
  "playerIds (setDeck s d x) = playerIds s"
  by (simp_all add: setDeck_def playerIds_def)

lemma mset_moved:
  assumes "J \<subseteq># (A :: 'a multiset)"
  shows "(A - J) + B + (h + J) = A + B + h" "B + (A - J) + (h + J) = B + A + h"
  using assms by (auto simp: subset_mset.le_iff_add)

lemma cardsOk_iff:
  "cardsOk (decks s) held \<longleftrightarrow>
     (\<forall>d. set_mset (pileCards (getDeck s d)) \<subseteq> set (deckCardKeys d)) \<and>
     set_mset held \<subseteq> set jailCardKeys \<and>
     pileCards (getDeck s Chance) + pileCards (getDeck s World_fund) + held =
       mset (deckCardKeys Chance @ deckCardKeys World_fund)"
proof -
  have "(\<forall>d. P d) \<longleftrightarrow> P Chance \<and> P World_fund" for P
    by (metis GameCardDeckKey.exhaust)
  then show ?thesis by (simp add: cardsOk_def getDeck_def)
qed

lemma ordinary_card:
  obtains k where "k \<in> set (deckCardKeys d)" "k \<notin> set jailCardKeys"
proof -
  have "''chance_bank_dividend'' \<in> set (deckCardKeys Chance)"
    "''world_fund_receive_25'' \<in> set (deckCardKeys World_fund)"
    "''chance_bank_dividend'' \<notin> set jailCardKeys" "''world_fund_receive_25'' \<notin> set jailCardKeys"
    by code_simp+
  then show thesis using that by (cases d) blast+
qed

lemma cardsOk_pile:
  assumes "cardsOk (decks s) held"
  shows "\<forall>k \<in># pileCards (getDeck s d). k \<in> set (deckCardKeys d)" "pileCards (getDeck s d) \<noteq> {#}"
proof -
  show "\<forall>k \<in># pileCards (getDeck s d). k \<in> set (deckCardKeys d)"
    using assms by (cases d) (auto simp: cardsOk_def getDeck_def)
  obtain k where k: "k \<in> set (deckCardKeys d)" "k \<notin> set jailCardKeys"
    by (rule ordinary_card)
  have only: "d' = d" if "k \<in> set (deckCardKeys d')" for d'
    using deckCardKeys_ok [OF that] deckCardKeys_ok [OF k(1)] by (simp add: cardKeyOk_def)
  have "k \<in># pileCards (chance (decks s)) + pileCards (worldFund (decks s)) + held"
    using assms k(1) unfolding cardsOk_def by (cases d) auto
  moreover have "k \<notin># held" using assms k(2) by (auto simp: cardsOk_def)
  ultimately have "k \<in># pileCards (chance (decks s)) \<or> k \<in># pileCards (worldFund (decks s))"
    by auto
  moreover have "k \<in># pileCards (chance (decks s)) \<Longrightarrow> d = Chance"
    "k \<in># pileCards (worldFund (decks s)) \<Longrightarrow> d = World_fund"
    using assms only by (auto simp: cardsOk_def)
  ultimately have "k \<in># pileCards (getDeck s d)" by (auto simp: getDeck_def)
  then show "pileCards (getDeck s d) \<noteq> {#}" by auto
qed

lemma drawCard_succeeds: "cardsOk (decks s) held \<Longrightarrow> \<exists>s' k. drawCard s d = Inr (s', k)"
  using decks.draw_succeeds [OF cardsOk_pile(2,1)] by fastforce

lemma drawCard_frame:
  assumes "drawCard s d = Inr (s', k)"
  obtains x where "s' = setDeck s d x"
  using assms by (auto simp: drawCard_def Let_def split: list.splits)

lemma drawCard_cardsOk:
  assumes "cardsOk (decks s) held" "drawCard s d = Inr (s', k)"
  shows "k \<in> set (deckCardKeys d)"
    "cardsOk (decks s') (held + (if k \<in> set jailCardKeys then {#k#} else {#}))"
proof -
  note pile = decks.draw_pile [OF assms(2) cardsOk_pile(1) [OF assms(1)]]
  then have k: "k \<in># pileCards (getDeck s d)" ..
  then show "k \<in> set (deckCardKeys d)" using cardsOk_pile(1) [OF assms(1)] by blast
  let ?kept = "if k \<in> set jailCardKeys then {#k#} else {#}"
  have sub: "?kept \<subseteq># pileCards (getDeck s d)" using k by simp
  have other: "pileCards (getDeck s' d') = pileCards (getDeck s d')" if "d' \<noteq> d" for d'
    using pile that by (metis fun_upd_apply)
  have same: "pileCards (getDeck s' d) = pileCards (getDeck s d) - ?kept"
    using pile by (metis fun_upd_apply)
  show "cardsOk (decks s') (held + ?kept)"
    unfolding cardsOk_iff
  proof (intro conjI allI)
    fix d'
    show "set_mset (pileCards (getDeck s' d')) \<subseteq> set (deckCardKeys d')"
      using cardsOk_pile(1) [OF assms(1), of d'] other [of d'] same
      by (cases "d' = d") (auto dest: in_diffD)
  next
    show "set_mset (held + ?kept) \<subseteq> set jailCardKeys"
      using assms(1) by (auto simp: cardsOk_def)
  next
    have "pileCards (getDeck s' Chance) + pileCards (getDeck s' World_fund) + (held + ?kept) =
        pileCards (getDeck s Chance) + pileCards (getDeck s World_fund) + held"
      using other [of Chance] other [of World_fund] same mset_moved [OF sub]
      by (cases d) (simp_all only: GameCardDeckKey.distinct not_False_eq_True simp_thms)
    also have "\<dots> = mset (deckCardKeys Chance @ deckCardKeys World_fund)"
      using assms(1) by (simp add: cardsOk_iff)
    finally show "pileCards (getDeck s' Chance) + pileCards (getDeck s' World_fund) + (held + ?kept) =
        mset (deckCardKeys Chance @ deckCardKeys World_fund)" .
  qed
qed

lemma returnCard_frame:
  "returnGetOutOfJailCardToDeck s k = Inr s' \<Longrightarrow> s' = s\<lparr>decks := decks s'\<rparr>"
  by (auto simp: returnGetOutOfJailCardToDeck_def Let_def setDeck_def)

lemma returnHand_frame:
  assumes "foldM (\<lambda>t k. returnGetOutOfJailCardToDeck t (Some k)) s ks = Inr s'"
  shows "s' = s\<lparr>decks := decks s'\<rparr>"
proof -
  have "\<exists>d. s' = s\<lparr>decks := d\<rparr>"
  proof (rule foldM_invariant [OF assms, where P = "\<lambda>t. \<exists>d. t = s\<lparr>decks := d\<rparr>"])
    show "\<exists>d. s = s\<lparr>decks := d\<rparr>" by (rule exI [of _ "decks s"]) simp
  next
    fix k and t t' :: GameEngineState
    assume "\<exists>d. t = s\<lparr>decks := d\<rparr>" "returnGetOutOfJailCardToDeck t (Some k) = Inr t'"
    then show "\<exists>d. t' = s\<lparr>decks := d\<rparr>"
      by (auto simp: returnGetOutOfJailCardToDeck_def Let_def setDeck_def)
  qed
  then show ?thesis by auto
qed

lemma returnHand_cardsOk:
  assumes "cardsOk (decks s) held" "mset ks \<subseteq># held"
  obtains s' where "foldM (\<lambda>t k. returnGetOutOfJailCardToDeck t (Some k)) s ks = Inr s'"
    "s' = s\<lparr>decks := decks s'\<rparr>" "cardsOk (decks s') (held - mset ks)"
proof -
  have "set ks \<subseteq> set jailCardKeys"
    using assms by (auto simp: cardsOk_def dest: mset_subset_eqD)
  then have home: "\<exists>d. getDeckKeyForCard k = Some d \<and> k \<in> set (deckCardKeys d)" if "k \<in> set ks" for k
    using that jailCardKeys_home by blast
  then obtain s' where s': "foldM (\<lambda>t k. returnGetOutOfJailCardToDeck t (Some k)) s ks = Inr s'"
    and pile: "\<And>d. pileCards (getDeck s' d) =
      pileCards (getDeck s d) + mset (filter (\<lambda>k. getDeckKeyForCard k = Some d) ks)"
    using decks.giveBack_hand [of ks s] by fastforce
  have split: "mset (filter (\<lambda>k. getDeckKeyForCard k = Some Chance) ks) +
      mset (filter (\<lambda>k. getDeckKeyForCard k = Some World_fund) ks) = mset ks"
    using home by (induction ks) (auto, metis GameCardDeckKey.exhaust)
  obtain rest where rest: "held = mset ks + rest"
    using assms(2) by (auto simp: subset_mset.le_iff_add)
  have "cardsOk (decks s') rest"
    unfolding cardsOk_iff
  proof (intro conjI allI)
    fix d
    show "set_mset (pileCards (getDeck s' d)) \<subseteq> set (deckCardKeys d)"
      using cardsOk_pile(1) [OF assms(1), of d] home by (fastforce simp: pile)
  next
    show "set_mset rest \<subseteq> set jailCardKeys" using assms(1) by (auto simp: cardsOk_def rest)
  next
    have "pileCards (getDeck s' Chance) + pileCards (getDeck s' World_fund) + rest =
        pileCards (getDeck s Chance) + pileCards (getDeck s World_fund) + held"
      by (simp only: pile rest split [symmetric] ac_simps)
    then show "pileCards (getDeck s' Chance) + pileCards (getDeck s' World_fund) + rest =
        mset (deckCardKeys Chance @ deckCardKeys World_fund)"
      using assms(1) by (simp add: cardsOk_iff)
  qed
  then have "cardsOk (decks s') (held - mset ks)" by (simp add: rest)
  with s' returnHand_frame [OF s'] show thesis by (rule that)
qed

section \<open>Guards and lookups\<close>

lemma assertCurrentTurn_Inr_iff:
  "assertCurrentTurn s pid = Inr u \<longleftrightarrow> currentTurnRoomPlayerId s = pid \<and>
     (\<exists>p. findBy roomPlayerId pid (players s) = Some p \<and> \<not> bankrupt p)"
  by (auto simp: assertCurrentTurn_def)

lemma findPropertyState_Inr_iff [simp]:
  "findPropertyState s k = Inr q \<longleftrightarrow> findBy tileKey k (properties s) = Some q"
  by (simp add: findPropertyState_def findProperty_def)

lemma updatePropertyState_cong:
  assumes "propertiesOk A (properties s)" "findBy tileKey k (properties s) = Some q" "f q = g q"
  shows "updatePropertyState s k f = updatePropertyState s k g"
  using updateBy_found_cong [of tileKey "properties s" k q f g] assms propertiesOk_distinct [OF assms(1)]
  by (simp add: updatePropertyState_def)

lemma currentTurn_active:
  "wf_state s \<Longrightarrow> assertCurrentTurn s pid = Inr u \<Longrightarrow> pid \<in> activeIds (players s)"
  by (auto simp: assertCurrentTurn_Inr_iff activeIds_iff [OF playersOk_distinct [OF wf_stateD(3)]])

lemma active_nonempty: "wf_state s \<Longrightarrow> pid \<in> activeIds (players s) \<Longrightarrow> pid \<noteq> []"
  using activeIds_subset playersOk_nonempty_id wf_stateD(3) by blast

lemma active_in_ids: "pid \<in> activeIds (players s) \<Longrightarrow> pid \<in> set (playerIds s)"
  using activeIds_subset [of "players s"] by (auto simp: playerIds_def)

section \<open>Rent and tax\<close>

lemma payRent_wf:
  assumes "wf_state s" "\<not> terminal (phase s)"
    and "payRent s (currentTurnRoomPlayerId s) key dice = Inr (s', evs)"
  shows "wf_state s'"
proof (cases "findProperty s key")
  case None
  then show ?thesis using assms by (simp add: payRent_def)
next
  case (Some q)
  note q = Some [unfolded findProperty_def]
  show ?thesis
  proof (cases "s' = s")
    case False
    then obtain amount evs' paid where
      pay: "transferPlayerCashOrCreateDebt s (currentTurnRoomPlayerId s) (the (ownerRoomPlayerId q))
        amount Rent = Inr (s', evs', paid)"
      and owner: "truthy (ownerRoomPlayerId q)" "ownerRoomPlayerId q \<noteq> Some (currentTurnRoomPlayerId s)"
      using assms(3) by (auto simp: payRent_def Some Let_def split: if_splits option.splits)
    have "the (ownerRoomPlayerId q) \<in> activeIds (players s)"
      using propertiesOk_found [OF wf_stateD(4) [OF assms(1)] q] owner by (simp add: propertyOk_def)
    moreover have "the (ownerRoomPlayerId q) \<noteq> currentTurnRoomPlayerId s"
      using owner by (cases "ownerRoomPlayerId q") auto
    ultimately show ?thesis using transferPlayerCashOrCreateDebt_wf [OF assms(1,2) _ _ pay] by blast
  qed (use assms in simp)
qed

lemma payTax_wf:
  assumes "wf_state s" "\<not> terminal (phase s)"
    and "payTax s (currentTurnRoomPlayerId s) key = Inr (s', evs)"
  shows "wf_state s'"
  using assms debitPlayerOrCreateDebt_wf [OF assms(1,2)] by (auto simp: payTax_def)

section \<open>Which errors can occur\<close>

text \<open>
  The errors a client may meet: the engine's own refusals. Reading an undefined element, a loop that
  does not return, a plain \<^verbatim>\<open>Error\<close> and the two errors about missing cards are not among them.
\<close>

definition expected :: "GameEngineError \<Rightarrow> bool" where
  "expected e \<longleftrightarrow>
     (case e of EngineError c \<Rightarrow> c \<noteq> CARD_NOT_FOUND \<and> c \<noteq> CARD_DECK_EMPTY | _ \<Rightarrow> False)"

lemma expected_simps [simp]:
  "expected (EngineError c) \<longleftrightarrow> c \<noteq> CARD_NOT_FOUND \<and> c \<noteq> CARD_DECK_EMPTY"
  "\<not> expected UndefinedRead" "\<not> expected Diverges" "\<not> expected (JsError m)"
  by (simp_all add: expected_def)

lemma payment_errors:
  "debitPlayer s pid a = Inl e \<Longrightarrow> 0 \<le> a \<Longrightarrow> expected e"
  "creditPlayer s pid a = Inl e \<Longrightarrow> 0 \<le> a \<Longrightarrow> expected e"
  "transferPlayerCash s pid pid' a = Inl e \<Longrightarrow> 0 \<le> a \<Longrightarrow> expected e"
  "debitPlayerOrCreateDebt s pid a r c = Inl e \<Longrightarrow> 0 \<le> a \<Longrightarrow> expected e"
  "transferPlayerCashOrCreateDebt s pid pid' a r = Inl e \<Longrightarrow> 0 \<le> a \<Longrightarrow> expected e"
proof -
  show debit: "debitPlayer s pid a = Inl e \<Longrightarrow> 0 \<le> a \<Longrightarrow> expected e" for s
    by (auto simp: debitPlayer_def andThen_Inl_iff)
  have credit: "creditPlayer s pid a = Inl e \<Longrightarrow> 0 \<le> a \<Longrightarrow> expected e" for s pid
    by (auto simp: creditPlayer_def andThen_Inl_iff)
  then show "creditPlayer s pid a = Inl e \<Longrightarrow> 0 \<le> a \<Longrightarrow> expected e" .
  show transfer: "transferPlayerCash s pid pid' a = Inl e \<Longrightarrow> 0 \<le> a \<Longrightarrow> expected e"
    by (auto simp: transferPlayerCash_def andThen_Inl_iff dest: debit credit)
  show "debitPlayerOrCreateDebt s pid a r c = Inl e \<Longrightarrow> 0 \<le> a \<Longrightarrow> expected e"
    by (auto simp: debitPlayerOrCreateDebt_def andThen_Inl_iff dest: debit split: if_splits)
  show "transferPlayerCashOrCreateDebt s pid pid' a r = Inl e \<Longrightarrow> 0 \<le> a \<Longrightarrow> expected e"
    by (auto simp: transferPlayerCashOrCreateDebt_def andThen_Inl_iff dest: transfer split: if_splits)
qed

lemma rentEntry_nonneg:
  assumes "sorted (0 # table)" "table \<noteq> []"
  shows "\<exists>r. rentEntry table n = Inr r \<and> 0 \<le> r"
proof -
  have mem: "0 \<le> x" if "jsNth table i = Some x" for i x
    using that assms(1) by (auto simp: jsNth_def split: if_splits)
  obtain x where x: "jsNth table 0 = Some x" using assms(2) by (simp add: jsNth_def)
  show ?thesis
    using mem x by (cases "jsNth table (n - 1)") (auto simp: rentEntry_def)
qed

lemma calculateRent_nonneg:
  assumes props: "propertiesOk A (properties s)" and tile: "tile \<in> set classicTiles" "ownableKind (kind tile)"
    and dice: "0 \<le> fst dice + snd dice"
  shows "\<exists>r. calculateRent s tile dice = Inr r \<and> 0 \<le> r"
proof -
  have ok: "tileOk tile" by (rule tileOk_classic [OF tile(1)])
  have "tile_key tile \<in> set ownableKeys"
    using tile by (auto simp: ownableKeys_def isOwnableTile_iff)
  then obtain q where q: "findBy tileKey (tile_key tile) (properties s) = Some q"
    using propertiesOk_lookup [OF props] by blast
  have le4: "houseCount q \<le> 4" using propertiesOk_found [OF props q] by (simp add: propertyOk_def)
  show ?thesis
  proof (cases tile)
    case (PropertyTile i k n sk pr base rents hotel cost mv)
    then have rents: "0 < base" "length rents = 4" "\<forall>x\<in>set rents. 0 \<le> x" "0 \<le> hotel"
      using ok by (auto intro: order_trans [rotated])
    have "\<exists>r. jsNth rents (int (houseCount q) - 1) = Some r \<and> 0 \<le> r" if "0 < houseCount q"
      using that le4 rents(2,3) by (auto simp: jsNth_def)
    then show ?thesis
      using PropertyTile q rents
      by (auto simp: calculateRent_def findPropertyState_def findProperty_def)
  next
    case (AirportTile i k n pr rents mv)
    then have "sorted (0 # rents)" "rents \<noteq> []" using ok by auto
    then show ?thesis using AirportTile rentEntry_nonneg by (simp add: calculateRent_def)
  next
    case (UtilityTile i k n pr mults mv)
    then have "sorted (0 # mults)" "mults \<noteq> []" using ok by auto
    from rentEntry_nonneg [OF this, of "countOwnedTilesByKind s Kind_utility k"] show ?thesis
      using UtilityTile dice by (auto simp: calculateRent_def)
  qed (use tile(2) in \<open>simp_all add: ownableKind_def\<close>)
qed

section \<open>Sample games\<close>

text \<open>Small states on which the theorems are instantiated.\<close>

definition sampleGame :: "GameEnginePlayer list \<Rightarrow> GameEngineState" where
  "sampleGame ps = (sampleState ps)\<lparr>decks := createInitialDeckState None,
     properties := createInitialPropertyState Classic\<rparr>"

definition giveTo :: "string \<Rightarrow> string list \<Rightarrow> GameEngineState \<Rightarrow> GameEngineState" where
  "giveTo pid ks s = s\<lparr>properties := map (\<lambda>q. if tileKey q \<in> set ks
     then q\<lparr>ownerRoomPlayerId := Some pid\<rparr> else q) (properties s)\<rparr>"

definition sampleTwo :: GameEngineState where
  "sampleTwo = sampleGame [samplePlayer ''a'' 1 1500, samplePlayer ''b'' 2 1500]"

end
