(* ===== verification/Game_Cards.thy ===== *)
theory Game_Cards
  imports Game_Invariant
begin

text \<open>
  Card effects, \<^verbatim>\<open>src/src/game/engine/game-engine-cards.ts\<close>: drawing a card and applying its
  effect. Being sent to jail (\<^verbatim>\<open>sendPlayerToJail\<close> of \<^verbatim>\<open>game-engine-jail.ts\<close>) is here because
  cards call it.
\<close>

section \<open>Effects\<close>

definition sendPlayerToJail :: "GameEngineState \<Rightarrow> string \<Rightarrow> GameEngineResult" where
  "sendPlayerToJail s pid =
     (let board = getGameBoard (boardKey s) in
      ((modifyPlayer pid (\<lambda>p. p\<lparr>position := jailPosition board, inJail := True, jailTurnCount := 0\<rparr>) s)
         \<lparr>phase := Awaiting_turn_end, pendingTileKey := None, consecutiveDoublesCount := 0,
          shouldCurrentPlayerPlayAgain := False\<rparr>,
       [Player_sent_to_jail pid (jailPosition board)]))"

definition otherActivePlayers :: "GameEngineState \<Rightarrow> string \<Rightarrow> GameEnginePlayer list" where
  "otherActivePlayers s pid = filter (\<lambda>p. roomPlayerId p \<noteq> pid \<and> \<not> bankrupt p) (players s)"

definition collectFromEachPlayer ::
  "GameEngineState \<Rightarrow> string \<Rightarrow> int \<Rightarrow> GameEngineError + GameEngineResult" where
  "collectFromEachPlayer s pid amount =
     andThen (findPlayer s pid) (\<lambda>_.
     andThen (foldM (\<lambda>currentState p.
                transferPlayerCash currentState (roomPlayerId p) pid (min (cash p) amount))
               s (otherActivePlayers s pid)) (\<lambda>nextState.
     Inr (nextState, [])))"

definition payEachPlayer ::
  "GameEngineState \<Rightarrow> string \<Rightarrow> int \<Rightarrow> GameEngineError + GameEngineResult" where
  "payEachPlayer s pid amount =
     andThen (findPlayer s pid) (\<lambda>payingPlayer.
     let otherPlayers = otherActivePlayers s pid;
         totalAmount = int (length otherPlayers) * amount in
     if cash payingPlayer < totalAmount then
       andThen (debitPlayerOrCreateDebt s pid totalAmount Card None) (\<lambda>(s', evs, paid). Inr (s', evs))
     else
       andThen (foldM (\<lambda>currentState p. transferPlayerCash currentState pid (roomPlayerId p) amount)
                 s otherPlayers) (\<lambda>nextState.
       Inr (nextState, [])))"

definition payPropertyRepairs ::
  "GameEngineState \<Rightarrow> string \<Rightarrow> int \<Rightarrow> int \<Rightarrow> GameEngineError + GameEngineResult" where
  "payPropertyRepairs s pid houseAmount hotelAmount =
     (let amount = foldl (\<lambda>total p. if hasHotel p then total + hotelAmount
                                      else total + int (houseCount p) * houseAmount) 0
                     (filter (\<lambda>p. ownerRoomPlayerId p = Some pid) (properties s)) in
      if amount = 0 then Inr (s, [])
      else andThen (debitPlayerOrCreateDebt s pid amount Card None) (\<lambda>(s', evs, paid). Inr (s', evs)))"

definition getCardMoveTargetTile ::
  "GameEngineState \<Rightarrow> string \<Rightarrow> GameCardEffect \<Rightarrow> GameEngineError + GameTile option" where
  "getCardMoveTargetTile s pid effect =
     (let board = getGameBoard (boardKey s); n = int (length (tiles board)) in
      andThen (findPlayer s pid) (\<lambda>player.
      case effect of
        Move_to_tile key _ \<Rightarrow> Inr (findTile board key)
      | Move_relative spaces \<Rightarrow>
          andThen (getTile board (jsRem (position player + spaces + n) n)) (\<lambda>t. Inr (Some t))
      | Move_to_nearest tileKind _ \<Rightarrow>
          Inr (jsNth (sort_key (\<lambda>t. jsRem (tile_index t - position player + n) n)
                 (filter (\<lambda>t. kind t = tileKind) (tiles board))) 0)
      | _ \<Rightarrow> Inr None))"

fun effectCollectPassGo :: "GameCardEffect \<Rightarrow> bool" where
  "effectCollectPassGo (Move_to_tile _ b) = b"
| "effectCollectPassGo (Move_to_nearest _ b) = b"
| "effectCollectPassGo _ = False"

definition movePlayerToCardTile ::
  "GameEngineState \<Rightarrow> string \<Rightarrow> GameCardEffect \<Rightarrow> GameEngineError + GameEngineResult" where
  "movePlayerToCardTile s pid effect =
     (let board = getGameBoard (boardKey s);
          lastDice = (case lastDiceRoll s of None \<Rightarrow> (0, 0) | Some d \<Rightarrow> d) in
      andThen (findPlayer s pid) (\<lambda>player.
      andThen (getCardMoveTargetTile s pid effect) (\<lambda>target.
      andThen (ofOption (EngineError CARD_NOT_FOUND) target) (\<lambda>targetTile.
      let passedGo = effectCollectPassGo effect \<and> tile_index targetTile \<le> position player \<and>
                     tile_index targetTile \<noteq> position player;
          movedEvents =
            [Player_moved pid (position player) (tile_index targetTile) (cloneDiceRoll lastDice)] @
            (if passedGo then [Player_passed_go pid (passGoCash board)] else []) @
            [Player_landed_on_tile pid (tile_key targetTile) (kind targetTile)] in
      andThen (if passedGo then creditPlayer s pid (passGoCash board) else Inr s) (\<lambda>credited.
      let nextState = (modifyPlayer pid (\<lambda>c. c\<lparr>position := tile_index targetTile\<rparr>) credited)
                        \<lparr>phase := Awaiting_turn_end, pendingTileKey := None\<rparr> in
      if kind targetTile = Kind_go_to_jail then
        let (jailState, jailEvents) = sendPlayerToJail nextState pid in
        Inr (jailState, movedEvents @ jailEvents)
      else if kind targetTile = Kind_tax then
        andThen (payTax nextState pid (tile_key targetTile)) (\<lambda>(taxState, taxEvents).
        Inr (taxState, movedEvents @ taxEvents))
      else if isOwnableTile targetTile \<and>
              (case findProperty nextState (tile_key targetTile) of
                 None \<Rightarrow> False | Some prop \<Rightarrow> \<not> truthy (ownerRoomPlayerId prop)) then
        Inr (nextState\<lparr>phase := Awaiting_property_decision,
                       pendingTileKey := Some (tile_key targetTile)\<rparr>, movedEvents)
      else
        andThen (payRent nextState pid (tile_key targetTile) lastDice) (\<lambda>(rentState, rentEvents).
        Inr (rentState, movedEvents @ rentEvents)))))))"

definition keepJailCard :: "string \<Rightarrow> GameEnginePlayer \<Rightarrow> GameEnginePlayer" where
  "keepJailCard cardKey p =
     p\<lparr>getOutOfJailFreeCards := getOutOfJailFreeCards p + 1,
       getOutOfJailFreeCardKeys :=
         Some ((case getOutOfJailFreeCardKeys p of None \<Rightarrow> [] | Some ks \<Rightarrow> ks) @ [cardKey])\<rparr>"

definition applyCardEffect ::
  "GameEngineState \<Rightarrow> string \<Rightarrow> GameEngineCard \<Rightarrow> GameEngineError + GameEngineResult" where
  "applyCardEffect s pid gameCard =
     (case card_effect gameCard of
        Collect_money amount \<Rightarrow> andThen (creditPlayer s pid amount) (\<lambda>s'. Inr (s', []))
      | Pay_money amount \<Rightarrow>
          andThen (debitPlayerOrCreateDebt s pid amount Card None) (\<lambda>(s', evs, paid). Inr (s', evs))
      | Go_to_jail \<Rightarrow> Inr (sendPlayerToJail s pid)
      | Collect_from_each_player amount \<Rightarrow> collectFromEachPlayer s pid amount
      | Pay_each_player amount \<Rightarrow> payEachPlayer s pid amount
      | Property_repairs houseAmount hotelAmount \<Rightarrow> payPropertyRepairs s pid houseAmount hotelAmount
      | Get_out_of_jail_free \<Rightarrow> Inr (modifyPlayer pid (keepJailCard (card_key gameCard)) s, [])
      | effect \<Rightarrow> movePlayerToCardTile s pid effect)"

definition drawAndApplyCard ::
  "GameEngineState \<Rightarrow> string \<Rightarrow> GameCardDeckKey \<Rightarrow> GameEngineError + GameEngineResult" where
  "drawAndApplyCard s pid deckKey =
     andThen (drawCard s deckKey) (\<lambda>(drawn, cardKey).
     andThen (ofOption (EngineError CARD_NOT_FOUND) (CARDS_BY_KEY cardKey)) (\<lambda>card.
     andThen (applyCardEffect drawn pid card) (\<lambda>(s', evs).
     Inr (s', [Card_drawn pid deckKey (card_key card),
               Card_applied pid deckKey (card_key card) (effectType (card_effect card))] @ evs))))"

section \<open>Well-formedness is kept\<close>

lemma sendPlayerToJail_wf:
  assumes "wf_state s" "calm s"
  shows "wf_state (fst (sendPlayerToJail s pid))"
proof -
  let ?s = "modifyPlayer pid (\<lambda>p. p\<lparr>position := 10, inJail := True, jailTurnCount := 0\<rparr>) s"
  have "wf_state ?s" by (rule wf_modifyPlayer [OF assms(1)]) auto
  moreover have "calm ?s" using assms(2) by (simp add: calm_def)
  ultimately show ?thesis
    by (simp add: sendPlayerToJail_def Let_def wf_state_doubles wf_turn_end)
qed

lemma transfers_wf:
  assumes "foldM (\<lambda>t x. transferPlayerCash t (src x) (dst x) (amt x)) s xs = Inr s'"
    and "wf_state s" "calm s"
  shows "wf_state s' \<and> calm s'"
proof (rule foldM_invariant [OF assms(1)])
  fix x t t'
  assume "wf_state t \<and> calm t" and t': "transferPlayerCash t (src x) (dst x) (amt x) = Inr t'"
  then show "wf_state t' \<and> calm t'"
    using transferPlayerCash_wf [OF _ t'] by (auto simp: calm_def transferPlayerCash_frame [OF t'])
qed (use assms in simp)

lemma collectFromEachPlayer_wf:
  assumes "wf_state s" "calm s" "collectFromEachPlayer s pid amount = Inr (s', evs)"
  shows "wf_state s'"
  using assms transfers_wf [where src = roomPlayerId and dst = "\<lambda>_. pid" and amt = "\<lambda>p. min (cash p) amount"]
  by (auto simp: collectFromEachPlayer_def)

lemma calm_not_terminal: "calm s \<Longrightarrow> \<not> terminal (phase s)"
  by (simp add: calm_def)

lemma payEachPlayer_wf:
  assumes "wf_state s" "calm s" "payEachPlayer s (currentTurnRoomPlayerId s) amount = Inr (s', evs)"
  shows "wf_state s'"
  using assms debitPlayerOrCreateDebt_wf [OF assms(1) calm_not_terminal [OF assms(2)]]
  by (auto simp: payEachPlayer_def Let_def split: if_splits dest!: transfers_wf
      [where dst = roomPlayerId and src = "\<lambda>_. currentTurnRoomPlayerId s" and amt = "\<lambda>_. amount"])

lemma payPropertyRepairs_wf:
  assumes "wf_state s" "calm s" "payPropertyRepairs s (currentTurnRoomPlayerId s) h t = Inr (s', evs)"
  shows "wf_state s'"
  using assms debitPlayerOrCreateDebt_wf [OF assms(1)]
  by (auto simp: payPropertyRepairs_def Let_def calm_def split: if_splits)

lemma getCardMoveTargetTile_board:
  assumes "getCardMoveTargetTile s pid effect = Inr (Some t)"
  shows "t \<in> set classicTiles"
proof -
  have first: "x \<in> set xs" if "jsNth xs i = Some x" for x i and xs :: "GameTile list"
    using that by (auto simp: jsNth_def split: if_splits)
  show ?thesis
    using assms by (cases effect)
      (auto simp: getCardMoveTargetTile_def Let_def dest: findTile_SomeD getTile_InrD(1) dest!: first)
qed

text \<open>The end of \<^verbatim>\<open>movePlayerToCardTile\<close>, after the player was put on the target tile.\<close>

definition cardTileOutcome ::
  "GameEngineState \<Rightarrow> string \<Rightarrow> GameTile \<Rightarrow> DiceRoll \<Rightarrow> GameEngineEvent list \<Rightarrow>
   GameEngineError + GameEngineResult" where
  "cardTileOutcome t pid tile dice evs =
     (if kind tile = Kind_go_to_jail then
        let (jailState, jailEvents) = sendPlayerToJail t pid in Inr (jailState, evs @ jailEvents)
      else if kind tile = Kind_tax then
        andThen (payTax t pid (tile_key tile)) (\<lambda>(taxState, taxEvents). Inr (taxState, evs @ taxEvents))
      else if isOwnableTile tile \<and>
              (case findProperty t (tile_key tile) of
                 None \<Rightarrow> False | Some q \<Rightarrow> \<not> truthy (ownerRoomPlayerId q)) then
        Inr (t\<lparr>phase := Awaiting_property_decision, pendingTileKey := Some (tile_key tile)\<rparr>, evs)
      else
        andThen (payRent t pid (tile_key tile) dice) (\<lambda>(rentState, rentEvents).
        Inr (rentState, evs @ rentEvents)))"

lemma cardTileOutcome_wf:
  assumes wf: "wf_state t" "calm t"
    and out: "cardTileOutcome t (currentTurnRoomPlayerId t) tile dice evs0 = Inr (s', evs)"
  shows "wf_state s'"
proof -
  let ?pid = "currentTurnRoomPlayerId t"
  have active: "\<not> terminal (phase t)" by (rule calm_not_terminal [OF wf(2)])
  from out consider evs1 where "sendPlayerToJail t ?pid = (s', evs1)"
    | evs1 where "payTax t ?pid (tile_key tile) = Inr (s', evs1)"
    | evs1 where "payRent t ?pid (tile_key tile) dice = Inr (s', evs1)"
    | q where "findBy tileKey (tile_key tile) (properties t) = Some q" "\<not> truthy (ownerRoomPlayerId q)"
        "s' = t\<lparr>phase := Awaiting_property_decision, pendingTileKey := Some (tile_key tile)\<rparr>"
    by (auto simp: cardTileOutcome_def findProperty_def split: if_splits option.splits prod.splits)
  then show ?thesis
  proof cases
    case 1
    then show ?thesis using sendPlayerToJail_wf [OF wf, of ?pid] by simp
  next
    case 2
    then show ?thesis by (rule payTax_wf [OF wf(1) active])
  next
    case 3
    then show ?thesis by (rule payRent_wf [OF wf(1) active])
  next
    case 4
    have "tile_key tile \<in> unownedKeys (properties t)"
      using 4(1,2) unownedKeys_iff [OF wf_stateD(4) [OF wf(1)]] by auto
    from wf_decision [OF wf this] show ?thesis by (simp only: 4(3))
  qed
qed

lemma movePlayerToCardTile_outcome:
  assumes "movePlayerToCardTile s pid effect = Inr (s', evs)"
  obtains p tile credited evs0 where "findBy roomPlayerId pid (players s) = Some p"
    "getCardMoveTargetTile s pid effect = Inr (Some tile)"
    "(if effectCollectPassGo effect \<and> tile_index tile \<le> position p \<and> tile_index tile \<noteq> position p
      then creditPlayer s pid 200 else Inr s) = Inr credited"
    "cardTileOutcome ((modifyPlayer pid (\<lambda>c. c\<lparr>position := tile_index tile\<rparr>) credited)
       \<lparr>phase := Awaiting_turn_end, pendingTileKey := None\<rparr>) pid tile
       (case lastDiceRoll s of None \<Rightarrow> (0, 0) | Some d \<Rightarrow> d) evs0 = Inr (s', evs)"
proof -
  from assms show thesis
    unfolding movePlayerToCardTile_def Let_def cardTileOutcome_def [symmetric, unfolded Let_def]
    by (simp only: andThen_Inr_iff findPlayer_Inr_iff ofOption_Inr_iff getGameBoard_eq board_simps)
      (blast intro: that)
qed

lemma movePlayerToCardTile_wf:
  assumes wf: "wf_state s" and calm: "calm s"
    and move: "movePlayerToCardTile s (currentTurnRoomPlayerId s) effect = Inr (s', evs)"
  shows "wf_state s'"
proof (rule movePlayerToCardTile_outcome [OF move])
  let ?pid = "currentTurnRoomPlayerId s"
  let ?dice = "case lastDiceRoll s of None \<Rightarrow> (0, 0) | Some d \<Rightarrow> d"
  fix p tile credited evs0
  assume tile: "getCardMoveTargetTile s ?pid effect = Inr (Some tile)"
    and credited: "(if effectCollectPassGo effect \<and> tile_index tile \<le> position p \<and> tile_index tile \<noteq> position p
      then creditPlayer s ?pid 200 else Inr s) = Inr credited"
    and out: "cardTileOutcome ((modifyPlayer ?pid (\<lambda>c. c\<lparr>position := tile_index tile\<rparr>) credited)
       \<lparr>phase := Awaiting_turn_end, pendingTileKey := None\<rparr>) ?pid tile ?dice evs0 = Inr (s', evs)"
  let ?m = "modifyPlayer ?pid (\<lambda>c. c\<lparr>position := tile_index tile\<rparr>) credited"
  have "wf_state credited" "calm credited" and cur: "currentTurnRoomPlayerId credited = ?pid"
    using credited wf calm creditPlayer_wf [OF wf, of ?pid 200 credited]
    by (auto simp: calm_def creditPlayer_frame split: if_splits)
  moreover have "0 \<le> tile_index tile" "tile_index tile < 40"
    using tile_index_range [OF getCardMoveTargetTile_board [OF tile]] by auto
  ultimately have m: "wf_state ?m" "calm ?m"
    by (auto simp: calm_def intro!: wf_modifyPlayer)
  show "wf_state s'"
    using cardTileOutcome_wf [OF wf_turn_end [OF m], of tile ?dice evs0 s' evs] out m(2) cur
    by (simp add: calm_def)
qed

lemma applyCardEffect_wf:
  assumes "wf_state s" "calm s" "effectType (card_effect c) \<noteq> Effect_get_out_of_jail_free"
    and "applyCardEffect s (currentTurnRoomPlayerId s) c = Inr (s', evs)"
  shows "wf_state s'"
proof -
  let ?pid = "currentTurnRoomPlayerId s"
  note active = calm_not_terminal [OF assms(2)]
  have credit: "wf_state t" if "creditPlayer s ?pid a = Inr t" for a t
    using creditPlayer_wf [OF assms(1) that] calm_current [OF assms(1,2)] by blast
  have debit: "wf_state t" if "debitPlayerOrCreateDebt s ?pid a r None = Inr (t, evs, paid)" for a r t evs paid
    by (rule debitPlayerOrCreateDebt_wf [OF assms(1) active that])
  have jail: "wf_state t" if "sendPlayerToJail s ?pid = (t, evs)" for t evs
    using sendPlayerToJail_wf [OF assms(1,2), of ?pid] that by simp
  show ?thesis
    using assms(3,4) credit debit jail collectFromEachPlayer_wf [OF assms(1,2)]
      payEachPlayer_wf [OF assms(1,2)] payPropertyRepairs_wf [OF assms(1,2)]
      movePlayerToCardTile_wf [OF assms(1,2)]
    unfolding applyCardEffect_def by (cases "card_effect c") auto
qed

lemma keepJailCard_wf:
  assumes wf: "wf_state s" and draw: "drawCard s d = Inr (t, k)" "k \<in> set jailCardKeys"
    and pid: "pid \<in> set (playerIds s)"
  shows "wf_state (modifyPlayer pid (keepJailCard k) t)"
proof -
  obtain x where t: "t = setDeck s d x" by (rule drawCard_frame [OF draw(1)])
  obtain p where p: "findBy roomPlayerId pid (players s) = Some p"
    using ids_findPlayer [OF pid] by blast
  have held: "heldKeys (keepJailCard k q) = heldKeys q @ [k]" for q
    by (simp add: keepJailCard_def) (simp add: heldKeys_def)
  have "heldCards (updateBy roomPlayerId pid (keepJailCard k) (players s)) = heldCards (players s) + {#k#}"
    using heldCards_updateBy_found [OF playersOk_distinct [OF wf_stateD(3) [OF wf]] p, of "keepJailCard k"]
    by (simp add: held)
  then have "cardsOk (decks t) (heldCards (updateBy roomPlayerId pid (keepJailCard k) (players s)))"
    using drawCard_cardsOk(2) [OF wf_stateD(5) [OF wf] draw(1)] draw(2) by simp
  moreover have "playersOk (updateBy roomPlayerId pid (keepJailCard k) (players s))"
    by (rule playersOk_updateBy [OF wf_stateD(3) [OF wf]])
      (auto simp: playerOk_def held, auto simp: keepJailCard_def)
  moreover have "activeIds (updateBy roomPlayerId pid (keepJailCard k) (players s)) = activeIds (players s)"
    by (simp add: keepJailCard_def)
  ultimately have "coreOk (modifyPlayer pid (keepJailCard k) t)"
    using wf by (auto simp: wf_state_def coreOk_def t keepJailCard_def)
  moreover have "phaseOk t" using wf by (simp add: t wf_state_def phaseOk_def)
  then have "phaseOk (modifyPlayer pid (keepJailCard k) t)"
    by (intro phaseOk_modifyPlayer) (auto simp: t wf_stateD(3) [OF wf] keepJailCard_def)
  ultimately show ?thesis ..
qed

lemma drawAndApplyCard_wf:
  assumes wf: "wf_state s" and calm: "calm s"
    and draw: "drawAndApplyCard s (currentTurnRoomPlayerId s) d = Inr (s', evs)"
  shows "wf_state s'"
proof -
  let ?pid = "currentTurnRoomPlayerId s"
  from draw obtain t k c evs' where t: "drawCard s d = Inr (t, k)" and c: "CARDS_BY_KEY k = Some c"
    and eff: "applyCardEffect t ?pid c = Inr (s', evs')"
    by (auto simp: drawAndApplyCard_def)
  obtain x where tx: "t = setDeck s d x" by (rule drawCard_frame [OF t])
  have k: "k \<in> set (deckCardKeys d)" by (rule drawCard_cardsOk(1) [OF wf_stateD(5) [OF wf] t])
  then have c_key: "card_key c = k"
    and jail: "effectType (card_effect c) = Effect_get_out_of_jail_free \<longleftrightarrow> k \<in> set jailCardKeys"
    using c by (auto elim!: deckCardKeys_card)
  show ?thesis
  proof (cases "k \<in> set jailCardKeys")
    case True
    then have "card_effect c = Get_out_of_jail_free" using jail by (cases "card_effect c") auto
    then have "s' = modifyPlayer ?pid (keepJailCard k) t"
      using eff c_key by (simp add: applyCardEffect_def)
    moreover have "?pid \<in> set (playerIds s)" by (rule active_in_ids [OF calm_current [OF wf calm]])
    ultimately show ?thesis using keepJailCard_wf [OF wf t True] by simp
  next
    case False
    have "cardsOk (decks t) (heldCards (players s))"
      using drawCard_cardsOk(2) [OF wf_stateD(5) [OF wf] t] False by simp
    then have "wf_state t" using wf by (simp add: wf_state_def coreOk_def phaseOk_def tx)
    moreover have "calm t" "currentTurnRoomPlayerId t = ?pid" using calm by (simp_all add: calm_def tx)
    ultimately show ?thesis using applyCardEffect_wf eff jail False by metis
  qed
qed

end
