(* ===== verification/Game_Estate.thy ===== *)
theory Game_Estate
  imports Game_Invariant
begin

text \<open>
  Managing what a player owns: buildings (\<^verbatim>\<open>game-engine-buildings.ts\<close>) and mortgages
  (\<^verbatim>\<open>game-engine-mortgage.ts\<close>).
\<close>

section \<open>Buildings\<close>

definition assertCanManageBuildings ::
  "GameEngineState \<Rightarrow> string \<Rightarrow> bool \<Rightarrow> GameEngineError + unit" where
  "assertCanManageBuildings s pid allowDebtResolution =
     andThen (raiseIf (phase s = Finished \<or> phase s = Cancelled) (EngineError GAME_NOT_ACTIVE)) (\<lambda>_.
     let resolvingOwnDebt =
       allowDebtResolution \<and> phase s = Awaiting_debt_resolution \<and>
       map_option debt_roomPlayerId (debt s) = Some pid in
     andThen (raiseIf (phase s \<noteq> Awaiting_turn_end \<and> \<not> resolvingOwnDebt)
               (EngineError BUILDING_NOT_ALLOWED)) (\<lambda>_.
     assertCurrentTurn s pid))"

definition assertCanBuildHouseEvenly ::
  "GameEngineProperty \<Rightarrow> GameEngineProperty list \<Rightarrow> GameEngineError + unit" where
  "assertCanBuildHouseEvenly prop setProperties =
     (let nonHotelHouseCounts = map houseCount (filter (\<lambda>c. \<not> hasHotel c) setProperties) in
      raiseIf (nonHotelHouseCounts = [] \<or> houseCount prop \<noteq> min_list nonHotelHouseCounts)
        (EngineError UNEVEN_BUILDING))"

definition assertCanBuildHotelEvenly ::
  "GameEngineProperty \<Rightarrow> GameEngineProperty list \<Rightarrow> GameEngineError + unit" where
  "assertCanBuildHotelEvenly prop setProperties =
     andThen (raiseIf (houseCount prop \<noteq> 4) (EngineError BUILDING_LIMIT_REACHED)) (\<lambda>_.
     let canUpgradeToHotel =
       list_all (\<lambda>c. if tileKey c = tileKey prop then houseCount c = 4 \<and> \<not> hasHotel c
                      else hasHotel c \<or> houseCount c = 4) setProperties in
     raiseIf (\<not> canUpgradeToHotel) (EngineError UNEVEN_BUILDING))"

definition assertCanSellHouseEvenly ::
  "GameEngineProperty \<Rightarrow> GameEngineProperty list \<Rightarrow> GameEngineError + unit" where
  "assertCanSellHouseEvenly prop setProperties =
     andThen (raiseIf (list_ex hasHotel setProperties) (EngineError UNEVEN_BUILDING)) (\<lambda>_.
     let counts = map houseCount setProperties in
     raiseIf (counts = [] \<or> houseCount prop \<noteq> foldr max counts 0) (EngineError UNEVEN_BUILDING))"

definition assertSetIsNotMortgaged :: "GameEngineProperty list \<Rightarrow> GameEngineError + unit" where
  "assertSetIsNotMortgaged setProperties =
     raiseIf (list_ex mortgaged setProperties) (EngineError PROPERTY_MORTGAGED)"

definition getOwnedSetProperties ::
  "GameEngineState \<Rightarrow> GameBoard \<Rightarrow> GameTile \<Rightarrow> string \<Rightarrow> GameEngineError + GameEngineProperty list" where
  "getOwnedSetProperties s board tile pid =
     andThen (mapM (\<lambda>setTile. findPropertyState s (tile_key setTile)) (setTilesOf board (setKey tile)))
       (\<lambda>setProperties.
     andThen (raiseIf (list_ex (\<lambda>p. ownerRoomPlayerId p \<noteq> Some pid) setProperties)
               (EngineError PROPERTY_SET_NOT_OWNED)) (\<lambda>_.
     Inr setProperties))"

definition getPropertyTileByKey :: "GameBoard \<Rightarrow> string \<Rightarrow> GameEngineError + GameTile" where
  "getPropertyTileByKey board key =
     (case findTile board key of
        None \<Rightarrow> Inl (EngineError BUILDING_NOT_ALLOWED)
      | Some tile \<Rightarrow>
          if kind tile \<noteq> Kind_property then Inl (EngineError BUILDING_NOT_ALLOWED) else Inr tile)"

definition buildProperty ::
  "GameEngineState \<Rightarrow> string \<Rightarrow> string \<Rightarrow> GameEngineError + GameEngineResult" where
  "buildProperty s pid key =
     andThen (assertCanManageBuildings s pid False) (\<lambda>_.
     andThen (raiseIf (phase s = Awaiting_debt_resolution \<or> debt s \<noteq> None)
               (EngineError DEBT_RESOLUTION_REQUIRED)) (\<lambda>_.
     let board = getGameBoard (boardKey s) in
     andThen (getPropertyTileByKey board key) (\<lambda>tile.
     andThen (getOwnedSetProperties s board tile pid) (\<lambda>setProperties.
     andThen (findPropertyState s (tile_key tile)) (\<lambda>prop.
     andThen (assertSetIsNotMortgaged setProperties) (\<lambda>_.
     andThen (raiseIf (hasHotel prop) (EngineError BUILDING_LIMIT_REACHED)) (\<lambda>_.
     if houseCount prop < 4 then
       andThen (assertCanBuildHouseEvenly prop setProperties) (\<lambda>_.
       andThen (debitPlayer s pid (houseCost tile)) (\<lambda>debited.
       let nextHouseCount = houseCount prop + 1 in
       Inr (updatePropertyState debited (tileKey prop) (\<lambda>c. c\<lparr>houseCount := nextHouseCount\<rparr>),
            [Property_house_built pid (tileKey prop) nextHouseCount (houseCost tile)])))
     else
       andThen (assertCanBuildHotelEvenly prop setProperties) (\<lambda>_.
       andThen (debitPlayer s pid (houseCost tile)) (\<lambda>debited.
       Inr (updatePropertyState debited (tileKey prop) (\<lambda>c. c\<lparr>houseCount := 0, hasHotel := True\<rparr>),
            [Property_hotel_built pid (tileKey prop) (houseCost tile)]))))))))))"

definition sellBuilding ::
  "GameEngineState \<Rightarrow> string \<Rightarrow> string \<Rightarrow> GameEngineError + GameEngineResult" where
  "sellBuilding s pid key =
     andThen (assertCanManageBuildings s pid True) (\<lambda>_.
     let board = getGameBoard (boardKey s) in
     andThen (getPropertyTileByKey board key) (\<lambda>tile.
     andThen (getOwnedSetProperties s board tile pid) (\<lambda>setProperties.
     andThen (findPropertyState s (tile_key tile)) (\<lambda>prop.
     let sellAmount = houseCost tile div 2 in
     if hasHotel prop then
       andThen (creditPlayer s pid sellAmount) (\<lambda>credited.
       Inr (updatePropertyState credited (tileKey prop) (\<lambda>c. c\<lparr>houseCount := 4, hasHotel := False\<rparr>),
            [Property_hotel_sold pid (tileKey prop) sellAmount]))
     else
       andThen (raiseIf (houseCount prop = 0) (EngineError NO_BUILDING_TO_SELL)) (\<lambda>_.
       andThen (assertCanSellHouseEvenly prop setProperties) (\<lambda>_.
       andThen (creditPlayer s pid sellAmount) (\<lambda>credited.
       let nextHouseCount = houseCount prop - 1 in
       Inr (updatePropertyState credited (tileKey prop) (\<lambda>c. c\<lparr>houseCount := nextHouseCount\<rparr>),
            [Property_house_sold pid (tileKey prop) nextHouseCount sellAmount]))))))))"

section \<open>Mortgages\<close>

definition assertCanManageMortgage ::
  "GameEngineState \<Rightarrow> string \<Rightarrow> bool \<Rightarrow> GameEngineError + unit" where
  "assertCanManageMortgage s pid allowDebtResolution =
     andThen (raiseIf (phase s = Finished \<or> phase s = Cancelled) (EngineError GAME_NOT_ACTIVE)) (\<lambda>_.
     let resolvingOwnDebt =
       allowDebtResolution \<and> phase s = Awaiting_debt_resolution \<and>
       map_option debt_roomPlayerId (debt s) = Some pid in
     andThen (raiseIf (phase s \<noteq> Awaiting_turn_end \<and> \<not> resolvingOwnDebt)
               (EngineError MORTGAGE_NOT_ALLOWED)) (\<lambda>_.
     assertCurrentTurn s pid))"

definition assertOwnedBy :: "GameEngineProperty \<Rightarrow> string \<Rightarrow> GameEngineError + unit" where
  "assertOwnedBy prop pid =
     raiseIf (ownerRoomPlayerId prop \<noteq> Some pid) (EngineError PROPERTY_NOT_OWNED)"

definition assertNoBuildingsForMortgage ::
  "GameEngineState \<Rightarrow> GameBoard \<Rightarrow> GameTile \<Rightarrow> GameEngineError + unit" where
  "assertNoBuildingsForMortgage s board tile =
     (if kind tile \<noteq> Kind_property then Inr ()
      else andThen (someM (\<lambda>setTile. andThen (findPropertyState s (tile_key setTile))
                             (\<lambda>p. Inr (houseCount p > 0 \<or> hasHotel p)))
                     (setTilesOf board (setKey tile)))
             (\<lambda>hasBuildingInSet. raiseIf hasBuildingInSet (EngineError PROPERTY_HAS_BUILDINGS)))"

text \<open>
  \<^verbatim>\<open>Math.ceil(mortgageValue * 1.1)\<close> in binary64: \<^verbatim>\<open>1.1\<close> in units of \<open>2 ^ - 52\<close>, the product
  rounded to 53 bits, then rounded up to a whole number.
\<close>

definition getUnmortgageCost :: "int \<Rightarrow> int" where
  "getUnmortgageCost value =
     (let product = round53 (value * doubleLiteral 11 10 52)
      in - ((- product) div 2 ^ 52))"

definition getMortgageableTileByKey :: "GameBoard \<Rightarrow> string \<Rightarrow> GameEngineError + GameTile" where
  "getMortgageableTileByKey board key =
     (case findTile board key of
        None \<Rightarrow> Inl (EngineError MORTGAGE_NOT_ALLOWED)
      | Some tile \<Rightarrow>
          if \<not> isRentableTile tile then Inl (EngineError MORTGAGE_NOT_ALLOWED) else Inr tile)"

definition mortgageProperty ::
  "GameEngineState \<Rightarrow> string \<Rightarrow> string \<Rightarrow> GameEngineError + GameEngineResult" where
  "mortgageProperty s pid key =
     andThen (assertCanManageMortgage s pid True) (\<lambda>_.
     let board = getGameBoard (boardKey s) in
     andThen (getMortgageableTileByKey board key) (\<lambda>tile.
     andThen (findPropertyState s (tile_key tile)) (\<lambda>prop.
     andThen (assertOwnedBy prop pid) (\<lambda>_.
     andThen (raiseIf (mortgaged prop) (EngineError PROPERTY_ALREADY_MORTGAGED)) (\<lambda>_.
     andThen (assertNoBuildingsForMortgage s board tile) (\<lambda>_.
     andThen (creditPlayer s pid (mortgageValue tile)) (\<lambda>credited.
     Inr (updatePropertyState credited (tileKey prop) (\<lambda>c. c\<lparr>mortgaged := True\<rparr>),
          [Property_mortgaged pid (tileKey prop) (mortgageValue tile)]))))))))"

definition unmortgageProperty ::
  "GameEngineState \<Rightarrow> string \<Rightarrow> string \<Rightarrow> GameEngineError + GameEngineResult" where
  "unmortgageProperty s pid key =
     andThen (assertCanManageMortgage s pid False) (\<lambda>_.
     let board = getGameBoard (boardKey s) in
     andThen (getMortgageableTileByKey board key) (\<lambda>tile.
     andThen (findPropertyState s (tile_key tile)) (\<lambda>prop.
     andThen (assertOwnedBy prop pid) (\<lambda>_.
     andThen (raiseIf (\<not> mortgaged prop) (EngineError PROPERTY_NOT_MORTGAGED)) (\<lambda>_.
     let amount = getUnmortgageCost (mortgageValue tile) in
     andThen (debitPlayer s pid amount) (\<lambda>debited.
     Inr (updatePropertyState debited (tileKey prop) (\<lambda>c. c\<lparr>mortgaged := False\<rparr>),
          [Property_unmortgaged pid (tileKey prop) amount])))))))"

section \<open>What a successful operation did\<close>

lemma getPropertyTileByKey_Inr_iff:
  "getPropertyTileByKey CLASSIC_GAME_BOARD key = Inr tile \<longleftrightarrow>
     findTile CLASSIC_GAME_BOARD key = Some tile \<and> kind tile = Kind_property"
  by (auto simp: getPropertyTileByKey_def split: option.splits)

lemma getMortgageableTileByKey_Inr_iff:
  "getMortgageableTileByKey CLASSIC_GAME_BOARD key = Inr tile \<longleftrightarrow>
     findTile CLASSIC_GAME_BOARD key = Some tile \<and> isRentableTile tile"
  by (auto simp: getMortgageableTileByKey_def split: option.splits)

definition setProperties :: "GameEngineState \<Rightarrow> GameTile \<Rightarrow> GameEngineProperty list" where
  "setProperties s tile =
     List.map_filter (\<lambda>t. findBy tileKey (tile_key t) (properties s))
       (setTilesOf CLASSIC_GAME_BOARD (setKey tile))"

lemma mapM_ofOption_Inr_iff:
  "mapM (\<lambda>x. findPropertyState s (k x)) xs = Inr ys \<longleftrightarrow>
     (\<forall>x\<in>set xs. findBy tileKey (k x) (properties s) \<noteq> None) \<and>
     ys = List.map_filter (\<lambda>x. findBy tileKey (k x) (properties s)) xs"
  by (induction xs arbitrary: ys) (auto simp: List.map_filter_def)

lemma getOwnedSetProperties_Inr_iff:
  "getOwnedSetProperties s CLASSIC_GAME_BOARD tile pid = Inr qs \<longleftrightarrow>
     qs = setProperties s tile \<and>
     (\<forall>t\<in>set (setTilesOf CLASSIC_GAME_BOARD (setKey tile)).
        \<exists>q. findBy tileKey (tile_key t) (properties s) = Some q \<and> ownerRoomPlayerId q = Some pid)"
  by (auto simp: getOwnedSetProperties_def mapM_ofOption_Inr_iff setProperties_def list_ex_iff
      List.map_filter_def) fastforce+

lemma set_setProperties:
  "q \<in> set (setProperties s tile) \<longleftrightarrow>
     (\<exists>t\<in>set (setTilesOf CLASSIC_GAME_BOARD (setKey tile)).
        findBy tileKey (tile_key t) (properties s) = Some q)"
  by (auto simp: setProperties_def List.map_filter_def image_iff)

lemma tile_in_own_set:
  assumes "findTile CLASSIC_GAME_BOARD key = Some tile" "kind tile = Kind_property"
  shows "tile \<in> set (setTilesOf CLASSIC_GAME_BOARD (setKey tile))" "tile_key tile = key"
  using assms by (auto simp: setTilesOf_def dest: findTile_SomeD)

lemma foldr_max_ge: "x \<in> set xs \<Longrightarrow> x \<le> foldr max xs (0 :: nat)"
  by (induction xs) auto

lemma canManage_Inr_iff:
  "assertCanManageBuildings s pid debtToo = Inr u \<longleftrightarrow>
     (phase s = Awaiting_turn_end \<or>
      debtToo \<and> phase s = Awaiting_debt_resolution \<and> map_option debt_roomPlayerId (debt s) = Some pid) \<and>
     assertCurrentTurn s pid = Inr u"
  "assertCanManageMortgage s pid debtToo = Inr u \<longleftrightarrow>
     (phase s = Awaiting_turn_end \<or>
      debtToo \<and> phase s = Awaiting_debt_resolution \<and> map_option debt_roomPlayerId (debt s) = Some pid) \<and>
     assertCurrentTurn s pid = Inr u"
  by (auto simp: assertCanManageBuildings_def assertCanManageMortgage_def Let_def)

definition buildStep :: "GameEngineProperty \<Rightarrow> GameEngineProperty" where
  "buildStep q = (if houseCount q < 4 then q\<lparr>houseCount := houseCount q + 1\<rparr>
                  else q\<lparr>houseCount := 0, hasHotel := True\<rparr>)"

definition sellStep :: "GameEngineProperty \<Rightarrow> GameEngineProperty" where
  "sellStep q = (if hasHotel q then q\<lparr>houseCount := 4, hasHotel := False\<rparr>
                 else q\<lparr>houseCount := houseCount q - 1\<rparr>)"

lemma buildProperty_Inr:
  assumes "wf_state s" "buildProperty s pid key = Inr (s', evs)"
  obtains tile q t where
    "findTile CLASSIC_GAME_BOARD key = Some tile" "kind tile = Kind_property"
    "findBy tileKey key (properties s) = Some q" "q \<in> set (setProperties s tile)"
    "ownerRoomPlayerId q = Some pid" "\<forall>r\<in>set (setProperties s tile). \<not> mortgaged r" "\<not> hasHotel q"
    "houseCount q < 4 \<Longrightarrow> \<forall>r\<in>set (setProperties s tile). \<not> hasHotel r \<longrightarrow> houseCount q \<le> houseCount r"
    "\<not> houseCount q < 4 \<Longrightarrow> \<forall>r\<in>set (setProperties s tile). hasHotel r \<or> houseCount r = 4"
    "phase s = Awaiting_turn_end" "assertCurrentTurn s pid = Inr ()"
    "getOwnedSetProperties s CLASSIC_GAME_BOARD tile pid = Inr (setProperties s tile)"
    "debitPlayer s pid (houseCost tile) = Inr t" "s' = updatePropertyState t key buildStep"
proof -
  from assms(2) obtain tile q t where
    tile: "findTile CLASSIC_GAME_BOARD key = Some tile" "kind tile = Kind_property"
    and q: "findBy tileKey (tile_key tile) (properties s) = Some q"
    and own: "getOwnedSetProperties s CLASSIC_GAME_BOARD tile pid = Inr (setProperties s tile)"
    and unmortgaged: "assertSetIsNotMortgaged (setProperties s tile) = Inr ()"
    and noHotel: "\<not> hasHotel q"
    and turn: "phase s = Awaiting_turn_end" "assertCurrentTurn s pid = Inr ()"
    and paid: "debitPlayer s pid (houseCost tile) = Inr t"
    and even: "if houseCount q < 4
        then assertCanBuildHouseEvenly q (setProperties s tile) = Inr () \<and>
          s' = updatePropertyState t (tileKey q) (\<lambda>c. c\<lparr>houseCount := houseCount q + 1\<rparr>)
        else assertCanBuildHotelEvenly q (setProperties s tile) = Inr () \<and>
          s' = updatePropertyState t (tileKey q) (\<lambda>c. c\<lparr>houseCount := 0, hasHotel := True\<rparr>)"
    by (auto simp: buildProperty_def Let_def canManage_Inr_iff getPropertyTileByKey_Inr_iff
        getOwnedSetProperties_Inr_iff split: if_splits)
  have key: "tile_key tile = key" "tileKey q = key"
    using tile_in_own_set [OF tile] q by (auto dest: findBy_SomeD)
  note q = q [unfolded key(1)]
  have props: "properties t = properties s" by (rule debitPlayer_frame [OF paid])
  have mem: "q \<in> set (setProperties s tile)"
    using tile_in_own_set [OF tile] q unfolding set_setProperties by blast
  show thesis
  proof (rule that [OF tile q mem _ _ noHotel _ _ turn own paid])
    show "ownerRoomPlayerId q = Some pid"
      using own tile_in_own_set [OF tile] q by (auto simp: getOwnedSetProperties_Inr_iff key(1))
    show "\<forall>r\<in>set (setProperties s tile). \<not> mortgaged r"
      using unmortgaged by (auto simp: assertSetIsNotMortgaged_def list_ex_iff)
    show "houseCount q < 4 \<Longrightarrow> \<forall>r\<in>set (setProperties s tile). \<not> hasHotel r \<longrightarrow> houseCount q \<le> houseCount r"
      using even by (auto simp: assertCanBuildHouseEvenly_def Let_def min_list_Min)
    show "\<not> houseCount q < 4 \<Longrightarrow> \<forall>r\<in>set (setProperties s tile). hasHotel r \<or> houseCount r = 4"
      using even by (auto simp: assertCanBuildHotelEvenly_def Let_def list_all_iff split: if_splits)
    show "s' = updatePropertyState t key buildStep"
    proof (cases "houseCount q < 4")
      case True
      then show ?thesis using even key q props wf_stateD(4) [OF assms(1)]
        by (auto intro!: updatePropertyState_cong simp: buildStep_def)
    next
      case False
      then show ?thesis using even key q props wf_stateD(4) [OF assms(1)]
        by (auto intro!: updatePropertyState_cong simp: buildStep_def)
    qed
  qed
qed

lemma sellBuilding_Inr:
  assumes "wf_state s" "sellBuilding s pid key = Inr (s', evs)"
  obtains tile q t where
    "findTile CLASSIC_GAME_BOARD key = Some tile" "kind tile = Kind_property"
    "findBy tileKey key (properties s) = Some q" "q \<in> set (setProperties s tile)"
    "ownerRoomPlayerId q = Some pid" "built q"
    "\<not> hasHotel q \<Longrightarrow> \<forall>r\<in>set (setProperties s tile). \<not> hasHotel r \<and> houseCount r \<le> houseCount q"
    "auction s = None" "assertCurrentTurn s pid = Inr ()"
    "creditPlayer s pid (houseCost tile div 2) = Inr t" "s' = updatePropertyState t key sellStep"
proof -
  from assms(2) obtain tile q t where
    tile: "findTile CLASSIC_GAME_BOARD key = Some tile" "kind tile = Kind_property"
    and q: "findBy tileKey (tile_key tile) (properties s) = Some q"
    and own: "getOwnedSetProperties s CLASSIC_GAME_BOARD tile pid = Inr (setProperties s tile)"
    and turn: "assertCanManageBuildings s pid True = Inr ()"
    and paid: "creditPlayer s pid (houseCost tile div 2) = Inr t"
    and even: "if hasHotel q
        then s' = updatePropertyState t (tileKey q) (\<lambda>c. c\<lparr>houseCount := 4, hasHotel := False\<rparr>)
        else houseCount q \<noteq> 0 \<and> assertCanSellHouseEvenly q (setProperties s tile) = Inr () \<and>
          s' = updatePropertyState t (tileKey q) (\<lambda>c. c\<lparr>houseCount := houseCount q - 1\<rparr>)"
    by (auto simp: sellBuilding_def Let_def getPropertyTileByKey_Inr_iff
        getOwnedSetProperties_Inr_iff split: if_splits)
  have key: "tile_key tile = key" "tileKey q = key"
    using tile_in_own_set [OF tile] q by (auto dest: findBy_SomeD)
  note q = q [unfolded key(1)]
  have props: "properties t = properties s" by (rule creditPlayer_frame [OF paid])
  have mem: "q \<in> set (setProperties s tile)"
    using tile_in_own_set [OF tile] q unfolding set_setProperties by blast
  show thesis
  proof (rule that [OF tile q mem _ _ _ _ _ paid])
    show "ownerRoomPlayerId q = Some pid"
      using own tile_in_own_set [OF tile] q by (auto simp: getOwnedSetProperties_Inr_iff key(1))
    show "built q" using even by (auto simp: built_def split: if_splits)
    show "\<forall>r\<in>set (setProperties s tile). \<not> hasHotel r \<and> houseCount r \<le> houseCount q" if "\<not> hasHotel q"
      using even that by (auto simp: assertCanSellHouseEvenly_def Let_def list_ex_iff foldr_max_ge)
    show "auction s = None"
      using turn wf_stateD(2) [OF assms(1)] by (auto simp: canManage_Inr_iff phaseOk_def)
    show "assertCurrentTurn s pid = Inr ()" using turn by (simp add: canManage_Inr_iff)
    show "s' = updatePropertyState t key sellStep"
    proof (cases "hasHotel q")
      case True
      then show ?thesis using even key q props wf_stateD(4) [OF assms(1)]
        by (auto intro!: updatePropertyState_cong simp: sellStep_def)
    next
      case False
      then show ?thesis using even key q props wf_stateD(4) [OF assms(1)]
        by (auto intro!: updatePropertyState_cong simp: sellStep_def)
    qed
  qed
qed

lemma mortgageProperty_Inr:
  assumes "wf_state s" "mortgageProperty s pid key = Inr (s', evs)"
  obtains tile q t where
    "findTile CLASSIC_GAME_BOARD key = Some tile" "ownableKind (kind tile)"
    "findBy tileKey key (properties s) = Some q" "ownerRoomPlayerId q = Some pid" "\<not> mortgaged q"
    "\<not> built q" "auction s = None" "assertCurrentTurn s pid = Inr ()"
    "creditPlayer s pid (mortgageValue tile) = Inr t"
    "s' = updatePropertyState t key (\<lambda>c. c\<lparr>mortgaged := True\<rparr>)"
proof -
  from assms(2) obtain tile q t where
    tile: "findTile CLASSIC_GAME_BOARD key = Some tile" "ownableKind (kind tile)"
    and q: "findBy tileKey (tile_key tile) (properties s) = Some q"
    and own: "ownerRoomPlayerId q = Some pid" "\<not> mortgaged q"
    and turn: "assertCanManageMortgage s pid True = Inr ()"
    and unbuilt: "assertNoBuildingsForMortgage s CLASSIC_GAME_BOARD tile = Inr ()"
    and paid: "creditPlayer s pid (mortgageValue tile) = Inr t"
    and s': "s' = updatePropertyState t (tileKey q) (\<lambda>c. c\<lparr>mortgaged := True\<rparr>)"
    by (auto simp: mortgageProperty_def Let_def getMortgageableTileByKey_Inr_iff isRentableTile_iff
        assertOwnedBy_def)
  have key: "tile_key tile = key" "tileKey q = key"
    using tile q by (auto dest: findTile_SomeD findBy_SomeD)
  note q = q [unfolded key(1)]
  have "\<not> built q"
  proof
    assume "built q"
    then have street: "kind tile = Kind_property"
      using propertiesOk_found [OF wf_stateD(4) [OF assms(1)] q] tile key
      by (auto simp: propertyOk_def isPropertyTileKey_def)
    from unbuilt street have "someM (\<lambda>t. andThen (findPropertyState s (tile_key t))
        (\<lambda>p. Inr (houseCount p > 0 \<or> hasHotel p)))
        (setTilesOf CLASSIC_GAME_BOARD (setKey tile)) = Inr False"
      by (auto simp: assertNoBuildingsForMortgage_def)
    moreover have "tile \<in> set (setTilesOf CLASSIC_GAME_BOARD (setKey tile))"
      by (rule tile_in_own_set [OF tile(1) street])
    ultimately show False
      using q \<open>built q\<close> by (auto simp: someM_False_iff key built_def)
  qed
  moreover have "auction s = None"
    using turn wf_stateD(2) [OF assms(1)] by (auto simp: canManage_Inr_iff phaseOk_def)
  moreover have "assertCurrentTurn s pid = Inr ()" using turn by (simp add: canManage_Inr_iff)
  ultimately show thesis
    using that [OF tile q own] paid s' by (simp add: key)
qed

lemma unmortgageProperty_Inr:
  assumes "unmortgageProperty s pid key = Inr (s', evs)"
  obtains tile q t where
    "findTile CLASSIC_GAME_BOARD key = Some tile" "ownableKind (kind tile)"
    "findBy tileKey key (properties s) = Some q" "ownerRoomPlayerId q = Some pid" "mortgaged q"
    "assertCurrentTurn s pid = Inr ()"
    "debitPlayer s pid (getUnmortgageCost (mortgageValue tile)) = Inr t"
    "s' = updatePropertyState t key (\<lambda>c. c\<lparr>mortgaged := False\<rparr>)"
proof -
  from assms obtain tile q t where
    tile: "findTile CLASSIC_GAME_BOARD key = Some tile" "ownableKind (kind tile)"
    and q: "findBy tileKey (tile_key tile) (properties s) = Some q"
    and own: "ownerRoomPlayerId q = Some pid" "mortgaged q" "assertCurrentTurn s pid = Inr ()"
    and paid: "debitPlayer s pid (getUnmortgageCost (mortgageValue tile)) = Inr t"
    and s': "s' = updatePropertyState t (tileKey q) (\<lambda>c. c\<lparr>mortgaged := False\<rparr>)"
    by (auto simp: unmortgageProperty_def Let_def getMortgageableTileByKey_Inr_iff isRentableTile_iff
        assertOwnedBy_def canManage_Inr_iff)
  have key: "tile_key tile = key" "tileKey q = key"
    using tile q by (auto dest: findTile_SomeD findBy_SomeD)
  show thesis
    using that [OF tile q [unfolded key(1)] own] paid s' by (simp add: key)
qed

section \<open>Well-formedness is kept\<close>

lemma buildProperty_wf:
  assumes "wf_state s" "buildProperty s pid key = Inr (s', evs)"
  shows "wf_state s'"
proof (rule buildProperty_Inr [OF assms])
  fix tile q t
  assume *: "findTile CLASSIC_GAME_BOARD key = Some tile" "kind tile = Kind_property"
    "findBy tileKey key (properties s) = Some q" "q \<in> set (setProperties s tile)"
    "ownerRoomPlayerId q = Some pid" "\<forall>r\<in>set (setProperties s tile). \<not> mortgaged r" "\<not> hasHotel q"
    "debitPlayer s pid (houseCost tile) = Inr t" "s' = updatePropertyState t key buildStep"
    and turn: "assertCurrentTurn s pid = Inr ()"
  have "pid \<noteq> []"
    using currentTurn_active [OF assms(1) turn] active_nonempty [OF assms(1)] by blast
  then show ?thesis
    unfolding *(9) using *
    by (intro wf_updateProperty debitPlayer_wf [OF assms(1) *(8)])
      (auto simp: buildStep_def debitPlayer_frame [OF *(8)] propertyOk_def isPropertyTileKey_def built_def
        dest: findBy_SomeD)
qed

lemma sellBuilding_wf:
  assumes "wf_state s" "sellBuilding s pid key = Inr (s', evs)"
  shows "wf_state s'"
proof (rule sellBuilding_Inr [OF assms])
  fix tile q t
  assume *: "findTile CLASSIC_GAME_BOARD key = Some tile" "kind tile = Kind_property"
    "findBy tileKey key (properties s) = Some q" "built q"
    "creditPlayer s pid (houseCost tile div 2) = Inr t" "s' = updatePropertyState t key sellStep"
    and "auction s = None"
  then have "wf_state t" by (intro creditPlayer_wf [OF assms(1) *(5)]) simp
  then show ?thesis
    unfolding *(6) using *(3,4)
    by (intro wf_updateProperty)
      (auto simp: sellStep_def creditPlayer_frame [OF *(5)] propertyOk_def built_def)
qed

lemma mortgageProperty_wf:
  assumes "wf_state s" "mortgageProperty s pid key = Inr (s', evs)"
  shows "wf_state s'"
proof (rule mortgageProperty_Inr [OF assms])
  fix tile q t
  assume *: "findBy tileKey key (properties s) = Some q" "ownerRoomPlayerId q = Some pid"
    "\<not> built q" "creditPlayer s pid (mortgageValue tile) = Inr t"
    "s' = updatePropertyState t key (\<lambda>c. c\<lparr>mortgaged := True\<rparr>)"
    and turn: "assertCurrentTurn s pid = Inr ()"
  have "pid \<noteq> []"
    using currentTurn_active [OF assms(1) turn] active_nonempty [OF assms(1)] by blast
  moreover have "wf_state t"
    using currentTurn_active [OF assms(1) turn] by (intro creditPlayer_wf [OF assms(1) *(4)]) simp
  ultimately show ?thesis
    unfolding *(5) using *(1-3)
    by (intro wf_updateProperty) (auto simp: creditPlayer_frame [OF *(4)] propertyOk_def built_def)
qed

lemma unmortgageProperty_wf:
  assumes "wf_state s" "unmortgageProperty s pid key = Inr (s', evs)"
  shows "wf_state s'"
proof (rule unmortgageProperty_Inr [OF assms(2)])
  fix tile q t
  assume t: "debitPlayer s pid (getUnmortgageCost (mortgageValue tile)) = Inr t"
    and s': "s' = updatePropertyState t key (\<lambda>c. c\<lparr>mortgaged := False\<rparr>)"
  show ?thesis
    unfolding s' by (intro wf_updateProperty debitPlayer_wf [OF assms(1) t]) (auto simp: propertyOk_def built_def)
qed

section \<open>Even building\<close>

definition level :: "GameEngineProperty \<Rightarrow> nat" where
  "level q = (if hasHotel q then 5 else houseCount q)"

definition evenSet :: "GameEngineState \<Rightarrow> GameTile \<Rightarrow> bool" where
  "evenSet s tile \<longleftrightarrow>
     list_all (\<lambda>a. list_all (\<lambda>b. level a \<le> level b + 1) (setProperties s tile)) (setProperties s tile)"

definition allEven :: "GameEngineState \<Rightarrow> bool" where
  "allEven s \<longleftrightarrow> list_all (\<lambda>t. kind t = Kind_property \<longrightarrow> evenSet s t) classicTiles"

lemma setProperties_update:
  assumes "findTile CLASSIC_GAME_BOARD key = Some tile" "findBy tileKey key (properties s) = Some q"
    and "\<And>p. tileKey (f p) = tileKey p" "properties s' = updateBy tileKey key f (properties s)"
    and "r' \<in> set (setProperties s' tile')"
  shows "(r' \<in> set (setProperties s tile') \<and> tileKey r' \<noteq> key) \<or> (r' = f q \<and> setKey tile' = setKey tile)"
proof -
  from assms(5) obtain t where t: "t \<in> set (setTilesOf CLASSIC_GAME_BOARD (setKey tile'))"
    and r': "findBy tileKey (tile_key t) (properties s') = Some r'"
    unfolding set_setProperties by blast
  show ?thesis
  proof (cases "tile_key t = key")
    case True
    have "t \<in> set classicTiles" using t by (simp add: setTilesOf_def)
    then have "t = tile" using assms(1) True findTile_key by force
    then show ?thesis using r' t assms(2-4) True by (auto simp: findBy_updateBy setTilesOf_def)
  next
    case False
    then have "findBy tileKey (tile_key t) (properties s) = Some r'"
      using r' assms(3,4) by (simp add: findBy_updateBy)
    with False t show ?thesis unfolding set_setProperties by (auto dest: findBy_SomeD)
  qed
qed

lemma evenSet_update:
  assumes "findTile CLASSIC_GAME_BOARD key = Some tile" "findBy tileKey key (properties s) = Some q"
    and "\<And>p. tileKey (f p) = tileKey p" "properties s' = updateBy tileKey key f (properties s)"
    and "evenSet s tile'"
    and "\<And>r. r \<in> set (setProperties s tile) \<Longrightarrow> evenSet s tile \<Longrightarrow>
      level (f q) \<le> level r + 1 \<and> level r \<le> level (f q) + 1"
  shows "evenSet s' tile'"
  unfolding evenSet_def list_all_iff
proof (intro ballI)
  fix a b
  assume "a \<in> set (setProperties s' tile')" "b \<in> set (setProperties s' tile')"
  then have ab: "a \<in> set (setProperties s tile') \<or> (a = f q \<and> setKey tile' = setKey tile)"
    "b \<in> set (setProperties s tile') \<or> (b = f q \<and> setKey tile' = setKey tile)"
    using setProperties_update [OF assms(1-4)] by blast+
  have same: "setProperties s tile' = setProperties s tile" "evenSet s tile" if "setKey tile' = setKey tile"
    using that assms(5) by (simp_all add: setProperties_def evenSet_def)
  from ab show "level a \<le> level b + 1"
    using assms(5) same assms(6) [of a] assms(6) [of b] by (auto simp: evenSet_def list_all_iff)
qed

lemma evenSetD:
  "evenSet s tile \<Longrightarrow> a \<in> set (setProperties s tile) \<Longrightarrow> b \<in> set (setProperties s tile) \<Longrightarrow>
     level a \<le> level b + 1"
  by (simp add: evenSet_def list_all_iff)

lemma buildProperty_evenSet:
  assumes "wf_state s" "buildProperty s pid key = Inr (s', evs)" "evenSet s tile'"
  shows "evenSet s' tile'"
proof (rule buildProperty_Inr [OF assms(1,2)])
  fix tile q t
  assume *: "findTile CLASSIC_GAME_BOARD key = Some tile" "findBy tileKey key (properties s) = Some q"
    "q \<in> set (setProperties s tile)" "\<not> hasHotel q"
    "houseCount q < 4 \<Longrightarrow> \<forall>r\<in>set (setProperties s tile). \<not> hasHotel r \<longrightarrow> houseCount q \<le> houseCount r"
    "\<not> houseCount q < 4 \<Longrightarrow> \<forall>r\<in>set (setProperties s tile). hasHotel r \<or> houseCount r = 4"
    "debitPlayer s pid (houseCost tile) = Inr t" "s' = updatePropertyState t key buildStep"
  have "houseCount q \<le> 4"
    using propertiesOk_found [OF wf_stateD(4) [OF assms(1)] *(2)] by (simp add: propertyOk_def)
  have "level (buildStep q) \<le> level r + 1 \<and> level r \<le> level (buildStep q) + 1"
    if r: "r \<in> set (setProperties s tile)" and "evenSet s tile" for r
    using evenSetD [OF \<open>evenSet s tile\<close> r *(3)] \<open>houseCount q \<le> 4\<close> *(4-6) r
    by (cases "houseCount q < 4"; cases "hasHotel r") (auto simp: buildStep_def level_def)
  then show ?thesis
    by (rule evenSet_update [OF *(1,2) _ _ assms(3), where f = buildStep, rotated 2])
      (simp_all add: *(8) debitPlayer_frame [OF *(7)] buildStep_def)
qed

lemma sellBuilding_evenSet:
  assumes "wf_state s" "sellBuilding s pid key = Inr (s', evs)" "evenSet s tile'"
  shows "evenSet s' tile'"
proof (rule sellBuilding_Inr [OF assms(1,2)])
  fix tile q t
  assume *: "findTile CLASSIC_GAME_BOARD key = Some tile" "findBy tileKey key (properties s) = Some q"
    "q \<in> set (setProperties s tile)" "built q"
    "\<not> hasHotel q \<Longrightarrow> \<forall>r\<in>set (setProperties s tile). \<not> hasHotel r \<and> houseCount r \<le> houseCount q"
    "creditPlayer s pid (houseCost tile div 2) = Inr t" "s' = updatePropertyState t key sellStep"
  have bound: "houseCount r \<le> 4" if "r \<in> set (setProperties s tile)" for r
    using that propertiesOk_found [OF wf_stateD(4) [OF assms(1)]]
    by (auto simp: set_setProperties propertyOk_def)
  have "level (sellStep q) \<le> level r + 1 \<and> level r \<le> level (sellStep q) + 1"
    if r: "r \<in> set (setProperties s tile)" and "evenSet s tile" for r
    using evenSetD [OF \<open>evenSet s tile\<close> *(3) r] *(4,5) r bound [OF r]
    by (cases "hasHotel q"; cases "hasHotel r") (auto simp: sellStep_def level_def built_def)
  then show ?thesis
    by (rule evenSet_update [OF *(1,2) _ _ assms(3), where f = sellStep, rotated 2])
      (simp_all add: *(7) creditPlayer_frame [OF *(6)] sellStep_def)
qed

section \<open>Building and selling back\<close>

lemma foldr_max_eq: "x \<in> set xs \<Longrightarrow> \<forall>y\<in>set xs. y \<le> x \<Longrightarrow> foldr max xs 0 = (x :: nat)"
proof (rule antisym)
  show "\<forall>y\<in>set xs. y \<le> x \<Longrightarrow> foldr max xs 0 \<le> x" by (induction xs) auto
qed (rule foldr_max_ge)

lemma getOwnedSetProperties_update:
  assumes "getOwnedSetProperties s CLASSIC_GAME_BOARD tile pid = Inr (setProperties s tile)"
    and "\<And>p. tileKey (f p) = tileKey p" "\<And>p. ownerRoomPlayerId (f p) = ownerRoomPlayerId p"
    and "properties s' = updateBy tileKey key f (properties s)"
  shows "getOwnedSetProperties s' CLASSIC_GAME_BOARD tile pid = Inr (setProperties s' tile)"
  using assms by (fastforce simp: getOwnedSetProperties_Inr_iff findBy_updateBy)

lemma assertCurrentTurn_cash:
  assumes "assertCurrentTurn s pid = Inr ()" "currentTurnRoomPlayerId s' = currentTurnRoomPlayerId s"
    and "players s' = updateBy roomPlayerId k (\<lambda>c. c\<lparr>cash := g c\<rparr>) (players s)"
  shows "assertCurrentTurn s' pid = Inr ()"
  using assms by (auto simp: assertCurrentTurn_Inr_iff findBy_updateBy)

lemma build_then_sell:
  assumes wf: "wf_state s" and build: "buildProperty s pid key = Inr (s1, evs)"
    and even: "\<forall>t\<in>set classicTiles. kind t = Kind_property \<longrightarrow> evenSet s t"
  obtains tile s2 evs' where "findTile CLASSIC_GAME_BOARD key = Some tile"
    "sellBuilding s1 pid key = Inr (s2, evs')" "properties s2 = properties s"
    "balance s2 = (balance s)(pid \<mapsto> the (balance s pid) - houseCost tile div 2)"
proof (rule buildProperty_Inr [OF wf build])
  fix tile q t
  assume tile: "findTile CLASSIC_GAME_BOARD key = Some tile" "kind tile = Kind_property"
    and q: "findBy tileKey key (properties s) = Some q" "q \<in> set (setProperties s tile)" "\<not> hasHotel q"
    and turn: "phase s = Awaiting_turn_end" "assertCurrentTurn s pid = Inr ()"
    and own: "getOwnedSetProperties s CLASSIC_GAME_BOARD tile pid = Inr (setProperties s tile)"
    and t: "debitPlayer s pid (houseCost tile) = Inr t" and s1: "s1 = updatePropertyState t key buildStep"
  have board: "tile \<in> set classicTiles" "tile_key tile = key" using findTile_SomeD [OF tile(1)] by auto
  have p: "properties s1 = updateBy tileKey key buildStep (properties s)"
    by (simp add: s1 debitPlayer_frame [OF t])
  have q1: "findBy tileKey key (properties s1) = Some (buildStep q)"
    using q(1) by (simp add: p findBy_updateBy buildStep_def)
  have le4: "houseCount q \<le> 4"
    using propertiesOk_found [OF wf_stateD(4) [OF wf] q(1)] by (simp add: propertyOk_def)
  have own1: "getOwnedSetProperties s1 CLASSIC_GAME_BOARD tile pid = Inr (setProperties s1 tile)"
    by (rule getOwnedSetProperties_update [OF own _ _ p]) (simp_all add: buildStep_def)
  have turn1: "phase s1 = Awaiting_turn_end" "assertCurrentTurn s1 pid = Inr ()"
    using turn assertCurrentTurn_cash [OF turn(2), of s1 pid] t
    by (simp_all add: s1 debitPlayer_Inr_iff)
  have top: "assertCanSellHouseEvenly (buildStep q) (setProperties s1 tile) = Inr ()"
    if low: "houseCount q < 4"
  proof -
    have "\<not> hasHotel r \<and> houseCount r \<le> houseCount (buildStep q)" if "r \<in> set (setProperties s1 tile)" for r
    proof -
      have "(r \<in> set (setProperties s tile) \<and> tileKey r \<noteq> key) \<or> r = buildStep q"
        using setProperties_update [OF tile(1) q(1) _ p that] by (auto simp: buildStep_def)
      moreover have "level r \<le> level q + 1" if "r \<in> set (setProperties s tile)"
        using evenSetD [OF _ that q(2)] even board tile(2) by blast
      ultimately show ?thesis
        using low q(3) by (auto simp: buildStep_def level_def split: if_splits)
    qed
    moreover have "buildStep q \<in> set (setProperties s1 tile)"
      using tile_in_own_set [OF tile] q1 unfolding set_setProperties by blast
    ultimately show ?thesis
      using foldr_max_eq [of "houseCount (buildStep q)" "map houseCount (setProperties s1 tile)"]
      by (fastforce simp: assertCanSellHouseEvenly_def Let_def list_ex_iff)
  qed
  have half: "0 \<le> houseCost tile div 2" "2 * (houseCost tile div 2) = houseCost tile"
    using houseCost_half [OF board(1) tile(2)] by auto
  have "pid \<in> set (playerIds s1)"
    using turn1(2) by (auto simp: assertCurrentTurn_Inr_iff dest: findPlayer_in_ids)
  then obtain u where u: "creditPlayer s1 pid (houseCost tile div 2) = Inr u"
    using half by (simp add: creditPlayer_Inr_iff)
  have restored: "sellStep (buildStep q) = q"
    using q(3) le4 by (auto simp: sellStep_def buildStep_def)
  let ?s2 = "updatePropertyState u key sellStep"
  have "\<exists>evs'. sellBuilding s1 pid key = Inr (?s2, evs')"
    using turn1 tile own1 q1 u top board q(3) le4 findBy_SomeD [OF q1] wf_stateD(4) [OF buildProperty_wf [OF wf build]]
    by (cases "houseCount q < 4")
      (auto simp: sellBuilding_def canManage_Inr_iff getPropertyTileByKey_Inr_iff Let_def
        creditPlayer_frame [OF u] buildStep_def sellStep_def intro!: updatePropertyState_cong)
  moreover have "properties ?s2 = properties s"
    using q(1) restored propertiesOk_distinct [OF wf_stateD(4) [OF wf]]
    by (simp add: creditPlayer_frame [OF u] p updateBy_twice buildStep_def updateBy_id)
  moreover have "balance ?s2 = (balance s)(pid \<mapsto> the (balance s pid) - houseCost tile div 2)"
    using t u half findPlayer_in_ids
    by (auto simp: s1 debitPlayer_Inr_iff creditPlayer_Inr_iff balance_def fun_eq_iff findBy_updateBy
        dest: findPlayer_in_ids)
  ultimately show thesis using that tile(1) by blast
qed

section \<open>The cost of lifting a mortgage\<close>

text \<open>
  The exact cost of lifting a mortgage is the loan plus ten percent, rounded up. The binary64
  product with \<^verbatim>\<open>1.1\<close> exceeds some exact multiples of eleven tenths, and rounding up then charges
  one unit too much.
\<close>

definition exactUnmortgageCost :: "int \<Rightarrow> int" where
  "exactUnmortgageCost loan = (11 * loan + 9) div 10"

definition overchargedLoans :: "int list" where
  "overchargedLoans = [50, 90, 100, 110, 200]"

lemma unmortgage_table:
  "list_all (\<lambda>t. getUnmortgageCost (mortgageValue t) = exactUnmortgageCost (mortgageValue t) +
      (if mortgageValue t \<in> set overchargedLoans then 1 else 0)) (filter isOwnableTile classicTiles)"
  by code_simp

lemma getUnmortgageCost_pos:
  assumes "t \<in> set classicTiles" "ownableKind (kind t)"
  shows "mortgageValue t < getUnmortgageCost (mortgageValue t)"
proof -
  have "getUnmortgageCost (mortgageValue t) \<ge> exactUnmortgageCost (mortgageValue t)"
    using unmortgage_table assms by (auto simp: list_all_iff isOwnableTile_iff)
  moreover have "0 < mortgageValue t" using ownable_prices [OF assms] by simp
  ultimately show ?thesis by (simp add: exactUnmortgageCost_def)
qed

section \<open>Which errors can occur\<close>

lemma findPropertyState_errors: "findPropertyState s k = Inl e \<Longrightarrow> expected e"
  by (simp add: findPropertyState_def)

lemma assertCurrentTurn_errors: "assertCurrentTurn s pid = Inl e \<Longrightarrow> expected e"
  by (auto simp: assertCurrentTurn_def andThen_Inl_iff)

lemma mapM_errors: "mapM f xs = Inl e \<Longrightarrow> \<exists>x\<in>set xs. f x = Inl e"
  by (induction xs) (auto simp: andThen_Inl_iff)

lemma someM_errors: "someM f xs = Inl e \<Longrightarrow> \<exists>x\<in>set xs. f x = Inl e"
  by (induction xs) (auto simp: andThen_Inl_iff split: if_splits)

lemma building_guard_errors:
  "assertCanManageBuildings s pid b = Inl e \<Longrightarrow> expected e"
  "assertCanManageMortgage s pid b = Inl e \<Longrightarrow> expected e"
  "getPropertyTileByKey board key = Inl e \<Longrightarrow> expected e"
  "getMortgageableTileByKey board key = Inl e \<Longrightarrow> expected e"
  "getOwnedSetProperties s board tile pid = Inl e \<Longrightarrow> expected e"
  "assertSetIsNotMortgaged qs = Inl e \<Longrightarrow> expected e"
  "assertCanBuildHouseEvenly q qs = Inl e \<Longrightarrow> expected e"
  "assertCanBuildHotelEvenly q qs = Inl e \<Longrightarrow> expected e"
  "assertCanSellHouseEvenly q qs = Inl e \<Longrightarrow> expected e"
  "assertOwnedBy q pid = Inl e \<Longrightarrow> expected e"
  "assertNoBuildingsForMortgage s board tile = Inl e \<Longrightarrow> expected e"
  by (auto simp: assertCanManageBuildings_def assertCanManageMortgage_def getPropertyTileByKey_def
      getMortgageableTileByKey_def getOwnedSetProperties_def assertSetIsNotMortgaged_def
      assertCanBuildHouseEvenly_def assertCanBuildHotelEvenly_def assertCanSellHouseEvenly_def
      assertOwnedBy_def assertNoBuildingsForMortgage_def andThen_Inl_iff Let_def
      dest: assertCurrentTurn_errors dest!: mapM_errors someM_errors findPropertyState_errors
      split: option.splits if_splits)

lemmas estate_errors = building_guard_errors findPropertyState_errors payment_errors

lemma estate_amounts:
  assumes "findTile CLASSIC_GAME_BOARD key = Some tile"
  shows "kind tile = Kind_property \<Longrightarrow> 0 \<le> houseCost tile \<and> 0 \<le> houseCost tile div 2"
    "ownableKind (kind tile) \<Longrightarrow> 0 \<le> mortgageValue tile \<and> 0 \<le> getUnmortgageCost (mortgageValue tile)"
  using findTile_SomeD [OF assms] houseCost_half [of tile] ownable_prices [of tile] getUnmortgageCost_pos [of tile]
  by auto

lemma buildProperty_errors: "buildProperty s pid key = Inl e \<Longrightarrow> expected e"
  by (auto simp: buildProperty_def andThen_Inl_iff Let_def getPropertyTileByKey_Inr_iff
      dest: estate_errors estate_amounts(1) split: if_splits)

lemma sellBuilding_errors: "sellBuilding s pid key = Inl e \<Longrightarrow> expected e"
  by (auto simp: sellBuilding_def andThen_Inl_iff Let_def getPropertyTileByKey_Inr_iff
      dest: estate_errors estate_amounts(1) split: if_splits)

lemma mortgageProperty_errors: "mortgageProperty s pid key = Inl e \<Longrightarrow> expected e"
  by (auto simp: mortgageProperty_def andThen_Inl_iff Let_def getMortgageableTileByKey_Inr_iff isRentableTile_iff
      dest: estate_errors estate_amounts(2) split: if_splits)

lemma unmortgageProperty_errors: "unmortgageProperty s pid key = Inl e \<Longrightarrow> expected e"
  by (auto simp: unmortgageProperty_def andThen_Inl_iff Let_def getMortgageableTileByKey_Inr_iff isRentableTile_iff
      dest: estate_errors estate_amounts(2) split: if_splits)

section \<open>Properties\<close>

lemma allEven_iff: "allEven s \<longleftrightarrow> (\<forall>t\<in>set classicTiles. kind t = Kind_property \<longrightarrow> evenSet s t)"
  by (simp add: allEven_def list_all_iff)

definition estateSample :: GameEngineState where
  "estateSample = (giveTo ''a'' [''nigeria'', ''ghana''] sampleTwo)\<lparr>phase := Awaiting_turn_end\<rparr>"

lemma estateSample_ok:
  "wf_state estateSample" "allEven estateSample" "phase estateSample = Awaiting_turn_end"
  "\<not> isl (buildProperty estateSample ''a'' ''nigeria'')"
  "\<not> isl (mortgageProperty estateSample ''a'' ''nigeria'')"
  "balance estateSample ''a'' = Some 1500"
  by code_simp+

lemma not_isl_Inr: "\<not> isl r \<Longrightarrow> \<exists>s evs. r = Inr (s, evs)"
  by (cases r) auto

text \<open>
  C5. The even-building rule is kept: when the streets of every colour differ by at most one level
  (a hotel counts as five), building or selling on any street leaves them so.
\<close>

theorem even_building:
  assumes "wf_state s" "allEven s"
    and "buildProperty s pid key = Inr (s', evs) \<or> sellBuilding s pid key = Inr (s', evs)"
  shows "allEven s'"
  using assms buildProperty_evenSet sellBuilding_evenSet unfolding allEven_iff by blast

theorem even_building_witness:
  "\<exists>s' evs. buildProperty estateSample ''a'' ''nigeria'' = Inr (s', evs) \<and> allEven s'"
  using not_isl_Inr [OF estateSample_ok(4)] even_building [OF estateSample_ok(1,2)] by blast

text \<open>
  Building on an evenly built set and selling at once restores the properties exactly and costs
  half of the price of the building.
\<close>

theorem build_sell_roundtrip:
  assumes "wf_state s" "allEven s" "buildProperty s pid key = Inr (s1, evs)"
  shows "\<exists>tile s2 evs'. findTile CLASSIC_GAME_BOARD key = Some tile \<and>
     sellBuilding s1 pid key = Inr (s2, evs') \<and> properties s2 = properties s \<and>
     balance s2 = (balance s)(pid \<mapsto> the (balance s pid) - houseCost tile div 2)"
  using build_then_sell [OF assms(1,3)] assms(2) unfolding allEven_iff by metis

theorem build_sell_roundtrip_witness:
  "\<exists>s1 evs s2 evs'. buildProperty estateSample ''a'' ''nigeria'' = Inr (s1, evs) \<and>
     sellBuilding s1 ''a'' ''nigeria'' = Inr (s2, evs') \<and> properties s2 = properties estateSample"
  using not_isl_Inr [OF estateSample_ok(4)] build_sell_roundtrip [OF estateSample_ok(1,2)] by blast

text \<open>
  Lifting a mortgage right after taking it restores the properties; it succeeds exactly when the
  player can pay the cost out of his cash and the loan, and leaves him with the difference less.
\<close>

theorem mortgage_roundtrip:
  assumes "wf_state s" "phase s = Awaiting_turn_end" "mortgageProperty s pid key = Inr (s1, evs)"
  shows "\<exists>tile. findTile CLASSIC_GAME_BOARD key = Some tile \<and>
     (let loan = mortgageValue tile; cost = getUnmortgageCost loan; purse = the (balance s pid) in
      (if cost \<le> purse + loan
       then \<exists>s2 evs'. unmortgageProperty s1 pid key = Inr (s2, evs') \<and> properties s2 = properties s \<and>
              balance s2 = (balance s)(pid \<mapsto> purse + loan - cost)
       else unmortgageProperty s1 pid key = Inl (EngineError INSUFFICIENT_FUNDS)))"
proof (rule mortgageProperty_Inr [OF assms(1,3)])
  fix tile q t
  assume tile: "findTile CLASSIC_GAME_BOARD key = Some tile" "ownableKind (kind tile)"
    and q: "findBy tileKey key (properties s) = Some q" "ownerRoomPlayerId q = Some pid" "\<not> mortgaged q"
    and turn: "assertCurrentTurn s pid = Inr ()"
    and t: "creditPlayer s pid (mortgageValue tile) = Inr t"
    and s1: "s1 = updatePropertyState t key (\<lambda>c. c\<lparr>mortgaged := True\<rparr>)"
  let ?loan = "mortgageValue tile" and ?cost = "getUnmortgageCost (mortgageValue tile)"
  have key: "tile_key tile = key" using findTile_SomeD [OF tile(1)] by simp
  obtain p where p: "findBy roomPlayerId pid (players s) = Some p"
    using turn by (auto simp: assertCurrentTurn_Inr_iff)
  have p1: "findBy roomPlayerId pid (players s1) = Some (p\<lparr>cash := cash p + ?loan\<rparr>)"
    using t p by (auto simp: s1 creditPlayer_Inr_iff findBy_updateBy)
  have q1: "findBy tileKey key (properties s1) = Some (q\<lparr>mortgaged := True\<rparr>)"
    using q(1) by (simp add: s1 creditPlayer_frame [OF t] findBy_updateBy)
  have keys: "tileKey q = key" using q(1) by (auto dest: findBy_SomeD)
  have guard: "assertCanManageMortgage s1 pid False = Inr ()"
    using assms(2) turn assertCurrentTurn_cash [OF turn, of s1 pid] t
    by (auto simp: canManage_Inr_iff s1 creditPlayer_Inr_iff)
  have redeemed: "q\<lparr>mortgaged := False\<rparr> = q" using q(3) by (cases q) simp
  have s1_props: "updateBy tileKey key (\<lambda>c. c\<lparr>mortgaged := False\<rparr>) (properties s1) = properties s"
    using q(1) redeemed propertiesOk_distinct [OF wf_stateD(4) [OF assms(1)]]
    by (simp add: s1 creditPlayer_frame [OF t] updateBy_twice comp_def updateBy_id)
  note run = unmortgageProperty_def guard getMortgageableTileByKey_def isRentableTile_iff tile key q1 q(2)
    assertOwnedBy_def findPropertyState_def findProperty_def Let_def keys
  have pay: "unmortgageProperty s1 pid key =
      andThen (debitPlayer s1 pid ?cost) (\<lambda>d. Inr (updatePropertyState d key (\<lambda>c. c\<lparr>mortgaged := False\<rparr>),
        [Property_unmortgaged pid key ?cost]))"
    by (simp add: run)
  have nonneg: "0 \<le> ?cost"
    using getUnmortgageCost_pos [of tile] ownable_prices [of tile] tile findTile_SomeD [OF tile(1)] by simp
  have purse: "the (balance s pid) = cash p" using p by (simp add: balance_def)
  have "if ?cost \<le> cash p + ?loan
       then \<exists>s2 evs'. unmortgageProperty s1 pid key = Inr (s2, evs') \<and> properties s2 = properties s \<and>
              balance s2 = (balance s)(pid \<mapsto> cash p + ?loan - ?cost)
       else unmortgageProperty s1 pid key = Inl (EngineError INSUFFICIENT_FUNDS)"
  proof (cases "?cost \<le> cash p + ?loan")
    case True
    with nonneg p1 have d: "debitPlayer s1 pid ?cost = Inr (modifyPlayer pid (\<lambda>c. c\<lparr>cash := cash c - ?cost\<rparr>) s1)"
      by (simp add: debitPlayer_Inr_iff)
    show ?thesis
      using True p t
      by (simp add: pay d s1_props balance_def fun_eq_iff findBy_updateBy)
        (auto simp: s1 creditPlayer_Inr_iff findBy_updateBy)
  next
    case False
    with nonneg p1 show ?thesis by (simp add: pay debitPlayer_def findPlayer_def)
  qed
  then show ?thesis using tile(1) purse by (auto simp: Let_def)
qed

theorem mortgage_roundtrip_witness:
  "\<exists>s1 evs s2 evs'. mortgageProperty estateSample ''a'' ''nigeria'' = Inr (s1, evs) \<and>
     unmortgageProperty s1 ''a'' ''nigeria'' = Inr (s2, evs') \<and> balance s2 ''a'' = Some 1497"
proof -
  obtain s1 evs where m: "mortgageProperty estateSample ''a'' ''nigeria'' = Inr (s1, evs)"
    using not_isl_Inr [OF estateSample_ok(5)] by blast
  have tile: "findTile CLASSIC_GAME_BOARD ''nigeria'' =
      Some (property 1 ''nigeria'' ''Nigeria'' Brown 60 2 [10, 30, 90, 160] 250 50)"
    and cost: "getUnmortgageCost 30 = 33"
    and loan: "mortgageValue (property 1 ''nigeria'' ''Nigeria'' Brown 60 2 [10, 30, 90, 160] 250 50) = 30"
    by code_simp+
  from mortgage_roundtrip [OF estateSample_ok(1,3) m] show ?thesis
    using m by (auto simp: tile cost loan estateSample_ok(6) Let_def)
qed

text \<open>
  On the 28 tiles that can be mortgaged, lifting the mortgage costs the loan plus ten percent
  rounded up, except that the binary64 product makes the loans 50, 90, 100, 110 and 200 one unit
  dearer (56, 100, 111, 122 and 221 in place of 55, 99, 110, 121 and 220).
\<close>

theorem unmortgage_cost:
  "length (filter isOwnableTile classicTiles) = 28 \<and>
   list_all (\<lambda>t. getUnmortgageCost (mortgageValue t) = exactUnmortgageCost (mortgageValue t) +
      (if mortgageValue t \<in> set overchargedLoans then 1 else 0)) (filter isOwnableTile classicTiles) \<and>
   map getUnmortgageCost overchargedLoans = [56, 100, 111, 122, 221]"
  by code_simp

end
