(* ===== verification/Game_Movement.thy ===== *)
theory Game_Movement
  imports Game_Cards Game_Estate
begin

text \<open>
  Jail (\<^verbatim>\<open>game-engine-jail.ts\<close>) and movement (\<^verbatim>\<open>game-engine-movement.ts\<close>): rolling the dice,
  walking the board, and resolving the tile the player lands on.
\<close>

section \<open>Jail\<close>

definition JAIL_FINE_AMOUNT :: int where "JAIL_FINE_AMOUNT = 50"

definition MAX_JAIL_TURN_COUNT :: int where "MAX_JAIL_TURN_COUNT = 3"

definition releasePlayerFromJail :: "GameEngineState \<Rightarrow> string \<Rightarrow> GameEngineState" where
  "releasePlayerFromJail s pid = modifyPlayer pid (\<lambda>c. c\<lparr>inJail := False, jailTurnCount := 0\<rparr>) s"

text \<open>\<^term>\<open>None\<close> is the \<^verbatim>\<open>null\<close> returned for a player who is not in jail.\<close>

definition resolveJailedRoll ::
  "GameEngineState \<Rightarrow> string \<Rightarrow> DiceRoll \<Rightarrow> (GameEngineState \<Rightarrow> GameEngineError + GameEngineResult) \<Rightarrow>
   GameEngineError + GameEngineResult option" where
  "resolveJailedRoll s pid dice moveReleasedPlayer =
     andThen (ofOption (EngineError PLAYER_NOT_FOUND) (findBy roomPlayerId pid (players s))) (\<lambda>player.
     if \<not> inJail player then Inr None
     else if isDoubles dice then
       andThen (moveReleasedPlayer ((releasePlayerFromJail s pid)
                  \<lparr>consecutiveDoublesCount := 0, shouldCurrentPlayerPlayAgain := False\<rparr>)) (\<lambda>(moved, evs).
       Inr (Some (moved\<lparr>consecutiveDoublesCount := 0, shouldCurrentPlayerPlayAgain := False\<rparr>,
                  [Jail_escape_roll_succeeded pid (cloneDiceRoll dice),
                   Player_released_from_jail pid] @ evs)))
     else
       let turnCount = jailTurnCount player + 1 in
       if turnCount \<ge> MAX_JAIL_TURN_COUNT then
         andThen (debitPlayerOrCreateDebt s pid JAIL_FINE_AMOUNT Jail_fine None) (\<lambda>(paymentState, payEvs, paid).
         if \<not> paid then
           Inr (Some ((modifyPlayer pid (\<lambda>c. c\<lparr>jailTurnCount := turnCount\<rparr>) paymentState)
                        \<lparr>lastDiceRoll := Some (cloneDiceRoll dice)\<rparr>,
                      Jail_escape_roll_failed pid (cloneDiceRoll dice) turnCount # payEvs))
         else
           andThen (moveReleasedPlayer
                      (releasePlayerFromJail
                         (modifyPlayer pid (\<lambda>c. c\<lparr>jailTurnCount := turnCount\<rparr>) paymentState) pid))
             (\<lambda>(moved, evs).
           Inr (Some (moved\<lparr>consecutiveDoublesCount := 0, shouldCurrentPlayerPlayAgain := False\<rparr>,
                      [Jail_escape_roll_failed pid (cloneDiceRoll dice) turnCount,
                       Jail_forced_fine_paid pid JAIL_FINE_AMOUNT,
                       Player_released_from_jail pid] @ evs))))
       else
         Inr (Some ((modifyPlayer pid (\<lambda>c. c\<lparr>jailTurnCount := turnCount\<rparr>) s)
                      \<lparr>phase := Awaiting_turn_end, lastDiceRoll := Some (cloneDiceRoll dice),
                       consecutiveDoublesCount := 0, shouldCurrentPlayerPlayAgain := False\<rparr>,
                    [Jail_escape_roll_failed pid (cloneDiceRoll dice) turnCount])))"

definition payJailFine :: "GameEngineState \<Rightarrow> string \<Rightarrow> GameEngineError + GameEngineResult" where
  "payJailFine s pid =
     andThen (ofOption (EngineError PLAYER_NOT_FOUND) (findBy roomPlayerId pid (players s))) (\<lambda>player.
     andThen (raiseIf (\<not> inJail player) (EngineError PLAYER_NOT_IN_JAIL)) (\<lambda>_.
     andThen (debitPlayer s pid JAIL_FINE_AMOUNT) (\<lambda>debited.
     Inr (releasePlayerFromJail debited pid,
          [Jail_fine_paid pid JAIL_FINE_AMOUNT, Player_released_from_jail pid]))))"

definition useGetOutOfJailCard :: "GameEngineState \<Rightarrow> string \<Rightarrow> GameEngineError + GameEngineResult" where
  "useGetOutOfJailCard s pid =
     andThen (ofOption (EngineError PLAYER_NOT_FOUND) (findBy roomPlayerId pid (players s))) (\<lambda>player.
     andThen (raiseIf (\<not> inJail player) (EngineError PLAYER_NOT_IN_JAIL)) (\<lambda>_.
     andThen (raiseIf (getOutOfJailFreeCards player \<le> 0)
               (EngineError GET_OUT_OF_JAIL_CARD_REQUIRED)) (\<lambda>_.
     let keys = (case getOutOfJailFreeCardKeys player of None \<Rightarrow> [] | Some ks \<Rightarrow> ks);
         cardKey = (case keys of [] \<Rightarrow> None | k # _ \<Rightarrow> Some k);
         remainingCardKeys = tl keys in
     andThen (returnGetOutOfJailCardToDeck s cardKey) (\<lambda>returned.
     Inr (releasePlayerFromJail
            (modifyPlayer pid (\<lambda>c. c\<lparr>getOutOfJailFreeCards := getOutOfJailFreeCards c - 1,
                                    getOutOfJailFreeCardKeys := Some remainingCardKeys\<rparr>) returned) pid,
          [Get_out_of_jail_card_used pid, Player_released_from_jail pid])))))"

section \<open>Movement\<close>

text \<open>
  The callback of \<^verbatim>\<open>players.map\<close> in \<^verbatim>\<open>rollAndMoveIgnoringJail\<close> also writes the variables
  \<^verbatim>\<open>landedTileKey\<close>, \<^verbatim>\<open>landedTileKind\<close>, \<^verbatim>\<open>landedTileIsOwnableAndUnowned\<close>, \<^verbatim>\<open>landedOnGoToJail\<close>
  (\<open>landing\<close> below, \<^term>\<open>None\<close> before any write) and pushes events.
\<close>

record Landing =
  landedTileKey :: string
  landedTileKind :: GameTileKind
  landedTileIsOwnableAndUnowned :: bool
  landedOnGoToJail :: bool

definition movePlayerCallback ::
  "GameEngineState \<Rightarrow> string \<Rightarrow> DiceRoll \<Rightarrow> Landing option \<times> GameEngineEvent list \<Rightarrow> GameEnginePlayer \<Rightarrow>
   GameEngineError + ((Landing option \<times> GameEngineEvent list) \<times> GameEnginePlayer)" where
  "movePlayerCallback doublesState pid dice acc player =
     (if roomPlayerId player \<noteq> pid then Inr (acc, player)
      else
        let board = getGameBoard (boardKey doublesState);
            steps = fst dice + snd dice;
            boardSize = int (length (tiles board));
            fromPosition = position player;
            nextAbsolutePosition = fromPosition + steps;
            passedGo = nextAbsolutePosition \<ge> boardSize;
            toPosition = jsRem nextAbsolutePosition boardSize in
        andThen (getTile board toPosition) (\<lambda>landedTile.
        let unowned = (case findProperty doublesState (tile_key landedTile) of
                         None \<Rightarrow> False | Some prop \<Rightarrow> \<not> truthy (ownerRoomPlayerId prop));
            landing = \<lparr>landedTileKey = tile_key landedTile, landedTileKind = kind landedTile,
                       landedTileIsOwnableAndUnowned = (isOwnableTile landedTile \<and> unowned),
                       landedOnGoToJail = (kind landedTile = Kind_go_to_jail)\<rparr>;
            pushed = [Player_moved pid fromPosition toPosition (cloneDiceRoll dice)] @
                     (if passedGo then [Player_passed_go pid (passGoCash board)] else []) @
                     [Player_landed_on_tile pid (tile_key landedTile) (kind landedTile)] in
        Inr ((Some landing, snd acc @ pushed),
             player\<lparr>position := toPosition,
                    cash := (if passedGo then cash player + passGoCash board else cash player)\<rparr>)))"

text \<open>What happens on the tile the player landed on.\<close>

definition resolveLanding ::
  "GameEngineState \<Rightarrow> string \<Rightarrow> DiceRoll \<Rightarrow> Landing \<Rightarrow> GameEngineEvent list \<Rightarrow>
   GameEngineError + GameEngineResult" where
  "resolveLanding movedState pid dice landing evs =
     (if landedOnGoToJail landing then
        let (jailState, jailEvents) = sendPlayerToJail movedState pid in
        Inr (jailState\<lparr>consecutiveDoublesCount := 0, shouldCurrentPlayerPlayAgain := False\<rparr>,
             evs @ jailEvents)
      else if landedTileKind landing = Kind_chance \<or> landedTileKind landing = Kind_world_fund then
        andThen (drawAndApplyCard movedState pid
                   (if landedTileKind landing = Kind_chance then Chance else World_fund))
          (\<lambda>(cardState, cardEvents). Inr (cardState, evs @ cardEvents))
      else if landedTileIsOwnableAndUnowned landing then Inr (movedState, evs)
      else if landedTileKind landing = Kind_tax then
        andThen (payTax movedState pid (landedTileKey landing)) (\<lambda>(taxState, taxEvents).
        Inr (taxState, evs @ taxEvents))
      else
        andThen (payRent movedState pid (landedTileKey landing) dice) (\<lambda>(rentState, rentEvents).
        Inr (rentState, evs @ rentEvents)))"

definition rollAndMoveIgnoringJail ::
  "GameEngineState \<Rightarrow> string \<Rightarrow> DiceRoll \<Rightarrow> bool \<Rightarrow> GameEngineError + GameEngineResult" where
  "rollAndMoveIgnoringJail s pid dice suppressDoubles =
     (if \<not> suppressDoubles \<and> isThirdConsecutiveDoubles s dice then
        let (jailState, jailEvents) = sendPlayerToJail (applyDoublesState s dice) pid in
        Inr (jailState\<lparr>lastDiceRoll := Some (cloneDiceRoll dice), consecutiveDoublesCount := 0,
                        shouldCurrentPlayerPlayAgain := False\<rparr>,
             [Player_rolled_doubles pid 3, Player_rolled_third_doubles pid] @ jailEvents)
      else
        let doublesState =
              (if suppressDoubles
               then s\<lparr>consecutiveDoublesCount := 0, shouldCurrentPlayerPlayAgain := False\<rparr>
               else applyDoublesState s dice);
            events0 =
              (if \<not> suppressDoubles \<and> isDoubles dice
               then [Player_rolled_doubles pid (consecutiveDoublesCount doublesState)] else []) in
        andThen (mapAccumM (movePlayerCallback doublesState pid dice) (None, events0)
                   (players doublesState)) (\<lambda>((landed, evs), movedPlayers).
        case landed of
          None \<Rightarrow> Inl (EngineError PLAYER_NOT_FOUND)
        | Some landing \<Rightarrow>
            andThen (raiseIf (landedTileKey landing = []) (EngineError PLAYER_NOT_FOUND)) (\<lambda>_.
            let movedState = doublesState
                  \<lparr>phase := (if landedTileIsOwnableAndUnowned landing
                            then Awaiting_property_decision else Awaiting_turn_end),
                   pendingTileKey := (if landedTileIsOwnableAndUnowned landing
                                      then Some (landedTileKey landing) else None),
                   lastDiceRoll := Some (cloneDiceRoll dice),
                   players := movedPlayers\<rparr> in
            resolveLanding movedState pid dice landing evs)))"

definition rollAndMove ::
  "GameEngineState \<Rightarrow> string \<Rightarrow> DiceRoll \<Rightarrow> GameEngineError + GameEngineResult" where
  "rollAndMove s pid dice =
     andThen (resolveJailedRoll s pid dice
                (\<lambda>releasedState. rollAndMoveIgnoringJail releasedState pid dice True))
       (\<lambda>jailedRollResult.
     case jailedRollResult of
       Some result \<Rightarrow> Inr result
     | None \<Rightarrow> rollAndMoveIgnoringJail s pid dice False)"

section \<open>Leaving jail keeps the invariant\<close>

lemma releasePlayerFromJail_frame [simp]:
  "phase (releasePlayerFromJail s pid) = phase s"
  "debt (releasePlayerFromJail s pid) = debt s"
  "auction (releasePlayerFromJail s pid) = auction s"
  "pendingTileKey (releasePlayerFromJail s pid) = pendingTileKey s"
  "tradeOffer (releasePlayerFromJail s pid) = tradeOffer s"
  "properties (releasePlayerFromJail s pid) = properties s"
  "currentTurnRoomPlayerId (releasePlayerFromJail s pid) = currentTurnRoomPlayerId s"
  "playerIds (releasePlayerFromJail s pid) = playerIds s"
  "activeIds (players (releasePlayerFromJail s pid)) = activeIds (players s)"
  by (simp_all add: releasePlayerFromJail_def)

lemma releasePlayerFromJail_wf: "wf_state s \<Longrightarrow> wf_state (releasePlayerFromJail s pid)"
  unfolding releasePlayerFromJail_def by (rule wf_modifyPlayer) auto

lemma payJailFine_wf:
  assumes "wf_state s" "payJailFine s pid = Inr (s', evs)"
  shows "wf_state s'"
  using assms by (auto simp: payJailFine_def intro: releasePlayerFromJail_wf debitPlayer_wf)

lemma useGetOutOfJailCard_wf:
  assumes wf: "wf_state s" and jailCard: "useGetOutOfJailCard s pid = Inr (s', evs)"
  shows "wf_state s'"
proof -
  from jailCard obtain p where p: "findBy roomPlayerId pid (players s) = Some p" "0 < getOutOfJailFreeCards p"
    by (auto simp: useGetOutOfJailCard_def)
  have "playerOk p" by (rule playersOk_found [OF wf_stateD(3) [OF wf] p(1)])
  then obtain k ks where held: "heldKeys p = k # ks"
    using p(2) by (cases "heldKeys p") (auto simp: playerOk_def)
  let ?f = "\<lambda>c. c\<lparr>getOutOfJailFreeCards := getOutOfJailFreeCards c - 1, getOutOfJailFreeCardKeys := Some ks\<rparr>"
  from jailCard p held obtain t where t: "returnGetOutOfJailCardToDeck s (Some k) = Inr t"
    and s': "s' = releasePlayerFromJail (modifyPlayer pid ?f t) pid"
    by (auto simp: useGetOutOfJailCard_def Let_def heldKeys_def split: option.splits)
  note dist = playersOk_distinct [OF wf_stateD(3) [OF wf]]
  have "p \<in> set (players s)" using p(1) by (auto dest: findBy_SomeD)
  then have sub: "mset [k] \<subseteq># heldCards (players s)"
    using held by (force simp: heldCards_def)
  obtain t' where "foldM (\<lambda>t k. returnGetOutOfJailCardToDeck t (Some k)) s [k] = Inr t'"
    "t' = s\<lparr>decks := decks t'\<rparr>" "cardsOk (decks t') (heldCards (players s) - mset [k])"
    by (rule returnHand_cardsOk [OF wf_stateD(5) [OF wf] sub])
  with t have t': "t = s\<lparr>decks := decks t\<rparr>" "cardsOk (decks t) (heldCards (players s) - {#k#})" by auto
  have pl: "players t = players s" by (subst t'(1)) simp
  have "heldCards (updateBy roomPlayerId pid ?f (players s)) + mset (k # ks) = heldCards (players s) + mset ks"
    using heldCards_updateBy_found [OF dist p(1), of ?f] held by simp
  then have "heldCards (players s) = add_mset k (heldCards (updateBy roomPlayerId pid ?f (players s)))" by simp
  then have "heldCards (updateBy roomPlayerId pid ?f (players s)) = heldCards (players s) - {#k#}" by simp
  moreover have "playersOk (updateBy roomPlayerId pid ?f (players s))"
    using p(1) held by (intro playersOk_updateBy [OF wf_stateD(3) [OF wf]]) (auto simp: playerOk_def)
  ultimately have core: "coreOk (modifyPlayer pid ?f t)"
    using wf t'(2) by (subst t'(1)) (auto simp: wf_state_def coreOk_def)
  have "phaseOk t" using wf by (subst t'(1)) (simp add: wf_state_def phaseOk_def)
  then have "phaseOk (modifyPlayer pid ?f t)"
    by (intro phaseOk_modifyPlayer) (auto simp: pl wf_stateD(3) [OF wf])
  with core show ?thesis unfolding s' by (intro releasePlayerFromJail_wf) auto
qed

section \<open>Walking\<close>

text \<open>What the callback of \<^verbatim>\<open>players.map\<close> does to the player who moves.\<close>

definition walk :: "DiceRoll \<Rightarrow> GameEnginePlayer \<Rightarrow> GameEnginePlayer" where
  "walk dice p =
     p\<lparr>position := (position p + fst dice + snd dice) mod 40,
       cash := (if 40 \<le> position p + fst dice + snd dice then cash p + 200 else cash p)\<rparr>"

definition landingOn :: "GameEngineState \<Rightarrow> GameTile \<Rightarrow> Landing" where
  "landingOn s tile =
     \<lparr>landedTileKey = tile_key tile, landedTileKind = kind tile,
      landedTileIsOwnableAndUnowned = (isOwnableTile tile \<and> tile_key tile \<in> unownedKeys (properties s)),
      landedOnGoToJail = (kind tile = Kind_go_to_jail)\<rparr>"

definition walkEvents :: "string \<Rightarrow> DiceRoll \<Rightarrow> GameEnginePlayer \<Rightarrow> GameTile \<Rightarrow> GameEngineEvent list" where
  "walkEvents pid dice p tile =
     [Player_moved pid (position p) (tile_index tile) dice] @
     (if 40 \<le> position p + fst dice + snd dice then [Player_passed_go pid 200] else []) @
     [Player_landed_on_tile pid (tile_key tile) (kind tile)]"

lemma mapAccumM_absent:
  "pid \<notin> set (map roomPlayerId ps) \<Longrightarrow> mapAccumM (movePlayerCallback s pid dice) acc ps = Inr (acc, ps)"
  by (induction ps arbitrary: acc) (auto simp: movePlayerCallback_def)

lemma unowned_lookup:
  assumes "propertiesOk A (properties s)"
  shows "(case findProperty s k of None \<Rightarrow> False | Some q \<Rightarrow> \<not> truthy (ownerRoomPlayerId q)) \<longleftrightarrow>
     k \<in> unownedKeys (properties s)"
  using unownedKeys_iff [OF assms, of k] by (auto simp: findProperty_def split: option.splits)

lemma movePlayerCallback_walk:
  assumes "roomPlayerId p = pid" "0 \<le> position p" "0 \<le> fst dice + snd dice"
    and "propertiesOk A (properties s)"
    and "getTile CLASSIC_GAME_BOARD ((position p + fst dice + snd dice) mod 40) = Inr tile"
  shows "movePlayerCallback s pid dice acc p =
     Inr ((Some (landingOn s tile), snd acc @ walkEvents pid dice p tile), walk dice p)"
proof -
  have pos: "jsRem (position p + (fst dice + snd dice)) 40 = (position p + fst dice + snd dice) mod 40"
    using assms(2,3) by (simp add: add.assoc)
  show ?thesis
    using assms(1,5) getTile_InrD(2) [OF assms(5)] unowned_lookup [OF assms(4)]
    by (simp add: movePlayerCallback_def Let_def pos landingOn_def walkEvents_def walk_def add.assoc)
qed

lemma mapAccumM_walk:
  assumes "distinct (map roomPlayerId ps)" "findBy roomPlayerId pid ps = Some p"
    and step: "\<And>acc. movePlayerCallback s pid dice acc p = Inr ((Some l, snd acc @ evs'), walk dice p)"
  shows "mapAccumM (movePlayerCallback s pid dice) (None, evs) ps =
     Inr ((Some l, evs @ evs'), updateBy roomPlayerId pid (walk dice) ps)"
  using assms(1,2)
proof (induction ps)
  case Nil
  then show ?case by simp
next
  case (Cons q qs)
  show ?case
  proof (cases "roomPlayerId q = pid")
    case True
    with Cons.prems have "p = q" and absent: "pid \<notin> set (map roomPlayerId qs)" by auto
    with True step show ?thesis by (simp add: mapAccumM_absent updateBy_absent)
  next
    case False
    with Cons show ?thesis by (simp add: movePlayerCallback_def)
  qed
qed

text \<open>The state after the walk, before the tile is resolved.\<close>

definition movedTo :: "GameEngineState \<Rightarrow> string \<Rightarrow> DiceRoll \<Rightarrow> GameTile \<Rightarrow> GameEngineState" where
  "movedTo s pid dice tile =
     (let decide = landedTileIsOwnableAndUnowned (landingOn s tile) in
      s\<lparr>phase := (if decide then Awaiting_property_decision else Awaiting_turn_end),
        pendingTileKey := (if decide then Some (tile_key tile) else None),
        lastDiceRoll := Some dice,
        players := updateBy roomPlayerId pid (walk dice) (players s)\<rparr>)"

definition doublesAfter :: "bool \<Rightarrow> GameEngineState \<Rightarrow> DiceRoll \<Rightarrow> GameEngineState" where
  "doublesAfter suppress s dice =
     (if suppress then s\<lparr>consecutiveDoublesCount := 0, shouldCurrentPlayerPlayAgain := False\<rparr>
      else applyDoublesState s dice)"

lemma movedTo_modify:
  "movedTo s pid dice tile =
     (let decide = landedTileIsOwnableAndUnowned (landingOn s tile) in
      (modifyPlayer pid (walk dice) s)
        \<lparr>phase := (if decide then Awaiting_property_decision else Awaiting_turn_end),
         pendingTileKey := (if decide then Some (tile_key tile) else None),
         lastDiceRoll := Some dice\<rparr>)"
  by (cases s) (simp add: movedTo_def modifyPlayer_def Let_def landingOn_def)

lemma wf_position:
  assumes "wf_state s" "findBy roomPlayerId pid (players s) = Some p"
  shows "0 \<le> position p" "position p < 40" "0 \<le> cash p" "0 \<le> jailTurnCount p"
  using playersOk_found [OF wf_stateD(3) [OF assms(1)] assms(2)] by (simp_all add: playerOk_def)

lemma applyDoublesState_wf:
  assumes "wf_state s" "\<not> isThirdConsecutiveDoubles s dice"
  shows "wf_state (applyDoublesState s dice)"
proof -
  have "0 \<le> consecutiveDoublesCount s" using assms(1) by (simp add: wf_state_def coreOk_def)
  with assms show ?thesis
    by (auto simp: applyDoublesState_def isThirdConsecutiveDoubles_def Let_def intro!: wf_state_doubles)
qed

lemma doublesAfter_wf:
  assumes "wf_state s" "suppress \<or> \<not> isThirdConsecutiveDoubles s dice"
  shows "wf_state (doublesAfter suppress s dice)"
  using assms applyDoublesState_wf [OF assms(1), of dice] wf_state_doubles [OF assms(1), of 0]
  by (auto simp: doublesAfter_def)

lemma doublesAfter_frame [simp]:
  "players (doublesAfter b s dice) = players s"
  "properties (doublesAfter b s dice) = properties s"
  "calm (doublesAfter b s dice) = calm s"
  "currentTurnRoomPlayerId (doublesAfter b s dice) = currentTurnRoomPlayerId s"
  "landingOn (doublesAfter b s dice) tile = landingOn s tile"
  by (simp_all add: doublesAfter_def applyDoublesState_def Let_def calm_def landingOn_def)

lemma rollAndMoveIgnoringJail_walk:
  assumes wf: "wf_state s" and p: "findBy roomPlayerId pid (players s) = Some p"
    and dice: "0 \<le> fst dice + snd dice" and third: "suppress \<or> \<not> isThirdConsecutiveDoubles s dice"
  obtains tile evs where "getTile CLASSIC_GAME_BOARD ((position p + fst dice + snd dice) mod 40) = Inr tile"
    "rollAndMoveIgnoringJail s pid dice suppress =
       resolveLanding (movedTo (doublesAfter suppress s dice) pid dice tile) pid dice (landingOn s tile)
         (evs @ walkEvents pid dice p tile)"
proof -
  let ?d = "doublesAfter suppress s dice"
  define evs where "evs = (if \<not> suppress \<and> isDoubles dice
    then [Player_rolled_doubles pid (consecutiveDoublesCount ?d)] else [])"
  obtain tile where tile: "getTile CLASSIC_GAME_BOARD ((position p + fst dice + snd dice) mod 40) = Inr tile"
    using getTile_ok [of "(position p + fst dice + snd dice) mod 40"] by auto
  have key: "tile_key tile \<noteq> []"
    using tileOk_classic [OF getTile_InrD(1) [OF tile]] by (cases tile) auto
  have walked: "mapAccumM (movePlayerCallback ?d pid dice) (None, evs) (players ?d) =
      Inr ((Some (landingOn s tile), evs @ walkEvents pid dice p tile),
           updateBy roomPlayerId pid (walk dice) (players s))"
    using mapAccumM_walk [OF playersOk_distinct [OF wf_stateD(3) [OF wf]] p, of ?d dice] p tile dice
      movePlayerCallback_walk [of p pid dice _ ?d tile] wf_position(1) [OF wf p] wf_stateD(4) [OF wf]
    by (fastforce dest: findBy_SomeD)
  have "rollAndMoveIgnoringJail s pid dice suppress =
      resolveLanding (movedTo ?d pid dice tile) pid dice (landingOn s tile) (evs @ walkEvents pid dice p tile)"
  proof -
    have "\<not> (\<not> suppress \<and> isThirdConsecutiveDoubles s dice)" using third by blast
    then show ?thesis
      unfolding rollAndMoveIgnoringJail_def if_not_P [OF \<open>\<not> (\<not> suppress \<and> isThirdConsecutiveDoubles s dice)\<close>]
        doublesAfter_def [symmetric] Let_def
      unfolding evs_def [symmetric] walked
      using key by (simp add: movedTo_def Let_def) (simp add: landingOn_def)
  qed
  with tile show thesis by (rule that)
qed

lemma movedTo_wf:
  assumes wf: "wf_state s" "calm s" and dice: "0 \<le> fst dice + snd dice"
  shows "wf_state (movedTo s pid dice tile)" "calm (movedTo s pid dice tile)"
proof -
  let ?m = "modifyPlayer pid (walk dice) s"
  have "wf_state ?m"
  proof
    show "coreOk ?m"
      using wf by (intro coreOk_modifyPlayer) (auto simp: walk_def playerOk_def wf_state_def)
    show "phaseOk ?m"
      using wf by (intro phaseOk_modifyPlayer) (auto simp: walk_def calm_def dest: wf_stateD)
  qed
  moreover have "calm ?m" using wf(2) by (simp add: calm_def)
  ultimately show "wf_state (movedTo s pid dice tile)"
    using wf_turn_end [of ?m] wf_decision [of ?m "tile_key tile"]
    by (auto simp: movedTo_modify Let_def landingOn_def)
  show "calm (movedTo s pid dice tile)"
    using wf(2) by (simp add: movedTo_def Let_def calm_def)
qed

lemma resolveLanding_wf:
  assumes "wf_state s" "calm s" "resolveLanding s (currentTurnRoomPlayerId s) dice l evs0 = Inr (s', evs)"
  shows "wf_state s'"
proof -
  let ?pid = "currentTurnRoomPlayerId s"
  note active = calm_not_terminal [OF assms(2)]
  from assms(3) consider evs1 t where "sendPlayerToJail s ?pid = (t, evs1)"
      "s' = t\<lparr>consecutiveDoublesCount := 0, shouldCurrentPlayerPlayAgain := False\<rparr>"
    | d evs1 where "drawAndApplyCard s ?pid d = Inr (s', evs1)"
    | "s' = s"
    | evs1 where "payTax s ?pid (landedTileKey l) = Inr (s', evs1)"
    | evs1 where "payRent s ?pid (landedTileKey l) dice = Inr (s', evs1)"
    by (auto simp: resolveLanding_def split: if_splits prod.splits)
  then show ?thesis
  proof cases
    case 1
    then show ?thesis using sendPlayerToJail_wf [OF assms(1,2), of ?pid] by (simp add: wf_state_doubles)
  next
    case 2
    then show ?thesis by (rule drawAndApplyCard_wf [OF assms(1,2)])
  next
    case 3
    then show ?thesis using assms(1) by simp
  next
    case 4
    then show ?thesis by (rule payTax_wf [OF assms(1) active])
  next
    case 5
    then show ?thesis by (rule payRent_wf [OF assms(1) active])
  qed
qed

lemma rollAndMoveIgnoringJail_wf:
  assumes wf: "wf_state s" "calm s" and dice: "0 \<le> fst dice + snd dice"
    and roll: "rollAndMoveIgnoringJail s (currentTurnRoomPlayerId s) dice suppress = Inr (s', evs)"
  shows "wf_state s'"
proof (cases "suppress \<or> \<not> isThirdConsecutiveDoubles s dice")
  case True
  let ?pid = "currentTurnRoomPlayerId s" and ?d = "doublesAfter suppress s dice"
  obtain p where p: "findBy roomPlayerId ?pid (players s) = Some p"
    using calm_current [OF wf] by (auto dest!: active_in_ids ids_findPlayer)
  obtain tile evs0 where "resolveLanding (movedTo ?d ?pid dice tile) ?pid dice (landingOn s tile) evs0 = Inr (s', evs)"
    by (rule rollAndMoveIgnoringJail_walk [OF wf(1) p dice True]) (use roll in auto)
  moreover have "wf_state (movedTo ?d ?pid dice tile)" "calm (movedTo ?d ?pid dice tile)"
    using movedTo_wf [OF doublesAfter_wf [OF wf(1) True] _ dice] wf(2) by simp_all
  moreover have "currentTurnRoomPlayerId (movedTo ?d ?pid dice tile) = ?pid" by (simp add: movedTo_def Let_def)
  ultimately show ?thesis by (metis resolveLanding_wf)
next
  case False
  let ?pid = "currentTurnRoomPlayerId s"
  have same: "sendPlayerToJail (applyDoublesState s dice) ?pid = sendPlayerToJail s ?pid"
    by (simp add: sendPlayerToJail_def applyDoublesState_def Let_def modifyPlayer_def)
  show ?thesis
    using roll False sendPlayerToJail_wf [OF wf, of ?pid]
    by (auto simp: rollAndMoveIgnoringJail_def same wf_state_doubles split: prod.splits)
qed

lemma jailTurnCount_wf: "wf_state s \<Longrightarrow> 0 \<le> n \<Longrightarrow> wf_state (modifyPlayer pid (\<lambda>c. c\<lparr>jailTurnCount := n\<rparr>) s)"
  by (rule wf_modifyPlayer) auto

lemma debitPlayerOrCreateDebt_paid:
  "debitPlayerOrCreateDebt s pid a r c = Inr (s', evs, True) \<Longrightarrow> debitPlayer s pid a = Inr s'"
  by (auto simp: debitPlayerOrCreateDebt_def split: if_splits)

lemma resolveJailedRoll_wf:
  assumes wf: "wf_state s" "calm s" "pendingTileKey s = None"
    and roll: "resolveJailedRoll s (currentTurnRoomPlayerId s) dice
      (\<lambda>t. rollAndMoveIgnoringJail t (currentTurnRoomPlayerId s) dice True) = Inr (Some (s', evs))"
    and dice: "0 \<le> fst dice + snd dice"
  shows "wf_state s'"
proof -
  let ?pid = "currentTurnRoomPlayerId s"
  let ?cb = "\<lambda>t. rollAndMoveIgnoringJail t ?pid dice True"
  from roll obtain p where p: "findBy roomPlayerId ?pid (players s) = Some p" "inJail p"
    by (auto simp: resolveJailedRoll_def split: if_splits)
  let ?n = "jailTurnCount p + 1"
  have n: "0 \<le> ?n" using wf_position(4) [OF wf(1) p(1)] by simp
  have moved: "wf_state (t'\<lparr>consecutiveDoublesCount := 0, shouldCurrentPlayerPlayAgain := False\<rparr>)"
    if "?cb t = Inr (t', evs')" "wf_state t" "calm t" "currentTurnRoomPlayerId t = ?pid" for t t' evs'
  proof -
    have "rollAndMoveIgnoringJail t (currentTurnRoomPlayerId t) dice True = Inr (t', evs')"
      using that by simp
    then have "wf_state t'" by (rule rollAndMoveIgnoringJail_wf [OF that(2,3) dice])
    then show ?thesis by (simp add: wf_state_doubles)
  qed
  consider "isDoubles dice" | "\<not> isDoubles dice" "3 \<le> ?n" | "\<not> isDoubles dice" "\<not> 3 \<le> ?n" by blast
  then show ?thesis
  proof cases
    case 1
    with roll p obtain t' evs' where "?cb ((releasePlayerFromJail s ?pid)
        \<lparr>consecutiveDoublesCount := 0, shouldCurrentPlayerPlayAgain := False\<rparr>) = Inr (t', evs')"
      "s' = t'\<lparr>consecutiveDoublesCount := 0, shouldCurrentPlayerPlayAgain := False\<rparr>"
      by (auto simp: resolveJailedRoll_def)
    then show ?thesis
      using moved wf by (auto simp: calm_def wf_state_doubles releasePlayerFromJail_wf)
  next
    case 2
    with roll p obtain t evs1 paid where t: "debitPlayerOrCreateDebt s ?pid 50 Jail_fine None = Inr (t, evs1, paid)"
      and rest: "if paid then \<exists>t' evs'. ?cb (releasePlayerFromJail
            (modifyPlayer ?pid (\<lambda>c. c\<lparr>jailTurnCount := ?n\<rparr>) t) ?pid) = Inr (t', evs') \<and>
            s' = t'\<lparr>consecutiveDoublesCount := 0, shouldCurrentPlayerPlayAgain := False\<rparr>
          else s' = (modifyPlayer ?pid (\<lambda>c. c\<lparr>jailTurnCount := ?n\<rparr>) t)\<lparr>lastDiceRoll := Some dice\<rparr>"
      by (auto simp: resolveJailedRoll_def Let_def MAX_JAIL_TURN_COUNT_def JAIL_FINE_AMOUNT_def split: if_splits)
    have twf: "wf_state t" by (rule debitPlayerOrCreateDebt_wf [OF wf(1) calm_not_terminal [OF wf(2)] t])
    show ?thesis
    proof (cases paid)
      case True
      then have "debitPlayer s ?pid 50 = Inr t" using t by (auto dest: debitPlayerOrCreateDebt_paid)
      with rest True show ?thesis
        using moved wf(2) twf n
        by (auto simp: calm_def releasePlayerFromJail_wf jailTurnCount_wf debitPlayer_frame)
    next
      case False
      with rest show ?thesis using twf n by (simp add: jailTurnCount_wf)
    qed
  next
    case 3
    let ?m = "modifyPlayer ?pid (\<lambda>c. c\<lparr>jailTurnCount := ?n\<rparr>) s"
    have "wf_state ?m" "calm ?m" using jailTurnCount_wf [OF wf(1) n] wf(2) by (simp_all add: calm_def)
    then have "wf_state (?m\<lparr>phase := Awaiting_turn_end, pendingTileKey := None\<rparr>)" by (rule wf_turn_end)
    moreover have "?m\<lparr>phase := Awaiting_turn_end, pendingTileKey := None\<rparr> = ?m\<lparr>phase := Awaiting_turn_end\<rparr>"
      using wf(3) by (simp add: modifyPlayer_def)
    ultimately have "wf_state (?m\<lparr>phase := Awaiting_turn_end\<rparr>)" by metis
    with 3 roll p show ?thesis
      by (auto simp: resolveJailedRoll_def Let_def MAX_JAIL_TURN_COUNT_def wf_state_doubles)
  qed
qed

lemma rollAndMove_wf:
  assumes wf: "wf_state s" "calm s" "pendingTileKey s = None" and dice: "0 \<le> fst dice + snd dice"
    and roll: "rollAndMove s (currentTurnRoomPlayerId s) dice = Inr (s', evs)"
  shows "wf_state s'"
proof -
  from roll obtain r where r: "resolveJailedRoll s (currentTurnRoomPlayerId s) dice
      (\<lambda>t. rollAndMoveIgnoringJail t (currentTurnRoomPlayerId s) dice True) = Inr r"
    and rest: "case r of Some res \<Rightarrow> res = (s', evs)
      | None \<Rightarrow> rollAndMoveIgnoringJail s (currentTurnRoomPlayerId s) dice False = Inr (s', evs)"
    by (auto simp: rollAndMove_def split: option.splits)
  show ?thesis
  proof (cases r)
    case None
    then show ?thesis using rest rollAndMoveIgnoringJail_wf [OF wf(1,2) dice] by auto
  next
    case (Some res)
    then show ?thesis using r rest resolveJailedRoll_wf [OF wf _ dice] by auto
  qed
qed

end
