(* ===== verification/Game_Settlement.thy ===== *)
theory Game_Settlement
  imports Game_Movement
begin

text \<open>
  How debts and games end: derived values (\<^verbatim>\<open>game-engine-derived-state.ts\<close>), paying a debt
  (\<^verbatim>\<open>game-engine-debt.ts\<close>), bankruptcy (\<^verbatim>\<open>game-engine-bankruptcy.ts\<close>), automatic debt resolution
  (\<^verbatim>\<open>game-engine-auto-debt.ts\<close>) and the end of a game by time or by the last human leaving
  (\<^verbatim>\<open>game-engine-finish.ts\<close>).
\<close>

section \<open>Derived values\<close>

definition getPlayerByRoomPlayerId ::
  "GameEngineState \<Rightarrow> string \<Rightarrow> GameEngineError + GameEnginePlayer" where
  "getPlayerByRoomPlayerId s pid =
     ofOption (EngineError PLAYER_NOT_FOUND) (findBy roomPlayerId pid (players s))"

definition getPropertyByTileKey ::
  "GameEngineState \<Rightarrow> string \<Rightarrow> GameEngineError + GameEngineProperty" where
  "getPropertyByTileKey s key = ofOption (EngineError TILE_NOT_OWNABLE) (findProperty s key)"

definition getTileOwnerRoomPlayerId :: "GameEngineState \<Rightarrow> string \<Rightarrow> GameEngineError + string option" where
  "getTileOwnerRoomPlayerId s key =
     andThen (getPropertyByTileKey s key) (\<lambda>p. Inr (ownerRoomPlayerId p))"

definition getOwnedProperties ::
  "GameEngineState \<Rightarrow> string \<Rightarrow> GameEngineError + GameEngineProperty list" where
  "getOwnedProperties s pid =
     andThen (getPlayerByRoomPlayerId s pid) (\<lambda>_.
     Inr (filter (\<lambda>p. ownerRoomPlayerId p = Some pid) (properties s)))"

definition isGameTerminal :: "GameEngineState \<Rightarrow> bool" where
  "isGameTerminal s \<longleftrightarrow> phase s = Finished \<or> phase s = Cancelled"

definition canPlayerAct :: "GameEngineState \<Rightarrow> string \<Rightarrow> GameEngineError + bool" where
  "canPlayerAct s pid =
     (if isGameTerminal s then Inr False
      else andThen (getPlayerByRoomPlayerId s pid) (\<lambda>player.
           Inr (\<not> bankrupt player \<and> currentTurnRoomPlayerId s = roomPlayerId player)))"

definition getAssetTileByKey :: "GameBoard \<Rightarrow> string \<Rightarrow> GameEngineError + GameTile" where
  "getAssetTileByKey board key =
     (case findTile board key of
        None \<Rightarrow> Inl (EngineError TILE_NOT_OWNABLE)
      | Some tile \<Rightarrow> if \<not> isRentableTile tile then Inl (EngineError TILE_NOT_OWNABLE) else Inr tile)"

definition calculateAssetNetWorth :: "GameTile \<Rightarrow> GameEngineProperty \<Rightarrow> int" where
  "calculateAssetNetWorth tile prop =
     (let buildingValue =
            (if kind tile = Kind_property
             then (int (houseCount prop) + (if hasHotel prop then 5 else 0)) * (houseCost tile div 2)
             else 0);
          mortgagePenalty = (if mortgaged prop then mortgageValue tile else 0)
      in price tile + buildingValue - mortgagePenalty)"

definition calculatePlayerNetWorth ::
  "GameEngineState \<Rightarrow> GameBoard \<Rightarrow> GameEnginePlayer \<Rightarrow> GameEngineError + PlayerNetWorth" where
  "calculatePlayerNetWorth s board player =
     andThen (getOwnedProperties s (roomPlayerId player)) (\<lambda>ownedProperties.
     andThen (foldM (\<lambda>total prop.
                andThen (getAssetTileByKey board (tileKey prop)) (\<lambda>tile.
                Inr (total + calculateAssetNetWorth tile prop))) 0 ownedProperties) (\<lambda>assets.
     Inr \<lparr>worth_roomPlayerId = roomPlayerId player, worth_seatNumber = seatNumber player,
          worth_cash = cash player, ownedPropertyCount = int (length ownedProperties),
          assetValue = assets, netWorth = cash player + assets\<rparr>))"

text \<open>The comparator orders by net worth, cash and property count, all descending, then by seat.\<close>

definition standingOrder :: "PlayerNetWorth \<Rightarrow> int \<times> int \<times> int \<times> int" where
  "standingOrder w = (- netWorth w, - worth_cash w, - ownedPropertyCount w, worth_seatNumber w)"

definition calculateNetWorthStandings ::
  "GameEngineState \<Rightarrow> GameEngineError + PlayerNetWorth list" where
  "calculateNetWorthStandings s =
     andThen (mapM (calculatePlayerNetWorth s (getGameBoard (boardKey s))) (getActivePlayers s))
       (\<lambda>worths. Inr (sort_key standingOrder worths))"

definition getNetWorthWinner :: "PlayerNetWorth list \<Rightarrow> PlayerNetWorth option" where
  "getNetWorthWinner standings = jsNth standings 0"

definition getNetWorthWinners :: "PlayerNetWorth list \<Rightarrow> PlayerNetWorth list" where
  "getNetWorthWinners standings =
     (case standings of
        [] \<Rightarrow> []
      | best # _ \<Rightarrow> filter (\<lambda>w. netWorth w = netWorth best) standings)"

section \<open>Paying a debt\<close>

definition payDebt :: "GameEngineState \<Rightarrow> string \<Rightarrow> GameEngineError + GameEngineResult" where
  "payDebt s pid =
     andThen (raiseIf (phase s \<noteq> Awaiting_debt_resolution \<or> debt s = None) (EngineError NO_ACTIVE_DEBT)) (\<lambda>_.
     let d = the (debt s) in
     andThen (raiseIf (debt_roomPlayerId d \<noteq> pid) (EngineError DEBT_RESOLUTION_REQUIRED)) (\<lambda>_.
     andThen (if truthy (creditorRoomPlayerId d)
              then transferPlayerCash s pid (the (creditorRoomPlayerId d)) (debt_amount d)
              else debitPlayer s pid (debt_amount d)) (\<lambda>paidState.
     let releasedFromJail = (debt_reason d = Jail_fine);
         nextState = (if releasedFromJail then releasePlayerFromJail paidState pid else paidState) in
     Inr (nextState\<lparr>phase := Awaiting_turn_end, debt := None, pendingTileKey := None,
                     auction := None, shouldCurrentPlayerPlayAgain := False\<rparr>,
          Debt_paid pid (creditorRoomPlayerId d) (debt_amount d) (debt_reason d) #
          (if releasedFromJail then [Player_released_from_jail pid] else [])))))"

section \<open>Bankruptcy\<close>

definition assertValidCreditor ::
  "GameEngineState \<Rightarrow> string \<Rightarrow> string \<Rightarrow> GameEngineError + unit" where
  "assertValidCreditor s pid creditorId =
     andThen (findPlayer s creditorId) (\<lambda>creditor.
     andThen (raiseIf (bankrupt creditor) (EngineError INVALID_BANKRUPTCY_CREDITOR)) (\<lambda>_.
     raiseIf (roomPlayerId creditor = pid) (EngineError INVALID_BANKRUPTCY_CREDITOR)))"

definition liquidateProperty ::
  "string \<Rightarrow> string option \<Rightarrow> GameEngineProperty \<Rightarrow> GameEngineProperty" where
  "liquidateProperty pid creditorId prop =
     (if ownerRoomPlayerId prop \<noteq> Some pid then prop
      else prop\<lparr>ownerRoomPlayerId := creditorId, houseCount := 0, hasHotel := False,
                 mortgaged := False\<rparr>)"

definition heldJailCardKeys :: "GameEnginePlayer \<Rightarrow> string list" where
  "heldJailCardKeys p =
     (case getOutOfJailFreeCardKeys p of
        Some (k # ks) \<Rightarrow> k # ks
      | _ \<Rightarrow> replicate (nat (getOutOfJailFreeCards p)) ''chance_get_out_of_jail_free'')"

definition liquidatePlayerAssets ::
  "GameEngineState \<Rightarrow> string \<Rightarrow> string option \<Rightarrow> GameEngineError + GameEngineState" where
  "liquidatePlayerAssets s pid creditorId =
     andThen (findPlayer s pid) (\<lambda>bankruptPlayer.
     andThen (foldM (\<lambda>currentState cardKey. returnGetOutOfJailCardToDeck currentState (Some cardKey))
               s (heldJailCardKeys bankruptPlayer)) (\<lambda>returned.
     Inr ((modifyPlayer pid (\<lambda>p. p\<lparr>cash := 0, inJail := False, jailTurnCount := 0,
                                  getOutOfJailFreeCards := 0, getOutOfJailFreeCardKeys := Some [],
                                  bankrupt := True\<rparr>) returned)
            \<lparr>properties := map (liquidateProperty pid creditorId) (properties returned),
             debt := (if map_option debt_roomPlayerId (debt returned) = Some pid then None
                      else debt returned)\<rparr>)))"

definition findNextActivePlayerAfterBankruptcy ::
  "GameEngineState \<Rightarrow> GameEnginePlayer \<Rightarrow> GameEngineError + GameEnginePlayer" where
  "findNextActivePlayerAfterBankruptcy s bankruptPlayer =
     (let activePlayers = getActivePlayers s in
      case find (\<lambda>p. seatNumber p > seatNumber bankruptPlayer) activePlayers of
        Some p \<Rightarrow> Inr p
      | None \<Rightarrow> ofOption UndefinedRead (jsNth activePlayers 0))"

definition hasNoActiveHumanPlayers :: "GameEnginePlayer list \<Rightarrow> bool" where
  "hasNoActiveHumanPlayers ps \<longleftrightarrow> \<not> list_ex (\<lambda>p. playerType p = Human) ps"

definition declareBankruptcy ::
  "GameEngineState \<Rightarrow> string \<Rightarrow> string option \<Rightarrow> GameEngineError + GameEngineResult" where
  "declareBankruptcy s pid inputCreditor =
     andThen (raiseIf (phase s = Finished \<or> phase s = Cancelled) (EngineError GAME_NOT_ACTIVE)) (\<lambda>_.
     andThen (findPlayer s pid) (\<lambda>bankruptPlayer.
     andThen (raiseIf (bankrupt bankruptPlayer) (EngineError PLAYER_ALREADY_BANKRUPT)) (\<lambda>_.
     let creditorId =
       (case inputCreditor of
          Some c \<Rightarrow> Some c
        | None \<Rightarrow> (case debt s of
                     Some d \<Rightarrow> if debt_roomPlayerId d = pid then creditorRoomPlayerId d else None
                   | None \<Rightarrow> None)) in
     andThen (if truthy creditorId then assertValidCreditor s pid (the creditorId) else Inr ()) (\<lambda>_.
     andThen (liquidatePlayerAssets s pid creditorId) (\<lambda>liquidated.
     let activeAfter = getActivePlayers liquidated in
     if length activeAfter \<le> 1 \<or> hasNoActiveHumanPlayers activeAfter then
       andThen (calculateNetWorthStandings liquidated) (\<lambda>standings.
       let winners = getNetWorthWinners standings in
       Inr (liquidated\<lparr>phase := Finished,
                       currentTurnRoomPlayerId :=
                         (case jsNth activeAfter 0 of
                            Some p \<Rightarrow> roomPlayerId p | None \<Rightarrow> currentTurnRoomPlayerId liquidated),
                       shouldCurrentPlayerPlayAgain := False, consecutiveDoublesCount := 0,
                       auction := None, tradeOffer := None, debt := None, pendingTileKey := None\<rparr>,
            [Player_bankrupt pid creditorId,
             Game_finished_by_bankruptcy
               (case winners of [w] \<Rightarrow> Some (worth_roomPlayerId w) | _ \<Rightarrow> None)
               (map worth_roomPlayerId winners) standings]))
     else if currentTurnRoomPlayerId s \<noteq> pid then
       Inr (liquidated, [Player_bankrupt pid creditorId])
     else
       andThen (findNextActivePlayerAfterBankruptcy liquidated bankruptPlayer) (\<lambda>nextPlayer.
       let nextTurnNumber = turnNumber liquidated + 1 in
       Inr (liquidated\<lparr>phase := Awaiting_roll,
                       currentTurnRoomPlayerId := roomPlayerId nextPlayer,
                       turnNumber := nextTurnNumber, shouldCurrentPlayerPlayAgain := False,
                       consecutiveDoublesCount := 0, lastDiceRoll := None, auction := None,
                       pendingTileKey := None\<rparr>,
            [Player_bankrupt pid creditorId,
             Turn_ended pid (roomPlayerId nextPlayer) nextTurnNumber])))))))"

section \<open>Automatic debt resolution\<close>

definition assertActiveDebt :: "GameEngineState \<Rightarrow> string \<Rightarrow> GameEngineError + unit" where
  "assertActiveDebt s pid =
     raiseIf (phase s \<noteq> Awaiting_debt_resolution \<or> map_option debt_roomPlayerId (debt s) \<noteq> Some pid)
       (EngineError DEBT_RESOLUTION_REQUIRED)"

definition canPayDebt :: "GameEngineState \<Rightarrow> string \<Rightarrow> GameEngineError + bool" where
  "canPayDebt s pid =
     andThen (findPlayer s pid) (\<lambda>player.
     Inr (case debt s of None \<Rightarrow> False | Some d \<Rightarrow> cash player \<ge> debt_amount d))"

text \<open>Hotels before houses, more houses before fewer; the sort is stable.\<close>

definition findBuildingToSell :: "GameEngineState \<Rightarrow> string \<Rightarrow> GameEngineProperty option" where
  "findBuildingToSell s pid =
     jsNth (sort_key (\<lambda>p. (\<not> hasHotel p, - int (houseCount p)))
       (filter (\<lambda>p. ownerRoomPlayerId p = Some pid \<and> (hasHotel p \<or> houseCount p > 0))
         (properties s))) 0"

definition canMortgageTile :: "GameEngineState \<Rightarrow> GameBoard \<Rightarrow> GameTile \<Rightarrow> bool" where
  "canMortgageTile s board tile =
     (if kind tile = Kind_airport \<or> kind tile = Kind_utility then True
      else if kind tile \<noteq> Kind_property then False
      else let setTileKeys = map tile_key (setTilesOf board (setKey tile)) in
        list_all (\<lambda>p. \<not> hasHotel p \<and> houseCount p = 0)
          (filter (\<lambda>p. tileKey p \<in> set setTileKeys) (properties s)))"

definition findPropertyToMortgage :: "GameEngineState \<Rightarrow> string \<Rightarrow> GameEngineProperty option" where
  "findPropertyToMortgage s pid =
     (let board = getGameBoard (boardKey s) in
      find (\<lambda>p. if ownerRoomPlayerId p \<noteq> Some pid \<or> mortgaged p \<or> hasHotel p \<or> houseCount p > 0
                 then False
                 else (case findTile board (tileKey p) of
                         None \<Rightarrow> False | Some tile \<Rightarrow> canMortgageTile s board tile))
        (properties s))"

text \<open>
  The \<^verbatim>\<open>while\<close> loop, with fuel: one unit per sale or mortgage, \<^term>\<open>Diverges\<close> when it runs out.
  \<open>resolutionFuel\<close> counts the building levels and the unmortgaged properties on the board plus
  one, and \<open>autoResolve_enough_fuel\<close> shows that it suffices.
\<close>

fun autoResolveLoop ::
  "nat \<Rightarrow> GameEngineState \<Rightarrow> string \<Rightarrow> GameEngineEvent list \<Rightarrow> GameEngineError + GameEngineResult" where
  "autoResolveLoop 0 s pid evs = Inl Diverges"
| "autoResolveLoop (Suc fuel) s pid evs =
     andThen (canPayDebt s pid) (\<lambda>payable.
     if payable then Inr (s, evs)
     else case findBuildingToSell s pid of
       Some building \<Rightarrow>
         andThen (sellBuilding s pid (tileKey building)) (\<lambda>(s', evs').
         autoResolveLoop fuel s' pid (evs @ evs'))
     | None \<Rightarrow>
         (case findPropertyToMortgage s pid of
            Some prop \<Rightarrow>
              andThen (mortgageProperty s pid (tileKey prop)) (\<lambda>(s', evs').
              autoResolveLoop fuel s' pid (evs @ evs'))
          | None \<Rightarrow> Inr (s, evs)))"

definition propertyResources :: "GameEngineProperty \<Rightarrow> nat" where
  "propertyResources p =
     houseCount p + (if hasHotel p then 5 else 0) + (if mortgaged p then 0 else 1)"

definition resolutionFuel :: "GameEngineState \<Rightarrow> nat" where
  "resolutionFuel s = Suc (\<Sum>p\<leftarrow>properties s. propertyResources p)"

definition autoResolveDebt :: "GameEngineState \<Rightarrow> string \<Rightarrow> GameEngineError + GameEngineResult" where
  "autoResolveDebt s pid =
     andThen (assertActiveDebt s pid) (\<lambda>_.
     andThen (autoResolveLoop (resolutionFuel s) s pid []) (\<lambda>(nextState, evs).
     andThen (canPayDebt nextState pid) (\<lambda>payable.
     if payable then
       andThen (payDebt nextState pid) (\<lambda>(s', evs'). Inr (s', evs @ evs'))
     else
       andThen (declareBankruptcy nextState pid
                  (case debt nextState of None \<Rightarrow> None | Some d \<Rightarrow> creditorRoomPlayerId d))
         (\<lambda>(s', evs'). Inr (s', evs @ evs')))))"

section \<open>The end of the game\<close>

definition assertCanFinishByTime :: "GameEngineState \<Rightarrow> int \<Rightarrow> GameEngineError + unit" where
  "assertCanFinishByTime s finishedAt =
     andThen (raiseIf (phase s = Finished \<or> phase s = Cancelled) (EngineError GAME_NOT_ACTIVE)) (\<lambda>_.
     andThen (raiseIf (finishedAt \<le> 0) (EngineError INVALID_FINISH_TIME)) (\<lambda>_.
     raiseIf (truthyNum (expiresAt s) \<and> finishedAt < the (expiresAt s))
       (EngineError GAME_TIME_NOT_EXPIRED)))"

definition assertCanFinishAfterLastHumanLeft :: "GameEngineState \<Rightarrow> int \<Rightarrow> GameEngineError + unit" where
  "assertCanFinishAfterLastHumanLeft s finishedAt =
     andThen (raiseIf (phase s = Finished \<or> phase s = Cancelled) (EngineError GAME_NOT_ACTIVE)) (\<lambda>_.
     raiseIf (finishedAt \<le> 0) (EngineError INVALID_FINISH_TIME))"

definition finishedState :: "GameEngineState \<Rightarrow> GameEngineState" where
  "finishedState s =
     s\<lparr>phase := Finished, shouldCurrentPlayerPlayAgain := False, consecutiveDoublesCount := 0,
       auction := None, pendingTileKey := None, tradeOffer := None, debt := None\<rparr>"

definition finishGameByTime :: "GameEngineState \<Rightarrow> int \<Rightarrow> GameEngineError + GameEngineResult" where
  "finishGameByTime s finishedAt =
     andThen (assertCanFinishByTime s finishedAt) (\<lambda>_.
     andThen (calculateNetWorthStandings s) (\<lambda>standings.
     Inr (finishedState s,
          [Game_finished_by_time finishedAt
             (map_option worth_roomPlayerId (getNetWorthWinner standings))
             (map worth_roomPlayerId (getNetWorthWinners standings)) standings])))"

definition finishGameAfterLastHumanLeft ::
  "GameEngineState \<Rightarrow> int \<Rightarrow> GameEngineError + GameEngineResult" where
  "finishGameAfterLastHumanLeft s finishedAt =
     andThen (assertCanFinishAfterLastHumanLeft s finishedAt) (\<lambda>_.
     andThen (calculateNetWorthStandings s) (\<lambda>standings.
     Inr (finishedState s,
          [Game_finished_after_last_human_left finishedAt
             (map_option worth_roomPlayerId (getNetWorthWinner standings))
             (map worth_roomPlayerId (getNetWorthWinners standings)) standings])))"

section \<open>Well-formedness is kept\<close>

lemma payDebt_wf:
  assumes wf: "wf_state s" and pay: "payDebt s pid = Inr (s', evs)"
  shows "wf_state s'"
proof -
  from pay obtain d where phase: "phase s = Awaiting_debt_resolution" and d: "debt s = Some d"
    by (auto simp: payDebt_def)
  from pay obtain t where
    t: "(if truthy (creditorRoomPlayerId d)
         then transferPlayerCash s pid (the (creditorRoomPlayerId d)) (debt_amount d)
         else debitPlayer s pid (debt_amount d)) = Inr t"
    and s': "s' = (if debt_reason d = Jail_fine then releasePlayerFromJail t pid else t)
      \<lparr>phase := Awaiting_turn_end, debt := None, pendingTileKey := None, auction := None,
       shouldCurrentPlayerPlayAgain := False\<rparr>"
    by (auto simp: payDebt_def Let_def d split del: if_split)
  have "auction s = None" using wf phase by (auto simp: wf_state_def phaseOk_def)
  then have "wf_state t \<and> phase t = phase s"
    using t transferPlayerCash_wf [OF wf] debitPlayer_wf [OF wf]
    by (auto simp: transferPlayerCash_frame debitPlayer_frame split: if_splits)
  then show ?thesis
    using releasePlayerFromJail_wf [of t pid] phase
    by (auto simp: s' wf_state_def coreOk_def phaseOk_def)
qed

lemma heldJailCardKeys_eq: "playerOk p \<Longrightarrow> heldJailCardKeys p = heldKeys p"
  by (auto simp: heldJailCardKeys_def playerOk_def heldKeys_def split: option.splits list.splits)

definition creditorOk :: "GameEngineState \<Rightarrow> string \<Rightarrow> string option \<Rightarrow> bool" where
  "creditorOk s pid c \<longleftrightarrow> (truthy c \<longrightarrow> the c \<in> activeIds (players s) \<and> the c \<noteq> pid)"

definition ruin :: "GameEnginePlayer \<Rightarrow> GameEnginePlayer" where
  "ruin p = p\<lparr>cash := 0, inJail := False, jailTurnCount := 0, getOutOfJailFreeCards := 0,
              getOutOfJailFreeCardKeys := Some [], bankrupt := True\<rparr>"

lemma activeIds_ruin:
  "activeIds (updateBy roomPlayerId pid ruin ps) = activeIds ps - {pid}"
proof (induction ps)
  case (Cons p ps)
  then show ?case by (auto simp: activeIds_def ruin_def)
qed (simp add: activeIds_def)

lemma propertiesOk_liquidate:
  assumes ok: "propertiesOk (activeIds (players s)) qs" and creditor: "creditorOk s pid c"
    and pid: "pid \<noteq> []"
  shows "propertiesOk (activeIds (players s) - {pid}) (map (liquidateProperty pid c) qs)"
    "unownedKeys qs \<subseteq> unownedKeys (map (liquidateProperty pid c) qs)"
proof -
  have keys: "tileKey (liquidateProperty pid c q) = tileKey q" for q
    by (simp add: liquidateProperty_def)
  have "map tileKey (map (liquidateProperty pid c) qs) = map tileKey qs" by (simp add: keys)
  moreover have "propertyOk (activeIds (players s) - {pid}) (liquidateProperty pid c q)"
    if "q \<in> set qs" for q
  proof -
    have "propertyOk (activeIds (players s)) q" using ok that by (auto simp: propertiesOk_def list_all_iff)
    then show ?thesis
      using creditor pid
      by (cases "ownerRoomPlayerId q") (auto simp: liquidateProperty_def propertyOk_def built_def creditorOk_def)
  qed
  ultimately show "propertiesOk (activeIds (players s) - {pid}) (map (liquidateProperty pid c) qs)"
    using ok unfolding propertiesOk_def by (simp only: list_all_iff) auto
  show "unownedKeys qs \<subseteq> unownedKeys (map (liquidateProperty pid c) qs)"
    using pid keys by (force simp: unownedKeys_def liquidateProperty_def)
qed

lemma liquidatePlayerAssets_Inr:
  assumes wf: "wf_state s" and p: "findBy roomPlayerId pid (players s) = Some p"
  obtains d where "cardsOk d (heldCards (updateBy roomPlayerId pid ruin (players s)))"
    "liquidatePlayerAssets s pid c = Inr (s\<lparr>decks := d,
       players := updateBy roomPlayerId pid ruin (players s),
       properties := map (liquidateProperty pid c) (properties s),
       debt := (if map_option debt_roomPlayerId (debt s) = Some pid then None else debt s)\<rparr>)"
proof -
  have pok: "playerOk p" by (rule playersOk_found [OF wf_stateD(3) [OF wf] p])
  have hand: "heldJailCardKeys p = heldKeys p" by (rule heldJailCardKeys_eq [OF pok])
  note found = heldCards_updateBy_found [OF playersOk_distinct [OF wf_stateD(3) [OF wf]] p, of ruin]
  have left: "heldCards (players s) = heldCards (updateBy roomPlayerId pid ruin (players s)) + mset (heldKeys p)"
    using found by (simp add: ruin_def)
  then have "mset (heldKeys p) \<subseteq># heldCards (players s)" by simp
  then obtain t where t: "foldM (\<lambda>t k. returnGetOutOfJailCardToDeck t (Some k)) s (heldKeys p) = Inr t"
    "t = s\<lparr>decks := decks t\<rparr>" "cardsOk (decks t) (heldCards (players s) - mset (heldKeys p))"
    by (rule returnHand_cardsOk [OF wf_stateD(5) [OF wf]])
  have frames: "players t = players s" "properties t = properties s" "debt t = debt s"
    by (subst t(2); simp)+
  have "liquidatePlayerAssets s pid c = Inr ((modifyPlayer pid ruin t)
      \<lparr>properties := map (liquidateProperty pid c) (properties t),
       debt := (if map_option debt_roomPlayerId (debt t) = Some pid then None else debt t)\<rparr>)"
    using p t(1) by (simp add: liquidatePlayerAssets_def findPlayer_def hand ruin_def [abs_def])
  also have "\<dots> = Inr (s\<lparr>decks := decks t, players := updateBy roomPlayerId pid ruin (players s),
      properties := map (liquidateProperty pid c) (properties s),
      debt := (if map_option debt_roomPlayerId (debt s) = Some pid then None else debt s)\<rparr>)"
    unfolding frames modifyPlayer_def by (subst t(2)) simp
  finally show thesis using that [of "decks t"] t(3) left by simp
qed

text \<open>The state \<^verbatim>\<open>liquidatePlayerAssets\<close> leaves, before the turn is passed on.\<close>

definition liquidated :: "string \<Rightarrow> string option \<Rightarrow> GameEngineState \<Rightarrow> GameEngineState \<Rightarrow> bool" where
  "liquidated pid c s t \<longleftrightarrow>
     (\<exists>d. cardsOk d (heldCards (updateBy roomPlayerId pid ruin (players s))) \<and>
      t = s\<lparr>decks := d, players := updateBy roomPlayerId pid ruin (players s),
            properties := map (liquidateProperty pid c) (properties s),
            debt := (if map_option debt_roomPlayerId (debt s) = Some pid then None else debt s)\<rparr>)"

lemma liquidated_frame:
  assumes "liquidated pid c s t"
  shows "phase t = phase s" "auction t = auction s" "pendingTileKey t = pendingTileKey s"
    "tradeOffer t = tradeOffer s" "currentTurnRoomPlayerId t = currentTurnRoomPlayerId s"
    "consecutiveDoublesCount t = consecutiveDoublesCount s" "turnNumber t = turnNumber s"
    "players t = updateBy roomPlayerId pid ruin (players s)" "boardKey t = boardKey s"
    "properties t = map (liquidateProperty pid c) (properties s)"
    "debt t = (if map_option debt_roomPlayerId (debt s) = Some pid then None else debt s)"
    "playerIds t = playerIds s"
  using assms by (auto simp: liquidated_def playerIds_def ruin_def)

lemma liquidated_parts:
  assumes wf: "wf_state s" and pid: "pid \<in> set (playerIds s)" and creditor: "creditorOk s pid c"
    and t: "liquidated pid c s t"
  shows "playersOk (players t)" "activeIds (players t) = activeIds (players s) - {pid}"
    "propertiesOk (activeIds (players t)) (properties t)" "cardsOk (decks t) (heldCards (players t))"
    "unownedKeys (properties s) \<subseteq> unownedKeys (properties t)"
proof -
  have nonempty: "pid \<noteq> []"
    using pid playersOk_nonempty_id [OF wf_stateD(3) [OF wf]] unfolding playerIds_def by metis
  show "playersOk (players t)"
    unfolding liquidated_frame [OF t]
    by (rule playersOk_updateBy [OF wf_stateD(3) [OF wf]]) (auto simp: ruin_def playerOk_def)
  show act: "activeIds (players t) = activeIds (players s) - {pid}"
    by (simp add: liquidated_frame [OF t] activeIds_ruin)
  show "propertiesOk (activeIds (players t)) (properties t)"
    "unownedKeys (properties s) \<subseteq> unownedKeys (properties t)"
    unfolding act liquidated_frame(10) [OF t]
    using propertiesOk_liquidate [OF wf_stateD(4) [OF wf] creditor nonempty] by auto
  show "cardsOk (decks t) (heldCards (players t))"
    using t by (auto simp: liquidated_def)
qed

lemma auctionOk_mono: "auctionOk ids A a \<Longrightarrow> A \<subseteq> B \<Longrightarrow> auctionOk ids B a"
  by (auto simp: auctionOk_def)

text \<open>A bankruptcy out of turn leaves the phase as it is.\<close>

lemma liquidated_wf:
  assumes wf: "wf_state s" and pid: "pid \<in> set (playerIds s)" and creditor: "creditorOk s pid c"
    and t: "liquidated pid c s t" and other: "currentTurnRoomPlayerId s \<noteq> pid" "\<not> terminal (phase s)"
  shows "wf_state t"
proof
  note f = liquidated_frame [OF t] and parts = liquidated_parts [OF wf pid creditor t]
  show "coreOk t"
    using parts wf other by (auto simp: coreOk_def f(1,5,6) wf_state_def)
  have debt: "debt t = debt s"
    using wf other by (cases "debt s") (auto simp: f(11) wf_state_def phaseOk_def debtOk_def)
  have "bankruptBiddersBroke (players t) a" if "bankruptBiddersBroke (players s) a" for a
    using that by (auto simp: f(8) bankruptBiddersBroke_def list_all_iff ruin_def elim!: updateByE)
  then show "phaseOk t"
    using wf auctionOk_mono [OF _ parts(5)] parts(5)
    by (cases "auction s"; cases "pendingTileKey s")
      (auto simp: phaseOk_def f(1-5,12) debt wf_state_def)
qed

lemma assertValidCreditor_creditorOk:
  assumes "wf_state s" "(if truthy c then assertValidCreditor s pid (the c) else Inr ()) = Inr ()"
  shows "creditorOk s pid c"
  using assms(2)
  by (auto simp: creditorOk_def assertValidCreditor_def
      activeIds_iff [OF playersOk_distinct [OF wf_stateD(3) [OF assms(1)]]] dest: findBy_SomeD split: if_splits)

lemma findNextAfterBankruptcy_active:
  assumes "findNextActivePlayerAfterBankruptcy s p = Inr n"
  shows "roomPlayerId n \<in> activeIds (players s)"
proof -
  have "n \<in> set (getActivePlayers s)"
    using assms
    by (auto simp: findNextActivePlayerAfterBankruptcy_def Let_def jsNth_def find_Some_iff
        simp del: set_getActivePlayers split: option.splits if_splits intro: nth_mem)
  then show ?thesis by (auto simp: activeIds_def)
qed

lemma declareBankruptcy_Inr:
  assumes wf: "wf_state s" and bankruptcy: "declareBankruptcy s pid input = Inr (s', evs)"
  obtains c p t where "\<not> terminal (phase s)" "findBy roomPlayerId pid (players s) = Some p" "\<not> bankrupt p"
    "creditorOk s pid c" "liquidated pid c s t"
    "if length (getActivePlayers t) \<le> 1 \<or> hasNoActiveHumanPlayers (getActivePlayers t)
     then s' = t\<lparr>phase := Finished,
         currentTurnRoomPlayerId := (case jsNth (getActivePlayers t) 0 of
            Some p \<Rightarrow> roomPlayerId p | None \<Rightarrow> currentTurnRoomPlayerId t),
         shouldCurrentPlayerPlayAgain := False, consecutiveDoublesCount := 0,
         auction := None, tradeOffer := None, debt := None, pendingTileKey := None\<rparr>
     else if currentTurnRoomPlayerId s \<noteq> pid then s' = t
     else \<exists>n. findNextActivePlayerAfterBankruptcy t p = Inr n \<and>
       s' = t\<lparr>phase := Awaiting_roll, currentTurnRoomPlayerId := roomPlayerId n,
         turnNumber := turnNumber t + 1, shouldCurrentPlayerPlayAgain := False,
         consecutiveDoublesCount := 0, lastDiceRoll := None, auction := None, pendingTileKey := None\<rparr>"
proof -
  define c where "c = (case input of Some c \<Rightarrow> Some c | None \<Rightarrow> (case debt s of
      Some d \<Rightarrow> if debt_roomPlayerId d = pid then creditorRoomPlayerId d else None | None \<Rightarrow> None))"
  from bankruptcy obtain p where active: "\<not> terminal (phase s)"
    and p: "findBy roomPlayerId pid (players s) = Some p" "\<not> bankrupt p"
    by (auto simp: declareBankruptcy_def terminal_def)
  obtain t where liq: "liquidatePlayerAssets s pid c = Inr t" and t: "liquidated pid c s t"
    by (rule liquidatePlayerAssets_Inr [OF wf p(1), of c]) (auto simp: liquidated_def)
  note rest = bankruptcy [unfolded declareBankruptcy_def c_def [symmetric] Let_def, simplified liq]
  have ok: "(if truthy c then assertValidCreditor s pid (the c) else Inr ()) = Inr ()"
    using rest by (auto split: if_splits)
  show thesis
  proof (rule that [OF active p assertValidCreditor_creditorOk [OF wf ok] t], goal_cases)
    case 1
    show ?case using rest p by (auto split del: if_split split: if_split_asm)
  qed
qed

lemma declareBankruptcy_wf:
  assumes wf: "wf_state s" and bankruptcy: "declareBankruptcy s pid input = Inr (s', evs)"
  shows "wf_state s'"
proof (rule declareBankruptcy_Inr [OF assms])
  fix c p t
  assume active: "\<not> terminal (phase s)" and p: "findBy roomPlayerId pid (players s) = Some p"
    and creditor: "creditorOk s pid c" and t: "liquidated pid c s t"
    and s': "if length (getActivePlayers t) \<le> 1 \<or> hasNoActiveHumanPlayers (getActivePlayers t)
     then s' = t\<lparr>phase := Finished,
         currentTurnRoomPlayerId := (case jsNth (getActivePlayers t) 0 of
            Some p \<Rightarrow> roomPlayerId p | None \<Rightarrow> currentTurnRoomPlayerId t),
         shouldCurrentPlayerPlayAgain := False, consecutiveDoublesCount := 0,
         auction := None, tradeOffer := None, debt := None, pendingTileKey := None\<rparr>
     else if currentTurnRoomPlayerId s \<noteq> pid then s' = t
     else \<exists>n. findNextActivePlayerAfterBankruptcy t p = Inr n \<and>
       s' = t\<lparr>phase := Awaiting_roll, currentTurnRoomPlayerId := roomPlayerId n,
         turnNumber := turnNumber t + 1, shouldCurrentPlayerPlayAgain := False,
         consecutiveDoublesCount := 0, lastDiceRoll := None, auction := None, pendingTileKey := None\<rparr>"
  have pid: "pid \<in> set (playerIds s)" by (rule findPlayer_in_ids [OF p])
  note f = liquidated_frame [OF t] and parts = liquidated_parts [OF wf pid creditor t]
  consider (over) "length (getActivePlayers t) \<le> 1 \<or> hasNoActiveHumanPlayers (getActivePlayers t)"
    | (out) "\<not> (length (getActivePlayers t) \<le> 1 \<or> hasNoActiveHumanPlayers (getActivePlayers t))"
        "currentTurnRoomPlayerId s \<noteq> pid"
    | (turn) "\<not> (length (getActivePlayers t) \<le> 1 \<or> hasNoActiveHumanPlayers (getActivePlayers t))"
        "currentTurnRoomPlayerId s = pid" by blast
  then show ?thesis
  proof cases
    case over
    have "roomPlayerId q \<in> set (playerIds t)" if "jsNth (getActivePlayers t) 0 = Some q" for q
    proof -
      have "q \<in> set (getActivePlayers t)"
        using that by (auto simp: jsNth_def simp del: set_getActivePlayers split: if_splits)
      then show ?thesis by (auto simp: playerIds_def)
    qed
    moreover have "currentTurnRoomPlayerId t \<in> set (playerIds t)"
      using wf active active_in_ids [of "currentTurnRoomPlayerId s" s] by (simp add: f wf_state_def coreOk_def)
    ultimately show ?thesis
      using over s' parts by (auto simp: wf_state_def coreOk_def phaseOk_def split: option.splits)
  next
    case out
    then show ?thesis using s' liquidated_wf [OF wf pid creditor t _ active] by simp
  next
    case turn
    then obtain n where n: "findNextActivePlayerAfterBankruptcy t p = Inr n"
      and s'': "s' = t\<lparr>phase := Awaiting_roll, currentTurnRoomPlayerId := roomPlayerId n,
         turnNumber := turnNumber t + 1, shouldCurrentPlayerPlayAgain := False,
         consecutiveDoublesCount := 0, lastDiceRoll := None, auction := None, pendingTileKey := None\<rparr>"
      using s' by auto
    have "debt t = None"
      using wf turn(2) by (cases "debt s") (auto simp: f(11) wf_state_def phaseOk_def debtOk_def)
    then show ?thesis
      using parts findNextAfterBankruptcy_active [OF n] by (auto simp: s'' wf_state_def coreOk_def phaseOk_def)
  qed
qed

lemma autoResolveLoop_wf:
  "autoResolveLoop fuel s pid evs0 = Inr (s', evs) \<Longrightarrow> wf_state s \<Longrightarrow> wf_state s'"
proof (induction fuel arbitrary: s evs0)
  case (Suc fuel)
  then show ?case
    by (auto split: if_splits option.splits dest: sellBuilding_wf mortgageProperty_wf)
qed simp

lemma autoResolveDebt_wf:
  assumes "wf_state s" "autoResolveDebt s pid = Inr (s', evs)"
  shows "wf_state s'"
  using assms autoResolveLoop_wf [OF _ assms(1)]
  by (auto simp: autoResolveDebt_def split: if_splits dest!: payDebt_wf [rotated] declareBankruptcy_wf [rotated])

lemma finishedState_wf:
  assumes "wf_state s" "\<not> terminal (phase s)"
  shows "wf_state (finishedState s)"
  using assms active_in_ids [of "currentTurnRoomPlayerId s" s]
  by (auto simp: finishedState_def wf_state_def coreOk_def phaseOk_def)

lemma finishGameByTime_wf:
  assumes "wf_state s" "finishGameByTime s at = Inr (s', evs)"
  shows "wf_state s'"
  using assms finishedState_wf
  by (auto simp: finishGameByTime_def assertCanFinishByTime_def terminal_def)

lemma finishGameAfterLastHumanLeft_wf:
  assumes "wf_state s" "finishGameAfterLastHumanLeft s at = Inr (s', evs)"
  shows "wf_state s'"
  using assms finishedState_wf
  by (auto simp: finishGameAfterLastHumanLeft_def assertCanFinishAfterLastHumanLeft_def terminal_def)

end
