(* ===== verification/Game_Auctions.thy ===== *)
theory Game_Auctions
  imports Game_Invariant
begin

text \<open>
  Auctions, \<^verbatim>\<open>src/src/game/engine/game-engine-auctions.ts\<close>: declining a purchase opens an auction
  among the players that are not bankrupt; bidders bid or pass in seat order until one is left.
\<close>

section \<open>Operations\<close>

definition MINIMUM_AUCTION_BID :: int where "MINIMUM_AUCTION_BID = 10"

definition auctionBidTimeoutMs :: int where "auctionBidTimeoutMs = 25000"

definition getNextAuctionBidExpiresAt :: "int \<Rightarrow> GameEngineState \<Rightarrow> int" where
  "getNextAuctionBidExpiresAt now s =
     (let bidExpires = now + auctionBidTimeoutMs in
      if truthyNum (expiresAt s) then min bidExpires (the (expiresAt s)) else bidExpires)"

definition getAuctionBidDelay :: "int \<Rightarrow> GameEngineState \<Rightarrow> int" where
  "getAuctionBidDelay now s =
     (case auction s of
        None \<Rightarrow> auctionBidTimeoutMs
      | Some a \<Rightarrow> if \<not> truthyNum (bidExpiresAt a) then auctionBidTimeoutMs
                  else max (the (bidExpiresAt a) - now) 0)"

definition declinePropertyPurchase ::
  "int \<Rightarrow> GameEngineState \<Rightarrow> string \<Rightarrow> GameEngineError + GameEngineResult" where
  "declinePropertyPurchase now s pid =
     andThen (raiseIf (\<not> truthy (pendingTileKey s)) (EngineError NO_PROPERTY_DECISION)) (\<lambda>_.
     let key = the (pendingTileKey s) in
     andThen (ofOption (EngineError TILE_NOT_OWNABLE) (findTile (getGameBoard (boardKey s)) key)) (\<lambda>tile.
     andThen (raiseIf (\<not> isOwnableTile tile) (EngineError TILE_NOT_OWNABLE)) (\<lambda>_.
     andThen (ofOption (EngineError TILE_NOT_OWNABLE) (findProperty s (tile_key tile))) (\<lambda>prop.
     andThen (raiseIf (truthy (ownerRoomPlayerId prop)) (EngineError PROPERTY_ALREADY_OWNED)) (\<lambda>_.
     let activeIds = map roomPlayerId
           (sort_key seatNumber (filter (\<lambda>p. \<not> bankrupt p) (players s)));
         newAuction = \<lparr>auction_tileKey = tile_key tile, currentBid = 0,
                       highestBidderRoomPlayerId = None,
                       currentBidderRoomPlayerId = jsNth activeIds 0,
                       bidExpiresAt = Some (getNextAuctionBidExpiresAt now s),
                       activeRoomPlayerIds = activeIds, passedRoomPlayerIds = []\<rparr> in
     Inr (s\<lparr>phase := Awaiting_auction_bid, pendingTileKey := None, auction := Some newAuction\<rparr>,
          [Property_purchase_declined pid (tile_key tile), Auction_started (tile_key tile) activeIds]))))))"

definition assertActiveAuction :: "GameEngineState \<Rightarrow> GameEngineError + GameEngineAuction" where
  "assertActiveAuction s =
     (if phase s \<noteq> Awaiting_auction_bid then Inl (EngineError NO_ACTIVE_AUCTION)
      else ofOption (EngineError NO_ACTIVE_AUCTION) (auction s))"

definition getCurrentAuctionBidderRoomPlayerId :: "GameEngineAuction option \<Rightarrow> string option" where
  "getCurrentAuctionBidderRoomPlayerId auc =
     (case auc of
        None \<Rightarrow> None
      | Some a \<Rightarrow>
          if truthy (currentBidderRoomPlayerId a) \<and>
             the (currentBidderRoomPlayerId a) \<in> set (activeRoomPlayerIds a) \<and>
             the (currentBidderRoomPlayerId a) \<notin> set (passedRoomPlayerIds a)
          then currentBidderRoomPlayerId a
          else find (\<lambda>i. i \<notin> set (passedRoomPlayerIds a)) (activeRoomPlayerIds a))"

definition getMinimumAuctionBid :: "GameEngineAuction \<Rightarrow> int" where
  "getMinimumAuctionBid a =
     (if currentBid a \<le> 0 then MINIMUM_AUCTION_BID else currentBid a + 1)"

definition assertAuctionPlayerActive :: "GameEngineAuction \<Rightarrow> string \<Rightarrow> GameEngineError + unit" where
  "assertAuctionPlayerActive a pid =
     raiseIf (pid \<notin> set (activeRoomPlayerIds a) \<or> pid \<in> set (passedRoomPlayerIds a))
       (EngineError AUCTION_PLAYER_NOT_ACTIVE)"

definition assertAuctionPlayerCanAct :: "GameEngineAuction \<Rightarrow> string \<Rightarrow> GameEngineError + unit" where
  "assertAuctionPlayerCanAct a pid =
     raiseIf (getCurrentAuctionBidderRoomPlayerId (Some a) \<noteq> Some pid)
       (EngineError AUCTION_PLAYER_NOT_CURRENT)"

definition remainingBidders :: "GameEngineAuction \<Rightarrow> string list" where
  "remainingBidders a = filter (\<lambda>i. i \<notin> set (passedRoomPlayerIds a)) (activeRoomPlayerIds a)"

text \<open>The loop over \<^verbatim>\<open>offset\<close> in \<^verbatim>\<open>getNextAuctionBidderRoomPlayerId\<close>; the list holds the offsets left.\<close>

fun nextBidderLoop :: "GameEngineAuction \<Rightarrow> int \<Rightarrow> int list \<Rightarrow> string option" where
  "nextBidderLoop a currentIndex [] = None"
| "nextBidderLoop a currentIndex (offset # offsets) =
     (let n = int (length (activeRoomPlayerIds a)) in
      case jsNth (activeRoomPlayerIds a) (jsRem (currentIndex + offset + n) n) of
        None \<Rightarrow> nextBidderLoop a currentIndex offsets
      | Some candidate \<Rightarrow>
          if candidate = [] \<or> candidate \<in> set (passedRoomPlayerIds a)
          then nextBidderLoop a currentIndex offsets
          else if truthy (highestBidderRoomPlayerId a) \<and> length (remainingBidders a) \<le> 1 \<and>
                  Some candidate = highestBidderRoomPlayerId a
          then None
          else Some candidate)"

definition getNextAuctionBidderRoomPlayerId :: "GameEngineAuction \<Rightarrow> string \<Rightarrow> string option" where
  "getNextAuctionBidderRoomPlayerId a currentId =
     (if length (remainingBidders a) = 0 then None
      else nextBidderLoop a (jsFindIndex (\<lambda>i. i = currentId) (activeRoomPlayerIds a))
             (map int [1..<length (activeRoomPlayerIds a) + 1]))"

definition completeAuctionWithoutWinner ::
  "GameEngineState \<Rightarrow> GameEngineAuction \<Rightarrow> GameEngineEvent \<Rightarrow> GameEngineError + GameEngineResult" where
  "completeAuctionWithoutWinner s a passEvent =
     Inr ((updatePropertyState s (auction_tileKey a) (\<lambda>p. p\<lparr>ownerRoomPlayerId := None\<rparr>))
            \<lparr>phase := Awaiting_turn_end, auction := None\<rparr>,
          [passEvent])"

definition completeAuctionWithWinner ::
  "GameEngineState \<Rightarrow> GameEngineAuction \<Rightarrow> GameEngineEvent \<Rightarrow> GameEngineError + GameEngineResult" where
  "completeAuctionWithWinner s a triggerEvent =
     (if \<not> truthy (highestBidderRoomPlayerId a) then completeAuctionWithoutWinner s a triggerEvent
      else let winner = the (highestBidderRoomPlayerId a) in
        andThen (debitPlayer s winner (currentBid a)) (\<lambda>debited.
        Inr ((updatePropertyState debited (auction_tileKey a)
                (\<lambda>p. p\<lparr>ownerRoomPlayerId := highestBidderRoomPlayerId a\<rparr>))
               \<lparr>phase := Awaiting_turn_end, auction := None\<rparr>,
             [triggerEvent, Auction_won winner (auction_tileKey a) (currentBid a)])))"

definition placeAuctionBid ::
  "int \<Rightarrow> GameEngineState \<Rightarrow> string \<Rightarrow> int \<Rightarrow> GameEngineError + GameEngineResult" where
  "placeAuctionBid now s pid amount =
     andThen (assertActiveAuction s) (\<lambda>a.
     andThen (assertAuctionPlayerActive a pid) (\<lambda>_.
     andThen (assertAuctionPlayerCanAct a pid) (\<lambda>_.
     andThen (raiseIf (amount < getMinimumAuctionBid a) (EngineError INVALID_AUCTION_BID)) (\<lambda>_.
     andThen (ofOption (EngineError PLAYER_NOT_FOUND) (findBy roomPlayerId pid (players s))) (\<lambda>bidder.
     andThen (raiseIf (cash bidder < amount) (EngineError INSUFFICIENT_FUNDS)) (\<lambda>_.
     let bidEvent = Auction_bid_placed pid (auction_tileKey a) amount;
         bidAuction = a\<lparr>currentBid := amount, highestBidderRoomPlayerId := Some pid,
                        currentBidderRoomPlayerId := None,
                        bidExpiresAt := Some (getNextAuctionBidExpiresAt now s)\<rparr>;
         nextAuction = bidAuction\<lparr>currentBidderRoomPlayerId :=
                                    getNextAuctionBidderRoomPlayerId bidAuction pid\<rparr> in
     if \<not> truthy (currentBidderRoomPlayerId nextAuction)
     then completeAuctionWithWinner s nextAuction bidEvent
     else Inr (s\<lparr>auction := Some nextAuction\<rparr>, [bidEvent])))))))"

definition passAuctionBid ::
  "int \<Rightarrow> GameEngineState \<Rightarrow> string \<Rightarrow> GameEngineError + GameEngineResult" where
  "passAuctionBid now s pid =
     andThen (assertActiveAuction s) (\<lambda>a.
     andThen (assertAuctionPlayerActive a pid) (\<lambda>_.
     andThen (assertAuctionPlayerCanAct a pid) (\<lambda>_.
     let passedAuction = a\<lparr>passedRoomPlayerIds := jsSet (passedRoomPlayerIds a @ [pid])\<rparr>;
         nextAuction = passedAuction
           \<lparr>currentBidderRoomPlayerId := getNextAuctionBidderRoomPlayerId passedAuction pid,
            bidExpiresAt := Some (getNextAuctionBidExpiresAt now s)\<rparr>;
         passEvent = Auction_bid_passed pid (auction_tileKey a);
         activeBidders = remainingBidders nextAuction in
     if truthy (highestBidderRoomPlayerId nextAuction) \<and> length activeBidders \<le> 1
     then completeAuctionWithWinner s nextAuction passEvent
     else if \<not> truthy (highestBidderRoomPlayerId nextAuction) \<and> length activeBidders = 0
     then completeAuctionWithoutWinner s nextAuction passEvent
     else Inr (s\<lparr>auction := Some nextAuction\<rparr>, [passEvent]))))"

section \<open>Whose turn it is to bid\<close>

text \<open>The loop over offsets visits the other bidders in seat order and then the bidder himself.\<close>

definition pickBidder :: "GameEngineAuction \<Rightarrow> string list \<Rightarrow> string option" where
  "pickBidder a cs =
     (case find (\<lambda>c. c \<notin> set (passedRoomPlayerIds a)) cs of
        None \<Rightarrow> None
      | Some c \<Rightarrow>
          if truthy (highestBidderRoomPlayerId a) \<and> length (remainingBidders a) \<le> 1 \<and>
             Some c = highestBidderRoomPlayerId a
          then None else Some c)"

lemma nextBidderLoop_pick:
  assumes active: "activeRoomPlayerIds a = us @ x # vs" and nonempty: "[] \<notin> set (activeRoomPlayerIds a)"
    and "\<forall>k\<in>set ks. 1 \<le> k \<and> k \<le> length (activeRoomPlayerIds a)"
  shows "nextBidderLoop a (int (length us)) (map int ks) = pickBidder a (map (\<lambda>k. (vs @ us @ [x]) ! (k - 1)) ks)"
  using assms(3)
proof (induction ks)
  case Nil
  then show ?case by (simp add: pickBidder_def)
next
  case (Cons k ks)
  let ?n = "length (activeRoomPlayerIds a)" and ?c = "(vs @ us @ [x]) ! (k - 1)"
  have k: "1 \<le> k" "k \<le> length (us @ x # vs)" using Cons.prems active by auto
  have "0 < ?n" by (simp add: active)
  then have "jsRem (int (length us) + int k + int ?n) (int ?n) = jsRem (int (length us) + int k) (int ?n)"
    by simp
  then have "jsNth (activeRoomPlayerIds a) (jsRem (int (length us) + int k + int ?n) (int ?n)) = Some ?c"
    using jsNth_ring [OF k] by (simp only: active)
  moreover have "?c \<noteq> []"
  proof -
    have "?c \<in> set (vs @ us @ [x])" using k by (intro nth_mem) auto
    then show ?thesis using nonempty active by auto
  qed
  ultimately show ?case using Cons by (simp add: pickBidder_def)
qed

lemma getNextAuctionBidder_ring:
  assumes "distinct (activeRoomPlayerIds a)" "[] \<notin> set (activeRoomPlayerIds a)"
    and "i \<in> set (activeRoomPlayerIds a)" "remainingBidders a \<noteq> []"
  shows "getNextAuctionBidderRoomPlayerId a i = pickBidder a (ringAfter (activeRoomPlayerIds a) i @ [i])"
proof -
  obtain us vs where act: "activeRoomPlayerIds a = us @ i # vs" "i \<notin> set us"
    using split_list_first [OF assms(3)] by blast
  let ?n = "length (activeRoomPlayerIds a)" and ?ring = "vs @ us @ [i]"
  have index: "jsFindIndex (\<lambda>j. j = i) (activeRoomPlayerIds a) = int (length us)"
    unfolding act(1) using act(2) by (intro jsFindIndex_append) auto
  have ring: "map (\<lambda>k. ?ring ! (k - 1)) [1..<?n + 1] = ?ring"
    by (rule nth_equalityI) (simp_all add: act(1) del: upt_Suc)
  have "getNextAuctionBidderRoomPlayerId a i = nextBidderLoop a (int (length us)) (map int [1..<?n + 1])"
    using assms(4) by (simp add: getNextAuctionBidderRoomPlayerId_def index)
  also have "\<dots> = pickBidder a ?ring"
    using nextBidderLoop_pick [OF act(1) assms(2), of "[1..<?n + 1]"] by (simp only: ring) auto
  finally show ?thesis by (simp add: act(1) ringAfter_split [OF act(2)])
qed

lemma find_append: "find P (xs @ ys) = (case find P xs of None \<Rightarrow> find P ys | Some x \<Rightarrow> Some x)"
  by (induction xs) auto

lemma find_SomeD: "find P xs = Some x \<Longrightarrow> x \<in> set xs \<and> P x"
  by (induction xs) (auto split: if_splits)

lemma find_NoneD: "find P xs = None \<Longrightarrow> x \<in> set xs \<Longrightarrow> \<not> P x"
  by (induction xs) (auto split: if_splits)

lemma find_split:
  "find P xs = Some x \<Longrightarrow> \<exists>us vs. xs = us @ x # vs \<and> (\<forall>u\<in>set us. \<not> P u)"
proof (induction xs)
  case (Cons y ys)
  show ?case
  proof (cases "P y")
    case True
    with Cons.prems show ?thesis by (intro exI [of _ "[]"] exI [of _ ys]) auto
  next
    case False
    with Cons obtain us vs where "ys = us @ x # vs" "\<forall>u\<in>set us. \<not> P u" by auto
    with False show ?thesis by (intro exI [of _ "y # us"] exI [of _ vs]) auto
  qed
qed simp

lemma single_remaining:
  assumes "distinct (activeRoomPlayerIds a)"
    and "\<And>j. j \<in> set (activeRoomPlayerIds a) \<Longrightarrow> j \<notin> set (passedRoomPlayerIds a) \<Longrightarrow> j = i"
  shows "length (remainingBidders a) \<le> 1"
proof -
  have "length (remainingBidders a) = card ({j. j \<notin> set (passedRoomPlayerIds a)} \<inter> set (activeRoomPlayerIds a))"
    unfolding remainingBidders_def by (rule distinct_length_filter [OF assms(1)])
  also have "\<dots> \<le> card {i}" using assms(2) by (intro card_mono) auto
  finally show ?thesis by simp
qed

text \<open>After a bid the turn goes to the next bidder who has not passed, if there is another one.\<close>

lemma next_after_bid:
  assumes "distinct (activeRoomPlayerIds a)" "[] \<notin> set (activeRoomPlayerIds a)"
    and i: "i \<in> set (activeRoomPlayerIds a)" "i \<notin> set (passedRoomPlayerIds a)"
    and "highestBidderRoomPlayerId a = Some i"
  shows "getNextAuctionBidderRoomPlayerId a i = bidderAfter a i"
proof -
  let ?P = "\<lambda>c. c \<notin> set (passedRoomPlayerIds a)" and ?after = "ringAfter (activeRoomPlayerIds a) i"
  note ring = set_ringAfter [OF assms(1) i(1)]
  have "i \<noteq> []" using assms(2) i(1) by auto
  have "remainingBidders a \<noteq> []" using i by (auto simp: remainingBidders_def filter_empty_conv)
  then have next_eq: "getNextAuctionBidderRoomPlayerId a i = pickBidder a (?after @ [i])"
    by (rule getNextAuctionBidder_ring [OF assms(1,2) i(1)])
  show ?thesis
  proof (cases "find ?P ?after")
    case None
    then have "length (remainingBidders a) \<le> 1"
      using find_NoneD [OF None] ring by (intro single_remaining [OF assms(1)]) auto
    then show ?thesis
      using None i(2) \<open>i \<noteq> []\<close> assms(5) by (simp add: next_eq pickBidder_def find_append bidderAfter_def)
  next
    case (Some c)
    then have "c \<noteq> i" using find_SomeD [OF Some] ring(2) by auto
    then show ?thesis
      using Some assms(5) by (simp add: next_eq pickBidder_def find_append bidderAfter_def)
  qed
qed

text \<open>
  After a pass it goes to the next one again, unless the highest bidder is the only one left; for
  the highest bidder the ring then looks as if the passing player had never been there.
\<close>

lemma next_after_pass:
  assumes "distinct (activeRoomPlayerIds a)" "[] \<notin> set (activeRoomPlayerIds a)"
    and i: "i \<in> set (activeRoomPlayerIds a)" "i \<in> set (passedRoomPlayerIds a)"
    and left: "remainingBidders a \<noteq> []"
    and more: "truthy (highestBidderRoomPlayerId a) \<Longrightarrow> \<not> length (remainingBidders a) \<le> 1"
  obtains c where "getNextAuctionBidderRoomPlayerId a i = Some c" "bidderAfter a i = Some c"
    "c \<in> set (activeRoomPlayerIds a)" "c \<notin> set (passedRoomPlayerIds a)"
proof -
  let ?P = "\<lambda>c. c \<notin> set (passedRoomPlayerIds a)" and ?after = "ringAfter (activeRoomPlayerIds a) i"
  note ring = set_ringAfter [OF assms(1) i(1)]
  obtain j where "j \<in> set (activeRoomPlayerIds a)" "?P j"
    using left by (auto simp: remainingBidders_def filter_empty_conv)
  then have "j \<in> set ?after" using ring i(2) by auto
  then obtain c where c: "find ?P ?after = Some c" using \<open>?P j\<close> find_NoneD by fastforce
  have "getNextAuctionBidderRoomPlayerId a i = Some c"
    using more by (auto simp: getNextAuctionBidder_ring [OF assms(1,2) i(1) left] pickBidder_def find_append c)
  moreover have "c \<in> set (activeRoomPlayerIds a)" "?P c" using find_SomeD [OF c] ring(1) by auto
  ultimately show thesis using that c by (simp add: bidderAfter_def)
qed

lemma bidderAfter_pass:
  assumes dist: "distinct (activeRoomPlayerIds a)" and h: "h \<in> set (activeRoomPlayerIds a)"
    and unpassed: "h \<notin> set (passedRoomPlayerIds a')" and cur: "bidderAfter a h = Some i"
    and a': "activeRoomPlayerIds a' = activeRoomPlayerIds a"
      "set (passedRoomPlayerIds a') = insert i (set (passedRoomPlayerIds a))"
    and more: "\<not> length (remainingBidders a') \<le> 1"
  shows "bidderAfter a' h = bidderAfter a' i"
proof -
  let ?P = "\<lambda>c. c \<notin> set (passedRoomPlayerIds a)" and ?P' = "\<lambda>c. c \<notin> set (passedRoomPlayerIds a')"
  obtain ws zs where ring: "ringAfter (activeRoomPlayerIds a) h = ws @ i # zs" and ws: "\<forall>w\<in>set ws. \<not> ?P w"
    using find_split [OF cur [unfolded bidderAfter_def]] by blast
  have shifted: "ringAfter (activeRoomPlayerIds a) i = zs @ h # ws" by (rule ringAfter_shift [OF dist h ring])
  have none: "find ?P' ws = None" using ws a'(2) by (auto simp: find_None_iff)
  have from_h: "bidderAfter a' h = find ?P' zs"
    using none a' by (simp add: bidderAfter_def ring find_append)
  have from_i: "bidderAfter a' i = (case find ?P' zs of None \<Rightarrow> Some h | Some c \<Rightarrow> Some c)"
    using unpassed by (auto simp: bidderAfter_def a'(1) shifted find_append split: option.splits)
  have "find ?P' zs \<noteq> None"
  proof
    assume "find ?P' zs = None"
    then have "length (remainingBidders a') \<le> 1"
      using set_ringAfter [OF dist h] ws a'
      by (intro single_remaining [where i = h]) (auto simp: dist ring find_None_iff)
    with more show False ..
  qed
  then show ?thesis using from_h from_i by (auto split: option.splits)
qed

section \<open>Well-formedness is kept\<close>

lemma auctionOk_bid:
  assumes ok: "auctionOk ids unowned a" and i: "i \<in> set (activeRoomPlayerIds a)" "i \<notin> set (passedRoomPlayerIds a)"
    and amount: "10 \<le> amount"
    and a': "a' = a\<lparr>currentBid := amount, highestBidderRoomPlayerId := Some i,
      currentBidderRoomPlayerId := None, bidExpiresAt := e\<rparr>"
    and c: "getNextAuctionBidderRoomPlayerId a' i = Some c"
  shows "auctionOk ids unowned (a'\<lparr>currentBidderRoomPlayerId := Some c\<rparr>)"
proof -
  have "distinct (activeRoomPlayerIds a)" "[] \<notin> set (activeRoomPlayerIds a)"
    using ok by (auto simp: auctionOk_def)
  then have "bidderAfter a' i = Some c"
    using next_after_bid [of a' i] i c by (simp add: a')
  moreover from find_SomeD [OF this [unfolded bidderAfter_def]]
  have "c \<in> set (activeRoomPlayerIds a)" "c \<notin> set (passedRoomPlayerIds a)"
    using set_ringAfter [of "activeRoomPlayerIds a" i] ok i by (auto simp: a' auctionOk_def)
  ultimately show ?thesis using ok i amount by (auto simp: auctionOk_def a' bidderAfter_def)
qed

lemma auctionOk_pass:
  assumes ok: "auctionOk ids unowned a" and i: "currentBidderRoomPlayerId a = Some i"
    and a': "a' = a\<lparr>passedRoomPlayerIds := jsSet (passedRoomPlayerIds a @ [i])\<rparr>"
    and left: "remainingBidders a' \<noteq> []"
    and more: "truthy (highestBidderRoomPlayerId a) \<Longrightarrow> \<not> length (remainingBidders a') \<le> 1"
  shows "auctionOk ids unowned
    (a'\<lparr>currentBidderRoomPlayerId := getNextAuctionBidderRoomPlayerId a' i, bidExpiresAt := e\<rparr>)"
proof -
  have act: "i \<in> set (activeRoomPlayerIds a)" "i \<notin> set (passedRoomPlayerIds a)"
    and dist: "distinct (activeRoomPlayerIds a)" "[] \<notin> set (activeRoomPlayerIds a)"
    and passed: "distinct (passedRoomPlayerIds a)"
    using ok i by (auto simp: auctionOk_def)
  have pa': "passedRoomPlayerIds a' = passedRoomPlayerIds a @ [i]"
    using act(2) passed by (simp add: a' jsSet_snoc)
  obtain c where c: "getNextAuctionBidderRoomPlayerId a' i = Some c" "bidderAfter a' i = Some c"
    "c \<in> set (activeRoomPlayerIds a)" "c \<notin> set (passedRoomPlayerIds a')"
    using next_after_pass [of a' i] dist act(1) left more pa' by (auto simp: a')
  have "bidderAfter a' h = Some c \<and> h \<notin> set (passedRoomPlayerIds a')"
    if h: "highestBidderRoomPlayerId a = Some h" for h
  proof -
    have hok: "h \<in> set (activeRoomPlayerIds a)" "h \<notin> set (passedRoomPlayerIds a)" "bidderAfter a h = Some i"
      using ok h i by (auto simp: auctionOk_def)
    have "h \<noteq> i"
      using find_SomeD [OF hok(3) [unfolded bidderAfter_def]] set_ringAfter(2) [OF dist(1) hok(1)] by auto
    moreover have "truthy (highestBidderRoomPlayerId a)" using h dist(2) hok(1) by auto
    ultimately show ?thesis
      using bidderAfter_pass [OF dist(1) hok(1) _ hok(3), of a'] hok(2) more pa' c(2) by (auto simp: a')
  qed
  then show ?thesis
    using ok c act passed pa'
    by (auto simp: auctionOk_def a' bidderAfter_def split: option.splits)
qed

lemma declinePropertyPurchase_wf:
  assumes wf: "wf_state s" and decline: "declinePropertyPurchase now s pid = Inr (s', evs)"
    and active: "\<not> terminal (phase s)" "debt s = None"
  shows "wf_state s'"
proof -
  let ?active = "map roomPlayerId (sort_key seatNumber (filter (\<lambda>p. \<not> bankrupt p) (players s)))"
  from decline obtain tile q where
    tile: "findTile CLASSIC_GAME_BOARD (the (pendingTileKey s)) = Some tile"
    and q: "findBy tileKey (tile_key tile) (properties s) = Some q" "\<not> truthy (ownerRoomPlayerId q)"
    and s': "s' = s\<lparr>phase := Awaiting_auction_bid, pendingTileKey := None,
      auction := Some \<lparr>auction_tileKey = tile_key tile, currentBid = 0, highestBidderRoomPlayerId = None,
        currentBidderRoomPlayerId = jsNth ?active 0, bidExpiresAt = Some (getNextAuctionBidExpiresAt now s),
        activeRoomPlayerIds = ?active, passedRoomPlayerIds = []\<rparr>\<rparr>"
    by (auto simp: declinePropertyPurchase_def Let_def findProperty_def)
  have order: "?active = seatOrder s" by (simp add: seatOrder_def getActivePlayers_def)
  have ids: "set (seatOrder s) = activeIds (players s)"
    by (auto simp: seatOrder_def activeIds_def)
  have dist: "distinct (map roomPlayerId (players s))" by (rule playersOk_distinct [OF wf_stateD(3) [OF wf]])
  have "currentTurnRoomPlayerId s \<in> set (seatOrder s)"
    using wf active(1) by (simp add: wf_state_def coreOk_def ids)
  then obtain c cs where first: "seatOrder s = c # cs" by (cases "seatOrder s") auto
  have "tile_key tile \<in> unownedKeys (properties s)"
    using q unownedKeys_iff [OF wf_stateD(4) [OF wf]] by blast
  moreover have "distinct (seatOrder s)" using dist by (intro distinct_seatOrder) (simp add: playerIds_def)
  moreover have "set (seatOrder s) \<subseteq> set (playerIds s)" "[] \<notin> set (playerIds s)"
    using ids activeIds_subset [of "players s"] playersOk_nonempty_id [OF wf_stateD(3) [OF wf]]
    by (auto simp: playerIds_def)
  moreover have "\<not> bankrupt p" if "p \<in> set (players s)" "roomPlayerId p \<in> set (seatOrder s)" for p
    using that playersOk_find [OF wf_stateD(3) [OF wf]] by (auto simp: ids activeIds_iff [OF dist])
  ultimately show ?thesis
    using wf active
    by (auto simp: s' order first wf_state_def coreOk_def phaseOk_def auctionOk_def bankruptBiddersBroke_def
        list_all_iff jsNth_def)
qed

lemma completeAuctionWithoutWinner_wf:
  assumes wf: "wf_state s" and auc: "auction s = Some a'" "auction_tileKey a = auction_tileKey a'"
    and "completeAuctionWithoutWinner s a e = Inr (s', evs)"
  shows "wf_state s'"
proof -
  have phase: "\<not> terminal (phase s)" "debt s = None" "pendingTileKey s = None"
    and unowned: "auction_tileKey a \<in> unownedKeys (properties s)"
    using wf auc by (auto simp: wf_state_def phaseOk_def auctionOk_def)
  let ?u = "updatePropertyState s (auction_tileKey a) (\<lambda>p. p\<lparr>ownerRoomPlayerId := None\<rparr>)"
  have "coreOk ?u"
    using wf unowned unownedKeys_iff [OF wf_stateD(4) [OF wf]]
    by (intro coreOk_updateProperty) (auto simp: wf_state_def propertyOk_def built_def)
  then show ?thesis
    using assms(4) wf phase
    by (auto simp: completeAuctionWithoutWinner_def wf_state_def coreOk_def phaseOk_def)
qed

lemma completeAuctionWithWinner_wf:
  assumes wf: "wf_state s" and auc: "auction s = Some a'" "auction_tileKey a = auction_tileKey a'"
    and winner: "highestBidderRoomPlayerId a = Some h" "h \<in> set (activeRoomPlayerIds a')" "10 \<le> currentBid a"
    and complete: "completeAuctionWithWinner s a e = Inr (s', evs)"
  shows "wf_state s'"
proof -
  have phase: "\<not> terminal (phase s)" "debt s = None" "pendingTileKey s = None"
    and unowned: "auction_tileKey a \<in> unownedKeys (properties s)" and broke: "bankruptBiddersBroke (players s) a'"
    and h: "h \<noteq> []"
    using wf auc winner(2) by (auto simp: wf_state_def phaseOk_def auctionOk_def)
  from complete winner(1) h obtain t where t: "debitPlayer s h (currentBid a) = Inr t"
    and s': "s' = (updatePropertyState t (auction_tileKey a) (\<lambda>p. p\<lparr>ownerRoomPlayerId := Some h\<rparr>))
      \<lparr>phase := Awaiting_turn_end, auction := None\<rparr>"
    by (auto simp: completeAuctionWithWinner_def)
  obtain p where p: "findBy roomPlayerId h (players s) = Some p" "currentBid a \<le> cash p"
    using t by (auto simp: debitPlayer_Inr_iff)
  have "\<not> bankrupt p"
    using broke p winner(2,3) by (auto simp: bankruptBiddersBroke_def list_all_iff dest: findBy_SomeD)
  then have hact: "h \<in> activeIds (players s)"
    using p(1) by (auto simp: activeIds_iff [OF playersOk_distinct [OF wf_stateD(3) [OF wf]]])
  have twf: "wf_state t" by (rule debitPlayer_wf [OF wf t])
  let ?u = "updatePropertyState t (auction_tileKey a) (\<lambda>p. p\<lparr>ownerRoomPlayerId := Some h\<rparr>)"
  have "coreOk ?u"
    using twf unowned unownedKeys_iff [OF wf_stateD(4) [OF wf]] hact h
    by (intro coreOk_updateProperty)
      (auto simp: wf_state_def propertyOk_def built_def debitPlayer_frame [OF t])
  then show ?thesis
    using phase wf
    by (auto simp: s' wf_state_def coreOk_def phaseOk_def debitPlayer_frame [OF t])
qed

lemma currentBidder_acts:
  assumes "auctionOk ids unowned a" "assertAuctionPlayerActive a pid = Inr ()"
    "assertAuctionPlayerCanAct a pid = Inr ()"
  shows "currentBidderRoomPlayerId a = Some pid" "pid \<in> set (activeRoomPlayerIds a)"
    "pid \<notin> set (passedRoomPlayerIds a)" "pid \<noteq> []"
  using assms
  by (auto simp: auctionOk_def assertAuctionPlayerActive_def assertAuctionPlayerCanAct_def
      getCurrentAuctionBidderRoomPlayerId_def split: option.splits if_splits)

lemma wf_auction_update:
  assumes "wf_state s" "auction s = Some a" "auctionOk (set (playerIds s)) (unownedKeys (properties s)) a'"
    "activeRoomPlayerIds a' = activeRoomPlayerIds a"
  shows "wf_state (s\<lparr>auction := Some a'\<rparr>)"
  using assms by (auto simp: wf_state_def coreOk_def phaseOk_def bankruptBiddersBroke_def)

lemma placeAuctionBid_wf:
  assumes wf: "wf_state s" and bid: "placeAuctionBid now s pid amount = Inr (s', evs)"
  shows "wf_state s'"
proof -
  from bid obtain a where a: "auction s = Some a" and act: "assertAuctionPlayerActive a pid = Inr ()"
    "assertAuctionPlayerCanAct a pid = Inr ()" and min: "getMinimumAuctionBid a \<le> amount"
    by (auto simp: placeAuctionBid_def assertActiveAuction_def not_less split: if_splits)
  have ok: "auctionOk (set (playerIds s)) (unownedKeys (properties s)) a"
    using wf a by (simp add: wf_state_def phaseOk_def)
  note pid = currentBidder_acts [OF ok act]
  have amount: "10 \<le> amount"
    using min ok by (auto simp: getMinimumAuctionBid_def MINIMUM_AUCTION_BID_def auctionOk_def
        split: if_splits option.splits)
  define b where "b = a\<lparr>currentBid := amount, highestBidderRoomPlayerId := Some pid,
    currentBidderRoomPlayerId := None, bidExpiresAt := Some (getNextAuctionBidExpiresAt now s)\<rparr>"
  define n where "n = b\<lparr>currentBidderRoomPlayerId := getNextAuctionBidderRoomPlayerId b pid\<rparr>"
  have outcome: "if truthy (currentBidderRoomPlayerId n) then s' = s\<lparr>auction := Some n\<rparr>
      else \<exists>e. completeAuctionWithWinner s n e = Inr (s', evs)"
    using bid unfolding n_def b_def
    by (auto simp: placeAuctionBid_def assertActiveAuction_def a Let_def split: if_splits)
  show ?thesis
  proof (cases "truthy (currentBidderRoomPlayerId n)")
    case True
    then obtain c where c: "getNextAuctionBidderRoomPlayerId b pid = Some c"
      by (cases "getNextAuctionBidderRoomPlayerId b pid") (auto simp: n_def)
    have "auctionOk (set (playerIds s)) (unownedKeys (properties s)) n"
      unfolding n_def c by (rule auctionOk_bid [OF ok pid(2,3) amount b_def c])
    then show ?thesis using True outcome wf_auction_update [OF wf a] by (simp add: n_def b_def)
  next
    case False
    then show ?thesis
      using outcome completeAuctionWithWinner_wf [OF wf a, of n pid] pid amount by (auto simp: n_def b_def)
  qed
qed

lemma passAuctionBid_wf:
  assumes wf: "wf_state s" and pass: "passAuctionBid now s pid = Inr (s', evs)"
  shows "wf_state s'"
proof -
  from pass obtain a where a: "auction s = Some a" and act: "assertAuctionPlayerActive a pid = Inr ()"
    "assertAuctionPlayerCanAct a pid = Inr ()"
    by (auto simp: passAuctionBid_def assertActiveAuction_def split: if_splits)
  have ok: "auctionOk (set (playerIds s)) (unownedKeys (properties s)) a"
    using wf a by (simp add: wf_state_def phaseOk_def)
  note pid = currentBidder_acts [OF ok act]
  define b where "b = a\<lparr>passedRoomPlayerIds := jsSet (passedRoomPlayerIds a @ [pid])\<rparr>"
  define n where "n = b\<lparr>currentBidderRoomPlayerId := getNextAuctionBidderRoomPlayerId b pid,
    bidExpiresAt := Some (getNextAuctionBidExpiresAt now s)\<rparr>"
  have rem: "remainingBidders n = remainingBidders b" by (simp add: n_def remainingBidders_def)
  have same: "highestBidderRoomPlayerId n = highestBidderRoomPlayerId a" "currentBid n = currentBid a"
    "auction_tileKey n = auction_tileKey a" "activeRoomPlayerIds n = activeRoomPlayerIds a"
    by (simp_all add: n_def b_def)
  from pass consider
      e where "truthy (highestBidderRoomPlayerId n)" "length (remainingBidders n) \<le> 1"
        "completeAuctionWithWinner s n e = Inr (s', evs)"
    | e where "\<not> truthy (highestBidderRoomPlayerId n)" "length (remainingBidders n) = 0"
        "completeAuctionWithoutWinner s n e = Inr (s', evs)"
    | "if truthy (highestBidderRoomPlayerId n) then \<not> length (remainingBidders n) \<le> 1
        else length (remainingBidders n) \<noteq> 0" "s' = s\<lparr>auction := Some n\<rparr>"
    unfolding n_def b_def
    by (auto simp: passAuctionBid_def assertActiveAuction_def a Let_def split: if_splits)
  then show ?thesis
  proof cases
    case 1
    then obtain h where "highestBidderRoomPlayerId a = Some h" "h \<noteq> []"
      using same by (cases "highestBidderRoomPlayerId a") auto
    then show ?thesis
      using 1(3) ok completeAuctionWithWinner_wf [OF wf a, of n h] same by (auto simp: auctionOk_def)
  next
    case 2
    then show ?thesis using completeAuctionWithoutWinner_wf [OF wf a] same by blast
  next
    case 3
    have "auctionOk (set (playerIds s)) (unownedKeys (properties s)) n"
      unfolding n_def using 3(1) same
      by (intro auctionOk_pass [OF ok pid(1) b_def]) (auto simp: rem split: if_splits)
    then show ?thesis using 3(2) wf_auction_update [OF wf a] same by simp
  qed
qed

end
