(* ===== verification/Game_Trades.thy ===== *)
theory Game_Trades
  imports Game_Invariant
begin

text \<open>
  Trades, \<^verbatim>\<open>src/src/game/engine/game-engine-trades.ts\<close>: proposing, accepting, rejecting and
  cancelling an offer of cash and properties, and the rule by which a bot answers an offer.
\<close>

section \<open>Validation\<close>

record ProposeTradeInput =
  propose_roomPlayerId :: string
  propose_toRoomPlayerId :: string
  propose_offeredCash :: int
  propose_requestedCash :: int
  propose_offeredPropertyKeys :: "string list"
  propose_requestedPropertyKeys :: "string list"
  propose_tradeId :: "string option"

definition normalizeCash :: "int \<Rightarrow> GameEngineError + int" where
  "normalizeCash v = (if v < 0 then Inl (EngineError INVALID_TRADE) else Inr v)"

definition uniquePropertyKeys :: "string list \<Rightarrow> GameEngineError + string list" where
  "uniquePropertyKeys values =
     (let uniqueValues = filter (\<lambda>v. v \<noteq> []) (jsSet (map jsTrim values)) in
      if length uniqueValues \<noteq> length values then Inl (EngineError INVALID_TRADE)
      else Inr uniqueValues)"

definition assertCanTrade :: "GameEngineState \<Rightarrow> string \<Rightarrow> GameEngineError + unit" where
  "assertCanTrade s pid =
     andThen (raiseIf (phase s = Finished \<or> phase s = Cancelled) (EngineError GAME_NOT_ACTIVE)) (\<lambda>_.
     let tradeablePhase =
       phase s = Awaiting_first_turn \<or> phase s = Awaiting_roll \<or>
       phase s = Awaiting_property_decision \<or> phase s = Awaiting_turn_end in
     andThen (raiseIf (\<not> tradeablePhase) (EngineError TRADE_NOT_ALLOWED)) (\<lambda>_.
     andThen (raiseIf (debt s \<noteq> None) (EngineError DEBT_RESOLUTION_REQUIRED)) (\<lambda>_.
     andThen (findPlayer s pid) (\<lambda>player.
     raiseIf (bankrupt player) (EngineError INVALID_TRADE)))))"

definition assertTradeOffer :: "GameEngineState \<Rightarrow> string \<Rightarrow> GameEngineError + GameEngineTradeOffer" where
  "assertTradeOffer s tradeId =
     (case tradeOffer s of
        None \<Rightarrow> Inl (EngineError TRADE_NOT_FOUND)
      | Some t \<Rightarrow> if trade_id t \<noteq> tradeId then Inl (EngineError TRADE_NOT_FOUND) else Inr t)"

definition getTradeableTile :: "GameEngineState \<Rightarrow> string \<Rightarrow> GameEngineError + GameTile" where
  "getTradeableTile s key =
     (case findTile (getGameBoard (boardKey s)) key of
        None \<Rightarrow> Inl (EngineError TILE_NOT_OWNABLE)
      | Some tile \<Rightarrow> if \<not> isRentableTile tile then Inl (EngineError TILE_NOT_OWNABLE) else Inr tile)"

definition assertNoDuplicateCrossTradeProperties ::
  "GameEngineTradeOffer \<Rightarrow> GameEngineError + unit" where
  "assertNoDuplicateCrossTradeProperties trade =
     raiseIf (list_ex (\<lambda>k. k \<in> set (offeredPropertyKeys trade)) (requestedPropertyKeys trade))
       (EngineError INVALID_TRADE)"

fun assertPropertiesOwnedBy ::
  "GameEngineState \<Rightarrow> string list \<Rightarrow> string \<Rightarrow> GameEngineError + unit" where
  "assertPropertiesOwnedBy s [] owner = Inr ()"
| "assertPropertiesOwnedBy s (key # keys) owner =
     andThen (findPropertyState s key) (\<lambda>prop.
     andThen (raiseIf (ownerRoomPlayerId prop \<noteq> Some owner) (EngineError PROPERTY_NOT_OWNED)) (\<lambda>_.
     andThen (getTradeableTile s key) (\<lambda>_.
     assertPropertiesOwnedBy s keys owner)))"

definition validateTrade :: "GameEngineState \<Rightarrow> GameEngineTradeOffer \<Rightarrow> GameEngineError + unit" where
  "validateTrade s trade =
     andThen (findPlayer s (fromRoomPlayerId trade)) (\<lambda>fromPlayer.
     andThen (findPlayer s (toRoomPlayerId trade)) (\<lambda>toPlayer.
     andThen (raiseIf (bankrupt fromPlayer \<or> bankrupt toPlayer) (EngineError INVALID_TRADE)) (\<lambda>_.
     andThen (raiseIf (cash fromPlayer < offeredCash trade \<or> cash toPlayer < requestedCash trade)
               (EngineError INSUFFICIENT_FUNDS)) (\<lambda>_.
     andThen (raiseIf ((offeredCash trade = 0 \<and> offeredPropertyKeys trade = []) \<or>
                       (requestedCash trade = 0 \<and> requestedPropertyKeys trade = []))
               (EngineError INVALID_TRADE)) (\<lambda>_.
     andThen (assertNoDuplicateCrossTradeProperties trade) (\<lambda>_.
     andThen (assertPropertiesOwnedBy s (offeredPropertyKeys trade) (fromRoomPlayerId trade)) (\<lambda>_.
     assertPropertiesOwnedBy s (requestedPropertyKeys trade) (toRoomPlayerId trade))))))))"

section \<open>Execution\<close>

definition buildingUnits :: "GameEngineProperty \<Rightarrow> int" where
  "buildingUnits prop = int (houseCount prop) + (if hasHotel prop then 5 else 0)"

fun liquidateTradeBuildings ::
  "GameEngineState \<Rightarrow> string \<Rightarrow> string \<Rightarrow> string list \<Rightarrow> GameEngineError + GameEngineResult" where
  "liquidateTradeBuildings s tradeId pid [] = Inr (s, [])"
| "liquidateTradeBuildings s tradeId pid (key # keys) =
     andThen (findPropertyState s key) (\<lambda>prop.
     andThen (getTradeableTile s key) (\<lambda>tile.
     if kind tile \<noteq> Kind_property then liquidateTradeBuildings s tradeId pid keys
     else let liquidationAmount = buildingUnits prop * (houseCost tile div 2) in
       if liquidationAmount \<le> 0 then liquidateTradeBuildings s tradeId pid keys
       else andThen (creditPlayer s pid liquidationAmount) (\<lambda>credited.
            andThen (liquidateTradeBuildings
                       (updatePropertyState credited key (\<lambda>c. c\<lparr>houseCount := 0, hasHotel := False\<rparr>))
                       tradeId pid keys) (\<lambda>(s', evs).
            Inr (s', Trade_buildings_liquidated tradeId pid key liquidationAmount # evs)))))"

definition transferProperties :: "GameEngineState \<Rightarrow> string list \<Rightarrow> string \<Rightarrow> GameEngineState" where
  "transferProperties s keys owner =
     (if length keys = 0 then s
      else s\<lparr>properties := map (\<lambda>p. if tileKey p \<notin> set keys then p
                                      else p\<lparr>ownerRoomPlayerId := Some owner\<rparr>) (properties s)\<rparr>)"

definition acceptTradeOffer ::
  "GameEngineState \<Rightarrow> GameEngineTradeOffer \<Rightarrow> GameEngineEvent list \<Rightarrow>
   GameEngineError + GameEngineResult" where
  "acceptTradeOffer s trade previousEvents =
     andThen (validateTrade s trade) (\<lambda>_.
     andThen (liquidateTradeBuildings s (trade_id trade) (fromRoomPlayerId trade)
                (offeredPropertyKeys trade)) (\<lambda>(s1, evs1).
     andThen (liquidateTradeBuildings s1 (trade_id trade) (toRoomPlayerId trade)
                (requestedPropertyKeys trade)) (\<lambda>(s2, evs2).
     andThen (if offeredCash trade > 0
              then transferPlayerCash s2 (fromRoomPlayerId trade) (toRoomPlayerId trade) (offeredCash trade)
              else Inr s2) (\<lambda>s3.
     andThen (if requestedCash trade > 0
              then transferPlayerCash s3 (toRoomPlayerId trade) (fromRoomPlayerId trade) (requestedCash trade)
              else Inr s3) (\<lambda>s4.
     let s5 = transferProperties s4 (offeredPropertyKeys trade) (toRoomPlayerId trade);
         s6 = transferProperties s5 (requestedPropertyKeys trade) (fromRoomPlayerId trade) in
     Inr (s6\<lparr>tradeOffer := None\<rparr>,
          previousEvents @ evs1 @ evs2 @
          [Trade_accepted (trade_id trade) (fromRoomPlayerId trade) (toRoomPlayerId trade)]))))))"

section \<open>A bot's answer\<close>

definition getTradeValue :: "GameEngineState \<Rightarrow> int \<Rightarrow> string list \<Rightarrow> GameEngineError + int" where
  "getTradeValue s amount keys =
     andThen (foldM (\<lambda>total key.
                andThen (findPropertyState s key) (\<lambda>prop.
                andThen (getTradeableTile s key) (\<lambda>tile.
                let buildingValue = (if kind tile = Kind_property
                                     then buildingUnits prop * (houseCost tile div 2) else 0) in
                Inr (total + price tile + buildingValue)))) 0 keys) (\<lambda>total.
     Inr (amount + total))"

definition completesSet ::
  "GameEngineState \<Rightarrow> string \<Rightarrow> string list \<Rightarrow> string list \<Rightarrow> GameTile \<Rightarrow> GameEngineError + bool" where
  "completesSet s pid incoming outgoing tile =
     everyM (\<lambda>setTile.
       if tile_key setTile \<in> set outgoing then Inr False
       else if tile_key setTile \<in> set incoming then Inr True
       else andThen (findPropertyState s (tile_key setTile)) (\<lambda>p. Inr (ownerRoomPlayerId p = Some pid)))
     (setTilesOf (getGameBoard (boardKey s)) (setKey tile))"

definition getSetCompletionValue ::
  "GameEngineState \<Rightarrow> string \<Rightarrow> string list \<Rightarrow> string list \<Rightarrow> GameEngineError + int" where
  "getSetCompletionValue s pid incoming outgoing =
     andThen (foldM (\<lambda>completedSetKeys key.
                andThen (getTradeableTile s key) (\<lambda>tile.
                if kind tile \<noteq> Kind_property \<or> setKey tile \<in> set completedSetKeys
                then Inr completedSetKeys
                else andThen (completesSet s pid incoming outgoing tile) (\<lambda>completes.
                     Inr (if completes then completedSetKeys @ [setKey tile] else completedSetKeys))))
               [] incoming) (\<lambda>completedSetKeys.
     Inr (foldl (\<lambda>total tile. if kind tile \<noteq> Kind_property \<or> setKey tile \<notin> set completedSetKeys
                               then total else total + price tile)
            0 (tiles (getGameBoard (boardKey s)))))"

text \<open>
  \<^verbatim>\<open>GAME_BOTS.tradeSetCompletionWeight\<close> (0, 0.75, 1.75) in quarters, and
  \<^verbatim>\<open>GAME_BOTS.tradeAcceptanceMargin\<close> (0.95, 1.1, 1.3) as a binary64 significand with its scale.
\<close>

fun tradeSetCompletionWeight4 :: "BotDifficulty \<Rightarrow> int" where
  "tradeSetCompletionWeight4 Easy = 0"
| "tradeSetCompletionWeight4 Normal = 3"
| "tradeSetCompletionWeight4 Hard = 7"

fun tradeAcceptanceMargin :: "BotDifficulty \<Rightarrow> int \<times> nat" where
  "tradeAcceptanceMargin Easy = (doubleLiteral 19 20 53, 53)"
| "tradeAcceptanceMargin Normal = (doubleLiteral 11 10 52, 52)"
| "tradeAcceptanceMargin Hard = (doubleLiteral 13 10 52, 52)"

text \<open>
  Both sides of the comparison are computed in quarters, where they are exact; the product with
  the margin is rounded to 53 significant bits.
\<close>

definition shouldBotAcceptTrade ::
  "GameEngineState \<Rightarrow> GameEngineTradeOffer \<Rightarrow> GameEngineError + bool" where
  "shouldBotAcceptTrade s trade =
     andThen (findPlayer s (toRoomPlayerId trade)) (\<lambda>bot.
     let difficulty = (case botDifficulty bot of None \<Rightarrow> Normal | Some d \<Rightarrow> d);
         weight4 = tradeSetCompletionWeight4 difficulty in
     andThen (getTradeValue s (offeredCash trade) (offeredPropertyKeys trade)) (\<lambda>receivedValue.
     andThen (getSetCompletionValue s (toRoomPlayerId trade) (offeredPropertyKeys trade)
                (requestedPropertyKeys trade)) (\<lambda>receivedSets.
     andThen (getTradeValue s (requestedCash trade) (requestedPropertyKeys trade)) (\<lambda>givenValue.
     andThen (getSetCompletionValue s (fromRoomPlayerId trade) (requestedPropertyKeys trade)
                (offeredPropertyKeys trade)) (\<lambda>givenSets.
     let botReceives4 = 4 * receivedValue + receivedSets * weight4;
         botGives4 = 4 * givenValue + givenSets * weight4;
         margin = tradeAcceptanceMargin difficulty in
     Inr (botReceives4 * 2 ^ snd margin \<ge> round53 (botGives4 * fst margin)))))))"

section \<open>Operations\<close>

definition markBotTradeProposal :: "GameEngineState \<Rightarrow> string \<Rightarrow> GameEngineError + GameEngineState" where
  "markBotTradeProposal s pid =
     andThen (findPlayer s pid) (\<lambda>player.
     if playerType player \<noteq> Bot then Inr s
     else Inr (modifyPlayer pid (\<lambda>c. c\<lparr>lastBotTradeProposalTurnNumber := Some (turnNumber s)\<rparr>) s))"

definition proposeTrade ::
  "Env \<Rightarrow> GameEngineState \<Rightarrow> ProposeTradeInput \<Rightarrow> GameEngineError + GameEngineResult" where
  "proposeTrade env s input =
     andThen (assertCanTrade s (propose_roomPlayerId input)) (\<lambda>_.
     andThen (raiseIf (propose_roomPlayerId input = propose_toRoomPlayerId input)
               (EngineError INVALID_TRADE)) (\<lambda>_.
     andThen (raiseIf (tradeOffer s \<noteq> None) (EngineError TRADE_NOT_ALLOWED)) (\<lambda>_.
     andThen (normalizeCash (propose_offeredCash input)) (\<lambda>offered.
     andThen (normalizeCash (propose_requestedCash input)) (\<lambda>requested.
     andThen (uniquePropertyKeys (propose_offeredPropertyKeys input)) (\<lambda>offeredKeys.
     andThen (uniquePropertyKeys (propose_requestedPropertyKeys input)) (\<lambda>requestedKeys.
     let trade = \<lparr>trade_id = (case propose_tradeId input of None \<Rightarrow> randomUUID env | Some i \<Rightarrow> i),
                  fromRoomPlayerId = propose_roomPlayerId input,
                  toRoomPlayerId = propose_toRoomPlayerId input,
                  offeredCash = offered, requestedCash = requested,
                  offeredPropertyKeys = offeredKeys, requestedPropertyKeys = requestedKeys,
                  createdAt = dateNow env\<rparr> in
     andThen (validateTrade s trade) (\<lambda>_.
     andThen (markBotTradeProposal s (fromRoomPlayerId trade)) (\<lambda>proposedState.
     let proposedEvent = Trade_proposed (trade_id trade) (fromRoomPlayerId trade)
           (toRoomPlayerId trade) (offeredCash trade) (requestedCash trade)
           (offeredPropertyKeys trade) (requestedPropertyKeys trade) in
     andThen (findPlayer proposedState (toRoomPlayerId trade)) (\<lambda>target.
     if playerType target = Bot then
       andThen (shouldBotAcceptTrade proposedState trade) (\<lambda>accepts.
       if accepts then acceptTradeOffer proposedState trade [proposedEvent]
       else Inr (proposedState\<lparr>tradeOffer := None\<rparr>,
                 [proposedEvent,
                  Trade_rejected (trade_id trade) (fromRoomPlayerId trade) (toRoomPlayerId trade)
                    (toRoomPlayerId trade)]))
     else Inr (proposedState\<lparr>tradeOffer := Some trade\<rparr>, [proposedEvent])))))))))))"

definition acceptTrade ::
  "GameEngineState \<Rightarrow> string \<Rightarrow> string \<Rightarrow> GameEngineError + GameEngineResult" where
  "acceptTrade s pid tradeId =
     andThen (assertTradeOffer s tradeId) (\<lambda>trade.
     andThen (raiseIf (toRoomPlayerId trade \<noteq> pid) (EngineError TRADE_NOT_ALLOWED)) (\<lambda>_.
     acceptTradeOffer s trade []))"

definition rejectTrade ::
  "GameEngineState \<Rightarrow> string \<Rightarrow> string \<Rightarrow> GameEngineError + GameEngineResult" where
  "rejectTrade s pid tradeId =
     andThen (assertTradeOffer s tradeId) (\<lambda>trade.
     andThen (raiseIf (toRoomPlayerId trade \<noteq> pid) (EngineError TRADE_NOT_ALLOWED)) (\<lambda>_.
     Inr (s\<lparr>tradeOffer := None\<rparr>,
          [Trade_rejected (trade_id trade) (fromRoomPlayerId trade) (toRoomPlayerId trade) pid])))"

definition cancelTrade ::
  "GameEngineState \<Rightarrow> string \<Rightarrow> string \<Rightarrow> GameEngineError + GameEngineResult" where
  "cancelTrade s pid tradeId =
     andThen (assertTradeOffer s tradeId) (\<lambda>trade.
     andThen (raiseIf (fromRoomPlayerId trade \<noteq> pid) (EngineError TRADE_NOT_ALLOWED)) (\<lambda>_.
     Inr (s\<lparr>tradeOffer := None\<rparr>,
          [Trade_cancelled (trade_id trade) (fromRoomPlayerId trade) (toRoomPlayerId trade)])))"

section \<open>Well-formedness is kept\<close>

lemma liquidateTradeBuildings_wf:
  assumes "liquidateTradeBuildings s tradeId pid keys = Inr (s', evs)" "wf_state s" "pid \<in> activeIds (players s)"
  shows "wf_state s' \<and> activeIds (players s') = activeIds (players s) \<and>
     unownedKeys (properties s') = unownedKeys (properties s) \<and> phase s' = phase s"
  using assms
proof (induction keys arbitrary: s evs)
  case Nil
  then show ?case by simp
next
  case (Cons key keys)
  from Cons.prems(1) obtain q tile where q: "findPropertyState s key = Inr q"
    and tile: "getTradeableTile s key = Inr tile" by auto
  let ?amount = "buildingUnits q * (houseCost tile div 2)"
  show ?case
  proof (cases "kind tile \<noteq> Kind_property \<or> ?amount \<le> 0")
    case True
    then have "liquidateTradeBuildings s tradeId pid keys = Inr (s', evs)"
      using Cons.prems(1) q tile by (auto simp: Let_def split: if_splits)
    then show ?thesis using Cons by blast
  next
    case False
    then obtain t evs' where t: "creditPlayer s pid ?amount = Inr t"
      and rest: "liquidateTradeBuildings (updatePropertyState t key (\<lambda>c. c\<lparr>houseCount := 0, hasHotel := False\<rparr>))
        tradeId pid keys = Inr (s', evs')"
      using Cons.prems(1) q tile by (auto simp: Let_def split: if_splits)
    have "wf_state t" using creditPlayer_wf [OF Cons.prems(2) t] Cons.prems(3) by blast
    then have "wf_state (updatePropertyState t key (\<lambda>c. c\<lparr>houseCount := 0, hasHotel := False\<rparr>))"
      by (rule wf_updateProperty) (auto simp: propertyOk_def built_def)
    then show ?thesis
      using Cons.IH [OF rest] Cons.prems(3) by (simp add: creditPlayer_frame [OF t])
  qed
qed

lemma transferProperties_wf:
  assumes "wf_state s" "owner \<in> activeIds (players s)" "set keys \<inter> unownedKeys (properties s) = {}"
  shows "wf_state (transferProperties s keys owner)"
    "unownedKeys (properties (transferProperties s keys owner)) = unownedKeys (properties s)"
proof -
  let ?f = "\<lambda>p. if tileKey p \<notin> set keys then p else p\<lparr>ownerRoomPlayerId := Some owner\<rparr>"
  have nonempty: "owner \<noteq> []" by (rule active_nonempty [OF assms(1,2)])
  have owned: "truthy (ownerRoomPlayerId p)" if "p \<in> set (properties s)" "tileKey p \<in> set keys" for p
    using that assms(3) by (auto simp: unownedKeys_def)
  have t: "transferProperties s keys owner = s\<lparr>properties := map ?f (properties s)\<rparr>"
    by (simp add: transferProperties_def)
  have unowned: "unownedKeys (map ?f (properties s)) = unownedKeys (properties s)"
    using owned nonempty by (auto simp: unownedKeys_def image_iff split: if_splits)
  have "map tileKey (map ?f (properties s)) = map tileKey (properties s)" by auto
  moreover have "list_all (propertyOk (activeIds (players s))) (map ?f (properties s))"
    using wf_stateD(4) [OF assms(1)] assms(2) nonempty owned
    by (auto simp: propertiesOk_def list_all_iff propertyOk_def built_def)
  ultimately have "propertiesOk (activeIds (players s)) (map ?f (properties s))"
    using wf_stateD(4) [OF assms(1)] unfolding propertiesOk_def by metis
  then show "wf_state (transferProperties s keys owner)"
    using assms(1) unowned by (simp add: t wf_state_def coreOk_def phaseOk_def)
  show "unownedKeys (properties (transferProperties s keys owner)) = unownedKeys (properties s)"
    using unowned by (simp add: t)
qed

lemma assertPropertiesOwnedBy_owned:
  "assertPropertiesOwnedBy s keys owner = Inr () \<Longrightarrow> k \<in> set keys \<Longrightarrow>
     \<exists>q. findBy tileKey k (properties s) = Some q \<and> ownerRoomPlayerId q = Some owner"
  by (induction keys) auto

lemma validateTrade_Inr:
  assumes wf: "wf_state s" and valid: "validateTrade s trade = Inr ()"
  shows "fromRoomPlayerId trade \<in> activeIds (players s)" "toRoomPlayerId trade \<in> activeIds (players s)"
    "set (offeredPropertyKeys trade) \<inter> unownedKeys (properties s) = {}"
    "set (requestedPropertyKeys trade) \<inter> unownedKeys (properties s) = {}"
proof -
  show act: "fromRoomPlayerId trade \<in> activeIds (players s)" "toRoomPlayerId trade \<in> activeIds (players s)"
    using valid by (auto simp: validateTrade_def activeIds_iff [OF playersOk_distinct [OF wf_stateD(3) [OF wf]]])
  have owned: "set keys \<inter> unownedKeys (properties s) = {}"
    if "assertPropertiesOwnedBy s keys owner = Inr ()" "owner \<in> activeIds (players s)" for keys owner
    using assertPropertiesOwnedBy_owned [OF that(1)] unownedKeys_iff [OF wf_stateD(4) [OF wf]]
      active_nonempty [OF wf that(2)] by fastforce
  show "set (offeredPropertyKeys trade) \<inter> unownedKeys (properties s) = {}"
    "set (requestedPropertyKeys trade) \<inter> unownedKeys (properties s) = {}"
    using valid act by (auto simp: validateTrade_def intro!: owned)
qed

lemma optionalTransfer_wf:
  assumes "(if 0 < a then transferPlayerCash s fromId toId a else Inr s) = Inr s'"
    and "wf_state s" "toId \<in> activeIds (players s)"
  shows "wf_state s' \<and> activeIds (players s') = activeIds (players s) \<and> properties s' = properties s \<and>
    phase s' = phase s"
  using assms transferPlayerCash_wf [OF assms(2)]
  by (auto simp: transferPlayerCash_frame split: if_splits)

lemma acceptTradeOffer_wf:
  assumes wf: "wf_state s" and accept: "acceptTradeOffer s trade evs0 = Inr (s', evs)"
  shows "wf_state s'"
proof -
  let ?from = "fromRoomPlayerId trade" and ?to = "toRoomPlayerId trade"
  from accept obtain u s1 evs1 s2 evs2 s3 s4 where valid: "validateTrade s trade = Inr u"
    and s1: "liquidateTradeBuildings s (trade_id trade) ?from (offeredPropertyKeys trade) = Inr (s1, evs1)"
    and s2: "liquidateTradeBuildings s1 (trade_id trade) ?to (requestedPropertyKeys trade) = Inr (s2, evs2)"
    and s3: "(if 0 < offeredCash trade then transferPlayerCash s2 ?from ?to (offeredCash trade) else Inr s2) = Inr s3"
    and s4: "(if 0 < requestedCash trade then transferPlayerCash s3 ?to ?from (requestedCash trade) else Inr s3) = Inr s4"
    and s': "s' = (transferProperties (transferProperties s4 (offeredPropertyKeys trade) ?to)
      (requestedPropertyKeys trade) ?from)\<lparr>tradeOffer := None\<rparr>"
    unfolding acceptTradeOffer_def Let_def
    by (simp only: andThen_Inr_iff split_paired_Ex prod.case sum.inject prod.inject) blast
  note v = validateTrade_Inr [OF wf valid [unfolded unit_eq [of u]]]
  note w1 = liquidateTradeBuildings_wf [OF s1 wf v(1)]
  have w2: "wf_state s2 \<and> activeIds (players s2) = activeIds (players s) \<and>
      unownedKeys (properties s2) = unownedKeys (properties s)"
    using liquidateTradeBuildings_wf [OF s2] w1 v(2) by simp
  then have w3: "wf_state s3 \<and> activeIds (players s3) = activeIds (players s) \<and>
      unownedKeys (properties s3) = unownedKeys (properties s)"
    using optionalTransfer_wf [OF s3] v(2) by simp
  then have w4: "wf_state s4 \<and> activeIds (players s4) = activeIds (players s) \<and>
      unownedKeys (properties s4) = unownedKeys (properties s)"
    using optionalTransfer_wf [OF s4] v(1) by simp
  let ?s5 = "transferProperties s4 (offeredPropertyKeys trade) ?to"
  have w5: "wf_state ?s5" "unownedKeys (properties ?s5) = unownedKeys (properties s)"
    using transferProperties_wf [of s4 ?to "offeredPropertyKeys trade"] w4 v by auto
  have "players ?s5 = players s4" by (simp add: transferProperties_def)
  then have "wf_state (transferProperties ?s5 (requestedPropertyKeys trade) ?from)"
    using transferProperties_wf(1) [OF w5(1), of ?from "requestedPropertyKeys trade"] w5(2) w4 v by simp
  then show ?thesis unfolding s' by (rule wf_state_trade) simp
qed

lemma proposeTrade_wf:
  assumes wf: "wf_state s" and propose: "proposeTrade env s input = Inr (s', evs)"
  shows "wf_state s'"
proof -
  from propose have "\<not> terminal (phase s)"
    by (auto simp: proposeTrade_def assertCanTrade_def)
  moreover from propose obtain trade t where
    t: "markBotTradeProposal s (fromRoomPlayerId trade) = Inr t"
    and out: "(\<exists>evs0. acceptTradeOffer t trade evs0 = Inr (s', evs)) \<or> (\<exists>tr. s' = t\<lparr>tradeOffer := tr\<rparr>)"
    unfolding proposeTrade_def Let_def
    by (auto simp del: GameEngineTradeOffer.simps split: if_splits)
  moreover have "wf_state t" "phase t = phase s"
    using t wf by (auto simp: markBotTradeProposal_def intro!: wf_modifyPlayer split: if_splits)
  ultimately show ?thesis using acceptTradeOffer_wf wf_state_trade by metis
qed

lemma acceptTrade_wf:
  assumes "wf_state s" "acceptTrade s pid tradeId = Inr (s', evs)"
  shows "wf_state s'"
  using assms acceptTradeOffer_wf by (auto simp: acceptTrade_def)

lemma rejectTrade_wf:
  assumes "wf_state s" "rejectTrade s pid tradeId = Inr (s', evs)"
  shows "wf_state s'"
  using assms by (auto simp: rejectTrade_def wf_state_trade)

lemma cancelTrade_wf:
  assumes "wf_state s" "cancelTrade s pid tradeId = Inr (s', evs)"
  shows "wf_state s'"
  using assms by (auto simp: cancelTrade_def wf_state_trade)

end
