(* ===== verification/Game_Engine.thy ===== *)
theory Game_Engine
  imports Game_Settlement Game_Auctions Game_Trades
begin

text \<open>
  The engine's front door: \<^verbatim>\<open>game-engine.service.ts\<close>, the intents it is driven by
  (\<^verbatim>\<open>game-engine-intents.ts\<close>), and the state a game starts in
  (\<^verbatim>\<open>createInitialGameState\<close> of \<^verbatim>\<open>src/src/rooms/services/rooms-game.service.ts\<close>).
\<close>

section \<open>The service\<close>

definition service_rollAndMove ::
  "GameEngineState \<Rightarrow> string \<Rightarrow> int list \<Rightarrow> GameEngineError + GameEngineResult" where
  "service_rollAndMove s pid dice =
     andThen (assertCanRoll s) (\<lambda>_.
     andThen (assertCurrentTurn s pid) (\<lambda>_.
     andThen (assertValidDice dice) (\<lambda>_.
     rollAndMove (cloneGameState s) pid (dice ! 0, dice ! 1))))"

definition service_buyProperty :: "GameEngineState \<Rightarrow> string \<Rightarrow> GameEngineError + GameEngineResult" where
  "service_buyProperty s pid =
     andThen (assertCanBuyProperty s) (\<lambda>_.
     andThen (assertCurrentTurn s pid) (\<lambda>_.
     buyProperty (cloneGameState s) pid))"

definition service_declinePropertyPurchase ::
  "Env \<Rightarrow> GameEngineState \<Rightarrow> string \<Rightarrow> GameEngineError + GameEngineResult" where
  "service_declinePropertyPurchase env s pid =
     andThen (assertCanBuyProperty s) (\<lambda>_.
     andThen (assertCurrentTurn s pid) (\<lambda>_.
     declinePropertyPurchase (dateNow env) (cloneGameState s) pid))"

definition service_buildProperty ::
  "GameEngineState \<Rightarrow> string \<Rightarrow> string \<Rightarrow> GameEngineError + GameEngineResult" where
  "service_buildProperty s pid key =
     andThen (assertCurrentTurn s pid) (\<lambda>_. buildProperty (cloneGameState s) pid key)"

definition service_sellBuilding ::
  "GameEngineState \<Rightarrow> string \<Rightarrow> string \<Rightarrow> GameEngineError + GameEngineResult" where
  "service_sellBuilding s pid key =
     andThen (assertCurrentTurn s pid) (\<lambda>_. sellBuilding (cloneGameState s) pid key)"

definition service_mortgageProperty ::
  "GameEngineState \<Rightarrow> string \<Rightarrow> string \<Rightarrow> GameEngineError + GameEngineResult" where
  "service_mortgageProperty s pid key =
     andThen (assertCurrentTurn s pid) (\<lambda>_. mortgageProperty (cloneGameState s) pid key)"

definition service_unmortgageProperty ::
  "GameEngineState \<Rightarrow> string \<Rightarrow> string \<Rightarrow> GameEngineError + GameEngineResult" where
  "service_unmortgageProperty s pid key =
     andThen (assertCurrentTurn s pid) (\<lambda>_. unmortgageProperty (cloneGameState s) pid key)"

definition service_payJailFine :: "GameEngineState \<Rightarrow> string \<Rightarrow> GameEngineError + GameEngineResult" where
  "service_payJailFine s pid =
     andThen (assertCurrentTurn s pid) (\<lambda>_. payJailFine (cloneGameState s) pid)"

definition service_useGetOutOfJailCard ::
  "GameEngineState \<Rightarrow> string \<Rightarrow> GameEngineError + GameEngineResult" where
  "service_useGetOutOfJailCard s pid =
     andThen (assertCurrentTurn s pid) (\<lambda>_. useGetOutOfJailCard (cloneGameState s) pid)"

definition service_endTurn :: "GameEngineState \<Rightarrow> string \<Rightarrow> GameEngineError + GameEngineResult" where
  "service_endTurn s pid =
     andThen (assertCanEndTurn s) (\<lambda>_.
     andThen (assertCurrentTurn s pid) (\<lambda>_.
     endTurn (cloneGameState s) pid))"

section \<open>Intents\<close>

datatype GameEngineIntent =
  Roll_and_move string "int list"
| Buy_property string
| Decline_property_purchase string
| Place_auction_bid string int
| Pass_auction_bid string
| Build_property string string
| Sell_building string string
| Mortgage_property string string
| Unmortgage_property string string
| Propose_trade ProposeTradeInput
| Accept_trade string string
| Reject_trade string string
| Cancel_trade string string
| Declare_bankruptcy string "string option"
| Pay_debt string
| Auto_resolve_debt string
| Pay_jail_fine string
| Use_get_out_of_jail_card string
| End_turn string
| Finish_game_by_time int
| Finish_game_after_last_human_left int

fun reduceGameEngineIntent ::
  "Env \<Rightarrow> GameEngineState \<Rightarrow> GameEngineIntent \<Rightarrow> GameEngineError + GameEngineResult" where
  "reduceGameEngineIntent env s (Roll_and_move pid dice) = service_rollAndMove s pid dice"
| "reduceGameEngineIntent env s (Buy_property pid) = service_buyProperty s pid"
| "reduceGameEngineIntent env s (Decline_property_purchase pid) =
     service_declinePropertyPurchase env s pid"
| "reduceGameEngineIntent env s (Place_auction_bid pid amount) =
     placeAuctionBid (dateNow env) (cloneGameState s) pid amount"
| "reduceGameEngineIntent env s (Pass_auction_bid pid) =
     passAuctionBid (dateNow env) (cloneGameState s) pid"
| "reduceGameEngineIntent env s (Build_property pid key) = service_buildProperty s pid key"
| "reduceGameEngineIntent env s (Sell_building pid key) = service_sellBuilding s pid key"
| "reduceGameEngineIntent env s (Mortgage_property pid key) = service_mortgageProperty s pid key"
| "reduceGameEngineIntent env s (Unmortgage_property pid key) = service_unmortgageProperty s pid key"
| "reduceGameEngineIntent env s (Propose_trade input) = proposeTrade env (cloneGameState s) input"
| "reduceGameEngineIntent env s (Accept_trade pid tradeId) = acceptTrade (cloneGameState s) pid tradeId"
| "reduceGameEngineIntent env s (Reject_trade pid tradeId) = rejectTrade (cloneGameState s) pid tradeId"
| "reduceGameEngineIntent env s (Cancel_trade pid tradeId) = cancelTrade (cloneGameState s) pid tradeId"
| "reduceGameEngineIntent env s (Declare_bankruptcy pid creditor) =
     declareBankruptcy (cloneGameState s) pid creditor"
| "reduceGameEngineIntent env s (Pay_debt pid) = payDebt (cloneGameState s) pid"
| "reduceGameEngineIntent env s (Auto_resolve_debt pid) = autoResolveDebt (cloneGameState s) pid"
| "reduceGameEngineIntent env s (Pay_jail_fine pid) = service_payJailFine s pid"
| "reduceGameEngineIntent env s (Use_get_out_of_jail_card pid) = service_useGetOutOfJailCard s pid"
| "reduceGameEngineIntent env s (End_turn pid) = service_endTurn s pid"
| "reduceGameEngineIntent env s (Finish_game_by_time finishedAt) =
     finishGameByTime (cloneGameState s) finishedAt"
| "reduceGameEngineIntent env s (Finish_game_after_last_human_left finishedAt) =
     finishGameAfterLastHumanLeft (cloneGameState s) finishedAt"

section \<open>The initial state\<close>

record JoinedRoomPlayer =
  joined_id :: string
  joined_userId :: "string option"
  joined_username :: "string option"
  joined_playerType :: PlayerType
  joined_botDifficulty :: "BotDifficulty option"
  joined_botName :: "string option"
  joined_seatNumber :: int

definition STARTING_CASH :: int where "STARTING_CASH = 1500"

definition turnTimeoutMs :: int where "turnTimeoutMs = 90000"

definition joinPlayer :: "JoinedRoomPlayer \<Rightarrow> GameEnginePlayer" where
  "joinPlayer p =
     \<lparr>roomPlayerId = joined_id p, userId = joined_userId p, username = joined_username p,
      playerType = joined_playerType p, botDifficulty = joined_botDifficulty p,
      botName = joined_botName p, seatNumber = joined_seatNumber p, cash = STARTING_CASH,
      position = 0, inJail = False, jailTurnCount = 0, getOutOfJailFreeCards = 0,
      getOutOfJailFreeCardKeys = Some [], consecutiveMissedTurns = Some 0,
      lastMissedTurnNumber = None, lastBotTradeProposalTurnNumber = None, bankrupt = False\<rparr>"

definition createInitialGameState ::
  "int \<Rightarrow> string \<Rightarrow> string \<Rightarrow> int option \<Rightarrow> int \<Rightarrow> GameMode \<Rightarrow> JoinedRoomPlayer list \<Rightarrow>
   GameEngineError + GameEngineState" where
  "createInitialGameState now room_id room_code started duration game_mode joined =
     (let startedAtMs = (case started of Some t \<Rightarrow> t | None \<Rightarrow> now);
          expires = startedAtMs + duration * 60 * 1000 in
      andThen (ofOption UndefinedRead (jsNth joined 0)) (\<lambda>firstPlayer.
      Inr \<lparr>state_version = 1, roomId = room_id, roomCode = room_code, boardKey = Classic,
           mode = game_mode, startedAt = Some startedAtMs, durationMinutes = Some duration,
           expiresAt = Some expires,
           turnExpiresAt = Some (min (startedAtMs + turnTimeoutMs) expires),
           phase = Awaiting_first_turn, turnNumber = 1,
           currentTurnRoomPlayerId = joined_id firstPlayer,
           consecutiveDoublesCount = 0, shouldCurrentPlayerPlayAgain = False,
           lastDiceRoll = None, pendingTileKey = None, auction = None, tradeOffer = None,
           debt = None, decks = createInitialDeckState (Some room_id),
           players = map joinPlayer joined,
           properties = createInitialPropertyState Classic\<rparr>))"

section \<open>Well-formedness is kept\<close>

lemma truthy_pending: "truthy k \<Longrightarrow> k = Some (the k)"
  by (cases k) auto

lemma buyProperty_Inr:
  assumes "buyProperty s pid = Inr (s', evs)"
  obtains key tile q t where "pendingTileKey s = Some key" "findTile CLASSIC_GAME_BOARD key = Some tile"
    "ownableKind (kind tile)" "findBy tileKey key (properties s) = Some q" "\<not> truthy (ownerRoomPlayerId q)"
    "debitPlayer s pid (price tile) = Inr t"
    "s' = (updatePropertyState t key (\<lambda>c. c\<lparr>ownerRoomPlayerId := Some pid\<rparr>))
       \<lparr>phase := Awaiting_turn_end, pendingTileKey := None\<rparr>"
    "evs = [Property_bought pid key (price tile)]"
proof -
  from assms obtain tile q t where "truthy (pendingTileKey s)"
    and *: "findTile CLASSIC_GAME_BOARD (the (pendingTileKey s)) = Some tile" "ownableKind (kind tile)"
    "findBy tileKey (tile_key tile) (properties s) = Some q" "\<not> truthy (ownerRoomPlayerId q)"
    "debitPlayer s pid (price tile) = Inr t"
    "s' = (updatePropertyState t (tile_key tile) (\<lambda>c. c\<lparr>ownerRoomPlayerId := Some pid\<rparr>))
       \<lparr>phase := Awaiting_turn_end, pendingTileKey := None\<rparr>"
    "evs = [Property_bought pid (tile_key tile) (price tile)]"
    by (auto simp: buyProperty_def Let_def getTileByKey_def isOwnableTile_iff)
  moreover have "tile_key tile = the (pendingTileKey s)" using findTile_SomeD [OF *(1)] by simp
  ultimately show thesis using that [of "the (pendingTileKey s)" tile q t] truthy_pending by simp
qed

lemma buyProperty_wf:
  assumes wf: "wf_state s" and active: "pid \<in> activeIds (players s)" and phase: "phase s = Awaiting_property_decision"
    and buy: "buyProperty s pid = Inr (s', evs)"
  shows "wf_state s'"
proof (rule buyProperty_Inr [OF buy])
  fix key tile q t
  assume q: "findBy tileKey key (properties s) = Some q" "\<not> truthy (ownerRoomPlayerId q)"
    and t: "debitPlayer s pid (price tile) = Inr t"
    and s': "s' = (updatePropertyState t key (\<lambda>c. c\<lparr>ownerRoomPlayerId := Some pid\<rparr>))
       \<lparr>phase := Awaiting_turn_end, pendingTileKey := None\<rparr>"
  have "coreOk (updatePropertyState t key (\<lambda>c. c\<lparr>ownerRoomPlayerId := Some pid\<rparr>))"
    using debitPlayer_wf [OF wf t] q active active_nonempty [OF wf active]
    by (intro coreOk_updateProperty)
      (auto simp: wf_state_def propertyOk_def built_def debitPlayer_frame [OF t])
  moreover have "debt s = None" "auction s = None" using wf phase by (auto simp: wf_state_def phaseOk_def)
  ultimately show ?thesis
    using phase by (auto simp: s' wf_state_def coreOk_def phaseOk_def debitPlayer_frame [OF t])
qed

lemma endTurn_wf:
  assumes wf: "wf_state s" and calm: "calm s" "pendingTileKey s = None" and turn: "endTurn s pid = Inr (s', evs)"
  shows "wf_state s'"
proof (cases "shouldCurrentPlayerPlayAgain s")
  case True
  then show ?thesis
    using turn wf calm by (auto simp: endTurn_def wf_state_def coreOk_def phaseOk_def calm_def)
next
  case False
  have ids: "set (seatOrder s) = activeIds (players s)" by (auto simp: seatOrder_def activeIds_def)
  obtain p where "findNextActivePlayer s = Inr p" "p \<in> set (getActivePlayers s)"
    using findNextActivePlayer_ring [of s] playersOk_distinct [OF wf_stateD(3) [OF wf]] calm_current [OF wf calm(1)]
    unfolding ids by (auto simp: playerIds_def)
  then have "roomPlayerId p \<in> activeIds (players s)"
    "s' = s\<lparr>phase := Awaiting_roll, turnNumber := turnNumber s + 1, currentTurnRoomPlayerId := roomPlayerId p,
      consecutiveDoublesCount := 0, shouldCurrentPlayerPlayAgain := False, lastDiceRoll := None, tradeOffer := None\<rparr>"
    using turn False by (auto simp: endTurn_def Let_def activeIds_def)
  then show ?thesis
    using wf calm by (auto simp: wf_state_def coreOk_def phaseOk_def calm_def)
qed

lemma wf_calm:
  assumes "wf_state s" "assertGameActive s = Inr ()" "assertNoDebtResolution s = Inr ()" "phase s \<noteq> Awaiting_auction_bid"
  shows "calm s"
  using assms by (auto simp: assertGameActive_def assertNoDebtResolution_def calm_def terminal_def wf_state_def phaseOk_def)

lemma service_rollAndMove_wf:
  assumes "wf_state s" "service_rollAndMove s pid dice = Inr (s', evs)"
  shows "wf_state s'"
proof -
  from assms(2) have roll: "assertCanRoll s = Inr ()" "assertCurrentTurn s pid = Inr ()"
    "assertValidDice dice = Inr ()" "rollAndMove s pid (dice ! 0, dice ! 1) = Inr (s', evs)"
    by (auto simp: service_rollAndMove_def)
  have "calm s" using roll(1) wf_calm [OF assms(1)] by (auto simp: assertCanRoll_def)
  moreover have "pendingTileKey s = None"
    using roll(1) assms(1) by (auto simp: assertCanRoll_def wf_state_def phaseOk_def)
  moreover have "0 \<le> fst (dice ! 0, dice ! 1) + snd (dice ! 0, dice ! 1)"
  proof -
    from roll(3) obtain x y where "dice = [x, y]" "1 \<le> x" "1 \<le> y"
      by (auto simp: assertValidDice_def numeral_2_eq_2 length_Suc_conv)
    then show ?thesis by simp
  qed
  moreover have "currentTurnRoomPlayerId s = pid" using roll(2) by (simp add: assertCurrentTurn_Inr_iff)
  ultimately show ?thesis using rollAndMove_wf [OF assms(1)] roll(4) by blast
qed

lemma service_endTurn_wf:
  assumes "wf_state s" "service_endTurn s pid = Inr (s', evs)"
  shows "wf_state s'"
proof -
  from assms(2) have turn: "assertCanEndTurn s = Inr ()" "endTurn s pid = Inr (s', evs)"
    by (auto simp: service_endTurn_def)
  have "calm s" using turn(1) wf_calm [OF assms(1)] by (auto simp: assertCanEndTurn_def)
  moreover have "pendingTileKey s = None"
    using turn(1) assms(1) by (auto simp: assertCanEndTurn_def wf_state_def phaseOk_def)
  ultimately show ?thesis using endTurn_wf [OF assms(1)] turn(2) by blast
qed

lemma service_buyProperty_wf:
  assumes "wf_state s" "service_buyProperty s pid = Inr (s', evs)"
  shows "wf_state s'"
  using assms buyProperty_wf [OF assms(1) currentTurn_active [OF assms(1)]]
  by (auto simp: service_buyProperty_def assertCanBuyProperty_def)

lemma service_declinePropertyPurchase_wf:
  assumes "wf_state s" "service_declinePropertyPurchase env s pid = Inr (s', evs)"
  shows "wf_state s'"
  using assms declinePropertyPurchase_wf [OF assms(1)]
  by (auto simp: service_declinePropertyPurchase_def assertCanBuyProperty_def assertNoDebtResolution_def)

lemmas operation_wf =
  service_rollAndMove_wf service_buyProperty_wf service_declinePropertyPurchase_wf placeAuctionBid_wf
  passAuctionBid_wf buildProperty_wf sellBuilding_wf mortgageProperty_wf unmortgageProperty_wf
  proposeTrade_wf acceptTrade_wf rejectTrade_wf cancelTrade_wf declareBankruptcy_wf payDebt_wf
  autoResolveDebt_wf payJailFine_wf useGetOutOfJailCard_wf service_endTurn_wf finishGameByTime_wf
  finishGameAfterLastHumanLeft_wf

lemmas service_delegates =
  service_buildProperty_def service_sellBuilding_def service_mortgageProperty_def
  service_unmortgageProperty_def service_payJailFine_def service_useGetOutOfJailCard_def

lemma reduce_wf:
  assumes "wf_state s" "reduceGameEngineIntent env s i = Inr (s', evs)"
  shows "wf_state s'"
  using assms by (cases i) (auto simp: service_delegates dest: operation_wf)

section \<open>Reachable states\<close>

definition joinedOk :: "JoinedRoomPlayer list \<Rightarrow> bool" where
  "joinedOk ps \<longleftrightarrow> ps \<noteq> [] \<and> distinct (map joined_id ps) \<and> [] \<notin> set (map joined_id ps)"

lemma createInitialGameState_wf:
  assumes "joinedOk ps"
  shows "\<exists>s. createInitialGameState now rid code started duration m ps = Inr s \<and> wf_state s"
proof -
  obtain p qs where ps: "ps = p # qs" using assms by (cases ps) (auto simp: joinedOk_def)
  obtain s where s: "createInitialGameState now rid code started duration m ps = Inr s"
    by (simp add: createInitialGameState_def Let_def ps jsNth_def)
  have cards: "cardsOk (createInitialDeckState (Some rid)) {#}"
    by (simp add: cardsOk_def initial_piles)
  have props: "propertiesOk A (createInitialPropertyState Classic)" for A
    by (auto simp: propertiesOk_def createInitialPropertyState_def ownableKeys_def list_all_iff propertyOk_def built_def)
  have pl: "players s = map joinPlayer ps"
    using s by (auto simp: createInitialGameState_def Let_def ps jsNth_def)
  have ids: "map roomPlayerId (map joinPlayer ps) = map joined_id ps" by (simp add: joinPlayer_def)
  have "playersOk (players s)"
    using assms unfolding playersOk_def pl ids
    by (auto simp: joinedOk_def list_all_iff playerOk_def joinPlayer_def heldKeys_def STARTING_CASH_def image_iff)
  moreover have "activeIds (players s) = set (map joined_id ps)"
    by (auto simp: pl activeIds_def joinPlayer_def)
  moreover have "heldCards (players s) = {#}"
    by (auto simp: pl heldCards_def joinPlayer_def heldKeys_def)
  moreover have "decks s = createInitialDeckState (Some rid)" "properties s = createInitialPropertyState Classic"
    "phase s = Awaiting_first_turn" "debt s = None" "auction s = None" "pendingTileKey s = None"
    "consecutiveDoublesCount s = 0" "currentTurnRoomPlayerId s = joined_id p"
    using s by (auto simp: createInitialGameState_def Let_def ps jsNth_def)
  ultimately show ?thesis
    using s cards props by (auto simp: wf_state_def coreOk_def phaseOk_def ps)
qed

text \<open>
  The engine as a state machine: it starts in the state of a room whose players have distinct
  identifiers, and an accepted intent takes it to the next state. A refused one changes nothing.
\<close>

inductive reachable :: "GameEngineState \<Rightarrow> bool" where
  start: "joinedOk ps \<Longrightarrow> createInitialGameState now rid code started duration m ps = Inr s \<Longrightarrow> reachable s"
| step: "reachable s \<Longrightarrow> reduceGameEngineIntent env s i = Inr (s', evs) \<Longrightarrow> reachable s'"

lemma reachable_wf: "reachable s \<Longrightarrow> wf_state s"
proof (induction rule: reachable.induct)
  case (start ps now rid code started duration m s)
  obtain t where "createInitialGameState now rid code started duration m ps = Inr t" "wf_state t"
    using createInitialGameState_wf [OF start(1)] by blast
  with start(2) show ?case by simp
next
  case (step s env i s' evs)
  then show ?case by (blast intro: reduce_wf)
qed

inductive_cases reachableE: "reachable s"

text \<open>A script of intents, each with the clock and identifier of its moment; refusals are skipped.\<close>

fun play :: "(Env \<times> GameEngineIntent) list \<Rightarrow> GameEngineState \<Rightarrow> GameEngineState" where
  "play [] s = s"
| "play ((env, i) # script) s =
     (case reduceGameEngineIntent env s i of
        Inl e \<Rightarrow> play script s
      | Inr (s', evs) \<Rightarrow> play script s')"

lemma play_reachable: "reachable s \<Longrightarrow> reachable (play script s)"
proof (induction script arbitrary: s)
  case (Cons x script)
  obtain env i where x: "x = (env, i)" by (cases x)
  show ?case
  proof (cases "reduceGameEngineIntent env s i")
    case (Inr r)
    then show ?thesis using Cons by (cases r) (auto simp: x intro: reachable.step)
  qed (use Cons in \<open>simp add: x\<close>)
qed simp

section \<open>Properties\<close>

definition sampleRoom :: "JoinedRoomPlayer list" where
  "sampleRoom =
     [\<lparr>joined_id = ''a'', joined_userId = Some ''u'', joined_username = None, joined_playerType = Human,
       joined_botDifficulty = None, joined_botName = None, joined_seatNumber = 1\<rparr>,
      \<lparr>joined_id = ''b'', joined_userId = None, joined_username = None, joined_playerType = Bot,
       joined_botDifficulty = Some Normal, joined_botName = None, joined_seatNumber = 2\<rparr>]"

lemma sampleRoom_ok: "joinedOk sampleRoom"
  by code_simp

text \<open>
  C1. Every state the engine can reach from the start of a game, by any intents in any order, is
  well formed: no negative cash, positions on the board, at most four houses or one hotel and only
  on unmortgaged streets, properties owned by players who are still in the game, all thirty-two cards
  accounted for, and the fields of debt, auction and pending purchase set exactly in their phases and
  consistent with players and properties.
\<close>

theorem reachable_states_well_formed:
  assumes "reachable s"
  shows "wf_state s"
  using assms by (rule reachable_wf)

theorem reachable_states_well_formed_witness:
  "\<exists>s. createInitialGameState 0 ''r'' ''c'' None 60 Casual sampleRoom = Inr s \<and>
     wf_state (play [(\<lparr>dateNow = 1, randomUUID = ''t''\<rparr>, Roll_and_move ''a'' [2, 3])] s)"
proof -
  obtain s where s: "createInitialGameState 0 ''r'' ''c'' None 60 Casual sampleRoom = Inr s"
    using createInitialGameState_wf [OF sampleRoom_ok] by blast
  have "reachable s" by (rule reachable.start [OF sampleRoom_ok s])
  from reachable_states_well_formed [OF play_reachable [OF this]] s show ?thesis by blast
qed

end
