(* ===== verification/Game_Errors.thy ===== *)
theory Game_Errors
  imports Game_Engine
begin

text \<open>
  How the engine refuses an intent. \<^const>\<open>expected\<close> are the coded refusals of
  \<^verbatim>\<open>GAME_ENGINE_ERRORS\<close>; the lemmas below show, operation by operation, that from a well-formed
  state nothing else comes out: no read of a missing value, no plain \<^verbatim>\<open>Error\<close>, no empty deck or
  unknown card, and no run of the debt resolution loop that does not end.
\<close>

section \<open>Cards\<close>

lemma deck_not_empty:
  assumes ok: "cardsOk (decks s) held"
  shows "pileCards (getDeck s d) \<noteq> {#}"
proof
  assume empty: "pileCards (getDeck s d) = {#}"
  define k where "k = (if d = Chance then ''chance_go_to_jail'' else ''world_fund_go_to_jail'')"
  have home: "k \<in> set (deckCardKeys d)" "k \<notin> set jailCardKeys"
    by (cases d; simp add: k_def; code_simp)+
  have "k \<in># mset (deckCardKeys Chance @ deckCardKeys World_fund)" using home(1) by (cases d) auto
  then have "k \<in># pileCards (chance (decks s)) + pileCards (worldFund (decks s)) + held"
    using ok by (simp add: cardsOk_def)
  then have "k \<in> set (deckCardKeys (if d = Chance then World_fund else Chance))"
    using ok empty home(2) by (cases d) (auto simp: cardsOk_def getDeck_def)
  then show False using home(1) distinct_deckCardKeys by (cases d) auto
qed

lemma drawCard_total:
  assumes "cardsOk (decks s) held"
  obtains t k where "drawCard s d = Inr (t, k)" "k \<in> set (deckCardKeys d)"
proof -
  obtain r where r: "drawCard s d = Inr r"
    using decks.draw_succeeds [OF deck_not_empty [OF assms] cardsOk_pile(1) [OF assms]] by blast
  with drawCard_cardsOk(1) [OF assms] show thesis by (cases r) (auto intro: that)
qed

text \<open>Payments of a player of the game either go through or leave a debt.\<close>

lemma payments_total:
  assumes "pid \<in> set (playerIds s)" "0 \<le> a"
  shows "creditPlayer s pid a \<noteq> Inl e" "debitPlayerOrCreateDebt s pid a r c \<noteq> Inl e"
    "pid' \<in> set (playerIds s) \<Longrightarrow> transferPlayerCashOrCreateDebt s pid pid' a r \<noteq> Inl e"
proof -
  obtain p where p: "findBy roomPlayerId pid (players s) = Some p" using ids_findPlayer [OF assms(1)] by blast
  have credit: "creditPlayer t k a \<noteq> Inl e" if "k \<in> set (playerIds t)" for t k
    using that assms(2) by (auto simp: creditPlayer_def andThen_Inl_iff)
  then show "creditPlayer s pid a \<noteq> Inl e" using assms(1) .
  have debit: "\<exists>t. debitPlayer s pid a = Inr t \<and> playerIds t = playerIds s" if "a \<le> cash p"
    using p that assms(2) by (auto simp: debitPlayer_Inr_iff)
  show "debitPlayerOrCreateDebt s pid a r c \<noteq> Inl e"
    using p assms debit by (auto simp: debitPlayerOrCreateDebt_def findPlayer_def)
  show "transferPlayerCashOrCreateDebt s pid pid' a r \<noteq> Inl e" if pid': "pid' \<in> set (playerIds s)"
  proof (cases "a \<le> cash p")
    case True
    then obtain t where t: "debitPlayer s pid a = Inr t" "playerIds t = playerIds s" using debit by blast
    then show ?thesis
      using p pid' credit [of pid' t]
      by (auto simp: transferPlayerCashOrCreateDebt_def transferPlayerCash_def findPlayer_def andThen_Inl_iff
          findBy_None_iff playerIds_def split: option.splits)
  next
    case False
    then show ?thesis
      using p ids_findPlayer [OF pid'] by (auto simp: transferPlayerCashOrCreateDebt_def findPlayer_def)
  qed
qed

lemma wf_solvent: "wf_state s \<Longrightarrow> solvent s"
  using wf_stateD(3) by (fastforce simp: solvent_def playersOk_def playerOk_def list_all_iff playerIds_def)

lemma collects_total:
  assumes "solvent s" "balance s pid \<noteq> None" "distinct (map roomPlayerId ps)" "pid \<notin> roomPlayerId ` set ps" "0 \<le> a"
    and "\<forall>p\<in>set ps. balance s (roomPlayerId p) = Some (cash p) \<and> 0 \<le> cash p"
  shows "\<exists>t. foldM (\<lambda>t p. transferPlayerCash t (roomPlayerId p) pid (min (cash p) a)) s ps = Inr t"
  using assms
proof (induction ps arbitrary: s)
  case (Cons p ps)
  let ?m = "min (cash p) a"
  have "\<exists>t. transferPlayerCash s (roomPlayerId p) pid ?m = Inr t"
    unfolding transferPlayerCash_def cash_ledger.transfer_possible [OF Cons.prems(1)] using Cons.prems by auto
  then obtain t where t: "transferPlayerCash s (roomPlayerId p) pid ?m = Inr t" ..
  note step = Cons.prems(1) t [unfolded transferPlayerCash_def]
  have bal: "balance t = (balance s)(roomPlayerId p \<mapsto> the (balance s (roomPlayerId p)) - ?m,
      pid \<mapsto> the (balance s pid) + ?m)"
    using cash_ledger.transfer_balance [OF step] Cons.prems(4) by auto
  have "\<exists>u. foldM (\<lambda>t p. transferPlayerCash t (roomPlayerId p) pid (min (cash p) a)) t ps = Inr u"
    using Cons.prems cash_ledger.transfer_valid [OF step] by (intro Cons.IH) (auto simp: bal image_iff)
  with t show ?case by auto
qed simp

lemma gives_total:
  assumes "solvent s" "balance s pid = Some b" "pid \<notin> roomPlayerId ` set ps" "0 \<le> a" "int (length ps) * a \<le> b"
    and "\<forall>p\<in>set ps. balance s (roomPlayerId p) \<noteq> None"
  shows "\<exists>t. foldM (\<lambda>t p. transferPlayerCash t pid (roomPlayerId p) a) s ps = Inr t"
  using assms
proof (induction ps arbitrary: s b)
  case (Cons p ps)
  have "0 \<le> int (length ps) * a" using Cons.prems(4) by simp
  then have rest: "a \<le> b" "int (length ps) * a \<le> b - a" using Cons.prems(5) by (simp_all add: algebra_simps)
  have "\<exists>t. transferPlayerCash s pid (roomPlayerId p) a = Inr t"
    unfolding transferPlayerCash_def cash_ledger.transfer_possible [OF Cons.prems(1)]
    using Cons.prems rest by auto
  then obtain t where t: "transferPlayerCash s pid (roomPlayerId p) a = Inr t" ..
  note step = Cons.prems(1) t [unfolded transferPlayerCash_def]
  have bal: "balance t = (balance s)(pid \<mapsto> the (balance s pid) - a,
      roomPlayerId p \<mapsto> the (balance s (roomPlayerId p)) + a)"
    using cash_ledger.transfer_balance [OF step] Cons.prems(3) by auto
  have "\<exists>u. foldM (\<lambda>t p. transferPlayerCash t pid (roomPlayerId p) a) t ps = Inr u"
    using Cons.prems rest cash_ledger.transfer_valid [OF step] by (intro Cons.IH [of t "b - a"]) (auto simp: bal)
  with t show ?case by auto
qed simp

lemma repairs_nonneg:
  assumes "0 \<le> h" "0 \<le> t"
  shows "0 \<le> (a::int) \<Longrightarrow>
    0 \<le> foldl (\<lambda>total p. if hasHotel p then total + t else total + int (houseCount p) * h) a (qs :: GameEngineProperty list)"
  using assms by (induction qs arbitrary: a) auto

lemma cash_effects_total:
  assumes ok: "playersOk (players s)" and pid: "pid \<in> set (playerIds s)"
  shows "0 \<le> a \<Longrightarrow> collectFromEachPlayer s pid a \<noteq> Inl e"
    and "0 \<le> a \<Longrightarrow> payEachPlayer s pid a \<noteq> Inl e"
    and "0 \<le> a \<Longrightarrow> 0 \<le> b \<Longrightarrow> payPropertyRepairs s pid a b \<noteq> Inl e"
proof -
  have solvent: "solvent s"
    using ok by (fastforce simp: solvent_def playersOk_def playerOk_def list_all_iff playerIds_def)
  obtain p where p: "findBy roomPlayerId pid (players s) = Some p" using ids_findPlayer [OF pid] by blast
  have others: "distinct (map roomPlayerId (otherActivePlayers s pid))" "pid \<notin> roomPlayerId ` set (otherActivePlayers s pid)"
    "\<forall>q\<in>set (otherActivePlayers s pid). balance s (roomPlayerId q) = Some (cash q) \<and> 0 \<le> cash q"
    using solvent findPlayer_unique [of s]
    by (auto simp: otherActivePlayers_def solvent_def playerIds_def distinct_map_filter balance_def list_all_iff)
  show "0 \<le> a \<Longrightarrow> collectFromEachPlayer s pid a \<noteq> Inl e"
    using collects_total [OF solvent _ others(1,2), of a] others(3) p
    by (auto simp: collectFromEachPlayer_def findPlayer_def balance_def)
  have "\<forall>q\<in>set (otherActivePlayers s pid). balance s (roomPlayerId q) \<noteq> None" using others(3) by auto
  then show "0 \<le> a \<Longrightarrow> payEachPlayer s pid a \<noteq> Inl e"
    using gives_total [OF solvent _ others(2), of "cash p" a] p payments_total(2) [OF pid]
    by (auto simp: payEachPlayer_def findPlayer_def balance_def Let_def andThen_Inl_iff not_less)
  show "0 \<le> a \<Longrightarrow> 0 \<le> b \<Longrightarrow> payPropertyRepairs s pid a b \<noteq> Inl e"
    using payments_total(2) [OF pid repairs_nonneg [of a b 0]]
    by (simp add: payPropertyRepairs_def andThen_Inl_iff Let_def split: prod.splits)
qed

lemma payRent_total:
  assumes wf: "wf_state s" and pid: "pid \<in> set (playerIds s)" and dice: "0 \<le> fst dice + snd dice"
  shows "payRent s pid key dice \<noteq> Inl e"
proof
  assume "payRent s pid key dice = Inl e"
  then obtain q tile where tile: "findTile CLASSIC_GAME_BOARD key = Some tile" "isRentableTile tile"
    and q: "findBy tileKey key (properties s) = Some q" "truthy (ownerRoomPlayerId q)"
    and step: "calculateRent s tile dice = Inl e \<or> (\<exists>amount. calculateRent s tile dice = Inr amount \<and>
      transferPlayerCashOrCreateDebt s pid (the (ownerRoomPlayerId q)) amount Rent = Inl e)"
    by (auto simp: payRent_def findProperty_def andThen_Inl_iff Let_def split: option.splits if_splits)
  obtain r where "calculateRent s tile dice = Inr r" "0 \<le> r"
    using calculateRent_nonneg [OF wf_stateD(4) [OF wf] _ _ dice] tile
    by (auto simp: isRentableTile_iff dest: findTile_SomeD)
  moreover have "the (ownerRoomPlayerId q) \<in> set (playerIds s)"
    using propertiesOk_found [OF wf_stateD(4) [OF wf] q(1)] q(2) active_in_ids by (simp add: propertyOk_def)
  ultimately show False using step payments_total(3) [OF pid] by auto
qed

lemma payTax_total:
  assumes "pid \<in> set (playerIds s)" "findTile CLASSIC_GAME_BOARD key = Some tile" "kind tile = Kind_tax"
  shows "payTax s pid key \<noteq> Inl e"
  using assms payments_total(2) [OF assms(1)] tax_amount_pos [of tile] findTile_SomeD [OF assms(2)]
  by (fastforce simp: payTax_def getTaxTile_def andThen_Inl_iff)

lemma nearest_tiles: "filter (\<lambda>t. kind t = Kind_airport) classicTiles \<noteq> []"
  "filter (\<lambda>t. kind t = Kind_utility) classicTiles \<noteq> []"
  by code_simp+

lemma cardMove_target:
  assumes p: "findBy roomPlayerId pid (players s) = Some p" and pos: "0 \<le> position p" "position p < 40"
    and ok: "effectOk effect" and move: "effectType effect \<in> {Effect_move_to_tile, Effect_move_relative, Effect_move_to_nearest}"
  shows "\<exists>t. getCardMoveTargetTile s pid effect = Inr (Some t)"
proof -
  have first: "\<exists>x. jsNth (sort_key f xs) 0 = Some x" if "xs \<noteq> []" for f :: "GameTile \<Rightarrow> int" and xs
  proof -
    have "sort_key f xs \<noteq> []" using that by (metis length_0_conv length_sort)
    then show ?thesis by (simp add: jsNth_def)
  qed
  have three: "\<exists>t. getTile CLASSIC_GAME_BOARD (jsRem (position p - 3 + 40) 40) = Inr t"
    using getTile_ok [of "jsRem (position p - 3 + 40) 40"] pos by (auto simp: jsRem_def)
  show ?thesis
    using ok move p three first nearest_tiles
    by (cases effect) (auto simp: getCardMoveTargetTile_def findPlayer_def Let_def)
qed

lemma diceSum_nonneg: "0 \<le> fst (case lastDiceRoll s of None \<Rightarrow> (0, 0) | Some d \<Rightarrow> d) +
   snd (case lastDiceRoll s of None \<Rightarrow> (0, 0) | Some d \<Rightarrow> d) \<longleftrightarrow> ifSome (\<lambda>d. 0 \<le> fst d + snd d) (lastDiceRoll s)"
  by (cases "lastDiceRoll s") auto

lemma cardTileOutcome_total:
  assumes "wf_state t" "0 \<le> fst dice + snd dice" "pid \<in> set (playerIds t)" "tile \<in> set classicTiles"
  shows "cardTileOutcome t pid tile dice evs \<noteq> Inl e"
  using payRent_total [OF assms(1,3,2)] payTax_total [OF assms(3) findTile_key [OF assms(4)]]
  by (auto simp: cardTileOutcome_def andThen_Inl_iff split: if_splits prod.splits)

lemma creditPlayer_dice: "creditPlayer s pid a = Inr t \<Longrightarrow> lastDiceRoll t = lastDiceRoll s"
  by (auto simp: creditPlayer_Inr_iff)

lemma movePlayerToCardTile_total:
  assumes wf: "wf_state s" and calm: "calm s" and dice: "ifSome (\<lambda>d. 0 \<le> fst d + snd d) (lastDiceRoll s)"
    and ok: "effectOk effect" "effectType effect \<in> {Effect_move_to_tile, Effect_move_relative, Effect_move_to_nearest}"
  shows "movePlayerToCardTile s (currentTurnRoomPlayerId s) effect \<noteq> Inl e"
proof
  assume err: "movePlayerToCardTile s (currentTurnRoomPlayerId s) effect = Inl e"
  let ?pid = "currentTurnRoomPlayerId s"
  let ?dice = "case lastDiceRoll s of None \<Rightarrow> (0, 0) | Some d \<Rightarrow> d"
  obtain p where p: "findBy roomPlayerId ?pid (players s) = Some p"
    using ids_findPlayer [OF active_in_ids [OF calm_current [OF wf calm]]] by blast
  obtain tile where tile: "getCardMoveTargetTile s ?pid effect = Inr (Some tile)"
    using cardMove_target [OF p wf_position(1,2) [OF wf p] ok] by blast
  have board: "tile \<in> set classicTiles" by (rule getCardMoveTargetTile_board [OF tile])
  have range: "0 \<le> tile_index tile" "tile_index tile < 40" using tile_index_range [OF board] by auto
  have id: "?pid \<in> set (playerIds s)" by (rule active_in_ids [OF calm_current [OF wf calm]])
  let ?go = "if effectCollectPassGo effect \<and> tile_index tile \<le> position p \<and> tile_index tile \<noteq> position p
    then creditPlayer s ?pid 200 else Inr s"
  let ?next = "\<lambda>credited. (modifyPlayer ?pid (\<lambda>c. c\<lparr>position := tile_index tile\<rparr>) credited)
    \<lparr>phase := Awaiting_turn_end, pendingTileKey := None\<rparr>"
  have "?go = Inl e \<or> (\<exists>credited evs. ?go = Inr credited \<and>
      cardTileOutcome (?next credited) ?pid tile ?dice evs = Inl e)"
    using err p tile
    unfolding movePlayerToCardTile_def Let_def cardTileOutcome_def [symmetric, unfolded Let_def]
    by (simp only: andThen_Inl_iff andThen_simps findPlayer_def ofOption_simps getGameBoard_eq board_simps) blast
  then consider "?go = Inl e" | credited evs where "?go = Inr credited"
    "cardTileOutcome (?next credited) ?pid tile ?dice evs = Inl e" by blast
  then show False
  proof cases
    case 1
    then show False using payments_total(1) [OF id, of 200] by (auto split: if_splits)
  next
    case 2
    have "wf_state credited" "calm credited"
      using 2(1) wf calm creditPlayer_wf [OF wf, of ?pid 200 credited]
      by (auto simp: calm_def creditPlayer_frame split: if_splits)
    then have "wf_state (?next credited)"
      using range by (intro wf_turn_end) (auto simp: calm_def intro!: wf_modifyPlayer)
    moreover have "playerIds (?next credited) = playerIds s"
      using 2(1) by (auto simp: playerIds_def creditPlayer_Inr_iff split: if_splits)
    ultimately show False
      using cardTileOutcome_total [OF _ _ _ board, of "?next credited" ?dice ?pid] 2(2) id dice by (simp add: diceSum_nonneg)
  qed
qed

lemma applyCardEffect_total:
  assumes wf: "wf_state s" and calm: "calm s" and dice: "ifSome (\<lambda>d. 0 \<le> fst d + snd d) (lastDiceRoll s)"
    and ok: "effectOk (card_effect c)"
  shows "applyCardEffect s (currentTurnRoomPlayerId s) c \<noteq> Inl e"
proof -
  have id: "currentTurnRoomPlayerId s \<in> set (playerIds s)" by (rule active_in_ids [OF calm_current [OF wf calm]])
  show ?thesis
    using ok cash_effects_total [OF wf_stateD(3) [OF wf] id] payments_total [OF id]
      movePlayerToCardTile_total [OF wf calm dice, of "card_effect c"]
    by (cases "card_effect c") (auto simp: applyCardEffect_def andThen_Inl_iff)
qed

lemma drawAndApplyCard_total:
  assumes wf: "wf_state s" and calm: "calm s" and dice: "ifSome (\<lambda>d. 0 \<le> fst d + snd d) (lastDiceRoll s)"
  shows "drawAndApplyCard s (currentTurnRoomPlayerId s) d \<noteq> Inl e"
proof (rule drawCard_total [OF wf_stateD(5) [OF wf], of d], rule)
  fix t k
  assume err: "drawAndApplyCard s (currentTurnRoomPlayerId s) d = Inl e"
    and t: "drawCard s d = Inr (t, k)" and k: "k \<in> set (deckCardKeys d)"
  obtain x where tx: "t = setDeck s d x" by (rule drawCard_frame [OF t])
  obtain c where c: "CARDS_BY_KEY k = Some c" "effectOk (card_effect c)"
    "effectType (card_effect c) = Effect_get_out_of_jail_free \<longleftrightarrow> k \<in> set jailCardKeys"
    by (rule deckCardKeys_card [OF k])
  have eff: "applyCardEffect t (currentTurnRoomPlayerId s) c = Inl e"
    using err t c(1) by (auto simp: drawAndApplyCard_def andThen_Inl_iff)
  then have "card_effect c \<noteq> Get_out_of_jail_free" by (auto simp: applyCardEffect_def)
  then have "k \<notin> set jailCardKeys" using c(3) by (cases "card_effect c") auto
  then have "cardsOk (decks t) (heldCards (players s))"
    using drawCard_cardsOk(2) [OF wf_stateD(5) [OF wf] t] by simp
  then have "wf_state t" using wf by (simp add: wf_state_def coreOk_def phaseOk_def tx)
  moreover have "calm t" "currentTurnRoomPlayerId t = currentTurnRoomPlayerId s" "lastDiceRoll t = lastDiceRoll s"
    using calm by (simp_all add: calm_def tx setDeck_def)
  ultimately show False using applyCardEffect_total [of t c e] dice c(2) eff by simp
qed

section \<open>Jail and movement\<close>

lemma resolveLanding_total:
  assumes "wf_state s" "calm s" "ifSome (\<lambda>d. 0 \<le> fst d + snd d) (lastDiceRoll s)" "0 \<le> fst dice + snd dice"
    and "tile \<in> set classicTiles" "landedTileKey l = tile_key tile" "landedTileKind l = kind tile"
  shows "resolveLanding s (currentTurnRoomPlayerId s) dice l evs \<noteq> Inl e"
proof -
  have id: "currentTurnRoomPlayerId s \<in> set (playerIds s)" by (rule active_in_ids [OF calm_current [OF assms(1,2)]])
  show ?thesis
    using drawAndApplyCard_total [OF assms(1-3)] payRent_total [OF assms(1) id assms(4)]
      payTax_total [OF id findTile_key [OF assms(5)]] assms(6,7)
    by (auto simp: resolveLanding_def andThen_Inl_iff split: if_splits prod.splits)
qed

lemma rollAndMoveIgnoringJail_total:
  assumes wf: "wf_state s" and calm: "calm s" and dice: "0 \<le> fst dice + snd dice"
  shows "rollAndMoveIgnoringJail s (currentTurnRoomPlayerId s) dice suppress \<noteq> Inl e"
proof (cases "\<not> suppress \<and> isThirdConsecutiveDoubles s dice")
  case True
  then show ?thesis by (auto simp: rollAndMoveIgnoringJail_def Let_def split: prod.splits)
next
  case False
  let ?pid = "currentTurnRoomPlayerId s" and ?d = "doublesAfter suppress s dice"
  obtain p where p: "findBy roomPlayerId ?pid (players s) = Some p"
    using ids_findPlayer [OF active_in_ids [OF calm_current [OF wf calm]]] by blast
  have third: "suppress \<or> \<not> isThirdConsecutiveDoubles s dice" using False by blast
  obtain tile evs where tile: "tile \<in> set classicTiles" and roll: "rollAndMoveIgnoringJail s ?pid dice suppress =
      resolveLanding (movedTo ?d ?pid dice tile) ?pid dice (landingOn s tile) evs"
    using rollAndMoveIgnoringJail_walk [OF wf p dice third] getTile_InrD(1) by metis
  have "wf_state (movedTo ?d ?pid dice tile)" "calm (movedTo ?d ?pid dice tile)"
    using movedTo_wf [OF doublesAfter_wf [OF wf third] _ dice] calm by auto
  moreover have "currentTurnRoomPlayerId (movedTo ?d ?pid dice tile) = ?pid"
    "lastDiceRoll (movedTo ?d ?pid dice tile) = Some dice"
    by (simp_all add: movedTo_def Let_def)
  ultimately show ?thesis
    using resolveLanding_total [of "movedTo ?d ?pid dice tile" dice tile "landingOn s tile"] dice tile
    by (simp add: roll landingOn_def)
qed

lemma resolveJailedRoll_total:
  assumes wf: "wf_state s" "calm s" and dice: "0 \<le> fst dice + snd dice"
  shows "resolveJailedRoll s (currentTurnRoomPlayerId s) dice
    (\<lambda>t. rollAndMoveIgnoringJail t (currentTurnRoomPlayerId s) dice True) \<noteq> Inl e"
proof
  assume err: "resolveJailedRoll s (currentTurnRoomPlayerId s) dice
    (\<lambda>t. rollAndMoveIgnoringJail t (currentTurnRoomPlayerId s) dice True) = Inl e"
  let ?pid = "currentTurnRoomPlayerId s"
  have moved: False if "rollAndMoveIgnoringJail t ?pid dice True = Inl e" "wf_state t" "calm t"
    "currentTurnRoomPlayerId t = ?pid" for t
    using rollAndMoveIgnoringJail_total [OF that(2,3) dice] that(1,4) by metis
  obtain p where p: "findBy roomPlayerId ?pid (players s) = Some p"
    using ids_findPlayer [OF active_in_ids [OF calm_current [OF wf]]] by blast
  have n: "0 \<le> jailTurnCount p + 1" using wf_position(4) [OF wf(1) p] by simp
  let ?freed = "(releasePlayerFromJail s ?pid)\<lparr>consecutiveDoublesCount := 0, shouldCurrentPlayerPlayAgain := False\<rparr>"
  let ?fined = "\<lambda>t. releasePlayerFromJail (modifyPlayer ?pid (\<lambda>c. c\<lparr>jailTurnCount := jailTurnCount p + 1\<rparr>) t) ?pid"
  from err p consider "rollAndMoveIgnoringJail ?freed ?pid dice True = Inl e"
    | "debitPlayerOrCreateDebt s ?pid 50 Jail_fine None = Inl e"
    | t evs where "debitPlayerOrCreateDebt s ?pid 50 Jail_fine None = Inr (t, evs, True)"
        "rollAndMoveIgnoringJail (?fined t) ?pid dice True = Inl e"
    by (auto simp: resolveJailedRoll_def Let_def andThen_Inl_iff MAX_JAIL_TURN_COUNT_def JAIL_FINE_AMOUNT_def
        split: if_splits)
  then show False
  proof cases
    case 1
    then show False
      using wf by (intro moved [of ?freed]) (auto simp: calm_def wf_state_doubles releasePlayerFromJail_wf)
  next
    case 2
    then show False
      using payments_total(2) [OF active_in_ids [OF calm_current [OF wf]], of 50] by simp
  next
    case 3
    then have "debitPlayer s ?pid 50 = Inr t" by (auto dest: debitPlayerOrCreateDebt_paid)
    then show False
      using 3 wf n debitPlayer_wf [OF wf(1)]
      by (intro moved [of "?fined t"]) (auto simp: calm_def releasePlayerFromJail_wf jailTurnCount_wf debitPlayer_frame)
  qed
qed

lemma rollAndMove_total:
  assumes "wf_state s" "calm s" "0 \<le> fst dice + snd dice"
  shows "rollAndMove s (currentTurnRoomPlayerId s) dice \<noteq> Inl e"
  using resolveJailedRoll_total [OF assms] rollAndMoveIgnoringJail_total [OF assms]
  by (auto simp: rollAndMove_def andThen_Inl_iff split: option.splits)

lemma assertValidDice_sum: "assertValidDice dice = Inr () \<Longrightarrow> 2 \<le> dice ! 0 + dice ! 1 \<and> dice ! 0 + dice ! 1 \<le> 12"
  by (auto simp: assertValidDice_def numeral_2_eq_2 length_Suc_conv)

lemma service_rollAndMove_errors:
  assumes wf: "wf_state s" and err: "service_rollAndMove s pid dice = Inl e"
  shows "expected e"
proof -
  from err consider "assertCanRoll s = Inl e" | "assertCurrentTurn s pid = Inl e" | "assertValidDice dice = Inl e"
    | "assertCanRoll s = Inr ()" "assertCurrentTurn s pid = Inr ()" "assertValidDice dice = Inr ()"
      "rollAndMove s pid (dice ! 0, dice ! 1) = Inl e"
    by (auto simp: service_rollAndMove_def andThen_Inl_iff)
  then show ?thesis
  proof cases
    case 4
    have "calm s" using 4(1) wf_calm [OF wf] by (auto simp: assertCanRoll_def)
    then show ?thesis
      using rollAndMove_total [OF wf, of "(dice ! 0, dice ! 1)" e] assertValidDice_sum [OF 4(3)] 4(2,4)
      by (auto simp: assertCurrentTurn_Inr_iff)
  qed (auto simp: assertCanRoll_def assertGameActive_def assertNoDebtResolution_def assertValidDice_def
      andThen_Inl_iff assertCurrentTurn_errors)
qed

lemma payJailFine_errors: "payJailFine s pid = Inl e \<Longrightarrow> expected e"
  by (auto simp: payJailFine_def andThen_Inl_iff JAIL_FINE_AMOUNT_def dest: payment_errors)

lemma useGetOutOfJailCard_errors:
  assumes wf: "wf_state s" and err: "useGetOutOfJailCard s pid = Inl e"
  shows "expected e"
proof (rule ccontr)
  assume "\<not> expected e"
  with err obtain p where p: "findBy roomPlayerId pid (players s) = Some p" "0 < getOutOfJailFreeCards p"
    and ret: "returnGetOutOfJailCardToDeck s (case heldKeys p of [] \<Rightarrow> None | k # _ \<Rightarrow> Some k) = Inl e"
    by (auto simp: useGetOutOfJailCard_def andThen_Inl_iff Let_def heldKeys_def)
  have "playerOk p" by (rule playersOk_found [OF wf_stateD(3) [OF wf] p(1)])
  then obtain k ks where held: "heldKeys p = k # ks"
    using p(2) by (cases "heldKeys p") (auto simp: playerOk_def)
  have "k \<in># heldCards (players s)"
    using findBy_SomeD [OF p(1)] held by (force simp: heldCards_def)
  then have "k \<in> set jailCardKeys" using wf_stateD(5) [OF wf] by (auto simp: cardsOk_def)
  from jailCardKeys_home [OF this] ret held show False
    by (auto simp: returnGetOutOfJailCardToDeck_def Let_def)
qed

section \<open>Purchases, auctions and turns\<close>

lemma price_nonneg: "findTile CLASSIC_GAME_BOARD key = Some tile \<Longrightarrow> ownableKind (kind tile) \<Longrightarrow> 0 \<le> price tile"
  using findTile_SomeD [of key tile] ownable_prices [of tile] by auto

lemma buyProperty_errors: "buyProperty s pid = Inl e \<Longrightarrow> expected e"
  by (auto simp: buyProperty_def getTileByKey_def andThen_Inl_iff Let_def isOwnableTile_iff
      dest: price_nonneg payment_errors findPropertyState_errors)

lemma service_purchase_errors:
  "service_buyProperty s pid = Inl e \<Longrightarrow> expected e"
  "service_declinePropertyPurchase env s pid = Inl e \<Longrightarrow> expected e"
  by (auto simp: service_buyProperty_def service_declinePropertyPurchase_def declinePropertyPurchase_def
      assertCanBuyProperty_def assertGameActive_def assertNoDebtResolution_def andThen_Inl_iff Let_def
      assertCurrentTurn_errors buyProperty_errors)

lemma completeAuction_errors:
  "completeAuctionWithWinner s a ev = Inl e \<Longrightarrow> 0 \<le> currentBid a \<Longrightarrow> expected e"
  "completeAuctionWithoutWinner s a ev = Inl e \<Longrightarrow> expected e"
  by (auto simp: completeAuctionWithWinner_def completeAuctionWithoutWinner_def andThen_Inl_iff Let_def
      dest: payment_errors split: if_splits)

lemma wf_currentBid:
  assumes "wf_state s" "auction s = Some a"
  shows "0 \<le> currentBid a"
  using assms by (auto simp: wf_state_def phaseOk_def auctionOk_def split: option.splits)

lemma bid_errors:
  assumes wf: "wf_state s"
  shows "placeAuctionBid now s pid amount = Inl e \<Longrightarrow> expected e"
    and "passAuctionBid now s pid = Inl e \<Longrightarrow> expected e"
proof -
  assume err: "placeAuctionBid now s pid amount = Inl e"
  have amount: "0 \<le> amount" if "auction s = Some a" "getMinimumAuctionBid a \<le> amount" for a
    using wf_currentBid [OF wf that(1)] that(2)
    by (auto simp: getMinimumAuctionBid_def MINIMUM_AUCTION_BID_def split: if_splits)
  show "expected e"
    using err amount
    by (auto simp: placeAuctionBid_def assertActiveAuction_def assertAuctionPlayerActive_def not_less
        assertAuctionPlayerCanAct_def andThen_Inl_iff Let_def split: if_splits dest!: completeAuction_errors(1))
next
  assume "passAuctionBid now s pid = Inl e"
  then show "expected e"
    using wf_currentBid [OF wf]
    by (auto simp: passAuctionBid_def assertActiveAuction_def assertAuctionPlayerActive_def
        assertAuctionPlayerCanAct_def andThen_Inl_iff Let_def completeAuction_errors(2)
        split: if_splits dest!: completeAuction_errors(1))
qed

lemma service_endTurn_errors:
  assumes wf: "wf_state s" and err: "service_endTurn s pid = Inl e"
  shows "expected e"
proof (rule ccontr)
  assume unexpected: "\<not> expected e"
  with err have turn: "assertCanEndTurn s = Inr ()" and "endTurn s pid = Inl e"
    by (auto simp: service_endTurn_def andThen_Inl_iff assertCanEndTurn_def assertGameActive_def
        assertNoDebtResolution_def dest: assertCurrentTurn_errors)
  then have "findNextActivePlayer s = Inl e" by (auto simp: endTurn_def andThen_Inl_iff Let_def split: if_splits)
  moreover have "calm s" using turn wf_calm [OF wf] by (auto simp: assertCanEndTurn_def)
  moreover have "set (seatOrder s) = activeIds (players s)" by (auto simp: seatOrder_def activeIds_def)
  ultimately show False
    using findNextActivePlayer_ring [of s] playersOk_distinct [OF wf_stateD(3) [OF wf]] calm_current [OF wf]
    by (auto simp: playerIds_def)
qed

section \<open>Trades\<close>

lemma foldM_errors: "foldM f b xs = Inl e \<Longrightarrow> \<exists>b x. x \<in> set xs \<and> f b x = Inl e"
  by (induction xs arbitrary: b) (fastforce simp: andThen_Inl_iff)+

lemma everyM_errors: "everyM f xs = Inl e \<Longrightarrow> \<exists>x\<in>set xs. f x = Inl e"
  by (induction xs) (auto simp: andThen_Inl_iff split: if_splits)

lemma findPlayer_errors: "findPlayer s pid = Inl e \<Longrightarrow> expected e"
  by (auto simp: findPlayer_def)

lemma getTradeableTile_errors: "getTradeableTile s key = Inl e \<Longrightarrow> expected e"
  by (auto simp: getTradeableTile_def split: option.splits if_splits)

lemmas lookup_errors = findPlayer_errors findPropertyState_errors getTradeableTile_errors

lemma assertPropertiesOwnedBy_errors: "assertPropertiesOwnedBy s keys owner = Inl e \<Longrightarrow> expected e"
  by (induction keys) (auto simp: andThen_Inl_iff dest: lookup_errors)

lemma trade_guard_errors:
  "assertCanTrade s pid = Inl e \<Longrightarrow> expected e"
  "assertTradeOffer s tid = Inl e \<Longrightarrow> expected e"
  "validateTrade s trade = Inl e \<Longrightarrow> expected e"
  "normalizeCash v = Inl e \<Longrightarrow> expected e"
  "uniquePropertyKeys ks = Inl e \<Longrightarrow> expected e"
  by (auto simp: assertCanTrade_def assertTradeOffer_def validateTrade_def normalizeCash_def uniquePropertyKeys_def
      assertNoDuplicateCrossTradeProperties_def andThen_Inl_iff Let_def
      dest: lookup_errors assertPropertiesOwnedBy_errors split: option.splits if_splits)

lemma liquidateTradeBuildings_errors: "liquidateTradeBuildings s tid pid keys = Inl e \<Longrightarrow> expected e"
proof (induction keys arbitrary: s)
  case (Cons key keys)
  then show ?case
    by (auto simp: andThen_Inl_iff Let_def not_le dest: lookup_errors payment_errors(2) split: if_splits)
qed simp

lemma acceptTradeOffer_errors: "acceptTradeOffer s trade evs = Inl e \<Longrightarrow> expected e"
  by (auto simp: acceptTradeOffer_def andThen_Inl_iff Let_def dest: trade_guard_errors(3)
      liquidateTradeBuildings_errors payment_errors(3) split: if_splits)

lemma shouldBotAcceptTrade_errors: "shouldBotAcceptTrade s trade = Inl e \<Longrightarrow> expected e"
proof -
  have worth: "getTradeValue s a keys = Inl e \<Longrightarrow> expected e" for a keys
    by (auto simp: getTradeValue_def andThen_Inl_iff Let_def dest!: foldM_errors dest: lookup_errors)
  have completes: "completesSet s pid xs ys tile = Inl e \<Longrightarrow> expected e" for pid xs ys tile
    by (auto simp: completesSet_def andThen_Inl_iff dest!: everyM_errors dest: lookup_errors split: if_splits)
  have sets: "getSetCompletionValue s pid xs ys = Inl e \<Longrightarrow> expected e" for pid xs ys
    by (auto simp: getSetCompletionValue_def andThen_Inl_iff dest!: foldM_errors dest: lookup_errors completes
        split: if_splits)
  show "shouldBotAcceptTrade s trade = Inl e \<Longrightarrow> expected e"
    by (auto simp: shouldBotAcceptTrade_def andThen_Inl_iff Let_def dest: lookup_errors worth sets)
qed

lemma trade_errors:
  "proposeTrade env s input = Inl e \<Longrightarrow> expected e"
  "acceptTrade s pid tid = Inl e \<Longrightarrow> expected e"
  "rejectTrade s pid tid = Inl e \<Longrightarrow> expected e"
  "cancelTrade s pid tid = Inl e \<Longrightarrow> expected e"
proof -
  show "proposeTrade env s input = Inl e \<Longrightarrow> expected e"
    unfolding proposeTrade_def markBotTradeProposal_def
    by (auto simp: andThen_Inl_iff Let_def dest: trade_guard_errors lookup_errors
        acceptTradeOffer_errors shouldBotAcceptTrade_errors split: if_splits)
qed (auto simp: acceptTrade_def rejectTrade_def cancelTrade_def andThen_Inl_iff
    dest: trade_guard_errors acceptTradeOffer_errors)

section \<open>Debts, bankruptcy and the end\<close>

lemma standings_errors: "calculateNetWorthStandings s = Inl e \<Longrightarrow> expected e"
  by (auto simp: calculateNetWorthStandings_def calculatePlayerNetWorth_def getOwnedProperties_def
      getPlayerByRoomPlayerId_def getAssetTileByKey_def andThen_Inl_iff dest!: mapM_errors foldM_errors
      split: option.splits if_splits)

lemma finish_errors:
  "finishGameByTime s at = Inl e \<Longrightarrow> expected e"
  "finishGameAfterLastHumanLeft s at = Inl e \<Longrightarrow> expected e"
  by (auto simp: finishGameByTime_def finishGameAfterLastHumanLeft_def assertCanFinishByTime_def
      assertCanFinishAfterLastHumanLeft_def andThen_Inl_iff dest: standings_errors)

lemma payDebt_errors:
  assumes "wf_state s" "payDebt s pid = Inl e"
  shows "expected e"
proof -
  have "0 \<le> debt_amount d" if "debt s = Some d" for d
    using assms(1) that by (auto simp: wf_state_def phaseOk_def debtOk_def)
  with assms(2) show ?thesis
    by (auto simp: payDebt_def andThen_Inl_iff Let_def dest: payment_errors split: if_splits)
qed

lemma nextAfterBankruptcy_succeeds:
  assumes "1 < length (getActivePlayers s)"
  shows "\<exists>n. findNextActivePlayerAfterBankruptcy s p = Inr n"
proof -
  obtain q where "jsNth (getActivePlayers s) 0 = Some q"
    using assms by (cases "getActivePlayers s") (auto simp: jsNth_def)
  then show ?thesis by (auto simp: findNextActivePlayerAfterBankruptcy_def Let_def split: option.splits)
qed

lemma declareBankruptcy_errors:
  assumes wf: "wf_state s" and err: "declareBankruptcy s pid input = Inl e"
  shows "expected e"
proof (rule ccontr)
  assume unexpected: "\<not> expected e"
  define c where "c = (case input of Some c \<Rightarrow> Some c | None \<Rightarrow> (case debt s of
      Some d \<Rightarrow> if debt_roomPlayerId d = pid then creditorRoomPlayerId d else None | None \<Rightarrow> None))"
  note rest = err [unfolded declareBankruptcy_def c_def [symmetric] Let_def]
  from rest unexpected obtain p where p: "findBy roomPlayerId pid (players s) = Some p"
    by (auto simp: andThen_Inl_iff dest: lookup_errors)
  obtain t where liq: "liquidatePlayerAssets s pid c = Inr t"
    by (rule liquidatePlayerAssets_Inr [OF wf p, of c])
  have creditor: "assertValidCreditor s pid i \<noteq> Inl e" for i
    using unexpected by (auto simp: assertValidCreditor_def andThen_Inl_iff dest: lookup_errors)
  show False
    using rest unexpected p liq creditor nextAfterBankruptcy_succeeds [of t p]
    by (auto simp: andThen_Inl_iff not_le dest: standings_errors split: if_splits)
qed

text \<open>
  Each turn of the loop sells a building level or mortgages a property, so the resources on the
  board shrink, and the fuel given to the loop is never used up.
\<close>

lemma resources_decrease:
  assumes "wf_state s" "sellBuilding s pid key = Inr (s', evs) \<or> mortgageProperty s pid key = Inr (s', evs)"
  shows "(\<Sum>p\<leftarrow>properties s'. propertyResources p) < (\<Sum>p\<leftarrow>properties s. propertyResources p)"
proof -
  have dist: "distinct (map tileKey (properties s))" by (rule propertiesOk_distinct [OF wf_stateD(4) [OF assms(1)]])
  have drop: "(\<Sum>p\<leftarrow>properties (updatePropertyState t key f). propertyResources p) <
      (\<Sum>p\<leftarrow>properties s. propertyResources p)"
    if "findBy tileKey key (properties s) = Some q" "properties t = properties s"
      "propertyResources (f q) < propertyResources q" for t q f
    using sum_list_updateBy_nat [OF dist that(1), of propertyResources f] that(2,3)
    by (simp add: updatePropertyState_def)
  from assms(2) show ?thesis
  proof
    assume "sellBuilding s pid key = Inr (s', evs)"
    then show ?thesis
    proof (rule sellBuilding_Inr [OF assms(1)])
      fix tile q t
      assume "findBy tileKey key (properties s) = Some q" "built q"
        "creditPlayer s pid (houseCost tile div 2) = Inr t" "s' = updatePropertyState t key sellStep"
      then show ?thesis
        using drop [of q t sellStep] by (auto simp: creditPlayer_frame sellStep_def propertyResources_def built_def)
    qed
  next
    assume "mortgageProperty s pid key = Inr (s', evs)"
    then show ?thesis
    proof (rule mortgageProperty_Inr [OF assms(1)])
      fix tile q t
      assume "findBy tileKey key (properties s) = Some q" "\<not> mortgaged q"
        "creditPlayer s pid (mortgageValue tile) = Inr t" "s' = updatePropertyState t key (\<lambda>c. c\<lparr>mortgaged := True\<rparr>)"
      then show ?thesis
        using drop [of q t "\<lambda>c. c\<lparr>mortgaged := True\<rparr>"] by (auto simp: creditPlayer_frame propertyResources_def)
    qed
  qed
qed

lemma autoResolveLoop_errors:
  assumes "wf_state s" "(\<Sum>p\<leftarrow>properties s. propertyResources p) < fuel" "autoResolveLoop fuel s pid evs = Inl e"
  shows "expected e"
  using assms
proof (induction fuel arbitrary: s evs)
  case (Suc fuel)
  have step: "expected e"
    if "sellBuilding s pid key = Inr (t, evs1) \<or> mortgageProperty s pid key = Inr (t, evs1)"
      "autoResolveLoop fuel t pid (evs @ evs1) = Inl e" for key t evs1
    using Suc.IH [of t] Suc.prems(1,2) resources_decrease [OF Suc.prems(1) that(1)] that
      sellBuilding_wf [OF Suc.prems(1)] mortgageProperty_wf [OF Suc.prems(1)]
    by fastforce
  from Suc.prems(3) show ?case
    by (auto simp: andThen_Inl_iff canPayDebt_def split: if_splits option.splits
        dest: lookup_errors sellBuilding_errors mortgageProperty_errors intro: step)
qed simp

lemma autoResolve_enough_fuel:
  assumes "wf_state s" "autoResolveLoop (resolutionFuel s) s pid evs = Inl e"
  shows "e \<noteq> Diverges"
  using autoResolveLoop_errors [OF assms(1) _ assms(2)] by (auto simp: resolutionFuel_def)

lemma autoResolveDebt_errors:
  assumes wf: "wf_state s" and err: "autoResolveDebt s pid = Inl e"
  shows "expected e"
proof -
  from err consider "assertActiveDebt s pid = Inl e" | "autoResolveLoop (resolutionFuel s) s pid [] = Inl e"
    | t evs where "autoResolveLoop (resolutionFuel s) s pid [] = Inr (t, evs)"
        "canPayDebt t pid = Inl e \<or> payDebt t pid = Inl e \<or>
         (\<exists>c. declareBankruptcy t pid c = Inl e)"
    unfolding autoResolveDebt_def by (auto simp: andThen_Inl_iff split: if_split_asm)
  then show ?thesis
  proof cases
    case 1
    then show ?thesis by (simp add: assertActiveDebt_def)
  next
    case 2
    show ?thesis by (rule autoResolveLoop_errors [OF wf _ 2]) (simp add: resolutionFuel_def)
  next
    case 3
    have "wf_state t" by (rule autoResolveLoop_wf [OF 3(1) wf])
    then show ?thesis
      using 3(2) payDebt_errors declareBankruptcy_errors by (auto simp: canPayDebt_def andThen_Inl_iff)
  qed
qed

section \<open>All intents\<close>

lemmas operation_errors =
  service_rollAndMove_errors service_endTurn_errors bid_errors payDebt_errors
  declareBankruptcy_errors autoResolveDebt_errors useGetOutOfJailCard_errors

lemmas plain_errors =
  service_purchase_errors buildProperty_errors sellBuilding_errors mortgageProperty_errors
  unmortgageProperty_errors trade_errors payJailFine_errors finish_errors assertCurrentTurn_errors

lemma reduce_errors:
  assumes "wf_state s" "reduceGameEngineIntent env s i = Inl e"
  shows "expected e"
  using assms(2) operation_errors [OF assms(1)]
  by (cases i) (auto simp: service_delegates andThen_Inl_iff dest: plain_errors)

section \<open>Properties\<close>

text \<open>
  C2. Whatever intent a client sends in whatever reachable state, the engine either produces a next
  state or refuses with one of its coded errors: it never reads a missing value, throws a plain
  error, finds a deck empty or a card unknown, or loops forever.
\<close>

theorem engine_refuses_cleanly:
  assumes "reachable s" "reduceGameEngineIntent env s i = Inl e"
  shows "\<exists>c. e = EngineError c \<and> c \<noteq> CARD_NOT_FOUND \<and> c \<noteq> CARD_DECK_EMPTY"
  using reduce_errors [OF reachable_wf [OF assms(1)] assms(2)] by (cases e) auto

theorem engine_refuses_cleanly_witness:
  "\<exists>s e. createInitialGameState 0 ''r'' ''c'' None 60 Casual sampleRoom = Inr s \<and>
     reduceGameEngineIntent \<lparr>dateNow = 1, randomUUID = ''t''\<rparr> s (Pay_debt ''a'') = Inl e \<and>
     (\<exists>c. e = EngineError c \<and> c \<noteq> CARD_NOT_FOUND \<and> c \<noteq> CARD_DECK_EMPTY)"
proof -
  obtain s where s: "createInitialGameState 0 ''r'' ''c'' None 60 Casual sampleRoom = Inr s"
    using createInitialGameState_wf [OF sampleRoom_ok] by blast
  then have "phase s = Awaiting_first_turn"
    by (auto simp: createInitialGameState_def Let_def)
  then have "reduceGameEngineIntent \<lparr>dateNow = 1, randomUUID = ''t''\<rparr> s (Pay_debt ''a'') = Inl (EngineError NO_ACTIVE_DEBT)"
    by (simp add: payDebt_def)
  with engine_refuses_cleanly [OF reachable.start [OF sampleRoom_ok s] this] s show ?thesis by blast
qed

end
