(* ===== verification/Game_Liveness.thy ===== *)
theory Game_Liveness
  imports Game_Errors
begin

text \<open>
  What the engine gets done, as opposed to what it never does: automatic debt resolution
  (\<^verbatim>\<open>game-engine-auto-debt.ts\<close>) settles the debt it is called on, and turns come round.
\<close>

section \<open>Selling for a debt\<close>

text \<open>Whoever owns a street with buildings owns its whole colour.\<close>

definition wholeSets :: "GameEngineState \<Rightarrow> bool" where
  "wholeSets s \<longleftrightarrow>
     list_all (\<lambda>q. built q \<longrightarrow>
       (case findTile CLASSIC_GAME_BOARD (tileKey q) of
          None \<Rightarrow> True
        | Some tile \<Rightarrow> list_all (\<lambda>r. ownerRoomPlayerId r = ownerRoomPlayerId q) (setProperties s tile)))
       (properties s)"

lemma wholeSetsD:
  assumes "wholeSets s" "q \<in> set (properties s)" "built q" "findTile CLASSIC_GAME_BOARD (tileKey q) = Some tile"
    and "r \<in> set (setProperties s tile)"
  shows "ownerRoomPlayerId r = ownerRoomPlayerId q"
  using assms by (auto simp: wholeSets_def list_all_iff split: option.splits)

lemma first_sorted:
  assumes "jsNth (sort_key f xs) 0 = Some x"
  shows "x \<in> set xs" "\<And>y. y \<in> set xs \<Longrightarrow> f x \<le> f y"
proof -
  obtain ys where ys: "sort_key f xs = x # ys"
    using assms by (cases "sort_key f xs") (auto simp: jsNth_def)
  then show "x \<in> set xs" by (metis list.set_intros(1) set_sort)
  fix y assume "y \<in> set xs"
  then have "y \<in> set (x # ys)" by (metis set_sort ys)
  moreover have "sorted (map f (x # ys))" by (metis sorted_sort_key ys)
  ultimately show "f x \<le> f y" by auto
qed

lemma set_tiles_owned:
  assumes ok: "propertiesOk A (properties s)" and t: "t \<in> set (setTilesOf CLASSIC_GAME_BOARD k)"
  shows "\<exists>q. findBy tileKey (tile_key t) (properties s) = Some q"
  using t propertiesOk_lookup [OF ok, of "tile_key t"]
  by (auto simp: setTilesOf_def ownableKeys_def isOwnableTile_iff ownableKind_def)

lemma foldr_max_le: "\<forall>x\<in>set xs. x \<le> (m :: nat) \<Longrightarrow> foldr max xs 0 \<le> m"
  by (induction xs) auto

text \<open>The debtor may manage buildings and mortgages while the debt is open.\<close>

definition owes :: "GameEngineState \<Rightarrow> GameEngineDebt \<Rightarrow> string \<Rightarrow> bool" where
  "owes s d pid \<longleftrightarrow> wf_state s \<and> debt s = Some d \<and> debt_roomPlayerId d = pid"

lemma owesD:
  assumes "owes s d pid"
  shows "wf_state s" "phase s = Awaiting_debt_resolution" "currentTurnRoomPlayerId s = pid"
    "pid \<in> activeIds (players s)" "pid \<in> set (playerIds s)" "assertCurrentTurn s pid = Inr ()"
    "assertCanManageBuildings s pid True = Inr ()" "assertCanManageMortgage s pid True = Inr ()"
    "0 < debt_amount d" "auction s = None"
proof -
  show wf: "wf_state s" using assms by (simp add: owes_def)
  show ph: "phase s = Awaiting_debt_resolution" and "currentTurnRoomPlayerId s = pid" "0 < debt_amount d"
    "auction s = None"
    using assms by (auto simp: owes_def wf_state_def phaseOk_def debtOk_def)
  then show act: "pid \<in> activeIds (players s)" using wf by (auto simp: wf_state_def coreOk_def)
  then show "pid \<in> set (playerIds s)" by (rule active_in_ids)
  show turn: "assertCurrentTurn s pid = Inr ()"
    using act \<open>currentTurnRoomPlayerId s = pid\<close>
    by (auto simp: assertCurrentTurn_Inr_iff activeIds_iff [OF playersOk_distinct [OF wf_stateD(3) [OF wf]]])
  show "assertCanManageBuildings s pid True = Inr ()" "assertCanManageMortgage s pid True = Inr ()"
    using assms ph turn by (auto simp: canManage_Inr_iff owes_def)
qed

lemma sell_for_debt:
  assumes owes: "owes s d pid" and whole: "wholeSets s" and b: "findBuildingToSell s pid = Some b"
  shows "\<exists>s' evs. sellBuilding s pid (tileKey b) = Inr (s', evs)"
proof -
  note ok = wf_stateD(4) [OF owesD(1) [OF owes]]
  let ?mine = "filter (\<lambda>p. ownerRoomPlayerId p = Some pid \<and> (hasHotel p \<or> houseCount p > 0)) (properties s)"
  have b_in: "b \<in> set ?mine" and least: "\<And>r. r \<in> set ?mine \<Longrightarrow>
      (\<not> hasHotel b, - int (houseCount b)) \<le> (\<not> hasHotel r, - int (houseCount r))"
    using first_sorted [OF b [unfolded findBuildingToSell_def]] by auto
  have owner: "ownerRoomPlayerId b = Some pid" and built: "built b" and mem: "b \<in> set (properties s)"
    using b_in by (auto simp: built_def)
  have found: "findBy tileKey (tileKey b) (properties s) = Some b" using mem by (simp add: propertiesOk_find [OF ok])
  obtain tile where tile: "findTile CLASSIC_GAME_BOARD (tileKey b) = Some tile" "kind tile = Kind_property"
    using propertiesOk_found [OF ok found] built
    by (auto simp: propertyOk_def isPropertyTileKey_def split: option.splits)
  have mine: "ownerRoomPlayerId r = Some pid" if "r \<in> set (setProperties s tile)" for r
    using wholeSetsD [OF whole mem built tile(1) that] owner by simp
  have set_ok: "getOwnedSetProperties s CLASSIC_GAME_BOARD tile pid = Inr (setProperties s tile)"
    unfolding getOwnedSetProperties_Inr_iff
  proof (intro conjI refl ballI)
    fix t assume t: "t \<in> set (setTilesOf CLASSIC_GAME_BOARD (setKey tile))"
    then obtain r where r: "findBy tileKey (tile_key t) (properties s) = Some r" using set_tiles_owned [OF ok] by blast
    with t have "r \<in> set (setProperties s tile)" by (auto simp: set_setProperties)
    with mine r show "\<exists>q. findBy tileKey (tile_key t) (properties s) = Some q \<and> ownerRoomPlayerId q = Some pid"
      by blast
  qed
  have b_set: "b \<in> set (setProperties s tile)"
    using tile_in_own_set [OF tile] found by (auto simp: set_setProperties intro!: bexI [of _ tile])
  have credit: "\<exists>t. creditPlayer s pid (houseCost tile div 2) = Inr t"
    using owesD(5) [OF owes] estate_amounts(1) [OF tile] by (simp add: creditPlayer_Inr_iff)
  have even: "assertCanSellHouseEvenly b (setProperties s tile) = Inr ()" if "\<not> hasHotel b"
  proof -
    have below: "\<not> hasHotel r \<and> houseCount r \<le> houseCount b" if r: "r \<in> set (setProperties s tile)" for r
    proof (cases "hasHotel r \<or> 0 < houseCount r")
      case True
      then have "r \<in> set ?mine" using r mine [OF r] by (auto simp: set_setProperties dest: findBy_SomeD)
      from least [OF this] \<open>\<not> hasHotel b\<close> show ?thesis by auto
    qed simp
    then have "foldr max (map houseCount (setProperties s tile)) 0 \<le> houseCount b"
      by (intro foldr_max_le) auto
    moreover have "houseCount b \<le> foldr max (map houseCount (setProperties s tile)) 0"
      using b_set by (intro foldr_max_ge) auto
    ultimately show ?thesis using below b_set by (auto simp: assertCanSellHouseEvenly_def list_ex_iff Let_def)
  qed
  have key: "tile_key tile = tileKey b" using tile_in_own_set(2) [OF tile] .
  have lookup: "findPropertyState s (tileKey b) = Inr b" using found by simp
  show ?thesis
    using owesD(7) [OF owes] tile set_ok lookup credit even built
    by (cases "hasHotel b") (auto simp: sellBuilding_def getPropertyTileByKey_def key Let_def built_def
        simp del: findPropertyState_Inr_iff)
qed

lemma mortgage_for_debt:
  assumes owes: "owes s d pid" and q: "findPropertyToMortgage s pid = Some q"
  shows "\<exists>s' evs. mortgageProperty s pid (tileKey q) = Inr (s', evs)"
proof -
  note ok = wf_stateD(4) [OF owesD(1) [OF owes]]
  from q have mem: "q \<in> set (properties s)" and own: "ownerRoomPlayerId q = Some pid" "\<not> mortgaged q"
    and tile_ex: "\<exists>tile. findTile CLASSIC_GAME_BOARD (tileKey q) = Some tile \<and> canMortgageTile s CLASSIC_GAME_BOARD tile"
    by (auto simp: findPropertyToMortgage_def Let_def find_Some_iff split: if_splits option.splits)
  from tile_ex obtain tile where tile: "findTile CLASSIC_GAME_BOARD (tileKey q) = Some tile"
    and can: "canMortgageTile s CLASSIC_GAME_BOARD tile" by blast
  have key: "tile_key tile = tileKey q" using findTile_SomeD [OF tile] by simp
  have found: "findBy tileKey (tileKey q) (properties s) = Some q" using mem by (simp add: propertiesOk_find [OF ok])
  have rentable: "isRentableTile tile" using can by (auto simp: canMortgageTile_def isRentableTile_def split: if_splits)
  have unbuilt: "assertNoBuildingsForMortgage s CLASSIC_GAME_BOARD tile = Inr ()"
  proof (cases "kind tile = Kind_property")
    case True
    have "someM (\<lambda>t. andThen (findPropertyState s (tile_key t)) (\<lambda>p. Inr (houseCount p > 0 \<or> hasHotel p)))
        (setTilesOf CLASSIC_GAME_BOARD (setKey tile)) = Inr False"
      unfolding someM_False_iff
    proof
      fix t assume t: "t \<in> set (setTilesOf CLASSIC_GAME_BOARD (setKey tile))"
      obtain r where r: "findBy tileKey (tile_key t) (properties s) = Some r" using set_tiles_owned [OF ok t] by blast
      have "\<not> hasHotel r \<and> houseCount r = 0"
        using can True t findBy_SomeD [OF r] by (auto simp: canMortgageTile_def Let_def list_all_iff)
      with r show "andThen (findPropertyState s (tile_key t)) (\<lambda>p. Inr (houseCount p > 0 \<or> hasHotel p)) = Inr False"
        by simp
    qed
    with True show ?thesis by (simp add: assertNoBuildingsForMortgage_def)
  qed (simp add: assertNoBuildingsForMortgage_def)
  have credit: "\<exists>t. creditPlayer s pid (mortgageValue tile) = Inr t"
    using owesD(5) [OF owes] estate_amounts(2) [OF tile] rentable by (simp add: creditPlayer_Inr_iff isRentableTile_iff)
  have lookup: "findPropertyState s (tileKey q) = Inr q" using found by simp
  show ?thesis
    using owesD(8) [OF owes] tile rentable lookup own unbuilt credit
    by (auto simp: mortgageProperty_def getMortgageableTileByKey_def key assertOwnedBy_def Let_def
        simp del: findPropertyState_Inr_iff)
qed

lemma wholeSets_update:
  assumes whole: "wholeSets s" and props: "properties t = updateBy tileKey key f (properties s)"
    and f: "\<And>q. tileKey (f q) = tileKey q" "\<And>q. ownerRoomPlayerId (f q) = ownerRoomPlayerId q"
    and unbuild: "\<And>q. findBy tileKey key (properties s) = Some q \<Longrightarrow> built (f q) \<Longrightarrow> built q"
    and dist: "distinct (map tileKey (properties s))"
  shows "wholeSets t"
proof -
  have same: "\<exists>r\<in>set (setProperties s tile). ownerRoomPlayerId r = ownerRoomPlayerId r'"
    if r': "r' \<in> set (setProperties t tile)" for r' tile
  proof -
    obtain u where u: "u \<in> set (setTilesOf CLASSIC_GAME_BOARD (setKey tile))"
      "findBy tileKey (tile_key u) (properties t) = Some r'" using r' by (auto simp: set_setProperties)
    then obtain r where "findBy tileKey (tile_key u) (properties s) = Some r" "r' = r \<or> r' = f r"
      using f by (auto simp: props findBy_updateBy split: if_splits)
    with u f show ?thesis by (auto simp: set_setProperties intro!: bexI [of _ r])
  qed
  have "ownerRoomPlayerId r' = ownerRoomPlayerId q'"
    if q': "q' \<in> set (properties t)" "built q'" "findTile CLASSIC_GAME_BOARD (tileKey q') = Some tile"
      and r': "r' \<in> set (setProperties t tile)" for q' r' tile
  proof -
    obtain q where q: "q \<in> set (properties s)" "built q" "tileKey q = tileKey q'"
      "ownerRoomPlayerId q = ownerRoomPlayerId q'"
      using q'(1,2) f unbuild findBy_Some_iff [OF dist] by (auto simp: props elim!: updateByE)
    obtain r where r: "r \<in> set (setProperties s tile)" "ownerRoomPlayerId r = ownerRoomPlayerId r'"
      using same [OF r'] by blast
    have "ownerRoomPlayerId r = ownerRoomPlayerId q"
      using wholeSetsD [OF whole q(1,2) _ r(1)] q(3) q'(3) by simp
    with q(4) r(2) show ?thesis by simp
  qed
  then show ?thesis by (auto simp: wholeSets_def list_all_iff split: option.splits)
qed

lemma resolution_step:
  assumes owes: "owes s d pid" and whole: "wholeSets s"
    and step: "sellBuilding s pid key = Inr (s', evs) \<or> mortgageProperty s pid key = Inr (s', evs)"
  shows "owes s' d pid" "wholeSets s'" "activeIds (players s') = activeIds (players s)"
proof -
  note wf = owesD(1) [OF owes]
  have wf': "wf_state s'" using step sellBuilding_wf [OF wf] mortgageProperty_wf [OF wf] by blast
  have "\<exists>t a f q. creditPlayer s pid a = Inr t \<and> s' = updatePropertyState t key f \<and>
      (\<forall>q. tileKey (f q) = tileKey q \<and> ownerRoomPlayerId (f q) = ownerRoomPlayerId q) \<and>
      findBy tileKey key (properties s) = Some q \<and> (built (f q) \<longrightarrow> built q)"
    using step
  proof
    assume "sellBuilding s pid key = Inr (s', evs)"
    then show ?thesis
    proof (rule sellBuilding_Inr [OF wf])
      fix tile q t
      assume "findBy tileKey key (properties s) = Some q" "built q" "creditPlayer s pid (houseCost tile div 2) = Inr t"
        "s' = updatePropertyState t key sellStep"
      moreover have "tileKey (sellStep q) = tileKey q" "ownerRoomPlayerId (sellStep q) = ownerRoomPlayerId q" for q
        by (simp_all add: sellStep_def)
      ultimately show ?thesis by blast
    qed
  next
    assume "mortgageProperty s pid key = Inr (s', evs)"
    then show ?thesis
    proof (rule mortgageProperty_Inr [OF wf])
      fix tile q t
      assume "findBy tileKey key (properties s) = Some q" "creditPlayer s pid (mortgageValue tile) = Inr t"
        "s' = updatePropertyState t key (\<lambda>c. c\<lparr>mortgaged := True\<rparr>)"
      moreover have "built (q\<lparr>mortgaged := True\<rparr>) = built q" by (simp add: built_def)
      ultimately show ?thesis
        by (intro exI [of _ t] exI [of _ "mortgageValue tile"] exI [of _ "\<lambda>c. c\<lparr>mortgaged := True\<rparr>"] exI [of _ q]) simp
    qed
  qed
  then obtain t a f q where t: "creditPlayer s pid a = Inr t" and s': "s' = updatePropertyState t key f"
    and f: "\<And>q. tileKey (f q) = tileKey q" "\<And>q. ownerRoomPlayerId (f q) = ownerRoomPlayerId q"
    and q: "findBy tileKey key (properties s) = Some q" "built (f q) \<Longrightarrow> built q" by blast
  note fr = creditPlayer_frame [OF t]
  show "owes s' d pid" using owes wf' fr by (simp add: owes_def s')
  show "activeIds (players s') = activeIds (players s)" using fr by (simp add: s')
  show "wholeSets s'"
    by (rule wholeSets_update [OF whole _ f _ propertiesOk_distinct [OF wf_stateD(4) [OF wf]]])
      (use fr q in \<open>auto simp: s' updatePropertyState_def\<close>)
qed

lemma canPayDebt_owes:
  assumes "owes s d pid"
  shows "\<exists>p. findBy roomPlayerId pid (players s) = Some p \<and> canPayDebt s pid = Inr (debt_amount d \<le> cash p)"
  using assms ids_findPlayer [OF owesD(5) [OF assms]] by (auto simp: owes_def canPayDebt_def findPlayer_def)

lemma autoResolveLoop_ends:
  assumes "owes s d pid" "wholeSets s" "(\<Sum>p\<leftarrow>properties s. propertyResources p) < fuel"
  shows "\<exists>t evs'. autoResolveLoop fuel s pid evs = Inr (t, evs') \<and> owes t d pid \<and>
     activeIds (players t) = activeIds (players s)"
  using assms
proof (induction fuel arbitrary: s evs)
  case (Suc fuel)
  obtain p :: GameEnginePlayer where pay: "canPayDebt s pid = Inr (debt_amount d \<le> cash p)" using canPayDebt_owes [OF Suc.prems(1)] by blast
  have step: "\<exists>t evs'. autoResolveLoop fuel s' pid evs1 = Inr (t, evs') \<and> owes t d pid \<and>
      activeIds (players t) = activeIds (players s)"
    if st: "sellBuilding s pid key = Inr (s', evs') \<or> mortgageProperty s pid key = Inr (s', evs')" for s' key evs' evs1
    using Suc.IH [of s' evs1] resolution_step [OF Suc.prems(1,2) st] Suc.prems(3)
      resources_decrease [OF owesD(1) [OF Suc.prems(1)] st] by simp
  show ?case
  proof (cases "debt_amount d \<le> cash p")
    case True
    then show ?thesis using pay Suc.prems(1) by simp
  next
    case False
    show ?thesis
    proof (cases "findBuildingToSell s pid")
      case (Some b)
      obtain s' evs' where "sellBuilding s pid (tileKey b) = Inr (s', evs')"
        using sell_for_debt [OF Suc.prems(1,2) Some] by blast
      then show ?thesis using Some pay False step [of "tileKey b" s' evs' "evs @ evs'"] by simp
    next
      case None
      show ?thesis
      proof (cases "findPropertyToMortgage s pid")
        case (Some q)
        obtain s' evs' where "mortgageProperty s pid (tileKey q) = Inr (s', evs')"
          using mortgage_for_debt [OF Suc.prems(1) Some] by blast
        then show ?thesis using Some None pay False step [of "tileKey q" s' evs' "evs @ evs'"] by simp
      qed (use None pay False Suc.prems(1) in simp)
    qed
  qed
qed simp

lemma worths_succeed:
  assumes dist: "distinct (map roomPlayerId (players s))" and ok: "propertiesOk A (properties s)"
    and ps: "set ps \<subseteq> set (players s)"
  shows "\<exists>ws. mapM (calculatePlayerNetWorth s CLASSIC_GAME_BOARD) ps = Inr ws"
proof -
  have asset: "\<exists>tile. getAssetTileByKey CLASSIC_GAME_BOARD (tileKey q) = Inr tile" if q: "q \<in> set (properties s)" for q
  proof -
    have "tileKey q \<in> set ownableKeys"
      using propertiesOk_lookup [OF ok, of "tileKey q"] propertiesOk_find [OF ok, of "tileKey q" q] q by auto
    then obtain tile where t: "tile \<in> set classicTiles" "tile_key tile = tileKey q" "ownableKind (kind tile)"
      by (auto simp: ownableKeys_def isOwnableTile_iff)
    then have "findTile CLASSIC_GAME_BOARD (tileKey q) = Some tile" using findTile_key by metis
    then show ?thesis using t by (simp add: getAssetTileByKey_def isRentableTile_iff)
  qed
  have assets: "\<exists>n. foldM (\<lambda>total q. andThen (getAssetTileByKey CLASSIC_GAME_BOARD (tileKey q)) (\<lambda>tile.
      Inr (total + calculateAssetNetWorth tile q))) m qs = Inr n" if "set qs \<subseteq> set (properties s)" for m qs
    using that
  proof (induction qs arbitrary: m)
    case (Cons q qs)
    then show ?case using asset [of q] by auto
  qed simp
  have worth: "\<exists>w. calculatePlayerNetWorth s CLASSIC_GAME_BOARD p = Inr w" if p: "p \<in> set (players s)" for p
  proof -
    have "findBy roomPlayerId (roomPlayerId p) (players s) = Some p"
      using p by (simp add: findBy_Some_iff [OF dist])
    then show ?thesis
      using assets [of "filter (\<lambda>q. ownerRoomPlayerId q = Some (roomPlayerId p)) (properties s)" 0]
      by (auto simp: calculatePlayerNetWorth_def getOwnedProperties_def getPlayerByRoomPlayerId_def)
  qed
  show ?thesis
    using ps
  proof (induction ps)
    case (Cons p ps)
    then show ?case using worth [of p] by auto
  qed simp
qed

lemma standings_succeed:
  assumes "distinct (map roomPlayerId (players s))" "propertiesOk A (properties s)"
  shows "\<exists>ws. calculateNetWorthStandings s = Inr ws"
  using worths_succeed [OF assms, of "getActivePlayers s"]
  by (auto simp: calculateNetWorthStandings_def getActivePlayers_def)

lemma declareBankruptcy_succeeds:
  assumes wf: "wf_state s" and active: "\<not> terminal (phase s)"
    and p: "findBy roomPlayerId pid (players s) = Some p" "\<not> bankrupt p" and creditor: "creditorOk s pid c"
    and input: "(case input of Some c \<Rightarrow> Some c | None \<Rightarrow> (case debt s of
      Some d \<Rightarrow> if debt_roomPlayerId d = pid then creditorRoomPlayerId d else None | None \<Rightarrow> None)) = c"
  shows "\<exists>s' evs. declareBankruptcy s pid input = Inr (s', evs)"
proof -
  obtain t where liq: "liquidatePlayerAssets s pid c = Inr t" and t: "liquidated pid c s t"
    by (rule liquidatePlayerAssets_Inr [OF wf p(1), of c]) (auto simp: liquidated_def)
  note parts = liquidated_parts [OF wf findPlayer_in_ids [OF p(1)] creditor t]
  obtain ws where ws: "calculateNetWorthStandings t = Inr ws"
    using standings_succeed [OF playersOk_distinct [OF parts(1)] parts(3)] by blast
  have valid: "(if truthy c then assertValidCreditor s pid (the c) else Inr ()) = Inr ()"
  proof (cases "truthy c")
    case True
    then obtain q where "findBy roomPlayerId (the c) (players s) = Some q" "\<not> bankrupt q" "the c \<noteq> pid"
      using creditor activeIds_iff [OF playersOk_distinct [OF wf_stateD(3) [OF wf]]] by (auto simp: creditorOk_def)
    then show ?thesis using findBy_SomeD [of roomPlayerId "the c" "players s" q]
      by (auto simp: assertValidCreditor_def findPlayer_def)
  qed simp
  have next_player: "\<exists>n. findNextActivePlayerAfterBankruptcy t p = Inr n" if "\<not> length (getActivePlayers t) \<le> 1"
    using nextAfterBankruptcy_succeeds that by auto
  show ?thesis
    unfolding declareBankruptcy_def input Let_def
    using active p liq ws valid next_player by (auto simp: terminal_def findPlayer_def)
qed

lemma autoResolveDebt_succeeds:
  assumes owes: "owes s d pid" and whole: "wholeSets s"
    and creditor: "truthy (creditorRoomPlayerId d) \<Longrightarrow> the (creditorRoomPlayerId d) \<in> activeIds (players s)"
  shows "\<exists>s' evs. autoResolveDebt s pid = Inr (s', evs) \<and> debt s' = None \<and> phase s' \<noteq> Awaiting_debt_resolution"
proof -
  obtain t evs where loop: "autoResolveLoop (resolutionFuel s) s pid [] = Inr (t, evs)"
    and t: "owes t d pid" and act: "activeIds (players t) = activeIds (players s)"
    using autoResolveLoop_ends [OF owes whole, of "resolutionFuel s" "[]"] by (auto simp: resolutionFuel_def)
  have debt: "debt t = Some d" "debt_roomPlayerId d = pid" using t by (auto simp: owes_def)
  have start: "assertActiveDebt s pid = Inr ()"
    using owes owesD(2) [OF owes] by (simp add: assertActiveDebt_def owes_def)
  obtain p where p: "findBy roomPlayerId pid (players t) = Some p" "canPayDebt t pid = Inr (debt_amount d \<le> cash p)"
    using canPayDebt_owes [OF t] by blast
  have ids: "truthy (creditorRoomPlayerId d) \<Longrightarrow> the (creditorRoomPlayerId d) \<in> set (playerIds t)"
    using owesD(1) [OF t] debt by (auto simp: wf_state_def phaseOk_def debtOk_def)
  have "\<exists>s' evs. autoResolveDebt s pid = Inr (s', evs)"
  proof (cases "debt_amount d \<le> cash p")
    case True
    have "\<exists>u. debitPlayer t pid (debt_amount d) = Inr u \<and> playerIds u = playerIds t"
      using p(1) True owesD(9) [OF t] by (auto simp: debitPlayer_Inr_iff)
    then have "\<exists>u. (if truthy (creditorRoomPlayerId d)
        then transferPlayerCash t pid (the (creditorRoomPlayerId d)) (debt_amount d)
        else debitPlayer t pid (debt_amount d)) = Inr u"
      using ids owesD(9) [OF t] by (auto simp: transferPlayerCash_def creditPlayer_Inr_iff)
    then have "\<exists>s' evs'. payDebt t pid = Inr (s', evs')"
      using debt owesD(2) [OF t] unfolding payDebt_def Let_def by fastforce
    then show ?thesis using start loop p(2) True by (auto simp: autoResolveDebt_def)
  next
    case False
    have "\<not> bankrupt p" using owesD(4) [OF t] p(1)
      by (auto simp: activeIds_iff [OF playersOk_distinct [OF wf_stateD(3) [OF owesD(1) [OF t]]]])
    moreover have "creditorOk t pid (creditorRoomPlayerId d)"
      using creditor act debt owesD(1,3) [OF t] by (auto simp: creditorOk_def wf_state_def phaseOk_def debtOk_def)
    ultimately have "\<exists>s' evs'. declareBankruptcy t pid (creditorRoomPlayerId d) = Inr (s', evs')"
      using declareBankruptcy_succeeds [OF owesD(1) [OF t] _ p(1), of "creditorRoomPlayerId d" "creditorRoomPlayerId d"]
        owesD(2) [OF t] debt by (simp split: option.splits)
    then show ?thesis using start loop p(2) False debt by (auto simp: autoResolveDebt_def)
  qed
  then obtain s' evs' where s': "autoResolveDebt s pid = Inr (s', evs')" by blast
  have "debt s' = None"
  proof (cases "debt_amount d \<le> cash p")
    case True
    then show ?thesis using s' start loop p(2) by (auto simp: autoResolveDebt_def payDebt_def Let_def)
  next
    case False
    then obtain evs2 where b: "declareBankruptcy t pid (creditorRoomPlayerId d) = Inr (s', evs2)"
      using s' start loop p(2) debt by (auto simp: autoResolveDebt_def)
    show ?thesis
      by (rule declareBankruptcy_Inr [OF owesD(1) [OF t] b])
        (use debt owesD(3) [OF t] in \<open>auto simp: liquidated_frame(11) split: if_splits\<close>)
  qed
  moreover have "wf_state s'" by (rule autoResolveDebt_wf [OF owesD(1) [OF owes] s'])
  ultimately show ?thesis using s' by (auto simp: wf_state_def phaseOk_def)
qed

section \<open>Properties\<close>

definition debtSample :: GameEngineState where
  "debtSample = (giveTo ''a'' [''nigeria'', ''ghana'']
     (sampleGame [samplePlayer ''a'' 1 10, samplePlayer ''b'' 2 1500]))
     \<lparr>phase := Awaiting_debt_resolution,
      debt := Some \<lparr>debt_roomPlayerId = ''a'', creditorRoomPlayerId = Some ''b'', debt_amount = 500, debt_reason = Rent\<rparr>\<rparr>"

lemma debtSample_ok:
  "wf_state debtSample" "wholeSets debtSample"
  "map_option debt_roomPlayerId (debt debtSample) = Some ''a''"
  "map_option creditorRoomPlayerId (debt debtSample) = Some (Some ''b'')"
  "''b'' \<in> activeIds (players debtSample)"
  by code_simp+



text \<open>
  C4. Turns are fair: passing the turn never fails while the current player is in the game and does
  not play again, every player who is not bankrupt gets the turn within one round, and after as
  many turns as there are such players it is back with the first.
\<close>

theorem turns_are_fair:
  assumes "turnReady s" "pid \<in> set (seatOrder s)"
  shows "(\<exists>k < length (seatOrder s). \<exists>t. iterM k passTurn s = Some t \<and> currentTurnRoomPlayerId t = pid) \<and>
     (\<exists>t. iterM (length (seatOrder s)) passTurn s = Some t \<and> currentTurnRoomPlayerId t = currentTurnRoomPlayerId s)"
  using turns.everyone_plays [OF assms] turns.round_returns [OF assms(1)] by blast

theorem turns_are_fair_witness:
  "(\<exists>k < length (seatOrder sampleTwo). \<exists>t. iterM k passTurn sampleTwo = Some t \<and> currentTurnRoomPlayerId t = ''b'') \<and>
     (\<exists>t. iterM (length (seatOrder sampleTwo)) passTurn sampleTwo = Some t \<and>
       currentTurnRoomPlayerId t = currentTurnRoomPlayerId sampleTwo)"
proof (rule turns_are_fair)
  show "turnReady sampleTwo" by code_simp
  show "''b'' \<in> set (seatOrder sampleTwo)" by code_simp
qed

end
