(* ===== verification/Game_Rules.thy ===== *)
theory Game_Rules
  imports Game_Liveness
begin

text \<open>
  The rules of the game as theorems about the engine: moving and jail, rent and purchases, auctions,
  trades, debts and bankruptcy, the final standings, and what a finished game still accepts.
\<close>

section \<open>Moving\<close>

lemma service_rollAndMove_Inr:
  assumes "wf_state s" "service_rollAndMove s pid dice = Inr (s', evs)"
  shows "calm s" "currentTurnRoomPlayerId s = pid" "0 \<le> dice ! 0 + dice ! 1"
    "rollAndMove s pid (dice ! 0, dice ! 1) = Inr (s', evs)"
proof -
  from assms(2) have roll: "assertCanRoll s = Inr ()" "assertCurrentTurn s pid = Inr ()" "assertValidDice dice = Inr ()"
    "rollAndMove s pid (dice ! 0, dice ! 1) = Inr (s', evs)"
    by (auto simp: service_rollAndMove_def)
  show "calm s" using roll(1) wf_calm [OF assms(1)] by (auto simp: assertCanRoll_def)
  show "currentTurnRoomPlayerId s = pid" using roll(2) by (simp add: assertCurrentTurn_Inr_iff)
  show "0 \<le> dice ! 0 + dice ! 1" using assertValidDice_sum [OF roll(3)] by simp
  show "rollAndMove s pid (dice ! 0, dice ! 1) = Inr (s', evs)" by (rule roll(4))
qed

lemma free_roll:
  assumes "findBy roomPlayerId pid (players s) = Some p" "\<not> inJail p"
  shows "rollAndMove s pid dice = rollAndMoveIgnoringJail s pid dice False"
  using assms by (simp add: rollAndMove_def resolveJailedRoll_def)

definition rollSample :: GameEngineState where
  "rollSample = (modifyPlayer ''a'' (\<lambda>p. p\<lparr>position := 36\<rparr>) sampleTwo)\<lparr>consecutiveDoublesCount := 2\<rparr>"

lemma rollSample_ok:
  "wf_state rollSample" "\<not> isl (service_rollAndMove rollSample ''a'' [3, 2])"
  "map_option inJail (findBy roomPlayerId ''a'' (players rollSample)) = Some False"
  "map_option position (findBy roomPlayerId ''a'' (players rollSample)) = Some 36"
  "map_option cash (findBy roomPlayerId ''a'' (players rollSample)) = Some 1500"
  "\<not> isThirdConsecutiveDoubles rollSample (3, 2)"
  "isThirdConsecutiveDoubles rollSample (3, 3)" "\<not> isl (service_rollAndMove rollSample ''a'' [3, 3])"
  "findTile CLASSIC_GAME_BOARD ''nigeria'' \<noteq> None"
  "case findTile CLASSIC_GAME_BOARD ''nigeria'' of None \<Rightarrow> False
     | Some t \<Rightarrow> getTile CLASSIC_GAME_BOARD 1 = Inr t \<and> isOwnableTile t \<and> tile_key t \<in> unownedKeys (properties rollSample)"
  by code_simp+

text \<open>
  A free player who rolls, and it is not the third double in a row, ends the walk at his position
  plus the sum of the dice modulo forty and collects 200 exactly when he reaches or passes Go; if the
  tile is an unowned property he is asked whether to buy it.
\<close>

theorem roll_to_unowned_property:
  assumes wf: "wf_state s" and roll: "service_rollAndMove s pid dice = Inr (s', evs)"
    and p: "findBy roomPlayerId pid (players s) = Some p" "\<not> inJail p"
    and third: "\<not> isThirdConsecutiveDoubles s (dice ! 0, dice ! 1)"
    and tile: "getTile CLASSIC_GAME_BOARD ((position p + dice ! 0 + dice ! 1) mod 40) = Inr tile"
      "isOwnableTile tile" "tile_key tile \<in> unownedKeys (properties s)"
  shows "phase s' = Awaiting_property_decision \<and> pendingTileKey s' = Some (tile_key tile) \<and>
     findBy roomPlayerId pid (players s') = Some (p\<lparr>
       position := (position p + dice ! 0 + dice ! 1) mod 40,
       cash := cash p + (if 40 \<le> position p + dice ! 0 + dice ! 1 then 200 else 0)\<rparr>) \<and>
     (\<forall>q. q \<noteq> pid \<longrightarrow> findBy roomPlayerId q (players s') = findBy roomPlayerId q (players s))"
proof -
  let ?dice = "(dice ! 0, dice ! 1)" and ?d = "doublesAfter False s (dice ! 0, dice ! 1)"
  note r = service_rollAndMove_Inr [OF wf roll]
  have moved: "rollAndMoveIgnoringJail s pid ?dice False = Inr (s', evs)" using r(4) free_roll [OF p] by simp
  obtain t evs' where "getTile CLASSIC_GAME_BOARD ((position p + dice ! 0 + dice ! 1) mod 40) = Inr t"
    "resolveLanding (movedTo ?d pid ?dice t) pid ?dice (landingOn s t) evs' = Inr (s', evs)"
    by (rule rollAndMoveIgnoringJail_walk [OF wf p(1), of ?dice False]) (use r(3) third moved in auto)
  with tile(1) have "resolveLanding (movedTo ?d pid ?dice tile) pid ?dice (landingOn s tile) evs' = Inr (s', evs)"
    by simp
  moreover have "kind tile \<noteq> Kind_go_to_jail" "kind tile \<noteq> Kind_chance" "kind tile \<noteq> Kind_world_fund"
    using tile(2) by (auto simp: isOwnableTile_iff ownableKind_def)
  ultimately have "s' = movedTo ?d pid ?dice tile"
    using tile(2,3) by (auto simp: resolveLanding_def landingOn_def)
  then show ?thesis
    using tile(2,3) p(1) by (auto simp: movedTo_def Let_def landingOn_def findBy_updateBy walk_def)
qed

theorem roll_to_unowned_property_witness:
  "\<exists>s' evs p. service_rollAndMove rollSample ''a'' [3, 2] = Inr (s', evs) \<and> phase s' = Awaiting_property_decision \<and>
     findBy roomPlayerId ''a'' (players s') = Some p \<and> position p = 1 \<and> cash p = 1700"
proof -
  obtain s' evs where r: "service_rollAndMove rollSample ''a'' [3, 2] = Inr (s', evs)"
    using not_isl_Inr [OF rollSample_ok(2)] by blast
  obtain p where p: "findBy roomPlayerId ''a'' (players rollSample) = Some p" "\<not> inJail p" "position p = 36" "cash p = 1500"
    using rollSample_ok(3-5) by (cases "findBy roomPlayerId ''a'' (players rollSample)") auto
  obtain t where "getTile CLASSIC_GAME_BOARD 1 = Inr t" "isOwnableTile t" "tile_key t \<in> unownedKeys (properties rollSample)"
    using rollSample_ok(10) by (auto split: option.splits)
  then show ?thesis
    using roll_to_unowned_property [OF rollSample_ok(1) r p(1,2), of t] rollSample_ok(6) p(3,4) r by auto
qed

text \<open>
  The third double in a row does not move the player: he goes to jail, his cash is unchanged, the
  run of doubles is over and he does not roll again.
\<close>

theorem third_double_goes_to_jail:
  assumes wf: "wf_state s" and roll: "service_rollAndMove s pid dice = Inr (s', evs)"
    and p: "findBy roomPlayerId pid (players s) = Some p" "\<not> inJail p"
    and third: "isThirdConsecutiveDoubles s (dice ! 0, dice ! 1)"
  shows "phase s' = Awaiting_turn_end \<and> consecutiveDoublesCount s' = 0 \<and> \<not> shouldCurrentPlayerPlayAgain s' \<and>
     findBy roomPlayerId pid (players s') = Some (p\<lparr>position := 10, inJail := True, jailTurnCount := 0\<rparr>) \<and>
     properties s' = properties s"
proof -
  have "rollAndMoveIgnoringJail s pid (dice ! 0, dice ! 1) False = Inr (s', evs)"
    using service_rollAndMove_Inr(4) [OF wf roll] free_roll [OF p] by simp
  then show ?thesis
    using third p(1)
    by (auto simp: rollAndMoveIgnoringJail_def sendPlayerToJail_def applyDoublesState_def Let_def findBy_updateBy
        split: if_splits)
qed

theorem third_double_goes_to_jail_witness:
  "\<exists>s' evs p. service_rollAndMove rollSample ''a'' [3, 3] = Inr (s', evs) \<and>
     findBy roomPlayerId ''a'' (players s') = Some p \<and> position p = 10 \<and> inJail p \<and> cash p = 1500"
proof -
  obtain s' evs where r: "service_rollAndMove rollSample ''a'' [3, 3] = Inr (s', evs)"
    using not_isl_Inr [OF rollSample_ok(8)] by blast
  obtain p where p: "findBy roomPlayerId ''a'' (players rollSample) = Some p" "\<not> inJail p" "cash p = 1500"
    using rollSample_ok(3,5) by (cases "findBy roomPlayerId ''a'' (players rollSample)") auto
  then show ?thesis using third_double_goes_to_jail [OF rollSample_ok(1) r p(1,2)] rollSample_ok(7) r by auto
qed

section \<open>Rent\<close>

text \<open>How many tiles of a kind a player owns.\<close>

definition ownedOfKind :: "GameEngineState \<Rightarrow> GameTileKind \<Rightarrow> string \<Rightarrow> nat" where
  "ownedOfKind s k owner =
     card {t \<in> set classicTiles. kind t = k \<and>
       map_option ownerRoomPlayerId (findBy tileKey (tile_key t) (properties s)) = Some (Some owner)}"

lemma countOwnedTilesByKind_card:
  assumes q: "findBy tileKey key (properties s) = Some q" and owner: "ownerRoomPlayerId q = Some owner" "owner \<noteq> []"
  shows "countOwnedTilesByKind s k key = int (ownedOfKind s k owner)"
proof -
  let ?owned = "\<lambda>t. case findBy tileKey (tile_key t) (properties s) of
    None \<Rightarrow> False | Some r \<Rightarrow> ownerRoomPlayerId r = Some owner"
  have dist: "distinct classicTiles" using distinct_tile_key by (simp add: distinct_map)
  have "length (filter ?owned (filter (\<lambda>t. kind t = k) classicTiles)) =
      card (set (filter ?owned (filter (\<lambda>t. kind t = k) classicTiles)))"
    by (rule distinct_card [symmetric]) (simp add: dist)
  also have "set (filter ?owned (filter (\<lambda>t. kind t = k) classicTiles)) = {t \<in> set classicTiles. kind t = k \<and>
      map_option ownerRoomPlayerId (findBy tileKey (tile_key t) (properties s)) = Some (Some owner)}"
    by (auto split: option.splits)
  finally show ?thesis
    by (simp add: countOwnedTilesByKind_def findProperty_def ownedOfKind_def q owner cong: option.case_cong)
qed

lemma rent_tables:
  "list_all (\<lambda>t. kind t = Kind_airport \<longrightarrow> rentByOwnedCount t = [25, 50, 100, 200]) classicTiles"
  "list_all (\<lambda>t. kind t = Kind_utility \<longrightarrow> rentMultiplierByOwnedCount t = [4, 10]) classicTiles"
  "length (filter (\<lambda>t. kind t = Kind_airport) classicTiles) = 4"
  "length (filter (\<lambda>t. kind t = Kind_utility) classicTiles) = 2"
  by code_simp+

lemma ownedOfKind_bounds:
  assumes tile: "tile \<in> set classicTiles" and q: "findBy tileKey (tile_key tile) (properties s) = Some q"
    and owner: "ownerRoomPlayerId q = Some owner"
  shows "1 \<le> ownedOfKind s (kind tile) owner"
    "ownedOfKind s (kind tile) owner \<le> length (filter (\<lambda>t. kind t = kind tile) classicTiles)"
proof -
  let ?S = "{t \<in> set classicTiles. kind t = kind tile \<and>
       map_option ownerRoomPlayerId (findBy tileKey (tile_key t) (properties s)) = Some (Some owner)}"
  have "tile \<in> ?S" using assms by simp
  moreover have "finite ?S" by simp
  ultimately have "0 < card ?S" by (auto simp: card_gt_0_iff)
  then show "1 \<le> ownedOfKind s (kind tile) owner" by (simp add: ownedOfKind_def)
  have "card ?S \<le> card (set (filter (\<lambda>t. kind t = kind tile) classicTiles))" by (rule card_mono) auto
  also have "\<dots> \<le> length (filter (\<lambda>t. kind t = kind tile) classicTiles)" by (rule card_length)
  finally show "ownedOfKind s (kind tile) owner \<le> length (filter (\<lambda>t. kind t = kind tile) classicTiles)"
    by (simp add: ownedOfKind_def)
qed

lemma four_cases: "1 \<le> n \<Longrightarrow> n \<le> (4::nat) \<Longrightarrow> n = 1 \<or> n = 2 \<or> n = 3 \<or> n = 4"
  by auto

definition airportSample :: GameEngineState where
  "airportSample = giveTo ''b'' [''lagos_airport''] sampleTwo"

text \<open>
  The rent tables are the rules: an airport costs 25 doubled for each further airport its owner
  has, and a utility costs the dice total times four, or times ten when its owner has both.
\<close>

theorem airport_and_utility_rent:
  assumes tile: "tile \<in> set classicTiles" and q: "findBy tileKey (tile_key tile) (properties s) = Some q"
    and owner: "ownerRoomPlayerId q = Some owner" "owner \<noteq> []"
  shows "(kind tile = Kind_airport \<longrightarrow>
      calculateRent s tile dice = Inr (25 * 2 ^ (ownedOfKind s Kind_airport owner - 1))) \<and>
    (kind tile = Kind_utility \<longrightarrow>
      calculateRent s tile dice =
        Inr ((fst dice + snd dice) * (if ownedOfKind s Kind_utility owner = 2 then 10 else 4)))"
proof (intro conjI impI)
  assume k: "kind tile = Kind_airport"
  have "rentByOwnedCount tile = [25, 50, 100, 200]" using rent_tables(1) tile k by (simp add: list_all_iff)
  moreover have "1 \<le> ownedOfKind s Kind_airport owner" "ownedOfKind s Kind_airport owner \<le> 4"
    using ownedOfKind_bounds [OF tile q owner(1)] k rent_tables(3) by auto
  ultimately show "calculateRent s tile dice = Inr (25 * 2 ^ (ownedOfKind s Kind_airport owner - 1))"
    using four_cases [of "ownedOfKind s Kind_airport owner"] k
    by (auto simp: calculateRent_def countOwnedTilesByKind_card [OF q owner] rentEntry_def jsNth_def)
next
  assume k: "kind tile = Kind_utility"
  have "rentMultiplierByOwnedCount tile = [4, 10]" using rent_tables(2) tile k by (simp add: list_all_iff)
  moreover have "ownedOfKind s Kind_utility owner = 1 \<or> ownedOfKind s Kind_utility owner = 2"
    using ownedOfKind_bounds [OF tile q owner(1)] k rent_tables(4) by auto
  ultimately show "calculateRent s tile dice =
      Inr ((fst dice + snd dice) * (if ownedOfKind s Kind_utility owner = 2 then 10 else 4))"
    using k by (auto simp: calculateRent_def countOwnedTilesByKind_card [OF q owner] rentEntry_def jsNth_def)
qed

lemma airportSample_ok:
  "wf_state airportSample"
  "case findTile CLASSIC_GAME_BOARD ''lagos_airport'' of None \<Rightarrow> False | Some t \<Rightarrow>
     kind t = Kind_airport \<and> tile_key t = ''lagos_airport'' \<and> t \<in> set classicTiles"
  "map_option ownerRoomPlayerId (findBy tileKey ''lagos_airport'' (properties airportSample)) = Some (Some ''b'')"
  "map_option mortgaged (findBy tileKey ''lagos_airport'' (properties airportSample)) = Some False"
  "\<not> isl (payRent airportSample ''a'' ''lagos_airport'' (2, 3))"
  "balance airportSample ''a'' = Some 1500" "balance airportSample ''b'' = Some 1500"
  "case findTile CLASSIC_GAME_BOARD ''lagos_airport'' of None \<Rightarrow> False | Some t \<Rightarrow>
     calculateRent airportSample t (2, 3) = Inr 25"
  by code_simp+

lemma airportSample_parts:
  obtains t q where "findTile CLASSIC_GAME_BOARD ''lagos_airport'' = Some t" "kind t = Kind_airport"
    "tile_key t = ''lagos_airport''" "t \<in> set classicTiles" "calculateRent airportSample t (2, 3) = Inr 25"
    "findBy tileKey ''lagos_airport'' (properties airportSample) = Some q" "ownerRoomPlayerId q = Some ''b''" "\<not> mortgaged q"
  using airportSample_ok(2-4,8) by (auto split: option.splits)

theorem airport_and_utility_rent_witness:
  "\<exists>t. findTile CLASSIC_GAME_BOARD ''lagos_airport'' = Some t \<and>
     calculateRent airportSample t (2, 3) = Inr (25 * 2 ^ (ownedOfKind airportSample Kind_airport ''b'' - 1))"
proof (rule airportSample_parts)
  fix t q
  assume t: "findTile CLASSIC_GAME_BOARD ''lagos_airport'' = Some t" "kind t = Kind_airport" "tile_key t = ''lagos_airport''"
    "t \<in> set classicTiles" "findBy tileKey ''lagos_airport'' (properties airportSample) = Some q"
    "ownerRoomPlayerId q = Some ''b''"
  show ?thesis
    using airport_and_utility_rent [OF t(4), of airportSample q "''b''" "(2, 3)"] t by auto
qed

lemma transferOrDebt_cases:
  assumes "solvent s" "payer \<noteq> owner" "transferPlayerCashOrCreateDebt s payer owner amount r = Inr (s', evs, paid)"
  obtains b where "balance s payer = Some b"
    "if amount \<le> b then paid \<and> transferPlayerCash s payer owner amount = Inr s' \<and> totalCash s' = totalCash s \<and>
       balance s' = (balance s)(payer \<mapsto> b - amount, owner \<mapsto> the (balance s owner) + amount)
     else \<not> paid \<and> s' = createDebtState s \<lparr>debt_roomPlayerId = payer, creditorRoomPlayerId = Some owner,
       debt_amount = amount, debt_reason = r\<rparr>"
proof -
  from assms(3) obtain p where p: "findBy roomPlayerId payer (players s) = Some p"
    by (auto simp: transferPlayerCashOrCreateDebt_def)
  have split: "if amount \<le> cash p then paid \<and> transferPlayerCash s payer owner amount = Inr s'
     else \<not> paid \<and> s' = createDebtState s \<lparr>debt_roomPlayerId = payer, creditorRoomPlayerId = Some owner,
       debt_amount = amount, debt_reason = r\<rparr>"
    using assms(3) p by (auto simp: transferPlayerCashOrCreateDebt_def split: if_splits)
  show thesis
  proof (cases "amount \<le> cash p")
    case True
    then have t: "transferPlayerCash s payer owner amount = Inr s'" and "paid"
      using split by auto
    note step = assms(1) t [unfolded transferPlayerCash_def]
    show thesis
      by (rule that [of "cash p"]) (use p True t \<open>paid\<close> cash_ledger.transfer_balance [OF step assms(2)]
          cash_ledger.transfer_total [OF step] in \<open>simp_all add: balance_def\<close>)
  qed (use that [of "cash p"] p split in \<open>simp add: balance_def\<close>)
qed

text \<open>
  Landing on another player's unmortgaged property costs its rent: the payer's balance falls and
  the owner's rises by it, no other balance changes and the total stays; a payer who cannot afford it
  keeps his cash and owes exactly the rent to the owner. Unowned, own and mortgaged properties are
  free.
\<close>

theorem rent_is_paid_or_owed:
  assumes wf: "wf_state s" and pay: "payRent s payer key dice = Inr (s', evs)"
    and q: "findBy tileKey key (properties s) = Some q"
    and tile: "findTile CLASSIC_GAME_BOARD key = Some tile"
  shows "if truthy (ownerRoomPlayerId q) \<and> ownerRoomPlayerId q \<noteq> Some payer \<and> \<not> mortgaged q
     then \<exists>rent b. calculateRent s tile dice = Inr rent \<and> balance s payer = Some b \<and>
       (let owner = the (ownerRoomPlayerId q) in
        if rent \<le> b
        then balance s' = (balance s)(payer \<mapsto> b - rent, owner \<mapsto> the (balance s owner) + rent) \<and>
          totalCash s' = totalCash s \<and> debt s' = debt s
        else players s' = players s \<and> phase s' = Awaiting_debt_resolution \<and>
          debt s' = Some \<lparr>debt_roomPlayerId = payer, creditorRoomPlayerId = Some owner,
                         debt_amount = rent, debt_reason = Rent\<rparr>)
     else s' = s \<and> evs = []"
proof (cases "truthy (ownerRoomPlayerId q) \<and> ownerRoomPlayerId q \<noteq> Some payer \<and> \<not> mortgaged q")
  case True
  let ?owner = "the (ownerRoomPlayerId q)"
  have rentable: "isRentableTile tile"
  proof -
    have "key \<in> set ownableKeys" using propertiesOk_lookup [OF wf_stateD(4) [OF wf], of key] q by blast
    then obtain u where u: "u \<in> set classicTiles" "tile_key u = key" "ownableKind (kind u)"
      by (auto simp: ownableKeys_def isOwnableTile_iff)
    then have "u = tile" using findTile_key [of u] tile by simp
    with u show ?thesis by (simp add: isRentableTile_iff)
  qed
  obtain rent paid evs' where rent: "calculateRent s tile dice = Inr rent"
    and t: "transferPlayerCashOrCreateDebt s payer ?owner rent Rent = Inr (s', evs', paid)"
    using pay True q tile rentable by (auto simp: payRent_def findProperty_def Let_def)
  have "payer \<noteq> ?owner" using True by (cases "ownerRoomPlayerId q") auto
  then show ?thesis
    by (rule transferOrDebt_cases [OF wf_solvent [OF wf] _ t])
      (use True rent in \<open>auto simp: Let_def createDebtState_def transferPlayerCash_frame split: if_splits\<close>)
qed (use pay q in \<open>auto simp: payRent_def findProperty_def\<close>)

theorem rent_is_paid_or_owed_witness:
  "\<exists>s' evs. payRent airportSample ''a'' ''lagos_airport'' (2, 3) = Inr (s', evs) \<and>
     balance s' ''a'' = Some 1475 \<and> balance s' ''b'' = Some 1525"
proof (rule airportSample_parts)
  fix t q
  assume t: "findTile CLASSIC_GAME_BOARD ''lagos_airport'' = Some t" "calculateRent airportSample t (2, 3) = Inr 25"
    "findBy tileKey ''lagos_airport'' (properties airportSample) = Some q" "ownerRoomPlayerId q = Some ''b''" "\<not> mortgaged q"
  obtain s' evs where r: "payRent airportSample ''a'' ''lagos_airport'' (2, 3) = Inr (s', evs)"
    using not_isl_Inr [OF airportSample_ok(5)] by blast
  show ?thesis
    using rent_is_paid_or_owed [OF airportSample_ok(1) r t(3,1)] t r airportSample_ok(6,7) by (auto simp: Let_def)
qed

section \<open>Buying\<close>

text \<open>
  Buying the pending property debits exactly its price, makes the buyer its owner, and changes no
  other balance, no other property and nothing else of that property.
\<close>

theorem purchase_effect:
  assumes wf: "wf_state s" and buy: "service_buyProperty s pid = Inr (s', evs)"
  shows "\<exists>key tile b q. pendingTileKey s = Some key \<and> findTile CLASSIC_GAME_BOARD key = Some tile \<and>
     balance s pid = Some b \<and> price tile \<le> b \<and> balance s' = (balance s)(pid \<mapsto> b - price tile) \<and>
     findBy tileKey key (properties s) = Some q \<and> \<not> truthy (ownerRoomPlayerId q) \<and>
     findBy tileKey key (properties s') = Some (q\<lparr>ownerRoomPlayerId := Some pid\<rparr>) \<and>
     (\<forall>k. k \<noteq> key \<longrightarrow> findBy tileKey k (properties s') = findBy tileKey k (properties s)) \<and>
     phase s' = Awaiting_turn_end \<and> pendingTileKey s' = None"
proof -
  have "buyProperty s pid = Inr (s', evs)" using buy by (auto simp: service_buyProperty_def)
  then show ?thesis
  proof (rule buyProperty_Inr)
    fix key tile q t
    assume *: "pendingTileKey s = Some key" "findTile CLASSIC_GAME_BOARD key = Some tile"
      "findBy tileKey key (properties s) = Some q" "\<not> truthy (ownerRoomPlayerId q)"
      and t: "debitPlayer s pid (price tile) = Inr t"
      and s': "s' = (updatePropertyState t key (\<lambda>c. c\<lparr>ownerRoomPlayerId := Some pid\<rparr>))
       \<lparr>phase := Awaiting_turn_end, pendingTileKey := None\<rparr>"
    obtain b where b: "balance s pid = Some b" "price tile \<le> b"
      using t by (auto simp: debitPlayer_Inr_iff balance_def)
    have "balance s' = balance t" by (simp add: s' balance_def fun_eq_iff)
    also have "\<dots> = (balance s)(pid \<mapsto> b - price tile)"
      using cash_ledger.debit_balance [OF wf_solvent [OF wf] t] b by simp
    finally show ?thesis
      using * b debitPlayer_frame(6) [OF t] by (auto simp: s' updatePropertyState_def findBy_updateBy)
  qed
qed

definition buySample :: GameEngineState where
  "buySample = sampleTwo\<lparr>phase := Awaiting_property_decision, pendingTileKey := Some ''nigeria''\<rparr>"

lemma buySample_ok: "wf_state buySample" "\<not> isl (service_buyProperty buySample ''a'')"
  "pendingTileKey buySample = Some ''nigeria''"
  by code_simp+

theorem purchase_effect_witness:
  "\<exists>s' evs q. service_buyProperty buySample ''a'' = Inr (s', evs) \<and>
     findBy tileKey ''nigeria'' (properties s') = Some q \<and> ownerRoomPlayerId q = Some ''a''"
proof -
  obtain s' evs where r: "service_buyProperty buySample ''a'' = Inr (s', evs)"
    using not_isl_Inr [OF buySample_ok(2)] by blast
  with purchase_effect [OF buySample_ok(1) r] buySample_ok(3) show ?thesis by auto
qed

end
