(* ===== verification/Game_Deals.thy ===== *)
theory Game_Deals
  imports Game_Rules
begin

text \<open>
  The dealings between players as theorems: auctions end and go to the highest bidder, trades swap
  exactly what was offered.
\<close>

section \<open>Auctions\<close>

lemma auction_turn:
  assumes wf: "wf_state s" and a: "auction s = Some a"
    and act: "assertAuctionPlayerActive a pid = Inr ()" "assertAuctionPlayerCanAct a pid = Inr ()"
  shows "currentBidderRoomPlayerId a = Some pid" "pid \<in> set (activeRoomPlayerIds a)"
    "pid \<notin> set (passedRoomPlayerIds a)" "highestBidderRoomPlayerId a \<noteq> Some pid" "0 \<le> currentBid a"
proof -
  have ok: "auctionOk (set (playerIds s)) (unownedKeys (properties s)) a"
    using wf a by (simp add: wf_state_def phaseOk_def)
  note pid = currentBidder_acts [OF ok act]
  show "currentBidderRoomPlayerId a = Some pid" "pid \<in> set (activeRoomPlayerIds a)"
    "pid \<notin> set (passedRoomPlayerIds a)" "0 \<le> currentBid a"
    using pid wf_currentBid [OF wf a] by auto
  show "highestBidderRoomPlayerId a \<noteq> Some pid"
  proof
    assume "highestBidderRoomPlayerId a = Some pid"
    then have "bidderAfter a pid = Some pid" and dist: "distinct (activeRoomPlayerIds a)"
      using ok pid(1) by (auto simp: auctionOk_def)
    then have "pid \<in> set (ringAfter (activeRoomPlayerIds a) pid)"
      unfolding bidderAfter_def find_Some_iff by (metis nth_mem)
    with set_ringAfter [OF dist pid(2)] show False by auto
  qed
qed

lemma placeAuctionBid_Inr:
  assumes wf: "wf_state s" and bid: "placeAuctionBid now s pid amount = Inr (s', evs)"
  obtains a a' p where "auction s = Some a" "assertAuctionPlayerActive a pid = Inr ()"
    "assertAuctionPlayerCanAct a pid = Inr ()" "getMinimumAuctionBid a \<le> amount"
    "findBy roomPlayerId pid (players s) = Some p" "amount \<le> cash p"
    "a' = a\<lparr>currentBid := amount, highestBidderRoomPlayerId := Some pid, bidExpiresAt := bidExpiresAt a',
      currentBidderRoomPlayerId := currentBidderRoomPlayerId a'\<rparr>"
    "s' = s\<lparr>auction := Some a'\<rparr> \<or> (\<exists>e. completeAuctionWithWinner s a' e = Inr (s', evs))"
proof -
  from bid obtain a p where a: "auction s = Some a" "assertAuctionPlayerActive a pid = Inr ()"
    "assertAuctionPlayerCanAct a pid = Inr ()" "getMinimumAuctionBid a \<le> amount"
    "findBy roomPlayerId pid (players s) = Some p" "amount \<le> cash p"
    by (auto simp: placeAuctionBid_def assertActiveAuction_def not_less split: if_splits)
  define b where "b = a\<lparr>currentBid := amount, highestBidderRoomPlayerId := Some pid,
    currentBidderRoomPlayerId := None, bidExpiresAt := Some (getNextAuctionBidExpiresAt now s)\<rparr>"
  define n where "n = b\<lparr>currentBidderRoomPlayerId := getNextAuctionBidderRoomPlayerId b pid\<rparr>"
  have "s' = s\<lparr>auction := Some n\<rparr> \<or> (\<exists>e. completeAuctionWithWinner s n e = Inr (s', evs))"
    using bid unfolding n_def b_def
    by (auto simp: placeAuctionBid_def assertActiveAuction_def a(1) Let_def split: if_splits)
  then show thesis using that [OF a, of n] by (simp add: n_def b_def)
qed

lemma passAuctionBid_Inr:
  assumes wf: "wf_state s" and pass: "passAuctionBid now s pid = Inr (s', evs)"
  obtains a a' where "auction s = Some a" "assertAuctionPlayerActive a pid = Inr ()"
    "assertAuctionPlayerCanAct a pid = Inr ()"
    "a' = a\<lparr>passedRoomPlayerIds := jsSet (passedRoomPlayerIds a @ [pid]), bidExpiresAt := bidExpiresAt a',
      currentBidderRoomPlayerId := currentBidderRoomPlayerId a'\<rparr>"
    "s' = s\<lparr>auction := Some a'\<rparr> \<or>
     (truthy (highestBidderRoomPlayerId a) \<and> (\<exists>e. completeAuctionWithWinner s a' e = Inr (s', evs))) \<or>
     (\<not> truthy (highestBidderRoomPlayerId a) \<and> (\<exists>e. completeAuctionWithoutWinner s a' e = Inr (s', evs)))"
proof -
  from pass obtain a where a: "auction s = Some a" "assertAuctionPlayerActive a pid = Inr ()"
    "assertAuctionPlayerCanAct a pid = Inr ()"
    by (auto simp: passAuctionBid_def assertActiveAuction_def split: if_splits)
  define b where "b = a\<lparr>passedRoomPlayerIds := jsSet (passedRoomPlayerIds a @ [pid])\<rparr>"
  define n where "n = b\<lparr>currentBidderRoomPlayerId := getNextAuctionBidderRoomPlayerId b pid,
    bidExpiresAt := Some (getNextAuctionBidExpiresAt now s)\<rparr>"
  have "s' = s\<lparr>auction := Some n\<rparr> \<or>
     (truthy (highestBidderRoomPlayerId a) \<and> (\<exists>e. completeAuctionWithWinner s n e = Inr (s', evs))) \<or>
     (\<not> truthy (highestBidderRoomPlayerId a) \<and> (\<exists>e. completeAuctionWithoutWinner s n e = Inr (s', evs)))"
    using pass unfolding n_def b_def
    by (auto simp: passAuctionBid_def assertActiveAuction_def a(1) Let_def split: if_splits)
  then show thesis using that [OF a, of n] by (simp add: n_def b_def)
qed

lemma minimum_bid_raises:
  "0 \<le> currentBid a \<Longrightarrow> getMinimumAuctionBid a \<le> amount \<Longrightarrow> currentBid a < amount"
  by (auto simp: getMinimumAuctionBid_def MINIMUM_AUCTION_BID_def split: if_splits)

definition auctionSample :: GameEngineState where
  "auctionSample = sampleTwo\<lparr>phase := Awaiting_auction_bid,
     auction := Some \<lparr>auction_tileKey = ''nigeria'', currentBid = 20, highestBidderRoomPlayerId = Some ''a'',
       currentBidderRoomPlayerId = Some ''b'', bidExpiresAt = None,
       activeRoomPlayerIds = [''a'', ''b''], passedRoomPlayerIds = []\<rparr>\<rparr>"

lemma auctionSample_ok:
  "wf_state auctionSample" "\<not> isl (placeAuctionBid 5 auctionSample ''b'' 30)" "\<not> isl (passAuctionBid 5 auctionSample ''b'')"
  "map_option currentBid (auction auctionSample) = Some 20" "balance auctionSample ''a'' = Some 1500"
  "map_option highestBidderRoomPlayerId (auction auctionSample) = Some (Some ''a'')"
  "map_option auction_tileKey (auction auctionSample) = Some ''nigeria''"
  "case passAuctionBid 5 auctionSample ''b'' of Inl e \<Rightarrow> False | Inr (s', evs) \<Rightarrow> auction s' = None"
  "case placeAuctionBid 5 auctionSample ''b'' 30 of Inl e \<Rightarrow> False | Inr (s', evs) \<Rightarrow> auction s' \<noteq> None"
  by code_simp+

text \<open>
  C7. A bid is accepted only from the bidder whose turn it is, never from the one who already leads,
  only above the current bid and at least ten, and only within the bidder's cash.
\<close>

theorem bids_rise_and_are_covered:
  assumes wf: "wf_state s" and bid: "placeAuctionBid now s pid amount = Inr (s', evs)"
  shows "\<exists>a b. auction s = Some a \<and> currentBidderRoomPlayerId a = Some pid \<and>
     highestBidderRoomPlayerId a \<noteq> Some pid \<and> currentBid a < amount \<and> 10 \<le> amount \<and>
     balance s pid = Some b \<and> amount \<le> b"
proof (rule placeAuctionBid_Inr [OF assms])
  fix a a' p
  assume a: "auction s = Some a" "assertAuctionPlayerActive a pid = Inr ()" "assertAuctionPlayerCanAct a pid = Inr ()"
    "getMinimumAuctionBid a \<le> amount" "findBy roomPlayerId pid (players s) = Some p" "amount \<le> cash p"
  note turn = auction_turn [OF wf a(1-3)]
  have "10 \<le> amount"
    using a(1,4) wf by (auto simp: getMinimumAuctionBid_def MINIMUM_AUCTION_BID_def wf_state_def phaseOk_def auctionOk_def
        split: if_splits option.splits)
  then show ?thesis using a turn minimum_bid_raises [OF turn(5) a(4)] by (auto simp: balance_def)
qed

theorem bids_rise_and_are_covered_witness:
  "\<exists>s' evs a. placeAuctionBid 5 auctionSample ''b'' 30 = Inr (s', evs) \<and> auction auctionSample = Some a \<and>
     currentBid a < 30 \<and> highestBidderRoomPlayerId a \<noteq> Some ''b''"
proof -
  obtain s' evs where "placeAuctionBid 5 auctionSample ''b'' 30 = Inr (s', evs)"
    using not_isl_Inr [OF auctionSample_ok(2)] by blast
  with bids_rise_and_are_covered [OF auctionSample_ok(1) this] show ?thesis by blast
qed

text \<open>Cash above the current bid, then bidders left.\<close>

definition auctionMeasure :: "GameEngineState \<Rightarrow> nat \<times> nat" where
  "auctionMeasure s =
     (case auction s of
        None \<Rightarrow> (0, 0)
      | Some a \<Rightarrow> (nat (totalCash s - currentBid a), length (remainingBidders a)))"

lemma sum_list_member_le: "x \<in> set xs \<Longrightarrow> \<forall>y\<in>set xs. 0 \<le> f y \<Longrightarrow> f x \<le> (\<Sum>y\<leftarrow>xs. f y :: int)"
proof (induction xs)
  case (Cons y ys)
  have "0 \<le> (\<Sum>y\<leftarrow>ys. f y)" using Cons.prems(2) by (intro sum_list_nonneg) auto
  then show ?case using Cons by fastforce
qed simp

lemma cash_le_total: "solvent s \<Longrightarrow> findBy roomPlayerId pid (players s) = Some p \<Longrightarrow> cash p \<le> totalCash s"
  using sum_list_member_le [of p "players s" cash]
  by (auto simp: solvent_def totalCash_def list_all_iff dest: findBy_SomeD)

lemma remainingBidders_pass:
  assumes "pid \<in> set (activeRoomPlayerIds a)" "pid \<notin> set (passedRoomPlayerIds a)"
    and "activeRoomPlayerIds a' = activeRoomPlayerIds a" "passedRoomPlayerIds a' = jsSet (passedRoomPlayerIds a @ [pid])"
  shows "length (remainingBidders a') < length (remainingBidders a)"
proof -
  have "remainingBidders a' = filter (\<lambda>i. i \<noteq> pid) (remainingBidders a)"
    using assms(3,4) by (auto simp: remainingBidders_def intro: filter_cong)
  moreover have "pid \<in> set (remainingBidders a)" using assms(1,2) by (simp add: remainingBidders_def)
  ultimately show ?thesis using length_filter_less [of pid "remainingBidders a" "\<lambda>i. i \<noteq> pid"] by simp
qed

lemma completed_auction:
  "completeAuctionWithWinner s a e = Inr (s', evs) \<Longrightarrow> auction s' = None"
  "completeAuctionWithoutWinner s a e = Inr (s', evs) \<Longrightarrow> auction s' = None"
  by (auto simp: completeAuctionWithWinner_def completeAuctionWithoutWinner_def Let_def split: if_splits)

text \<open>
  C6. Every auction ends: each accepted bid or pass that leaves the auction open lowers, in the
  lexicographic order, the pair of the cash on the table above the current bid and the number of
  bidders who have not passed.
\<close>

theorem auctions_terminate:
  assumes wf: "wf_state s"
    and step: "placeAuctionBid now s pid amount = Inr (s', evs) \<or> passAuctionBid now s pid = Inr (s', evs)"
    and running: "auction s' \<noteq> None"
  shows "(auctionMeasure s', auctionMeasure s) \<in> less_than <*lex*> less_than"
  using step
proof
  assume bid: "placeAuctionBid now s pid amount = Inr (s', evs)"
  show ?thesis
  proof (rule placeAuctionBid_Inr [OF wf bid])
    fix a a' p
    assume a: "auction s = Some a" "assertAuctionPlayerActive a pid = Inr ()" "assertAuctionPlayerCanAct a pid = Inr ()"
      "getMinimumAuctionBid a \<le> amount" "findBy roomPlayerId pid (players s) = Some p" "amount \<le> cash p"
      and a': "a' = a\<lparr>currentBid := amount, highestBidderRoomPlayerId := Some pid, bidExpiresAt := bidExpiresAt a',
        currentBidderRoomPlayerId := currentBidderRoomPlayerId a'\<rparr>"
      and s': "s' = s\<lparr>auction := Some a'\<rparr> \<or> (\<exists>e. completeAuctionWithWinner s a' e = Inr (s', evs))"
    have open': "s' = s\<lparr>auction := Some a'\<rparr>" using s' running completed_auction(1) by metis
    have "currentBid a' = amount" by (subst a') simp
    moreover have "currentBid a < amount" by (rule minimum_bid_raises [OF auction_turn(5) [OF wf a(1-3)] a(4)])
    moreover have "amount \<le> totalCash s" using cash_le_total [OF wf_solvent [OF wf] a(5)] a(6) by simp
    moreover have "totalCash s' = totalCash s" by (simp add: open' totalCash_def)
    ultimately show ?thesis using a(1) open' by (simp add: auctionMeasure_def)
  qed
next
  assume pass: "passAuctionBid now s pid = Inr (s', evs)"
  show ?thesis
  proof (rule passAuctionBid_Inr [OF wf pass])
    fix a a'
    assume a: "auction s = Some a" "assertAuctionPlayerActive a pid = Inr ()" "assertAuctionPlayerCanAct a pid = Inr ()"
      and a': "a' = a\<lparr>passedRoomPlayerIds := jsSet (passedRoomPlayerIds a @ [pid]), bidExpiresAt := bidExpiresAt a',
        currentBidderRoomPlayerId := currentBidderRoomPlayerId a'\<rparr>"
      and s': "s' = s\<lparr>auction := Some a'\<rparr> \<or>
       (truthy (highestBidderRoomPlayerId a) \<and> (\<exists>e. completeAuctionWithWinner s a' e = Inr (s', evs))) \<or>
       (\<not> truthy (highestBidderRoomPlayerId a) \<and> (\<exists>e. completeAuctionWithoutWinner s a' e = Inr (s', evs)))"
    have open': "s' = s\<lparr>auction := Some a'\<rparr>" using s' running completed_auction by metis
    have "currentBid a' = currentBid a" "activeRoomPlayerIds a' = activeRoomPlayerIds a"
      "passedRoomPlayerIds a' = jsSet (passedRoomPlayerIds a @ [pid])" by (subst a'; simp)+
    moreover have "totalCash s' = totalCash s" by (simp add: open' totalCash_def)
    ultimately show ?thesis
      using a(1) open' remainingBidders_pass [OF auction_turn(2,3) [OF wf a]] by (simp add: auctionMeasure_def)
  qed
qed

theorem auctions_terminate_witness:
  "\<exists>s' evs. placeAuctionBid 5 auctionSample ''b'' 30 = Inr (s', evs) \<and>
     (auctionMeasure s', auctionMeasure auctionSample) \<in> less_than <*lex*> less_than"
proof -
  obtain s' evs where r: "placeAuctionBid 5 auctionSample ''b'' 30 = Inr (s', evs)" "auction s' \<noteq> None"
    using auctionSample_ok(9) by (auto split: sum.splits)
  with auctions_terminate [OF auctionSample_ok(1) disjI1 [OF r(1)]] show ?thesis by blast
qed

text \<open>
  When a pass closes the auction, the highest bidder pays exactly his bid and owns the property;
  nobody else's balance and no other property changes. Without any bid the property stays with the
  bank and all balances are as before.
\<close>

theorem auction_settlement:
  assumes wf: "wf_state s" and pass: "passAuctionBid now s pid = Inr (s', evs)"
    and a: "auction s = Some a" and over: "auction s' = None"
  shows "phase s' = Awaiting_turn_end \<and>
     (\<forall>k. k \<noteq> auction_tileKey a \<longrightarrow> findBy tileKey k (properties s') = findBy tileKey k (properties s)) \<and>
     map_option ownerRoomPlayerId (findBy tileKey (auction_tileKey a) (properties s')) =
       Some (highestBidderRoomPlayerId a) \<and>
     (case highestBidderRoomPlayerId a of
        None \<Rightarrow> balance s' = balance s
      | Some h \<Rightarrow> \<exists>b. balance s h = Some b \<and> currentBid a \<le> b \<and> balance s' = (balance s)(h \<mapsto> b - currentBid a))"
proof (rule passAuctionBid_Inr [OF wf pass])
  fix b a'
  assume "auction s = Some b"
    and a': "a' = b\<lparr>passedRoomPlayerIds := jsSet (passedRoomPlayerIds b @ [pid]), bidExpiresAt := bidExpiresAt a',
      currentBidderRoomPlayerId := currentBidderRoomPlayerId a'\<rparr>"
    and s': "s' = s\<lparr>auction := Some a'\<rparr> \<or>
     (truthy (highestBidderRoomPlayerId b) \<and> (\<exists>e. completeAuctionWithWinner s a' e = Inr (s', evs))) \<or>
     (\<not> truthy (highestBidderRoomPlayerId b) \<and> (\<exists>e. completeAuctionWithoutWinner s a' e = Inr (s', evs)))"
  then have ba: "b = a" using a by simp
  have same: "highestBidderRoomPlayerId a' = highestBidderRoomPlayerId a" "currentBid a' = currentBid a"
    "auction_tileKey a' = auction_tileKey a" by (subst a'; simp add: ba)+
  have ok: "auctionOk (set (playerIds s)) (unownedKeys (properties s)) a"
    using wf a by (simp add: wf_state_def phaseOk_def)
  obtain q where q: "findBy tileKey (auction_tileKey a) (properties s) = Some q"
    using ok unownedKeys_iff [OF wf_stateD(4) [OF wf]] by (auto simp: auctionOk_def)
  show ?thesis
  proof (cases "highestBidderRoomPlayerId a")
    case None
    then obtain e where "completeAuctionWithoutWinner s a' e = Inr (s', evs)" using s' over by (auto simp: ba)
    then have "s' = (updatePropertyState s (auction_tileKey a) (\<lambda>p. p\<lparr>ownerRoomPlayerId := None\<rparr>))
        \<lparr>phase := Awaiting_turn_end, auction := None\<rparr>"
      by (simp add: completeAuctionWithoutWinner_def same)
    then show ?thesis
      using None q by (auto simp: updatePropertyState_def findBy_updateBy balance_def fun_eq_iff)
  next
    case (Some h)
    then have "h \<noteq> []" using ok by (auto simp: auctionOk_def)
    then obtain e where "completeAuctionWithWinner s a' e = Inr (s', evs)" using s' over Some by (auto simp: ba)
    then obtain t where t: "debitPlayer s h (currentBid a) = Inr t" and s'': "s' = (updatePropertyState t (auction_tileKey a)
        (\<lambda>p. p\<lparr>ownerRoomPlayerId := Some h\<rparr>))\<lparr>phase := Awaiting_turn_end, auction := None\<rparr>"
      using Some \<open>h \<noteq> []\<close> by (auto simp: completeAuctionWithWinner_def same Let_def)
    obtain c where c: "balance s h = Some c" "currentBid a \<le> c"
      using t by (auto simp: debitPlayer_Inr_iff balance_def)
    have "balance s' = balance t" by (simp add: s'' balance_def fun_eq_iff)
    also have "\<dots> = (balance s)(h \<mapsto> c - currentBid a)"
      using cash_ledger.debit_balance [OF wf_solvent [OF wf] t] c by simp
    finally show ?thesis
      using Some q c debitPlayer_frame(6) [OF t] by (auto simp: s'' updatePropertyState_def findBy_updateBy)
  qed
qed

theorem auction_settlement_witness:
  "\<exists>s' evs. passAuctionBid 5 auctionSample ''b'' = Inr (s', evs) \<and> balance s' ''a'' = Some 1480 \<and>
     map_option ownerRoomPlayerId (findBy tileKey ''nigeria'' (properties s')) = Some (Some ''a'')"
proof -
  obtain s' evs where r: "passAuctionBid 5 auctionSample ''b'' = Inr (s', evs)" "auction s' = None"
    using auctionSample_ok(8) by (auto split: sum.splits)
  obtain a where a: "auction auctionSample = Some a" "currentBid a = 20" "highestBidderRoomPlayerId a = Some ''a''"
    "auction_tileKey a = ''nigeria''"
    using auctionSample_ok(4,6,7) by (cases "auction auctionSample") auto
  show ?thesis using auction_settlement [OF auctionSample_ok(1) r(1) a(1) r(2)] a auctionSample_ok(5) r by simp
qed

section \<open>Trades\<close>

definition ownerOf :: "GameEngineState \<Rightarrow> string \<Rightarrow> string option option" where
  "ownerOf s key = map_option ownerRoomPlayerId (findBy tileKey key (properties s))"

lemma findBy_map_keys:
  "(\<And>x. key (f x) = key x) \<Longrightarrow> findBy key k (map f xs) = map_option f (findBy key k xs)"
  by (induction xs) auto

lemma ownerOf_transferProperties:
  "ownerOf (transferProperties s keys owner) k =
     (if k \<in> set keys \<and> ownerOf s k \<noteq> None then Some (Some owner) else ownerOf s k)"
proof -
  have "findBy tileKey k (properties (transferProperties s keys owner)) =
      map_option (\<lambda>p. if tileKey p \<notin> set keys then p else p\<lparr>ownerRoomPlayerId := Some owner\<rparr>)
        (findBy tileKey k (properties s))" if "keys \<noteq> []"
    using that by (simp add: transferProperties_def findBy_map_keys)
  then show ?thesis
    by (cases "findBy tileKey k (properties s)"; cases "keys = []")
      (auto simp: ownerOf_def transferProperties_def dest: findBy_SomeD)
qed

lemma ownerOf_tradeOffer [simp]: "ownerOf (s\<lparr>tradeOffer := x\<rparr>) k = ownerOf s k"
  by (simp add: ownerOf_def)

lemma liquidateTradeBuildings_owner:
  "liquidateTradeBuildings s tid pid keys = Inr (s', evs) \<Longrightarrow> ownerOf s' k = ownerOf s k"
proof (induction keys arbitrary: s evs)
  case (Cons key keys)
  have keep: "ownerOf (updatePropertyState t key (\<lambda>c. c\<lparr>houseCount := 0, hasHotel := False\<rparr>)) k = ownerOf t k" for t
    by (cases "findBy tileKey k (properties t)") (auto simp: ownerOf_def updatePropertyState_def findBy_updateBy)
  have "ownerOf t k = ownerOf u k" if "creditPlayer u pid a = Inr t" for t u a
    using creditPlayer_frame(6) [OF that] by (simp add: ownerOf_def)
  with Cons keep show ?case by (fastforce simp: Let_def split: if_splits)
qed simp

lemma transferPlayerCash_owner: "transferPlayerCash s p q a = Inr t \<Longrightarrow> ownerOf t k = ownerOf s k"
  using transferPlayerCash_frame(6) [of s p q a t] by (simp add: ownerOf_def)

lemma assertPropertiesOwnedBy_owner:
  "assertPropertiesOwnedBy s keys owner = Inr () \<Longrightarrow> k \<in> set keys \<Longrightarrow> ownerOf s k = Some (Some owner)"
  by (induction keys) (auto simp: ownerOf_def)

lemma acceptTradeOffer_Inr:
  assumes "acceptTradeOffer s trade evs0 = Inr (s', evs)"
  obtains s1 evs1 s2 evs2 s3 s4 where "validateTrade s trade = Inr ()"
    "liquidateTradeBuildings s (trade_id trade) (fromRoomPlayerId trade) (offeredPropertyKeys trade) = Inr (s1, evs1)"
    "liquidateTradeBuildings s1 (trade_id trade) (toRoomPlayerId trade) (requestedPropertyKeys trade) = Inr (s2, evs2)"
    "(if offeredCash trade > 0
      then transferPlayerCash s2 (fromRoomPlayerId trade) (toRoomPlayerId trade) (offeredCash trade) else Inr s2) = Inr s3"
    "(if requestedCash trade > 0
      then transferPlayerCash s3 (toRoomPlayerId trade) (fromRoomPlayerId trade) (requestedCash trade) else Inr s3) = Inr s4"
    "s' = (transferProperties (transferProperties s4 (offeredPropertyKeys trade) (toRoomPlayerId trade))
      (requestedPropertyKeys trade) (fromRoomPlayerId trade))\<lparr>tradeOffer := None\<rparr>"
  using assms unfolding acceptTradeOffer_def
  by (auto simp: Let_def simp del: liquidateTradeBuildings.simps split del: if_split)

definition tradeSample :: GameEngineState where
  "tradeSample = (giveTo ''b'' [''ghana''] (giveTo ''a'' [''nigeria''] sampleTwo))
     \<lparr>tradeOffer := Some \<lparr>trade_id = ''t'', fromRoomPlayerId = ''a'', toRoomPlayerId = ''b'', offeredCash = 40,
       requestedCash = 0, offeredPropertyKeys = [''nigeria''], requestedPropertyKeys = [''ghana''], createdAt = 0\<rparr>\<rparr>"

lemma tradeSample_ok:
  "\<not> isl (acceptTrade tradeSample ''b'' ''t'')" "wf_state tradeSample"
  "map_option offeredPropertyKeys (tradeOffer tradeSample) = Some [''nigeria'']"
  "map_option requestedPropertyKeys (tradeOffer tradeSample) = Some [''ghana'']"
  "map_option fromRoomPlayerId (tradeOffer tradeSample) = Some ''a''"
  "map_option toRoomPlayerId (tradeOffer tradeSample) = Some ''b''"
  by code_simp+

text \<open>
  Accepting a trade swaps exactly the listed properties: the proposer owned every offered and the
  partner every requested one, afterwards it is the other way round, and every other property keeps
  its owner. Only the partner can accept, and the offer is gone.
\<close>

theorem trade_swaps_properties:
  assumes trade: "tradeOffer s = Some t" and accept: "acceptTrade s pid tid = Inr (s', evs)"
  shows "pid = toRoomPlayerId t \<and> tid = trade_id t \<and> tradeOffer s' = None \<and>
     (\<forall>k\<in>set (offeredPropertyKeys t). ownerOf s k = Some (Some (fromRoomPlayerId t)) \<and>
        ownerOf s' k = Some (Some (toRoomPlayerId t))) \<and>
     (\<forall>k\<in>set (requestedPropertyKeys t). ownerOf s k = Some (Some (toRoomPlayerId t)) \<and>
        ownerOf s' k = Some (Some (fromRoomPlayerId t))) \<and>
     (\<forall>k. k \<notin> set (offeredPropertyKeys t) \<longrightarrow> k \<notin> set (requestedPropertyKeys t) \<longrightarrow> ownerOf s' k = ownerOf s k)"
proof -
  have who: "pid = toRoomPlayerId t" "tid = trade_id t" and offer: "acceptTradeOffer s t [] = Inr (s', evs)"
    using accept trade by (auto simp: acceptTrade_def assertTradeOffer_def split: if_splits)
  show ?thesis
  proof (rule acceptTradeOffer_Inr [OF offer])
    fix s1 evs1 s2 evs2 s3 s4
    assume valid: "validateTrade s t = Inr ()"
      and s1: "liquidateTradeBuildings s (trade_id t) (fromRoomPlayerId t) (offeredPropertyKeys t) = Inr (s1, evs1)"
      and s2: "liquidateTradeBuildings s1 (trade_id t) (toRoomPlayerId t) (requestedPropertyKeys t) = Inr (s2, evs2)"
      and s3: "(if offeredCash t > 0
        then transferPlayerCash s2 (fromRoomPlayerId t) (toRoomPlayerId t) (offeredCash t) else Inr s2) = Inr s3"
      and s4: "(if requestedCash t > 0
        then transferPlayerCash s3 (toRoomPlayerId t) (fromRoomPlayerId t) (requestedCash t) else Inr s3) = Inr s4"
      and s': "s' = (transferProperties (transferProperties s4 (offeredPropertyKeys t) (toRoomPlayerId t))
        (requestedPropertyKeys t) (fromRoomPlayerId t))\<lparr>tradeOffer := None\<rparr>"
    have own: "assertPropertiesOwnedBy s (offeredPropertyKeys t) (fromRoomPlayerId t) = Inr ()"
      "assertPropertiesOwnedBy s (requestedPropertyKeys t) (toRoomPlayerId t) = Inr ()"
      and cross: "\<forall>k\<in>set (requestedPropertyKeys t). k \<notin> set (offeredPropertyKeys t)"
      using valid by (auto simp: validateTrade_def assertNoDuplicateCrossTradeProperties_def list_ex_iff)
    have "ownerOf s4 k = ownerOf s k" for k
      using s3 s4 liquidateTradeBuildings_owner [OF s1, of k] liquidateTradeBuildings_owner [OF s2, of k]
        transferPlayerCash_owner by (metis sum.inject(2))
    then have after: "ownerOf s' k = (if k \<in> set (requestedPropertyKeys t) \<and> ownerOf s k \<noteq> None then Some (Some (fromRoomPlayerId t))
        else if k \<in> set (offeredPropertyKeys t) \<and> ownerOf s k \<noteq> None then Some (Some (toRoomPlayerId t)) else ownerOf s k)" for k
      by (auto simp: s' ownerOf_transferProperties)
    show ?thesis
      using who cross assertPropertiesOwnedBy_owner [OF own(1)] assertPropertiesOwnedBy_owner [OF own(2)]
      by (auto simp: after) (auto simp: s')
  qed
qed

theorem trade_swaps_properties_witness:
  "\<exists>s' evs. acceptTrade tradeSample ''b'' ''t'' = Inr (s', evs) \<and>
     ownerOf s' ''nigeria'' = Some (Some ''b'') \<and> ownerOf s' ''ghana'' = Some (Some ''a'')"
proof -
  obtain s' evs where r: "acceptTrade tradeSample ''b'' ''t'' = Inr (s', evs)"
    using not_isl_Inr [OF tradeSample_ok(1)] by blast
  obtain t where t: "tradeOffer tradeSample = Some t" using tradeSample_ok(3) by auto
  from trade_swaps_properties [OF t r] tradeSample_ok(3-6) t r show ?thesis by auto
qed

end
