(* ===== verification/Game_Endings.thy ===== *)
theory Game_Endings
  imports Game_Deals
begin

text \<open>
  How accounts and games are closed, as theorems: paying a debt, going bankrupt, the standings that
  decide the winner, and what a finished game still accepts.
\<close>

section \<open>Debts\<close>

text \<open>
  Paying a debt takes exactly the amount owed from the debtor and gives it to the creditor, or to
  the bank when there is none; the debt is closed, the turn can be ended, and a jail fine sets its
  debtor free.
\<close>

theorem debt_payment:
  assumes wf: "wf_state s" and d: "debt s = Some d" and pay: "payDebt s pid = Inr (s', evs)"
  shows "pid = debt_roomPlayerId d \<and> debt s' = None \<and> phase s' = Awaiting_turn_end \<and>
     (\<exists>b. balance s pid = Some b \<and> debt_amount d \<le> b \<and>
       balance s' = (if truthy (creditorRoomPlayerId d)
         then (balance s)(pid \<mapsto> b - debt_amount d,
                the (creditorRoomPlayerId d) \<mapsto> the (balance s (the (creditorRoomPlayerId d))) + debt_amount d)
         else (balance s)(pid \<mapsto> b - debt_amount d))) \<and>
     (debt_reason d = Jail_fine \<longrightarrow> map_option inJail (findBy roomPlayerId pid (players s')) = Some False)"
proof -
  from pay d have pid: "pid = debt_roomPlayerId d" by (auto simp: payDebt_def)
  from pay obtain t where
    t: "(if truthy (creditorRoomPlayerId d)
         then transferPlayerCash s pid (the (creditorRoomPlayerId d)) (debt_amount d)
         else debitPlayer s pid (debt_amount d)) = Inr t"
    and s': "s' = (if debt_reason d = Jail_fine then releasePlayerFromJail t pid else t)
      \<lparr>phase := Awaiting_turn_end, debt := None, pendingTileKey := None, auction := None,
       shouldCurrentPlayerPlayAgain := False\<rparr>"
    by (auto simp: payDebt_def Let_def d split del: if_split)
  note sol = wf_solvent [OF wf]
  have other: "truthy (creditorRoomPlayerId d) \<Longrightarrow> pid \<noteq> the (creditorRoomPlayerId d)"
    using wf d pid by (auto simp: wf_state_def phaseOk_def debtOk_def)
  obtain u where u: "debitPlayer s pid (debt_amount d) = Inr u"
    using t by (auto simp: transferPlayerCash_def split: if_splits)
  then obtain p where p: "findBy roomPlayerId pid (players s) = Some p" "debt_amount d \<le> cash p"
    by (auto simp: debitPlayer_Inr_iff)
  have t_bal: "balance t = (if truthy (creditorRoomPlayerId d)
         then (balance s)(pid \<mapsto> cash p - debt_amount d,
                the (creditorRoomPlayerId d) \<mapsto> the (balance s (the (creditorRoomPlayerId d))) + debt_amount d)
         else (balance s)(pid \<mapsto> cash p - debt_amount d))"
    using t p other cash_ledger.transfer_balance [OF sol, of pid "debt_amount d" _ t] cash_ledger.debit_balance [OF sol, of pid "debt_amount d" t]
    by (auto simp: transferPlayerCash_def balance_def split: if_splits)
  have release: "balance (releasePlayerFromJail t pid) = balance t"
    by (cases "findBy roomPlayerId pid (players t)")
      (auto simp: releasePlayerFromJail_def balance_def findBy_updateBy fun_eq_iff)
  have "balance s' = balance t"
    unfolding s' using release by (simp add: balance_def fun_eq_iff)
  moreover have "playerIds t = playerIds s" using t by (auto simp: transferPlayerCash_frame debitPlayer_frame split: if_splits)
  then obtain p' where "findBy roomPlayerId pid (players t) = Some p'"
    using findPlayer_in_ids [OF p(1)] ids_findPlayer [of pid t] by auto
  then have "debt_reason d = Jail_fine \<Longrightarrow> map_option inJail (findBy roomPlayerId pid (players s')) = Some False"
    by (simp add: s' releasePlayerFromJail_def findBy_updateBy)
  moreover have "balance s pid = Some (cash p)" using p by (simp add: balance_def)
  ultimately show ?thesis using pid p(2) t_bal by (auto simp: s')
qed

definition payableSample :: GameEngineState where
  "payableSample = sampleTwo\<lparr>phase := Awaiting_debt_resolution,
      debt := Some \<lparr>debt_roomPlayerId = ''a'', creditorRoomPlayerId = Some ''b'', debt_amount = 500, debt_reason = Rent\<rparr>\<rparr>"

lemma payableSample_ok:
  "wf_state payableSample" "\<not> isl (payDebt payableSample ''a'')" "balance payableSample ''a'' = Some 1500"
  "balance payableSample ''b'' = Some 1500"
  "debt payableSample = Some \<lparr>debt_roomPlayerId = ''a'', creditorRoomPlayerId = Some ''b'', debt_amount = 500, debt_reason = Rent\<rparr>"
  by code_simp+

theorem debt_payment_witness:
  "\<exists>s' evs. payDebt payableSample ''a'' = Inr (s', evs) \<and> balance s' ''a'' = Some 1000 \<and> balance s' ''b'' = Some 2000"
proof -
  obtain s' evs where r: "payDebt payableSample ''a'' = Inr (s', evs)"
    using not_isl_Inr [OF payableSample_ok(2)] by blast
  show ?thesis using debt_payment [OF payableSample_ok(1,5) r] payableSample_ok(3,4) r by auto
qed

section \<open>Bankruptcy\<close>

lemma liquidated_effect:
  assumes t: "liquidated pid c s t" and p: "findBy roomPlayerId pid (players s) = Some p" and c: "c \<noteq> Some pid"
  shows "findBy roomPlayerId pid (players t) = Some (ruin p)"
    "\<And>q. q \<noteq> pid \<Longrightarrow> findBy roomPlayerId q (players t) = findBy roomPlayerId q (players s)"
    "\<And>k. ownerOf t k \<noteq> Some (Some pid)"
    "\<And>k. ownerOf t k = (if ownerOf s k = Some (Some pid) then Some c else ownerOf s k)"
proof -
  note f = liquidated_frame [OF t]
  have key: "roomPlayerId (ruin q) = roomPlayerId q" "tileKey (liquidateProperty pid c r) = tileKey r" for q r
    by (simp_all add: ruin_def liquidateProperty_def)
  show "findBy roomPlayerId pid (players t) = Some (ruin p)" using p by (simp add: f findBy_updateBy key)
  show "findBy roomPlayerId q (players t) = findBy roomPlayerId q (players s)" if "q \<noteq> pid" for q
    using that by (simp add: f findBy_updateBy key)
  show own: "ownerOf t k = (if ownerOf s k = Some (Some pid) then Some c else ownerOf s k)" for k
    by (cases "findBy tileKey k (properties s)")
      (auto simp: ownerOf_def f findBy_map_keys key liquidateProperty_def)
  then show "ownerOf t k \<noteq> Some (Some pid)" for k using c by (auto split: if_splits)
qed


definition bankruptSample :: GameEngineState where
  "bankruptSample = giveTo ''a'' [''nigeria'']
     (sampleGame [samplePlayer ''a'' 1 100, samplePlayer ''b'' 2 1500, samplePlayer ''c'' 3 1500])"

lemma bankruptSample_ok:
  "wf_state bankruptSample" "\<not> isl (declareBankruptcy bankruptSample ''a'' (Some ''b''))"
  by code_simp+


section \<open>Standings\<close>

lemma mapM_map:
  "mapM f xs = Inr ys \<Longrightarrow> (\<And>x y. x \<in> set xs \<Longrightarrow> f x = Inr y \<Longrightarrow> g y = h x) \<Longrightarrow> map g ys = map h xs"
  by (induction xs arbitrary: ys) auto

lemma netWorth_player: "calculatePlayerNetWorth s board p = Inr w \<Longrightarrow> worth_roomPlayerId w = roomPlayerId p \<and> worth_cash w = cash p"
  by (auto simp: calculatePlayerNetWorth_def)

lemma winners_head: "sorted (map standingOrder ws) \<Longrightarrow> w \<in> set (getNetWorthWinners ws) \<Longrightarrow> v \<in> set ws \<Longrightarrow> netWorth v \<le> netWorth w"
  by (cases ws) (auto simp: getNetWorthWinners_def standingOrder_def)

text \<open>
  The standings rank exactly the players still in the game, each once, by net worth, then cash,
  then number of properties, all descending, and then by seat; the winners are exactly those whose net
  worth is the largest, and there is one whenever somebody is left.
\<close>

theorem standings_rank_active_players:
  assumes "calculateNetWorthStandings s = Inr ws"
  shows "mset (map worth_roomPlayerId ws) = mset (seatOrder s) \<and> sorted (map standingOrder ws) \<and>
     (\<forall>w\<in>set ws. w \<in> set (getNetWorthWinners ws) \<longleftrightarrow> (\<forall>v\<in>set ws. netWorth v \<le> netWorth w)) \<and>
     (ws \<noteq> [] \<longrightarrow> getNetWorthWinners ws \<noteq> [])"
proof -
  from assms obtain us where us: "mapM (calculatePlayerNetWorth s CLASSIC_GAME_BOARD) (getActivePlayers s) = Inr us"
    and ws: "ws = sort_key standingOrder us" by (auto simp: calculateNetWorthStandings_def)
  have "map worth_roomPlayerId us = seatOrder s"
    unfolding seatOrder_def by (rule mapM_map [OF us]) (auto dest: netWorth_player)
  then have ids: "mset (map worth_roomPlayerId ws) = mset (seatOrder s)" by (metis mset_map mset_sort ws)
  have sorted: "sorted (map standingOrder ws)" by (simp add: ws)
  have "w \<in> set (getNetWorthWinners ws)" if "w \<in> set ws" "\<forall>v\<in>set ws. netWorth v \<le> netWorth w" for w
    using that sorted by (cases ws) (force simp: getNetWorthWinners_def standingOrder_def)+
  then have "\<forall>w\<in>set ws. w \<in> set (getNetWorthWinners ws) \<longleftrightarrow> (\<forall>v\<in>set ws. netWorth v \<le> netWorth w)"
    using winners_head [OF sorted] by blast
  moreover have "ws \<noteq> [] \<longrightarrow> getNetWorthWinners ws \<noteq> []" by (auto simp: getNetWorthWinners_def split: list.splits)
  ultimately show ?thesis using ids sorted by blast
qed

theorem standings_rank_active_players_witness:
  "\<exists>ws. calculateNetWorthStandings sampleTwo = Inr ws \<and> mset (map worth_roomPlayerId ws) = mset (seatOrder sampleTwo)"
proof -
  have "wf_state sampleTwo" by code_simp
  then obtain ws where "calculateNetWorthStandings sampleTwo = Inr ws"
    using standings_succeed [OF playersOk_distinct [OF wf_stateD(3)] wf_stateD(4)] by blast
  with standings_rank_active_players [OF this] show ?thesis by blast
qed

section \<open>Finished games\<close>

lemma terminal_guards:
  assumes "terminal (phase s)"
  shows "assertCanRoll s = Inl (EngineError GAME_NOT_ACTIVE)" "assertCanBuyProperty s = Inl (EngineError GAME_NOT_ACTIVE)"
    "assertCanEndTurn s = Inl (EngineError GAME_NOT_ACTIVE)"
    "assertCanManageBuildings s pid b = Inl (EngineError GAME_NOT_ACTIVE)"
    "assertCanManageMortgage s pid b = Inl (EngineError GAME_NOT_ACTIVE)"
    "assertActiveAuction s = Inl (EngineError NO_ACTIVE_AUCTION)"
    "assertCanTrade s pid = Inl (EngineError GAME_NOT_ACTIVE)"
    "assertActiveDebt s pid = Inl (EngineError DEBT_RESOLUTION_REQUIRED)"
    "assertCanFinishByTime s at = Inl (EngineError GAME_NOT_ACTIVE)"
    "assertCanFinishAfterLastHumanLeft s at = Inl (EngineError GAME_NOT_ACTIVE)"
    "payDebt s pid = Inl (EngineError NO_ACTIVE_DEBT)"
    "declareBankruptcy s pid c = Inl (EngineError GAME_NOT_ACTIVE)"
  using assms
  by (auto simp: terminal_def assertCanRoll_def assertCanBuyProperty_def assertCanEndTurn_def assertGameActive_def
      assertCanManageBuildings_def assertCanManageMortgage_def assertActiveAuction_def assertCanTrade_def
      assertActiveDebt_def assertCanFinishByTime_def assertCanFinishAfterLastHumanLeft_def payDebt_def
      declareBankruptcy_def)

lemmas guarded_operations =
  service_rollAndMove_def service_buyProperty_def service_declinePropertyPurchase_def service_endTurn_def
  placeAuctionBid_def passAuctionBid_def buildProperty_def sellBuilding_def mortgageProperty_def
  unmortgageProperty_def proposeTrade_def acceptTrade_def rejectTrade_def cancelTrade_def assertTradeOffer_def
  autoResolveDebt_def finishGameByTime_def finishGameAfterLastHumanLeft_def

text \<open>
  C9. A finished or cancelled game stays as it is: every intent is refused except leaving jail by
  paying the fine or playing a card, and those change neither the phase nor who owns what nor the
  turn.
\<close>

theorem finished_games_stay_finished:
  assumes wf: "wf_state s" and over: "terminal (phase s)" and step: "reduceGameEngineIntent env s i = Inr (s', evs)"
  shows "phase s' = phase s \<and> properties s' = properties s \<and> currentTurnRoomPlayerId s' = currentTurnRoomPlayerId s \<and>
     (\<exists>pid. i = Pay_jail_fine pid \<or> i = Use_get_out_of_jail_card pid)"
proof -
  have "tradeOffer s = None" using wf over by (simp add: wf_state_def phaseOk_def)
  then have jail: "\<exists>pid. i = Pay_jail_fine pid \<or> i = Use_get_out_of_jail_card pid"
    using step by (cases i) (auto simp: guarded_operations service_delegates terminal_guards [OF over])
  have kept: "phase t = phase s \<and> properties t = properties s \<and> currentTurnRoomPlayerId t = currentTurnRoomPlayerId s"
    if "returnGetOutOfJailCardToDeck s k = Inr t" for t k
    using that by (auto simp: returnGetOutOfJailCardToDeck_def Let_def setDeck_def)
  from jail obtain pid where "payJailFine s pid = Inr (s', evs) \<or> useGetOutOfJailCard s pid = Inr (s', evs)"
    using step by (fastforce simp: service_delegates)
  then show ?thesis
    using jail kept
    by (auto simp: payJailFine_def useGetOutOfJailCard_def Let_def debitPlayer_frame)
qed

definition finishedSample :: GameEngineState where
  "finishedSample = (modifyPlayer ''a'' (\<lambda>p. p\<lparr>inJail := True\<rparr>) sampleTwo)\<lparr>phase := Finished\<rparr>"

definition clock :: Env where "clock = \<lparr>dateNow = 1, randomUUID = ''t''\<rparr>"

lemma finishedSample_ok:
  "wf_state finishedSample" "terminal (phase finishedSample)" "phase finishedSample = Finished"
  "\<not> isl (reduceGameEngineIntent clock finishedSample (Pay_jail_fine ''a''))"
  by code_simp+

theorem finished_games_stay_finished_witness:
  "\<exists>s' evs. reduceGameEngineIntent clock finishedSample (Pay_jail_fine ''a'') = Inr (s', evs) \<and> phase s' = Finished"
proof -
  obtain s' evs where r: "reduceGameEngineIntent clock finishedSample (Pay_jail_fine ''a'') = Inr (s', evs)"
    using not_isl_Inr [OF finishedSample_ok(4)] by blast
  from finished_games_stay_finished [OF finishedSample_ok(1,2) r] finishedSample_ok(3) r show ?thesis by auto
qed

section \<open>Where the engine's guards leave gaps\<close>

text \<open>
  Concrete runs behind the recorded findings: a jail fine paid after the game is over, a jail fine
  paid a second time while the first is an open debt, and an automatic debt resolution that is refused
  because the creditor has gone bankrupt in the meantime.
\<close>

lemma fine_after_the_end:
  "case reduceGameEngineIntent clock finishedSample (Pay_jail_fine ''a'') of
     Inr (s', evs) \<Rightarrow> phase s' = Finished \<and> balance s' ''a'' = Some 1450 | Inl e \<Rightarrow> False"
  by code_simp

definition fineDebtSample :: GameEngineState where
  "fineDebtSample = (modifyPlayer ''a'' (\<lambda>p. p\<lparr>inJail := True, jailTurnCount := 3\<rparr>) sampleTwo)
     \<lparr>phase := Awaiting_debt_resolution,
      debt := Some \<lparr>debt_roomPlayerId = ''a'', creditorRoomPlayerId = None, debt_amount = 50, debt_reason = Jail_fine\<rparr>\<rparr>"

lemma jail_fine_charged_twice:
  "wf_state fineDebtSample"
  "case reduceGameEngineIntent clock fineDebtSample (Pay_jail_fine ''a'') of
     Inr (s', evs) \<Rightarrow> balance s' ''a'' = Some 1450 \<and> debt s' = debt fineDebtSample | Inl e \<Rightarrow> False"
  by code_simp+

definition goneCreditorSample :: GameEngineState where
  "goneCreditorSample = (modifyPlayer ''b'' ruin
     (sampleGame [samplePlayer ''a'' 1 10, samplePlayer ''b'' 2 0, samplePlayer ''c'' 3 1500]))
     \<lparr>phase := Awaiting_debt_resolution,
      debt := Some \<lparr>debt_roomPlayerId = ''a'', creditorRoomPlayerId = Some ''b'', debt_amount = 500, debt_reason = Rent\<rparr>\<rparr>"

lemma debt_to_bankrupt_creditor_is_stuck:
  "wf_state goneCreditorSample"
  "autoResolveDebt goneCreditorSample ''a'' = Inl (EngineError INVALID_BANKRUPTCY_CREDITOR)"
  "payDebt goneCreditorSample ''a'' = Inl (EngineError INSUFFICIENT_FUNDS)"
  by code_simp+

end
