(* ===== verification/Game_Commands.thy ===== *)
theory Game_Commands
  imports Game_Endings
begin

text \<open>
  Commands and the turn timer: \<^verbatim>\<open>src/src/game/commands/game-commands.service.ts\<close> wraps the reducer
  with the actor check, the end of the game by time, the missed-turn counters and the turn deadline;
  \<^verbatim>\<open>src/src/game/timers/game-turn-timer-policy.service.ts\<close> chooses what happens when a deadline
  passes. The clock is read several times during one command; each reading is an argument.
\<close>

section \<open>Commands\<close>

datatype GameCommandSource = Source_player | Source_bot | Source_timer

fun intentType :: "GameEngineIntent \<Rightarrow> string" where
  "intentType (Roll_and_move _ _) = ''roll_and_move''"
| "intentType (Buy_property _) = ''buy_property''"
| "intentType (Decline_property_purchase _) = ''decline_property_purchase''"
| "intentType (Place_auction_bid _ _) = ''place_auction_bid''"
| "intentType (Pass_auction_bid _) = ''pass_auction_bid''"
| "intentType (Build_property _ _) = ''build_property''"
| "intentType (Sell_building _ _) = ''sell_building''"
| "intentType (Mortgage_property _ _) = ''mortgage_property''"
| "intentType (Unmortgage_property _ _) = ''unmortgage_property''"
| "intentType (Propose_trade _) = ''propose_trade''"
| "intentType (Accept_trade _ _) = ''accept_trade''"
| "intentType (Reject_trade _ _) = ''reject_trade''"
| "intentType (Cancel_trade _ _) = ''cancel_trade''"
| "intentType (Declare_bankruptcy _ _) = ''declare_bankruptcy''"
| "intentType (Pay_debt _) = ''pay_debt''"
| "intentType (Auto_resolve_debt _) = ''auto_resolve_debt''"
| "intentType (Pay_jail_fine _) = ''pay_jail_fine''"
| "intentType (Use_get_out_of_jail_card _) = ''use_get_out_of_jail_card''"
| "intentType (End_turn _) = ''end_turn''"
| "intentType (Finish_game_by_time _) = ''finish_game_by_time''"
| "intentType (Finish_game_after_last_human_left _) = ''finish_game_after_last_human_left''"

fun getIntentActorRoomPlayerId :: "GameEngineIntent \<Rightarrow> string option" where
  "getIntentActorRoomPlayerId (Roll_and_move pid _) = Some pid"
| "getIntentActorRoomPlayerId (Buy_property pid) = Some pid"
| "getIntentActorRoomPlayerId (Decline_property_purchase pid) = Some pid"
| "getIntentActorRoomPlayerId (Place_auction_bid pid _) = Some pid"
| "getIntentActorRoomPlayerId (Pass_auction_bid pid) = Some pid"
| "getIntentActorRoomPlayerId (Build_property pid _) = Some pid"
| "getIntentActorRoomPlayerId (Sell_building pid _) = Some pid"
| "getIntentActorRoomPlayerId (Mortgage_property pid _) = Some pid"
| "getIntentActorRoomPlayerId (Unmortgage_property pid _) = Some pid"
| "getIntentActorRoomPlayerId (Propose_trade input) = Some (propose_roomPlayerId input)"
| "getIntentActorRoomPlayerId (Accept_trade pid _) = Some pid"
| "getIntentActorRoomPlayerId (Reject_trade pid _) = Some pid"
| "getIntentActorRoomPlayerId (Cancel_trade pid _) = Some pid"
| "getIntentActorRoomPlayerId (Declare_bankruptcy pid _) = Some pid"
| "getIntentActorRoomPlayerId (Pay_debt pid) = Some pid"
| "getIntentActorRoomPlayerId (Auto_resolve_debt pid) = Some pid"
| "getIntentActorRoomPlayerId (Pay_jail_fine pid) = Some pid"
| "getIntentActorRoomPlayerId (Use_get_out_of_jail_card pid) = Some pid"
| "getIntentActorRoomPlayerId (End_turn pid) = Some pid"
| "getIntentActorRoomPlayerId (Finish_game_by_time _) = None"
| "getIntentActorRoomPlayerId (Finish_game_after_last_human_left _) = None"

record ExecuteGameIntentCommand =
  command_gameId :: string
  command_roomPlayerId :: "string option"
  command_intent :: GameEngineIntent
  command_source :: "GameCommandSource option"

record GameCommandResult =
  result_state :: GameEngineState
  result_events :: "GameEngineEvent list"
  result_intentType :: string

text \<open>What a service throws: an engine error, or an HTTP exception with its message.\<close>

datatype ServiceError =
  Engine GameEngineError
| BadRequestException string
| NotFoundException string
| ConflictException string
| ForbiddenException string
| InternalServerErrorException string
| UnauthorizedException string
| DatabaseError string

text \<open>What the driver of the database throws when a unique index or a check constraint is violated.\<close>

definition uniqueViolation :: ServiceError where "uniqueViolation = DatabaseError ''23505''"
definition checkViolation :: ServiceError where "checkViolation = DatabaseError ''23514''"

definition assertIntentActorMatchesCommand :: "ExecuteGameIntentCommand \<Rightarrow> ServiceError + unit" where
  "assertIntentActorMatchesCommand input =
     (let actor = getIntentActorRoomPlayerId (command_intent input) in
      if \<not> truthy actor then Inr ()
      else raiseIf (\<not> truthy (command_roomPlayerId input) \<or> actor \<noteq> command_roomPlayerId input)
             (BadRequestException ''Invalid game command''))"

definition getEffectiveIntentForCurrentTime ::
  "int \<Rightarrow> GameEngineState \<Rightarrow> GameEngineIntent \<Rightarrow> GameEngineIntent" where
  "getEffectiveIntentForCurrentTime now s i =
     (if intentType i = ''finish_game_by_time'' \<or> phase s = Finished \<or> phase s = Cancelled \<or>
         \<not> truthyNum (expiresAt s)
      then i
      else if now < the (expiresAt s) then i
      else Finish_game_by_time now)"

definition applyCommandSourceToState ::
  "GameEngineState \<Rightarrow> GameCommandSource \<Rightarrow> string \<Rightarrow> string option \<Rightarrow> string \<Rightarrow> int \<Rightarrow> GameEngineState" where
  "applyCommandSourceToState s source itype actor commandTurnRoomPlayerId commandTurnNumber =
     (if \<not> truthy actor then s
      else case source of
        Source_timer \<Rightarrow>
          if itype \<noteq> ''roll_and_move'' then s
          else if actor \<noteq> Some commandTurnRoomPlayerId then s
          else incrementMissedTurn s actor commandTurnNumber
      | Source_player \<Rightarrow> resetMissedTurn s actor
      | Source_bot \<Rightarrow> s)"

text \<open>The two readings of the clock are \<open>now\<close> and \<open>now'\<close>.\<close>

definition applyTurnDeadline ::
  "int \<Rightarrow> int \<Rightarrow> GameEngineState \<Rightarrow> GameEngineState \<Rightarrow> GameEngineState" where
  "applyTurnDeadline now now' previousState nextState =
     (if phase nextState = Finished \<or> phase nextState = Cancelled then nextState\<lparr>turnExpiresAt := None\<rparr>
      else
        let isSameTurn = turnNumber previousState = turnNumber nextState \<and>
              currentTurnRoomPlayerId previousState = currentTurnRoomPlayerId nextState \<and>
              phase previousState = phase nextState;
            previousDeadlineIsValid =
              (case turnExpiresAt previousState of None \<Rightarrow> False | Some t \<Rightarrow> t > now) in
        if isSameTurn \<and> previousDeadlineIsValid then
          nextState\<lparr>turnExpiresAt := Some (if truthyNum (expiresAt nextState)
            then min (the (turnExpiresAt previousState)) (the (expiresAt nextState))
            else the (turnExpiresAt previousState))\<rparr>
        else
          let nextTurnExpiresAt = now' + turnTimeoutMs in
          nextState\<lparr>turnExpiresAt := Some (if truthyNum (expiresAt nextState)
            then min nextTurnExpiresAt (the (expiresAt nextState)) else nextTurnExpiresAt)\<rparr>)"

record Clock =
  effectiveNow :: int
  engineEnv :: Env
  deadlineNow :: int
  nextDeadlineNow :: int

definition commandSource :: "ExecuteGameIntentCommand \<Rightarrow> GameCommandSource" where
  "commandSource input = (case command_source input of None \<Rightarrow> Source_player | Some src \<Rightarrow> src)"

text \<open>The callback that \<^verbatim>\<open>executeIntentWithRecovery\<close> passes to the state service.\<close>

definition commandUpdate ::
  "Clock \<Rightarrow> ExecuteGameIntentCommand \<Rightarrow> GameEngineState \<Rightarrow> GameEngineError + GameCommandResult" where
  "commandUpdate clk input s =
     (let intent = getEffectiveIntentForCurrentTime (effectiveNow clk) s (command_intent input) in
      andThen (reduceGameEngineIntent (engineEnv clk) s intent) (\<lambda>(engineState, evs).
      let sourceApplied = applyCommandSourceToState engineState (commandSource input) (intentType intent)
            (getIntentActorRoomPlayerId intent) (currentTurnRoomPlayerId s) (turnNumber s) in
      Inr \<lparr>result_state = applyTurnDeadline (deadlineNow clk) (nextDeadlineNow clk) s sourceApplied,
           result_events = evs, result_intentType = intentType intent\<rparr>))"

section \<open>The commands of a player\<close>

definition playerCommand :: "string \<Rightarrow> string \<Rightarrow> GameEngineIntent \<Rightarrow> ExecuteGameIntentCommand" where
  "playerCommand gameId pid i =
     \<lparr>command_gameId = gameId, command_roomPlayerId = Some pid, command_intent = i,
      command_source = Some Source_player\<rparr>"

definition command_rollAndMove :: "string \<Rightarrow> string \<Rightarrow> int list \<Rightarrow> ExecuteGameIntentCommand" where
  "command_rollAndMove gameId pid dice = playerCommand gameId pid (Roll_and_move pid dice)"

definition command_endTurn :: "string \<Rightarrow> string \<Rightarrow> ExecuteGameIntentCommand" where
  "command_endTurn gameId pid = playerCommand gameId pid (End_turn pid)"

definition command_buyProperty :: "string \<Rightarrow> string \<Rightarrow> ExecuteGameIntentCommand" where
  "command_buyProperty gameId pid = playerCommand gameId pid (Buy_property pid)"

definition command_declinePropertyPurchase :: "string \<Rightarrow> string \<Rightarrow> ExecuteGameIntentCommand" where
  "command_declinePropertyPurchase gameId pid = playerCommand gameId pid (Decline_property_purchase pid)"

definition command_placeAuctionBid :: "string \<Rightarrow> string \<Rightarrow> int \<Rightarrow> ExecuteGameIntentCommand" where
  "command_placeAuctionBid gameId pid amount = playerCommand gameId pid (Place_auction_bid pid amount)"

definition command_passAuctionBid :: "string \<Rightarrow> string \<Rightarrow> ExecuteGameIntentCommand" where
  "command_passAuctionBid gameId pid = playerCommand gameId pid (Pass_auction_bid pid)"

definition command_payDebt :: "string \<Rightarrow> string \<Rightarrow> ExecuteGameIntentCommand" where
  "command_payDebt gameId pid = playerCommand gameId pid (Pay_debt pid)"

definition command_payJailFine :: "string \<Rightarrow> string \<Rightarrow> ExecuteGameIntentCommand" where
  "command_payJailFine gameId pid = playerCommand gameId pid (Pay_jail_fine pid)"

definition command_useGetOutOfJailCard :: "string \<Rightarrow> string \<Rightarrow> ExecuteGameIntentCommand" where
  "command_useGetOutOfJailCard gameId pid = playerCommand gameId pid (Use_get_out_of_jail_card pid)"

definition command_declareBankruptcy :: "string \<Rightarrow> string \<Rightarrow> ExecuteGameIntentCommand" where
  "command_declareBankruptcy gameId pid = playerCommand gameId pid (Declare_bankruptcy pid None)"

definition command_buildProperty :: "string \<Rightarrow> string \<Rightarrow> string \<Rightarrow> ExecuteGameIntentCommand" where
  "command_buildProperty gameId pid key = playerCommand gameId pid (Build_property pid key)"

definition command_sellBuilding :: "string \<Rightarrow> string \<Rightarrow> string \<Rightarrow> ExecuteGameIntentCommand" where
  "command_sellBuilding gameId pid key = playerCommand gameId pid (Sell_building pid key)"

definition command_mortgageProperty :: "string \<Rightarrow> string \<Rightarrow> string \<Rightarrow> ExecuteGameIntentCommand" where
  "command_mortgageProperty gameId pid key = playerCommand gameId pid (Mortgage_property pid key)"

definition command_unmortgageProperty :: "string \<Rightarrow> string \<Rightarrow> string \<Rightarrow> ExecuteGameIntentCommand" where
  "command_unmortgageProperty gameId pid key = playerCommand gameId pid (Unmortgage_property pid key)"

definition command_proposeTrade ::
  "string \<Rightarrow> string \<Rightarrow> string \<Rightarrow> int \<Rightarrow> int \<Rightarrow> string list \<Rightarrow> string list \<Rightarrow> ExecuteGameIntentCommand" where
  "command_proposeTrade gameId pid toId offered requested offeredKeys requestedKeys =
     playerCommand gameId pid (Propose_trade
       \<lparr>propose_roomPlayerId = pid, propose_toRoomPlayerId = toId, propose_offeredCash = offered,
        propose_requestedCash = requested, propose_offeredPropertyKeys = offeredKeys,
        propose_requestedPropertyKeys = requestedKeys, propose_tradeId = None\<rparr>)"

definition command_acceptTrade :: "string \<Rightarrow> string \<Rightarrow> string \<Rightarrow> ExecuteGameIntentCommand" where
  "command_acceptTrade gameId pid tradeId = playerCommand gameId pid (Accept_trade pid tradeId)"

definition command_rejectTrade :: "string \<Rightarrow> string \<Rightarrow> string \<Rightarrow> ExecuteGameIntentCommand" where
  "command_rejectTrade gameId pid tradeId = playerCommand gameId pid (Reject_trade pid tradeId)"

definition command_cancelTrade :: "string \<Rightarrow> string \<Rightarrow> string \<Rightarrow> ExecuteGameIntentCommand" where
  "command_cancelTrade gameId pid tradeId = playerCommand gameId pid (Cancel_trade pid tradeId)"

section \<open>Timeouts\<close>

definition maxConsecutiveMissedTurns :: int where "maxConsecutiveMissedTurns = 3"

definition shouldForfeitCurrentPlayer :: "GameEngineState \<Rightarrow> GameEnginePlayer \<Rightarrow> bool" where
  "shouldForfeitCurrentPlayer s player \<longleftrightarrow>
     playerType player = Human \<and>
     getConsecutiveMissedTurns s (roomPlayerId player) \<ge> maxConsecutiveMissedTurns - 1"

definition findAuctionTimeoutPlayer :: "GameEngineState \<Rightarrow> string option" where
  "findAuctionTimeoutPlayer s = getCurrentAuctionBidderRoomPlayerId (auction s)"

text \<open>The dice are rolled by \<^verbatim>\<open>rollDice\<close> from the random source; they are an argument.\<close>

definition chooseTimeoutIntent :: "int \<Rightarrow> DiceRoll \<Rightarrow> GameEngineState \<Rightarrow> GameEngineIntent option" where
  "chooseTimeoutIntent now dice s =
     (if phase s = Finished \<or> phase s = Cancelled then None
      else if truthyNum (expiresAt s) \<and> now \<ge> the (expiresAt s) then Some (Finish_game_by_time now)
      else case findBy roomPlayerId (currentTurnRoomPlayerId s) (players s) of
        None \<Rightarrow> None
      | Some currentPlayer \<Rightarrow>
          if bankrupt currentPlayer then None
          else if phase s = Awaiting_debt_resolution then
            map_option (\<lambda>d. Auto_resolve_debt (debt_roomPlayerId d)) (debt s)
          else if shouldForfeitCurrentPlayer s currentPlayer then
            Some (Declare_bankruptcy (roomPlayerId currentPlayer) None)
          else if phase s = Awaiting_first_turn \<or> phase s = Awaiting_roll then
            Some (Roll_and_move (roomPlayerId currentPlayer) [fst dice, snd dice])
          else if phase s = Awaiting_property_decision then
            Some (Decline_property_purchase (roomPlayerId currentPlayer))
          else if phase s = Awaiting_auction_bid then
            (case auction s of
               None \<Rightarrow> None
             | Some a \<Rightarrow>
                 if truthyNum (bidExpiresAt a) \<and> now < the (bidExpiresAt a) then None
                 else if \<not> truthy (findAuctionTimeoutPlayer s) then None
                 else Some (Pass_auction_bid (the (findAuctionTimeoutPlayer s))))
          else if phase s = Awaiting_turn_end then Some (End_turn (roomPlayerId currentPlayer))
          else None)"

section \<open>The invariant under commands\<close>

lemma wf_mapPlayers:
  assumes "wf_state s"
    and g: "\<And>p. roomPlayerId (g p) = roomPlayerId p" "\<And>p. bankrupt (g p) = bankrupt p"
      "\<And>p. heldKeys (g p) = heldKeys p" "\<And>p. playerOk (g p) = playerOk p" "\<And>p. cash (g p) = cash p"
  shows "wf_state (s\<lparr>players := map g (players s)\<rparr>)"
proof -
  have ids: "map roomPlayerId (map g ps) = map roomPlayerId ps" for ps by (simp add: g)
  have active: "activeIds (map g ps) = activeIds ps" for ps by (auto simp: activeIds_def filter_map o_def g)
  have held: "heldCards (map g ps) = heldCards ps" for ps by (simp add: heldCards_def o_def g)
  have ok: "playersOk (map g ps) = playersOk ps" for ps
    unfolding playersOk_def ids by (simp add: list_all_iff g)
  have broke: "bankruptBiddersBroke (map g ps) = bankruptBiddersBroke ps" for ps
    by (rule ext) (simp add: bankruptBiddersBroke_def list_all_iff g)
  have "playerIds (s\<lparr>players := map g (players s)\<rparr>) = playerIds s" by (simp add: playerIds_def g)
  then show ?thesis
    using assms(1) by (simp add: wf_state_def coreOk_def phaseOk_def active held ok broke)
qed

lemma missedTurns_wf:
  assumes "wf_state s"
  shows "wf_state (incrementMissedTurn s pid n)" "wf_state (resetMissedTurn s pid)"
proof -
  show "wf_state (incrementMissedTurn s pid n)"
    unfolding incrementMissedTurn_def using assms
    by (simp, intro impI wf_mapPlayers) (simp_all add: playerOk_def heldKeys_def)
  show "wf_state (resetMissedTurn s pid)"
    unfolding resetMissedTurn_def using assms
    by (simp, intro impI wf_mapPlayers) (simp_all add: playerOk_def heldKeys_def)
qed

lemma applyCommandSource_wf:
  "wf_state s \<Longrightarrow> wf_state (applyCommandSourceToState s source itype actor cur n)"
  by (auto simp: applyCommandSourceToState_def missedTurns_wf split: GameCommandSource.split)

lemma applyCommandSource_frame [simp]:
  "phase (applyCommandSourceToState s source itype actor cur n) = phase s"
  "expiresAt (applyCommandSourceToState s source itype actor cur n) = expiresAt s"
  "turnNumber (applyCommandSourceToState s source itype actor cur n) = turnNumber s"
  "currentTurnRoomPlayerId (applyCommandSourceToState s source itype actor cur n) = currentTurnRoomPlayerId s"
  by (auto simp: applyCommandSourceToState_def incrementMissedTurn_def resetMissedTurn_def
      split: GameCommandSource.split)

lemma applyTurnDeadline_simps [simp]:
  "wf_state (applyTurnDeadline now now' s t) = wf_state t"
  "phase (applyTurnDeadline now now' s t) = phase t"
  "expiresAt (applyTurnDeadline now now' s t) = expiresAt t"
  by (auto simp: applyTurnDeadline_def Let_def)

lemma commandUpdate_Inr:
  assumes "commandUpdate clk input s = Inr r"
  obtains t evs where
    "reduceGameEngineIntent (engineEnv clk) s
       (getEffectiveIntentForCurrentTime (effectiveNow clk) s (command_intent input)) = Inr (t, evs)"
    "result_state r = applyTurnDeadline (deadlineNow clk) (nextDeadlineNow clk) s
       (applyCommandSourceToState t (commandSource input)
         (intentType (getEffectiveIntentForCurrentTime (effectiveNow clk) s (command_intent input)))
         (getIntentActorRoomPlayerId (getEffectiveIntentForCurrentTime (effectiveNow clk) s (command_intent input)))
         (currentTurnRoomPlayerId s) (turnNumber s))"
    "result_events r = evs"
  using assms by (auto simp: commandUpdate_def Let_def)

lemma commandUpdate_wf:
  assumes "wf_state s" "commandUpdate clk input s = Inr r"
  shows "wf_state (result_state r)"
  using assms(2) by (rule commandUpdate_Inr) (simp add: applyCommandSource_wf reduce_wf [OF assms(1)])

section \<open>The turn deadline\<close>

lemma deadline_bounds:
  assumes "\<not> terminal (phase t)" "now \<le> now'" "ifSome (\<lambda>d. d \<le> now + turnTimeoutMs) (turnExpiresAt s)"
  shows "\<exists>d. turnExpiresAt (applyTurnDeadline now now' s t) = Some d \<and> d \<le> now' + turnTimeoutMs \<and>
     (truthyNum (expiresAt t) \<longrightarrow> d \<le> the (expiresAt t)) \<and>
     (now < d \<or> truthyNum (expiresAt t) \<and> d = the (expiresAt t))"
  using assms by (auto simp: applyTurnDeadline_def Let_def terminal_def turnTimeoutMs_def split: option.splits)

section \<open>Every timeout is acted on\<close>

lemma finishGameByTime_succeeds:
  assumes "wf_state s" "\<not> terminal (phase s)" "0 < at" "truthyNum (expiresAt s) \<Longrightarrow> the (expiresAt s) \<le> at"
  shows "\<exists>evs. finishGameByTime s at = Inr (finishedState s, evs)"
  using assms standings_succeed [OF playersOk_distinct [OF wf_stateD(3) [OF assms(1)]] wf_stateD(4) [OF assms(1)]]
  by (auto simp: finishGameByTime_def assertCanFinishByTime_def terminal_def)

lemma wf_current:
  assumes "wf_state s" "\<not> terminal (phase s)"
  obtains p where "findBy roomPlayerId (currentTurnRoomPlayerId s) (players s) = Some p" "\<not> bankrupt p"
    "roomPlayerId p = currentTurnRoomPlayerId s" "assertCurrentTurn s (currentTurnRoomPlayerId s) = Inr ()"
proof -
  have "currentTurnRoomPlayerId s \<in> activeIds (players s)" using assms by (simp add: wf_state_def coreOk_def)
  then obtain p where "findBy roomPlayerId (currentTurnRoomPlayerId s) (players s) = Some p" "\<not> bankrupt p"
    by (auto simp: activeIds_iff [OF playersOk_distinct [OF wf_stateD(3) [OF assms(1)]]])
  with that show thesis by (auto simp: assertCurrentTurn_Inr_iff dest: findBy_SomeD)
qed

lemma roll_succeeds:
  assumes wf: "wf_state s" and ph: "phase s = Awaiting_first_turn \<or> phase s = Awaiting_roll"
    and dice: "1 \<le> a" "a \<le> 6" "1 \<le> b" "b \<le> 6"
  shows "\<exists>r. service_rollAndMove s (currentTurnRoomPlayerId s) [a, b] = Inr r"
proof -
  have act: "\<not> terminal (phase s)" using ph by auto
  have roll: "assertCanRoll s = Inr ()"
    using ph wf by (auto simp: assertCanRoll_def assertGameActive_def assertNoDebtResolution_def wf_state_def phaseOk_def)
  have "calm s" using roll wf_calm [OF wf] ph by (auto simp: assertCanRoll_def)
  moreover have "assertCurrentTurn s (currentTurnRoomPlayerId s) = Inr ()" using wf_current [OF wf act] by blast
  ultimately show ?thesis
    using roll dice rollAndMove_total [OF wf, of "(a, b)"]
    by (cases "rollAndMove s (currentTurnRoomPlayerId s) (a, b)")
      (auto simp: service_rollAndMove_def assertValidDice_def)
qed

lemma decline_succeeds:
  assumes wf: "wf_state s" and ph: "phase s = Awaiting_property_decision"
  shows "\<exists>r. service_declinePropertyPurchase env s (currentTurnRoomPlayerId s) = Inr r"
proof -
  have act: "\<not> terminal (phase s)" using ph by simp
  obtain k where k: "pendingTileKey s = Some k" "k \<in> unownedKeys (properties s)"
    using wf ph by (auto simp: wf_state_def phaseOk_def)
  obtain q where q: "findBy tileKey k (properties s) = Some q" "\<not> truthy (ownerRoomPlayerId q)"
    using k(2) unownedKeys_iff [OF wf_stateD(4) [OF wf]] by blast
  have "k \<in> set ownableKeys" using propertiesOk_lookup [OF wf_stateD(4) [OF wf], of k] q(1) by auto
  then obtain tile where tile: "tile \<in> set classicTiles" "tile_key tile = k" "isOwnableTile tile"
    by (auto simp: ownableKeys_def)
  have "findTile CLASSIC_GAME_BOARD k = Some tile" using findTile_key [OF tile(1)] tile(2) by simp
  moreover have "k \<noteq> []" using tileOk_classic [OF tile(1)] tile(2) by (cases tile) auto
  moreover have "assertCanBuyProperty s = Inr ()"
    using ph wf by (auto simp: assertCanBuyProperty_def assertGameActive_def assertNoDebtResolution_def
        wf_state_def phaseOk_def)
  moreover have "assertCurrentTurn s (currentTurnRoomPlayerId s) = Inr ()" using wf_current [OF wf act] by blast
  ultimately show ?thesis
    using k q tile by (auto simp: service_declinePropertyPurchase_def declinePropertyPurchase_def findProperty_def
        Let_def)
qed

lemma end_turn_succeeds:
  assumes wf: "wf_state s" and ph: "phase s = Awaiting_turn_end"
  shows "\<exists>r. service_endTurn s (currentTurnRoomPlayerId s) = Inr r"
proof -
  have act: "\<not> terminal (phase s)" using ph by simp
  have turn: "assertCanEndTurn s = Inr ()"
    using ph wf by (auto simp: assertCanEndTurn_def assertGameActive_def assertNoDebtResolution_def wf_state_def phaseOk_def)
  have "calm s" using turn wf_calm [OF wf] ph by (auto simp: assertCanEndTurn_def)
  then have "\<exists>p. findNextActivePlayer s = Inr p"
    using findNextActivePlayer_ring [of s] playersOk_distinct [OF wf_stateD(3) [OF wf]] calm_current [OF wf]
    by (fastforce simp: playerIds_def seatOrder_def activeIds_def)
  moreover have "assertCurrentTurn s (currentTurnRoomPlayerId s) = Inr ()" using wf_current [OF wf act] by blast
  ultimately show ?thesis using turn by (auto simp: service_endTurn_def endTurn_def Let_def)
qed

text \<open>The bid that leads an auction can be paid by the player who made it.\<close>

definition bidCovered :: "GameEngineState \<Rightarrow> bool" where
  "bidCovered s \<longleftrightarrow>
     ifSome (\<lambda>a. ifSome (\<lambda>h. ifSome (\<lambda>b. currentBid a \<le> b) (balance s h)) (highestBidderRoomPlayerId a)) (auction s)"

lemma pass_succeeds:
  assumes wf: "wf_state s" and a: "auction s = Some a" and covered: "bidCovered s"
  shows "\<exists>c r. currentBidderRoomPlayerId a = Some c \<and> c \<noteq> [] \<and> findAuctionTimeoutPlayer s = Some c \<and>
     passAuctionBid now s c = Inr r"
proof -
  have ok: "auctionOk (set (playerIds s)) (unownedKeys (properties s)) a" and ph: "phase s = Awaiting_auction_bid"
    using wf a by (auto simp: wf_state_def phaseOk_def)
  obtain c where c: "currentBidderRoomPlayerId a = Some c" "c \<in> set (activeRoomPlayerIds a)"
    "c \<notin> set (passedRoomPlayerIds a)" "c \<noteq> []"
    using ok by (auto simp: auctionOk_def split: option.splits)
  have cur: "getCurrentAuctionBidderRoomPlayerId (Some a) = Some c"
    using c by (simp add: getCurrentAuctionBidderRoomPlayerId_def)
  have pay: "\<exists>t. debitPlayer s (the (highestBidderRoomPlayerId a)) (currentBid a) = Inr t"
    if "truthy (highestBidderRoomPlayerId a)"
  proof -
    obtain h where h: "highestBidderRoomPlayerId a = Some h" using truthy_pending [OF \<open>truthy _\<close>] by blast
    have "h \<in> set (playerIds s)" "0 \<le> currentBid a" using ok h by (auto simp: auctionOk_def)
    then show ?thesis
      using covered a h ids_findPlayer by (fastforce simp: bidCovered_def balance_def debitPlayer_Inr_iff)
  qed
  show ?thesis
    using a ph c cur pay
    by (auto simp: passAuctionBid_def assertActiveAuction_def assertAuctionPlayerActive_def assertAuctionPlayerCanAct_def
        findAuctionTimeoutPlayer_def completeAuctionWithWinner_def completeAuctionWithoutWinner_def Let_def
        split: option.splits)
qed

section \<open>Who may act\<close>

text \<open>The specification: which player an intent may come from.\<close>

fun mayAct :: "GameEngineState \<Rightarrow> GameEngineIntent \<Rightarrow> bool" where
  "mayAct s (Place_auction_bid pid _) = (getCurrentAuctionBidderRoomPlayerId (auction s) = Some pid)"
| "mayAct s (Pass_auction_bid pid) = (getCurrentAuctionBidderRoomPlayerId (auction s) = Some pid)"
| "mayAct s (Propose_trade input) = (propose_roomPlayerId input \<in> activeIds (players s))"
| "mayAct s (Accept_trade pid _) = (map_option toRoomPlayerId (tradeOffer s) = Some pid)"
| "mayAct s (Reject_trade pid _) = (map_option toRoomPlayerId (tradeOffer s) = Some pid)"
| "mayAct s (Cancel_trade pid _) = (map_option fromRoomPlayerId (tradeOffer s) = Some pid)"
| "mayAct s (Declare_bankruptcy pid _) = (pid \<in> activeIds (players s))"
| "mayAct s (Pay_debt pid) = (map_option debt_roomPlayerId (debt s) = Some pid)"
| "mayAct s (Auto_resolve_debt pid) = (map_option debt_roomPlayerId (debt s) = Some pid)"
| "mayAct s (Finish_game_by_time _) = True"
| "mayAct s (Finish_game_after_last_human_left _) = True"
| "mayAct s i = (getIntentActorRoomPlayerId i = Some (currentTurnRoomPlayerId s) \<and>
     currentTurnRoomPlayerId s \<in> activeIds (players s))"

lemma reduce_mayAct:
  assumes wf: "wf_state s" and step: "reduceGameEngineIntent env s i = Inr r"
  shows "mayAct s i"
proof -
  note active = activeIds_iff [OF playersOk_distinct [OF wf_stateD(3) [OF wf]]]
  have turn: "currentTurnRoomPlayerId s = pid \<and> pid \<in> activeIds (players s)" if "assertCurrentTurn s pid = Inr u" for pid u
    using that by (auto simp: assertCurrentTurn_Inr_iff active)
  show ?thesis
    using step turn
    by (cases i) (auto simp: guarded_operations service_delegates assertActiveAuction_def assertAuctionPlayerCanAct_def
        assertCanTrade_def declareBankruptcy_def payDebt_def assertActiveDebt_def active Let_def
        split: option.splits if_splits)
qed

text \<open>
  C11. A command is carried out only for the player who sent it, and only when that player may act: rolls,
  purchases, buildings, mortgages, jail and the end of a turn belong to the player whose turn it is,
  bids to the bidder in turn, an offer to its two sides, a debt to its debtor.
\<close>

theorem accepted_commands_are_authorised:
  assumes wf: "wf_state s" and own: "assertIntentActorMatchesCommand c = Inr ()"
    and accepted: "commandUpdate clk c s = Inr r"
    and running: "getEffectiveIntentForCurrentTime (effectiveNow clk) s (command_intent c) = command_intent c"
  shows "mayAct s (command_intent c) \<and>
     (truthy (getIntentActorRoomPlayerId (command_intent c)) \<longrightarrow>
        command_roomPlayerId c = getIntentActorRoomPlayerId (command_intent c))"
proof
  show "mayAct s (command_intent c)"
    using accepted by (rule commandUpdate_Inr) (use reduce_mayAct [OF wf] running in auto)
  show "truthy (getIntentActorRoomPlayerId (command_intent c)) \<longrightarrow>
        command_roomPlayerId c = getIntentActorRoomPlayerId (command_intent c)"
    using own by (auto simp: assertIntentActorMatchesCommand_def Let_def split: if_splits)
qed

definition tick :: "int \<Rightarrow> Clock" where
  "tick now = \<lparr>effectiveNow = now, engineEnv = \<lparr>dateNow = now, randomUUID = ''t''\<rparr>, deadlineNow = now, nextDeadlineNow = now\<rparr>"

definition freshGame :: GameEngineState where
  "freshGame = sampleGame [samplePlayer ''a'' 1 1500, samplePlayer ''b'' 2 1500]"

lemma freshGame_ok:
  "wf_state freshGame" "phase freshGame = Awaiting_first_turn" "wholeSets freshGame" "debt freshGame = None"
  "auction freshGame = None" "expiresAt freshGame = Some 3600000" "turnExpiresAt freshGame = Some 90000"
  "assertIntentActorMatchesCommand (command_rollAndMove ''g'' ''a'' [1, 2]) = Inr ()"
  "\<not> isl (commandUpdate (tick 5) (command_rollAndMove ''g'' ''a'' [1, 2]) freshGame)"
  "getEffectiveIntentForCurrentTime 5 freshGame (Roll_and_move ''a'' [1, 2]) = Roll_and_move ''a'' [1, 2]"
  by code_simp+

theorem accepted_commands_are_authorised_witness:
  "mayAct freshGame (Roll_and_move ''a'' [1, 2]) \<and> command_roomPlayerId (command_rollAndMove ''g'' ''a'' [1, 2]) = Some ''a''"
proof -
  obtain r where r: "commandUpdate (tick 5) (command_rollAndMove ''g'' ''a'' [1, 2]) freshGame = Inr r"
    using freshGame_ok(9) by (metis isl_def obj_sumE)
  show ?thesis
    using accepted_commands_are_authorised [OF freshGame_ok(1,8) r] freshGame_ok(10)
    by (simp add: command_rollAndMove_def playerCommand_def tick_def)
qed

section \<open>Commands and the clock\<close>

text \<open>
  A command on a running game leaves it well formed, and either over and without a deadline or with a
  deadline in the future, at most ninety seconds away and never after the end of the game.
\<close>

theorem commands_bound_the_deadline:
  assumes wf: "wf_state s" and accepted: "commandUpdate clk c s = Inr r"
    and clock: "deadlineNow clk \<le> nextDeadlineNow clk"
    and previous: "ifSome (\<lambda>d. d \<le> deadlineNow clk + turnTimeoutMs) (turnExpiresAt s)"
  shows "wf_state (result_state r) \<and>
     (if terminal (phase (result_state r)) then turnExpiresAt (result_state r) = None
      else \<exists>d. turnExpiresAt (result_state r) = Some d \<and> d \<le> nextDeadlineNow clk + turnTimeoutMs \<and>
        (truthyNum (expiresAt (result_state r)) \<longrightarrow> d \<le> the (expiresAt (result_state r))) \<and>
        (deadlineNow clk < d \<or> truthyNum (expiresAt (result_state r)) \<and> d = the (expiresAt (result_state r))))"
  using accepted
proof (rule commandUpdate_Inr)
  fix t evs
  assume r: "result_state r = applyTurnDeadline (deadlineNow clk) (nextDeadlineNow clk) s
       (applyCommandSourceToState t (commandSource c)
         (intentType (getEffectiveIntentForCurrentTime (effectiveNow clk) s (command_intent c)))
         (getIntentActorRoomPlayerId (getEffectiveIntentForCurrentTime (effectiveNow clk) s (command_intent c)))
         (currentTurnRoomPlayerId s) (turnNumber s))" (is "_ = applyTurnDeadline _ _ _ ?t")
  have over: "turnExpiresAt (result_state r) = None" if "terminal (phase ?t)"
    using that unfolding r by (simp add: applyTurnDeadline_def terminal_def)
  show ?thesis
    using commandUpdate_wf [OF wf accepted] over deadline_bounds [OF _ clock previous, of ?t] unfolding r by simp
qed

theorem commands_bound_the_deadline_witness:
  "\<exists>r d. commandUpdate (tick 5) (command_rollAndMove ''g'' ''a'' [1, 2]) freshGame = Inr r \<and>
     wf_state (result_state r) \<and> turnExpiresAt (result_state r) = Some d \<and> 5 < d \<and> d \<le> 90005"
proof -
  obtain r where r: "commandUpdate (tick 5) (command_rollAndMove ''g'' ''a'' [1, 2]) freshGame = Inr r"
    using freshGame_ok(9) by (metis isl_def obj_sumE)
  have "\<forall>r. commandUpdate (tick 5) (command_rollAndMove ''g'' ''a'' [1, 2]) freshGame = Inr r \<longrightarrow>
      \<not> terminal (phase (result_state r)) \<and> expiresAt (result_state r) = Some 3600000"
  proof -
    have "(case commandUpdate (tick 5) (command_rollAndMove ''g'' ''a'' [1, 2]) freshGame of
        Inl _ \<Rightarrow> False | Inr r \<Rightarrow> \<not> terminal (phase (result_state r)) \<and> expiresAt (result_state r) = Some 3600000)"
      by code_simp
    then show ?thesis by auto
  qed
  then show ?thesis
    using commands_bound_the_deadline [OF freshGame_ok(1) r] r freshGame_ok(7)
    by (auto simp: tick_def turnTimeoutMs_def)
qed

text \<open>
  Once the time of a running game is up, the next command of anybody, whatever it asks for, ends the game:
  it is carried out as the end by time, the game is finished and no deadline is left.
\<close>

theorem expired_games_finish:
  assumes wf: "wf_state s" and running: "\<not> terminal (phase s)"
    and expired: "expiresAt s = Some e" "e \<noteq> 0" "e \<le> effectiveNow clk" and clock: "0 < effectiveNow clk"
    and other: "intentType (command_intent c) \<noteq> ''finish_game_by_time''"
  shows "\<exists>r. commandUpdate clk c s = Inr r \<and> phase (result_state r) = Finished \<and>
     turnExpiresAt (result_state r) = None \<and> result_intentType r = ''finish_game_by_time'' \<and>
     players (result_state r) = players s \<and> properties (result_state r) = properties s"
proof -
  have i: "getEffectiveIntentForCurrentTime (effectiveNow clk) s (command_intent c) = Finish_game_by_time (effectiveNow clk)"
    using running expired other by (auto simp: getEffectiveIntentForCurrentTime_def terminal_def)
  obtain evs where "finishGameByTime s (effectiveNow clk) = Inr (finishedState s, evs)"
    using finishGameByTime_succeeds [OF wf running clock] expired by auto
  then show ?thesis
    by (auto simp: commandUpdate_def i Let_def applyCommandSourceToState_def applyTurnDeadline_def finishedState_def)
qed

theorem expired_games_finish_witness:
  "\<exists>r. commandUpdate (tick 3600000) (command_endTurn ''g'' ''b'') freshGame = Inr r \<and> phase (result_state r) = Finished"
  using expired_games_finish [OF freshGame_ok(1) _ freshGame_ok(6), of "tick 3600000" "command_endTurn ''g'' ''b''"]
  by (auto simp: freshGame_ok(2) tick_def command_endTurn_def playerCommand_def)

section \<open>The turn timer\<close>

lemma chosen_timeout_accepted:
  assumes wf: "wf_state s" and running: "\<not> terminal (phase s)" and now: "0 < now"
    and dice: "1 \<le> a" "a \<le> 6" "1 \<le> b" "b \<le> 6"
    and debts: "wholeSets s" "ifSome (\<lambda>d. truthy (creditorRoomPlayerId d) \<longrightarrow>
      the (creditorRoomPlayerId d) \<in> activeIds (players s)) (debt s)"
    and bids: "bidCovered s" "ifSome (\<lambda>x. truthyNum (bidExpiresAt x) \<longrightarrow> the (bidExpiresAt x) \<le> now) (auction s)"
  shows "\<exists>i r. chooseTimeoutIntent now (a, b) s = Some i \<and> reduceGameEngineIntent env s i = Inr r"
proof (cases "truthyNum (expiresAt s) \<and> now \<ge> the (expiresAt s)")
  case True
  then have "chooseTimeoutIntent now (a, b) s = Some (Finish_game_by_time now)"
    using running by (auto simp: chooseTimeoutIntent_def terminal_def)
  then show ?thesis using finishGameByTime_succeeds [OF wf running now] True by auto
next
  case False
  obtain p where p: "findBy roomPlayerId (currentTurnRoomPlayerId s) (players s) = Some p" "\<not> bankrupt p"
    "roomPlayerId p = currentTurnRoomPlayerId s"
    using wf_current [OF wf running] by blast
  note choice = chooseTimeoutIntent_def p False
  show ?thesis
  proof (cases "phase s = Awaiting_debt_resolution")
    case True
    then obtain d where d: "debt s = Some d" using wf by (auto simp: wf_state_def phaseOk_def)
    then have "owes s d (debt_roomPlayerId d)" using wf by (simp add: owes_def)
    then obtain r where "autoResolveDebt s (debt_roomPlayerId d) = Inr r"
      using autoResolveDebt_succeeds [of s d, OF _ debts(1)] debts(2) d by fastforce
    then show ?thesis using d True by (auto simp: choice)
  next
    case calm: False
    have debt: "debt s = None" using wf calm by (auto simp: wf_state_def phaseOk_def)
    show ?thesis
    proof (cases "shouldForfeitCurrentPlayer s p")
      case True
      then have "chooseTimeoutIntent now (a, b) s = Some (Declare_bankruptcy (currentTurnRoomPlayerId s) None)"
        using calm running by (simp add: choice terminal_def)
      moreover have "\<exists>r. declareBankruptcy s (currentTurnRoomPlayerId s) None = Inr r"
        using declareBankruptcy_succeeds [OF wf running p(1,2), of None None] debt by (auto simp: creditorOk_def)
      ultimately show ?thesis by auto
    next
      case stay: False
      from running calm consider "phase s = Awaiting_first_turn \<or> phase s = Awaiting_roll"
        | "phase s = Awaiting_property_decision" | "phase s = Awaiting_auction_bid" | "phase s = Awaiting_turn_end"
        by (cases "phase s") auto
      then show ?thesis
      proof cases
        case 1
        with roll_succeeds [OF wf 1 dice] show ?thesis using stay by (auto simp: choice)
      next
        case 2
        with decline_succeeds [OF wf 2] show ?thesis using stay by (auto simp: choice)
      next
        case 3
        then obtain x where x: "auction s = Some x" using wf by (auto simp: wf_state_def phaseOk_def)
        with pass_succeeds [OF wf x bids(1), of "dateNow env"] show ?thesis
          using stay 3 bids(2) by (auto simp: choice)
      next
        case 4
        with end_turn_succeeds [OF wf 4] show ?thesis using stay by (auto simp: choice)
      qed
    qed
  qed
qed

lemma timeout_command_accepted:
  assumes wf: "wf_state s" and running: "\<not> terminal (phase s)"
    and clock: "0 < now" "now \<le> effectiveNow clk"
    and dice: "fst dice \<in> {1..6}" "snd dice \<in> {1..6}"
    and debts: "wholeSets s" "ifSome (\<lambda>d. truthy (creditorRoomPlayerId d) \<longrightarrow>
      the (creditorRoomPlayerId d) \<in> activeIds (players s)) (debt s)"
    and bids: "bidCovered s" "ifSome (\<lambda>x. truthyNum (bidExpiresAt x) \<longrightarrow> the (bidExpiresAt x) \<le> now) (auction s)"
  shows "\<exists>i r. chooseTimeoutIntent now dice s = Some i \<and>
     commandUpdate clk \<lparr>command_gameId = gid, command_roomPlayerId = getIntentActorRoomPlayerId i, command_intent = i,
       command_source = Some Source_timer\<rparr> s = Inr r \<and> wf_state (result_state r)"
proof -
  obtain i x where i: "chooseTimeoutIntent now dice s = Some i" "reduceGameEngineIntent (engineEnv clk) s i = Inr x"
    using chosen_timeout_accepted [OF wf running clock(1) _ _ _ _ debts bids, of "fst dice" "snd dice" "engineEnv clk"] dice by auto
  let ?c = "\<lparr>command_gameId = gid, command_roomPlayerId = getIntentActorRoomPlayerId i, command_intent = i,
       command_source = Some Source_timer\<rparr>"
  have "\<exists>x. reduceGameEngineIntent (engineEnv clk) s
      (getEffectiveIntentForCurrentTime (effectiveNow clk) s i) = Inr x"
  proof (cases "getEffectiveIntentForCurrentTime (effectiveNow clk) s i = i")
    case False
    then have "getEffectiveIntentForCurrentTime (effectiveNow clk) s i = Finish_game_by_time (effectiveNow clk)"
      "truthyNum (expiresAt s) \<Longrightarrow> the (expiresAt s) \<le> effectiveNow clk"
      by (auto simp: getEffectiveIntentForCurrentTime_def split: if_splits)
    then show ?thesis using finishGameByTime_succeeds [OF wf running, of "effectiveNow clk"] clock by auto
  qed (use i in auto)
  then have "\<exists>r. commandUpdate clk ?c s = Inr r" by (auto simp: commandUpdate_def Let_def)
  with i(1) commandUpdate_wf [OF wf] show ?thesis by blast
qed



end
