(* ===== verification/Js_Number.thy ===== *)
theory Js_Number
  imports "HOL-Library.Log_Nat" Prelude
begin

text \<open>
  JavaScript numbers that are not integers. A double is a rational; an arithmetic operation is the
  exact rational operation followed by \<open>fl\<close>, the rounding to the nearest number with a 53-bit
  significand, ties to even. Overflow and underflow, which need a magnitude of \<open>2 ^ 1024\<close> or
  \<open>2 ^ -1022\<close>, are out of reach of the amounts and ratings computed here and are not modelled.
\<close>

section \<open>Rounding\<close>

text \<open>The integer nearest to the quotient of \<open>a\<close> and a positive \<open>b\<close>, ties to even.\<close>

definition roundDiv :: "int \<Rightarrow> int \<Rightarrow> int" where
  "roundDiv a b =
     (let d = a div b; r = a mod b in
      if 2 * r < b then d else if 2 * r > b then d + 1 else if even d then d else d + 1)"

function bitLength :: "int \<Rightarrow> int" where
  "bitLength n = (if n \<le> 0 then 0 else 1 + bitLength (n div 2))"
  by auto
termination by (relation "measure nat") auto

declare bitLength.simps [simp del]

text \<open>The binary exponent of the positive quotient of \<open>p\<close> and \<open>q\<close>.\<close>

definition exponent :: "int \<Rightarrow> int \<Rightarrow> int" where
  "exponent p q =
     (let e = bitLength p - bitLength q in
      if (if 0 \<le> e then 2 ^ nat e * q \<le> p else q \<le> p * 2 ^ nat (- e)) then e else e - 1)"

definition fl :: "rat \<Rightarrow> rat" where
  "fl x =
     (if x = 0 then 0
      else let (p, q) = quotient_of \<bar>x\<bar>; k = exponent p q - 52 in
        sgn x * (if 0 \<le> k then of_int (roundDiv p (q * 2 ^ nat k) * 2 ^ nat k)
                 else of_int (roundDiv (p * 2 ^ nat (- k)) q) / of_int (2 ^ nat (- k))))"

text \<open>\<^verbatim>\<open>Math.round\<close> and \<^verbatim>\<open>Math.floor\<close>.\<close>

definition mathRound :: "rat \<Rightarrow> int" where "mathRound x = \<lfloor>x + 1 / 2\<rfloor>"

definition mathFloor :: "rat \<Rightarrow> int" where "mathFloor x = \<lfloor>x\<rfloor>"

definition fadd :: "rat \<Rightarrow> rat \<Rightarrow> rat" where "fadd x y = fl (x + y)"
definition fsub :: "rat \<Rightarrow> rat \<Rightarrow> rat" where "fsub x y = fl (x - y)"
definition fmul :: "rat \<Rightarrow> rat \<Rightarrow> rat" where "fmul x y = fl (x * y)"
definition fdiv :: "rat \<Rightarrow> rat \<Rightarrow> rat" where "fdiv x y = fl (x / y)"

section \<open>The error of one operation\<close>

definition unitRoundoff :: rat where "unitRoundoff = 1 / 2 ^ 53"

lemma roundDiv_error:
  assumes "0 < b"
  shows "\<bar>of_int (roundDiv a b) - of_int a / of_int b\<bar> \<le> (1 / 2 :: rat)"
proof -
  define d r where "d = a div b" and "r = a mod b"
  have a: "of_int a / of_int b = (of_int d + of_int r / of_int b :: rat)"
    using assms by (simp add: d_def r_def field_simps flip: of_int_add of_int_mult)
  have r: "0 \<le> r" "r < b" using assms by (simp_all add: r_def)
  have b: "0 < (of_int b :: rat)" using assms by simp
  have low: "of_int r / of_int b \<le> (1 / 2 :: rat)" if "2 * r \<le> b"
  proof -
    have "of_int (2 * r) \<le> (of_int b :: rat)" by (simp only: of_int_le_iff that)
    then show ?thesis using b by (simp add: pos_divide_le_eq)
  qed
  have high: "(1 / 2 :: rat) \<le> of_int r / of_int b" if "b \<le> 2 * r"
  proof -
    have "(of_int b :: rat) \<le> of_int (2 * r)" by (simp only: of_int_le_iff that)
    then show ?thesis using b by (simp add: pos_le_divide_eq)
  qed
  have range: "0 \<le> (of_int r / of_int b :: rat)" "(of_int r / of_int b :: rat) \<le> 1"
    using b r by (simp_all add: pos_divide_le_eq)
  define t :: rat where "t = of_int r / of_int b"
  have "2 * r \<le> b \<Longrightarrow> t \<le> 1 / 2" "b \<le> 2 * r \<Longrightarrow> 1 / 2 \<le> t" "0 \<le> t" "t \<le> 1"
    using low high range by (simp_all add: t_def)
  then show ?thesis
    unfolding a t_def [symmetric]
    by (auto simp: roundDiv_def Let_def d_def [symmetric] r_def [symmetric] abs_le_iff)
qed

lemma roundDiv_exact: "0 < b \<Longrightarrow> roundDiv (n * b) b = n"
  by (simp add: roundDiv_def)

lemma bitLength_bounds: "0 < n \<Longrightarrow> 0 < bitLength n \<and> 2 ^ nat (bitLength n - 1) \<le> n \<and> n < 2 ^ nat (bitLength n)"
proof (induction n rule: bitLength.induct)
  case (1 n)
  have len: "bitLength n = 1 + bitLength (n div 2)" using 1(2) by (simp add: bitLength.simps [of n])
  show ?case
  proof (cases "n = 1")
    case True
    then show ?thesis by (simp add: bitLength.simps [of 1] bitLength.simps [of 0])
  next
    case False
    then have IH: "0 < bitLength (n div 2)" "2 ^ nat (bitLength (n div 2) - 1) \<le> n div 2" "n div 2 < 2 ^ nat (bitLength (n div 2))"
      using 1 by auto
    define m where "m = nat (bitLength (n div 2) - 1)"
    have "bitLength (n div 2) = int m + 1" using IH(1) by (simp add: m_def)
    then show ?thesis using IH by (auto simp: len nat_add_distrib)
  qed
qed

lemma exponent_le:
  assumes "0 < p" "0 < q"
  shows "2 powi (exponent p q) \<le> (of_int p / of_int q :: rat)"
proof -
  define m n where "m = bitLength p" and "n = bitLength q"
  have b: "0 < m" "2 ^ nat (m - 1) \<le> p" "q < 2 ^ nat n" "0 < n"
    using bitLength_bounds [OF assms(1)] bitLength_bounds [OF assms(2)] by (auto simp: m_def n_def)
  have low: "2 powi (m - n - 1) \<le> (of_int p / of_int q :: rat)"
  proof -
    define i j where "i = nat (m - 1)" and "j = nat n"
    have shift: "m - n - 1 = int i - int j" using b by (simp add: i_def j_def)
    have "(2 :: rat) powi (m - n - 1) = of_int (2 ^ nat (m - 1)) / of_int (2 ^ nat n)"
      unfolding shift i_def [symmetric] j_def [symmetric] by (simp add: power_int_diff)
    also have "\<dots> \<le> of_int p / of_int q"
      using b(2,3) assms by (intro frac_le) (simp_all only: of_int_le_iff of_int_0_less_iff of_int_0_le_iff less_imp_le)
    finally show ?thesis .
  qed
  have high: "2 powi (m - n) \<le> (of_int p / of_int q :: rat)"
    if "if 0 \<le> m - n then 2 ^ nat (m - n) * q \<le> p else q \<le> p * 2 ^ nat (- (m - n))"
  proof (cases "0 \<le> m - n")
    case True
    then have "of_int (2 ^ nat (m - n) * q) \<le> (of_int p :: rat)" using that by (simp only: of_int_le_iff if_True)
    then show ?thesis using True assms(2) by (simp add: power_int_def field_simps)
  next
    case False
    then have "of_int q \<le> (of_int (p * 2 ^ nat (- (m - n))) :: rat)" using that by (simp only: of_int_le_iff if_False)
    then show ?thesis using False assms(2) by (simp add: power_int_def power_inverse field_simps)
  qed
  show ?thesis using low high by (auto simp: exponent_def Let_def m_def n_def)
qed

lemma fl_rounds:
  assumes "x \<noteq> 0" and pq: "quotient_of \<bar>x\<bar> = (p, q)"
  obtains r where "fl x = sgn x * of_int r * 2 powi (exponent p q - 52)"
    "\<bar>of_int r - \<bar>x\<bar> / 2 powi (exponent p q - 52)\<bar> \<le> 1 / 2"
    "\<And>n. \<bar>x\<bar> = of_int n * 2 powi (exponent p q - 52) \<Longrightarrow> r = n"
proof -
  define k where "k = exponent p q - 52"
  have q: "0 < q" and x: "\<bar>x\<bar> = of_int p / of_int q"
    using quotient_of_denom_pos [OF pq] quotient_of_div [OF pq] by auto
  show thesis
  proof (cases "0 \<le> k")
    case True
    then have powi: "2 powi k = (of_int (2 ^ nat k) :: rat)" by (simp add: power_int_def)
    have exact: "roundDiv p (q * 2 ^ nat k) = n" if "\<bar>x\<bar> = of_int n * 2 powi k" for n
    proof -
      have "of_int p = (of_int (n * (q * 2 ^ nat k)) :: rat)"
        using that q by (simp add: x powi field_simps)
      then have "p = n * (q * 2 ^ nat k)" by (simp only: of_int_eq_iff)
      then show ?thesis using q roundDiv_exact [of "q * 2 ^ nat k" n] by simp
    qed
    have err: "\<bar>of_int (roundDiv p (q * 2 ^ nat k)) - \<bar>x\<bar> / 2 powi k\<bar> \<le> 1 / 2"
      using roundDiv_error [of "q * 2 ^ nat k" p] q by (simp add: x powi)
    have value_x: "fl x = sgn x * of_int (roundDiv p (q * 2 ^ nat k)) * 2 powi k"
      using assms True unfolding fl_def Let_def pq prod.case k_def [symmetric] by (simp add: powi)
    show thesis by (rule that [folded k_def, OF value_x err exact])
  next
    case False
    then have powi: "2 powi k = (1 / of_int (2 ^ nat (- k)) :: rat)" by (simp add: power_int_def power_inverse field_simps)
    have exact: "roundDiv (p * 2 ^ nat (- k)) q = n" if "\<bar>x\<bar> = of_int n * 2 powi k" for n
    proof -
      have "of_int (p * 2 ^ nat (- k)) = (of_int (n * q) :: rat)"
        using that q by (simp add: x powi field_simps)
      then have "p * 2 ^ nat (- k) = n * q" by (simp only: of_int_eq_iff)
      then show ?thesis using q roundDiv_exact [of q n] by simp
    qed
    have err: "\<bar>of_int (roundDiv (p * 2 ^ nat (- k)) q) - \<bar>x\<bar> / 2 powi k\<bar> \<le> 1 / 2"
      using roundDiv_error [of q "p * 2 ^ nat (- k)"] q by (simp add: x powi)
    have value_x: "fl x = sgn x * of_int (roundDiv (p * 2 ^ nat (- k)) q) * 2 powi k"
      using assms False unfolding fl_def Let_def pq prod.case k_def [symmetric] by (simp add: powi)
    show thesis by (rule that [folded k_def, OF value_x err exact])
  qed
qed

lemma fl_error: "\<bar>fl x - x\<bar> \<le> \<bar>x\<bar> * unitRoundoff"
proof (cases "x = 0")
  case False
  obtain p q where pq: "quotient_of \<bar>x\<bar> = (p, q)" by fastforce
  define e where "e = exponent p q"
  define ulp :: rat where "ulp = 2 powi (e - 52)"
  have pos: "0 < ulp" by (simp add: ulp_def)
  obtain r where r: "fl x = sgn x * of_int r * ulp" "\<bar>of_int r - \<bar>x\<bar> / ulp\<bar> \<le> 1 / 2"
    using fl_rounds [OF False pq] by (metis e_def ulp_def)
  have "fl x - x = sgn x * (of_int r - \<bar>x\<bar> / ulp) * ulp"
    using pos by (simp add: r(1) left_diff_distrib right_diff_distrib sgn_mult_abs)
  then have "\<bar>fl x - x\<bar> = \<bar>of_int r - \<bar>x\<bar> / ulp\<bar> * ulp"
    using False pos by (simp add: abs_mult)
  also have "\<dots> \<le> 1 / 2 * ulp" using r(2) pos by (intro mult_right_mono) auto
  also have "\<dots> = 2 powi e * unitRoundoff"
    by (simp add: ulp_def unitRoundoff_def power_int_diff)
  also have "\<dots> \<le> \<bar>x\<bar> * unitRoundoff"
  proof (rule mult_right_mono)
    have q: "0 < q" and x: "\<bar>x\<bar> = of_int p / of_int q"
      using quotient_of_denom_pos [OF pq] quotient_of_div [OF pq] by auto
    have "0 < p" using False q x by (metis of_int_0_less_iff zero_less_abs_iff zero_less_divide_iff less_asym)
    then show "2 powi e \<le> \<bar>x\<bar>" using exponent_le [OF _ q] by (simp add: e_def x)
  qed (simp add: unitRoundoff_def)
  finally show ?thesis .
qed (simp add: fl_def)

lemma fl_bounds:
  assumes "0 \<le> x"
  shows "x * (1 - unitRoundoff) \<le> fl x" "fl x \<le> x * (1 + unitRoundoff)" "0 \<le> fl x"
proof -
  have "\<bar>fl x - x\<bar> \<le> x * unitRoundoff" using fl_error [of x] assms by simp
  then show low: "x * (1 - unitRoundoff) \<le> fl x" and "fl x \<le> x * (1 + unitRoundoff)"
    by (simp_all add: abs_le_iff algebra_simps)
  have "0 \<le> x * (1 - unitRoundoff)" using assms by (simp add: unitRoundoff_def)
  with low show "0 \<le> fl x" by linarith
qed

lemma fl_neg [simp]: "fl (- x) = - fl x"
  by (simp add: fl_def Let_def sgn_minus split: prod.split)

lemma fl_abs: "\<bar>fl x\<bar> \<le> \<bar>x\<bar> * (1 + unitRoundoff)"
  using fl_bounds(2,3) [of x] fl_bounds(2,3) [of "- x"] by (cases "0 \<le> x") auto

text \<open>Integers of at most 53 bits are represented exactly.\<close>

lemma fl_of_int:
  assumes "\<bar>n\<bar> < 2 ^ 53"
  shows "fl (of_int n) = of_int n"
proof (cases "n = 0")
  case False
  have "\<bar>of_int n :: rat\<bar> = Fract \<bar>n\<bar> 1" by (simp flip: of_int_rat)
  then have pq: "quotient_of \<bar>of_int n\<bar> = (\<bar>n\<bar>, 1)" by (simp add: quotient_of_Fract normalize_def)
  define e where "e = exponent \<bar>n\<bar> 1"
  have le: "2 powi e \<le> (of_int \<bar>n\<bar> :: rat)" using exponent_le [of "\<bar>n\<bar>" 1] False by (simp add: e_def)
  have "(of_int \<bar>n\<bar> :: rat) < of_int (2 ^ 53)" by (simp only: of_int_less_iff assms)
  then have "(2 :: rat) powi e < 2 powi 53" using le by simp
  then have e: "e < 53" using power_int_increasing [of 53 e "2 :: rat"] by (cases "e < 53") auto
  define k where "k = nat (52 - e)"
  have shift: "e - 52 = - int k" using e by (simp add: k_def)
  have ulp: "(2 :: rat) powi (e - 52) = 1 / 2 ^ k"
    unfolding shift by (simp add: power_int_minus inverse_eq_divide)
  have exact: "\<bar>of_int n\<bar> = (of_int (\<bar>n\<bar> * 2 ^ k) * 2 powi (exponent \<bar>n\<bar> 1 - 52) :: rat)"
    by (simp add: ulp flip: e_def)
  have "fl (of_int n) = sgn (of_int n) * of_int (\<bar>n\<bar> * 2 ^ k) * 2 powi (e - 52)"
  proof (rule fl_rounds [OF _ pq])
    fix r
    assume r: "fl (of_int n) = sgn (of_int n) * of_int r * 2 powi (exponent \<bar>n\<bar> 1 - 52)"
      and "\<And>m. \<bar>of_int n\<bar> = (of_int m * 2 powi (exponent \<bar>n\<bar> 1 - 52) :: rat) \<Longrightarrow> r = m"
    then have "r = \<bar>n\<bar> * 2 ^ k" using exact by blast
    with r show ?thesis by (simp add: e_def)
  qed (use False in simp)
  also have "\<dots> = of_int n" by (simp add: ulp sgn_mult_abs)
  finally show ?thesis .
qed (simp add: fl_def)

text \<open>The rounding of the language: \<^verbatim>\<open>0.1\<close> as stored, and \<^verbatim>\<open>0.1 + 0.2 !== 0.3\<close>.\<close>

lemma fl_examples:
  "fl (1 / 10) = 3602879701896397 / 36028797018963968"
  "fadd (fl (1 / 10)) (fl (2 / 10)) \<noteq> fl (3 / 10)" "fmul (fdiv 32 3) 3 = 32"
  by code_simp+

end
