(* ===== verification/Game_Results.thy ===== *)
theory Game_Results
  imports Game_Commands Js_Number
begin

text \<open>
  The end of a game in the database: \<^verbatim>\<open>src/src/game/results/\<close> (who won, in which order, for how long)
  and \<^verbatim>\<open>src/src/game/stats/\<close> (ratings and statistics). A table is a map from its key, or a list
  of rows; a timestamp is the number of its milliseconds; a transaction returns the new tables or
  the error that rolls it back. \<^verbatim>\<open>10 ** x\<close>, whose result the language leaves to the
  implementation, is the argument \<open>pow10\<close>.
\<close>

section \<open>Tables\<close>

datatype GameResultEndReason = Bankruptcy | Time_elapsed | Abandoned | Cancelled_game

record SaveRoomPlayerResultInput =
  result_roomId :: string
  result_roomPlayerId :: string
  result_userId :: "string option"
  result_seatNumber :: int
  startingCash :: int
  finalCash :: int
  finalNetWorth :: int
  placement :: int
  bankruptAt :: "int option"

record RoomResultRow =
  rr_roomId :: string
  rr_winnerRoomPlayerId :: "string option"
  rr_winnerUserId :: "string option"
  rr_endReason :: GameResultEndReason
  rr_durationSeconds :: int
  rr_completedAt :: int

record SaveGameResultsInput =
  save_gameId :: string
  save_roomId :: string
  save_state :: GameEngineState
  save_endReason :: GameResultEndReason
  save_winnerRoomPlayerId :: "string option"
  save_completedAt :: int
  save_durationSeconds :: int
  save_playerResults :: "SaveRoomPlayerResultInput list"

record GameRow =
  game_id :: string
  game_roomId :: string
  game_mode :: GameMode
  game_status :: string
  game_currentTurnRoomPlayerId :: "string option"
  game_turnNumber :: int
  game_state :: GameEngineState
  game_expiresAt :: int
  game_finishedAt :: "int option"

record RoomRow =
  room_id :: string
  room_code :: string
  room_hostUserId :: string
  room_status :: string
  room_maxPlayers :: int
  room_durationMinutes :: int
  room_boardKey :: GameBoardKey
  room_createdAt :: int
  room_startedAt :: "int option"
  room_endedAt :: "int option"

datatype RoomPlayerStatus = Joined | Left | Kicked

record RoomPlayerRow =
  rp_id :: string
  rp_roomId :: string
  rp_userId :: "string option"
  rp_playerType :: PlayerType
  rp_botDifficulty :: "BotDifficulty option"
  rp_botName :: "string option"
  rp_seatNumber :: int
  rp_status :: RoomPlayerStatus
  rp_joinedAt :: int
  rp_leftAt :: "int option"

record RoomSpectatorRow =
  rs_id :: string
  rs_roomId :: string
  rs_userId :: string
  rs_joinedAt :: int
  rs_leftAt :: "int option"

text \<open>The column \<^verbatim>\<open>avg_position\<close> is a decimal with two digits after the point.\<close>

record PlayerStatsForUpdate =
  gamesPlayed :: int
  firstPlace :: int
  secondPlace :: int
  thirdPlace :: int
  fourthPlace :: int
  avgPosition :: rat
  currentRating :: int
  peakRating :: int
  totalNetWorth :: int
  totalRentCollected :: int
  totalRentPaid :: int

record RecordRatingChangeInput =
  history_ratingBefore :: int
  history_ratingAfter :: int
  history_ratingDelta :: int
  history_placement :: int

record Tables =
  games :: "GameRow list"
  rooms :: "RoomRow list"
  roomPlayers :: "RoomPlayerRow list"
  roomSpectators :: "RoomSpectatorRow list"
  roomResults :: "string \<rightharpoonup> RoomResultRow"
  roomPlayerResults :: "string \<times> string \<rightharpoonup> SaveRoomPlayerResultInput"
  playerStats :: "string \<rightharpoonup> PlayerStatsForUpdate"
  ratingHistory :: "string \<times> string \<rightharpoonup> RecordRatingChangeInput"

section \<open>How a game ended\<close>

fun isBankruptcyFinish :: "GameEngineEvent \<Rightarrow> bool" where
  "isBankruptcyFinish (Game_finished_by_bankruptcy _ _ _) = True"
| "isBankruptcyFinish _ = False"

fun isTimeFinish :: "GameEngineEvent \<Rightarrow> bool" where
  "isTimeFinish (Game_finished_by_time _ _ _ _) = True"
| "isTimeFinish _ = False"

fun isAbandonedFinish :: "GameEngineEvent \<Rightarrow> bool" where
  "isAbandonedFinish (Game_finished_after_last_human_left _ _ _ _) = True"
| "isAbandonedFinish _ = False"

definition getCompletedAt :: "int \<Rightarrow> GameEngineEvent list \<Rightarrow> int" where
  "getCompletedAt now evs =
     (case find (\<lambda>e. isBankruptcyFinish e \<or> isTimeFinish e \<or> isAbandonedFinish e) evs of
        Some (Game_finished_by_time finishedAt _ _ _) \<Rightarrow> finishedAt
      | Some (Game_finished_after_last_human_left finishedAt _ _ _) \<Rightarrow> finishedAt
      | _ \<Rightarrow> now)"

definition getEndReason :: "GameEngineEvent list \<Rightarrow> GameResultEndReason" where
  "getEndReason evs =
     (if list_ex isBankruptcyFinish evs then Bankruptcy
      else if list_ex isTimeFinish evs then Time_elapsed
      else if list_ex isAbandonedFinish evs then Abandoned
      else Cancelled_game)"

definition netWorthWinnerId :: "GameEngineState \<Rightarrow> GameEngineError + string option" where
  "netWorthWinnerId s =
     andThen (calculateNetWorthStandings s) (\<lambda>standings.
     Inr (map_option worth_roomPlayerId (getNetWorthWinner standings)))"

definition getWinnerRoomPlayerId ::
  "GameEngineEvent list \<Rightarrow> GameEngineState \<Rightarrow> GameEngineError + string option" where
  "getWinnerRoomPlayerId evs s =
     (case find isBankruptcyFinish evs of
        Some (Game_finished_by_bankruptcy w _ _) \<Rightarrow> Inr w
      | _ \<Rightarrow>
          case (case find isTimeFinish evs of
                  Some (Game_finished_by_time _ w _ _) \<Rightarrow> if truthy w then w else None
                | _ \<Rightarrow> None) of
            Some w \<Rightarrow> Inr (Some w)
          | None \<Rightarrow>
              case (case find isAbandonedFinish evs of
                      Some (Game_finished_after_last_human_left _ w _ _) \<Rightarrow> if truthy w then w else None
                    | _ \<Rightarrow> None) of
                Some w \<Rightarrow> Inr (Some w)
              | None \<Rightarrow> netWorthWinnerId s)"

definition getDurationSeconds :: "GameEngineState \<Rightarrow> int \<Rightarrow> int" where
  "getDurationSeconds s completedAt =
     (let started = (case startedAt s of Some t \<Rightarrow> t | None \<Rightarrow> completedAt) in
      max 0 ((completedAt - started) div 1000))"

section \<open>Final placements\<close>

definition DEFAULT_STARTING_CASH :: int where "DEFAULT_STARTING_CASH = 1500"

definition compareFinalResultStanding ::
  "PlayerNetWorth \<Rightarrow> PlayerNetWorth \<Rightarrow> GameEnginePlayer list \<Rightarrow> int" where
  "compareFinalResultStanding left right ps =
     (if netWorth right \<noteq> netWorth left then netWorth right - netWorth left
      else if worth_cash right \<noteq> worth_cash left then worth_cash right - worth_cash left
      else if ownedPropertyCount right \<noteq> ownedPropertyCount left
      then ownedPropertyCount right - ownedPropertyCount left
      else
        let leftBankrupt = map_option bankrupt (findBy roomPlayerId (worth_roomPlayerId left) ps);
            rightBankrupt = map_option bankrupt (findBy roomPlayerId (worth_roomPlayerId right) ps) in
        if leftBankrupt \<noteq> rightBankrupt then (if leftBankrupt = Some True then 1 else -1)
        else worth_seatNumber left - worth_seatNumber right)"

text \<open>\<^verbatim>\<open>Array.prototype.sort\<close> is stable: each element goes in front of the first one it does not follow.\<close>

fun insertBy :: "('a \<Rightarrow> 'a \<Rightarrow> int) \<Rightarrow> 'a \<Rightarrow> 'a list \<Rightarrow> 'a list" where
  "insertBy cmp x [] = [x]"
| "insertBy cmp x (y # ys) = (if cmp x y \<le> 0 then x # y # ys else y # insertBy cmp x ys)"

definition sortBy :: "('a \<Rightarrow> 'a \<Rightarrow> int) \<Rightarrow> 'a list \<Rightarrow> 'a list" where
  "sortBy cmp xs = foldr (insertBy cmp) xs []"

definition calculateFinalResultStandings :: "GameEngineState \<Rightarrow> GameEngineError + PlayerNetWorth list" where
  "calculateFinalResultStandings s =
     andThen (mapM (calculatePlayerNetWorth s (getGameBoard (boardKey s))) (players s)) (\<lambda>worths.
     Inr (sortBy (\<lambda>left right. compareFinalResultStanding left right (players s)) worths))"

definition placementByRoomPlayerId :: "PlayerNetWorth list \<Rightarrow> string \<rightharpoonup> int" where
  "placementByRoomPlayerId standings =
     map_of (rev (zip (map worth_roomPlayerId standings) (map (\<lambda>i. int i + 1) [0..<length standings])))"

definition buildPlayerResults ::
  "GameEngineState \<Rightarrow> int \<Rightarrow> GameEngineError + SaveRoomPlayerResultInput list" where
  "buildPlayerResults s completedAt =
     andThen (calculateFinalResultStandings s) (\<lambda>standings.
     Inr (map (\<lambda>player.
       \<lparr>result_roomId = roomId s, result_roomPlayerId = roomPlayerId player, result_userId = userId player,
        result_seatNumber = seatNumber player, startingCash = DEFAULT_STARTING_CASH, finalCash = cash player,
        finalNetWorth = (case findBy worth_roomPlayerId (roomPlayerId player) standings of
                           None \<Rightarrow> cash player | Some w \<Rightarrow> netWorth w),
        placement = (case placementByRoomPlayerId standings (roomPlayerId player) of
                       None \<Rightarrow> int (length (players s)) | Some n \<Rightarrow> n),
        bankruptAt = (if bankrupt player then Some completedAt else None)\<rparr>) (players s)))"

definition shouldRefreshLeaderboards :: "GameEngineState \<Rightarrow> bool" where
  "shouldRefreshLeaderboards s \<longleftrightarrow>
     mode s = Ranked \<and> list_all (\<lambda>p. playerType p = Human \<and> userId p \<noteq> None) (players s)"

section \<open>Ratings\<close>

record RatingParticipant =
  participant_userId :: string
  participant_placement :: int
  participant_rating :: int

record RatingChange =
  change_userId :: string
  ratingBefore :: int
  ratingAfter :: int
  ratingDelta :: int

definition DEFAULT_K_FACTOR :: int where "DEFAULT_K_FACTOR = 32"
definition MIN_RATING :: int where "MIN_RATING = 300"
definition DEFAULT_RATING :: int where "DEFAULT_RATING = 500"

definition getExpectedScore :: "(rat \<Rightarrow> rat) \<Rightarrow> int \<Rightarrow> int \<Rightarrow> rat" where
  "getExpectedScore pow10 playerRating opponentRating =
     fdiv 1 (fadd 1 (pow10 (fdiv (of_int (opponentRating - playerRating)) 400)))"

definition assertUniquePlacements :: "RatingParticipant list \<Rightarrow> GameEngineError + unit" where
  "assertUniquePlacements ps =
     raiseIf (\<not> distinct (map participant_placement ps))
       (JsError ''Rating calculation requires unique placements'')"

definition performanceDelta :: "(rat \<Rightarrow> rat) \<Rightarrow> RatingParticipant \<Rightarrow> RatingParticipant list \<Rightarrow> rat" where
  "performanceDelta pow10 p opponents =
     foldl (\<lambda>total opponent.
       fsub (fadd total (if participant_placement p < participant_placement opponent then 1 else 0))
            (getExpectedScore pow10 (participant_rating p) (participant_rating opponent))) 0 opponents"

text \<open>
  With no opponent the source divides by zero and carries \<^verbatim>\<open>NaN\<close> to an integer column, where the
  transaction fails; here the calculation fails.
\<close>

definition ratingChange ::
  "(rat \<Rightarrow> rat) \<Rightarrow> int \<Rightarrow> RatingParticipant list \<Rightarrow> RatingParticipant \<Rightarrow> GameEngineError + RatingChange" where
  "ratingChange pow10 kFactor ps p =
     (let opponents = filter (\<lambda>o'. participant_userId o' \<noteq> participant_userId p) ps in
      andThen (raiseIf (opponents = []) (JsError ''NaN'')) (\<lambda>_.
      let delta = mathRound (fmul (fdiv (of_int kFactor) (of_nat (length opponents)))
                    (performanceDelta pow10 p opponents));
          after = max MIN_RATING (participant_rating p + delta) in
      Inr \<lparr>change_userId = participant_userId p, ratingBefore = participant_rating p, ratingAfter = after,
           ratingDelta = after - participant_rating p\<rparr>))"

definition calculateRatingChanges ::
  "(rat \<Rightarrow> rat) \<Rightarrow> RatingParticipant list \<Rightarrow> int \<Rightarrow> GameEngineError + RatingChange list" where
  "calculateRatingChanges pow10 ps kFactor =
     (if length ps < 2 then Inr []
      else andThen (assertUniquePlacements ps) (\<lambda>_. mapM (ratingChange pow10 kFactor ps) ps))"

section \<open>The order of the placements\<close>

definition finalOrder :: "GameEnginePlayer list \<Rightarrow> PlayerNetWorth \<Rightarrow> int \<times> int \<times> int \<times> bool \<times> int" where
  "finalOrder ps w =
     (- netWorth w, - worth_cash w, - ownedPropertyCount w,
      map_option bankrupt (findBy roomPlayerId (worth_roomPlayerId w) ps) = Some True, worth_seatNumber w)"

lemma compare_order:
  assumes "worth_roomPlayerId v \<in> roomPlayerId ` set ps" "worth_roomPlayerId w \<in> roomPlayerId ` set ps"
  shows "compareFinalResultStanding v w ps \<le> 0 \<longleftrightarrow> finalOrder ps v \<le> finalOrder ps w"
proof -
  obtain p q where p: "findBy roomPlayerId (worth_roomPlayerId v) ps = Some p"
    and q: "findBy roomPlayerId (worth_roomPlayerId w) ps = Some q"
    using assms ex_findBy [of _ roomPlayerId ps] by (metis image_iff list.set_map)
  show ?thesis
    by (auto simp: compareFinalResultStanding_def finalOrder_def p q Let_def less_eq_prod_def)
qed

lemma sortBy_sort_key:
  assumes "\<forall>x\<in>set xs. \<forall>y\<in>set xs. cmp x y \<le> 0 \<longleftrightarrow> key x \<le> key y"
  shows "sortBy cmp xs = sort_key key xs"
proof -
  have ins: "insertBy cmp x ys = insort_key key x ys" if "\<forall>y\<in>set ys. cmp x y \<le> 0 \<longleftrightarrow> key x \<le> key y" for x ys
    using that by (induction ys) auto
  show ?thesis
    using assms
  proof (induction xs)
    case (Cons x xs)
    then have "sortBy cmp xs = sort_key key xs" by simp
    then show ?case using Cons.prems ins [of "sort_key key xs" x] by (simp add: sortBy_def)
  qed (simp add: sortBy_def)
qed

lemma sort_key_cong:
  assumes "\<forall>x\<in>set xs. \<forall>y\<in>set xs. f x \<le> f y \<longleftrightarrow> g x \<le> g y"
  shows "sort_key f xs = sort_key g xs"
proof -
  have ins: "insort_key f x ys = insort_key g x ys" if "\<forall>y\<in>set ys. f x \<le> f y \<longleftrightarrow> g x \<le> g y" for x ys
    using that by (induction ys) auto
  show ?thesis
    using assms
  proof (induction xs)
    case (Cons x xs)
    then have "sort_key f xs = sort_key g xs" by simp
    then show ?case using Cons.prems ins [of "sort_key g xs" x] by simp
  qed simp
qed

lemma worths_of_players:
  assumes "mapM (calculatePlayerNetWorth s board) ps = Inr ws"
  shows "map worth_roomPlayerId ws = map roomPlayerId ps"
  by (rule mapM_map [OF assms]) (auto dest: netWorth_player)

lemma final_standings:
  assumes wf: "wf_state s"
  obtains ws where "mapM (calculatePlayerNetWorth s CLASSIC_GAME_BOARD) (players s) = Inr ws"
    "calculateFinalResultStandings s = Inr (sort_key (finalOrder (players s)) ws)"
    "map worth_roomPlayerId ws = playerIds s"
proof -
  obtain ws where ws: "mapM (calculatePlayerNetWorth s CLASSIC_GAME_BOARD) (players s) = Inr ws"
    using worths_succeed [OF playersOk_distinct [OF wf_stateD(3) [OF wf]] wf_stateD(4) [OF wf], of "players s"] by auto
  have ids: "map worth_roomPlayerId ws = playerIds s" using worths_of_players [OF ws] by (simp add: playerIds_def)
  have "worth_roomPlayerId w \<in> roomPlayerId ` set (players s)" if "w \<in> set ws" for w
    using that ids by (metis image_eqI list.set_map playerIds_def)
  then have "sortBy (\<lambda>v w. compareFinalResultStanding v w (players s)) ws = sort_key (finalOrder (players s)) ws"
    by (intro sortBy_sort_key) (simp add: compare_order)
  with ws ids show thesis by (intro that) (simp_all add: calculateFinalResultStandings_def)
qed

lemma placement_index:
  assumes "distinct (map worth_roomPlayerId st)"
  shows "i < length st \<Longrightarrow> placementByRoomPlayerId st (worth_roomPlayerId (st ! i)) = Some (int i + 1)"
proof -
  let ?z = "zip (map worth_roomPlayerId st) (map (\<lambda>i. int i + 1) [0..<length st])"
  assume i: "i < length st"
  have "distinct (map fst (rev ?z))" using assms by (simp add: rev_map [symmetric])
  moreover have "(worth_roomPlayerId (st ! i), int i + 1) \<in> set (rev ?z)"
    using i by (force simp: set_zip)
  ultimately show "placementByRoomPlayerId st (worth_roomPlayerId (st ! i)) = Some (int i + 1)"
    unfolding placementByRoomPlayerId_def by (rule map_of_is_SomeI)
qed

text \<open>The placements of the results are the positions of the sorted standings.\<close>

lemma results_of_standings:
  assumes wf: "wf_state s"
  obtains rs st where "buildPlayerResults s ended = Inr rs" "calculateFinalResultStandings s = Inr st"
    "map result_roomPlayerId rs = playerIds s" "mset (map worth_roomPlayerId st) = mset (playerIds s)"
    "sorted (map (finalOrder (players s)) st)"
    "\<And>r. r \<in> set rs \<Longrightarrow> \<exists>i<length st. result_roomPlayerId r = worth_roomPlayerId (st ! i) \<and>
       placement r = int i + 1 \<and> finalNetWorth r = netWorth (st ! i)"
proof (rule final_standings [OF wf])
  fix ws
  assume st: "calculateFinalResultStandings s = Inr (sort_key (finalOrder (players s)) ws)" (is "_ = Inr ?st")
    and ids: "map worth_roomPlayerId ws = playerIds s"
  have perm: "mset (map worth_roomPlayerId ?st) = mset (playerIds s)" by (metis ids mset_map mset_sort)
  have dist: "distinct (map worth_roomPlayerId ?st)"
    using perm playersOk_distinct [OF wf_stateD(3) [OF wf]] by (metis mset_eq_imp_distinct_iff playerIds_def)
  have place: "\<exists>i<length ?st. roomPlayerId p = worth_roomPlayerId (?st ! i) \<and>
      placementByRoomPlayerId ?st (roomPlayerId p) = Some (int i + 1) \<and>
      findBy worth_roomPlayerId (roomPlayerId p) ?st = Some (?st ! i)" if "p \<in> set (players s)" for p
  proof -
    have "roomPlayerId p \<in> set (map worth_roomPlayerId ?st)"
      using that perm by (metis image_eqI list.set_map playerIds_def set_mset_mset)
    then obtain i where i: "i < length ?st" "roomPlayerId p = worth_roomPlayerId (?st ! i)"
      by (metis in_set_conv_nth length_map nth_map)
    then show ?thesis
      using placement_index [OF dist i(1)] findBy_Some_iff [OF dist] nth_mem [OF i(1)] by auto
  qed
  let ?rs = "map (\<lambda>player.
       \<lparr>result_roomId = roomId s, result_roomPlayerId = roomPlayerId player, result_userId = userId player,
        result_seatNumber = seatNumber player, startingCash = DEFAULT_STARTING_CASH, finalCash = cash player,
        finalNetWorth = (case findBy worth_roomPlayerId (roomPlayerId player) ?st of
                           None \<Rightarrow> cash player | Some w \<Rightarrow> netWorth w),
        placement = (case placementByRoomPlayerId ?st (roomPlayerId player) of
                       None \<Rightarrow> int (length (players s)) | Some n \<Rightarrow> n),
        bankruptAt = (if bankrupt player then Some ended else None)\<rparr>) (players s)"
  show thesis
  proof (rule that [of ?rs ?st])
    show "buildPlayerResults s ended = Inr ?rs" by (simp add: buildPlayerResults_def st)
    show "map result_roomPlayerId ?rs = playerIds s" by (simp add: playerIds_def)
    show "sorted (map (finalOrder (players s)) ?st)" by simp
    show "\<exists>i<length ?st. result_roomPlayerId r = worth_roomPlayerId (?st ! i) \<and>
       placement r = int i + 1 \<and> finalNetWorth r = netWorth (?st ! i)" if r: "r \<in> set ?rs" for r
      using r place by fastforce
  qed (use st perm in simp_all)
qed

text \<open>
  C12. The final results list every player of a game once; the placements are the numbers from one up,
  each given once, and a player who ends with more is placed before one who ends with less.
\<close>

theorem placements_are_a_ranking:
  assumes "wf_state s"
  shows "\<exists>rs. buildPlayerResults s ended = Inr rs \<and> map result_roomPlayerId rs = playerIds s \<and>
     mset (map placement rs) = mset (map int [1..<length (players s) + 1]) \<and>
     (\<forall>r\<in>set rs. \<forall>r'\<in>set rs. finalNetWorth r' < finalNetWorth r \<longrightarrow> placement r < placement r')"
proof (rule results_of_standings [OF assms, of ended])
  fix rs st
  assume rs: "buildPlayerResults s ended = Inr rs" "map result_roomPlayerId rs = playerIds s"
    and perm: "mset (map worth_roomPlayerId st) = mset (playerIds s)"
    and sorted: "sorted (map (finalOrder (players s)) st)"
    and place: "\<And>r. r \<in> set rs \<Longrightarrow> \<exists>i<length st. result_roomPlayerId r = worth_roomPlayerId (st ! i) \<and>
       placement r = int i + 1 \<and> finalNetWorth r = netWorth (st ! i)"
  have dist: "distinct (playerIds s)" using playersOk_distinct [OF wf_stateD(3) [OF assms]] by (simp add: playerIds_def)
  have len: "length st = length (players s)" "length rs = length (players s)"
    using arg_cong [OF perm, of size] arg_cong [OF rs(2), of length] by (simp_all add: playerIds_def)
  have "distinct rs" "inj_on result_roomPlayerId (set rs)"
    using dist rs(2) distinct_map by metis+
  have inj: "inj_on placement (set rs)"
  proof (rule inj_onI)
    fix r r'
    assume "r \<in> set rs" "r' \<in> set rs" "placement r = placement r'"
    then have "result_roomPlayerId r = result_roomPlayerId r'" using place [of r] place [of r'] by auto
    then show "r = r'" using \<open>inj_on result_roomPlayerId (set rs)\<close> \<open>r \<in> set rs\<close> \<open>r' \<in> set rs\<close> by (auto dest: inj_onD)
  qed
  then have "distinct (map placement rs)" using \<open>distinct rs\<close> by (simp add: distinct_map)
  moreover have "set (map placement rs) \<subseteq> set (map int [1..<length (players s) + 1])"
    using place len by (force simp: image_iff)
  moreover have "card (set (map placement rs)) = card (set (map int [1..<length (players s) + 1]))"
    using distinct_card [OF \<open>distinct (map placement rs)\<close>] len
      distinct_card [of "map int [1..<length (players s) + 1]"] by (simp only: length_map length_upt distinct_map) simp
  ultimately have "mset (map placement rs) = mset (map int [1..<length (players s) + 1])"
    by (metis List.finite_set card_subset_eq distinct_map distinct_upt inj_of_nat inj_on_subset set_eq_iff_mset_eq_distinct subset_UNIV)
  moreover have "placement r < placement r'" if r: "r \<in> set rs" "r' \<in> set rs" "finalNetWorth r' < finalNetWorth r" for r r'
  proof -
    obtain i j where ij: "i < length st" "j < length st" "placement r = int i + 1" "placement r' = int j + 1"
      "finalNetWorth r = netWorth (st ! i)" "finalNetWorth r' = netWorth (st ! j)"
      using place [OF r(1)] place [OF r(2)] by auto
    have "\<not> j \<le> i"
    proof
      assume "j \<le> i"
      then have "finalOrder (players s) (st ! j) \<le> finalOrder (players s) (st ! i)"
        using sorted_nth_mono [OF sorted, of j i] ij by simp
      then show False using r(3) ij by (simp add: finalOrder_def)
    qed
    then show ?thesis using ij by simp
  qed
  ultimately show ?thesis using rs by blast
qed

theorem placements_are_a_ranking_witness:
  "\<exists>rs. buildPlayerResults freshGame 7 = Inr rs \<and> mset (map placement rs) = {#1, 2#}"
  using placements_are_a_ranking [OF freshGame_ok(1), of 7]
  by (auto simp: freshGame_def sampleGame_def sampleState_def numeral_2_eq_2)

section \<open>The winner\<close>

text \<open>A bankrupt player keeps no cash.\<close>

definition bankruptBroke :: "GameEngineState \<Rightarrow> bool" where
  "bankruptBroke s \<longleftrightarrow> list_all (\<lambda>p. bankrupt p \<longrightarrow> cash p = 0) (players s)"

lemma mortgage_le_price: "t \<in> set classicTiles \<Longrightarrow> ownableKind (kind t) \<Longrightarrow> mortgageValue t \<le> price t"
proof -
  have "list_all (\<lambda>t. ownableKind (kind t) \<longrightarrow> mortgageValue t \<le> price t) classicTiles" by code_simp
  then show "t \<in> set classicTiles \<Longrightarrow> ownableKind (kind t) \<Longrightarrow> mortgageValue t \<le> price t" by (simp add: list_all_iff)
qed

lemma asset_nonneg:
  assumes "getAssetTileByKey CLASSIC_GAME_BOARD k = Inr tile"
  shows "0 \<le> calculateAssetNetWorth tile q"
proof -
  have tile: "findTile CLASSIC_GAME_BOARD k = Some tile" "ownableKind (kind tile)"
    using assms by (auto simp: getAssetTileByKey_def isRentableTile_iff split: option.splits if_splits)
  show ?thesis
    using price_nonneg [OF tile] estate_amounts [OF tile(1)] mortgage_le_price [of tile] findTile_SomeD [OF tile(1)] tile(2)
    by (auto simp: calculateAssetNetWorth_def Let_def intro: add_increasing2)
qed

lemma netWorth_values:
  assumes wf: "wf_state s" and p: "p \<in> set (players s)" and w: "calculatePlayerNetWorth s CLASSIC_GAME_BOARD p = Inr w"
  shows "worth_seatNumber w = seatNumber p" "0 \<le> ownedPropertyCount w" "worth_cash w \<le> netWorth w"
    "bankrupt p \<Longrightarrow> ownedPropertyCount w = 0 \<and> netWorth w = cash p"
proof -
  from w obtain qs a where qs: "getOwnedProperties s (roomPlayerId p) = Inr qs"
    and a: "foldM (\<lambda>total prop. andThen (getAssetTileByKey CLASSIC_GAME_BOARD (tileKey prop)) (\<lambda>tile.
                Inr (total + calculateAssetNetWorth tile prop))) 0 qs = Inr a"
    and w: "worth_seatNumber w = seatNumber p" "worth_cash w = cash p" "ownedPropertyCount w = int (length qs)"
      "netWorth w = cash p + a"
    by (auto simp: calculatePlayerNetWorth_def)
  have "0 \<le> a"
    by (rule foldM_invariant [OF a]) (use asset_nonneg in fastforce)+
  with w show "worth_seatNumber w = seatNumber p" "0 \<le> ownedPropertyCount w" "worth_cash w \<le> netWorth w" by auto
  assume b: "bankrupt p"
  have "roomPlayerId p \<notin> activeIds (players s)"
    using b p findPlayer_unique [of s p] playersOk_distinct [OF wf_stateD(3) [OF wf]]
    by (auto simp: activeIds_iff playerIds_def)
  moreover have "roomPlayerId p \<noteq> []"
    using p wf_stateD(3) [OF wf] by (auto simp: playersOk_def list_all_iff playerOk_def)
  ultimately have "ownerRoomPlayerId q \<noteq> Some (roomPlayerId p)" if "q \<in> set (properties s)" for q
    using that wf_stateD(4) [OF wf] by (fastforce simp: propertiesOk_def list_all_iff propertyOk_def)
  then have "filter (\<lambda>q. ownerRoomPlayerId q = Some (roomPlayerId p)) (properties s) = []" by (simp add: filter_empty_conv)
  then have "qs = []" using qs by (auto simp: getOwnedProperties_def split: option.splits)
  then show "ownedPropertyCount w = 0 \<and> netWorth w = cash p" using w a by simp
qed

lemma mapM_nth:
  "mapM f xs = Inr ys \<Longrightarrow> length ys = length xs \<and> (\<forall>i<length xs. f (xs ! i) = Inr (ys ! i))"
proof (induction xs arbitrary: ys)
  case (Cons x xs)
  then obtain y zs where "ys = y # zs" "f x = Inr y" "mapM f xs = Inr zs" by auto
  with Cons.IH show ?case by (auto simp: nth_Cons split: nat.splits)
qed simp

lemma mapM_in_set: "mapM f xs = Inr ys \<Longrightarrow> y \<in> set ys \<longleftrightarrow> (\<exists>x\<in>set xs. f x = Inr y)"
  by (induction xs arbitrary: ys) auto

lemma standings_head:
  assumes "xs \<noteq> []"
  shows "sort_key f xs ! 0 \<in> set xs" "u \<in> set xs \<Longrightarrow> f (sort_key f xs ! 0) \<le> f u"
proof -
  have len: "0 < length (sort_key f xs)" using assms by simp
  show "sort_key f xs ! 0 \<in> set xs" using nth_mem [OF len] by simp
  assume "u \<in> set xs"
  then obtain i where "i < length (sort_key f xs)" "sort_key f xs ! i = u" by (metis in_set_conv_nth set_sort)
  then show "f (sort_key f xs ! 0) \<le> f u" using sorted_nth_mono [of "map f (sort_key f xs)" 0 i] len by simp
qed

text \<open>A player in the game who leads the others in it also leads the bankrupt players.\<close>

lemma leader_leads_all:
  assumes wf: "wf_state s" and seats: "distinct (map seatNumber (players s))" and broke: "bankruptBroke s"
    and p: "p \<in> set (players s)" "\<not> bankrupt p" "calculatePlayerNetWorth s CLASSIC_GAME_BOARD p = Inr v"
    and q: "q \<in> set (players s)" "calculatePlayerNetWorth s CLASSIC_GAME_BOARD q = Inr u"
    and leads: "\<not> bankrupt q \<Longrightarrow> standingOrder v \<le> standingOrder u"
  shows "finalOrder (players s) v < finalOrder (players s) u \<or> u = v"
proof -
  have found: "findBy roomPlayerId (roomPlayerId r) (players s) = Some r" if "r \<in> set (players s)" for r
    using that playersOk_distinct [OF wf_stateD(3) [OF wf]] findPlayer_unique [of s r] by (simp add: playerIds_def)
  have qid: "worth_roomPlayerId u = roomPlayerId q" "worth_cash u = cash q" using netWorth_player [OF q(2)] by auto
  have order: "finalOrder (players s) v = (- netWorth v, - worth_cash v, - ownedPropertyCount v, False, seatNumber p)"
    "finalOrder (players s) u = (- netWorth u, - worth_cash u, - ownedPropertyCount u, bankrupt q, seatNumber q)"
    using found [OF p(1)] found [OF q(1)] p(2) netWorth_player [OF p(3)] qid
      netWorth_values(1) [OF wf p(1,3)] netWorth_values(1) [OF wf q]
    by (simp_all add: finalOrder_def)
  show ?thesis
  proof (cases "bankrupt q")
    case True
    then have "worth_cash u = 0" "netWorth u = 0" "ownedPropertyCount u = 0"
      using netWorth_values(4) [OF wf q] broke q(1) qid by (auto simp: bankruptBroke_def list_all_iff)
    moreover have "0 \<le> cash p" using wf_stateD(3) [OF wf] p(1) by (auto simp: playersOk_def list_all_iff playerOk_def)
    ultimately show ?thesis
      using netWorth_values(2,3) [OF wf p(1,3)] netWorth_player [OF p(3)] True
      by (auto simp: order less_prod_def)
  next
    case False
    have "q = p" if "seatNumber q = seatNumber p" using that seats p(1) q(1) by (meson distinct_map inj_onD)
    moreover have "q = p \<Longrightarrow> u = v" using q(2) p(3) by simp
    moreover have "seatNumber p < seatNumber q \<or> seatNumber q < seatNumber p \<or> seatNumber q = seatNumber p" by auto
    ultimately show ?thesis
      using leads [OF False] False netWorth_values(1) [OF wf p(1,3)] netWorth_values(1) [OF wf q]
      by (auto simp: order standingOrder_def)
  qed
qed

lemma first_result:
  assumes wf: "wf_state s" and st: "calculateFinalResultStandings s = Inr st" "st \<noteq> []"
    and p: "p \<in> set (players s)" "\<not> bankrupt p" "worth_roomPlayerId (st ! 0) = roomPlayerId p"
  shows "\<exists>rs. buildPlayerResults s ended = Inr rs \<and>
     (\<exists>r\<in>set rs. result_roomPlayerId r = roomPlayerId p \<and> placement r = 1 \<and> bankruptAt r = None)"
proof (rule results_of_standings [OF wf, of ended])
  fix rs st'
  assume rs: "buildPlayerResults s ended = Inr rs" "map result_roomPlayerId rs = playerIds s"
    and st': "calculateFinalResultStandings s = Inr st'" "mset (map worth_roomPlayerId st') = mset (playerIds s)"
    and place: "\<And>r. r \<in> set rs \<Longrightarrow> \<exists>i<length st'. result_roomPlayerId r = worth_roomPlayerId (st' ! i) \<and>
       placement r = int i + 1 \<and> finalNetWorth r = netWorth (st' ! i)"
  note dist = playersOk_distinct [OF wf_stateD(3) [OF wf]]
  have same: "st' = st" using st(1) st'(1) by simp
  have ids: "distinct (map worth_roomPlayerId st)"
    using st'(2) dist by (metis mset_eq_imp_distinct_iff playerIds_def same)
  have "roomPlayerId p \<in> set (map result_roomPlayerId rs)" using p(1) rs(2) by (auto simp: playerIds_def)
  then obtain r where r: "r \<in> set rs" "result_roomPlayerId r = roomPlayerId p" by auto
  obtain i where i: "i < length st" "worth_roomPlayerId (st ! i) = roomPlayerId p" "placement r = int i + 1"
    using place [OF r(1)] r(2) by (auto simp: same)
  have "i = 0" using i p(3) st(2) ids nth_eq_iff_index_eq [of "map worth_roomPlayerId st" i 0] by simp
  moreover have "bankruptAt r = None"
  proof -
    obtain q where q: "q \<in> set (players s)" "result_roomPlayerId r = roomPlayerId q"
      "bankruptAt r = (if bankrupt q then Some ended else None)"
      using rs(1) r(1) by (auto simp: buildPlayerResults_def)
    moreover have "q = p" using dist p(1) q(1,2) r(2) by (auto simp: distinct_map dest: inj_onD)
    ultimately show ?thesis using p(2) by simp
  qed
  ultimately show ?thesis using rs(1) r i by auto
qed

text \<open>
  Where nobody shares a seat and the bankrupt players hold no cash, the winner by net worth among the
  players still in the game is the one placed first in the final results, which also list the
  bankrupt players.
\<close>

theorem winner_is_placed_first:
  assumes wf: "wf_state s" and seats: "distinct (map seatNumber (players s))" and broke: "bankruptBroke s"
    and winner: "netWorthWinnerId s = Inr (Some w)"
  shows "\<exists>rs. buildPlayerResults s ended = Inr rs \<and>
     (\<exists>r\<in>set rs. result_roomPlayerId r = w \<and> placement r = 1 \<and> bankruptAt r = None)"
proof -
  obtain ws where ws: "mapM (calculatePlayerNetWorth s CLASSIC_GAME_BOARD) (players s) = Inr ws"
    "calculateFinalResultStandings s = Inr (sort_key (finalOrder (players s)) ws)" (is "_ = Inr ?st")
    using final_standings [OF wf] by metis
  from winner obtain us where us: "mapM (calculatePlayerNetWorth s CLASSIC_GAME_BOARD) (getActivePlayers s) = Inr us"
    and "us \<noteq> []" and w: "worth_roomPlayerId (sort_key standingOrder us ! 0) = w"
    by (auto simp: netWorthWinnerId_def calculateNetWorthStandings_def getNetWorthWinner_def jsNth_def split: if_splits)
  define v where "v = sort_key standingOrder us ! 0"
  have v: "v \<in> set us" "worth_roomPlayerId v = w" "\<forall>u\<in>set us. standingOrder v \<le> standingOrder u"
    using standings_head [OF \<open>us \<noteq> []\<close>, where f = standingOrder] w by (auto simp: v_def)
  obtain p where p: "p \<in> set (players s)" "\<not> bankrupt p" "calculatePlayerNetWorth s CLASSIC_GAME_BOARD p = Inr v"
    "roomPlayerId p = w"
    using mapM_in_set [OF us] v netWorth_player by (auto simp: getActivePlayers_def)
  have best: "finalOrder (players s) v < finalOrder (players s) u \<or> u = v" if u: "u \<in> set ws" for u
  proof -
    obtain q where q: "q \<in> set (players s)" "calculatePlayerNetWorth s CLASSIC_GAME_BOARD q = Inr u"
      using mapM_in_set [OF ws(1)] u by blast
    have "standingOrder v \<le> standingOrder u" if "\<not> bankrupt q"
      using that q v(3) mapM_in_set [OF us] by (auto simp: getActivePlayers_def)
    then show ?thesis using leader_leads_all [OF wf seats broke p(1-3) q] by blast
  qed
  have vws: "v \<in> set ws" using mapM_in_set [OF ws(1)] p(1,3) by blast
  then have "ws \<noteq> []" by auto
  have "?st ! 0 \<in> set ws" "finalOrder (players s) (?st ! 0) \<le> finalOrder (players s) v"
    using standings_head [OF \<open>ws \<noteq> []\<close>] vws by auto
  then have "?st ! 0 = v" using best [of "?st ! 0"] by auto
  then show ?thesis using first_result [OF wf ws(2) _ p(1,2), of ended] p(4) v(2) \<open>ws \<noteq> []\<close> by simp
qed

definition oneBroke :: GameEngineState where
  "oneBroke = sampleGame [(samplePlayer ''a'' 1 0)\<lparr>bankrupt := True\<rparr>, samplePlayer ''b'' 2 700, samplePlayer ''c'' 3 900]\<lparr>currentTurnRoomPlayerId := ''b''\<rparr>"

lemma oneBroke_ok:
  "wf_state oneBroke" "distinct (map seatNumber (players oneBroke))" "bankruptBroke oneBroke"
  "netWorthWinnerId oneBroke = Inr (Some ''c'')"
  by code_simp+

theorem winner_is_placed_first_witness:
  "\<exists>rs. buildPlayerResults oneBroke 5 = Inr rs \<and> (\<exists>r\<in>set rs. result_roomPlayerId r = ''c'' \<and> placement r = 1)"
  using winner_is_placed_first [OF oneBroke_ok, of 5] by blast

section \<open>Bounds on ratings\<close>

text \<open>
  The bounds hold for the rounded arithmetic. The growth of the rounding error over at most eight
  opponents stays far below the half point that \<^verbatim>\<open>Math.round\<close> allows.
\<close>

definition drift :: rat where "drift = 1 + 8 * unitRoundoff"

lemma drift_facts: "1 \<le> drift" "(1 + unitRoundoff) * (1 + unitRoundoff) \<le> drift"
  "(1 + 4 * unitRoundoff) * (1 + unitRoundoff) \<le> drift" "drift ^ 8 * drift \<le> 101 / 100"
proof -
  show "1 \<le> drift" "(1 + unitRoundoff) * (1 + unitRoundoff) \<le> drift"
    "(1 + 4 * unitRoundoff) * (1 + unitRoundoff) \<le> drift"
    by (simp_all add: drift_def unitRoundoff_def)
  have d: "0 \<le> drift" "drift \<le> 1001 / 1000" by (simp_all add: drift_def unitRoundoff_def)
  then have "drift ^ 8 * drift \<le> (1001 / 1000) ^ 8 * (1001 / 1000)" by (intro mult_mono power_mono) simp_all
  also have "\<dots> \<le> 101 / 100" by (simp add: power_divide)
  finally show "drift ^ 8 * drift \<le> 101 / 100" .
qed

lemma expectedScore_bounds:
  assumes "\<And>x. 0 \<le> pow10 x"
  shows "0 \<le> getExpectedScore pow10 a b" "getExpectedScore pow10 a b \<le> 1 + 4 * unitRoundoff"
proof -
  let ?d = "1 + pow10 (fdiv (of_int (b - a)) 400)"
  have d: "1 \<le> ?d" using assms by simp
  have "1 - unitRoundoff \<le> ?d * (1 - unitRoundoff)"
    using mult_right_mono [OF d, of "1 - unitRoundoff"] by (simp add: unitRoundoff_def)
  also have "\<dots> \<le> fl ?d" by (rule fl_bounds(1)) (use d in simp)
  finally have low: "1 - unitRoundoff \<le> fl ?d" .
  have pos: "0 < fl ?d" using low by (simp add: unitRoundoff_def)
  have "1 / fl ?d \<le> 1 / (1 - unitRoundoff)"
    by (rule frac_le [OF _ _ _ low]) (simp_all add: unitRoundoff_def)
  with pos have inv: "0 \<le> 1 / fl ?d" "1 / fl ?d \<le> 1 / (1 - unitRoundoff)" by simp_all
  show "0 \<le> getExpectedScore pow10 a b"
    using fl_bounds(3) [OF inv(1)] by (simp add: getExpectedScore_def fdiv_def fadd_def)
  have "fl (1 / fl ?d) \<le> 1 / fl ?d * (1 + unitRoundoff)" by (rule fl_bounds(2) [OF inv(1)])
  also have "\<dots> \<le> 1 / (1 - unitRoundoff) * (1 + unitRoundoff)"
    using inv(2) by (intro mult_right_mono) (simp_all add: unitRoundoff_def)
  also have "\<dots> \<le> 1 + 4 * unitRoundoff" by (simp add: unitRoundoff_def)
  finally show "getExpectedScore pow10 a b \<le> 1 + 4 * unitRoundoff"
    by (simp add: getExpectedScore_def fdiv_def fadd_def)
qed

lemma fl_upper: "x \<le> y \<Longrightarrow> 0 \<le> y \<Longrightarrow> fl x \<le> y * (1 + unitRoundoff)"
proof (cases "0 \<le> x")
  case True
  assume "x \<le> y"
  have "fl x \<le> x * (1 + unitRoundoff)" by (rule fl_bounds(2) [OF True])
  also have "\<dots> \<le> y * (1 + unitRoundoff)" using \<open>x \<le> y\<close> by (intro mult_right_mono) (simp_all add: unitRoundoff_def)
  finally show ?thesis .
next
  case False
  assume "0 \<le> y"
  have "fl x \<le> 0" using fl_bounds(3) [of "- x"] False by simp
  also have "0 \<le> y * (1 + unitRoundoff)" using \<open>0 \<le> y\<close> by (simp add: unitRoundoff_def)
  finally show ?thesis .
qed

lemma fl_lower: "- y \<le> x \<Longrightarrow> 0 \<le> y \<Longrightarrow> - (y * (1 + unitRoundoff)) \<le> fl x"
  using fl_upper [of "- x" y] by simp

text \<open>One step of the sum over the opponents, from both sides.\<close>

lemma delta_step:
  assumes t: "- L \<le> t" "t \<le> U" "0 \<le> L" "0 \<le> U" and a: "0 \<le> a" "a \<le> A" and e: "0 \<le> e" "e \<le> E"
  shows "- ((L * (1 + unitRoundoff) + E) * (1 + unitRoundoff)) \<le> fsub (fadd t a) e"
    "fsub (fadd t a) e \<le> (U + A) * (1 + unitRoundoff) * (1 + unitRoundoff)"
proof -
  have u: "0 \<le> unitRoundoff" by (simp add: unitRoundoff_def)
  have "- (L * (1 + unitRoundoff)) \<le> fl (t + a)" "fl (t + a) \<le> (U + A) * (1 + unitRoundoff)"
    using assms by (auto intro!: fl_lower fl_upper)
  then have "- (L * (1 + unitRoundoff) + E) \<le> fl (t + a) - e" "fl (t + a) - e \<le> (U + A) * (1 + unitRoundoff)"
    using e by linarith+
  then show "- ((L * (1 + unitRoundoff) + E) * (1 + unitRoundoff)) \<le> fsub (fadd t a) e"
    "fsub (fadd t a) e \<le> (U + A) * (1 + unitRoundoff) * (1 + unitRoundoff)"
    using assms u unfolding fsub_def fadd_def
    by (auto intro!: fl_lower fl_upper add_nonneg_nonneg mult_nonneg_nonneg)
qed

lemma delta_bounds:
  assumes "\<And>x. 0 \<le> pow10 x"
  shows "\<bar>performanceDelta pow10 p os\<bar> \<le> of_nat (length os) * drift ^ length os"
proof (induction os rule: rev_induct)
  case (snoc q os)
  define B where "B = of_nat (length os) * drift ^ length os"
  define t where "t = performanceDelta pow10 p os"
  define a :: rat where "a = (if participant_placement p < participant_placement q then 1 else 0)"
  define e where "e = getExpectedScore pow10 (participant_rating p) (participant_rating q)"
  have B: "0 \<le> B" "- B \<le> t" "t \<le> B" using snoc drift_facts(1) by (auto simp: B_def t_def)
  have a: "0 \<le> a" "a \<le> 1" by (auto simp: a_def)
  have e: "0 \<le> e" "e \<le> 1 + 4 * unitRoundoff" unfolding e_def by (rule expectedScore_bounds [OF assms])+
  have new: "performanceDelta pow10 p (os @ [q]) = fsub (fadd t a) e"
    by (simp add: performanceDelta_def t_def a_def e_def)
  have pow: "drift \<le> drift ^ length (os @ [q])" using drift_facts(1) by (simp add: self_le_power)
  have sum: "B * drift + drift \<le> of_nat (length (os @ [q])) * drift ^ length (os @ [q])"
    using pow by (simp add: B_def algebra_simps)
  have sq: "x * (1 + unitRoundoff) * (1 + unitRoundoff) \<le> x * drift" if "0 \<le> x" for x
    using mult_left_mono [OF drift_facts(2) that] by (simp add: mult.assoc)
  have "(B * (1 + unitRoundoff) + (1 + 4 * unitRoundoff)) * (1 + unitRoundoff) \<le> B * drift + drift"
    using sq [OF B(1)] drift_facts(3) by (simp add: distrib_right)
  moreover have "(B + 1) * (1 + unitRoundoff) * (1 + unitRoundoff) \<le> B * drift + drift"
    using sq [of "B + 1"] B(1) by (simp add: distrib_right)
  ultimately show ?case
    using delta_step [OF B(2,3) B(1) B(1) a e] sum unfolding new by linarith
qed (simp add: performanceDelta_def)

lemma delta_first:
  assumes pow: "\<And>x. 0 \<le> pow10 x" and "length os \<le> 8" "\<forall>q\<in>set os. participant_placement p < participant_placement q"
  shows "- (of_nat (length os) * 6 * unitRoundoff) \<le> performanceDelta pow10 p os"
  using assms(2,3)
proof (induction os rule: rev_induct)
  case (snoc q os)
  define n where "n = (of_nat (length os) :: rat)"
  define t where "t = performanceDelta pow10 p os"
  define e where "e = getExpectedScore pow10 (participant_rating p) (participant_rating q)"
  have n: "0 \<le> n" "n \<le> 7" using snoc.prems(1) by (auto simp: n_def)
  have t: "- (n * 6 * unitRoundoff) \<le> t" using snoc by (auto simp: n_def t_def)
  have e: "e \<le> 1 + 4 * unitRoundoff" unfolding e_def by (rule expectedScore_bounds [OF pow])
  have new: "performanceDelta pow10 p (os @ [q]) = fsub (fadd t 1) e"
    using snoc.prems(2) by (simp add: performanceDelta_def t_def e_def)
  have small: "n * 6 * unitRoundoff \<le> 1 / 2" using n by (simp add: unitRoundoff_def)
  have "1 - n * 6 * unitRoundoff - unitRoundoff \<le> (1 - n * 6 * unitRoundoff) * (1 - unitRoundoff)"
    using n by (simp add: algebra_simps unitRoundoff_def)
  also have "\<dots> \<le> (t + 1) * (1 - unitRoundoff)"
    using t by (intro mult_right_mono) (simp_all add: unitRoundoff_def)
  also have "\<dots> \<le> fl (t + 1)" using t small by (intro fl_bounds(1)) linarith
  finally have "- ((n * 6 + 5) * unitRoundoff) \<le> fl (t + 1) - e" using e by (simp add: algebra_simps)
  then have "- ((n * 6 + 5) * unitRoundoff * (1 + unitRoundoff)) \<le> fsub (fadd t 1) e"
    unfolding fsub_def fadd_def using n by (intro fl_lower) (simp_all add: unitRoundoff_def)
  moreover have "(n * 6 + 5) * unitRoundoff * (1 + unitRoundoff) \<le> (n + 1) * 6 * unitRoundoff"
    using n by (simp add: unitRoundoff_def algebra_simps)
  moreover have "of_nat (length (os @ [q])) * 6 * unitRoundoff = (n + 1) * 6 * unitRoundoff"
    by (simp add: n_def algebra_simps)
  ultimately show ?case unfolding new by linarith
qed (simp add: performanceDelta_def)

lemma fl_nonpos: "x \<le> 0 \<Longrightarrow> fl x \<le> 0"
  using fl_bounds(3) [of "- x"] by simp

lemma delta_last:
  assumes pow: "\<And>x. 0 \<le> pow10 x" and "\<forall>q\<in>set os. \<not> participant_placement p < participant_placement q"
  shows "performanceDelta pow10 p os \<le> 0"
  using assms(2)
proof (induction os rule: rev_induct)
  case (snoc q os)
  define t where "t = performanceDelta pow10 p os"
  have "performanceDelta pow10 p (os @ [q]) =
      fsub (fadd t 0) (getExpectedScore pow10 (participant_rating p) (participant_rating q))"
    using snoc.prems by (simp add: performanceDelta_def t_def)
  moreover have "fl t \<le> 0" using snoc by (intro fl_nonpos) (simp add: t_def)
  ultimately show ?case
    using expectedScore_bounds(1) [of pow10 "participant_rating p" "participant_rating q"] pow
    by (simp add: fsub_def fadd_def fl_nonpos)
qed (simp add: performanceDelta_def)

lemma ratingDelta_range:
  assumes n: "0 < n" "n \<le> (8 :: nat)" and d: "\<bar>d\<bar> \<le> of_nat n * drift ^ n"
  shows "\<bar>mathRound (fmul (fdiv 32 (of_nat n)) d)\<bar> \<le> 32"
    and "- (of_nat n * 6 * unitRoundoff) \<le> d \<Longrightarrow> 0 \<le> mathRound (fmul (fdiv 32 (of_nat n)) d)"
    and "d \<le> 0 \<Longrightarrow> mathRound (fmul (fdiv 32 (of_nat n)) d) \<le> 0"
proof -
  define k where "k = fdiv 32 (of_nat n)"
  have k: "0 \<le> k" "k * of_nat n \<le> 32 * (1 + unitRoundoff)"
  proof -
    show "0 \<le> k" using fl_bounds(3) [of "32 / of_nat n"] by (simp add: k_def fdiv_def)
    have "k \<le> 32 / of_nat n * (1 + unitRoundoff)" using fl_bounds(2) [of "32 / of_nat n"] by (simp add: k_def fdiv_def)
    then show "k * of_nat n \<le> 32 * (1 + unitRoundoff)" using n by (simp add: field_simps)
  qed
  have pow: "drift ^ n \<le> drift ^ 8" using n drift_facts(1) by (intro power_increasing) auto
  have d0: "0 \<le> drift ^ n" using drift_facts(1) by simp
  have "\<bar>k * d\<bar> \<le> k * (of_nat n * drift ^ n)" using k(1) d by (simp add: abs_mult mult_left_mono)
  also have "\<dots> \<le> 32 * (1 + unitRoundoff) * drift ^ n"
    using mult_right_mono [OF k(2) d0] by (simp add: mult.assoc)
  finally have kd: "\<bar>k * d\<bar> \<le> 32 * (1 + unitRoundoff) * drift ^ n" .
  have "\<bar>fl (k * d)\<bar> \<le> \<bar>k * d\<bar> * (1 + unitRoundoff)" by (rule fl_abs)
  also have "\<dots> \<le> 32 * (1 + unitRoundoff) * drift ^ n * (1 + unitRoundoff)"
    using kd by (intro mult_right_mono) (simp_all add: unitRoundoff_def)
  also have "\<dots> = 32 * (drift ^ n * ((1 + unitRoundoff) * (1 + unitRoundoff)))" by simp
  also have "\<dots> \<le> 32 * (drift ^ 8 * drift)"
    using pow drift_facts(1,2) by (intro mult_left_mono mult_mono) (simp_all add: unitRoundoff_def)
  also have "\<dots> \<le> 32 * (101 / 100)" using drift_facts(4) by (intro mult_left_mono) simp_all
  finally have "\<bar>fl (k * d)\<bar> < 65 / 2" by simp
  then have "- 32 \<le> \<lfloor>fl (k * d) + 1 / 2\<rfloor>" "\<lfloor>fl (k * d) + 1 / 2\<rfloor> < 33"
    by (auto simp: le_floor_iff floor_less_iff abs_less_iff)
  then show "\<bar>mathRound (fmul (fdiv 32 (of_nat n)) d)\<bar> \<le> 32"
    unfolding mathRound_def fmul_def k_def [symmetric] by linarith
  show "0 \<le> mathRound (fmul (fdiv 32 (of_nat n)) d)" if low: "- (of_nat n * 6 * unitRoundoff) \<le> d"
  proof -
    have "k * of_nat n * (6 * unitRoundoff) \<le> 32 * (1 + unitRoundoff) * (6 * unitRoundoff)"
      by (intro mult_right_mono k(2)) (simp add: unitRoundoff_def)
    also have "\<dots> \<le> 1 / 4" by (simp add: unitRoundoff_def)
    finally have "k * of_nat n * (6 * unitRoundoff) \<le> 1 / 4" .
    then have "- (1 / 4) \<le> k * d" using mult_left_mono [OF low k(1)] by (simp add: algebra_simps)
    then have "- (1 / 4 * (1 + unitRoundoff)) \<le> fl (k * d)" by (intro fl_lower) simp_all
    then have "0 \<le> fl (k * d) + 1 / 2" by (simp add: unitRoundoff_def)
    then show ?thesis by (simp add: mathRound_def fmul_def k_def [symmetric])
  qed
  show "mathRound (fmul (fdiv 32 (of_nat n)) d) \<le> 0" if "d \<le> 0"
  proof -
    have "fl (k * d) \<le> 0" using k(1) that by (intro fl_nonpos) (simp add: mult_nonneg_nonpos)
    then have "\<lfloor>fl (k * d) + 1 / 2\<rfloor> < 1" by (simp add: floor_less_iff)
    then show ?thesis by (simp add: mathRound_def fmul_def k_def [symmetric])
  qed
qed

lemma ratingChange_Inr:
  assumes "ratingChange pow10 k ps p = Inr c"
  obtains os where "os = filter (\<lambda>q. participant_userId q \<noteq> participant_userId p) ps" "os \<noteq> []"
    "change_userId c = participant_userId p" "ratingBefore c = participant_rating p"
    "ratingAfter c = max 300 (participant_rating p +
       mathRound (fmul (fdiv (of_int k) (of_nat (length os))) (performanceDelta pow10 p os)))"
    "ratingDelta c = ratingAfter c - ratingBefore c"
  using assms by (auto simp: ratingChange_def Let_def MIN_RATING_def)

text \<open>
  C13. For at most nine players with ratings of at least 300, a rated game moves no rating by more than 32
  points and none below 300; the player placed before all others never loses points and the player
  placed after all others never gains any. The arithmetic is that of rounded doubles.
\<close>

theorem ratings_stay_in_bounds:
  assumes pow: "\<And>x. 0 \<le> pow10 x" and size: "length ps \<le> 9" and start: "\<forall>p\<in>set ps. 300 \<le> participant_rating p"
    and changes: "calculateRatingChanges pow10 ps DEFAULT_K_FACTOR = Inr cs" and p: "i < length cs"
  shows "300 \<le> ratingAfter (cs ! i) \<and> \<bar>ratingDelta (cs ! i)\<bar> \<le> 32 \<and>
     ratingAfter (cs ! i) = participant_rating (ps ! i) + ratingDelta (cs ! i) \<and>
     ((\<forall>q\<in>set ps. participant_userId q \<noteq> participant_userId (ps ! i) \<longrightarrow>
        participant_placement (ps ! i) < participant_placement q) \<longrightarrow> 0 \<le> ratingDelta (cs ! i)) \<and>
     ((\<forall>q\<in>set ps. participant_userId q \<noteq> participant_userId (ps ! i) \<longrightarrow>
        participant_placement q < participant_placement (ps ! i)) \<longrightarrow> ratingDelta (cs ! i) \<le> 0)"
proof -
  have m: "mapM (ratingChange pow10 32 ps) ps = Inr cs"
    using changes p by (auto simp: calculateRatingChanges_def DEFAULT_K_FACTOR_def split: if_splits)
  have i: "i < length ps" "ratingChange pow10 32 ps (ps ! i) = Inr (cs ! i)" using mapM_nth [OF m] p by auto
  have r: "300 \<le> participant_rating (ps ! i)" using start nth_mem [OF i(1)] by blast
  from i(2) show ?thesis
  proof (rule ratingChange_Inr)
    fix os
    assume os: "os = filter (\<lambda>q. participant_userId q \<noteq> participant_userId (ps ! i)) ps" "os \<noteq> []"
      and c: "ratingBefore (cs ! i) = participant_rating (ps ! i)"
        "ratingAfter (cs ! i) = max 300 (participant_rating (ps ! i) +
           mathRound (fmul (fdiv (of_int 32) (of_nat (length os))) (performanceDelta pow10 (ps ! i) os)))"
        "ratingDelta (cs ! i) = ratingAfter (cs ! i) - ratingBefore (cs ! i)"
    define d where "d = mathRound (fmul (fdiv 32 (of_nat (length os))) (performanceDelta pow10 (ps ! i) os))"
    have "length os < length ps"
      unfolding os(1) using i(1) nth_mem [OF i(1)] by (intro length_filter_less [of "ps ! i"]) auto
    then have n: "0 < length os" "length os \<le> 8" using os(2) size by auto
    note range = ratingDelta_range [OF n delta_bounds [of pow10 "ps ! i" os, OF pow], folded d_def]
    have "0 \<le> d" if "\<forall>q\<in>set ps. participant_userId q \<noteq> participant_userId (ps ! i) \<longrightarrow>
        participant_placement (ps ! i) < participant_placement q"
      using that by (intro range(2) delta_first [OF pow n(2)]) (simp add: os(1))
    moreover have "d \<le> 0" if "\<forall>q\<in>set ps. participant_userId q \<noteq> participant_userId (ps ! i) \<longrightarrow>
        participant_placement q < participant_placement (ps ! i)"
      using that by (intro range(3) delta_last [OF pow]) (force simp: os(1))
    ultimately show ?thesis using range(1) r c by (auto simp: d_def [symmetric] max_def)
  qed
qed

definition duel :: "RatingParticipant list" where
  "duel = [\<lparr>participant_userId = ''u'', participant_placement = 1, participant_rating = 500\<rparr>,
           \<lparr>participant_userId = ''v'', participant_placement = 2, participant_rating = 310\<rparr>]"

lemma duel_ok: "calculateRatingChanges (\<lambda>_. 1) duel DEFAULT_K_FACTOR =
  Inr [\<lparr>change_userId = ''u'', ratingBefore = 500, ratingAfter = 516, ratingDelta = 16\<rparr>,
       \<lparr>change_userId = ''v'', ratingBefore = 310, ratingAfter = 300, ratingDelta = -10\<rparr>]"
  by code_simp

theorem ratings_stay_in_bounds_witness:
  "\<exists>cs. calculateRatingChanges (\<lambda>_. 1) duel DEFAULT_K_FACTOR = Inr cs \<and> 300 \<le> ratingAfter (cs ! 1) \<and>
     \<bar>ratingDelta (cs ! 1)\<bar> \<le> 32"
  using ratings_stay_in_bounds [OF _ _ _ duel_ok, of 1] duel_ok by (fastforce simp: duel_def)

end
