(* ===== verification/Game_Stats.thy ===== *)
theory Game_Stats
  imports Game_Results
begin

text \<open>
  Statistics and the transaction that ends a game:
  \<^verbatim>\<open>src/src/game/stats/game-stats.service.ts\<close> and \<^verbatim>\<open>game-stats.repository.ts\<close>,
  \<^verbatim>\<open>finalizeFinishedGame\<close> of \<^verbatim>\<open>src/src/game/results/game-results.service.ts\<close> and
  \<^verbatim>\<open>saveFinishedGame\<close> of its repository. A conflict on a unique key is a row already in the map.
\<close>

section \<open>Statistics\<close>

definition newPlayerStats :: PlayerStatsForUpdate where
  "newPlayerStats =
     \<lparr>gamesPlayed = 0, firstPlace = 0, secondPlace = 0, thirdPlace = 0, fourthPlace = 0, avgPosition = 0,
      currentRating = DEFAULT_RATING, peakRating = DEFAULT_RATING, totalNetWorth = 0, totalRentCollected = 0,
      totalRentPaid = 0\<rparr>"

definition createMissingPlayerStats :: "string list \<Rightarrow> Tables \<Rightarrow> Tables" where
  "createMissingPlayerStats userIds t =
     t\<lparr>playerStats := (\<lambda>u. if u \<in> set userIds \<and> playerStats t u = None then Some newPlayerStats
                            else playerStats t u)\<rparr>"

definition lockPlayerStats :: "string list \<Rightarrow> Tables \<Rightarrow> string \<rightharpoonup> PlayerStatsForUpdate" where
  "lockPlayerStats userIds t = (\<lambda>u. if u \<in> set userIds then playerStats t u else None)"

definition shouldRateGame :: "GameEngineState \<Rightarrow> bool" where
  "shouldRateGame s \<longleftrightarrow>
     mode s = Ranked \<and> list_all (\<lambda>p. playerType p = Human \<and> userId p \<noteq> None) (players s)"

text \<open>\<^verbatim>\<open>x.toFixed(2)\<close>: the nearest hundredth of the exact value, the larger of two.\<close>

definition toFixed2 :: "rat \<Rightarrow> rat" where
  "toFixed2 x = of_int \<lfloor>x * 100 + 1 / 2\<rfloor> / 100"

definition buildUpdatedStats :: "PlayerStatsForUpdate \<Rightarrow> int \<Rightarrow> int \<Rightarrow> int \<Rightarrow> PlayerStatsForUpdate" where
  "buildUpdatedStats stats netWorth' place after =
     (let played = gamesPlayed stats + 1;
          average = fdiv (fadd (fmul (fl (avgPosition stats)) (of_int (gamesPlayed stats))) (of_int place))
                      (of_int played) in
      \<lparr>gamesPlayed = played, firstPlace = firstPlace stats + (if place = 1 then 1 else 0),
       secondPlace = secondPlace stats + (if place = 2 then 1 else 0),
       thirdPlace = thirdPlace stats + (if place = 3 then 1 else 0),
       fourthPlace = fourthPlace stats + (if place = 4 then 1 else 0),
       avgPosition = toFixed2 average, currentRating = after, peakRating = max (peakRating stats) after,
       totalNetWorth = totalNetWorth stats + netWorth', totalRentCollected = totalRentCollected stats,
       totalRentPaid = totalRentPaid stats\<rparr>)"

definition missingStats :: GameEngineError where
  "missingStats = JsError ''Player stats row missing after initialization''"

definition ratingParticipant ::
  "(string \<rightharpoonup> PlayerStatsForUpdate) \<Rightarrow> string \<times> SaveRoomPlayerResultInput \<Rightarrow> GameEngineError + RatingParticipant" where
  "ratingParticipant stats ur =
     andThen (ofOption missingStats (stats (fst ur))) (\<lambda>st.
     Inr \<lparr>participant_userId = fst ur, participant_placement = placement (snd ur),
          participant_rating = currentRating st\<rparr>)"

definition unratedChange ::
  "(string \<rightharpoonup> PlayerStatsForUpdate) \<Rightarrow> string \<times> SaveRoomPlayerResultInput \<Rightarrow> GameEngineError + RatingChange" where
  "unratedChange stats ur =
     andThen (ofOption missingStats (stats (fst ur))) (\<lambda>st.
     Inr \<lparr>change_userId = fst ur, ratingBefore = currentRating st, ratingAfter = currentRating st, ratingDelta = 0\<rparr>)"

text \<open>\<^verbatim>\<open>recordRatingChange\<close> and, when it inserted a row, \<^verbatim>\<open>updatePlayerStats\<close>.\<close>

definition applyUserResult ::
  "string \<Rightarrow> (string \<rightharpoonup> PlayerStatsForUpdate) \<Rightarrow> (string \<rightharpoonup> RatingChange) \<Rightarrow> string \<times> SaveRoomPlayerResultInput \<Rightarrow>
   Tables \<Rightarrow> Tables" where
  "applyUserResult room stats changes ur t =
     (case (stats (fst ur), changes (fst ur)) of
        (Some st, Some ch) \<Rightarrow>
          if ratingHistory t (room, fst ur) \<noteq> None then t
          else t\<lparr>ratingHistory := (ratingHistory t)((room, fst ur) \<mapsto>
                   \<lparr>history_ratingBefore = ratingBefore ch, history_ratingAfter = ratingAfter ch,
                    history_ratingDelta = ratingDelta ch, history_placement = placement (snd ur)\<rparr>),
                 playerStats := (playerStats t)(fst ur \<mapsto>
                   buildUpdatedStats st (finalNetWorth (snd ur)) (placement (snd ur)) (ratingAfter ch))\<rparr>
      | _ \<Rightarrow> t)"

definition userResults :: "SaveRoomPlayerResultInput list \<Rightarrow> (string \<times> SaveRoomPlayerResultInput) list" where
  "userResults rs = map (\<lambda>r. (the (result_userId r), r)) (filter (\<lambda>r. result_userId r \<noteq> None) rs)"

definition applyFinishedGameStats ::
  "(rat \<Rightarrow> rat) \<Rightarrow> string \<Rightarrow> GameEngineState \<Rightarrow> SaveRoomPlayerResultInput list \<Rightarrow> Tables \<Rightarrow> GameEngineError + Tables" where
  "applyFinishedGameStats pow10 room s rs t =
     (let urs = userResults rs; userIds = map fst urs in
      if urs = [] then Inr t
      else
        let created = createMissingPlayerStats userIds t;
            stats = lockPlayerStats userIds created in
        andThen (if shouldRateGame s
                 then andThen (mapM (ratingParticipant stats) urs) (\<lambda>ps.
                      calculateRatingChanges pow10 ps DEFAULT_K_FACTOR)
                 else mapM (unratedChange stats) urs) (\<lambda>ratingChanges.
        let changes = map_of (rev (map (\<lambda>c. (change_userId c, c)) ratingChanges)) in
        Inr (foldl (\<lambda>u ur. applyUserResult room stats changes ur u) created urs)))"

section \<open>Saving a finished game\<close>

definition findWinnerUserId :: "Tables \<Rightarrow> string \<Rightarrow> string option \<Rightarrow> string option" where
  "findWinnerUserId t room w =
     (if \<not> truthy w then None
      else case filter (\<lambda>p. rp_roomId p = room \<and> rp_id p = the w) (roomPlayers t) of
        [] \<Rightarrow> None
      | p # _ \<Rightarrow> rp_userId p)"

definition saveFinishedGame :: "SaveGameResultsInput \<Rightarrow> Tables \<Rightarrow> Tables" where
  "saveFinishedGame input t =
     (let s = save_state input;
          t1 = t\<lparr>games := updateBy game_id (save_gameId input) (\<lambda>g. g\<lparr>game_status := ''finished'',
                 game_currentTurnRoomPlayerId := Some (currentTurnRoomPlayerId s), game_turnNumber := turnNumber s,
                 game_state := s, game_finishedAt := Some (save_completedAt input)\<rparr>) (games t)\<rparr>;
          t2 = t1\<lparr>rooms := updateBy room_id (save_roomId input) (\<lambda>r. r\<lparr>room_status := ''finished'',
                 room_endedAt := Some (save_completedAt input)\<rparr>) (rooms t1)\<rparr>;
          winnerUserId = findWinnerUserId t2 (save_roomId input) (save_winnerRoomPlayerId input);
          room = (case roomResults t2 (save_gameId input) of
                    Some row \<Rightarrow> rr_roomId row | None \<Rightarrow> save_roomId input);
          t3 = t2\<lparr>roomResults := (roomResults t2)(save_gameId input \<mapsto>
                 \<lparr>rr_roomId = room, rr_winnerRoomPlayerId = save_winnerRoomPlayerId input,
                  rr_winnerUserId = winnerUserId, rr_endReason = save_endReason input,
                  rr_durationSeconds = save_durationSeconds input,
                  rr_completedAt = save_completedAt input\<rparr>)\<rparr> in
      foldl (\<lambda>u r. u\<lparr>roomPlayerResults := (roomPlayerResults u)((result_roomId r, result_roomPlayerId r) \<mapsto> r)\<rparr>)
        t3 (save_playerResults input))"

text \<open>The transaction. The final snapshot it also writes is added with the snapshots.\<close>

definition finalizeFinishedGame ::
  "(rat \<Rightarrow> rat) \<Rightarrow> int \<Rightarrow> string \<Rightarrow> GameEngineState \<Rightarrow> GameEngineEvent list \<Rightarrow> Tables \<Rightarrow> ServiceError + Tables" where
  "finalizeFinishedGame pow10 now gameId s evs t =
     (if phase s \<noteq> Finished then Inr t
      else if findBy game_id gameId (games t) = None then Inl (NotFoundException ''Game not found'')
      else
        let completedAt = getCompletedAt now evs; endReason = getEndReason evs;
            inner = andThen (getWinnerRoomPlayerId evs s) (\<lambda>winner.
                    andThen (buildPlayerResults s completedAt) (\<lambda>results.
                    applyFinishedGameStats pow10 (roomId s) s results
                      (saveFinishedGame
                         \<lparr>save_gameId = gameId, save_roomId = roomId s, save_state = s, save_endReason = endReason,
                          save_winnerRoomPlayerId = winner, save_completedAt = completedAt,
                          save_durationSeconds = getDurationSeconds s completedAt,
                          save_playerResults = results\<rparr> t))) in
        case inner of Inl e \<Rightarrow> Inl (Engine e) | Inr u \<Rightarrow> Inr u)"

definition finalizeExpiredFinishedGame ::
  "(rat \<Rightarrow> rat) \<Rightarrow> string \<Rightarrow> GameEngineState \<Rightarrow> int \<Rightarrow> Tables \<Rightarrow> ServiceError + Tables" where
  "finalizeExpiredFinishedGame pow10 gameId s finishedAt t =
     (if phase s \<noteq> Finished then Inr t
      else case calculateNetWorthStandings s of
        Inl e \<Rightarrow> Inl (Engine e)
      | Inr standings \<Rightarrow>
          finalizeFinishedGame pow10 finishedAt gameId s
            [Game_finished_by_time finishedAt (map_option worth_roomPlayerId (getNetWorthWinner standings))
               (map worth_roomPlayerId (getNetWorthWinners standings)) standings] t)"

definition finalizeAbandonedFinishedGame ::
  "(rat \<Rightarrow> rat) \<Rightarrow> string \<Rightarrow> GameEngineState \<Rightarrow> int \<Rightarrow> Tables \<Rightarrow> ServiceError + Tables" where
  "finalizeAbandonedFinishedGame pow10 gameId s finishedAt t =
     (if phase s \<noteq> Finished then Inr t
      else case calculateNetWorthStandings s of
        Inl e \<Rightarrow> Inl (Engine e)
      | Inr standings \<Rightarrow>
          finalizeFinishedGame pow10 finishedAt gameId s
            [Game_finished_after_last_human_left finishedAt
               (map_option worth_roomPlayerId (getNetWorthWinner standings))
               (map worth_roomPlayerId (getNetWorthWinners standings)) standings] t)"

section \<open>A result counts once\<close>

lemma applyUserResult_other:
  "u \<noteq> fst ur \<Longrightarrow> playerStats (applyUserResult room stats changes ur t) u = playerStats t u"
  "u \<noteq> fst ur \<Longrightarrow> ratingHistory (applyUserResult room stats changes ur t) (room, u) = ratingHistory t (room, u)"
  by (auto simp: applyUserResult_def split: option.splits)

lemma applyUserResults_other:
  "u \<notin> fst ` set urs \<Longrightarrow> playerStats (foldl (\<lambda>t ur. applyUserResult room stats changes ur t) t urs) u = playerStats t u"
  "u \<notin> fst ` set urs \<Longrightarrow>
     ratingHistory (foldl (\<lambda>t ur. applyUserResult room stats changes ur t) t urs) (room, u) = ratingHistory t (room, u)"
  by (induction urs arbitrary: t) (auto simp: applyUserResult_other)

lemma applyUserResults_known:
  assumes "\<forall>ur\<in>set urs. stats (fst ur) = None \<or> changes (fst ur) = None \<or> ratingHistory t (room, fst ur) \<noteq> None"
  shows "foldl (\<lambda>t ur. applyUserResult room stats changes ur t) t urs = t"
  using assms
proof (induction urs)
  case (Cons ur urs)
  then have "applyUserResult room stats changes ur t = t" by (auto simp: applyUserResult_def split: option.splits)
  then show ?case using Cons by simp
qed simp

lemma history_kept:
  "ratingHistory t k \<noteq> None \<Longrightarrow> ratingHistory (foldl (\<lambda>t ur. applyUserResult room stats changes ur t) t urs) k \<noteq> None"
  by (induction urs arbitrary: t) (auto simp: applyUserResult_def split: option.splits)

lemma history_written:
  assumes "ur \<in> set urs" "stats (fst ur) \<noteq> None" "changes (fst ur) \<noteq> None"
  shows "ratingHistory (foldl (\<lambda>t ur. applyUserResult room stats changes ur t) t urs) (room, fst ur) \<noteq> None"
  using assms
proof (induction urs arbitrary: t)
  case (Cons x urs)
  show ?case
  proof (cases "ur \<in> set urs")
    case False
    then have "ratingHistory (applyUserResult room stats changes ur t) (room, fst ur) \<noteq> None"
      using Cons.prems by (auto simp: applyUserResult_def)
    then show ?thesis using False Cons.prems(1) history_kept by auto
  qed (use Cons in auto)
qed simp

lemma mapM_dom: "mapM f xs = Inr ys \<Longrightarrow> (\<And>x y. f x = Inr y \<Longrightarrow> g y = h x) \<Longrightarrow> g ` set ys = h ` set xs"
  by (metis list.set_map mapM_map)

text \<open>Which users get a rating change does not depend on their statistics.\<close>

lemma changes_dom:
  assumes "mapM (ratingParticipant stats) urs = Inr ps" "calculateRatingChanges pow10 ps k = Inr cs"
  shows "change_userId ` set cs = (if length urs < 2 then {} else fst ` set urs)"
proof -
  have len: "length ps = length urs" using mapM_nth [OF assms(1)] by simp
  have ids: "participant_userId ` set ps = fst ` set urs"
    by (rule mapM_dom [OF assms(1)]) (auto simp: ratingParticipant_def)
  show ?thesis
  proof (cases "length ps < 2")
    case False
    then have m: "mapM (ratingChange pow10 k ps) ps = Inr cs" using assms(2) by (auto simp: calculateRatingChanges_def)
    have "change_userId ` set cs = participant_userId ` set ps"
      by (rule mapM_dom [OF m]) (auto elim: ratingChange_Inr)
    then show ?thesis using False ids len by simp
  qed (use assms(2) len in \<open>auto simp: calculateRatingChanges_def\<close>)
qed

lemma unrated_dom: "mapM (unratedChange stats) urs = Inr cs \<Longrightarrow> change_userId ` set cs = fst ` set urs"
  by (erule mapM_dom) (auto simp: unratedChange_def)

lemma map_of_rev_dom: "map_of (rev (map (\<lambda>c. (change_userId c, c)) cs)) u = None \<longleftrightarrow> u \<notin> change_userId ` set cs"
  by (force simp: map_of_eq_None_iff)

text \<open>What both ways of computing the changes have in common.\<close>

definition ratingChangesOf ::
  "(rat \<Rightarrow> rat) \<Rightarrow> bool \<Rightarrow> (string \<rightharpoonup> PlayerStatsForUpdate) \<Rightarrow> (string \<times> SaveRoomPlayerResultInput) list \<Rightarrow>
   GameEngineError + RatingChange list" where
  "ratingChangesOf pow10 rated stats urs =
     (if rated then andThen (mapM (ratingParticipant stats) urs) (\<lambda>ps. calculateRatingChanges pow10 ps DEFAULT_K_FACTOR)
      else mapM (unratedChange stats) urs)"

lemma ratingChangesOf_dom:
  assumes "ratingChangesOf pow10 rated stats urs = Inr cs"
  shows "change_userId ` set cs = (if rated \<and> length urs < 2 then {} else fst ` set urs)"
proof (cases rated)
  case True
  then obtain ps where "mapM (ratingParticipant stats) urs = Inr ps" "calculateRatingChanges pow10 ps DEFAULT_K_FACTOR = Inr cs"
    using assms by (auto simp: ratingChangesOf_def)
  then show ?thesis using True changes_dom by simp
qed (use assms unrated_dom in \<open>simp add: ratingChangesOf_def\<close>)

lemma mapM_total: "(\<And>x. x \<in> set xs \<Longrightarrow> \<exists>y. f x = Inr y) \<Longrightarrow> \<exists>ys. mapM f xs = Inr ys"
proof (induction xs)
  case (Cons x xs)
  then show ?case by (metis andThen_simps(2) list.set_intros mapM.simps(2))
qed simp

lemma ratingChanges_again:
  assumes old: "mapM (ratingParticipant stats) urs = Inr ps" "calculateRatingChanges pow10 ps k = Inr cs"
    and new: "mapM (ratingParticipant stats') urs = Inr ps'"
  shows "\<exists>cs'. calculateRatingChanges pow10 ps' k = Inr cs'"
proof -
  let ?key = "\<lambda>p. (participant_userId p, participant_placement p)"
  have "map ?key ps = map (\<lambda>ur. (fst ur, placement (snd ur))) urs"
    by (rule mapM_map [OF old(1)]) (auto simp: ratingParticipant_def)
  moreover have "map ?key ps' = map (\<lambda>ur. (fst ur, placement (snd ur))) urs"
    by (rule mapM_map [OF new]) (auto simp: ratingParticipant_def)
  ultimately have keys: "map ?key ps' = map ?key ps" by simp
  have uids: "map participant_userId ps' = map participant_userId ps" using arg_cong [OF keys, of "map fst"] by (simp add: o_def)
  have ids: "participant_userId ` set ps' = participant_userId ` set ps"
    "map participant_placement ps' = map participant_placement ps" "length ps' = length ps"
    using arg_cong [OF uids, of set] arg_cong [OF keys, of "map snd"] arg_cong [OF keys, of length]
    by (simp_all add: o_def)
  show ?thesis
  proof (cases "length ps < 2")
    case False
    then have m: "mapM (ratingChange pow10 k ps) ps = Inr cs" and u: "assertUniquePlacements ps = Inr ()"
      using old(2) by (auto simp: calculateRatingChanges_def)
    have "\<exists>c. ratingChange pow10 k ps' p' = Inr c" if "p' \<in> set ps'" for p'
    proof -
      have "participant_userId p' \<in> participant_userId ` set ps" using that ids(1) by blast
      then obtain p where p: "p \<in> set ps" "participant_userId p = participant_userId p'" by auto
      then obtain c where "ratingChange pow10 k ps p = Inr c"
        using mapM_nth [OF m] by (metis in_set_conv_nth)
      then obtain q where "q \<in> set ps" "participant_userId q \<noteq> participant_userId p"
        by (rule ratingChange_Inr) (auto simp: filter_empty_conv)
      then have "participant_userId q \<in> participant_userId ` set ps'" "participant_userId q \<noteq> participant_userId p'"
        using p(2) ids(1) by auto
      then obtain q' where "q' \<in> set ps'" "participant_userId q' \<noteq> participant_userId p'" by auto
      then show ?thesis by (auto simp: ratingChange_def Let_def filter_empty_conv)
    qed
    then obtain cs' where "mapM (ratingChange pow10 k ps') ps' = Inr cs'" using mapM_total by blast
    then show ?thesis using False ids u by (auto simp: calculateRatingChanges_def assertUniquePlacements_def)
  qed (simp add: ids calculateRatingChanges_def)
qed

lemma applyFinishedGameStats_Inr:
  assumes "applyFinishedGameStats pow10 room s rs t = Inr t1" "userResults rs \<noteq> []"
  obtains cs where
    "ratingChangesOf pow10 (shouldRateGame s) (lockPlayerStats (map fst (userResults rs))
       (createMissingPlayerStats (map fst (userResults rs)) t)) (userResults rs) = Inr cs"
    "t1 = foldl (\<lambda>u ur. applyUserResult room (lockPlayerStats (map fst (userResults rs))
       (createMissingPlayerStats (map fst (userResults rs)) t)) (map_of (rev (map (\<lambda>c. (change_userId c, c)) cs))) ur u)
       (createMissingPlayerStats (map fst (userResults rs)) t) (userResults rs)"
  using assms by (auto simp: applyFinishedGameStats_def Let_def ratingChangesOf_def split: if_splits)

lemma stats_kept:
  "playerStats t u \<noteq> None \<Longrightarrow> playerStats (foldl (\<lambda>t ur. applyUserResult room stats changes ur t) t urs) u \<noteq> None"
  by (induction urs arbitrary: t) (auto simp: applyUserResult_def split: option.splits)

text \<open>
  C14. Finalising a game twice counts it once: applying the statistics of a finished game again to the tables it
  left succeeds and changes nothing, neither ratings nor counters nor history.
\<close>

theorem results_count_once:
  assumes first: "applyFinishedGameStats pow10 room s rs t = Inr t1"
  shows "applyFinishedGameStats pow10 room s rs t1 = Inr t1"
proof (cases "userResults rs = []")
  case False
  define urs where "urs = userResults rs"
  define ids where "ids = map fst urs"
  define created where "created = createMissingPlayerStats ids t"
  define stats where "stats = lockPlayerStats ids created"
  from first obtain cs where cs: "ratingChangesOf pow10 (shouldRateGame s) stats urs = Inr cs"
    and t1: "t1 = foldl (\<lambda>u ur. applyUserResult room stats (map_of (rev (map (\<lambda>c. (change_userId c, c)) cs))) ur u) created urs"
    by (rule applyFinishedGameStats_Inr [OF _ False]) (simp add: urs_def ids_def created_def stats_def)
  have has: "playerStats created u \<noteq> None" "stats u \<noteq> None" if "u \<in> set ids" for u
    using that by (auto simp: created_def createMissingPlayerStats_def stats_def lockPlayerStats_def)
  have has1: "playerStats t1 u \<noteq> None" if "u \<in> set ids" for u
    unfolding t1 by (rule stats_kept [OF has(1) [OF that]])
  have again: "createMissingPlayerStats ids t1 = t1"
    using has1 by (cases t1) (auto simp: createMissingPlayerStats_def fun_eq_iff)
  let ?stats = "lockPlayerStats ids t1"
  have some: "?stats (fst ur) \<noteq> None" if "ur \<in> set urs" for ur
    using that has1 by (auto simp: lockPlayerStats_def ids_def)
  have "\<exists>cs'. ratingChangesOf pow10 (shouldRateGame s) ?stats urs = Inr cs'"
  proof (cases "shouldRateGame s")
    case True
    have "\<exists>ps'. mapM (ratingParticipant ?stats) urs = Inr ps'"
      using some by (intro mapM_total) (fastforce simp: ratingParticipant_def)
    then show ?thesis using True cs ratingChanges_again by (fastforce simp: ratingChangesOf_def)
  next
    case False
    have "\<exists>cs'. mapM (unratedChange ?stats) urs = Inr cs'"
      using some by (intro mapM_total) (fastforce simp: unratedChange_def)
    then show ?thesis using False by (simp add: ratingChangesOf_def)
  qed
  then obtain cs' where cs': "ratingChangesOf pow10 (shouldRateGame s) ?stats urs = Inr cs'" ..
  have "ratingHistory t1 (room, fst ur) \<noteq> None"
    if ur: "ur \<in> set urs" and "map_of (rev (map (\<lambda>c. (change_userId c, c)) cs')) (fst ur) \<noteq> None" for ur
  proof -
    have "fst ur \<in> change_userId ` set cs"
      using that ratingChangesOf_dom [OF cs] ratingChangesOf_dom [OF cs'] by (simp add: map_of_rev_dom)
    then have "map_of (rev (map (\<lambda>c. (change_userId c, c)) cs)) (fst ur) \<noteq> None" by (simp add: map_of_rev_dom)
    then show ?thesis unfolding t1 using ur has(2) [of "fst ur"] by (intro history_written) (auto simp: ids_def)
  qed
  then have "foldl (\<lambda>u ur. applyUserResult room ?stats (map_of (rev (map (\<lambda>c. (change_userId c, c)) cs'))) ur u) t1 urs = t1"
    by (intro applyUserResults_known) blast
  then show ?thesis
    using False cs' again
    by (simp add: applyFinishedGameStats_def Let_def urs_def [symmetric] ids_def [symmetric] ratingChangesOf_def)
qed (use first in \<open>simp add: applyFinishedGameStats_def\<close>)

definition emptyTables :: Tables where
  "emptyTables = \<lparr>games = [], rooms = [], roomPlayers = [], roomSpectators = [], roomResults = Map.empty,
     roomPlayerResults = Map.empty, playerStats = Map.empty, ratingHistory = Map.empty\<rparr>"

definition sampleResult :: SaveRoomPlayerResultInput where
  "sampleResult = \<lparr>result_roomId = ''r'', result_roomPlayerId = ''a'', result_userId = Some ''u'', result_seatNumber = 1,
     startingCash = 1500, finalCash = 900, finalNetWorth = 1200, placement = 1, bankruptAt = None\<rparr>"

theorem results_count_once_witness:
  "\<exists>t1. applyFinishedGameStats (\<lambda>_. 1) ''r'' freshGame [sampleResult] emptyTables = Inr t1 \<and>
     applyFinishedGameStats (\<lambda>_. 1) ''r'' freshGame [sampleResult] t1 = Inr t1"
proof -
  have "shouldRateGame freshGame = False" by code_simp
  then have "\<exists>t1. applyFinishedGameStats (\<lambda>_. 1) ''r'' freshGame [sampleResult] emptyTables = Inr t1"
    by (simp add: applyFinishedGameStats_def userResults_def sampleResult_def unratedChange_def lockPlayerStats_def
        createMissingPlayerStats_def emptyTables_def Let_def)
  then show ?thesis using results_count_once by blast
qed

end
