(* ===== verification/Game_Store.thy ===== *)
theory Game_Store
  imports Game_Stats
begin

text \<open>
  The live state of a game in Redis: \<^verbatim>\<open>src/src/game/state/game-state.service.ts\<close>. Reading, writing and
  the optimistic update with its compare-and-set script, first as one client runs it, then with any number
  of clients interleaved step by step. \<open>JSON.stringify\<close> and \<open>JSON.parse\<close> enter as a codec whose only law is
  that a state survives the round trip and that its text is not the empty string.
\<close>

section \<open>Texts\<close>

record 't Codec =
  stringify :: "GameEngineState \<Rightarrow> 't"
  jsonParse :: "'t \<Rightarrow> GameEngineState option"
  emptyText :: 't

definition codecOk :: "'t Codec \<Rightarrow> bool" where
  "codecOk C \<longleftrightarrow> (\<forall>s. jsonParse C (stringify C s) = Some s \<and> stringify C s \<noteq> emptyText C)"

lemma codecD [simp]:
  assumes "codecOk C"
  shows "jsonParse C (stringify C s) = Some s" "stringify C s \<noteq> emptyText C"
    "stringify C s = stringify C t \<longleftrightarrow> s = t"
proof -
  show parse: "jsonParse C (stringify C s) = Some s" for s using assms by (simp add: codecOk_def)
  show "stringify C s \<noteq> emptyText C" using assms by (simp add: codecOk_def)
  show "stringify C s = stringify C t \<longleftrightarrow> s = t" by (metis option.inject parse)
qed

text \<open>The codec of the examples: a text is a state or the empty text.\<close>

definition plainCodec :: "GameEngineState option Codec" where
  "plainCodec = \<lparr>stringify = Some, jsonParse = id, emptyText = None\<rparr>"

lemma plainCodec_ok [simp]: "codecOk plainCodec"
  by (simp add: codecOk_def plainCodec_def)

section \<open>The state service\<close>

type_synonym 't keyspace = "string \<rightharpoonup> 't"

definition stateKey :: "string \<Rightarrow> string" where
  "stateKey gameId = ''game:'' @ gameId @ '':state''"

definition stateNotFound :: ServiceError where
  "stateNotFound = NotFoundException ''Game state not found''"

definition gameBusy :: ServiceError where
  "gameBusy = ConflictException ''Game is processing another action''"

definition stateCorrupted :: ServiceError where
  "stateCorrupted = InternalServerErrorException ''Game state is corrupted''"

lemma store_errors_distinct [simp]:
  "stateNotFound \<noteq> gameBusy" "gameBusy \<noteq> stateNotFound" "stateCorrupted \<noteq> gameBusy" "gameBusy \<noteq> stateCorrupted"
  "stateNotFound \<noteq> stateCorrupted" "stateCorrupted \<noteq> stateNotFound"
  "Engine e \<noteq> gameBusy" "gameBusy \<noteq> Engine e" "Engine e \<noteq> stateNotFound" "stateNotFound \<noteq> Engine e"
  by (simp_all add: stateNotFound_def gameBusy_def stateCorrupted_def)

definition updateMaxAttempts :: nat where "updateMaxAttempts = 5"

definition parseState :: "'t Codec \<Rightarrow> 't \<Rightarrow> ServiceError + GameEngineState" where
  "parseState C value = ofOption stateCorrupted (jsonParse C value)"

text \<open>A missing key and the empty string are both falsy.\<close>

definition readText :: "'t Codec \<Rightarrow> string \<Rightarrow> 't keyspace \<Rightarrow> ServiceError + 't" where
  "readText C key store =
     (case store key of
        None \<Rightarrow> Inl stateNotFound
      | Some raw \<Rightarrow> if raw = emptyText C then Inl stateNotFound else Inr raw)"

definition state_get :: "'t Codec \<Rightarrow> string \<Rightarrow> 't keyspace \<Rightarrow> ServiceError + GameEngineState" where
  "state_get C gameId store = andThen (readText C (stateKey gameId) store) (parseState C)"

definition state_set :: "'t Codec \<Rightarrow> string \<Rightarrow> GameEngineState \<Rightarrow> 't keyspace \<Rightarrow> 't keyspace" where
  "state_set C gameId s store = store(stateKey gameId \<mapsto> stringify C s)"

definition state_delete :: "string \<Rightarrow> 't keyspace \<Rightarrow> 't keyspace" where
  "state_delete gameId store = store(stateKey gameId := None)"

text \<open>The Lua script, which Redis runs atomically: \<open>-1\<close> missing, \<open>0\<close> changed meanwhile, \<open>1\<close> written.\<close>

definition compareAndSetState :: "string \<Rightarrow> 't \<Rightarrow> 't \<Rightarrow> 't keyspace \<Rightarrow> 't keyspace \<times> int" where
  "compareAndSetState key raw new store =
     (case store key of
        None \<Rightarrow> (store, -1)
      | Some current \<Rightarrow> if current \<noteq> raw then (store, 0) else (store(key \<mapsto> new), 1))"

text \<open>
  \<^verbatim>\<open>update\<close> touches Redis twice per attempt, so it is a little state machine: before the read of
  attempt \<open>k\<close>; between the read and the script, with the text it read and what the callback made of it; done.
  The callback may read the clock, so it depends on the attempt.
\<close>

type_synonym updater = "nat \<Rightarrow> GameEngineState \<Rightarrow> GameEngineError + GameCommandResult"

datatype 't UpdateClient =
  Reading nat
| Comparing nat 't GameCommandResult
| Returned GameCommandResult
| Threw ServiceError

definition readStep :: "'t Codec \<Rightarrow> updater \<Rightarrow> string \<Rightarrow> nat \<Rightarrow> 't keyspace \<Rightarrow> 't UpdateClient" where
  "readStep C upd key attempt store =
     (if attempt > updateMaxAttempts then Threw gameBusy
      else case readText C key store of
        Inl e \<Rightarrow> Threw e
      | Inr raw \<Rightarrow> (case parseState C raw of
          Inl e \<Rightarrow> Threw e
        | Inr s \<Rightarrow> (case upd attempt s of
            Inl e \<Rightarrow> Threw (Engine e)
          | Inr r \<Rightarrow> Comparing attempt raw r)))"

definition casStep ::
  "'t Codec \<Rightarrow> string \<Rightarrow> nat \<Rightarrow> 't \<Rightarrow> GameCommandResult \<Rightarrow> 't keyspace \<Rightarrow> 't keyspace \<times> 't UpdateClient" where
  "casStep C key attempt raw r store =
     (let (store', result) = compareAndSetState key raw (stringify C (result_state r)) store in
      (store', if result = 1 then Returned r
               else if result = -1 then Threw stateNotFound
               else Reading (attempt + 1)))"

fun updateStep ::
  "'t Codec \<Rightarrow> updater \<Rightarrow> string \<Rightarrow> 't keyspace \<Rightarrow> 't UpdateClient \<Rightarrow> 't keyspace \<times> 't UpdateClient" where
  "updateStep C upd key store (Reading attempt) = (store, readStep C upd key attempt store)"
| "updateStep C upd key store (Comparing attempt raw r) = casStep C key attempt raw r store"
| "updateStep C upd key store (Returned r) = (store, Returned r)"
| "updateStep C upd key store (Threw e) = (store, Threw e)"

fun finished :: "'t UpdateClient \<Rightarrow> bool" where
  "finished (Returned _) = True"
| "finished (Threw _) = True"
| "finished _ = False"

text \<open>How many steps a client can still make: two per attempt and one to give up.\<close>

fun stepsLeft :: "'t UpdateClient \<Rightarrow> nat" where
  "stepsLeft (Reading k) = 2 * (updateMaxAttempts + 1 - k) + 1"
| "stepsLeft (Comparing k _ _) = 2 * (updateMaxAttempts + 1 - k)"
| "stepsLeft _ = 0"

text \<open>A client on its own, run to the end.\<close>

function runClient ::
  "'t Codec \<Rightarrow> updater \<Rightarrow> string \<Rightarrow> 't keyspace \<Rightarrow> 't UpdateClient \<Rightarrow> 't keyspace \<times> 't UpdateClient" where
  "runClient C upd key store c =
     (if stepsLeft c = 0 then (store, c)
      else let (store', c') = updateStep C upd key store c in runClient C upd key store' c')"
  by pat_completeness auto

lemma stepsLeft_less: "0 < stepsLeft c \<Longrightarrow> stepsLeft (snd (updateStep C upd key store c)) < stepsLeft c"
  by (cases c) (auto simp: readStep_def casStep_def compareAndSetState_def split: sum.split option.split)

termination runClient
  by (relation "measure (\<lambda>(C, upd, key, store, c). stepsLeft c)")
    (auto simp: case_prod_beta dest: stepsLeft_less)

declare runClient.simps [simp del]

definition state_update ::
  "'t Codec \<Rightarrow> updater \<Rightarrow> string \<Rightarrow> 't keyspace \<Rightarrow> 't keyspace \<times> (ServiceError + GameCommandResult)" where
  "state_update C upd gameId store =
     (case runClient C upd (stateKey gameId) store (Reading 1) of
        (store', Returned r) \<Rightarrow> (store', Inr r)
      | (store', Threw e) \<Rightarrow> (store', Inl e)
      | (store', _) \<Rightarrow> (store', Inl gameBusy))"

section \<open>Many clients\<close>

text \<open>
  The world as Redis and the servers see it: the keyspace, one client per command in flight, and two ghost
  components that no code reads: the commits in the order in which Redis made them and how many steps each
  client has made. Between any two steps of a client the others may step, the key may expire or be deleted,
  and other keys may change.
\<close>

record 't World =
  keyspace :: "'t keyspace"
  clients :: "nat \<Rightarrow> 't UpdateClient"
  commits :: "(nat \<times> GameCommandResult) list"
  ownSteps :: "nat \<Rightarrow> nat"

definition newCommits :: "nat \<Rightarrow> 't UpdateClient \<Rightarrow> 't UpdateClient \<Rightarrow> (nat \<times> GameCommandResult) list" where
  "newCommits i before after =
     (case after of Returned r \<Rightarrow> if finished before then [] else [(i, r)] | _ \<Rightarrow> [])"

inductive store_step :: "'t Codec \<Rightarrow> (nat \<Rightarrow> updater) \<Rightarrow> string \<Rightarrow> 't World \<Rightarrow> 't World \<Rightarrow> bool"
  for C upds key where
  client: "\<not> finished (clients w i) \<Longrightarrow>
    updateStep C (upds i) key (keyspace w) (clients w i) = (store', c') \<Longrightarrow>
    store_step C upds key w
      (w\<lparr>keyspace := store', clients := (clients w)(i := c'),
         commits := commits w @ newCommits i (clients w i) c',
         ownSteps := (ownSteps w)(i := Suc (ownSteps w i))\<rparr>)"
| expire: "store_step C upds key w (w\<lparr>keyspace := (keyspace w)(key := None)\<rparr>)"
| other: "store' key = keyspace w key \<Longrightarrow> store_step C upds key w (w\<lparr>keyspace := store'\<rparr>)"

definition initialWorld :: "'t keyspace \<Rightarrow> 't World" where
  "initialWorld store = \<lparr>keyspace = store, clients = (\<lambda>_. Reading 1), commits = [], ownSteps = (\<lambda>_. 0)\<rparr>"

abbreviation store_steps :: "'t Codec \<Rightarrow> (nat \<Rightarrow> updater) \<Rightarrow> string \<Rightarrow> 't World \<Rightarrow> 't World \<Rightarrow> bool" where
  "store_steps C upds key \<equiv> (store_step C upds key)\<^sup>*\<^sup>*"

text \<open>
  The specification: commands run one after the other, each at most once, each on the state its predecessor left.
\<close>

inductive serial :: "(nat \<Rightarrow> updater) \<Rightarrow> GameEngineState \<Rightarrow> (nat \<times> GameCommandResult) list \<Rightarrow> GameEngineState \<Rightarrow> bool"
  for upds s0 where
  start: "serial upds s0 [] s0"
| commit: "serial upds s0 tr s \<Longrightarrow> i \<notin> fst ` set tr \<Longrightarrow> upds i k s = Inr r \<Longrightarrow> k \<le> updateMaxAttempts \<Longrightarrow>
    serial upds s0 (tr @ [(i, r)]) (result_state r)"

inductive_cases store_stepE: "store_step C upds key w w'"

lemma serial_distinct: "serial upds s0 tr s \<Longrightarrow> distinct (map fst tr)"
  by (induction rule: serial.induct) auto

text \<open>What holds of a client while the game is at state \<open>s\<close> after \<open>n\<close> commits.\<close>

fun clientOk :: "'t Codec \<Rightarrow> updater \<Rightarrow> 't option \<Rightarrow> nat \<Rightarrow> (nat \<times> GameCommandResult) list \<Rightarrow> nat \<Rightarrow> 't UpdateClient \<Rightarrow> bool" where
  "clientOk C upd stored i tr steps (Reading k) \<longleftrightarrow>
     0 < k \<and> k \<le> updateMaxAttempts + 1 \<and> k \<le> Suc (length tr) \<and> i \<notin> fst ` set tr \<and> steps = 2 * (k - 1)"
| "clientOk C upd stored i tr steps (Comparing k raw r) \<longleftrightarrow>
     0 < k \<and> k \<le> updateMaxAttempts \<and> k \<le> Suc (length tr) \<and> i \<notin> fst ` set tr \<and> steps = 2 * k - 1 \<and>
     (\<exists>s. jsonParse C raw = Some s \<and> upd k s = Inr r) \<and>
     (stored \<noteq> None \<and> stored \<noteq> Some raw \<longrightarrow> k \<le> length tr)"
| "clientOk C upd stored i tr steps (Returned r) \<longleftrightarrow> (i, r) \<in> set tr \<and> steps \<le> 2 * updateMaxAttempts + 1"
| "clientOk C upd stored i tr steps (Threw e) \<longleftrightarrow>
     i \<notin> fst ` set tr \<and> steps \<le> 2 * updateMaxAttempts + 1 \<and> (e = gameBusy \<longrightarrow> updateMaxAttempts \<le> length tr)"

definition worldOk :: "'t Codec \<Rightarrow> (nat \<Rightarrow> updater) \<Rightarrow> string \<Rightarrow> GameEngineState \<Rightarrow> 't World \<Rightarrow> bool" where
  "worldOk C upds key s0 w \<longleftrightarrow>
     (\<exists>s. serial upds s0 (commits w) s \<and> (keyspace w key = None \<or> keyspace w key = Some (stringify C s))) \<and>
     (\<forall>i. clientOk C (upds i) (keyspace w key) i (commits w) (ownSteps w i) (clients w i))"

lemma clientOk_commit:
  "clientOk C upd stored i tr n c \<Longrightarrow> i \<noteq> j \<Longrightarrow> clientOk C upd stored' i (tr @ [(j, r)]) n c"
  by (cases c) auto

lemma clientOk_expire: "clientOk C upd stored i tr n c \<Longrightarrow> clientOk C upd None i tr n c"
  by (cases c) auto

lemma readStep_ok:
  assumes "clientOk C upd (store key) i tr n (Reading k)"
  shows "clientOk C upd (store key) i tr (Suc n) (readStep C upd key k store)"
  using assms
  by (auto simp: readStep_def readText_def parseState_def split: sum.split option.split if_splits)

lemma worldOk_initial:
  "keyspace w key = Some (stringify C s0) \<Longrightarrow> w = initialWorld store \<Longrightarrow> worldOk C upds key s0 w"
  by (auto simp: worldOk_def initialWorld_def intro: serial.start)

lemma worldOk_step:
  assumes C: "codecOk C" and ok: "worldOk C upds key s0 w" and step: "store_step C upds key w w'"
  shows "worldOk C upds key s0 w'"
  using step
proof cases
  case (client i store' c')
  obtain s where s: "serial upds s0 (commits w) s" "keyspace w key = None \<or> keyspace w key = Some (stringify C s)"
    and cl: "\<And>j. clientOk C (upds j) (keyspace w key) j (commits w) (ownSteps w j) (clients w j)"
    using ok by (auto simp: worldOk_def)
  show ?thesis
  proof (cases "clients w i")
    case (Reading k)
    have "clientOk C (upds i) (keyspace w key) i (commits w) (Suc (ownSteps w i)) c'"
      using readStep_ok [of C "upds i" "keyspace w" key i "commits w" _ k] cl [of i] client Reading by auto
    moreover have "newCommits i (clients w i) c' = []" "store' = keyspace w"
      using client Reading by (auto simp: newCommits_def readStep_def split: sum.splits option.splits if_splits)
    ultimately show ?thesis using client(1) s cl by (auto simp: worldOk_def)
  next
    case (Comparing k raw r)
    note k = cl [of i, unfolded Comparing]
    have c': "(store', c') = casStep C key k raw r (keyspace w)" using client Comparing by simp
    show ?thesis
    proof (cases "keyspace w key = Some raw")
      case True
      have "raw = stringify C s" using True s by auto
      then have upd: "upds i k s = Inr r" using k C by auto
      have eq: "store' = (keyspace w)(key \<mapsto> stringify C (result_state r))" "c' = Returned r"
        using c' True by (simp_all add: casStep_def compareAndSetState_def)
      have "serial upds s0 (commits w @ [(i, r)]) (result_state r)"
        using s(1) k upd by (auto intro: serial.commit)
      moreover have "clientOk C (upds j) st j (commits w @ [(i, r)]) (ownSteps w j) (clients w j)" if "j \<noteq> i" for j st
        using clientOk_commit [OF cl that] .
      ultimately show ?thesis
        using client(1) Comparing eq k by (auto simp: worldOk_def newCommits_def)
    next
      case False
      then have "store' = keyspace w" "c' = (if keyspace w key = None then Threw stateNotFound else Reading (k + 1))"
        using c' by (auto simp: casStep_def compareAndSetState_def split: option.splits)
      then show ?thesis
        using client(1) Comparing s cl k False by (auto simp: worldOk_def newCommits_def)
    qed
  qed (use client in auto)
qed (use ok clientOk_expire in \<open>fastforce simp: worldOk_def\<close>)+

lemma worldOk_reachable:
  assumes "codecOk C" "store_steps C upds key (initialWorld store) w" "store key = Some (stringify C s0)"
  shows "worldOk C upds key s0 w"
  using assms(2)
proof (induction rule: rtranclp_induct)
  case base
  show ?case using assms(3) by (simp add: initialWorld_def worldOk_initial)
next
  case (step w w')
  then show ?case using worldOk_step assms(1) by blast
qed

text \<open>
  C15. Concurrent updates of a game refine the specification that runs the commands one after the other: however the
  clients interleave, expire and retry, the state in Redis is the one reached by the committed commands in the order of
  their commits, each applied once to the state its predecessor left; and a client returns a result exactly when
  that result is one of the commits. No update is lost and none is applied twice.
\<close>

theorem updates_are_serialised:
  assumes "codecOk C" "store (stateKey gameId) = Some (stringify C s0)"
    and "store_steps C upds (stateKey gameId) (initialWorld store) w"
  shows "(\<exists>s. serial upds s0 (commits w) s \<and>
      (keyspace w (stateKey gameId) = None \<or> keyspace w (stateKey gameId) = Some (stringify C s))) \<and>
    distinct (map fst (commits w)) \<and> (clients w i = Returned r \<longleftrightarrow> (i, r) \<in> set (commits w))"
proof (intro conjI)
  have ok: "worldOk C upds (stateKey gameId) s0 w" using worldOk_reachable assms by blast
  then show "\<exists>s. serial upds s0 (commits w) s \<and>
      (keyspace w (stateKey gameId) = None \<or> keyspace w (stateKey gameId) = Some (stringify C s))"
    by (auto simp: worldOk_def)
  then show distinct: "distinct (map fst (commits w))" using serial_distinct by blast
  have client: "clientOk C (upds i) (keyspace w (stateKey gameId)) i (commits w) (ownSteps w i) (clients w i)"
    using ok by (simp add: worldOk_def)
  show "clients w i = Returned r \<longleftrightarrow> (i, r) \<in> set (commits w)"
  proof
    assume r: "(i, r) \<in> set (commits w)"
    then have "i \<in> fst ` set (commits w)" by force
    then show "clients w i = Returned r"
      using client r distinct by (cases "clients w i") (auto dest: eq_key_imp_eq_value)
  qed (use client in simp)
qed

text \<open>
  No update hangs: a client that starts makes at most eleven steps of its own, whatever the others do, and has
  then returned or thrown. It gives up as busy only after at least five other commands got through.
\<close>

theorem updates_end:
  assumes "codecOk C" "store (stateKey gameId) = Some (stringify C s0)"
    and "store_steps C upds (stateKey gameId) (initialWorld store) w"
  shows "ownSteps w i \<le> 11 \<and> (ownSteps w i = 11 \<longrightarrow> finished (clients w i)) \<and>
    (clients w i = Threw gameBusy \<longrightarrow> i \<notin> fst ` set (commits w) \<and> 5 \<le> length (commits w))"
proof -
  have "worldOk C upds (stateKey gameId) s0 w" using worldOk_reachable assms by blast
  then have "clientOk C (upds i) (keyspace w (stateKey gameId)) i (commits w) (ownSteps w i) (clients w i)"
    by (simp add: worldOk_def)
  then show ?thesis by (cases "clients w i") (auto simp: updateMaxAttempts_def)
qed

text \<open>Two clients that both read before the first of them commits.\<close>

definition rollers :: "nat \<Rightarrow> updater" where
  "rollers i k = commandUpdate (tick 5) (command_rollAndMove ''g'' ''a'' [1, 2])"

definition liveStore :: "GameEngineState option keyspace" where
  "liveStore = [stateKey ''g'' \<mapsto> Some freshGame]"

lemma race:
  assumes "\<And>i k. upds i k s = Inr r" "store key = Some (Some s)"
  shows "\<exists>w. store_steps plainCodec upds key (initialWorld store) w \<and>
    clients w 0 = Returned r \<and> clients w 1 = Comparing 1 (Some s) r"
proof -
  have read: "updateStep plainCodec (upds i) key store (Reading 1) = (store, Comparing 1 (Some s) r)" for i
    using assms by (simp add: readStep_def readText_def parseState_def plainCodec_def updateMaxAttempts_def)
  have cas: "updateStep plainCodec (upds i) key store (Comparing 1 (Some s) r) =
      (store(key \<mapsto> Some (result_state r)), Returned r)" for i
    using assms by (simp add: casStep_def compareAndSetState_def plainCodec_def)
  let ?w0 = "initialWorld store"
  let ?w1 = "?w0\<lparr>clients := (clients ?w0)(0 := Comparing 1 (Some s) r), ownSteps := (ownSteps ?w0)(0 := 1)\<rparr>"
  let ?w2 = "?w1\<lparr>clients := (clients ?w1)(1 := Comparing 1 (Some s) r), ownSteps := (ownSteps ?w1)(1 := 1)\<rparr>"
  let ?w3 = "?w2\<lparr>keyspace := store(key \<mapsto> Some (result_state r)), clients := (clients ?w2)(0 := Returned r),
    commits := [(0, r)], ownSteps := (ownSteps ?w2)(0 := Suc 1)\<rparr>"
  have "store_step plainCodec upds key ?w0 ?w1" "store_step plainCodec upds key ?w1 ?w2"
    "store_step plainCodec upds key ?w2 ?w3"
    using store_step.client [of ?w0 0 plainCodec upds key] store_step.client [of ?w1 1 plainCodec upds key]
      store_step.client [of ?w2 0 plainCodec upds key] read cas
    by (simp_all add: initialWorld_def newCommits_def)
  then show ?thesis by (intro exI [of _ ?w3] conjI) (auto intro: rtranclp.intros simp: initialWorld_def)
qed

lemma roller_race:
  "\<exists>w r. store_steps plainCodec rollers (stateKey ''g'') (initialWorld liveStore) w \<and>
    clients w 0 = Returned r \<and> \<not> finished (clients w 1)"
proof -
  obtain r where "commandUpdate (tick 5) (command_rollAndMove ''g'' ''a'' [1, 2]) freshGame = Inr r"
    using freshGame_ok(9) by (metis isl_def obj_sumE)
  then obtain w where "store_steps plainCodec rollers (stateKey ''g'') (initialWorld liveStore) w"
    "clients w 0 = Returned r" "clients w 1 = Comparing 1 (Some freshGame) r"
    using race [of rollers freshGame r liveStore "stateKey ''g''"] by (auto simp: rollers_def liveStore_def)
  then show ?thesis by (intro exI [of _ w] exI [of _ r]) simp
qed

lemma liveStore_holds: "liveStore (stateKey ''g'') = Some (stringify plainCodec freshGame)"
  by (simp add: liveStore_def plainCodec_def)

theorem updates_are_serialised_witness:
  "\<exists>w r s. store_steps plainCodec rollers (stateKey ''g'') (initialWorld liveStore) w \<and>
     \<not> finished (clients w 1) \<and> (0, r) \<in> set (commits w) \<and> serial rollers freshGame (commits w) s"
proof -
  obtain w r where w: "store_steps plainCodec rollers (stateKey ''g'') (initialWorld liveStore) w"
    "clients w 0 = Returned r" "\<not> finished (clients w 1)" using roller_race by blast
  show ?thesis using updates_are_serialised [OF plainCodec_ok liveStore_holds w(1), of 0 r] w by blast
qed

theorem updates_end_witness:
  "\<exists>w. store_steps plainCodec rollers (stateKey ''g'') (initialWorld liveStore) w \<and> finished (clients w 0) \<and>
     ownSteps w 0 \<le> 11 \<and> ownSteps w 1 \<le> 11"
proof -
  obtain w r where w: "store_steps plainCodec rollers (stateKey ''g'') (initialWorld liveStore) w"
    "clients w 0 = Returned r" using roller_race by blast
  show ?thesis
    using updates_end [OF plainCodec_ok liveStore_holds w(1), of 0] updates_end [OF plainCodec_ok liveStore_holds w(1), of 1] w
    by (intro exI [of _ w]) auto
qed

section \<open>A client on its own\<close>

lemma state_update_alone:
  assumes "codecOk C" "store (stateKey gameId) = Some (stringify C s)"
  shows "state_update C upd gameId store =
    (case upd 1 s of
       Inl e \<Rightarrow> (store, Inl (Engine e))
     | Inr r \<Rightarrow> (state_set C gameId (result_state r) store, Inr r))"
  using assms
  by (simp add: state_update_def runClient.simps readStep_def readText_def parseState_def casStep_def
      compareAndSetState_def updateMaxAttempts_def state_set_def split: sum.split)

lemma state_update_missing:
  "store (stateKey gameId) = None \<Longrightarrow> state_update C upd gameId store = (store, Inl stateNotFound)"
  by (simp add: state_update_def runClient.simps readStep_def readText_def updateMaxAttempts_def)

lemma state_get_set [simp]: "codecOk C \<Longrightarrow> state_get C gameId (state_set C gameId s store) = Inr s"
  by (simp add: state_get_def state_set_def readText_def parseState_def)

end
