(* ===== verification/Game_Snapshots.thy ===== *)
theory Game_Snapshots
  imports Game_Store
begin

text \<open>
  Snapshots and recovery: \<^verbatim>\<open>src/src/game/snapshots/game-snapshots.service.ts\<close> with its repository and
  \<^verbatim>\<open>src/src/game/recovery/game-recovery.service.ts\<close>. The table is the list of its rows in the order of
  their insertion; the time a row is inserted is an argument.
\<close>

section \<open>The snapshot table\<close>

datatype GameSnapshotType = Snapshot_start | Snapshot_turn | Snapshot_final

record GameSnapshotRecord =
  snap_gameId :: string
  snap_roomId :: string
  snapshotType :: GameSnapshotType
  snap_turnNumber :: int
  snap_state :: GameEngineState
  stateVersion :: int
  snap_createdAt :: int

type_synonym SnapshotKey = "string \<times> GameSnapshotType \<times> int"

definition snapshotKey :: "GameSnapshotRecord \<Rightarrow> SnapshotKey" where
  "snapshotKey r = (snap_gameId r, snapshotType r, snap_turnNumber r)"

definition snapshot_create ::
  "int \<Rightarrow> string \<Rightarrow> string \<Rightarrow> GameSnapshotType \<Rightarrow> GameEngineState \<Rightarrow> GameSnapshotRecord list \<Rightarrow> GameSnapshotRecord list" where
  "snapshot_create now gameId room ty s rows =
     (let key = (gameId, ty, turnNumber s) in
      if key \<in> snapshotKey ` set rows
      then updateBy snapshotKey key (\<lambda>r. r\<lparr>snap_state := s, stateVersion := state_version s\<rparr>) rows
      else rows @ [\<lparr>snap_gameId = gameId, snap_roomId = room, snapshotType = ty, snap_turnNumber = turnNumber s,
                    snap_state = s, stateVersion = state_version s, snap_createdAt = now\<rparr>])"

text \<open>
  \<open>order by turn_number desc, created_at desc limit 1\<close>; among rows equal in both SQL may return any, the model
  the first inserted.
\<close>

definition snapshotOrder :: "GameSnapshotRecord \<Rightarrow> int \<times> int" where
  "snapshotOrder r = (snap_turnNumber r, snap_createdAt r)"

definition laterSnapshot :: "GameSnapshotRecord \<Rightarrow> GameSnapshotRecord \<Rightarrow> GameSnapshotRecord" where
  "laterSnapshot a b = (if snapshotOrder a < snapshotOrder b then b else a)"

definition findLatestByGameId :: "string \<Rightarrow> GameSnapshotRecord list \<Rightarrow> GameSnapshotRecord option" where
  "findLatestByGameId gameId rows =
     (case filter (\<lambda>r. snap_gameId r = gameId) rows of
        [] \<Rightarrow> None
      | r # rs \<Rightarrow> Some (foldl laterSnapshot r rs))"

section \<open>The snapshot service\<close>

definition everyNTurns :: int where "everyNTurns = 1"

definition createSnapshot ::
  "int \<Rightarrow> string \<Rightarrow> GameSnapshotType \<Rightarrow> GameEngineState \<Rightarrow> GameSnapshotRecord list \<Rightarrow> GameSnapshotRecord list" where
  "createSnapshot now gameId ty s rows = snapshot_create now gameId (roomId s) ty s rows"

definition createStartSnapshot ::
  "int \<Rightarrow> string \<Rightarrow> GameEngineState \<Rightarrow> GameSnapshotRecord list \<Rightarrow> GameSnapshotRecord list" where
  "createStartSnapshot now gameId s rows = createSnapshot now gameId Snapshot_start s rows"

definition createFinalSnapshot ::
  "int \<Rightarrow> string \<Rightarrow> GameEngineState \<Rightarrow> GameSnapshotRecord list \<Rightarrow> GameSnapshotRecord list" where
  "createFinalSnapshot now gameId s rows = createSnapshot now gameId Snapshot_final s rows"

definition createSnapshotAfterCommand ::
  "int \<Rightarrow> string \<Rightarrow> GameEngineState \<Rightarrow> GameSnapshotRecord list \<Rightarrow> GameSnapshotRecord list" where
  "createSnapshotAfterCommand now gameId s rows =
     (if phase s = Finished \<or> phase s = Cancelled then createFinalSnapshot now gameId s rows
      else if jsRem (turnNumber s) everyNTurns \<noteq> 0 then rows
      else createSnapshot now gameId Snapshot_turn s rows)"

definition restoreLatestSnapshot ::
  "'t Codec \<Rightarrow> string \<Rightarrow> GameSnapshotRecord list \<Rightarrow> 't keyspace \<Rightarrow> 't keyspace \<times> GameEngineState option" where
  "restoreLatestSnapshot C gameId rows store =
     (case findLatestByGameId gameId rows of
        None \<Rightarrow> (store, None)
      | Some r \<Rightarrow> (state_set C gameId (snap_state r) store, Some (snap_state r)))"

section \<open>Recovery\<close>

fun isNotFound :: "ServiceError \<Rightarrow> bool" where
  "isNotFound (NotFoundException _) = True"
| "isNotFound _ = False"

definition getOrRecover ::
  "'t Codec \<Rightarrow> string \<Rightarrow> GameSnapshotRecord list \<Rightarrow> 't keyspace \<Rightarrow> 't keyspace \<times> (ServiceError + GameEngineState)" where
  "getOrRecover C gameId rows store =
     (case state_get C gameId store of
        Inr s \<Rightarrow> (store, Inr s)
      | Inl e \<Rightarrow>
          if \<not> isNotFound e then (store, Inl e)
          else case restoreLatestSnapshot C gameId rows store of
            (store', None) \<Rightarrow> (store', Inl e)
          | (store', Some s) \<Rightarrow> (store', Inr s))"

definition recoverOrThrow ::
  "'t Codec \<Rightarrow> string \<Rightarrow> GameSnapshotRecord list \<Rightarrow> 't keyspace \<Rightarrow> 't keyspace \<times> (ServiceError + GameEngineState)" where
  "recoverOrThrow C gameId rows store =
     (case restoreLatestSnapshot C gameId rows store of
        (store', None) \<Rightarrow> (store', Inl stateNotFound)
      | (store', Some s) \<Rightarrow> (store', Inr s))"

section \<open>The latest snapshot is the last state saved\<close>

lemma jsRem_one [simp]: "jsRem n 1 = 0"
  by (simp add: jsRem_def)

lemma foldl_later:
  assumes "x \<in> set (r # rs)" "\<And>y. y \<in> set (r # rs) \<Longrightarrow> y \<noteq> x \<Longrightarrow> snapshotOrder y < snapshotOrder x"
  shows "foldl laterSnapshot r rs = x"
  using assms
proof (induction rs arbitrary: r)
  case (Cons a rs)
  have "foldl laterSnapshot (laterSnapshot r a) rs = x"
    using Cons.prems by (intro Cons.IH) (auto simp: laterSnapshot_def dest: order.asym split: if_splits)
  then show ?case by simp
qed simp

lemma findLatest_unique:
  assumes "x \<in> set rows" "snap_gameId x = gameId"
    and "\<And>y. y \<in> set rows \<Longrightarrow> snap_gameId y = gameId \<Longrightarrow> y \<noteq> x \<Longrightarrow> snapshotOrder y < snapshotOrder x"
  shows "findLatestByGameId gameId rows = Some x"
proof -
  have x: "x \<in> set (filter (\<lambda>r. snap_gameId r = gameId) rows)" using assms by simp
  then obtain r rs where eq: "filter (\<lambda>r. snap_gameId r = gameId) rows = r # rs"
    by (cases "filter (\<lambda>r. snap_gameId r = gameId) rows") auto
  have "foldl laterSnapshot r rs = x"
  proof (rule foldl_later)
    show "x \<in> set (r # rs)" using x unfolding eq .
    show "snapshotOrder y < snapshotOrder x" if "y \<in> set (r # rs)" "y \<noteq> x" for y
      using that assms(3) unfolding eq [symmetric] by simp
  qed
  then show ?thesis by (simp add: findLatestByGameId_def eq)
qed

text \<open>
  What the table looks like for a game whose last saved state is \<open>s\<close>: \<open>r\<close> is the newest row and holds \<open>s\<close>.
\<close>

definition newestIs :: "string \<Rightarrow> int \<Rightarrow> GameEngineState \<Rightarrow> GameSnapshotRecord list \<Rightarrow> GameSnapshotRecord \<Rightarrow> bool" where
  "newestIs gameId now s rows r \<longleftrightarrow>
     r \<in> set rows \<and> snap_gameId r = gameId \<and> snap_state r = s \<and> snap_turnNumber r = turnNumber s \<and>
     distinct (map snapshotKey rows) \<and>
     (\<forall>q\<in>set rows. snap_gameId q = gameId \<longrightarrow>
        snap_createdAt q \<le> now \<and> snap_turnNumber q \<le> turnNumber s \<and> (q \<noteq> r \<longrightarrow> snapshotOrder q < snapshotOrder r) \<and>
        (snapshotType q = Snapshot_final \<longrightarrow> terminal (phase s)) \<and>
        (snapshotType r = Snapshot_start \<longrightarrow> snapshotType q = Snapshot_start))"

lemma newestIs_latest: "newestIs gameId now s rows r \<Longrightarrow> findLatestByGameId gameId rows = Some r"
  by (rule findLatest_unique) (auto simp: newestIs_def)

lemma newestIs_append:
  assumes "distinct (map snapshotKey rows)" "snapshotKey n \<notin> snapshotKey ` set rows"
    and n: "snap_gameId n = gameId" "snap_state n = s" "snap_turnNumber n = turnNumber s" "snap_createdAt n = now"
      "snapshotType n = Snapshot_final \<longrightarrow> terminal (phase s)"
    and old: "\<And>q. q \<in> set rows \<Longrightarrow> snap_gameId q = gameId \<Longrightarrow>
      snap_createdAt q < now \<and> snap_turnNumber q \<le> turnNumber s \<and> (snapshotType q = Snapshot_final \<longrightarrow> terminal (phase s)) \<and>
      (snapshotType n = Snapshot_start \<longrightarrow> snapshotType q = Snapshot_start)"
  shows "newestIs gameId now s (rows @ [n]) n"
  using assms by (fastforce simp: newestIs_def snapshotOrder_def less_prod_def')

lemma newestIs_update:
  assumes new: "newestIs gameId now s rows r" and "now \<le> now'" "turnNumber s' = turnNumber s" "\<not> terminal (phase s)"
  shows "newestIs gameId now' s' (updateBy snapshotKey (snapshotKey r) (\<lambda>r. r\<lparr>snap_state := s', stateVersion := v\<rparr>) rows)
    (r\<lparr>snap_state := s', stateVersion := v\<rparr>)" (is "newestIs _ _ _ ?rows ?r")
proof -
  have keep: "snapshotKey (r\<lparr>snap_state := s', stateVersion := v\<rparr>) = snapshotKey r" for r
    by (simp add: snapshotKey_def)
  have keys: "map snapshotKey ?rows = map snapshotKey rows" by (simp add: keep)
  have in_rows: "r \<in> set rows" "distinct (map snapshotKey rows)" using new by (auto simp: newestIs_def)
  have "?r \<in> set ?rows" using in_rows(1) by (auto simp: set_updateBy)
  moreover have "q = ?r \<or> q \<in> set rows \<and> q \<noteq> r" if "q \<in> set ?rows" for q
    using that in_rows by (auto simp: set_updateBy inj_on_eq_iff distinct_map split: if_splits)
  moreover have "snapshotOrder ?r = snapshotOrder r" by (simp add: snapshotOrder_def)
  ultimately show ?thesis using assms unfolding newestIs_def keys by fastforce
qed

lemma terminal_iff: "terminal p \<longleftrightarrow> p = Finished \<or> p = Cancelled"
  by (cases p) (auto simp: terminal_def)

lemma snapshot_keeps_newest:
  assumes new: "newestIs gameId now s rows r" and later: "now < now'" "turnNumber s \<le> turnNumber s'"
    and "\<not> terminal (phase s)"
  shows "\<exists>r'. newestIs gameId now' s' (createSnapshotAfterCommand now' gameId s' rows) r'"
proof -
  define ty where "ty = (if terminal (phase s') then Snapshot_final else Snapshot_turn)"
  have save: "createSnapshotAfterCommand now' gameId s' rows = snapshot_create now' gameId (roomId s') ty s' rows"
    by (auto simp: createSnapshotAfterCommand_def createFinalSnapshot_def createSnapshot_def everyNTurns_def ty_def terminal_iff)
  show ?thesis
  proof (cases "(gameId, ty, turnNumber s') \<in> snapshotKey ` set rows")
    case True
    then obtain q where q: "q \<in> set rows" "snapshotKey q = (gameId, ty, turnNumber s')" by auto
    have r: "r \<in> set rows" "snap_gameId r = gameId" "snap_turnNumber r = turnNumber s" using new by (auto simp: newestIs_def)
    have kind: "snapshotType q = ty" "snap_gameId q = gameId" "snap_turnNumber q = turnNumber s'"
      using q(2) by (auto simp: snapshotKey_def)
    have not_final: "snapshotType x \<noteq> Snapshot_final" if "x \<in> set rows" "snap_gameId x = gameId" for x
      using new that assms(4) unfolding newestIs_def by blast
    have turn: "ty = Snapshot_turn" using not_final [OF q(1)] kind by (auto simp: ty_def)
    have same: "turnNumber s' = turnNumber s" using new q kind later by (fastforce simp: newestIs_def)
    have "snapshotType r \<noteq> Snapshot_start" using new q kind turn unfolding newestIs_def by force
    then have "snapshotType r = Snapshot_turn" using not_final [OF r(1,2)] by (cases "snapshotType r") auto
    then have "snapshotKey r = (gameId, ty, turnNumber s')" using r turn same by (simp add: snapshotKey_def)
    then show ?thesis
      using newestIs_update [OF new _ same, of now'] assms True by (auto simp: save snapshot_create_def Let_def)
  next
    case False
    let ?n = "\<lparr>snap_gameId = gameId, snap_roomId = roomId s', snapshotType = ty, snap_turnNumber = turnNumber s',
      snap_state = s', stateVersion = state_version s', snap_createdAt = now'\<rparr>"
    have "newestIs gameId now' s' (rows @ [?n]) ?n"
    proof (rule newestIs_append)
      show "distinct (map snapshotKey rows)" using new by (simp add: newestIs_def)
      show "snapshotKey ?n \<notin> snapshotKey ` set rows" using False by (simp add: snapshotKey_def)
      fix q assume q: "q \<in> set rows" "snap_gameId q = gameId"
      have "snap_createdAt q \<le> now" "snap_turnNumber q \<le> turnNumber s" "snapshotType q \<noteq> Snapshot_final"
        using new q assms(4) by (auto simp: newestIs_def)
      then show "snap_createdAt q < now' \<and> snap_turnNumber q \<le> turnNumber s' \<and>
          (snapshotType q = Snapshot_final \<longrightarrow> terminal (phase s')) \<and>
          (snapshotType ?n = Snapshot_start \<longrightarrow> snapshotType q = Snapshot_start)"
        using later by (auto simp: ty_def)
    qed (auto simp: ty_def)
    then show ?thesis using False by (auto simp: save snapshot_create_def Let_def)
  qed
qed

text \<open>
  The snapshots of a game in play: one at the start, then one after each command, later in time and never
  earlier in turns.
\<close>

inductive saved :: "string \<Rightarrow> int \<Rightarrow> GameEngineState \<Rightarrow> GameSnapshotRecord list \<Rightarrow> bool" for gameId where
  start: "distinct (map snapshotKey rows) \<Longrightarrow> gameId \<notin> snap_gameId ` set rows \<Longrightarrow>
    saved gameId now s (createStartSnapshot now gameId s rows)"
| after: "saved gameId now s rows \<Longrightarrow> \<not> terminal (phase s) \<Longrightarrow> now < now' \<Longrightarrow> turnNumber s \<le> turnNumber s' \<Longrightarrow>
    saved gameId now' s' (createSnapshotAfterCommand now' gameId s' rows)"

lemma saved_newest: "saved gameId now s rows \<Longrightarrow> \<exists>r. newestIs gameId now s rows r"
proof (induction rule: saved.induct)
  case (start rows now s)
  have "(gameId, Snapshot_start, turnNumber s) \<notin> snapshotKey ` set rows"
    using start by (auto simp: snapshotKey_def)
  then have "\<exists>n. createStartSnapshot now gameId s rows = rows @ [n] \<and> snapshotKey n \<notin> snapshotKey ` set rows \<and>
      snap_gameId n = gameId \<and> snap_state n = s \<and> snap_turnNumber n = turnNumber s \<and> snap_createdAt n = now \<and>
      snapshotType n = Snapshot_start"
    by (simp add: createStartSnapshot_def createSnapshot_def snapshot_create_def snapshotKey_def)
  then obtain n where n: "createStartSnapshot now gameId s rows = rows @ [n]" "snapshotKey n \<notin> snapshotKey ` set rows"
      "snap_gameId n = gameId" "snap_state n = s" "snap_turnNumber n = turnNumber s" "snap_createdAt n = now"
      "snapshotType n = Snapshot_start" by blast
  have none: "\<not> (q \<in> set rows \<and> snap_gameId q = gameId)" for q using start(2) by blast
  have "newestIs gameId now s (rows @ [n]) n"
    using none start(1) n(2-) by (intro newestIs_append) simp_all
  then show ?case unfolding n(1) ..
next
  case (after now s rows now' s')
  then show ?case using snapshot_keeps_newest by blast
qed

lemma saved_restores:
  assumes "saved gameId now s rows"
  shows "restoreLatestSnapshot C gameId rows store = (state_set C gameId s store, Some s)"
proof -
  obtain r where r: "newestIs gameId now s rows r" using saved_newest assms by blast
  then show ?thesis using newestIs_latest [OF r] by (simp add: restoreLatestSnapshot_def newestIs_def)
qed

text \<open>
  C16. A game whose key expired comes back as it was left: with the snapshots of the game's start and of every command
  since, reading the missing state restores exactly the state of the last command, writes it back under the key of the
  game and touches no other key; a second read finds it there.
\<close>

theorem recovery_restores_last_state:
  assumes "codecOk C" "saved gameId now s rows" "store (stateKey gameId) = None"
  shows "\<exists>store'. getOrRecover C gameId rows store = (store', Inr s) \<and> state_get C gameId store' = Inr s \<and>
    getOrRecover C gameId rows store' = (store', Inr s) \<and> (\<forall>k. k \<noteq> stateKey gameId \<longrightarrow> store' k = store k)"
proof (intro exI conjI)
  let ?store = "state_set C gameId s store"
  have missing: "state_get C gameId store = Inl stateNotFound" "isNotFound stateNotFound"
    using assms(3) by (simp_all add: state_get_def readText_def stateNotFound_def)
  show "getOrRecover C gameId rows store = (?store, Inr s)"
    by (simp add: getOrRecover_def missing saved_restores [OF assms(2)])
  show "state_get C gameId ?store = Inr s" using assms(1) by simp
  then show "getOrRecover C gameId rows ?store = (?store, Inr s)" by (simp add: getOrRecover_def)
  show "\<forall>k. k \<noteq> stateKey gameId \<longrightarrow> ?store k = store k" by (simp add: state_set_def)
qed

theorem recovery_restores_last_state_witness:
  "\<exists>store'. getOrRecover plainCodec ''g''
     (createSnapshotAfterCommand 2 ''g'' (freshGame\<lparr>phase := Awaiting_turn_end\<rparr>) (createStartSnapshot 1 ''g'' freshGame []))
     Map.empty = (store', Inr (freshGame\<lparr>phase := Awaiting_turn_end\<rparr>))"
proof -
  have "saved ''g'' 1 freshGame (createStartSnapshot 1 ''g'' freshGame [])" by (intro saved.start) simp_all
  then have "saved ''g'' 2 (freshGame\<lparr>phase := Awaiting_turn_end\<rparr>)
     (createSnapshotAfterCommand 2 ''g'' (freshGame\<lparr>phase := Awaiting_turn_end\<rparr>) (createStartSnapshot 1 ''g'' freshGame []))"
    by (rule saved.after) (simp_all add: freshGame_ok(2) terminal_def)
  from recovery_restores_last_state [OF plainCodec_ok this, of Map.empty] show ?thesis by auto
qed

end
