(* ===== verification/Game_Events.thy ===== *)
theory Game_Events
  imports Game_Snapshots
begin

text \<open>
  The event log: \<^verbatim>\<open>src/src/game/events/game-events.service.ts\<close> and its repository. The table is the list of
  its rows; one transaction appends the events of a command under consecutive sequence numbers, and readers page
  through them with a cursor. The text of a cursor (base64url of a JSON object) enters as a codec.
\<close>

section \<open>The log\<close>

primrec eventType :: "GameEngineEvent \<Rightarrow> string" where
  "eventType (Player_moved a b c d) = ''player_moved''"
| "eventType (Player_rolled_doubles a b) = ''player_rolled_doubles''"
| "eventType (Player_rolled_third_doubles a) = ''player_rolled_third_doubles''"
| "eventType (Player_passed_go a b) = ''player_passed_go''"
| "eventType (Player_landed_on_tile a b c) = ''player_landed_on_tile''"
| "eventType (Card_drawn a b c) = ''card_drawn''"
| "eventType (Card_applied a b c d) = ''card_applied''"
| "eventType (Player_sent_to_jail a b) = ''player_sent_to_jail''"
| "eventType (Jail_escape_roll_succeeded a b) = ''jail_escape_roll_succeeded''"
| "eventType (Jail_escape_roll_failed a b c) = ''jail_escape_roll_failed''"
| "eventType (Jail_forced_fine_paid a b) = ''jail_forced_fine_paid''"
| "eventType (Jail_fine_paid a b) = ''jail_fine_paid''"
| "eventType (Get_out_of_jail_card_used a) = ''get_out_of_jail_card_used''"
| "eventType (Player_released_from_jail a) = ''player_released_from_jail''"
| "eventType (Property_bought a b c) = ''property_bought''"
| "eventType (Property_purchase_declined a b) = ''property_purchase_declined''"
| "eventType (Auction_started a b) = ''auction_started''"
| "eventType (Auction_bid_placed a b c) = ''auction_bid_placed''"
| "eventType (Auction_bid_passed a b) = ''auction_bid_passed''"
| "eventType (Auction_won a b c) = ''auction_won''"
| "eventType (Rent_paid a b c d) = ''rent_paid''"
| "eventType (Tax_paid a b c) = ''tax_paid''"
| "eventType (Payment_required a b c d) = ''payment_required''"
| "eventType (Debt_paid a b c d) = ''debt_paid''"
| "eventType (Property_house_built a b c d) = ''property_house_built''"
| "eventType (Property_hotel_built a b c) = ''property_hotel_built''"
| "eventType (Property_house_sold a b c d) = ''property_house_sold''"
| "eventType (Property_hotel_sold a b c) = ''property_hotel_sold''"
| "eventType (Property_mortgaged a b c) = ''property_mortgaged''"
| "eventType (Property_unmortgaged a b c) = ''property_unmortgaged''"
| "eventType (Trade_proposed a b c d e f g) = ''trade_proposed''"
| "eventType (Trade_buildings_liquidated a b c d) = ''trade_buildings_liquidated''"
| "eventType (Trade_accepted a b c) = ''trade_accepted''"
| "eventType (Trade_rejected a b c d) = ''trade_rejected''"
| "eventType (Trade_cancelled a b c) = ''trade_cancelled''"
| "eventType (Player_bankrupt a b) = ''player_bankrupt''"
| "eventType (Game_finished_by_bankruptcy a b c) = ''game_finished_by_bankruptcy''"
| "eventType (Game_finished_by_time a b c d) = ''game_finished_by_time''"
| "eventType (Game_finished_after_last_human_left a b c d) = ''game_finished_after_last_human_left''"
| "eventType (Turn_ended a b c) = ''turn_ended''"

record GameEventLogRecord =
  event_gameId :: string
  event_sequence :: int
  event_type :: string
  event_payload :: GameEngineEvent
  event_createdAt :: int

definition eventsOf :: "string \<Rightarrow> GameEventLogRecord list \<Rightarrow> GameEventLogRecord list" where
  "eventsOf gameId table = filter (\<lambda>r. event_gameId r = gameId) table"

text \<open>\<open>(max(sequence) ?? 0) + 1\<close>\<close>

definition getNextSequence :: "string \<Rightarrow> GameEventLogRecord list \<Rightarrow> int" where
  "getNextSequence gameId table =
     (case map event_sequence (eventsOf gameId table) of [] \<Rightarrow> 0 | n # ns \<Rightarrow> foldl max n ns) + 1"

definition eventRow :: "int \<Rightarrow> string \<Rightarrow> int \<Rightarrow> GameEngineEvent \<Rightarrow> GameEventLogRecord" where
  "eventRow now gameId n e =
     \<lparr>event_gameId = gameId, event_sequence = n, event_type = eventType e, event_payload = e, event_createdAt = now\<rparr>"

text \<open>The advisory lock makes the choice of the numbers and the insertion one atomic step.\<close>

definition appendEventsWithExecutor ::
  "int \<Rightarrow> string \<Rightarrow> GameEngineEvent list \<Rightarrow> GameEventLogRecord list \<Rightarrow> GameEventLogRecord list" where
  "appendEventsWithExecutor now gameId evs table =
     (let nextSequence = getNextSequence gameId table in
      table @ map (\<lambda>(index, e). eventRow now gameId (nextSequence + int index) e) (enumerate 0 evs))"

definition appendEvents :: "int \<Rightarrow> string \<Rightarrow> GameEngineEvent list \<Rightarrow> GameEventLogRecord list \<Rightarrow> GameEventLogRecord list" where
  "appendEvents now gameId evs table = (if evs = [] then table else appendEventsWithExecutor now gameId evs table)"

definition listEventsAfter :: "string \<Rightarrow> int \<Rightarrow> nat \<Rightarrow> GameEventLogRecord list \<Rightarrow> GameEventLogRecord list" where
  "listEventsAfter gameId n limit table =
     take limit (sort_key event_sequence (filter (\<lambda>r. event_sequence r > n) (eventsOf gameId table)))"

definition listLatestEvents :: "string \<Rightarrow> nat \<Rightarrow> GameEventLogRecord list \<Rightarrow> GameEventLogRecord list" where
  "listLatestEvents gameId limit table =
     rev (take limit (sort_key (\<lambda>r. - event_sequence r) (eventsOf gameId table)))"

section \<open>Pages\<close>

record CursorCodec =
  cursorText :: "int \<Rightarrow> int \<Rightarrow> string"
  cursorParse :: "string \<Rightarrow> (int option \<times> int option) option"

text \<open>The text of \<open>{v: 1, sequence: n}\<close> is not empty and decodes to its two numbers.\<close>

definition cursorCodecOk :: "CursorCodec \<Rightarrow> bool" where
  "cursorCodecOk K \<longleftrightarrow> (\<forall>n\<ge>0. cursorText K 1 n \<noteq> [] \<and> cursorParse K (cursorText K 1 n) = Some (Some 1, Some n))"

definition GAME_EVENT_RECOVERY_LIMIT :: nat where "GAME_EVENT_RECOVERY_LIMIT = 100"

record GameEventRecoveryItem =
  item_sequence :: int
  item_type :: string
  item_payload :: GameEngineEvent
  item_createdAt :: int

record GameEventRecoveryResponse =
  page_items :: "GameEventRecoveryItem list"
  nextCursor :: "string option"
  hasMore :: bool

definition mapEvent :: "GameEventLogRecord \<Rightarrow> GameEventRecoveryItem" where
  "mapEvent r = \<lparr>item_sequence = event_sequence r, item_type = event_type r, item_payload = event_payload r,
     item_createdAt = event_createdAt r\<rparr>"

definition encodeCursor :: "CursorCodec \<Rightarrow> int \<Rightarrow> string" where
  "encodeCursor K n = cursorText K 1 n"

definition decodeCursor :: "CursorCodec \<Rightarrow> string option \<Rightarrow> ServiceError + int option" where
  "decodeCursor K cursor =
     (if \<not> truthy cursor then Inr None
      else case cursorParse K (the cursor) of
        None \<Rightarrow> Inl (BadRequestException ''Invalid game event cursor'')
      | Some (v, n) \<Rightarrow>
          if v \<noteq> Some 1 \<or> n = None \<or> the n < 0 then Inl (BadRequestException ''Invalid game event cursor'')
          else Inr n)"

definition listEvents ::
  "CursorCodec \<Rightarrow> string \<Rightarrow> string option \<Rightarrow> GameEventLogRecord list \<Rightarrow> ServiceError + GameEventRecoveryResponse" where
  "listEvents K gameId cursor table =
     andThen (decodeCursor K cursor) (\<lambda>decoded.
     let rows = (case decoded of
           Some n \<Rightarrow> listEventsAfter gameId n (GAME_EVENT_RECOVERY_LIMIT + 1) table
         | None \<Rightarrow> listLatestEvents gameId (GAME_EVENT_RECOVERY_LIMIT + 1) table);
         items = take GAME_EVENT_RECOVERY_LIMIT rows in
     Inr \<lparr>page_items = map mapEvent items,
          nextCursor = (if items \<noteq> [] then Some (encodeCursor K (event_sequence (last items))) else None),
          hasMore = length rows > GAME_EVENT_RECOVERY_LIMIT\<rparr>)"

text \<open>A reader that follows the cursors to the end; \<open>fuel\<close> bounds the pages it asks for.\<close>

fun readPages ::
  "nat \<Rightarrow> CursorCodec \<Rightarrow> string \<Rightarrow> string option \<Rightarrow> GameEventLogRecord list \<Rightarrow> ServiceError + GameEventRecoveryItem list option" where
  "readPages 0 K gameId cursor table = Inr None"
| "readPages (Suc fuel) K gameId cursor table =
     andThen (listEvents K gameId cursor table) (\<lambda>page.
     if hasMore page
     then andThen (readPages fuel K gameId (nextCursor page) table) (\<lambda>rest.
          Inr (map_option ((@) (page_items page)) rest))
     else Inr (Some (page_items page)))"

section \<open>The numbers of the events\<close>

definition numbered :: "GameEventLogRecord list \<Rightarrow> bool" where
  "numbered rows \<longleftrightarrow> (\<forall>i<length rows. event_sequence (rows ! i) = int i + 1)"

lemma numbered_range:
  assumes "numbered rows"
  shows "n \<in> set (map event_sequence rows) \<longleftrightarrow> 1 \<le> n \<and> n \<le> int (length rows)"
proof
  assume "1 \<le> n \<and> n \<le> int (length rows)"
  then have "nat (n - 1) < length rows" "event_sequence (rows ! nat (n - 1)) = n"
    using assms by (auto simp: numbered_def)
  then show "n \<in> set (map event_sequence rows)" by (metis in_set_conv_nth length_map nth_map)
qed (use assms in \<open>auto simp: numbered_def in_set_conv_nth\<close>)

lemma foldl_max_ub:
  "foldl max (a::int) xs \<le> m \<longleftrightarrow> a \<le> m \<and> (\<forall>x\<in>set xs. x \<le> m)"
  by (induction xs arbitrary: a) auto

lemma foldl_max_in: "foldl max (a::int) xs \<in> insert a (set xs)"
proof (induction xs arbitrary: a)
  case (Cons x xs)
  then show ?case using Cons [of "max a x"] by (auto simp: max_def split: if_splits)
qed simp

lemma next_number:
  assumes "numbered (eventsOf gameId table)"
  shows "getNextSequence gameId table = int (length (eventsOf gameId table)) + 1"
proof (cases "map event_sequence (eventsOf gameId table)")
  case (Cons a xs)
  let ?n = "int (length (eventsOf gameId table))"
  have range: "x \<in> set (a # xs) \<longleftrightarrow> 1 \<le> x \<and> x \<le> ?n" for x
    using numbered_range [OF assms, of x] unfolding Cons .
  have "1 \<le> ?n" using Cons by (cases "eventsOf gameId table") auto
  then have "?n \<in> set (a # xs)" using range by blast
  then have "?n \<le> foldl max a xs" using foldl_max_ub [of a xs "foldl max a xs"] by auto
  moreover have "foldl max a xs \<le> ?n" using foldl_max_in [of a xs] range [of "foldl max a xs"] by simp
  ultimately show ?thesis by (simp add: getNextSequence_def Cons)
qed (simp add: getNextSequence_def)

lemma eventsOf_append:
  "eventsOf gameId (appendEvents now gameId evs table) = eventsOf gameId table @
     map (\<lambda>(i, e). eventRow now gameId (getNextSequence gameId table + int i) e) (enumerate 0 evs)"
proof -
  have mine: "filter (\<lambda>r. event_gameId r = gameId) (map (\<lambda>(i, e). eventRow now gameId (n + int i) e) ies) =
      map (\<lambda>(i, e). eventRow now gameId (n + int i) e) ies" for n ies
    by (auto simp: filter_id_conv eventRow_def)
  show ?thesis by (simp add: appendEvents_def appendEventsWithExecutor_def Let_def eventsOf_def mine)
qed

lemma eventsOf_other:
  "gameId \<noteq> other \<Longrightarrow> eventsOf gameId (appendEvents now other evs table) = eventsOf gameId table"
  by (auto simp: appendEvents_def appendEventsWithExecutor_def Let_def eventsOf_def eventRow_def filter_empty_conv)

lemma numbered_append:
  assumes "numbered (eventsOf gameId table)"
  shows "numbered (eventsOf gameId (appendEvents now gameId evs table))"
  unfolding eventsOf_append next_number [OF assms]
  using assms by (auto simp: numbered_def nth_append nth_enumerate_eq eventRow_def)

text \<open>A log written from empty by any number of commands of any games.\<close>

inductive logged :: "string \<Rightarrow> GameEngineEvent list \<Rightarrow> GameEventLogRecord list \<Rightarrow> bool" for gameId where
  empty: "gameId \<notin> event_gameId ` set table \<Longrightarrow> logged gameId [] table"
| own: "logged gameId ps table \<Longrightarrow> logged gameId (ps @ evs) (appendEvents now gameId evs table)"
| foreign: "logged gameId ps table \<Longrightarrow> other \<noteq> gameId \<Longrightarrow> logged gameId ps (appendEvents now other evs table)"

lemma logged_rows:
  assumes "logged gameId ps table"
  shows "numbered (eventsOf gameId table)" "map event_payload (eventsOf gameId table) = ps"
    "map event_type (eventsOf gameId table) = map eventType ps"
proof -
  have payload: "map event_payload (map (\<lambda>(i, e). eventRow now gameId (n + int i) e) (enumerate k evs)) = evs"
    and types: "map event_type (map (\<lambda>(i, e). eventRow now gameId (n + int i) e) (enumerate k evs)) = map eventType evs"
    for now n evs k by (induction evs arbitrary: k) (auto simp: eventRow_def)
  have none: "eventsOf gameId table = []" if "gameId \<notin> event_gameId ` set table" for table
    using that by (auto simp: eventsOf_def filter_empty_conv)
  show "numbered (eventsOf gameId table)" using assms
    by induction (auto simp: none eventsOf_other numbered_append numbered_def [of "[]"])
  show "map event_payload (eventsOf gameId table) = ps" "map event_type (eventsOf gameId table) = map eventType ps"
    using assms by (induction; simp add: none eventsOf_other eventsOf_append payload [simplified] types [simplified])+
qed

section \<open>Reading the log\<close>

lemma numbered_after:
  assumes "numbered rows"
  shows "filter (\<lambda>r. event_sequence r > int k) rows = drop k rows"
  using assms
proof (induction rows rule: rev_induct)
  case (snoc r rows)
  have num: "event_sequence ((rows @ [r]) ! i) = int i + 1" if "i < Suc (length rows)" for i
    using snoc.prems that by (simp add: numbered_def)
  have "event_sequence (rows ! i) = int i + 1" if "i < length rows" for i using num [of i] that by (simp add: nth_append)
  then have "numbered rows" by (simp add: numbered_def)
  moreover have "event_sequence r = int (length rows) + 1" using num [of "length rows"] by simp
  ultimately show ?case using snoc.IH by (auto simp: not_less)
qed simp

lemma numbered_sorted: "numbered rows \<Longrightarrow> sorted_wrt (<) (map event_sequence rows)"
  by (simp add: sorted_wrt_iff_nth_less numbered_def)

lemma list_after:
  assumes "numbered (eventsOf gameId table)"
  shows "listEventsAfter gameId (int k) limit table = take limit (drop k (eventsOf gameId table))"
proof -
  have "sorted (map event_sequence (drop k (eventsOf gameId table)))"
    using numbered_sorted [OF assms] by (metis drop_map sorted_wrt_drop strict_sorted_imp_sorted)
  then show ?thesis by (simp add: listEventsAfter_def numbered_after [OF assms] sort_key_id_if_sorted)
qed

lemma list_latest:
  assumes "numbered (eventsOf gameId table)"
  shows "listLatestEvents gameId limit table =
    drop (length (eventsOf gameId table) - limit) (eventsOf gameId table)"
proof -
  let ?rows = "eventsOf gameId table"
  have "sorted_wrt (<) (map event_sequence ?rows)" using numbered_sorted [OF assms] .
  moreover from this have "distinct (map event_sequence ?rows)" by (simp only: strict_sorted_iff)
  ultimately have "inj_on (\<lambda>r. - event_sequence r) (set ?rows)" "sorted (map (\<lambda>r. - event_sequence r) (rev ?rows))"
    by (auto simp: distinct_map inj_on_def sorted_wrt_map rev_map [symmetric] sorted_wrt_rev
        elim: sorted_wrt_mono_rel [rotated])
  then have "sort_key (\<lambda>r. - event_sequence r) ?rows = rev ?rows" by (intro sort_key_inj_key_eq) simp_all
  then show ?thesis by (simp add: listLatestEvents_def rev_take)
qed

lemma decode_encode [simp]: "cursorCodecOk K \<Longrightarrow> 0 \<le> n \<Longrightarrow> decodeCursor K (Some (encodeCursor K n)) = Inr (Some n)"
  by (auto simp: decodeCursor_def encodeCursor_def cursorCodecOk_def neq_Nil_conv)

lemma decode_none [simp]: "decodeCursor K None = Inr None"
  by (simp add: decodeCursor_def)

lemma last_take_sequence:
  assumes "numbered rows" "k + n \<le> length rows" "0 < n"
  shows "event_sequence (last (take n (drop k rows))) = int (k + n)"
proof -
  have "length (take n (drop k rows)) = n" using assms by simp
  then have "last (take n (drop k rows)) = rows ! (k + (n - 1))"
    using assms by (subst last_conv_nth) auto
  then show ?thesis using assms by (simp add: numbered_def)
qed

lemma read_after:
  assumes K: "cursorCodecOk K" and num: "numbered (eventsOf gameId table)"
    and "k \<le> length (eventsOf gameId table)" "length (eventsOf gameId table) \<le> k + 100 * Suc fuel"
  shows "readPages (Suc fuel) K gameId (Some (encodeCursor K (int k))) table =
    Inr (Some (map mapEvent (drop k (eventsOf gameId table))))"
  using assms(3,4)
proof (induction fuel arbitrary: k)
  case 0
  then show ?case using K by (simp add: listEvents_def list_after [OF num] GAME_EVENT_RECOVERY_LIMIT_def Let_def)
next
  case (Suc fuel)
  let ?rows = "eventsOf gameId table"
  show ?case
  proof (cases "length ?rows \<le> k + 100")
    case True
    then show ?thesis using K by (auto simp: listEvents_def list_after [OF num] GAME_EVENT_RECOVERY_LIMIT_def Let_def)
  next
    case False
    have "event_sequence (last (take 100 (drop k ?rows))) = int (k + 100)"
      using False last_take_sequence [OF num, of k 100] by simp
    moreover have "readPages (Suc fuel) K gameId (Some (encodeCursor K (int (k + 100)))) table =
        Inr (Some (map mapEvent (drop (k + 100) ?rows)))"
      using Suc False by (intro Suc.IH) simp_all
    moreover have "map mapEvent (take 100 (drop k ?rows)) @ map mapEvent (drop (k + 100) ?rows) = map mapEvent (drop k ?rows)"
      by (metis append_take_drop_id drop_drop add.commute map_append)
    ultimately show ?thesis
      using K False by (simp add: listEvents_def list_after [OF num] GAME_EVENT_RECOVERY_LIMIT_def Let_def)
  qed
qed

lemma read_latest:
  assumes K: "cursorCodecOk K" and num: "numbered (eventsOf gameId table)"
  shows "readPages (Suc (Suc fuel)) K gameId None table =
    Inr (Some (map mapEvent (drop (length (eventsOf gameId table) - 101) (eventsOf gameId table))))"
proof (cases "length (eventsOf gameId table) \<le> 100")
  case True
  then show ?thesis
    by (auto simp: listEvents_def list_latest [OF num] GAME_EVENT_RECOVERY_LIMIT_def Let_def)
next
  case False
  let ?rows = "eventsOf gameId table"
  define k where "k = length ?rows - 101"
  have k: "length ?rows = k + 101" using False by (simp add: k_def)
  have "event_sequence (last (take 100 (drop k ?rows))) = int (k + 100)"
    using k last_take_sequence [OF num, of k 100] by simp
  then have page: "listEvents K gameId None table = Inr \<lparr>page_items = map mapEvent (take 100 (drop k ?rows)),
      nextCursor = Some (encodeCursor K (int (k + 100))), hasMore = True\<rparr>"
    using k by (simp add: listEvents_def list_latest [OF num] GAME_EVENT_RECOVERY_LIMIT_def Let_def)
  have rest: "readPages (Suc fuel) K gameId (Some (encodeCursor K (int (k + 100)))) table =
      Inr (Some (map mapEvent (drop (k + 100) ?rows)))"
    using k by (intro read_after [OF K num]) simp_all
  have rest': "readPages (Suc fuel) K gameId (Some (encodeCursor K (int k + 100))) table =
      Inr (Some (map mapEvent (drop (k + 100) ?rows)))" using rest by (simp del: readPages.simps)
  have "map mapEvent (take 100 (drop k ?rows)) @ map mapEvent (drop (k + 100) ?rows) = map mapEvent (drop k ?rows)"
    by (metis append_take_drop_id drop_drop add.commute map_append)
  then show ?thesis by (subst readPages.simps) (simp add: page rest' k_def [symmetric] del: readPages.simps)
qed

lemma numbered_sequences:
  "numbered rows \<Longrightarrow> map event_sequence (drop k rows) = map int [Suc k..<Suc (length rows)]"
  by (rule nth_equalityI) (auto simp: numbered_def simp del: upt_Suc)

text \<open>
  C17. Nothing is lost between the log and its readers: whatever the commands of this and other games appended, the
  events of a game are numbered one, two, three and so on in the order in which its commands emitted them, and a
  client that follows the cursors of the pages from any number on receives exactly the events after it, each once
  and in order; with no cursor it receives the last one hundred and one of them.
\<close>

theorem events_are_delivered:
  assumes "cursorCodecOk K" "logged gameId ps table" "k \<le> length ps" "length ps \<le> k + 100 * Suc fuel"
  shows "\<exists>items latest.
    readPages (Suc fuel) K gameId (Some (encodeCursor K (int k))) table = Inr (Some items) \<and>
    map item_payload items = drop k ps \<and> map item_sequence items = map int [Suc k..<Suc (length ps)] \<and>
    map item_type items = map eventType (drop k ps) \<and>
    readPages 2 K gameId None table = Inr (Some latest) \<and> map item_payload latest = drop (length ps - 101) ps"
proof -
  note rows = logged_rows [OF assms(2)]
  have len: "length (eventsOf gameId table) = length ps" using rows(2) by (metis length_map)
  let ?items = "map mapEvent (drop k (eventsOf gameId table))"
  let ?latest = "map mapEvent (drop (length ps - 101) (eventsOf gameId table))"
  have "readPages (Suc fuel) K gameId (Some (encodeCursor K (int k))) table = Inr (Some ?items)"
    using assms by (intro read_after rows) (simp_all add: len)
  moreover have "readPages 2 K gameId None table = Inr (Some ?latest)"
    using read_latest [OF assms(1) rows(1), of 0] by (simp add: len numeral_2_eq_2)
  moreover have "map item_payload (map mapEvent (drop n (eventsOf gameId table))) = drop n ps" for n
    using rows(2) by (simp add: mapEvent_def o_def drop_map [symmetric])
  moreover have "map item_type ?items = map eventType (drop k ps)"
    using rows(3) by (simp add: mapEvent_def o_def drop_map [symmetric])
  moreover have "map item_sequence ?items = map int [Suc k..<Suc (length ps)]"
    using numbered_sequences [OF rows(1), of k] by (simp add: mapEvent_def o_def len del: upt_Suc)
  ultimately show ?thesis by blast
qed

declare readPages.simps [simp del]

definition plainCursor :: CursorCodec where
  "plainCursor = \<lparr>cursorText = (\<lambda>v n. CHR ''c'' # replicate (nat n) CHR ''x''),
     cursorParse = (\<lambda>t. Some (Some 1, Some (int (length t) - 1)))\<rparr>"

theorem events_are_delivered_witness:
  "\<exists>items latest. readPages 1 plainCursor ''g'' (Some (encodeCursor plainCursor 1))
       (appendEvents 7 ''g'' [Turn_ended ''a'' ''b'' 2, Turn_ended ''b'' ''a'' 3] []) = Inr (Some items) \<and>
     map item_payload items = [Turn_ended ''b'' ''a'' 3] \<and> map item_sequence items = [2] \<and>
     readPages 2 plainCursor ''g'' None (appendEvents 7 ''g'' [Turn_ended ''a'' ''b'' 2, Turn_ended ''b'' ''a'' 3] []) =
       Inr (Some latest)"
proof -
  have K: "cursorCodecOk plainCursor" by (simp add: cursorCodecOk_def plainCursor_def)
  have "logged ''g'' ([] @ [Turn_ended ''a'' ''b'' 2, Turn_ended ''b'' ''a'' 3])
      (appendEvents 7 ''g'' [Turn_ended ''a'' ''b'' 2, Turn_ended ''b'' ''a'' 3] [])"
    by (intro logged.own logged.empty) simp
  from events_are_delivered [OF K this, of 1 0] show ?thesis by auto
qed

end
