(* ===== verification/Game_Frame.thy ===== *)
theory Game_Frame
  imports Game_Engine
begin

text \<open>
  What no operation of the engine touches: which game it is, in which room, until when, who plays in which seat,
  which properties there are; and the turn number, which only the end of a turn and the bankruptcy of the
  current player advance, by one.
\<close>

section \<open>The frame of a game\<close>

definition whoIs :: "GameEnginePlayer \<Rightarrow> string \<times> string option \<times> PlayerType \<times> BotDifficulty option \<times> string option \<times> int" where
  "whoIs p = (roomPlayerId p, userId p, playerType p, botDifficulty p, botName p, seatNumber p)"

definition gameFrame :: "GameEngineState \<Rightarrow>
  (string \<times> string \<times> GameBoardKey \<times> GameMode) \<times> (int option \<times> int option \<times> int option) \<times>
  (string \<times> string option \<times> PlayerType \<times> BotDifficulty option \<times> string option \<times> int) list \<times> string list" where
  "gameFrame s = ((roomId s, roomCode s, boardKey s, mode s), (startedAt s, durationMinutes s, expiresAt s),
     map whoIs (players s), map tileKey (properties s))"

text \<open>Nothing of it changes and the turn stays, or at most one turn ends.\<close>

definition kept :: "GameEngineState \<Rightarrow> GameEngineState \<Rightarrow> bool" where
  "kept s t \<longleftrightarrow> gameFrame t = gameFrame s \<and> turnNumber t = turnNumber s"

definition advanced :: "GameEngineState \<Rightarrow> GameEngineState \<Rightarrow> bool" where
  "advanced s t \<longleftrightarrow> gameFrame t = gameFrame s \<and> turnNumber s \<le> turnNumber t \<and> turnNumber t \<le> turnNumber s + 1"

lemma kept_refl [simp, intro]: "kept s s"
  by (simp add: kept_def)

lemma kept_trans [trans]: "kept s t \<Longrightarrow> kept t u \<Longrightarrow> kept s u"
  by (simp add: kept_def)

lemma kept_advanced: "kept s t \<Longrightarrow> advanced t u \<Longrightarrow> advanced s u" "kept s t \<Longrightarrow> advanced s t"
  by (auto simp: kept_def advanced_def)

text \<open>The updates of the engine: fields outside the frame, one player, one property.\<close>

lemma kept_field [simp]:
  "kept s (t\<lparr>phase := a\<rparr>) \<longleftrightarrow> kept s t" "kept s (t\<lparr>pendingTileKey := b\<rparr>) \<longleftrightarrow> kept s t"
  "kept s (t\<lparr>auction := c\<rparr>) \<longleftrightarrow> kept s t" "kept s (t\<lparr>tradeOffer := d\<rparr>) \<longleftrightarrow> kept s t"
  "kept s (t\<lparr>debt := e\<rparr>) \<longleftrightarrow> kept s t" "kept s (t\<lparr>lastDiceRoll := f\<rparr>) \<longleftrightarrow> kept s t"
  "kept s (t\<lparr>consecutiveDoublesCount := g\<rparr>) \<longleftrightarrow> kept s t" "kept s (t\<lparr>shouldCurrentPlayerPlayAgain := h\<rparr>) \<longleftrightarrow> kept s t"
  "kept s (t\<lparr>currentTurnRoomPlayerId := i\<rparr>) \<longleftrightarrow> kept s t" "kept s (t\<lparr>turnExpiresAt := j\<rparr>) \<longleftrightarrow> kept s t"
  "kept s (t\<lparr>decks := k\<rparr>) \<longleftrightarrow> kept s t"
  by (simp_all add: kept_def gameFrame_def)

lemma kept_sym: "kept s t \<longleftrightarrow> kept t s"
  by (auto simp: kept_def)

lemma kept_field_left [simp]:
  "kept (t\<lparr>phase := a\<rparr>) s \<longleftrightarrow> kept t s" "kept (t\<lparr>pendingTileKey := b\<rparr>) s \<longleftrightarrow> kept t s"
  "kept (t\<lparr>auction := c\<rparr>) s \<longleftrightarrow> kept t s" "kept (t\<lparr>tradeOffer := d\<rparr>) s \<longleftrightarrow> kept t s"
  "kept (t\<lparr>debt := e\<rparr>) s \<longleftrightarrow> kept t s" "kept (t\<lparr>lastDiceRoll := f\<rparr>) s \<longleftrightarrow> kept t s"
  "kept (t\<lparr>consecutiveDoublesCount := g\<rparr>) s \<longleftrightarrow> kept t s" "kept (t\<lparr>shouldCurrentPlayerPlayAgain := h\<rparr>) s \<longleftrightarrow> kept t s"
  "kept (t\<lparr>currentTurnRoomPlayerId := i\<rparr>) s \<longleftrightarrow> kept t s" "kept (t\<lparr>turnExpiresAt := j\<rparr>) s \<longleftrightarrow> kept t s"
  "kept (t\<lparr>decks := k\<rparr>) s \<longleftrightarrow> kept t s"
  by (simp_all add: kept_sym [of _ s])

lemma whoIs_update [simp]:
  "whoIs (p\<lparr>cash := a\<rparr>) = whoIs p" "whoIs (p\<lparr>position := a\<rparr>) = whoIs p" "whoIs (p\<lparr>inJail := b\<rparr>) = whoIs p"
  "whoIs (p\<lparr>jailTurnCount := a\<rparr>) = whoIs p" "whoIs (p\<lparr>getOutOfJailFreeCards := a\<rparr>) = whoIs p"
  "whoIs (p\<lparr>getOutOfJailFreeCardKeys := c\<rparr>) = whoIs p" "whoIs (p\<lparr>bankrupt := b\<rparr>) = whoIs p"
  "whoIs (p\<lparr>consecutiveMissedTurns := d\<rparr>) = whoIs p" "whoIs (p\<lparr>lastMissedTurnNumber := d\<rparr>) = whoIs p"
  "whoIs (p\<lparr>lastBotTradeProposalTurnNumber := d\<rparr>) = whoIs p" "whoIs (keepJailCard k p) = whoIs p"
  by (simp_all add: whoIs_def keepJailCard_def)

lemma kept_modifyPlayer [simp]:
  assumes "\<And>p. whoIs (f p) = whoIs p"
  shows "kept s (modifyPlayer pid f t) \<longleftrightarrow> kept s t"
  using assms by (simp add: kept_def gameFrame_def modifyPlayer_def)

lemma kept_modifyPlayer_left [simp]:
  assumes "\<And>p. whoIs (f p) = whoIs p"
  shows "kept (modifyPlayer pid f t) s \<longleftrightarrow> kept t s"
  using assms by (simp add: kept_sym [of _ s])

lemma kept_players: "map whoIs ps = map whoIs (players t) \<Longrightarrow> kept s (t\<lparr>players := ps\<rparr>) \<longleftrightarrow> kept s t"
  by (simp add: kept_def gameFrame_def)

lemma kept_players_left: "map whoIs ps = map whoIs (players t) \<Longrightarrow> kept (t\<lparr>players := ps\<rparr>) s \<longleftrightarrow> kept t s"
  by (simp add: kept_players kept_sym [of _ s])

lemma kept_properties: "map tileKey ps = map tileKey (properties t) \<Longrightarrow> kept s (t\<lparr>properties := ps\<rparr>) \<longleftrightarrow> kept s t"
  by (simp add: kept_def gameFrame_def)

lemma kept_updatePropertyState [simp]:
  assumes "\<And>p. tileKey (f p) = tileKey p"
  shows "kept s (updatePropertyState t k f) \<longleftrightarrow> kept s t"
  using assms by (simp add: updatePropertyState_def kept_properties)

lemma kept_updatePropertyState_left [simp]:
  assumes "\<And>p. tileKey (f p) = tileKey p"
  shows "kept (updatePropertyState t k f) s \<longleftrightarrow> kept t s"
  using assms by (simp add: kept_sym [of _ s])

section \<open>Operations of one turn\<close>

lemma money_kept:
  "debitPlayer s pid a = Inr t \<Longrightarrow> kept s t" "creditPlayer s pid a = Inr t \<Longrightarrow> kept s t"
  "transferPlayerCash s pid pid' a = Inr t \<Longrightarrow> kept s t"
  by (auto simp: transferPlayerCash_def debitPlayer_Inr_iff creditPlayer_Inr_iff)

lemma payment_kept:
  "debitPlayerOrCreateDebt s pid a r c = Inr (t, evs, paid) \<Longrightarrow> kept s t"
  "transferPlayerCashOrCreateDebt s pid pid' a r = Inr (t, evs, paid) \<Longrightarrow> kept s t"
  by (auto simp: debitPlayerOrCreateDebt_def transferPlayerCashOrCreateDebt_def createDebtState_def
      dest: money_kept split: if_splits)

lemma foldM_kept:
  assumes "foldM f s xs = Inr t" "\<And>u x v. f u x = Inr v \<Longrightarrow> kept u v"
  shows "kept s t"
  using assms(1)
proof (induction xs arbitrary: s)
  case (Cons x xs)
  then obtain u where "f s x = Inr u" "foldM f u xs = Inr t" by auto
  then show ?case using Cons.IH assms(2) kept_trans by blast
qed simp

lemma rent_and_tax_kept:
  "payRent s pid key dice = Inr (t, evs) \<Longrightarrow> kept s t" "payTax s pid key = Inr (t, evs) \<Longrightarrow> kept s t"
  by (auto simp: payRent_def payTax_def Let_def dest: payment_kept split: if_splits option.splits)

lemma sendPlayerToJail_kept [simp]: "kept s (fst (sendPlayerToJail t pid)) \<longleftrightarrow> kept s t"
  by (simp add: sendPlayerToJail_def Let_def)

lemma sendPlayerToJail_split: "sendPlayerToJail s pid = (t, evs) \<Longrightarrow> kept s t"
  using sendPlayerToJail_kept [of s s pid] by simp

lemma card_effects_kept:
  "collectFromEachPlayer s pid n = Inr (t, evs) \<Longrightarrow> kept s t" "payEachPlayer s pid n = Inr (t, evs) \<Longrightarrow> kept s t"
  "payPropertyRepairs s pid n m = Inr (t, evs) \<Longrightarrow> kept s t"
  by (auto simp: collectFromEachPlayer_def payEachPlayer_def payPropertyRepairs_def Let_def
      dest: payment_kept foldM_kept money_kept split: if_splits)

lemma movePlayerToCardTile_kept:
  assumes "movePlayerToCardTile s pid effect = Inr (t, evs)"
  shows "kept s t"
proof -
  have credit: "kept s u" "kept u v \<Longrightarrow> kept s v" if "creditPlayer s pid n = Inr u" for n u v
    using that money_kept kept_trans by blast+
  show ?thesis
    using assms
    by (auto simp: movePlayerToCardTile_def Let_def split_beta dest!: rent_and_tax_kept dest: credit split: if_splits)
qed

lemma drawCard_kept: "drawCard s d = Inr (t, k) \<Longrightarrow> kept s t"
  by (simp add: drawCard_def Let_def split: list.split_asm) (auto simp: setDeck_def)

lemma applyCardEffect_kept: "applyCardEffect s pid c = Inr (t, evs) \<Longrightarrow> kept s t"
  by (cases "card_effect c")
    (auto simp: applyCardEffect_def dest: money_kept payment_kept card_effects_kept movePlayerToCardTile_kept
      sendPlayerToJail_split)

lemma drawAndApplyCard_kept: "drawAndApplyCard s pid d = Inr (t, evs) \<Longrightarrow> kept s t"
  by (auto simp: drawAndApplyCard_def dest!: drawCard_kept applyCardEffect_kept intro: kept_trans)

lemma returnCard_kept: "returnGetOutOfJailCardToDeck s k = Inr t \<Longrightarrow> kept s t"
  by (auto simp: returnGetOutOfJailCardToDeck_def setDeck_def Let_def split: if_splits)

section \<open>Rolling\<close>

lemma mapAccumM_map:
  assumes "mapAccumM f a xs = Inr (b, ys)" "\<And>a x b y. f a x = Inr (b, y) \<Longrightarrow> g y = g x"
  shows "map g ys = map g xs"
  using assms(1)
proof (induction xs arbitrary: a ys)
  case (Cons x xs)
  then show ?case using assms(2) by fastforce
qed simp

lemma movePlayerCallback_who: "movePlayerCallback s pid dice acc p = Inr (acc', p') \<Longrightarrow> whoIs p' = whoIs p"
  by (auto simp: movePlayerCallback_def Let_def split: if_splits)

lemma resolveLanding_kept: "resolveLanding s pid dice landing evs0 = Inr (t, evs) \<Longrightarrow> kept s t"
  by (auto simp: resolveLanding_def split_beta dest: drawAndApplyCard_kept rent_and_tax_kept split: if_splits)

lemma rollAndMoveIgnoringJail_kept:
  assumes roll: "rollAndMoveIgnoringJail s pid dice b = Inr (t, evs)"
  shows "kept s t"
proof (cases "\<not> b \<and> isThirdConsecutiveDoubles s dice")
  case True
  then show ?thesis using roll by (auto simp: rollAndMoveIgnoringJail_def applyDoublesState_def Let_def split_beta)
next
  case False
  define u where "u = (if b then s\<lparr>consecutiveDoublesCount := 0, shouldCurrentPlayerPlayAgain := False\<rparr>
    else applyDoublesState s dice)"
  obtain a evs' ps acc where m: "mapAccumM (movePlayerCallback u pid dice) acc (players u) = Inr ((a, evs'), ps)"
    and r: "(case a of None \<Rightarrow> Inl (EngineError PLAYER_NOT_FOUND) | Some landing \<Rightarrow>
        andThen (raiseIf (landedTileKey landing = []) (EngineError PLAYER_NOT_FOUND)) (\<lambda>_.
        resolveLanding (u\<lparr>phase := (if landedTileIsOwnableAndUnowned landing then Awaiting_property_decision
             else Awaiting_turn_end),
           pendingTileKey := (if landedTileIsOwnableAndUnowned landing then Some (landedTileKey landing) else None),
           lastDiceRoll := Some (cloneDiceRoll dice), players := ps\<rparr>) pid dice landing evs')) = Inr (t, evs)"
    using roll unfolding rollAndMoveIgnoringJail_def Let_def if_not_P [OF False] u_def [symmetric]
    by (auto simp del: clone_id)
  have "kept s u" by (simp add: u_def applyDoublesState_def Let_def)
  also have "kept u t"
    using r mapAccumM_map [OF m movePlayerCallback_who]
    by (cases a) (auto simp: kept_players_left dest!: resolveLanding_kept)
  finally show ?thesis .
qed

lemma released_kept [simp]:
  "kept s (releasePlayerFromJail t pid) \<longleftrightarrow> kept s t" "kept (releasePlayerFromJail t pid) s \<longleftrightarrow> kept t s"
  by (simp_all add: releasePlayerFromJail_def)

lemma resolveJailedRoll_kept:
  assumes roll: "resolveJailedRoll s pid dice (\<lambda>u. rollAndMoveIgnoringJail u pid dice True) = Inr (Some (t, evs))"
  shows "kept s t"
proof -
  obtain p where p: "findBy roomPlayerId pid (players s) = Some p" "inJail p"
    using roll by (auto simp: resolveJailedRoll_def split: if_splits)
  consider "isDoubles dice" | "\<not> isDoubles dice" "jailTurnCount p + 1 < MAX_JAIL_TURN_COUNT"
    | "\<not> isDoubles dice" "\<not> jailTurnCount p + 1 < MAX_JAIL_TURN_COUNT" by blast
  then show ?thesis
  proof cases
    case 1
    with roll p show ?thesis
      by (auto simp: resolveJailedRoll_def split_beta dest!: rollAndMoveIgnoringJail_kept)
  next
    case 2
    with roll p show ?thesis by (auto simp: resolveJailedRoll_def Let_def)
  next
    case 3
    obtain v e b where d: "debitPlayerOrCreateDebt s pid JAIL_FINE_AMOUNT Jail_fine None = Inr (v, e, b)"
      using roll p 3 by (auto simp: resolveJailedRoll_def Let_def)
    have "kept s v" by (rule payment_kept(1) [OF d])
    also have "kept v t"
      using roll p 3 d by (cases b) (auto simp: resolveJailedRoll_def split_beta Let_def dest!: rollAndMoveIgnoringJail_kept)
    finally show ?thesis .
  qed
qed

lemma rollAndMove_kept: "rollAndMove s pid dice = Inr (t, evs) \<Longrightarrow> kept s t"
  using resolveJailedRoll_kept [of s pid dice t evs] rollAndMoveIgnoringJail_kept [of s pid dice False t evs]
  by (auto simp: rollAndMove_def split: option.splits)

section \<open>The other operations\<close>

lemma leaving_jail_kept:
  "payJailFine s pid = Inr (t, evs) \<Longrightarrow> kept s t" "useGetOutOfJailCard s pid = Inr (t, evs) \<Longrightarrow> kept s t"
  by (auto simp: payJailFine_def useGetOutOfJailCard_def Let_def dest!: money_kept returnCard_kept)

lemma estate_kept:
  "buildProperty s pid k = Inr (t, evs) \<Longrightarrow> kept s t" "sellBuilding s pid k = Inr (t, evs) \<Longrightarrow> kept s t"
  "mortgageProperty s pid k = Inr (t, evs) \<Longrightarrow> kept s t" "unmortgageProperty s pid k = Inr (t, evs) \<Longrightarrow> kept s t"
  "buyProperty s pid = Inr (t, evs) \<Longrightarrow> kept s t"
  by (auto simp: buildProperty_def sellBuilding_def mortgageProperty_def unmortgageProperty_def buyProperty_def Let_def
      dest!: money_kept split: if_splits option.splits)

lemma auction_kept:
  "declinePropertyPurchase now s pid = Inr (t, evs) \<Longrightarrow> kept s t"
  "placeAuctionBid now s pid n = Inr (t, evs) \<Longrightarrow> kept s t" "passAuctionBid now s pid = Inr (t, evs) \<Longrightarrow> kept s t"
  by (auto simp: declinePropertyPurchase_def placeAuctionBid_def passAuctionBid_def completeAuctionWithWinner_def
      completeAuctionWithoutWinner_def Let_def dest!: money_kept split: if_splits option.splits)

lemma liquidateTradeBuildings_kept: "liquidateTradeBuildings s tid pid ks = Inr (t, evs) \<Longrightarrow> kept s t"
proof (induction ks arbitrary: s evs)
  case (Cons k ks)
  have credit: "kept s v" if "creditPlayer s pid n = Inr u" "kept u v" for n u v
    using money_kept(2) [OF that(1)] that(2) by (rule kept_trans)
  from Cons.prems show ?case by (auto simp: Let_def dest!: Cons.IH dest: credit split: if_splits)
qed simp

lemma transferProperties_kept [simp]:
  "kept s (transferProperties t ks o') \<longleftrightarrow> kept s t"
  by (auto simp: transferProperties_def intro!: kept_properties)

lemma acceptTradeOffer_kept:
  assumes "acceptTradeOffer s trade evs0 = Inr (t, evs)"
  shows "kept s t"
proof -
  have cash: "kept u v" if "(if b then transferPlayerCash u pid pid' n else Inr u) = Inr v" for b u v pid pid' n
    using that money_kept(3) by (auto split: if_splits)
  obtain s1 s2 s3 s4 evs1 evs2 where steps:
    "liquidateTradeBuildings s (trade_id trade) (fromRoomPlayerId trade) (offeredPropertyKeys trade) = Inr (s1, evs1)"
    "liquidateTradeBuildings s1 (trade_id trade) (toRoomPlayerId trade) (requestedPropertyKeys trade) = Inr (s2, evs2)"
    "(if offeredCash trade > 0 then transferPlayerCash s2 (fromRoomPlayerId trade) (toRoomPlayerId trade) (offeredCash trade)
      else Inr s2) = Inr s3"
    "(if requestedCash trade > 0 then transferPlayerCash s3 (toRoomPlayerId trade) (fromRoomPlayerId trade) (requestedCash trade)
      else Inr s3) = Inr s4"
    and t: "kept s4 t"
    using assms by (auto simp: acceptTradeOffer_def Let_def simp del: if_split)
  have "kept s s1" "kept s1 s2" "kept s2 s3" "kept s3 s4"
    using liquidateTradeBuildings_kept [OF steps(1)] liquidateTradeBuildings_kept [OF steps(2)]
      cash [OF steps(3)] cash [OF steps(4)] by simp_all
  with t show ?thesis using kept_trans by blast
qed

lemma proposeTrade_kept:
  assumes "proposeTrade env s input = Inr (t, evs)"
  shows "kept s t"
proof -
  have mark: "kept s u" if "markBotTradeProposal s pid = Inr u" for u pid
    using that by (auto simp: markBotTradeProposal_def split: if_splits)
  obtain u pid where u: "markBotTradeProposal s pid = Inr u" and "kept u t"
    using assms by (auto simp: proposeTrade_def Let_def dest: acceptTradeOffer_kept split: if_splits)
  with mark [OF u] show ?thesis using kept_trans by blast
qed

lemma trade_kept:
  "acceptTrade s pid tid = Inr (t, evs) \<Longrightarrow> kept s t" "rejectTrade s pid tid = Inr (t, evs) \<Longrightarrow> kept s t"
  "cancelTrade s pid tid = Inr (t, evs) \<Longrightarrow> kept s t"
  by (auto simp: acceptTrade_def rejectTrade_def cancelTrade_def dest: acceptTradeOffer_kept)

lemma finish_kept:
  "finishGameByTime s n = Inr (t, evs) \<Longrightarrow> kept s t" "finishGameAfterLastHumanLeft s n = Inr (t, evs) \<Longrightarrow> kept s t"
  by (auto simp: finishGameByTime_def finishGameAfterLastHumanLeft_def finishedState_def)

lemma payDebt_kept: "payDebt s pid = Inr (t, evs) \<Longrightarrow> kept s t"
  by (auto simp: payDebt_def Let_def dest: money_kept split: if_splits)

section \<open>Turns and bankruptcy\<close>

lemma endTurn_advanced: "endTurn s pid = Inr (t, evs) \<Longrightarrow> advanced s t"
  by (auto simp: endTurn_def advanced_def gameFrame_def Let_def split: if_splits)

lemma liquidatePlayerAssets_kept:
  assumes "liquidatePlayerAssets s pid c = Inr t"
  shows "kept s t"
proof -
  have "map tileKey (map (liquidateProperty pid c) ps) = map tileKey ps" for ps
    by (simp add: liquidateProperty_def)
  then show ?thesis
    using assms by (auto simp: liquidatePlayerAssets_def kept_properties dest!: foldM_kept returnCard_kept)
qed

lemma declareBankruptcy_advanced:
  assumes "declareBankruptcy s pid c = Inr (t, evs)"
  shows "advanced s t"
proof -
  have steps: "advanced u (u\<lparr>phase := a, currentTurnRoomPlayerId := b, shouldCurrentPlayerPlayAgain := c',
      consecutiveDoublesCount := d, auction := e, tradeOffer := f, debt := g, pendingTileKey := h\<rparr>)"
    "advanced u (u\<lparr>phase := a, currentTurnRoomPlayerId := b, turnNumber := turnNumber u + 1, shouldCurrentPlayerPlayAgain := c',
      consecutiveDoublesCount := d, lastDiceRoll := k, auction := e, pendingTileKey := h\<rparr>)"
    "advanced u u" for u a b c' d e f g h k
    by (simp_all add: advanced_def gameFrame_def)
  obtain u c' where u: "liquidatePlayerAssets s pid c' = Inr u" "advanced u t"
    using assms steps by (auto simp: declareBankruptcy_def Let_def split: if_splits)
  then show ?thesis using liquidatePlayerAssets_kept [OF u(1)] kept_advanced by blast
qed

lemma autoResolveLoop_kept: "autoResolveLoop fuel s pid evs0 = Inr (t, evs) \<Longrightarrow> kept s t"
proof (induction fuel arbitrary: s evs0)
  case (Suc fuel)
  have step: "sellBuilding s pid k = Inr (u, e) \<Longrightarrow> kept u t \<Longrightarrow> kept s t"
    "mortgageProperty s pid k = Inr (u, e) \<Longrightarrow> kept u t \<Longrightarrow> kept s t" for k u e
    using estate_kept(2,3) kept_trans by blast+
  from Suc.prems show ?case by (auto dest!: Suc.IH dest: step split: if_splits option.splits)
qed simp

lemma autoResolveDebt_advanced:
  assumes "autoResolveDebt s pid = Inr (t, evs)"
  shows "advanced s t"
proof -
  obtain u evs1 where u: "autoResolveLoop (resolutionFuel s) s pid [] = Inr (u, evs1)" and "advanced u t"
    using assms by (auto simp: autoResolveDebt_def dest: payDebt_kept kept_advanced(2) declareBankruptcy_advanced split: if_splits)
  then show ?thesis using autoResolveLoop_kept [OF u] kept_advanced by blast
qed

section \<open>Every intent\<close>

lemmas operation_kept =
  rollAndMove_kept estate_kept auction_kept proposeTrade_kept trade_kept payDebt_kept leaving_jail_kept finish_kept

lemma reduce_advanced:
  assumes "reduceGameEngineIntent env s i = Inr (t, evs)"
  shows "advanced s t"
  using assms
  by (cases i) (auto simp: service_delegates service_rollAndMove_def service_buyProperty_def
      service_declinePropertyPurchase_def service_endTurn_def
      dest: operation_kept [THEN kept_advanced(2)] endTurn_advanced declareBankruptcy_advanced autoResolveDebt_advanced)

lemma advanced_fields:
  assumes "advanced s t"
  shows "roomId t = roomId s" "mode t = mode s" "expiresAt t = expiresAt s" "startedAt t = startedAt s"
    "map whoIs (players t) = map whoIs (players s)" "playerIds t = playerIds s" "turnNumber s \<le> turnNumber t"
proof -
  from assms have who: "map whoIs (players t) = map whoIs (players s)" by (simp add: advanced_def gameFrame_def)
  then have "map fst (map whoIs (players t)) = map fst (map whoIs (players s))" by (rule arg_cong)
  then show "playerIds t = playerIds s" by (simp add: playerIds_def whoIs_def comp_def)
qed (use assms in \<open>auto simp: advanced_def gameFrame_def\<close>)

text \<open>
  Whatever is played, a game stays the game it is: its room, code, board and mode, its times of start and end, who
  plays in which seat and the list of its properties never change, and the turn number never falls and grows by at
  most one with every intent.
\<close>

theorem games_keep_their_frame:
  "gameFrame (play script s) = gameFrame s \<and> turnNumber s \<le> turnNumber (play script s) \<and>
   turnNumber (play script s) \<le> turnNumber s + int (length script)"
proof (induction script arbitrary: s)
  case (Cons x script)
  obtain env i where x: "x = (env, i)" by (cases x)
  show ?case
  proof (cases "reduceGameEngineIntent env s i")
    case (Inr r)
    then obtain t evs where r: "reduceGameEngineIntent env s i = Inr (t, evs)" by (cases r) auto
    have "gameFrame t = gameFrame s" "turnNumber s \<le> turnNumber t" "turnNumber t \<le> turnNumber s + 1"
      using reduce_advanced [OF r] by (simp_all add: advanced_def)
    then show ?thesis using Cons.IH [of t] r by (simp add: x)
  qed (use Cons.IH [of s] in \<open>simp add: x\<close>)
qed simp

end
