(* ===== verification/Game_Service.thy ===== *)
theory Game_Service
  imports Game_Events Game_Frame
begin

text \<open>
  A command from end to end: \<^verbatim>\<open>executeIntent\<close> and \<^verbatim>\<open>executeIntentWithRecovery\<close> of
  \<^verbatim>\<open>src/src/game/commands/game-commands.service.ts\<close>, over the state in Redis, the event log, the snapshots and
  the result tables. Readings of the clock and the availability of the database are arguments; they may differ
  between the first execution and the one after a recovery.
\<close>

section \<open>The services\<close>

record 't Services =
  redis :: "'t keyspace"
  snapshots :: "GameSnapshotRecord list"
  eventLog :: "GameEventLogRecord list"
  tables :: Tables

record Conditions =
  clocks :: "nat \<Rightarrow> Clock"
  appendNow :: int
  snapshotNow :: int
  finalizeNow :: int
  finalSnapshotNow :: int
  logAvailable :: bool
  snapshotsAvailable :: bool
  pow10 :: "rat \<Rightarrow> rat"

text \<open>The catch blocks swallow a failure of the log and of the snapshot.\<close>

definition appendEventsAfterCommand :: "Conditions \<Rightarrow> string \<Rightarrow> GameCommandResult \<Rightarrow> 't Services \<Rightarrow> 't Services" where
  "appendEventsAfterCommand env gameId r sv =
     (if logAvailable env
      then sv\<lparr>eventLog := appendEvents (appendNow env) gameId (result_events r) (eventLog sv)\<rparr> else sv)"

definition service_createSnapshotAfterCommand :: "Conditions \<Rightarrow> string \<Rightarrow> GameEngineState \<Rightarrow> 't Services \<Rightarrow> 't Services" where
  "service_createSnapshotAfterCommand env gameId s sv =
     (if snapshotsAvailable env
      then sv\<lparr>snapshots := createSnapshotAfterCommand (snapshotNow env) gameId s (snapshots sv)\<rparr> else sv)"

text \<open>One transaction: the final snapshot, the results and the statistics, or none of them.\<close>

definition finalizeWithSnapshot ::
  "Conditions \<Rightarrow> string \<Rightarrow> GameEngineState \<Rightarrow> GameEngineEvent list \<Rightarrow> 't Services \<Rightarrow> ServiceError + 't Services" where
  "finalizeWithSnapshot env gameId s evs sv =
     (if phase s \<noteq> Finished then Inr sv
      else case finalizeFinishedGame (pow10 env) (finalizeNow env) gameId s evs (tables sv) of
        Inl e \<Rightarrow> Inl e
      | Inr t \<Rightarrow> Inr (sv\<lparr>tables := t,
          snapshots := createFinalSnapshot (finalSnapshotNow env) gameId s (snapshots sv)\<rparr>))"

definition finalizeGameIfFinished ::
  "Conditions \<Rightarrow> string \<Rightarrow> GameCommandResult \<Rightarrow> 't Services \<Rightarrow> 't Services \<times> (ServiceError + unit)" where
  "finalizeGameIfFinished env gameId r sv =
     (if phase (result_state r) \<noteq> Finished then (sv, Inr ())
      else case finalizeWithSnapshot env gameId (result_state r) (result_events r) sv of
        Inl e \<Rightarrow> (sv, Inl e)
      | Inr sv' \<Rightarrow> (sv', Inr ()))"

definition afterSuccessfulCommand ::
  "Conditions \<Rightarrow> string \<Rightarrow> GameCommandResult \<Rightarrow> 't Services \<Rightarrow> 't Services \<times> (ServiceError + unit)" where
  "afterSuccessfulCommand env gameId r sv =
     finalizeGameIfFinished env gameId r
       (service_createSnapshotAfterCommand env gameId (result_state r)
         (appendEventsAfterCommand env gameId r sv))"

text \<open>The body of the \<^verbatim>\<open>try\<close> block.\<close>

definition tryCommand ::
  "'t Codec \<Rightarrow> Conditions \<Rightarrow> ExecuteGameIntentCommand \<Rightarrow> 't Services \<Rightarrow>
   't Services \<times> (ServiceError + GameCommandResult)" where
  "tryCommand C env input sv =
     (case state_update C (\<lambda>attempt. commandUpdate (clocks env attempt) input) (command_gameId input) (redis sv) of
        (store, Inl e) \<Rightarrow> (sv\<lparr>redis := store\<rparr>, Inl e)
      | (store, Inr r) \<Rightarrow>
          (case afterSuccessfulCommand env (command_gameId input) r (sv\<lparr>redis := store\<rparr>) of
             (sv', Inl e) \<Rightarrow> (sv', Inl e)
           | (sv', Inr _) \<Rightarrow> (sv', Inr r)))"

function executeIntentWithRecovery ::
  "'t Codec \<Rightarrow> (bool \<Rightarrow> Conditions) \<Rightarrow> ExecuteGameIntentCommand \<Rightarrow> bool \<Rightarrow> 't Services \<Rightarrow>
   't Services \<times> (ServiceError + GameCommandResult)" where
  "executeIntentWithRecovery C env input recovered sv =
     (case tryCommand C (env recovered) input sv of
        (sv', Inr r) \<Rightarrow> (sv', Inr r)
      | (sv', Inl e) \<Rightarrow>
          if \<not> recovered \<and> isNotFound e then
            (case recoverOrThrow C (command_gameId input) (snapshots sv') (redis sv') of
               (store, Inl e') \<Rightarrow> (sv'\<lparr>redis := store\<rparr>, Inl e')
             | (store, Inr _) \<Rightarrow> executeIntentWithRecovery C env input True (sv'\<lparr>redis := store\<rparr>))
          else (sv', Inl e))"
  by pat_completeness auto

termination executeIntentWithRecovery
  by (relation "measure (\<lambda>(C, env, input, recovered, sv). if recovered then 0 else 1)") auto

declare executeIntentWithRecovery.simps [simp del]

definition executeIntent ::
  "'t Codec \<Rightarrow> (bool \<Rightarrow> Conditions) \<Rightarrow> ExecuteGameIntentCommand \<Rightarrow> 't Services \<Rightarrow>
   't Services \<times> (ServiceError + GameCommandResult)" where
  "executeIntent C env input sv =
     (case assertIntentActorMatchesCommand input of
        Inl e \<Rightarrow> (sv, Inl e)
      | Inr _ \<Rightarrow> executeIntentWithRecovery C env input False sv)"

section \<open>A refused command\<close>

definition live :: "'t Codec \<Rightarrow> string \<Rightarrow> GameEngineState \<Rightarrow> 't Services \<Rightarrow> bool" where
  "live C gameId s sv \<longleftrightarrow> redis sv (stateKey gameId) = Some (stringify C s)"

lemma tryCommand_live:
  assumes "codecOk C" "live C (command_gameId input) s sv"
  shows "tryCommand C env input sv =
    (case commandUpdate (clocks env 1) input s of
       Inl e \<Rightarrow> (sv, Inl (Engine e))
     | Inr r \<Rightarrow>
         (case afterSuccessfulCommand env (command_gameId input) r
                 (sv\<lparr>redis := state_set C (command_gameId input) (result_state r) (redis sv)\<rparr>) of
            (sv', Inl e) \<Rightarrow> (sv', Inl e)
          | (sv', Inr _) \<Rightarrow> (sv', Inr r)))"
  using assms by (auto simp: tryCommand_def live_def state_update_alone split: sum.split)

text \<open>
  A refused command leaves no trace: when the intent names another player than the sender, or the engine refuses
  it, the caller gets the error and Redis, the event log, the snapshots and the result tables are what they were.
\<close>

theorem refused_commands_leave_no_trace:
  assumes "codecOk C" "live C (command_gameId input) s sv"
    and "assertIntentActorMatchesCommand input = Inl e \<or>
      (\<exists>e'. e = Engine e' \<and> assertIntentActorMatchesCommand input = Inr () \<and>
        commandUpdate (clocks (env False) 1) input s = Inl e')"
  shows "executeIntent C env input sv = (sv, Inl e)"
  using assms(3)
proof
  assume "\<exists>e'. e = Engine e' \<and> assertIntentActorMatchesCommand input = Inr () \<and>
        commandUpdate (clocks (env False) 1) input s = Inl e'"
  then show ?thesis
    using tryCommand_live [OF assms(1,2)] by (auto simp: executeIntent_def executeIntentWithRecovery.simps)
qed (simp add: executeIntent_def)

text \<open>A refused roll: it is not the turn of player b.\<close>

definition rollOutOfTurn :: ExecuteGameIntentCommand where
  "rollOutOfTurn = command_rollAndMove ''g'' ''b'' [1, 2]"

definition calmConditions :: "int \<Rightarrow> Conditions" where
  "calmConditions now = \<lparr>clocks = (\<lambda>_. tick now), appendNow = now, snapshotNow = now, finalizeNow = now, finalSnapshotNow = now,
     logAvailable = True, snapshotsAvailable = True, pow10 = (\<lambda>_. 1)\<rparr>"

definition runningServices :: "GameEngineState option Services" where
  "runningServices = \<lparr>redis = liveStore, snapshots = createStartSnapshot 1 ''g'' freshGame [], eventLog = [],
     tables = emptyTables\<rparr>"

lemma running_live: "live plainCodec ''g'' freshGame runningServices"
  by (simp add: live_def runningServices_def liveStore_holds)

lemma rollOutOfTurn_facts:
  "command_gameId rollOutOfTurn = ''g''" "assertIntentActorMatchesCommand rollOutOfTurn = Inr ()"
  "isl (commandUpdate (tick 5) rollOutOfTurn freshGame)"
  by code_simp+

theorem refused_commands_leave_no_trace_witness:
  "\<exists>e. executeIntent plainCodec (\<lambda>_. calmConditions 5) rollOutOfTurn runningServices = (runningServices, Inl (Engine e))"
proof -
  obtain e where "commandUpdate (tick 5) rollOutOfTurn freshGame = Inl e"
    using rollOutOfTurn_facts(3) by (metis isl_def)
  then have "executeIntent plainCodec (\<lambda>_. calmConditions 5) rollOutOfTurn runningServices = (runningServices, Inl (Engine e))"
    using running_live rollOutOfTurn_facts(1,2)
    by (intro refused_commands_leave_no_trace [of _ _ freshGame]) (simp_all add: calmConditions_def)
  then show ?thesis ..
qed

section \<open>A command that succeeds\<close>

lemma missed_turn_kept [simp]:
  "kept s (incrementMissedTurn t pid n) \<longleftrightarrow> kept s t" "kept s (resetMissedTurn t pid) \<longleftrightarrow> kept s t"
  by (auto simp: incrementMissedTurn_def resetMissedTurn_def intro!: kept_players)

lemma after_engine_kept [simp]:
  "kept s (applyTurnDeadline now now' u t) \<longleftrightarrow> kept s t"
  "kept s (applyCommandSourceToState t source itype actor p n) \<longleftrightarrow> kept s t"
  by (simp_all add: applyTurnDeadline_def applyCommandSourceToState_def Let_def split: GameCommandSource.split)

lemma command_advanced:
  assumes "commandUpdate clk input s = Inr r"
  shows "advanced s (result_state r)"
proof -
  obtain i t evs where t: "reduceGameEngineIntent (engineEnv clk) s i = Inr (t, evs)" and "kept t (result_state r)"
    using assms by (auto simp: commandUpdate_def Let_def)
  then show ?thesis using reduce_advanced [OF t] by (simp add: kept_def advanced_def)
qed

lemma after_unfinished:
  "phase (result_state r) \<noteq> Finished \<Longrightarrow>
   afterSuccessfulCommand env gameId r sv =
     (service_createSnapshotAfterCommand env gameId (result_state r) (appendEventsAfterCommand env gameId r sv), Inr ())"
  by (simp add: afterSuccessfulCommand_def finalizeGameIfFinished_def)

lemma after_redis [simp]:
  "redis (service_createSnapshotAfterCommand env gameId s sv) = redis sv"
  "redis (appendEventsAfterCommand env gameId r sv) = redis sv"
  "tables (service_createSnapshotAfterCommand env gameId s sv) = tables sv"
  "tables (appendEventsAfterCommand env gameId r sv) = tables sv"
  "snapshots (appendEventsAfterCommand env gameId r sv) = snapshots sv"
  "eventLog (service_createSnapshotAfterCommand env gameId s sv) = eventLog sv"
  by (simp_all add: service_createSnapshotAfterCommand_def appendEventsAfterCommand_def)


definition rollInTurn :: ExecuteGameIntentCommand where
  "rollInTurn = command_rollAndMove ''g'' ''a'' [1, 2]"

lemma rollInTurn_facts:
  "command_gameId rollInTurn = ''g''" "assertIntentActorMatchesCommand rollInTurn = Inr ()"
  "case commandUpdate (tick 5) rollInTurn freshGame of Inl _ \<Rightarrow> False
   | Inr r \<Rightarrow> phase (result_state r) \<noteq> Finished"
  by code_simp+

lemma rollInTurn_accepted:
  obtains r where "commandUpdate (tick 5) rollInTurn freshGame = Inr r" "phase (result_state r) \<noteq> Finished"
  using rollInTurn_facts(3) by (auto split: sum.splits)

lemma running_facts:
  "logged ''g'' [] (eventLog runningServices)" "saved ''g'' 1 freshGame (snapshots runningServices)"
  "\<not> terminal (phase freshGame)"
  by (auto simp: runningServices_def terminal_def freshGame_ok(2) intro: logged.empty saved.start)


section \<open>A command on an expired game\<close>

lemma finalize_not_found:
  assumes "finalizeGameIfFinished env gameId r sv = (sv', Inl e)" "findBy game_id gameId (games (tables sv)) \<noteq> None"
  shows "\<not> isNotFound e"
  using assms
  by (auto simp: finalizeGameIfFinished_def finalizeWithSnapshot_def finalizeFinishedGame_def Let_def split: if_splits sum.splits)

lemma tryCommand_found:
  assumes "codecOk C" "live C (command_gameId input) s sv" "findBy game_id (command_gameId input) (games (tables sv)) \<noteq> None"
    and "tryCommand C env input sv = (sv', Inl e)"
  shows "\<not> isNotFound e"
proof (cases "commandUpdate (clocks env 1) input s")
  case (Inr r)
  then show ?thesis
    using assms finalize_not_found tryCommand_live [OF assms(1,2)]
    by (fastforce simp: afterSuccessfulCommand_def split: prod.splits sum.splits)
qed (use assms tryCommand_live [OF assms(1,2)] in auto)

text \<open>
  C19. The expiry of a key is invisible to the player: a command for a game whose state is gone from Redis does what
  it would have done, at the time of its second execution, had the state of the last saved command still been
  there. Without any snapshot it fails as not found and changes nothing.
\<close>

theorem expiry_is_invisible:
  assumes C: "codecOk C" and gone: "redis sv (stateKey (command_gameId input)) = None"
    and authorised: "assertIntentActorMatchesCommand input = Inr ()"
  shows "(saved (command_gameId input) now s (snapshots sv) \<and> findBy game_id (command_gameId input) (games (tables sv)) \<noteq> None \<longrightarrow>
      executeIntent C env input sv =
      executeIntent C (\<lambda>_. env True) input (sv\<lparr>redis := state_set C (command_gameId input) s (redis sv)\<rparr>)) \<and>
    (command_gameId input \<notin> snap_gameId ` set (snapshots sv) \<longrightarrow>
      executeIntent C env input sv = (sv, Inl stateNotFound))"
proof (intro conjI)
  let ?id = "command_gameId input"
  have first: "tryCommand C (env False) input sv = (sv, Inl stateNotFound)" "isNotFound stateNotFound"
    using state_update_missing [of "redis sv" ?id] gone by (simp_all add: tryCommand_def stateNotFound_def)
  show "?id \<notin> snap_gameId ` set (snapshots sv) \<longrightarrow> executeIntent C env input sv = (sv, Inl stateNotFound)"
  proof
    assume none: "?id \<notin> snap_gameId ` set (snapshots sv)"
    then have "filter (\<lambda>r. snap_gameId r = ?id) (snapshots sv) = []" by (force simp: filter_empty_conv)
    then show "executeIntent C env input sv = (sv, Inl stateNotFound)"
      using authorised first by (simp add: executeIntent_def executeIntentWithRecovery.simps recoverOrThrow_def
          restoreLatestSnapshot_def findLatestByGameId_def)
  qed
  let ?sv = "sv\<lparr>redis := state_set C ?id s (redis sv)\<rparr>"
  show "saved ?id now s (snapshots sv) \<and> findBy game_id ?id (games (tables sv)) \<noteq> None \<longrightarrow>
      executeIntent C env input sv = executeIntent C (\<lambda>_. env True) input ?sv"
  proof
    assume saved: "saved ?id now s (snapshots sv) \<and> findBy game_id ?id (games (tables sv)) \<noteq> None"
    have live: "live C ?id s ?sv" by (simp add: live_def state_set_def)
    have "executeIntent C env input sv = executeIntentWithRecovery C env input True ?sv"
      using authorised first saved_restores [of ?id now s "snapshots sv" C] saved
      by (simp add: executeIntent_def executeIntentWithRecovery.simps [of C env input False] recoverOrThrow_def)
    also have "\<dots> = executeIntentWithRecovery C (\<lambda>_. env True) input False ?sv"
      using tryCommand_found [OF C live, of "env True"] saved
      by (auto simp: executeIntentWithRecovery.simps [of C] split: prod.split sum.split)
    finally show "executeIntent C env input sv = executeIntent C (\<lambda>_. env True) input ?sv"
      using authorised by (simp add: executeIntent_def)
  qed
qed

definition expiredServices :: "GameEngineState option Services" where
  "expiredServices = runningServices\<lparr>redis := Map.empty, tables := emptyTables\<lparr>games := [
     \<lparr>game_id = ''g'', game_roomId = ''r'', game_mode = Casual, game_status = ''active'', game_currentTurnRoomPlayerId = None,
      game_turnNumber = 1, game_state = freshGame, game_expiresAt = 100, game_finishedAt = None\<rparr>]\<rparr>\<rparr>"

theorem expiry_is_invisible_witness:
  "redis expiredServices (stateKey ''g'') = None \<and>
   executeIntent plainCodec (\<lambda>_. calmConditions 5) rollInTurn expiredServices =
   executeIntent plainCodec (\<lambda>_. calmConditions 5) rollInTurn (expiredServices\<lparr>redis := state_set plainCodec ''g'' freshGame Map.empty\<rparr>)"
proof -
  have facts: "redis expiredServices = Map.empty" "snapshots expiredServices = snapshots runningServices"
    "findBy game_id ''g'' (games (tables expiredServices)) \<noteq> None"
    by (simp_all add: expiredServices_def)
  then show ?thesis
    using expiry_is_invisible [OF plainCodec_ok _ rollInTurn_facts(2), of expiredServices 1 freshGame "\<lambda>_. calmConditions 5"]
      running_facts(2) by (simp add: rollInTurn_facts(1))
qed

section \<open>Concurrent commands\<close>

definition commandUpdates :: "(nat \<Rightarrow> nat \<Rightarrow> Clock) \<Rightarrow> (nat \<Rightarrow> ExecuteGameIntentCommand) \<Rightarrow> nat \<Rightarrow> updater" where
  "commandUpdates clks inputs i k = commandUpdate (clks i k) (inputs i)"

lemma serial_wf:
  assumes "serial (commandUpdates clks inputs) s0 tr s" "wf_state s0"
  shows "wf_state s \<and> (\<forall>i r. (i, r) \<in> set tr \<longrightarrow> wf_state (result_state r))"
  using assms by induction (auto simp: commandUpdates_def commandUpdate_wf)

text \<open>
  C20. Any number of commands may race for one game: however their reads and writes of Redis interleave, what Redis
  holds is the text of a well-formed game, and so is every state that a client got back.
\<close>

theorem races_keep_games_well_formed:
  assumes "codecOk C" "wf_state s0" "store (stateKey gameId) = Some (stringify C s0)"
    and "store_steps C (commandUpdates clks inputs) (stateKey gameId) (initialWorld store) w"
  shows "(\<forall>raw. keyspace w (stateKey gameId) = Some raw \<longrightarrow> (\<exists>s. jsonParse C raw = Some s \<and> wf_state s)) \<and>
    (\<forall>i r. clients w i = Returned r \<longrightarrow> wf_state (result_state r))"
proof -
  have ok: "worldOk C (commandUpdates clks inputs) (stateKey gameId) s0 w"
    using worldOk_reachable [OF assms(1,4,3)] .
  then obtain s where s: "serial (commandUpdates clks inputs) s0 (commits w) s"
    and stored: "keyspace w (stateKey gameId) = None \<or> keyspace w (stateKey gameId) = Some (stringify C s)"
    by (auto simp: worldOk_def)
  have "(i, r) \<in> set (commits w)" if "clients w i = Returned r" for i r
  proof -
    have "clientOk C (commandUpdates clks inputs i) (keyspace w (stateKey gameId)) i (commits w) (ownSteps w i) (clients w i)"
      using ok by (simp add: worldOk_def)
    then show ?thesis using that by simp
  qed
  then show ?thesis using serial_wf [OF s assms(2)] stored assms(1) by auto
qed

theorem races_keep_games_well_formed_witness:
  "\<exists>w r. store_steps plainCodec (commandUpdates (\<lambda>_ _. tick 5) (\<lambda>_. rollInTurn)) (stateKey ''g'') (initialWorld liveStore) w \<and>
     clients w 0 = Returned r \<and> wf_state (result_state r)"
proof -
  have "commandUpdates (\<lambda>_ _. tick 5) (\<lambda>_. rollInTurn) = rollers"
    by (simp add: fun_eq_iff commandUpdates_def rollers_def rollInTurn_def)
  then obtain w r where w: "store_steps plainCodec (commandUpdates (\<lambda>_ _. tick 5) (\<lambda>_. rollInTurn)) (stateKey ''g'')
      (initialWorld liveStore) w" "clients w 0 = Returned r" using roller_race by metis
  show ?thesis using races_keep_games_well_formed [OF plainCodec_ok freshGame_ok(1) liveStore_holds w(1)] w by blast
qed

end
