(* ===== verification/Rooms_Tables.thy ===== *)
theory Rooms_Tables
  imports Game_Service
begin

text \<open>
  The tables of the lobby and the queries on them: \<^verbatim>\<open>src/src/rooms/repositories/rooms-lobby.repository.ts\<close> and
  \<^verbatim>\<open>rooms-game.repository.ts\<close> over the schema \<^verbatim>\<open>src/src/infra/database/schema/room.schema.ts\<close>. A table is the list of
  its rows in the order of their insertion. An insertion that breaks a constraint of the schema raises the error of
  the database with its SQLSTATE; foreign keys to users are not checked, the sender is an authenticated user.
  Fresh identifiers and the clock are arguments.
\<close>

section \<open>Constants\<close>

definition ROOM_CODE_ALPHABET :: string where
  "ROOM_CODE_ALPHABET = ''ABCDEFGHJKLMNPQRSTUVWXYZabcdefghijkmnopqrstuvwxyz23456789''"

definition ROOM_CODE_LENGTH :: nat where "ROOM_CODE_LENGTH = 8"
definition DEFAULT_ROOM_DURATION_MINUTES :: int where "DEFAULT_ROOM_DURATION_MINUTES = 60"
definition RANKED_ROOM_DURATION_MINUTES :: int where "RANKED_ROOM_DURATION_MINUTES = 60"
definition ROOM_BOARD_KEY :: GameBoardKey where "ROOM_BOARD_KEY = Classic"
definition ROOM_MAX_PLAYERS :: int where "ROOM_MAX_PLAYERS = 4"
definition ROOM_MIN_RANKED_HUMANS :: nat where "ROOM_MIN_RANKED_HUMANS = 3"
definition LIVE_ROOMS_LIMIT :: nat where "LIVE_ROOMS_LIMIT = 50"
definition ACTIVE_ROOM_STATUSES :: "string list" where "ACTIVE_ROOM_STATUSES = [''waiting'', ''active'']"
definition WAITING_ROOM_EXPIRY_MS :: int where "WAITING_ROOM_EXPIRY_MS = 60 * 60 * 1000"
definition ROOM_MAX_SPECTATORS :: nat where "ROOM_MAX_SPECTATORS = 20"

definition BOT_NAMES :: "string list" where
  "BOT_NAMES = [''Atlas'', ''Nova'', ''Midas'', ''Echo'', ''Rook'', ''Pixel'']"

definition DEFAULT_BOT_DIFFICULTY :: BotDifficulty where "DEFAULT_BOT_DIFFICULTY = Normal"

section \<open>Constraints\<close>

definition isRoomCodeUniqueViolation :: "ServiceError \<Rightarrow> bool" where
  "isRoomCodeUniqueViolation e \<longleftrightarrow> e = DatabaseError ''23505''"

definition isSeatUniqueViolation :: "ServiceError \<Rightarrow> bool" where
  "isSeatUniqueViolation e \<longleftrightarrow> isRoomCodeUniqueViolation e"

definition isAlphanumeric :: "char \<Rightarrow> bool" where
  "isAlphanumeric c \<longleftrightarrow>
     c \<in> set ''ABCDEFGHIJKLMNOPQRSTUVWXYZabcdefghijklmnopqrstuvwxyz0123456789''"

definition roomCheck :: "RoomRow \<Rightarrow> bool" where
  "roomCheck r \<longleftrightarrow> room_maxPlayers r = 4 \<and> room_durationMinutes r \<in> {60, 90} \<and>
     length (room_code r) = 8 \<and> list_all isAlphanumeric (room_code r)"

text \<open>The identifier is a \<^verbatim>\<open>uuid\<close>, so it is not empty.\<close>

definition roomPlayerCheck :: "RoomPlayerRow \<Rightarrow> bool" where
  "roomPlayerCheck p \<longleftrightarrow> rp_id p \<noteq> [] \<and> 1 \<le> rp_seatNumber p \<and> rp_seatNumber p \<le> 4 \<and>
     (rp_playerType p = Human \<and> rp_userId p \<noteq> None \<and> rp_botDifficulty p = None \<and> rp_botName p = None \<or>
      rp_playerType p = Bot \<and> rp_userId p = None \<and> rp_botDifficulty p \<noteq> None \<and> rp_botName p \<noteq> None)"

text \<open>Two rows that no table may hold together: the primary key and the two partial unique indexes.\<close>

definition roomPlayersClash :: "RoomPlayerRow \<Rightarrow> RoomPlayerRow \<Rightarrow> bool" where
  "roomPlayersClash p q \<longleftrightarrow> rp_id p = rp_id q \<or>
     rp_roomId p = rp_roomId q \<and> rp_status p = Joined \<and> rp_status q = Joined \<and>
       (rp_userId p \<noteq> None \<and> rp_userId p = rp_userId q \<or> rp_seatNumber p = rp_seatNumber q)"

definition insertRoomPlayer :: "RoomPlayerRow \<Rightarrow> Tables \<Rightarrow> ServiceError + Tables" where
  "insertRoomPlayer p t =
     (if \<not> roomPlayerCheck p then Inl checkViolation
      else if list_ex (roomPlayersClash p) (roomPlayers t) then Inl uniqueViolation
      else Inr (t\<lparr>roomPlayers := roomPlayers t @ [p]\<rparr>))"

section \<open>Rooms\<close>

definition lobby_createRoom ::
  "string \<Rightarrow> int \<Rightarrow> string \<Rightarrow> string \<Rightarrow> int \<Rightarrow> Tables \<Rightarrow> ServiceError + (Tables \<times> RoomRow)" where
  "lobby_createRoom freshId now code host duration t =
     (let r = \<lparr>room_id = freshId, room_code = code, room_hostUserId = host, room_status = ''waiting'',
               room_maxPlayers = ROOM_MAX_PLAYERS, room_durationMinutes = duration, room_boardKey = ROOM_BOARD_KEY,
               room_createdAt = now, room_startedAt = None, room_endedAt = None\<rparr> in
      if \<not> roomCheck r then Inl checkViolation
      else if list_ex (\<lambda>q. room_id q = freshId \<or> room_code q = code) (rooms t) then Inl uniqueViolation
      else Inr (t\<lparr>rooms := rooms t @ [r]\<rparr>, r))"

definition findRoomByCode :: "string \<Rightarrow> Tables \<Rightarrow> RoomRow option" where
  "findRoomByCode code t = findBy room_code code (rooms t)"

text \<open>The same row, locked until the end of the transaction.\<close>

definition lockRoomByCode :: "string \<Rightarrow> Tables \<Rightarrow> RoomRow option" where
  "lockRoomByCode code t = findBy room_code code (rooms t)"

definition isActiveRoom :: "RoomRow \<Rightarrow> bool" where
  "isActiveRoom r \<longleftrightarrow> room_status r \<in> set ACTIVE_ROOM_STATUSES"

text \<open>The inner join of players and rooms, in the order of the players.\<close>

definition findActiveRoomForUser :: "string \<Rightarrow> Tables \<Rightarrow> RoomRow option" where
  "findActiveRoomForUser user t =
     (case List.map_filter (\<lambda>p. findBy room_id (rp_roomId p) (rooms t))
             (filter (\<lambda>p. rp_userId p = Some user \<and> rp_status p = Joined \<and>
                (case findBy room_id (rp_roomId p) (rooms t) of None \<Rightarrow> False | Some r \<Rightarrow> isActiveRoom r)) (roomPlayers t)) of
        [] \<Rightarrow> None
      | r # _ \<Rightarrow> Some r)"

definition repo_listLiveRooms :: "nat \<Rightarrow> Tables \<Rightarrow> RoomRow list" where
  "repo_listLiveRooms limit t = take limit (sort_key (\<lambda>r. - room_createdAt r) (filter isActiveRoom (rooms t)))"

text \<open>\<^verbatim>\<open>update ... where id = ... and status = 'waiting' returning ...\<close>\<close>

definition updateWaitingRoom :: "(RoomRow \<Rightarrow> RoomRow) \<Rightarrow> string \<Rightarrow> Tables \<Rightarrow> Tables \<times> RoomRow option" where
  "updateWaitingRoom f rid t =
     (case findBy room_id rid (rooms t) of
        None \<Rightarrow> (t, None)
      | Some r \<Rightarrow>
          if room_status r \<noteq> ''waiting'' then (t, None)
          else (t\<lparr>rooms := updateBy room_id rid f (rooms t)\<rparr>, Some (f r)))"

definition cancelled :: "int \<Rightarrow> RoomRow \<Rightarrow> RoomRow" where
  "cancelled now r = r\<lparr>room_status := ''cancelled'', room_endedAt := Some now\<rparr>"

definition cancelRoom :: "int \<Rightarrow> string \<Rightarrow> Tables \<Rightarrow> Tables \<times> RoomRow option" where
  "cancelRoom now rid t = updateWaitingRoom (cancelled now) rid t"

definition repo_expireWaitingRoom :: "int \<Rightarrow> string \<Rightarrow> Tables \<Rightarrow> Tables \<times> RoomRow option" where
  "repo_expireWaitingRoom now rid t = updateWaitingRoom (cancelled now) rid t"

definition repo_expireWaitingRooms :: "int \<Rightarrow> int \<Rightarrow> Tables \<Rightarrow> Tables \<times> RoomRow list" where
  "repo_expireWaitingRooms now cutoff t =
     (let due = (\<lambda>r. room_status r = ''waiting'' \<and> room_createdAt r \<le> cutoff) in
      (t\<lparr>rooms := map (\<lambda>r. if due r then cancelled now r else r) (rooms t)\<rparr>, map (cancelled now) (filter due (rooms t))))"

definition repo_startRoom :: "int \<Rightarrow> string \<Rightarrow> Tables \<Rightarrow> Tables \<times> RoomRow option" where
  "repo_startRoom now rid t =
     updateWaitingRoom (\<lambda>r. r\<lparr>room_status := ''active'', room_startedAt := Some now\<rparr>) rid t"

section \<open>Players\<close>

definition addHumanPlayer ::
  "string \<Rightarrow> int \<Rightarrow> string \<Rightarrow> string \<Rightarrow> int \<Rightarrow> Tables \<Rightarrow> ServiceError + Tables" where
  "addHumanPlayer freshId now rid user seat t =
     insertRoomPlayer \<lparr>rp_id = freshId, rp_roomId = rid, rp_userId = Some user, rp_playerType = Human,
       rp_botDifficulty = None, rp_botName = None, rp_seatNumber = seat, rp_status = Joined, rp_joinedAt = now,
       rp_leftAt = None\<rparr> t"

definition addBotPlayer ::
  "string \<Rightarrow> int \<Rightarrow> string \<Rightarrow> int \<Rightarrow> string option \<Rightarrow> BotDifficulty \<Rightarrow> Tables \<Rightarrow>
   ServiceError + (Tables \<times> RoomPlayerRow)" where
  "addBotPlayer freshId now rid seat name difficulty t =
     (let p = \<lparr>rp_id = freshId, rp_roomId = rid, rp_userId = None, rp_playerType = Bot,
               rp_botDifficulty = Some difficulty, rp_botName = name, rp_seatNumber = seat, rp_status = Joined,
               rp_joinedAt = now, rp_leftAt = None\<rparr> in
      andThen (insertRoomPlayer p t) (\<lambda>t'. Inr (t', p)))"

definition joinedIn :: "string \<Rightarrow> RoomPlayerRow \<Rightarrow> bool" where
  "joinedIn rid p \<longleftrightarrow> rp_roomId p = rid \<and> rp_status p = Joined"

definition listJoinedPlayers :: "string \<Rightarrow> Tables \<Rightarrow> RoomPlayerRow list" where
  "listJoinedPlayers rid t = sort_key rp_seatNumber (filter (joinedIn rid) (roomPlayers t))"

definition listPlayers :: "string \<Rightarrow> Tables \<Rightarrow> RoomPlayerRow list" where
  "listPlayers rid t = sort_key rp_seatNumber (filter (joinedIn rid) (roomPlayers t))"

definition listPlayersForRooms :: "string list \<Rightarrow> Tables \<Rightarrow> RoomPlayerRow list" where
  "listPlayersForRooms rids t =
     (if rids = [] then []
      else sort_key rp_seatNumber (filter (\<lambda>p. rp_roomId p \<in> set rids \<and> rp_status p = Joined) (roomPlayers t)))"

definition findJoinedPlayer :: "string \<Rightarrow> string \<Rightarrow> Tables \<Rightarrow> RoomPlayerRow option" where
  "findJoinedPlayer rid user t = find (\<lambda>p. joinedIn rid p \<and> rp_userId p = Some user) (roomPlayers t)"

definition repo_findPlayer :: "string \<Rightarrow> string \<Rightarrow> Tables \<Rightarrow> RoomPlayerRow option" where
  "repo_findPlayer rid user t = find (\<lambda>p. rp_roomId p = rid \<and> rp_userId p = Some user) (roomPlayers t)"

definition countJoinedHumanPlayers :: "string \<Rightarrow> Tables \<Rightarrow> nat" where
  "countJoinedHumanPlayers rid t = length (filter (\<lambda>p. joinedIn rid p \<and> rp_playerType p = Human) (roomPlayers t))"

definition repo_leaveRoom :: "int \<Rightarrow> string \<Rightarrow> string \<Rightarrow> Tables \<Rightarrow> Tables" where
  "repo_leaveRoom now rid user t =
     t\<lparr>roomPlayers := map (\<lambda>p. if joinedIn rid p \<and> rp_userId p = Some user
                                  then p\<lparr>rp_status := Left, rp_leftAt := Some now\<rparr> else p) (roomPlayers t)\<rparr>"

section \<open>Spectators\<close>

definition spectatingIn :: "string \<Rightarrow> RoomSpectatorRow \<Rightarrow> bool" where
  "spectatingIn rid v \<longleftrightarrow> rs_roomId v = rid \<and> rs_leftAt v = None"

definition findCurrentSpectator :: "string \<Rightarrow> string \<Rightarrow> Tables \<Rightarrow> RoomSpectatorRow option" where
  "findCurrentSpectator rid user t = find (\<lambda>v. spectatingIn rid v \<and> rs_userId v = user) (roomSpectators t)"

definition countCurrentSpectators :: "string \<Rightarrow> Tables \<Rightarrow> nat" where
  "countCurrentSpectators rid t = length (filter (spectatingIn rid) (roomSpectators t))"

definition countCurrentSpectatorsForRooms :: "string list \<Rightarrow> Tables \<Rightarrow> (string \<times> nat) list" where
  "countCurrentSpectatorsForRooms rids t =
     map (\<lambda>rid. (rid, countCurrentSpectators rid t))
       (remdups (map rs_roomId (filter (\<lambda>v. rs_roomId v \<in> set rids \<and> rs_leftAt v = None) (roomSpectators t))))"

definition listCurrentSpectatorsForUserRoomIds :: "string \<Rightarrow> string list \<Rightarrow> Tables \<Rightarrow> string list" where
  "listCurrentSpectatorsForUserRoomIds user rids t =
     map rs_roomId (filter (\<lambda>v. rs_userId v = user \<and> rs_roomId v \<in> set rids \<and> rs_leftAt v = None) (roomSpectators t))"

definition createSpectator ::
  "string \<Rightarrow> int \<Rightarrow> string \<Rightarrow> string \<Rightarrow> Tables \<Rightarrow> ServiceError + (Tables \<times> RoomSpectatorRow)" where
  "createSpectator freshId now rid user t =
     (let v = \<lparr>rs_id = freshId, rs_roomId = rid, rs_userId = user, rs_joinedAt = now, rs_leftAt = None\<rparr> in
      if list_ex (\<lambda>w. rs_id w = freshId \<or> spectatingIn rid w \<and> rs_userId w = user) (roomSpectators t)
      then Inl uniqueViolation
      else Inr (t\<lparr>roomSpectators := roomSpectators t @ [v]\<rparr>, v))"

definition endSpectatorSession :: "int \<Rightarrow> string \<Rightarrow> string \<Rightarrow> Tables \<Rightarrow> Tables \<times> RoomSpectatorRow option" where
  "endSpectatorSession now rid user t =
     (let mine = (\<lambda>v. spectatingIn rid v \<and> rs_userId v = user); stop = (\<lambda>v. v\<lparr>rs_leftAt := Some now\<rparr>) in
      (t\<lparr>roomSpectators := map (\<lambda>v. if mine v then stop v else v) (roomSpectators t)\<rparr>,
       map_option stop (find mine (roomSpectators t))))"

section \<open>Games\<close>

definition findActiveGameByRoomId :: "string \<Rightarrow> Tables \<Rightarrow> GameRow option" where
  "findActiveGameByRoomId rid t = find (\<lambda>g. game_roomId g = rid \<and> game_status g = ''active'') (games t)"

definition listActiveGamesForRooms :: "string list \<Rightarrow> Tables \<Rightarrow> GameRow list" where
  "listActiveGamesForRooms rids t = filter (\<lambda>g. game_roomId g \<in> set rids \<and> game_status g = ''active'') (games t)"

definition repo_createGame ::
  "string \<Rightarrow> string \<Rightarrow> GameMode \<Rightarrow> string \<Rightarrow> GameEngineState \<Rightarrow> int \<Rightarrow> Tables \<Rightarrow> ServiceError + (Tables \<times> GameRow)" where
  "repo_createGame freshId rid m current s expires t =
     (let g = \<lparr>game_id = freshId, game_roomId = rid, game_mode = m, game_status = ''active'',
               game_currentTurnRoomPlayerId = Some current, game_turnNumber = 1, game_state = s,
               game_expiresAt = expires, game_finishedAt = None\<rparr> in
      if list_ex (\<lambda>h. game_id h = freshId \<or> game_roomId h = rid) (games t) then Inl uniqueViolation
      else if \<not> list_ex (\<lambda>p. rp_roomId p = rid \<and> rp_id p = current) (roomPlayers t) then Inl (DatabaseError ''23503'')
      else Inr (t\<lparr>games := games t @ [g]\<rparr>, g))"

definition cancelStartedGame :: "int \<Rightarrow> string \<Rightarrow> string \<Rightarrow> Tables \<Rightarrow> Tables" where
  "cancelStartedGame now rid gid t =
     t\<lparr>games := map (\<lambda>g. if game_id g = gid \<and> game_status g = ''active''
                          then g\<lparr>game_status := ''cancelled'', game_finishedAt := Some now\<rparr> else g) (games t),
       rooms := map (\<lambda>r. if room_id r = rid \<and> room_status r = ''active''
                          then cancelled now r else r) (rooms t)\<rparr>"

end
