(* ===== verification/Rooms_Lobby.thy ===== *)
theory Rooms_Lobby
  imports Rooms_Tables
begin

text \<open>
  The lobby: \<^verbatim>\<open>src/src/rooms/services/rooms-lobby.service.ts\<close> and \<^verbatim>\<open>rooms-expiry.service.ts\<close>. Creating, joining,
  leaving and watching a room, and the expiry of waiting rooms. A transaction is a function on the tables that
  returns the new tables, or the exception that rolls it back; locks make transactions of one user or of one room
  exclude each other. What an operation does outside its transactions are separate steps. Publishing changes to
  listeners, queueing jobs and metrics are left out.
\<close>

section \<open>Transactions\<close>

text \<open>A transaction on the tables, committed or rolled back.\<close>

definition commit :: "'t Services \<Rightarrow> ServiceError + (Tables \<times> 'a) \<Rightarrow> 't Services \<times> (ServiceError + 'a)" where
  "commit sv r = (case r of Inl e \<Rightarrow> (sv, Inl e) | Inr (t, x) \<Rightarrow> (sv\<lparr>tables := t\<rparr>, Inr x))"

lemma commit_simps [simp]:
  "commit sv (Inl e) = (sv, Inl e)"
  "commit sv (Inr (t, x)) = (sv\<lparr>tables := t\<rparr>, Inr x)"
  by (simp_all add: commit_def)

section \<open>Rooms\<close>

definition isExpiredWaitingRoom :: "int \<Rightarrow> RoomRow \<Rightarrow> bool" where
  "isExpiredWaitingRoom now r \<longleftrightarrow> room_status r = ''waiting'' \<and> room_createdAt r + WAITING_ROOM_EXPIRY_MS \<le> now"

definition isSpectatableRoomStatus :: "string \<Rightarrow> bool" where
  "isSpectatableRoomStatus status \<longleftrightarrow> status = ''waiting'' \<or> status = ''active''"

text \<open>\<open>draws i\<close> is the \<open>i\<close>-th number of \<^verbatim>\<open>randomInt\<close>.\<close>

definition generateRoomCode :: "(nat \<Rightarrow> nat) \<Rightarrow> string" where
  "generateRoomCode draws = map (\<lambda>i. ROOM_CODE_ALPHABET ! draws i) [0..<ROOM_CODE_LENGTH]"

definition findFirstFreeSeat :: "int list \<Rightarrow> int option" where
  "findFirstFreeSeat occupied = find (\<lambda>seat. seat \<notin> set occupied) [1..ROOM_MAX_PLAYERS]"

definition ensureUserHasNoActiveRoom :: "string \<Rightarrow> Tables \<Rightarrow> ServiceError + unit" where
  "ensureUserHasNoActiveRoom user t =
     raiseIf (findActiveRoomForUser user t \<noteq> None) (ConflictException ''You are already in an active room'')"

definition getCurrentUserAccess :: "string \<Rightarrow> RoomPlayerRow list \<Rightarrow> bool \<Rightarrow> string" where
  "getCurrentUserAccess user ps isCurrentSpectator =
     (if list_ex (\<lambda>p. rp_userId p = Some user \<and> rp_status p = Joined) ps then ''player''
      else if isCurrentSpectator then ''spectator'' else ''none'')"

record RoomPayload =
  payload_room :: RoomRow
  payload_spectatorCount :: nat
  payload_activeGameId :: "string option"
  payload_currentUserAccess :: string
  payload_players :: "RoomPlayerRow list"

definition getRoomPayload :: "int \<Rightarrow> RoomRow \<Rightarrow> string \<Rightarrow> Tables \<Rightarrow> RoomPayload" where
  "getRoomPayload now room user t =
     (let ps = listPlayers (room_id room) t;
          activeGame = (if room_status room = ''active'' then findActiveGameByRoomId (room_id room) t else None) in
      \<lparr>payload_room = room, payload_spectatorCount = countCurrentSpectators (room_id room) t,
       payload_activeGameId =
         (case activeGame of None \<Rightarrow> None | Some g \<Rightarrow> if game_expiresAt g > now then Some (game_id g) else None),
       payload_currentUserAccess =
         getCurrentUserAccess user ps (findCurrentSpectator (room_id room) user t \<noteq> None),
       payload_players = ps\<rparr>)"

section \<open>Games whose time is up\<close>

definition finalizeExpiredWithSnapshot ::
  "Conditions \<Rightarrow> string \<Rightarrow> GameEngineState \<Rightarrow> int \<Rightarrow> 't Services \<Rightarrow> 't Services \<times> (ServiceError + unit)" where
  "finalizeExpiredWithSnapshot env gid s finishedAt sv =
     (if phase s \<noteq> Finished then (sv, Inr ())
      else case calculateNetWorthStandings s of
        Inl e \<Rightarrow> (sv, Inl (Engine e))
      | Inr standings \<Rightarrow>
          (case finalizeWithSnapshot (env\<lparr>finalizeNow := finishedAt\<rparr>) gid s
              [Game_finished_by_time finishedAt (map_option worth_roomPlayerId (getNetWorthWinner standings))
                 (map worth_roomPlayerId (getNetWorthWinners standings)) standings] sv of
             Inl e \<Rightarrow> (sv, Inl e) | Inr sv' \<Rightarrow> (sv', Inr ())))"

definition finalizeAbandonedWithSnapshot ::
  "Conditions \<Rightarrow> string \<Rightarrow> GameEngineState \<Rightarrow> int \<Rightarrow> 't Services \<Rightarrow> 't Services \<times> (ServiceError + unit)" where
  "finalizeAbandonedWithSnapshot env gid s finishedAt sv =
     (if phase s \<noteq> Finished then (sv, Inr ())
      else case calculateNetWorthStandings s of
        Inl e \<Rightarrow> (sv, Inl (Engine e))
      | Inr standings \<Rightarrow>
          (case finalizeWithSnapshot (env\<lparr>finalizeNow := finishedAt\<rparr>) gid s
              [Game_finished_after_last_human_left finishedAt
                 (map_option worth_roomPlayerId (getNetWorthWinner standings))
                 (map worth_roomPlayerId (getNetWorthWinners standings)) standings] sv of
             Inl e \<Rightarrow> (sv, Inl e) | Inr sv' \<Rightarrow> (sv', Inr ())))"

definition recovered :: "'t Codec \<Rightarrow> string \<Rightarrow> 't Services \<Rightarrow> 't Services \<times> (ServiceError + GameEngineState)" where
  "recovered C gid sv =
     (case getOrRecover C gid (snapshots sv) (redis sv) of (store, r) \<Rightarrow> (sv\<lparr>redis := store\<rparr>, r))"

definition timerCommand :: "string \<Rightarrow> GameEngineIntent \<Rightarrow> ExecuteGameIntentCommand" where
  "timerCommand gid i =
     \<lparr>command_gameId = gid, command_roomPlayerId = None, command_intent = i, command_source = Some Source_timer\<rparr>"

text \<open>
  \<open>env\<close> are the conditions under which a command and its repetition run; what follows them runs under
  \<open>env True\<close>.
\<close>

definition finalizeExpiredRoomGame ::
  "'t Codec \<Rightarrow> (bool \<Rightarrow> Conditions) \<Rightarrow> int \<Rightarrow> string \<Rightarrow> 't Services \<Rightarrow> 't Services \<times> (ServiceError + bool)" where
  "finalizeExpiredRoomGame C env now rid sv =
     (case findActiveGameByRoomId rid (tables sv) of
        None \<Rightarrow> (sv, Inr False)
      | Some game \<Rightarrow>
          thenS (recovered C (game_id game) sv) (\<lambda>s sv1.
          let expires = (case expiresAt s of None \<Rightarrow> game_expiresAt game | Some x \<Rightarrow> x) in
          if now < expires then (sv1, Inr False)
          else
            let finishedAt = max now expires in
            if phase s = Finished then
              thenS (finalizeExpiredWithSnapshot (env True) (game_id game) s finishedAt sv1) (\<lambda>_ sv2. (sv2, Inr True))
            else if phase s = Cancelled then (sv1, Inr False)
            else case executeIntent C env (timerCommand (game_id game) (Finish_game_by_time finishedAt)) sv1 of
              (sv2, Inr _) \<Rightarrow> (sv2, Inr True)
            | (sv2, Inl e) \<Rightarrow>
                thenS (recovered C (game_id game) sv2) (\<lambda>repaired sv3.
                if phase repaired \<noteq> Finished then (sv3, Inl e)
                else thenS (finalizeExpiredWithSnapshot (env True) (game_id game) repaired finishedAt sv3)
                       (\<lambda>_ sv4. (sv4, Inr True)))))"

definition finalizeExpiredActiveRoomForUser ::
  "'t Codec \<Rightarrow> (bool \<Rightarrow> Conditions) \<Rightarrow> int \<Rightarrow> string \<Rightarrow> 't Services \<Rightarrow> 't Services \<times> (ServiceError + unit)" where
  "finalizeExpiredActiveRoomForUser C env now user sv =
     (case findActiveRoomForUser user (tables sv) of
        None \<Rightarrow> (sv, Inr ())
      | Some room \<Rightarrow> thenS (finalizeExpiredRoomGame C env now (room_id room) sv) (\<lambda>_ sv'. (sv', Inr ())))"

section \<open>Creating a room\<close>

text \<open>What one attempt draws and is given by the database.\<close>

record Attempt =
  attempt_draws :: "nat \<Rightarrow> nat"
  attempt_roomId :: string
  attempt_playerId :: string
  attempt_now :: int

definition createRoomTx :: "string \<Rightarrow> int option \<Rightarrow> Attempt \<Rightarrow> Tables \<Rightarrow> ServiceError + (Tables \<times> RoomRow)" where
  "createRoomTx user duration a t =
     andThen (ensureUserHasNoActiveRoom user t) (\<lambda>_.
     andThen (lobby_createRoom (attempt_roomId a) (attempt_now a) (generateRoomCode (attempt_draws a)) user
                (case duration of None \<Rightarrow> DEFAULT_ROOM_DURATION_MINUTES | Some d \<Rightarrow> d) t) (\<lambda>(t1, room).
     andThen (addHumanPlayer (attempt_playerId a) (attempt_now a) (room_id room) user 1 t1) (\<lambda>t2.
     Inr (t2, room))))"

fun createRoomLoop :: "string \<Rightarrow> int option \<Rightarrow> Attempt list \<Rightarrow> Tables \<Rightarrow> ServiceError + (Tables \<times> RoomRow)" where
  "createRoomLoop user duration [] t = Inl (ConflictException ''Could not create room'')"
| "createRoomLoop user duration (a # as) t =
     (case createRoomTx user duration a t of
        Inr r \<Rightarrow> Inr r
      | Inl e \<Rightarrow> if isRoomCodeUniqueViolation e then createRoomLoop user duration as t else Inl e)"

definition createRoom ::
  "'t Codec \<Rightarrow> (bool \<Rightarrow> Conditions) \<Rightarrow> int \<Rightarrow> string \<Rightarrow> int option \<Rightarrow> (nat \<Rightarrow> Attempt) \<Rightarrow> 't Services \<Rightarrow>
   't Services \<times> (ServiceError + RoomPayload)" where
  "createRoom C env now user duration attempts sv =
     thenS (finalizeExpiredActiveRoomForUser C env now user sv) (\<lambda>_ sv1.
     thenS (commit sv1 (createRoomLoop user duration (map attempts [0..<5]) (tables sv1))) (\<lambda>room sv2.
     (sv2, Inr (getRoomPayload now room user (tables sv2)))))"

section \<open>Joining a room\<close>

definition joinRoomTx ::
  "string \<Rightarrow> string \<Rightarrow> string \<Rightarrow> int \<Rightarrow> Tables \<Rightarrow> ServiceError + (Tables \<times> (RoomRow \<times> int))" where
  "joinRoomTx user code freshId now t =
     andThen (ensureUserHasNoActiveRoom user t) (\<lambda>_.
     andThen (ofOption (NotFoundException ''Room not found'') (lockRoomByCode code t)) (\<lambda>room.
     andThen (raiseIf (room_status room \<noteq> ''waiting'') (ConflictException ''Room is not open'')) (\<lambda>_.
     andThen (raiseIf (isExpiredWaitingRoom now room) (ConflictException ''Room is not open'')) (\<lambda>_.
     andThen (ofOption (ConflictException ''Room is full'')
                (findFirstFreeSeat (map rp_seatNumber (listJoinedPlayers (room_id room) t)))) (\<lambda>seat.
     case addHumanPlayer freshId now (room_id room) user seat t of
       Inl e \<Rightarrow> if isSeatUniqueViolation e then Inl (ConflictException ''Room seat is no longer available'') else Inl e
     | Inr t' \<Rightarrow> Inr (t', room, seat))))))"

definition joinRoom ::
  "'t Codec \<Rightarrow> (bool \<Rightarrow> Conditions) \<Rightarrow> int \<Rightarrow> string \<Rightarrow> string \<Rightarrow> string \<Rightarrow> 't Services \<Rightarrow>
   't Services \<times> (ServiceError + RoomPayload)" where
  "joinRoom C env now user code freshId sv =
     thenS (finalizeExpiredActiveRoomForUser C env now user sv) (\<lambda>_ sv1.
     thenS (commit sv1 (joinRoomTx user code freshId now (tables sv1))) (\<lambda>(room, seat) sv2.
     (sv2, Inr (getRoomPayload now room user (tables sv2)))))"

section \<open>Leaving a room\<close>

text \<open>What the reads before the first transaction decide.\<close>

datatype LeavePlan =
  Leave_watching RoomRow
| Leave_again
| Leave_as_host RoomRow
| Leave_as_player RoomRow RoomPlayerRow

definition planLeave :: "string \<Rightarrow> string \<Rightarrow> Tables \<Rightarrow> ServiceError + LeavePlan" where
  "planLeave user code t =
     andThen (ofOption (NotFoundException ''Room not found'') (findRoomByCode code t)) (\<lambda>room.
     case findJoinedPlayer (room_id room) user t of
       None \<Rightarrow>
         if findCurrentSpectator (room_id room) user t \<noteq> None then Inr (Leave_watching room)
         else if map_option rp_status (repo_findPlayer (room_id room) user t) = Some Left then Inr Leave_again
         else Inl (NotFoundException ''Room player not found'')
     | Some player \<Rightarrow>
         if room_hostUserId room = user \<and> room_status room = ''waiting'' then Inr (Leave_as_host room)
         else Inr (Leave_as_player room player))"

definition hostLeaveTx :: "int \<Rightarrow> string \<Rightarrow> RoomRow \<Rightarrow> Tables \<Rightarrow> Tables" where
  "hostLeaveTx now user room t = fst (cancelRoom now (room_id room) (repo_leaveRoom now (room_id room) user t))"

record LeaveResult =
  leave_activeGameId :: "string option"
  shouldFinishAfterLastHumanLeft :: bool
  leavingRoomPlayerId :: string

definition leaveRoomTx ::
  "int \<Rightarrow> string \<Rightarrow> string \<Rightarrow> RoomPlayerRow \<Rightarrow> Tables \<Rightarrow> ServiceError + (Tables \<times> LeaveResult)" where
  "leaveRoomTx now user code player t =
     andThen (ofOption (NotFoundException ''Room not found'') (lockRoomByCode code t)) (\<lambda>room.
     case (if room_status room = ''active'' then findActiveGameByRoomId (room_id room) t else None) of
       Some game \<Rightarrow>
         Inr (t, \<lparr>leave_activeGameId = Some (game_id game),
                  shouldFinishAfterLastHumanLeft = (countJoinedHumanPlayers (room_id room) t \<le> 1),
                  leavingRoomPlayerId = rp_id player\<rparr>)
     | None \<Rightarrow>
         Inr (repo_leaveRoom now (room_id room) user t,
              \<lparr>leave_activeGameId = None, shouldFinishAfterLastHumanLeft = False, leavingRoomPlayerId = rp_id player\<rparr>))"

definition leaveFinalTx :: "int \<Rightarrow> string \<Rightarrow> string \<Rightarrow> Tables \<Rightarrow> ServiceError + (Tables \<times> unit)" where
  "leaveFinalTx now user code t =
     andThen (ofOption (NotFoundException ''Room not found'') (lockRoomByCode code t)) (\<lambda>room.
     Inr (repo_leaveRoom now (room_id room) user t, ()))"

definition isRoomPlayerBankruptInGame ::
  "'t Codec \<Rightarrow> string \<Rightarrow> string \<Rightarrow> 't Services \<Rightarrow> 't Services \<times> (ServiceError + bool)" where
  "isRoomPlayerBankruptInGame C gid pid sv =
     thenS (recovered C gid sv) (\<lambda>s sv'.
     (sv', Inr (case findBy roomPlayerId pid (players s) of None \<Rightarrow> False | Some p \<Rightarrow> bankrupt p)))"

definition finalizeRoomAfterLastHumanLeft ::
  "'t Codec \<Rightarrow> (bool \<Rightarrow> Conditions) \<Rightarrow> int \<Rightarrow> string \<Rightarrow> 't Services \<Rightarrow> 't Services \<times> (ServiceError + unit)" where
  "finalizeRoomAfterLastHumanLeft C env finishedAt gid sv =
     thenS (recovered C gid sv) (\<lambda>s sv1.
     if phase s = Finished then finalizeAbandonedWithSnapshot (env True) gid s finishedAt sv1
     else thenS (executeIntent C env (timerCommand gid (Finish_game_after_last_human_left finishedAt)) sv1)
            (\<lambda>_ sv2. (sv2, Inr ())))"

definition forfeitCommand :: "string \<Rightarrow> string \<Rightarrow> ExecuteGameIntentCommand" where
  "forfeitCommand gid pid =
     \<lparr>command_gameId = gid, command_roomPlayerId = Some pid, command_intent = Declare_bankruptcy pid None,
      command_source = Some Source_player\<rparr>"

definition leaveActiveGame ::
  "'t Codec \<Rightarrow> (bool \<Rightarrow> Conditions) \<Rightarrow> int \<Rightarrow> string \<Rightarrow> LeaveResult \<Rightarrow> 't Services \<Rightarrow> 't Services \<times> (ServiceError + unit)" where
  "leaveActiveGame C env now gid r sv =
     (if shouldFinishAfterLastHumanLeft r then finalizeRoomAfterLastHumanLeft C env now gid sv
      else thenS (isRoomPlayerBankruptInGame C gid (leavingRoomPlayerId r) sv) (\<lambda>alreadyBankrupt sv1.
        if alreadyBankrupt then (sv1, Inr ())
        else thenS (executeIntent C env (forfeitCommand gid (leavingRoomPlayerId r)) sv1) (\<lambda>_ sv2. (sv2, Inr ()))))"

definition leaveRoom ::
  "'t Codec \<Rightarrow> (bool \<Rightarrow> Conditions) \<Rightarrow> int \<Rightarrow> string \<Rightarrow> string \<Rightarrow> 't Services \<Rightarrow> 't Services \<times> (ServiceError + string)" where
  "leaveRoom C env now user code sv =
     (case planLeave user code (tables sv) of
        Inl e \<Rightarrow> (sv, Inl e)
      | Inr (Leave_watching room) \<Rightarrow>
          (sv\<lparr>tables := fst (endSpectatorSession now (room_id room) user (tables sv))\<rparr>, Inr ''Room left'')
      | Inr Leave_again \<Rightarrow> (sv, Inr ''Room already left'')
      | Inr (Leave_as_host room) \<Rightarrow>
          (sv\<lparr>tables := hostLeaveTx now user room (tables sv)\<rparr>, Inr ''Room cancelled'')
      | Inr (Leave_as_player room player) \<Rightarrow>
          thenS (commit sv (leaveRoomTx now user code player (tables sv))) (\<lambda>r sv1.
          case leave_activeGameId r of
            None \<Rightarrow> (sv1, Inr ''Room left'')
          | Some gid \<Rightarrow>
              thenS (leaveActiveGame C env now gid r sv1) (\<lambda>_ sv2.
              thenS (commit sv2 (leaveFinalTx now user code (tables sv2))) (\<lambda>_ sv3. (sv3, Inr ''Room left'')))))"

section \<open>Watching a room\<close>

definition notSpectatable :: ServiceError where
  "notSpectatable = ConflictException ''Only waiting or active rooms can be spectated''"

definition spectateTx :: "string \<Rightarrow> string \<Rightarrow> string \<Rightarrow> int \<Rightarrow> Tables \<Rightarrow> ServiceError + (Tables \<times> RoomSpectatorRow)" where
  "spectateTx user code freshId now t =
     andThen (ofOption (NotFoundException ''Room not found'') (lockRoomByCode code t)) (\<lambda>room.
     andThen (raiseIf (\<not> isSpectatableRoomStatus (room_status room)) notSpectatable) (\<lambda>_.
     andThen (raiseIf (isExpiredWaitingRoom now room) notSpectatable) (\<lambda>_.
     andThen (raiseIf (countCurrentSpectators (room_id room) t \<ge> ROOM_MAX_SPECTATORS)
                (ConflictException ''Room spectator limit reached'')) (\<lambda>_.
     createSpectator freshId now (room_id room) user t))))"

definition spectateRoom ::
  "'t Codec \<Rightarrow> (bool \<Rightarrow> Conditions) \<Rightarrow> int \<Rightarrow> string \<Rightarrow> string \<Rightarrow> string \<Rightarrow> 't Services \<Rightarrow>
   't Services \<times> (ServiceError + RoomSpectatorRow)" where
  "spectateRoom C env now user code freshId sv =
     thenS (sv, ofOption (NotFoundException ''Room not found'') (findRoomByCode code (tables sv))) (\<lambda>room sv.
     if \<not> isSpectatableRoomStatus (room_status room) \<or> isExpiredWaitingRoom now room then (sv, Inl notSpectatable)
     else thenS (if room_status room = ''active'' then finalizeExpiredRoomGame C env now (room_id room) sv
                 else (sv, Inr False)) (\<lambda>finished sv1.
       if finished then (sv1, Inl notSpectatable)
       else if findJoinedPlayer (room_id room) user (tables sv1) \<noteq> None
       then (sv1, Inl (ConflictException ''Room players cannot spectate their own room''))
       else case findCurrentSpectator (room_id room) user (tables sv1) of
         Some v \<Rightarrow> (sv1, Inr v)
       | None \<Rightarrow> commit sv1 (spectateTx user code freshId now (tables sv1))))"

definition stopSpectatingRoom :: "int \<Rightarrow> string \<Rightarrow> string \<Rightarrow> Tables \<Rightarrow> ServiceError + (Tables \<times> unit)" where
  "stopSpectatingRoom now user code t =
     andThen (ofOption (NotFoundException ''Room not found'') (findRoomByCode code t)) (\<lambda>room.
     case endSpectatorSession now (room_id room) user t of
       (t', None) \<Rightarrow> Inl (NotFoundException ''Room spectator not found'')
     | (t', Some _) \<Rightarrow> Inr (t', ()))"

section \<open>Reading the lobby\<close>

definition roomHasExpiredActiveGame :: "int \<Rightarrow> string \<Rightarrow> Tables \<Rightarrow> bool" where
  "roomHasExpiredActiveGame now rid t =
     (case findActiveGameByRoomId rid t of None \<Rightarrow> False | Some g \<Rightarrow> game_expiresAt g \<le> now)"

definition getCurrentRoom :: "int \<Rightarrow> string \<Rightarrow> Tables \<Rightarrow> RoomPayload option" where
  "getCurrentRoom now user t =
     (case findActiveRoomForUser user t of
        None \<Rightarrow> None
      | Some room \<Rightarrow>
          if roomHasExpiredActiveGame now (room_id room) t then None
          else if isExpiredWaitingRoom now room then None
          else Some (getRoomPayload now room user t))"

definition getRoomByCode :: "int \<Rightarrow> string \<Rightarrow> string \<Rightarrow> Tables \<Rightarrow> ServiceError + RoomPayload" where
  "getRoomByCode now user code t =
     andThen (ofOption (NotFoundException ''Room not found'') (findRoomByCode code t)) (\<lambda>room.
     Inr (getRoomPayload now
       (if isExpiredWaitingRoom now room
        then room\<lparr>room_status := ''cancelled'', room_endedAt := Some (room_createdAt room + WAITING_ROOM_EXPIRY_MS)\<rparr>
        else room) user t))"

definition getExpiredActiveGameRoomIds :: "int \<Rightarrow> GameRow list \<Rightarrow> string list" where
  "getExpiredActiveGameRoomIds now gs = map game_roomId (filter (\<lambda>g. \<not> game_expiresAt g > now) gs)"

definition liveRoomPayload :: "string \<Rightarrow> RoomPlayerRow list \<Rightarrow> GameRow list \<Rightarrow> string list \<Rightarrow> Tables \<Rightarrow> RoomRow \<Rightarrow> RoomPayload" where
  "liveRoomPayload user ps currentGames spectating t room =
     (let roomPs = filter (\<lambda>p. rp_roomId p = room_id room) ps in
      \<lparr>payload_room = room,
       payload_spectatorCount =
         (case map_of (countCurrentSpectatorsForRooms [room_id room] t) (room_id room) of None \<Rightarrow> 0 | Some n \<Rightarrow> n),
       payload_activeGameId =
         map_option game_id (find (\<lambda>g. game_roomId g = room_id room) (rev currentGames)),
       payload_currentUserAccess = getCurrentUserAccess user roomPs (room_id room \<in> set spectating),
       payload_players = roomPs\<rparr>)"

definition listLiveRooms :: "int \<Rightarrow> string \<Rightarrow> Tables \<Rightarrow> RoomPayload list" where
  "listLiveRooms now user t =
     (let candidates = repo_listLiveRooms LIVE_ROOMS_LIMIT t;
          activeGames = listActiveGamesForRooms (map room_id candidates) t;
          expired = getExpiredActiveGameRoomIds now activeGames;
          nonExpired = filter (\<lambda>r. room_id r \<notin> set expired \<and> \<not> isExpiredWaitingRoom now r) candidates;
          ps = listPlayersForRooms (map room_id nonExpired) t;
          liveRooms = filter (\<lambda>r. list_ex (\<lambda>p. rp_roomId p = room_id r \<and> rp_playerType p = Human \<and> rp_status p = Joined) ps) nonExpired;
          currentGames = filter (\<lambda>g. game_roomId g \<notin> set expired) activeGames;
          spectating = listCurrentSpectatorsForUserRoomIds user (map room_id liveRooms) t in
      map (liveRoomPayload user ps currentGames spectating t) liveRooms)"

section \<open>The expiry of waiting rooms\<close>

definition expireWaitingRooms :: "int \<Rightarrow> int \<Rightarrow> Tables \<Rightarrow> Tables \<times> string list" where
  "expireWaitingRooms now endedAt t =
     (let (t', expired) = repo_expireWaitingRooms endedAt (now - WAITING_ROOM_EXPIRY_MS) t in
      (t', map room_code expired))"

definition expireWaitingRoom :: "int \<Rightarrow> string \<Rightarrow> Tables \<Rightarrow> Tables \<times> string option" where
  "expireWaitingRoom now rid t =
     (let (t', room) = repo_expireWaitingRoom now rid t in (t', map_option room_code room))"

end
