(* ===== verification/Game_Bots.thy ===== *)
theory Game_Bots
  imports Game_Service
begin

text \<open>
  The decisions of a bot: \<^verbatim>\<open>src/src/game/bots/game-bot.service.ts\<close> with the constants \<^verbatim>\<open>GAME_BOTS\<close>. Scores
  and premiums are doubles, computed with the rounded operations of \<^verbatim>\<open>Js_Number\<close>; the dice come from the random
  source and are an argument. Sorting candidates by descending score is the stable sort of the language.
\<close>

section \<open>Constants\<close>

fun cashReserveOf :: "BotDifficulty \<Rightarrow> int" where
  "cashReserveOf Easy = 200" | "cashReserveOf Normal = 350" | "cashReserveOf Hard = 300"

fun buyScoreThreshold :: "BotDifficulty \<Rightarrow> rat" where
  "buyScoreThreshold Easy = 65" | "buyScoreThreshold Normal = 35" | "buyScoreThreshold Hard = 35"

fun auctionMaxPriceRatio :: "BotDifficulty \<Rightarrow> rat" where
  "auctionMaxPriceRatio Easy = fl (55 / 100)" | "auctionMaxPriceRatio Normal = fl (85 / 100)"
| "auctionMaxPriceRatio Hard = fl (105 / 100)"

fun auctionBidStepRatio :: "BotDifficulty \<Rightarrow> rat" where
  "auctionBidStepRatio Easy = fl (3 / 100)" | "auctionBidStepRatio Normal = fl (8 / 100)"
| "auctionBidStepRatio Hard = fl (14 / 100)"

fun auctionSetCompletionPremium :: "BotDifficulty \<Rightarrow> rat" where
  "auctionSetCompletionPremium Easy = 0" | "auctionSetCompletionPremium Normal = fl (35 / 100)"
| "auctionSetCompletionPremium Hard = fl (8 / 10)"

fun auctionBlockPremium :: "BotDifficulty \<Rightarrow> rat" where
  "auctionBlockPremium Easy = 0" | "auctionBlockPremium Normal = fl (15 / 100)"
| "auctionBlockPremium Hard = fl (45 / 100)"

fun setCompletionBonus :: "BotDifficulty \<Rightarrow> rat" where
  "setCompletionBonus Easy = 10" | "setCompletionBonus Normal = 70" | "setCompletionBonus Hard = 100"

fun opponentBlockBonus :: "BotDifficulty \<Rightarrow> rat" where
  "opponentBlockBonus Easy = 0" | "opponentBlockBonus Normal = 30" | "opponentBlockBonus Hard = 80"

fun rentPotentialWeight :: "BotDifficulty \<Rightarrow> rat" where
  "rentPotentialWeight Easy = fl (2 / 10)" | "rentPotentialWeight Normal = fl (6 / 10)" | "rentPotentialWeight Hard = 1"

fun cheapPropertyBias :: "BotDifficulty \<Rightarrow> rat" where
  "cheapPropertyBias Easy = 70" | "cheapPropertyBias Normal = 35" | "cheapPropertyBias Hard = 0"

fun maxDevelopmentLevel :: "BotDifficulty \<Rightarrow> int" where
  "maxDevelopmentLevel Easy = 1" | "maxDevelopmentLevel Normal = 3" | "maxDevelopmentLevel Hard = 5"

fun tradeOfferPriceRatio :: "BotDifficulty \<Rightarrow> rat" where
  "tradeOfferPriceRatio Easy = fl (13 / 10)" | "tradeOfferPriceRatio Normal = fl (12 / 10)"
| "tradeOfferPriceRatio Hard = fl (115 / 100)"

fun acceptanceMarginRatio :: "BotDifficulty \<Rightarrow> rat" where
  "acceptanceMarginRatio Easy = fl (95 / 100)" | "acceptanceMarginRatio Normal = fl (11 / 10)"
| "acceptanceMarginRatio Hard = fl (13 / 10)"

definition mathCeil :: "rat \<Rightarrow> int" where "mathCeil x = \<lceil>x\<rceil>"

section \<open>What a bot sees\<close>

definition bot_difficulty :: "GameEnginePlayer \<Rightarrow> BotDifficulty" where
  "bot_difficulty robot = (case botDifficulty robot of None \<Rightarrow> Normal | Some d \<Rightarrow> d)"

definition cashReserve :: "GameEnginePlayer \<Rightarrow> int" where
  "cashReserve robot = cashReserveOf (bot_difficulty robot)"

definition bot_findPlayer :: "GameEngineState \<Rightarrow> string \<Rightarrow> GameEnginePlayer option" where
  "bot_findPlayer s pid = findBy roomPlayerId pid (players s)"

definition bot_findPropertyState :: "GameEngineState \<Rightarrow> string \<Rightarrow> GameEngineError + GameEngineProperty" where
  "bot_findPropertyState s key =
     ofOption (JsError (''Missing property state for '' @ key)) (findBy tileKey key (properties s))"

definition bot_isOwnableTile :: "GameTile \<Rightarrow> bool" where
  "bot_isOwnableTile tile \<longleftrightarrow> kind tile = Kind_property \<or> kind tile = Kind_airport \<or> kind tile = Kind_utility"

definition getOwnableTile :: "GameEngineState \<Rightarrow> string \<Rightarrow> GameTile option" where
  "getOwnableTile s key =
     (case findTile (getGameBoard (boardKey s)) key of
        None \<Rightarrow> None
      | Some tile \<Rightarrow> if bot_isOwnableTile tile then Some tile else None)"

definition getPendingOwnableTile :: "GameEngineState \<Rightarrow> GameTile option" where
  "getPendingOwnableTile s =
     (if truthy (pendingTileKey s) then getOwnableTile s (the (pendingTileKey s)) else None)"

definition getDevelopmentLevel :: "GameEngineProperty \<Rightarrow> int" where
  "getDevelopmentLevel prop = (if hasHotel prop then 5 else int (houseCount prop))"

definition getPropertySetTiles :: "GameBoard \<Rightarrow> PropertySetKey \<Rightarrow> GameTile list" where
  "getPropertySetTiles board key = filter (\<lambda>t. kind t = Kind_property \<and> setKey t = key) (tiles board)"

definition ownsCompletePropertySet ::
  "GameEngineState \<Rightarrow> GameBoard \<Rightarrow> string \<Rightarrow> PropertySetKey \<Rightarrow> GameEngineError + bool" where
  "ownsCompletePropertySet s board pid key =
     everyM (\<lambda>tile. andThen (bot_findPropertyState s (tile_key tile)) (\<lambda>p. Inr (ownerRoomPlayerId p = Some pid)))
       (getPropertySetTiles board key)"

definition bot_getUnmortgageCost :: "int \<Rightarrow> int" where
  "bot_getUnmortgageCost value = mathCeil (fmul (of_int value) (fl (11 / 10)))"

definition rentPotentialScore :: "GameTile \<Rightarrow> rat" where
  "rentPotentialScore tile =
     (if kind tile = Kind_property then fdiv (of_int (hotelRent tile)) 20
      else if kind tile = Kind_airport then fdiv (of_int (last (rentByOwnedCount tile))) 4
      else fmul (of_int (last (rentMultiplierByOwnedCount tile))) 4)"

definition ownsTile :: "GameEngineState \<Rightarrow> string \<Rightarrow> string \<Rightarrow> bool" where
  "ownsTile s pid key = list_ex (\<lambda>p. tileKey p = key \<and> ownerRoomPlayerId p = Some pid) (properties s)"

definition wouldCompleteSet :: "GameEngineState \<Rightarrow> GameEnginePlayer \<Rightarrow> GameTile \<Rightarrow> bool" where
  "wouldCompleteSet s robot tile =
     list_all (\<lambda>setTile. tile_key setTile = tile_key tile \<or> ownsTile s (roomPlayerId robot) (tile_key setTile))
       (getPropertySetTiles (getGameBoard (boardKey s)) (setKey tile))"

definition wouldBlockOpponentSet :: "GameEngineState \<Rightarrow> GameEnginePlayer \<Rightarrow> GameTile \<Rightarrow> bool" where
  "wouldBlockOpponentSet s robot tile =
     list_ex (\<lambda>opponent. list_all (\<lambda>setTile.
         tile_key setTile = tile_key tile \<or> ownsTile s (roomPlayerId opponent) (tile_key setTile))
         (getPropertySetTiles (getGameBoard (boardKey s)) (setKey tile)))
       (filter (\<lambda>p. roomPlayerId p \<noteq> roomPlayerId robot \<and> \<not> bankrupt p) (players s))"

section \<open>Buying and bidding\<close>

definition scoreTilePurchase :: "GameEngineState \<Rightarrow> GameEnginePlayer \<Rightarrow> GameTile \<Rightarrow> rat" where
  "scoreTilePurchase s robot tile =
     (let d = bot_difficulty robot; remainingCash = cash robot - price tile; reserve = cashReserve robot;
          reservePenalty = (if remainingCash < reserve then fdiv (of_int (reserve - remainingCash)) 10 else 0);
          score0 = fsub (fmul (rentPotentialScore tile) (rentPotentialWeight d)) reservePenalty;
          score1 = (if kind tile = Kind_property \<and> price tile \<le> 160 then fadd score0 (cheapPropertyBias d) else score0);
          score2 = (if kind tile = Kind_property \<and> wouldCompleteSet s robot tile
                    then fadd score1 (setCompletionBonus d) else score1) in
      if kind tile = Kind_property \<and> wouldBlockOpponentSet s robot tile
      then fadd score2 (opponentBlockBonus d) else score2)"

definition shouldBuyTile :: "GameEngineState \<Rightarrow> GameEnginePlayer \<Rightarrow> GameTile \<Rightarrow> bool" where
  "shouldBuyTile s robot tile =
     (if price tile > cash robot then False
      else scoreTilePurchase s robot tile \<ge> buyScoreThreshold (bot_difficulty robot))"

definition choosePropertyDecision :: "GameEngineState \<Rightarrow> GameEnginePlayer \<Rightarrow> GameEngineIntent" where
  "choosePropertyDecision s robot =
     (case getPendingOwnableTile s of
        None \<Rightarrow> Decline_property_purchase (roomPlayerId robot)
      | Some tile \<Rightarrow> if \<not> shouldBuyTile s robot tile then Decline_property_purchase (roomPlayerId robot)
                     else Buy_property (roomPlayerId robot))"

definition getMaxAuctionBid :: "GameEngineState \<Rightarrow> GameEnginePlayer \<Rightarrow> GameTile \<Rightarrow> int" where
  "getMaxAuctionBid s robot tile =
     (let d = bot_difficulty robot;
          strategicPremium = (if kind tile = Kind_property then fdiv (rentPotentialScore tile) 2 else 0);
          setPremium = (if kind tile = Kind_property \<and> wouldCompleteSet s robot tile
                        then fmul (of_int (price tile)) (auctionSetCompletionPremium d) else 0);
          blockPremium = (if kind tile = Kind_property \<and> wouldBlockOpponentSet s robot tile
                          then fmul (of_int (price tile)) (auctionBlockPremium d) else 0) in
      mathFloor (fadd (fadd (fadd (fmul (of_int (price tile)) (auctionMaxPriceRatio d))
                                  (fmul strategicPremium (rentPotentialWeight d))) setPremium) blockPremium))"

definition getAuctionBidAmount :: "GameEnginePlayer \<Rightarrow> GameTile \<Rightarrow> int \<Rightarrow> int \<Rightarrow> int" where
  "getAuctionBidAmount robot tile minimumBid maxBid =
     (let affordableMax = cash robot - cashReserve robot; cappedMaxBid = min maxBid affordableMax;
          bidRoom = cappedMaxBid - minimumBid in
      if bidRoom \<le> 0 then minimumBid
      else let d = bot_difficulty robot;
               tileStep = max 1 (mathFloor (fmul (of_int (price tile)) (auctionBidStepRatio d)));
               pressureStep = (if d = Hard \<and> kind tile = Kind_property
                               then mathFloor (rentPotentialScore tile) else 0) in
           minimumBid + min bidRoom (tileStep + pressureStep))"

definition chooseAuctionDecision :: "GameEngineState \<Rightarrow> GameEnginePlayer \<Rightarrow> GameEngineIntent option" where
  "chooseAuctionDecision s robot =
     (case auction s of
        None \<Rightarrow> None
      | Some a \<Rightarrow>
          if roomPlayerId robot \<in> set (passedRoomPlayerIds a) then None
          else case getOwnableTile s (auction_tileKey a) of
            None \<Rightarrow> Some (Pass_auction_bid (roomPlayerId robot))
          | Some tile \<Rightarrow>
              let maxBid = getMaxAuctionBid s robot tile; nextBid = getMinimumAuctionBid a in
              if nextBid > maxBid \<or> nextBid > cash robot - cashReserve robot
              then Some (Pass_auction_bid (roomPlayerId robot))
              else Some (Place_auction_bid (roomPlayerId robot) (getAuctionBidAmount robot tile nextBid maxBid)))"

definition chooseDebtDecision :: "GameEngineState \<Rightarrow> GameEnginePlayer \<Rightarrow> GameEngineIntent option" where
  "chooseDebtDecision s robot =
     (case debt s of
        None \<Rightarrow> None
      | Some d \<Rightarrow> if debt_roomPlayerId d \<noteq> roomPlayerId robot then None else Some (Auto_resolve_debt (roomPlayerId robot)))"

section \<open>Developing and trading\<close>

record TileCandidate =
  cand_tileKey :: string
  cand_cost :: int
  cand_score :: rat
  cand_level :: int

definition unmortgageCandidate ::
  "GameEngineState \<Rightarrow> GameEnginePlayer \<Rightarrow> GameEngineProperty \<Rightarrow> GameEngineError + TileCandidate option" where
  "unmortgageCandidate s robot prop =
     (case getOwnableTile s (tileKey prop) of
        None \<Rightarrow> Inr None
      | Some tile \<Rightarrow>
          andThen (if kind tile = Kind_property
                   then ownsCompletePropertySet s (getGameBoard (boardKey s)) (roomPlayerId robot) (setKey tile)
                   else Inr False) (\<lambda>complete.
          Inr (Some \<lparr>cand_tileKey = tileKey prop, cand_cost = bot_getUnmortgageCost (mortgageValue tile),
                     cand_score = fadd (rentPotentialScore tile)
                       (if complete then setCompletionBonus (bot_difficulty robot) else 0), cand_level = 0\<rparr>)))"

definition findPropertyToUnmortgage :: "GameEngineState \<Rightarrow> GameEnginePlayer \<Rightarrow> GameEngineError + string option" where
  "findPropertyToUnmortgage s robot =
     andThen (mapM (unmortgageCandidate s robot)
               (filter (\<lambda>p. ownerRoomPlayerId p = Some (roomPlayerId robot) \<and> mortgaged p) (properties s))) (\<lambda>found.
     let candidates = filter (\<lambda>c. cash robot - cand_cost c \<ge> cashReserve robot) (List.map_filter id found) in
     Inr (case sort_key (\<lambda>c. - cand_score c) candidates of [] \<Rightarrow> None | c # _ \<Rightarrow> Some (cand_tileKey c)))"

definition boardSetKeys :: "GameBoard \<Rightarrow> PropertySetKey list" where
  "boardSetKeys board = jsSet (map setKey (filter (\<lambda>t. kind t = Kind_property) (tiles board)))"

text \<open>The body of the loop over the colours; a \<^verbatim>\<open>continue\<close> adds no candidate.\<close>

definition buildCandidates ::
  "GameEngineState \<Rightarrow> GameEnginePlayer \<Rightarrow> PropertySetKey \<Rightarrow> GameEngineError + TileCandidate list" where
  "buildCandidates s robot key =
     (let setTiles = getPropertySetTiles (getGameBoard (boardKey s)) key;
          maxLevel = maxDevelopmentLevel (bot_difficulty robot) in
      andThen (mapM (\<lambda>tile. bot_findPropertyState s (tile_key tile)) setTiles) (\<lambda>setProps.
      if list_ex (\<lambda>p. ownerRoomPlayerId p \<noteq> Some (roomPlayerId robot) \<or> mortgaged p) setProps then Inr []
      else
        let lowestLevel = min_list (map getDevelopmentLevel setProps) in
        if lowestLevel \<ge> maxLevel then Inr []
        else andThen (mapM (\<lambda>tile.
            andThen (bot_findPropertyState s (tile_key tile)) (\<lambda>prop.
            let level = getDevelopmentLevel prop in
            Inr (if level \<noteq> lowestLevel \<or> level \<ge> maxLevel then None
                 else if cash robot - houseCost tile < cashReserve robot then None
                 else Some \<lparr>cand_tileKey = tile_key tile, cand_cost = houseCost tile,
                            cand_score = rentPotentialScore tile, cand_level = level\<rparr>))) setTiles) (\<lambda>found.
          Inr (List.map_filter id found))))"

definition findPropertyToBuild :: "GameEngineState \<Rightarrow> GameEnginePlayer \<Rightarrow> GameEngineError + string option" where
  "findPropertyToBuild s robot =
     andThen (mapM (buildCandidates s robot) (boardSetKeys (getGameBoard (boardKey s)))) (\<lambda>found.
     Inr (case sort_key (\<lambda>c. (cand_level c, - cand_score c)) (concat found) of
            [] \<Rightarrow> None | c # _ \<Rightarrow> Some (cand_tileKey c)))"

record TradeCandidate =
  trade_tileKey :: string
  trade_toRoomPlayerId :: string
  trade_offeredCash :: int
  trade_score :: rat

definition offerRatio :: "GameEnginePlayer \<Rightarrow> GameEnginePlayer \<Rightarrow> rat" where
  "offerRatio robot target =
     max (tradeOfferPriceRatio (bot_difficulty robot))
       (if playerType target = Bot then acceptanceMarginRatio (bot_difficulty target) else 1)"

definition tradeCandidate ::
  "GameEngineState \<Rightarrow> GameEnginePlayer \<Rightarrow> PropertySetKey \<Rightarrow> GameEngineError + TradeCandidate option" where
  "tradeCandidate s robot key =
     (let setTiles = getPropertySetTiles (getGameBoard (boardKey s)) key in
      andThen (mapM (\<lambda>tile. andThen (bot_findPropertyState s (tile_key tile)) (\<lambda>p.
                 Inr (tile, ownerRoomPlayerId p = Some (roomPlayerId robot)))) setTiles) (\<lambda>owned.
      if length (filter snd owned) + 1 \<noteq> length setTiles then Inr None
      else case find (\<lambda>(_, mine). \<not> mine) owned of
        None \<Rightarrow> Inr None
      | Some (missingTile, _) \<Rightarrow>
          andThen (bot_findPropertyState s (tile_key missingTile)) (\<lambda>missing.
          case (if truthy (ownerRoomPlayerId missing) then bot_findPlayer s (the (ownerRoomPlayerId missing)) else None) of
            None \<Rightarrow> Inr None
          | Some target \<Rightarrow>
              if bankrupt target \<or> mortgaged missing \<or> houseCount missing > 0 \<or> hasHotel missing then Inr None
              else
                let offer = mathCeil (fmul (of_int (price missingTile)) (offerRatio robot target)) in
                Inr (if cash robot - offer < cashReserve robot then None
                     else Some \<lparr>trade_tileKey = tile_key missingTile, trade_toRoomPlayerId = roomPlayerId target,
                                trade_offeredCash = offer,
                                trade_score = fadd (rentPotentialScore missingTile)
                                                (setCompletionBonus (bot_difficulty robot))\<rparr>))))"

definition findSetCompletingTradeCandidates ::
  "GameEngineState \<Rightarrow> GameEnginePlayer \<Rightarrow> GameEngineError + TradeCandidate list" where
  "findSetCompletingTradeCandidates s robot =
     andThen (mapM (tradeCandidate s robot) (boardSetKeys (getGameBoard (boardKey s)))) (\<lambda>found.
     Inr (sort_key (\<lambda>c. - trade_score c) (List.map_filter id found)))"

definition chooseTradeProposal :: "GameEngineState \<Rightarrow> GameEnginePlayer \<Rightarrow> GameEngineError + GameEngineIntent option" where
  "chooseTradeProposal s robot =
     (if lastBotTradeProposalTurnNumber robot = Some (turnNumber s) then Inr None
      else andThen (findSetCompletingTradeCandidates s robot) (\<lambda>candidates.
        Inr (case candidates of
               [] \<Rightarrow> None
             | c # _ \<Rightarrow> Some (Propose_trade
                 \<lparr>propose_roomPlayerId = roomPlayerId robot, propose_toRoomPlayerId = trade_toRoomPlayerId c,
                  propose_offeredCash = trade_offeredCash c, propose_requestedCash = 0,
                  propose_offeredPropertyKeys = [], propose_requestedPropertyKeys = [trade_tileKey c],
                  propose_tradeId = None\<rparr>))))"

definition chooseTradeResponseDecision ::
  "GameEngineState \<Rightarrow> GameEnginePlayer \<Rightarrow> GameEngineError + GameEngineIntent option" where
  "chooseTradeResponseDecision s robot =
     (case tradeOffer s of
        None \<Rightarrow> Inr None
      | Some offer \<Rightarrow>
          if toRoomPlayerId offer \<noteq> roomPlayerId robot then Inr None
          else andThen (shouldBotAcceptTrade s offer) (\<lambda>accept.
            Inr (Some (if accept then Accept_trade (roomPlayerId robot) (trade_id offer)
                       else Reject_trade (roomPlayerId robot) (trade_id offer)))))"

section \<open>The decision\<close>

definition shouldPayJailFine :: "GameEnginePlayer \<Rightarrow> bool" where
  "shouldPayJailFine robot =
     (if cash robot < 50 then False else botDifficulty robot = Some Hard \<or> jailTurnCount robot \<ge> 2)"

definition chooseTurnEndDecision ::
  "GameEngineState \<Rightarrow> GameEnginePlayer \<Rightarrow> GameEngineError + GameEngineIntent option" where
  "chooseTurnEndDecision s robot =
     (if tradeOffer s \<noteq> None then chooseTradeResponseDecision s robot
      else andThen (findPropertyToUnmortgage s robot) (\<lambda>unmortgage.
        if truthy unmortgage then Inr (Some (Unmortgage_property (roomPlayerId robot) (the unmortgage)))
        else andThen (findPropertyToBuild s robot) (\<lambda>build.
          if truthy build then Inr (Some (Build_property (roomPlayerId robot) (the build)))
          else andThen (chooseTradeProposal s robot) (\<lambda>proposal.
            Inr (Some (case proposal of Some i \<Rightarrow> i | None \<Rightarrow> End_turn (roomPlayerId robot)))))))"

definition chooseIntentForBot ::
  "DiceRoll \<Rightarrow> GameEngineState \<Rightarrow> GameEnginePlayer \<Rightarrow> GameEngineError + GameEngineIntent option" where
  "chooseIntentForBot dice s robot =
     (case phase s of
        Awaiting_first_turn \<Rightarrow>
          Inr (Some (if inJail robot \<and> shouldPayJailFine robot then Pay_jail_fine (roomPlayerId robot)
                     else Roll_and_move (roomPlayerId robot) [fst dice, snd dice]))
      | Awaiting_roll \<Rightarrow>
          Inr (Some (if inJail robot \<and> shouldPayJailFine robot then Pay_jail_fine (roomPlayerId robot)
                     else Roll_and_move (roomPlayerId robot) [fst dice, snd dice]))
      | Awaiting_property_decision \<Rightarrow> Inr (Some (choosePropertyDecision s robot))
      | Awaiting_auction_bid \<Rightarrow> Inr (chooseAuctionDecision s robot)
      | Awaiting_debt_resolution \<Rightarrow> Inr (chooseDebtDecision s robot)
      | Awaiting_turn_end \<Rightarrow> chooseTurnEndDecision s robot
      | _ \<Rightarrow> Inr None)"

definition findActionBot :: "GameEngineState \<Rightarrow> GameEnginePlayer option" where
  "findActionBot s =
     (if phase s = Finished \<or> phase s = Cancelled then None
      else if phase s = Awaiting_auction_bid \<and> auction s \<noteq> None then
        let bidder = getCurrentAuctionBidderRoomPlayerId (auction s) in
        case (if truthy bidder then bot_findPlayer s (the bidder) else None) of
          None \<Rightarrow> None
        | Some p \<Rightarrow> if playerType p = Bot then Some p else None
      else case bot_findPlayer s (currentTurnRoomPlayerId s) of
        None \<Rightarrow> None
      | Some p \<Rightarrow> if playerType p \<noteq> Bot then None else if bankrupt p then None else Some p)"

record BotDecision =
  decision_roomPlayerId :: string
  decision_intent :: GameEngineIntent

definition chooseDecision :: "DiceRoll \<Rightarrow> GameEngineState \<Rightarrow> GameEngineError + BotDecision option" where
  "chooseDecision dice s =
     (case findActionBot s of
        None \<Rightarrow> Inr None
      | Some robot \<Rightarrow>
          andThen (chooseIntentForBot dice s robot) (\<lambda>intent.
          Inr (map_option (\<lambda>i. \<lparr>decision_roomPlayerId = roomPlayerId robot, decision_intent = i\<rparr>) intent)))"

definition hasActionableBot :: "DiceRoll \<Rightarrow> GameEngineState \<Rightarrow> GameEngineError + bool" where
  "hasActionableBot dice s = andThen (chooseDecision dice s) (\<lambda>d. Inr (d \<noteq> None))"

end
