(* ===== verification/Game_Jobs.thy ===== *)
theory Game_Jobs
  imports Rooms_Lobby Game_Bots
begin

text \<open>
  What keeps a game going when nobody sends a command: the jobs of bots, turn timers and the end of a game
  (\<^verbatim>\<open>src/src/game/bots/game-bot-queue.service.ts\<close>, \<^verbatim>\<open>src/src/game/timers/game-turn-timer-queue.service.ts\<close>) and the
  worker that carries them out (\<^verbatim>\<open>src/src/game/jobs/game.processor.ts\<close>). The job queue itself is a library: its
  operations are the fields of \<open>JobQueue\<close>, and \<open>queueOk\<close> states what its documentation promises. Clocks, dice,
  the random delay of a bot and the availability of Redis are arguments.
\<close>

section \<open>Text of numbers and keys\<close>

fun showNat :: "nat \<Rightarrow> string" where
  "showNat n = (if n < 10 then [''0123456789'' ! n] else showNat (n div 10) @ [''0123456789'' ! (n mod 10)])"

declare showNat.simps [simp del]

text \<open>\<^verbatim>\<open>String(n)\<close> of an integer below \<open>10 ^ 21\<close>, where JavaScript starts to write exponents.\<close>

definition showInt :: "int \<Rightarrow> string" where
  "showInt i = (if i < 0 then ''-'' @ showNat (nat (- i)) else showNat (nat i))"

fun joinWith :: "string \<Rightarrow> string list \<Rightarrow> string" where
  "joinWith sep [] = []"
| "joinWith sep [x] = x"
| "joinWith sep (x # y # ys) = x @ sep @ joinWith sep (y # ys)"

definition orNone :: "string option \<Rightarrow> string" where
  "orNone x = (case x of None \<Rightarrow> ''none'' | Some t \<Rightarrow> t)"

fun phaseName :: "GamePhase \<Rightarrow> string" where
  "phaseName Awaiting_first_turn = ''awaiting_first_turn''"
| "phaseName Awaiting_roll = ''awaiting_roll''"
| "phaseName Awaiting_property_decision = ''awaiting_property_decision''"
| "phaseName Awaiting_auction_bid = ''awaiting_auction_bid''"
| "phaseName Awaiting_debt_resolution = ''awaiting_debt_resolution''"
| "phaseName Awaiting_turn_end = ''awaiting_turn_end''"
| "phaseName Finished = ''finished''"
| "phaseName Cancelled = ''cancelled''"

definition auctionKey :: "GameEngineAuction \<Rightarrow> string" where
  "auctionKey a = joinWith ''_'' [''auction'', showInt (currentBid a), orNone (highestBidderRoomPlayerId a),
     orNone (currentBidderRoomPlayerId a), orNone (map_option showInt (bidExpiresAt a)),
     (if joinWith ''-'' (passedRoomPlayerIds a) = [] then ''none'' else joinWith ''-'' (passedRoomPlayerIds a))]"

definition timer_getActionStateKey :: "GameEngineState \<Rightarrow> string" where
  "timer_getActionStateKey s =
     (if phase s \<noteq> Awaiting_auction_bid \<or> auction s = None
      then joinWith ''_'' [''turn'', orNone (map_option showInt (turnExpiresAt s))]
      else auctionKey (the (auction s)))"

definition bot_getActionStateKey :: "GameEngineState \<Rightarrow> string" where
  "bot_getActionStateKey s =
     (if phase s \<noteq> Awaiting_auction_bid \<or> auction s = None then ''turn'' else auctionKey (the (auction s)))"

section \<open>Jobs and their queue\<close>

record ExecuteTurnTimeoutJob =
  timeout_gameId :: string
  timeout_turnNumber :: int
  timeout_phase :: GamePhase
  timeout_player :: string
  timeout_actionStateKey :: string

record FinishExpiredGameJob =
  expiry_gameId :: string
  expiry_expiresAt :: int

datatype GameJob =
  Execute_bot_turn string
| Execute_turn_timeout ExecuteTurnTimeoutJob
| Finish_expired_game FinishExpiredGameJob
| Refresh_snapshots string

datatype JobState = Job_waiting | Job_delayed | Job_active | Job_completed | Job_failed

text \<open>
  \<open>queue_state\<close> is \<^verbatim>\<open>getJob\<close> followed by \<^verbatim>\<open>getState\<close>; \<open>queue_job\<close> is what a worker is handed, with the delay asked for.
\<close>

record 'q JobQueue =
  queue_state :: "string \<Rightarrow> 'q \<Rightarrow> JobState option"
  queue_job :: "string \<Rightarrow> 'q \<Rightarrow> (GameJob \<times> int) option"
  queue_remove :: "string \<Rightarrow> 'q \<Rightarrow> 'q"
  queue_add :: "string \<Rightarrow> GameJob \<Rightarrow> int \<Rightarrow> 'q \<Rightarrow> 'q"

text \<open>
  As documented: a job is added under a new id as delayed or waiting, provided the id has no colon; adding a job under
  an id that the queue still knows, whatever the state of that job, is ignored; removing a job forgets it. Other jobs
  are not touched.
\<close>

definition queueOk :: "'q JobQueue \<Rightarrow> bool" where
  "queueOk Q \<longleftrightarrow>
     (\<forall>i q. (queue_job Q i q = None) = (queue_state Q i q = None)) \<and>
     (\<forall>i j d q. queue_state Q i q = None \<and> CHR '':'' \<notin> set i \<longrightarrow>
        queue_state Q i (queue_add Q i j d q) = Some (if d > 0 then Job_delayed else Job_waiting) \<and>
        queue_job Q i (queue_add Q i j d q) = Some (j, d)) \<and>
     (\<forall>i j d q. queue_state Q i q \<noteq> None \<longrightarrow> queue_add Q i j d q = q) \<and>
     (\<forall>i i' j d q. i' \<noteq> i \<longrightarrow> queue_state Q i' (queue_add Q i j d q) = queue_state Q i' q \<and>
        queue_job Q i' (queue_add Q i j d q) = queue_job Q i' q) \<and>
     (\<forall>i q. queue_state Q i (queue_remove Q i q) = None) \<and>
     (\<forall>i i' q. i' \<noteq> i \<longrightarrow> queue_state Q i' (queue_remove Q i q) = queue_state Q i' q \<and>
        queue_job Q i' (queue_remove Q i q) = queue_job Q i' q)"

section \<open>The turn timer\<close>

definition timerJob :: "string \<Rightarrow> GameEngineState \<Rightarrow> ExecuteTurnTimeoutJob" where
  "timerJob gid s =
     \<lparr>timeout_gameId = gid, timeout_turnNumber = turnNumber s, timeout_phase = phase s,
      timeout_player = currentTurnRoomPlayerId s, timeout_actionStateKey = timer_getActionStateKey s\<rparr>"

definition timer_jobId :: "ExecuteTurnTimeoutJob \<Rightarrow> string" where
  "timer_jobId d = joinWith ''__'' [''turn-timeout'', timeout_gameId d, showInt (timeout_turnNumber d),
     phaseName (timeout_phase d), timeout_player d, timeout_actionStateKey d]"

definition getTurnTimerDelay :: "int \<Rightarrow> GameEngineState \<Rightarrow> int" where
  "getTurnTimerDelay now s =
     (if phase s = Awaiting_auction_bid \<and> auction s \<noteq> None then getAuctionBidDelay now s
      else if truthyNum (turnExpiresAt s) then max (the (turnExpiresAt s) - now) 0
      else turnTimeoutMs)"

definition removeFailedDuplicateJob :: "'q JobQueue \<Rightarrow> string \<Rightarrow> 'q \<Rightarrow> 'q" where
  "removeFailedDuplicateJob Q i q = (if queue_state Q i q \<noteq> Some Job_failed then q else queue_remove Q i q)"

text \<open>What the client of Redis throws; \<open>up\<close> says whether Redis answers.\<close>

definition queueDown :: ServiceError where "queueDown = Engine (JsError ''ECONNREFUSED'')"

definition enqueueTurnTimer ::
  "'q JobQueue \<Rightarrow> bool \<Rightarrow> int \<Rightarrow> string \<Rightarrow> GameEngineState \<Rightarrow> 'q \<Rightarrow> ServiceError + 'q" where
  "enqueueTurnTimer Q up now gid s q =
     (if phase s = Finished \<or> phase s = Cancelled then Inr q
      else
        let d = timerJob gid s; delay = getTurnTimerDelay now s; i = timer_jobId d in
        if \<not> up then Inl queueDown
        else Inr (queue_add Q i (Execute_turn_timeout d) delay (removeFailedDuplicateJob Q i q)))"

definition expiry_jobId :: "string \<Rightarrow> string" where
  "expiry_jobId gid = joinWith ''__'' [''game-expiry'', gid]"

definition enqueueGameExpiry ::
  "'q JobQueue \<Rightarrow> bool \<Rightarrow> int \<Rightarrow> string \<Rightarrow> int \<Rightarrow> 'q \<Rightarrow> ServiceError + 'q" where
  "enqueueGameExpiry Q up now gid expires q =
     (if expires \<le> 0 then Inr q
      else
        let i = expiry_jobId gid in
        if \<not> up then Inl queueDown
        else Inr (queue_add Q i (Finish_expired_game \<lparr>expiry_gameId = gid, expiry_expiresAt = expires\<rparr>)
               (max (expires - now) 0) (removeFailedDuplicateJob Q i q)))"

section \<open>The bots\<close>

definition actionDelayMin :: int where "actionDelayMin = 900"
definition actionDelayMax :: int where "actionDelayMax = 1800"

definition getActionDelay :: "rat \<Rightarrow> GameEngineState \<Rightarrow> int" where
  "getActionDelay random s =
     (if phase s = Awaiting_turn_end then 0
      else mathRound (fadd (of_int actionDelayMin) (fmul random (of_int (actionDelayMax - actionDelayMin)))))"

definition bot_jobId :: "string \<Rightarrow> GameEngineState \<Rightarrow> string \<Rightarrow> string" where
  "bot_jobId gid s pid = joinWith ''__'' [''bot-turn'', gid, showInt (turnNumber s), phaseName (phase s), pid,
     bot_getActionStateKey s]"

definition removeRecoverableDuplicateJob :: "'q JobQueue \<Rightarrow> string \<Rightarrow> 'q \<Rightarrow> 'q \<times> JobState option" where
  "removeRecoverableDuplicateJob Q i q =
     (case queue_state Q i q of
        None \<Rightarrow> (q, None)
      | Some st \<Rightarrow> (if st = Job_failed \<or> st = Job_completed then queue_remove Q i q else q, Some st))"

definition enqueueIfBotCanAct ::
  "'q JobQueue \<Rightarrow> bool \<Rightarrow> DiceRoll \<Rightarrow> rat \<Rightarrow> string \<Rightarrow> GameEngineState \<Rightarrow> 'q \<Rightarrow> ServiceError + 'q" where
  "enqueueIfBotCanAct Q up dice random gid s q =
     (case chooseDecision dice s of
        Inl e \<Rightarrow> Inl (Engine e)
      | Inr None \<Rightarrow> Inr q
      | Inr (Some decision) \<Rightarrow>
          let delay = getActionDelay random s; i = bot_jobId gid s (decision_roomPlayerId decision) in
          if \<not> up then Inl queueDown
          else Inr (queue_add Q i (Execute_bot_turn gid) delay (fst (removeRecoverableDuplicateJob Q i q))))"

section \<open>The worker\<close>

record ('t, 'q) JobWorld =
  job_services :: "'t Services"
  job_queue :: 'q
  job_published :: "(string \<times> GameCommandResult) list"

record JobConditions =
  job_command :: "bool \<Rightarrow> Conditions"
  job_now :: int
  job_repairNow :: int
  job_dice :: DiceRoll
  job_nextDice :: DiceRoll
  job_random :: rat
  job_delayNow :: int
  publishUp :: bool
  botQueueUp :: bool
  timerQueueUp :: bool

datatype JobOutcome = Job_skipped | Job_repaired | Job_executed GameCommandResult

definition publishCommandResult ::
  "bool \<Rightarrow> string \<Rightarrow> GameCommandResult \<Rightarrow> ('t, 'q) JobWorld \<Rightarrow> ('t, 'q) JobWorld \<times> (ServiceError + unit)" where
  "publishCommandResult up gid r w =
     (if up then (w\<lparr>job_published := job_published w @ [(gid, r)]\<rparr>, Inr ()) else (w, Inl queueDown))"

text \<open>A failed step of \<^verbatim>\<open>afterAutomatedCommand\<close> is recorded and the next one is tried.\<close>

definition queueTry :: "('q \<Rightarrow> ServiceError + 'q) \<Rightarrow> ('t, 'q) JobWorld \<Rightarrow> ('t, 'q) JobWorld" where
  "queueTry f w = (case f (job_queue w) of Inl _ \<Rightarrow> w | Inr q \<Rightarrow> w\<lparr>job_queue := q\<rparr>)"

definition afterAutomatedCommand ::
  "'q JobQueue \<Rightarrow> JobConditions \<Rightarrow> string \<Rightarrow> GameEngineState \<Rightarrow> GameCommandResult \<Rightarrow> ('t, 'q) JobWorld \<Rightarrow> ('t, 'q) JobWorld" where
  "afterAutomatedCommand Q jc gid s r w =
     queueTry (enqueueTurnTimer Q (timerQueueUp jc) (job_delayNow jc) gid s)
       (queueTry (enqueueIfBotCanAct Q (botQueueUp jc) (job_nextDice jc) (job_random jc) gid s)
         (fst (publishCommandResult (publishUp jc) gid r w)))"

definition onServices ::
  "('t Services \<Rightarrow> 't Services \<times> 'a) \<Rightarrow> ('t, 'q) JobWorld \<Rightarrow> ('t, 'q) JobWorld \<times> 'a" where
  "onServices f w = (case f (job_services w) of (sv, x) \<Rightarrow> (w\<lparr>job_services := sv\<rparr>, x))"

definition botCommand :: "string \<Rightarrow> BotDecision \<Rightarrow> ExecuteGameIntentCommand" where
  "botCommand gid d = \<lparr>command_gameId = gid, command_roomPlayerId = Some (decision_roomPlayerId d),
     command_intent = decision_intent d, command_source = Some Source_bot\<rparr>"

definition processExecuteBotTurn ::
  "'t Codec \<Rightarrow> 'q JobQueue \<Rightarrow> JobConditions \<Rightarrow> string \<Rightarrow> ('t, 'q) JobWorld \<Rightarrow>
   ('t, 'q) JobWorld \<times> (ServiceError + JobOutcome)" where
  "processExecuteBotTurn C Q jc gid w =
     thenS (onServices (recovered C gid) w) (\<lambda>s w1.
     case chooseDecision (job_dice jc) s of
       Inl e \<Rightarrow> (w1, Inl (Engine e))
     | Inr None \<Rightarrow>
         (case enqueueTurnTimer Q (timerQueueUp jc) (job_delayNow jc) gid s (job_queue w1) of
            Inl e \<Rightarrow> (w1, Inl e)
          | Inr q \<Rightarrow> (w1\<lparr>job_queue := q\<rparr>, Inr Job_skipped))
     | Inr (Some decision) \<Rightarrow>
         thenS (onServices (executeIntent C (job_command jc) (botCommand gid decision)) w1) (\<lambda>r w2.
         (afterAutomatedCommand Q jc gid (result_state r) r w2, Inr (Job_executed r))))"

definition isTimerJobCurrent :: "ExecuteTurnTimeoutJob \<Rightarrow> GameEngineState \<Rightarrow> bool" where
  "isTimerJobCurrent d s \<longleftrightarrow>
     timeout_turnNumber d = turnNumber s \<and> timeout_phase d = phase s \<and>
     timeout_player d = currentTurnRoomPlayerId s \<and> timeout_actionStateKey d = timer_getActionStateKey s"

definition timeoutCommand :: "string \<Rightarrow> GameEngineIntent \<Rightarrow> ExecuteGameIntentCommand" where
  "timeoutCommand gid i = \<lparr>command_gameId = gid, command_roomPlayerId = getIntentActorRoomPlayerId i,
     command_intent = i, command_source = Some Source_timer\<rparr>"

definition processExecuteTurnTimeout ::
  "'t Codec \<Rightarrow> 'q JobQueue \<Rightarrow> JobConditions \<Rightarrow> ExecuteTurnTimeoutJob \<Rightarrow> ('t, 'q) JobWorld \<Rightarrow>
   ('t, 'q) JobWorld \<times> (ServiceError + JobOutcome)" where
  "processExecuteTurnTimeout C Q jc d w =
     thenS (onServices (recovered C (timeout_gameId d)) w) (\<lambda>s w1.
     if \<not> isTimerJobCurrent d s then (w1, Inr Job_skipped)
     else case chooseTimeoutIntent (job_now jc) (job_dice jc) s of
       None \<Rightarrow> (w1, Inr Job_skipped)
     | Some i \<Rightarrow>
         thenS (onServices (executeIntent C (job_command jc) (timeoutCommand (timeout_gameId d) i)) w1) (\<lambda>r w2.
         (afterAutomatedCommand Q jc (timeout_gameId d) (result_state r) r w2, Inr (Job_executed r))))"

definition isGameNotActive :: "ServiceError \<Rightarrow> bool" where
  "isGameNotActive e \<longleftrightarrow> e = Engine (EngineError GAME_NOT_ACTIVE)"

definition processFinishExpiredGame ::
  "'t Codec \<Rightarrow> JobConditions \<Rightarrow> FinishExpiredGameJob \<Rightarrow> ('t, 'q) JobWorld \<Rightarrow>
   ('t, 'q) JobWorld \<times> (ServiceError + JobOutcome)" where
  "processFinishExpiredGame C jc d w =
     (let gid = expiry_gameId d;
          expiresOf = (\<lambda>s. case expiresAt s of None \<Rightarrow> expiry_expiresAt d | Some e \<Rightarrow> e);
          repair = (\<lambda>now s w'. thenS (onServices (finalizeExpiredWithSnapshot (job_command jc True) gid s
                      (max now (expiresOf s))) w') (\<lambda>_ w''. (w'', Inr Job_repaired))) in
      thenS (onServices (recovered C gid) w) (\<lambda>s w1.
      if phase s = Finished then repair (job_now jc) s w1
      else if phase s = Cancelled then (w1, Inr Job_skipped)
      else if job_now jc < expiresOf s
      then (w1, Inl (Engine (JsError ''Game expiry job ran before the game expired'')))
      else
        (case thenS (onServices (executeIntent C (job_command jc) (timerCommand gid (Finish_game_by_time (job_now jc)))) w1)
                (\<lambda>r w2. thenS (publishCommandResult (publishUp jc) gid r w2) (\<lambda>_ w3. (w3, Inr r))) of
           (w3, Inr r) \<Rightarrow> (w3, Inr (Job_executed r))
         | (w3, Inl e) \<Rightarrow>
             if \<not> isGameNotActive e then (w3, Inl e)
             else thenS (onServices (recovered C gid) w3) (\<lambda>repaired w4.
               if phase repaired = Finished
               then thenS (repair (job_repairNow jc) repaired w4) (\<lambda>_ w5. (w5, Inr Job_skipped))
               else (w4, Inr Job_skipped)))))"

definition processJob ::
  "'t Codec \<Rightarrow> 'q JobQueue \<Rightarrow> JobConditions \<Rightarrow> (ServiceError + unit) \<Rightarrow> GameJob \<Rightarrow> ('t, 'q) JobWorld \<Rightarrow>
   ('t, 'q) JobWorld \<times> (ServiceError + JobOutcome)" where
  "processJob C Q jc refresh j w =
     (case j of
        Execute_bot_turn gid \<Rightarrow> processExecuteBotTurn C Q jc gid w
      | Execute_turn_timeout d \<Rightarrow> processExecuteTurnTimeout C Q jc d w
      | Finish_expired_game d \<Rightarrow> processFinishExpiredGame C jc d w
      | Refresh_snapshots _ \<Rightarrow> (w, case refresh of Inl e \<Rightarrow> Inl e | Inr _ \<Rightarrow> Inr Job_skipped))"

section \<open>Ids name positions\<close>

lemma showNat_chars: "set (showNat n) \<subseteq> set ''0123456789'' \<and> showNat n \<noteq> []"
proof (induction n rule: less_induct)
  case (less n)
  have "''0123456789'' ! k \<in> set ''0123456789''" if "k < 10" for k :: nat
    by (rule nth_mem) (use that in simp)
  then show ?case using less [of "n div 10"] by (simp add: showNat.simps [of n])
qed

lemma showNat_inject: "showNat m = showNat n \<longleftrightarrow> m = n"
proof
  have digit: "''0123456789'' ! i = ''0123456789'' ! j \<longleftrightarrow> i = j" if "i < 10" "j < 10" for i j :: nat
    by (rule nth_eq_iff_index_eq) (use that in simp_all)
  show "showNat m = showNat n \<Longrightarrow> m = n"
  proof (induction m arbitrary: n rule: less_induct)
    case (less m)
    have *: "(showNat k = []) = False" for k using showNat_chars [of k] by simp
    show ?case
    proof (cases "m < 10 \<or> n < 10")
      case True
      then show ?thesis
        using less.prems digit [of m n] * by (auto simp: showNat.simps [of m] showNat.simps [of n] append_eq_Cons_conv Cons_eq_append_conv split: if_splits)
    next
      case False
      then have "m div 10 = n div 10" "m mod 10 = n mod 10"
        using less.IH [of "m div 10" "n div 10"] less.prems digit [of "m mod 10" "n mod 10"]
        by (simp_all add: showNat.simps [of m] showNat.simps [of n])
      then show ?thesis by (metis div_mult_mod_eq)
    qed
  qed
qed simp

lemma showNat_misses: "c \<notin> set ''0123456789'' \<Longrightarrow> c \<notin> set (showNat n)"
  using showNat_chars [of n] by blast

lemma showInt_inject [simp]: "showInt i = showInt j \<longleftrightarrow> i = j"
proof -
  have minus: "''-'' @ showNat m \<noteq> showNat n" for m n
  proof
    assume "''-'' @ showNat m = showNat n"
    then have "CHR ''-'' \<in> set (showNat n)" by (metis append_Cons list.set_intros(1))
    then show False using showNat_misses [of "CHR ''-''" n] by simp
  qed
  then have minus': "showNat n \<noteq> ''-'' @ showNat m" for m n by metis
  have "nat (- i) = nat (- j) \<longleftrightarrow> i = j" if "i < 0" "j < 0" using that by auto
  moreover have "nat i = nat j \<longleftrightarrow> i = j" if "\<not> i < 0" "\<not> j < 0" using that by auto
  ultimately show ?thesis using minus minus' by (simp add: showInt_def showNat_inject)
qed

text \<open>The ids of games and players are UUIDs: no underscore, no colon.\<close>

definition plainId :: "string \<Rightarrow> bool" where
  "plainId t \<longleftrightarrow> CHR ''_'' \<notin> set t \<and> CHR '':'' \<notin> set t"

lemma plain_showInt [simp]: "plainId (showInt i)"
  by (simp add: plainId_def showInt_def showNat_misses)

lemma split_at_sep:
  assumes "c \<notin> set xs" "c \<notin> set ys"
  shows "xs @ c # us = ys @ c # vs \<longleftrightarrow> xs = ys \<and> us = vs"
  using assms
proof (induction xs arbitrary: ys)
  case Nil
  then show ?case by (cases ys) auto
next
  case (Cons a xs)
  then show ?case by (cases ys) auto
qed

lemma phaseName_split: "phaseName a @ ''__'' @ us = phaseName b @ ''__'' @ vs \<longleftrightarrow> a = b \<and> us = vs"
  by (cases a; cases b; simp)

lemma timer_jobId_inject:
  assumes "plainId (timeout_gameId d)" "plainId (timeout_gameId d')" "plainId (timeout_player d)" "plainId (timeout_player d')"
  shows "timer_jobId d = timer_jobId d' \<longleftrightarrow> d = d'"
proof
  have split: "xs @ ''__'' @ us = ys @ ''__'' @ vs \<longleftrightarrow> xs = ys \<and> us = vs" if "plainId xs" "plainId ys" for xs ys us vs
    using that split_at_sep [of "CHR ''_''" xs ys] by (auto simp: plainId_def)
  assume "timer_jobId d = timer_jobId d'"
  then show "d = d'"
    by (simp only: timer_jobId_def joinWith.simps append_assoc same_append_eq split assms plain_showInt phaseName_split
      showInt_inject append_same_eq) auto
qed simp

end
