(* ===== verification/Game_Timers.thy ===== *)
theory Game_Timers
  imports Game_Jobs
begin

text \<open>
  What the jobs of a game achieve: a turn timer acts on the position it was set for and on no other, a running game
  always has its next timer in the queue, and the end of a game is not missed.
\<close>

section \<open>Positions\<close>

definition plainIds :: "GameEngineState \<Rightarrow> bool" where
  "plainIds s \<longleftrightarrow> list_all plainId (playerIds s)"

definition timerDue :: "int \<Rightarrow> GameEngineState \<Rightarrow> bool" where
  "timerDue now s \<longleftrightarrow>
     (if phase s = Awaiting_auction_bid then ifSome (\<lambda>a. ifSome (\<lambda>d. d \<le> now) (bidExpiresAt a)) (auction s)
      else ifSome (\<lambda>d. d \<le> now) (turnExpiresAt s))"

definition clockFrom :: "int \<Rightarrow> Clock \<Rightarrow> bool" where
  "clockFrom now clk \<longleftrightarrow> 0 < now \<and> now \<le> effectiveNow clk \<and> effectiveNow clk \<le> dateNow (engineEnv clk) \<and>
     effectiveNow clk \<le> deadlineNow clk \<and> deadlineNow clk \<le> nextDeadlineNow clk"

lemma current_is_same: "isTimerJobCurrent (timerJob gid s) t \<longleftrightarrow> timerJob gid s = timerJob gid t"
  by (auto simp: isTimerJobCurrent_def timerJob_def)

lemma timerJob_iff:
  "timerJob gid s = timerJob gid t \<longleftrightarrow> turnNumber s = turnNumber t \<and> phase s = phase t \<and>
     currentTurnRoomPlayerId s = currentTurnRoomPlayerId t \<and> timer_getActionStateKey s = timer_getActionStateKey t"
  by (auto simp: timerJob_def)

lemma none_not_shown: "''none'' \<noteq> showInt d"
proof
  assume "''none'' = showInt d"
  then have "CHR ''n'' \<in> set (showInt d)" by (metis list.set_intros(1))
  then show False by (simp add: showInt_def showNat_misses split: if_splits)
qed

lemma turn_key_inject:
  assumes "phase s \<noteq> Awaiting_auction_bid" "phase t \<noteq> Awaiting_auction_bid" "turnExpiresAt s = Some d \<or> turnExpiresAt s = None"
    "timer_getActionStateKey s = timer_getActionStateKey t" "turnExpiresAt t = Some d'"
  shows "turnExpiresAt s = Some d'"
  using assms none_not_shown [of d'] by (auto simp: timer_getActionStateKey_def orNone_def)

lemma plain_orNone: "ifSome plainId x \<Longrightarrow> plainId (orNone x)"
  by (auto simp: orNone_def plainId_def split: option.split)

lemma auction_key_deadline:
  assumes "ifSome plainId (highestBidderRoomPlayerId a)" "ifSome plainId (currentBidderRoomPlayerId a)"
    "ifSome plainId (highestBidderRoomPlayerId b)" "ifSome plainId (currentBidderRoomPlayerId b)"
    "auctionKey a = auctionKey b" "bidExpiresAt b = Some d"
  shows "bidExpiresAt a = Some d"
proof -
  have split: "xs @ ''_'' @ us = ys @ ''_'' @ vs \<longleftrightarrow> xs = ys \<and> us = vs" if "plainId xs" "plainId ys" for xs ys us vs
    using that split_at_sep [of "CHR ''_''" xs ys] by (auto simp: plainId_def)
  have plain: "plainId (orNone (map_option showInt x))" for x by (intro plain_orNone) (cases x; simp)
  note plains = assms(1-4) [THEN plain_orNone] plain plain_showInt
  have "orNone (map_option showInt (bidExpiresAt a)) = orNone (map_option showInt (bidExpiresAt b))"
    using assms(5) by (simp only: auctionKey_def joinWith.simps append_assoc same_append_eq split plains)
  then show ?thesis using none_not_shown [of d] assms(6) by (auto simp: orNone_def split: option.splits)
qed

section \<open>A timeout changes the position\<close>

lemma timeout_in_auction:
  assumes "chooseTimeoutIntent now dice s = Some i" "phase s = Awaiting_auction_bid"
    "reduceGameEngineIntent env s i = Inr (t, evs)" "phase t = Awaiting_auction_bid"
  shows "\<exists>a. auction t = Some a \<and> bidExpiresAt a = Some (getNextAuctionBidExpiresAt (dateNow env) s)"
proof -
  have won: "completeAuctionWithWinner u x e = Inr (t, evs) \<Longrightarrow> phase t \<noteq> Awaiting_auction_bid"
    "completeAuctionWithoutWinner u x e = Inr (t, evs) \<Longrightarrow> phase t \<noteq> Awaiting_auction_bid" for u x e
    by (auto simp: completeAuctionWithWinner_def completeAuctionWithoutWinner_def Let_def split: if_splits)
  have "i = Finish_game_by_time now \<or> i = Declare_bankruptcy (currentTurnRoomPlayerId s) None \<or> (\<exists>c. i = Pass_auction_bid c)"
    using assms(1,2) by (auto simp: chooseTimeoutIntent_def dest: findBy_SomeD split: if_splits option.splits)
  then show ?thesis
  proof (elim disjE exE)
    assume "i = Finish_game_by_time now"
    then show ?thesis using assms(3,4) by (auto simp: finishGameByTime_def finishedState_def Let_def)
  next
    assume "i = Declare_bankruptcy (currentTurnRoomPlayerId s) None"
    then show ?thesis using assms(3,4) by (auto simp: declareBankruptcy_def Let_def split: if_splits)
  next
    fix c assume "i = Pass_auction_bid c"
    then show ?thesis using assms(3,4) by (auto simp: passAuctionBid_def Let_def dest: won split: if_splits)
  qed
qed

lemma applyCommandSource_same [simp]:
  "phase (applyCommandSourceToState t source itype actor p n) = phase t"
  "auction (applyCommandSourceToState t source itype actor p n) = auction t"
  "expiresAt (applyCommandSourceToState t source itype actor p n) = expiresAt t"
  "turnExpiresAt (applyCommandSourceToState t source itype actor p n) = turnExpiresAt t"
  by (auto simp: applyCommandSourceToState_def incrementMissedTurn_def resetMissedTurn_def split: GameCommandSource.split)

lemma applyTurnDeadline_same [simp]:
  "phase (applyTurnDeadline now now' s t) = phase t" "auction (applyTurnDeadline now now' s t) = auction t"
  "expiresAt (applyTurnDeadline now now' s t) = expiresAt t"
  by (simp_all add: applyTurnDeadline_def Let_def)

lemma command_same_players:
  assumes "commandUpdate clk c s = Inr r"
  shows "playerIds (result_state r) = playerIds s" "expiresAt (result_state r) = expiresAt s"
proof -
  have frame: "gameFrame (result_state r) = gameFrame s" using command_advanced [OF assms] by (simp add: advanced_def)
  have ids: "playerIds u = map fst (map whoIs (players u))" for u by (simp add: playerIds_def whoIs_def o_def)
  show "playerIds (result_state r) = playerIds s" "expiresAt (result_state r) = expiresAt s"
    using frame by (simp_all add: gameFrame_def ids del: map_map)
qed

lemma bidders_plain:
  assumes "wf_state s" "plainIds s" "auction s = Some a"
  shows "ifSome plainId (highestBidderRoomPlayerId a)" "ifSome plainId (currentBidderRoomPlayerId a)"
    "list_all plainId (passedRoomPlayerIds a)"
proof -
  have "auctionOk (set (playerIds s)) (unownedKeys (properties s)) a"
    using assms(1,3) by (auto simp: wf_state_def phaseOk_def)
  then show "ifSome plainId (highestBidderRoomPlayerId a)" "ifSome plainId (currentBidderRoomPlayerId a)"
    "list_all plainId (passedRoomPlayerIds a)"
    using assms(2) by (auto simp: auctionOk_def plainIds_def list_all_iff split: option.splits)
qed

lemma timeout_moves_on:
  assumes wf: "wf_state s" and plain: "plainIds s" and due: "timerDue now s" and clock: "clockFrom now clk"
    and i: "chooseTimeoutIntent now dice s = Some i" and r: "commandUpdate clk (timeoutCommand gid i) s = Inr r"
  shows "\<not> isTimerJobCurrent (timerJob gid s) (result_state r)"
proof
  assume "isTimerJobCurrent (timerJob gid s) (result_state r)"
  then have same: "phase (result_state r) = phase s" "timer_getActionStateKey s = timer_getActionStateKey (result_state r)"
    by (simp_all add: current_is_same timerJob_iff)
  have running: "\<not> terminal (phase s)" using i by (auto simp: chooseTimeoutIntent_def terminal_def)
  let ?i = "getEffectiveIntentForCurrentTime (effectiveNow clk) s i"
  obtain t evs where t: "reduceGameEngineIntent (engineEnv clk) s ?i = Inr (t, evs)"
    and rt: "result_state r = applyTurnDeadline (deadlineNow clk) (nextDeadlineNow clk) s
      (applyCommandSourceToState t Source_timer (intentType ?i) (getIntentActorRoomPlayerId ?i) (currentTurnRoomPlayerId s) (turnNumber s))"
      (is "_ = applyTurnDeadline _ _ _ ?t")
    using r by (rule commandUpdate_Inr) (simp add: timeoutCommand_def commandSource_def)
  have ph: "phase t = phase s" using same(1) by (simp add: rt)
  have finish: "?i = i" "truthyNum (expiresAt s) \<Longrightarrow> effectiveNow clk < the (expiresAt s)"
    using t ph running by (cases i; auto simp: getEffectiveIntentForCurrentTime_def finishGameByTime_def finishedState_def Let_def
        terminal_def split: if_splits)+
  have wfr: "wf_state (result_state r)" and plainr: "plainIds (result_state r)"
    using commandUpdate_wf [OF wf r] plain command_same_players [OF r] by (simp_all add: plainIds_def)
  have expires: "expiresAt t = expiresAt s" using command_same_players(2) [OF r] by (simp add: rt)
  show False
  proof (cases "phase s = Awaiting_auction_bid")
    case True
    then obtain a where a: "auction s = Some a" using wf by (auto simp: wf_state_def phaseOk_def)
    obtain b where b: "auction t = Some b" "bidExpiresAt b = Some (getNextAuctionBidExpiresAt (dateNow (engineEnv clk)) s)"
      using timeout_in_auction [OF i True t [unfolded finish(1)]] ph True by auto
    have br: "auction (result_state r) = Some b" using b(1) by (simp add: rt)
    have "auctionKey a = auctionKey b" using same True a br by (simp add: timer_getActionStateKey_def)
    then have "bidExpiresAt a = Some (getNextAuctionBidExpiresAt (dateNow (engineEnv clk)) s)"
      using auction_key_deadline [OF bidders_plain(1,2) [OF wf plain a] bidders_plain(1,2) [OF wfr plainr br]] b(2) by simp
    then show False
      using due True a clock finish(2)
      by (auto simp: timerDue_def clockFrom_def getNextAuctionBidExpiresAt_def auctionBidTimeoutMs_def Let_def min_def split: if_splits)
  next
    case False
    have "\<exists>d'. turnExpiresAt (result_state r) = Some d' \<and> now < d'"
      using due clock finish(2) running False ph
      by (auto simp: rt applyTurnDeadline_def Let_def terminal_def expires timerDue_def clockFrom_def turnTimeoutMs_def
          split: option.splits if_splits)
    then obtain d' where d': "turnExpiresAt (result_state r) = Some d'" "now < d'" by blast
    then have "turnExpiresAt s = Some d'" using turn_key_inject [of s "result_state r"] same False by auto
    then show False using due d'(2) False by (simp add: timerDue_def)
  qed
qed

section \<open>The queue of the game\<close>

fun filedAs :: "GameJob \<Rightarrow> string \<Rightarrow> bool" where
  "filedAs (Execute_turn_timeout d) i \<longleftrightarrow>
     i = timer_jobId d \<and> plainId (timeout_gameId d) \<and> plainId (timeout_player d)"
| "filedAs (Execute_bot_turn _) i \<longleftrightarrow> take 8 i = ''bot-turn''"
| "filedAs (Finish_expired_game d) i \<longleftrightarrow> i = expiry_jobId (expiry_gameId d)"
| "filedAs (Refresh_snapshots _) i \<longleftrightarrow> take 8 i = ''leaderbo''"

text \<open>Every job is filed under an id of its own kind.\<close>

definition filed :: "'q JobQueue \<Rightarrow> 'q \<Rightarrow> bool" where
  "filed Q q \<longleftrightarrow> (\<forall>i j d. queue_job Q i q = Some (j, d) \<longrightarrow> filedAs j i)"

definition timerWaits :: "'q JobQueue \<Rightarrow> string \<Rightarrow> GameEngineState \<Rightarrow> 'q \<Rightarrow> bool" where
  "timerWaits Q gid s q \<longleftrightarrow>
     (let i = timer_jobId (timerJob gid s) in
      queue_state Q i q \<in> {Some Job_waiting, Some Job_delayed, Some Job_active} \<and>
      map_option fst (queue_job Q i q) = Some (Execute_turn_timeout (timerJob gid s)))"

definition timerSpent :: "'q JobQueue \<Rightarrow> string \<Rightarrow> GameEngineState \<Rightarrow> 'q \<Rightarrow> bool" where
  "timerSpent Q gid s q \<longleftrightarrow> queue_state Q (timer_jobId (timerJob gid s)) q = Some Job_completed"

lemma queueOkD:
  assumes "queueOk Q"
  shows "queue_job Q i q = None \<longleftrightarrow> queue_state Q i q = None"
    "queue_state Q i q = None \<Longrightarrow> CHR '':'' \<notin> set i \<Longrightarrow>
       queue_state Q i (queue_add Q i j d q) = Some (if d > 0 then Job_delayed else Job_waiting)"
    "queue_state Q i q = None \<Longrightarrow> CHR '':'' \<notin> set i \<Longrightarrow> queue_job Q i (queue_add Q i j d q) = Some (j, d)"
    "queue_state Q i q \<noteq> None \<Longrightarrow> queue_add Q i j d q = q"
    "i' \<noteq> i \<Longrightarrow> queue_job Q i' (queue_add Q i j d q) = queue_job Q i' q"
    "queue_state Q i (queue_remove Q i q) = None"
    "i' \<noteq> i \<Longrightarrow> queue_job Q i' (queue_remove Q i q) = queue_job Q i' q"
  using assms by (simp_all add: queueOk_def)

lemma joinWith_misses: "c \<notin> set sep \<Longrightarrow> \<forall>x\<in>set xs. c \<notin> set x \<Longrightarrow> c \<notin> set (joinWith sep xs)"
  by (induction sep xs rule: joinWith.induct) auto

lemma colon_free:
  "plainId t \<Longrightarrow> CHR '':'' \<notin> set t" "CHR '':'' \<notin> set (showInt n)" "CHR '':'' \<notin> set (phaseName ph)"
proof -
  show "CHR '':'' \<notin> set (showInt n)" using plain_showInt [of n] by (simp add: plainId_def)
  show "CHR '':'' \<notin> set (phaseName ph)" by (cases ph) simp_all
qed (simp add: plainId_def)

lemma colon_free_orNone: "ifSome (\<lambda>t. CHR '':'' \<notin> set t) x \<Longrightarrow> CHR '':'' \<notin> set (orNone x)"
  by (cases x) (simp_all add: orNone_def)

lemma auctionKey_colon_free:
  assumes "ifSome plainId (highestBidderRoomPlayerId a)" "ifSome plainId (currentBidderRoomPlayerId a)"
    "list_all plainId (passedRoomPlayerIds a)"
  shows "CHR '':'' \<notin> set (auctionKey a)"
proof -
  have "CHR '':'' \<notin> set (orNone (highestBidderRoomPlayerId a))" "CHR '':'' \<notin> set (orNone (currentBidderRoomPlayerId a))"
    using assms(1,2) by (auto intro!: colon_free_orNone simp: plainId_def split: option.splits elim!: ifSome.elims)
  moreover have "CHR '':'' \<notin> set (orNone (map_option showInt (bidExpiresAt a)))"
    by (intro colon_free_orNone) (cases "bidExpiresAt a"; simp add: colon_free)
  moreover have "CHR '':'' \<notin> set (joinWith ''-'' (passedRoomPlayerIds a))"
    using assms(3) by (intro joinWith_misses) (auto simp: list_all_iff plainId_def)
  ultimately show ?thesis unfolding auctionKey_def by (intro joinWith_misses) (auto simp: colon_free)
qed

lemma timer_id_colon_free:
  assumes "wf_state s" "plainIds s" "plainId gid" "plainId (currentTurnRoomPlayerId s)"
  shows "CHR '':'' \<notin> set (timer_jobId (timerJob gid s))"
proof -
  have "CHR '':'' \<notin> set (timer_getActionStateKey s)"
  proof (cases "phase s \<noteq> Awaiting_auction_bid \<or> auction s = None")
    case True
    have "CHR '':'' \<notin> set (orNone (map_option showInt (turnExpiresAt s)))"
      by (intro colon_free_orNone) (cases "turnExpiresAt s"; simp add: colon_free)
    then show ?thesis using True by (auto simp: timer_getActionStateKey_def)
  next
    case False
    then show ?thesis using auctionKey_colon_free bidders_plain [OF assms(1,2)]
      by (fastforce simp: timer_getActionStateKey_def)
  qed
  then show ?thesis
    using assms(3,4) unfolding timer_jobId_def
    by (intro joinWith_misses) (auto simp: timerJob_def colon_free)
qed

lemma current_plain:
  assumes "wf_state s" "plainIds s"
  shows "plainId (currentTurnRoomPlayerId s)"
  using assms by (auto simp: wf_state_def coreOk_def plainIds_def list_all_iff playerIds_def activeIds_def split: if_splits)

lemma filed_add:
  assumes "queueOk Q" "filed Q q" "filedAs j i" "CHR '':'' \<notin> set i"
  shows "filed Q (queue_add Q i j d q)"
proof (cases "queue_state Q i q")
  case None
  then show ?thesis
    using assms queueOkD(3) [OF assms(1) None assms(4)] queueOkD(5) [OF assms(1)] unfolding filed_def
    by (metis option.inject prod.inject)
next
  case (Some st)
  then show ?thesis using assms(2) queueOkD(4) [OF assms(1), of i q j d] by simp
qed

lemma filed_remove:
  assumes "queueOk Q" "filed Q q"
  shows "filed Q (queue_remove Q i q)"
  using assms queueOkD(1,6,7) [OF assms(1)] unfolding filed_def by (metis option.distinct(1))

lemma filed_timer:
  assumes "filed Q q" "queue_job Q (timer_jobId d) q = Some (j, x)" "plainId (timeout_gameId d)" "plainId (timeout_player d)"
  shows "j = Execute_turn_timeout d"
proof -
  have kind: "take 8 (timer_jobId d) = ''turn-tim''" by (simp add: timer_jobId_def)
  have as: "filedAs j (timer_jobId d)" using assms(1,2) by (simp add: filed_def)
  show ?thesis
  proof (cases j)
    case (Execute_turn_timeout d')
    then show ?thesis using as assms(3,4) timer_jobId_inject [of d d'] by simp
  next
    case (Finish_expired_game e)
    then have "take 8 (timer_jobId d) = ''game-exp''" using as by (simp add: expiry_jobId_def)
    then show ?thesis using kind by simp
  qed (use as kind in simp_all)
qed

lemma enqueueTurnTimer_sets:
  assumes Q: "queueOk Q" "filed Q q" and gid: "plainId gid" and s: "wf_state s" "plainIds s" "\<not> terminal (phase s)"
  shows "\<exists>q'. enqueueTurnTimer Q True now gid s q = Inr q' \<and> filed Q q' \<and> (timerWaits Q gid s q' \<or> timerSpent Q gid s q')"
proof -
  let ?d = "timerJob gid s"
  let ?i = "timer_jobId ?d" and ?j = "Execute_turn_timeout ?d" and ?r = "removeFailedDuplicateJob Q (timer_jobId ?d) q"
  let ?q = "queue_add Q ?i ?j (getTurnTimerDelay now s) ?r"
  have plain: "plainId (timeout_gameId ?d)" "plainId (timeout_player ?d)" "plainId (currentTurnRoomPlayerId s)"
    using gid current_plain [OF s(1,2)] by (simp_all add: timerJob_def)
  have colon: "CHR '':'' \<notin> set ?i" by (rule timer_id_colon_free [OF s(1,2) gid plain(3)])
  have removed: "filed Q ?r" "queue_state Q ?i ?r \<noteq> Some Job_failed"
    using Q filed_remove queueOkD(6) [OF Q(1)] by (auto simp: removeFailedDuplicateJob_def)
  have "filed Q ?q" using filed_add [OF Q(1) removed(1) _ colon, of ?j] plain(1,2) by simp
  moreover have "timerWaits Q gid s ?q \<or> timerSpent Q gid s ?q"
  proof (cases "queue_state Q ?i ?r")
    case None
    then show ?thesis using queueOkD(2,3) [OF Q(1) None colon, of ?j] by (simp add: timerWaits_def Let_def)
  next
    case (Some st)
    then have same: "?q = ?r" using queueOkD(4) [OF Q(1)] by blast
    obtain j x where j: "queue_job Q ?i ?r = Some (j, x)" using queueOkD(1) [OF Q(1), of ?i ?r] Some by auto
    then have "j = ?j" using filed_timer [OF removed(1) j] plain by simp
    then show ?thesis
      using j Some removed(2) unfolding same by (cases st) (simp_all add: timerWaits_def timerSpent_def Let_def)
  qed
  ultimately show ?thesis using s(3) by (simp add: enqueueTurnTimer_def Let_def terminal_def)
qed

text \<open>
  A timer that has been carried out is never set again for the same position: only a failed job makes way. The
  watchdog, which relies on setting it again, does nothing in that case.
\<close>

lemma spent_timers_stay_spent:
  assumes "queueOk Q" "timerSpent Q gid s q" "\<not> terminal (phase s)"
  shows "enqueueTurnTimer Q True now gid s q = Inr q"
  using assms queueOkD(4) [OF assms(1)]
  by (simp add: enqueueTurnTimer_def removeFailedDuplicateJob_def timerSpent_def Let_def terminal_def)

lemma bot_id_colon_free:
  assumes "wf_state s" "plainIds s" "plainId gid" "plainId pid"
  shows "CHR '':'' \<notin> set (bot_jobId gid s pid)"
proof -
  have "CHR '':'' \<notin> set (bot_getActionStateKey s)"
  proof (cases "auction s")
    case (Some a)
    then show ?thesis using auctionKey_colon_free [OF bidders_plain [OF assms(1,2) Some]] by (simp add: bot_getActionStateKey_def)
  qed (simp add: bot_getActionStateKey_def)
  then show ?thesis
    using assms(3,4) unfolding bot_jobId_def by (intro joinWith_misses) (auto simp: colon_free)
qed

lemma decider_plain:
  assumes "plainIds s" "chooseDecision dice s = Inr (Some d)"
  shows "plainId (decision_roomPlayerId d)"
proof -
  obtain robot where "findActionBot s = Some robot" "decision_roomPlayerId d = roomPlayerId robot"
    using assms(2) by (auto simp: chooseDecision_def split: option.splits)
  moreover from this(1) have "robot \<in> set (players s)"
    by (auto simp: findActionBot_def bot_findPlayer_def Let_def dest!: findBy_SomeD split: option.splits if_splits)
  ultimately show ?thesis using assms(1) by (auto simp: plainIds_def list_all_iff playerIds_def)
qed

lemma enqueueIfBotCanAct_filed:
  assumes Q: "queueOk Q" "filed Q q" and s: "wf_state s" "plainIds s" "plainId gid"
    and q': "enqueueIfBotCanAct Q up dice random gid s q = Inr q'"
  shows "filed Q q'"
proof (cases "chooseDecision dice s")
  case (Inr d)
  show ?thesis
  proof (cases d)
    case (Some x)
    let ?i = "bot_jobId gid s (decision_roomPlayerId x)"
    have "CHR '':'' \<notin> set ?i" using bot_id_colon_free [OF s] decider_plain [OF s(2)] Inr Some by blast
    moreover have "filed Q (fst (removeRecoverableDuplicateJob Q ?i q))"
      using Q filed_remove by (auto simp: removeRecoverableDuplicateJob_def split: option.split)
    moreover have "filedAs (Execute_bot_turn gid) ?i" by (simp add: bot_jobId_def)
    ultimately show ?thesis
      using q' Inr Some filed_add [OF Q(1)] by (auto simp: enqueueIfBotCanAct_def Let_def split: if_splits)
  qed (use assms Inr in \<open>simp add: enqueueIfBotCanAct_def\<close>)
qed (use q' in \<open>simp add: enqueueIfBotCanAct_def\<close>)

lemma queueTry_same [simp]:
  "job_services (queueTry f w) = job_services w" "job_published (queueTry f w) = job_published w"
  by (simp_all add: queueTry_def split: sum.split)

lemma afterAutomated_services [simp]: "job_services (afterAutomatedCommand Q jc gid s r w) = job_services w"
  by (simp add: afterAutomatedCommand_def publishCommandResult_def)

lemma afterAutomated_sets_timer:
  assumes Q: "queueOk Q" "filed Q (job_queue w)" and gid: "plainId gid" and s: "wf_state s" "plainIds s" "\<not> terminal (phase s)"
    and up: "timerQueueUp jc"
  shows "filed Q (job_queue (afterAutomatedCommand Q jc gid s r w)) \<and>
    (timerWaits Q gid s (job_queue (afterAutomatedCommand Q jc gid s r w)) \<or>
     timerSpent Q gid s (job_queue (afterAutomatedCommand Q jc gid s r w)))"
proof -
  let ?w = "queueTry (enqueueIfBotCanAct Q (botQueueUp jc) (job_nextDice jc) (job_random jc) gid s)
         (fst (publishCommandResult (publishUp jc) gid r w))"
  have "filed Q (job_queue ?w)"
    using Q(2) enqueueIfBotCanAct_filed [OF Q s(1,2) gid]
    by (auto simp: queueTry_def publishCommandResult_def split: sum.split)
  from enqueueTurnTimer_sets [OF Q(1) this gid s, of "job_delayNow jc"] show ?thesis
    using up by (auto simp: afterAutomatedCommand_def queueTry_def)
qed

section \<open>A timer fires once\<close>

lemma recovered_live: "codecOk C \<Longrightarrow> live C gid s sv \<Longrightarrow> recovered C gid sv = (sv, Inr s)"
  by (simp add: recovered_def getOrRecover_def state_get_def readText_def parseState_def live_def)

lemma finalize_keeps_redis:
  "finalizeGameIfFinished env gid r sv = (sv', x) \<Longrightarrow> redis sv' = redis sv"
  by (auto simp: finalizeGameIfFinished_def finalizeWithSnapshot_def split: if_splits sum.splits)

lemma executeIntent_live:
  assumes C: "codecOk C" and live: "live C (command_gameId input) s sv"
    and row: "findBy game_id (command_gameId input) (games (tables sv)) \<noteq> None"
    and ok: "executeIntent C env input sv = (sv', Inr r)"
  shows "commandUpdate (clocks (env False) 1) input s = Inr r" "live C (command_gameId input) (result_state r) sv'"
proof -
  obtain sv1 x where x: "tryCommand C (env False) input sv = (sv1, x)" by (cases "tryCommand C (env False) input sv")
  have "x = Inr r \<and> sv1 = sv'"
    using ok x tryCommand_found [OF C live row, of "env False"]
    by (auto simp: executeIntent_def executeIntentWithRecovery.simps [of C env input False] split: sum.splits)
  then have r: "tryCommand C (env False) input sv = (sv', Inr r)" using x by simp
  then show "commandUpdate (clocks (env False) 1) input s = Inr r"
    by (auto simp: tryCommand_live [OF C live] split: sum.splits prod.splits)
  from r show "live C (command_gameId input) (result_state r) sv'"
    by (auto simp: tryCommand_live [OF C live] afterSuccessfulCommand_def live_def state_set_def
        dest!: finalize_keeps_redis split: sum.splits prod.splits)
qed

lemma timeout_gameId [simp]: "command_gameId (timeoutCommand gid i) = gid"
  by (simp add: timeoutCommand_def)

lemma timerJob_gameId [simp]: "timeout_gameId (timerJob gid s) = gid"
  by (simp add: timerJob_def)

lemma onServices_simp [simp]: "onServices f w = (w\<lparr>job_services := fst (f (job_services w))\<rparr>, snd (f (job_services w)))"
  by (simp add: onServices_def split: prod.split)

text \<open>
  C23. A turn timer acts on the position it was set for, once. When the job has been carried out, the new state is in
  Redis and the same job, delivered again at any time and under any conditions before the next command, does nothing:
  the turn, the player, the phase or the deadline it names is over. This rests on the deadline having passed when the
  job ran, and on clocks that do not run backwards.
\<close>

theorem timers_fire_once:
  assumes C: "codecOk C" and live: "live C gid s (job_services w)"
    and row: "findBy game_id gid (games (tables (job_services w))) \<noteq> None"
    and s: "wf_state s" "plainIds s"
    and clock: "timerDue (job_now jc) s" "clockFrom (job_now jc) (clocks (job_command jc False) 1)"
    and fired: "processExecuteTurnTimeout C Q jc (timerJob gid s) w = (w1, Inr (Job_executed r))"
  shows "live C gid (result_state r) (job_services w1) \<and>
    processExecuteTurnTimeout C Q' jc' (timerJob gid s) w1 = (w1, Inr Job_skipped)"
proof -
  have current: "isTimerJobCurrent (timerJob gid s) s" by (simp add: current_is_same)
  obtain i where i: "chooseTimeoutIntent (job_now jc) (job_dice jc) s = Some i"
    using fired current by (auto simp: processExecuteTurnTimeout_def recovered_live [OF C live] split: option.splits)
  obtain sv r' where x: "executeIntent C (job_command jc) (timeoutCommand gid i) (job_services w) = (sv, Inr r')"
    and w1: "job_services w1 = sv" "r' = r"
    using fired current i
    by (cases "executeIntent C (job_command jc) (timeoutCommand gid i) (job_services w)"; cases "snd (executeIntent C (job_command jc) (timeoutCommand gid i) (job_services w))")
      (auto simp: processExecuteTurnTimeout_def recovered_live [OF C live])
  have r: "commandUpdate (clocks (job_command jc False) 1) (timeoutCommand gid i) s = Inr r"
    "live C gid (result_state r) (job_services w1)"
    using executeIntent_live [OF C _ _ x, of s] live row w1 by simp_all
  have "\<not> isTimerJobCurrent (timerJob gid s) (result_state r)" by (rule timeout_moves_on [OF s clock i r(1)])
  then show ?thesis using r(2) by (simp add: processExecuteTurnTimeout_def recovered_live [OF C r(2)])
qed

section \<open>The clock of a game\<close>

lemma executeIntent_unfinished:
  assumes C: "codecOk C" and live: "live C (command_gameId input) s sv"
    and actor: "assertIntentActorMatchesCommand input = Inr ()"
    and r: "commandUpdate (clocks (env False) 1) input s = Inr r" "phase (result_state r) \<noteq> Finished"
  shows "\<exists>sv'. executeIntent C env input sv = (sv', Inr r) \<and> live C (command_gameId input) (result_state r) sv'"
  using tryCommand_live [OF C live] actor r
  by (simp add: executeIntent_def executeIntentWithRecovery.simps after_unfinished live_def state_set_def)

lemma timeout_actor [simp]: "assertIntentActorMatchesCommand (timeoutCommand gid i) = Inr ()"
  by (simp add: assertIntentActorMatchesCommand_def timeoutCommand_def Let_def raiseIf_def)

lemma timeout_job_runs:
  assumes C: "codecOk C" and live: "live C gid s (job_services w)"
    and i: "chooseTimeoutIntent (job_now jc) (job_dice jc) s = Some i"
    and r: "commandUpdate (clocks (job_command jc False) 1) (timeoutCommand gid i) s = Inr r" "phase (result_state r) \<noteq> Finished"
  shows "\<exists>sv. processExecuteTurnTimeout C Q jc (timerJob gid s) w =
      (afterAutomatedCommand Q jc gid (result_state r) r (w\<lparr>job_services := sv\<rparr>), Inr (Job_executed r)) \<and>
    live C gid (result_state r) sv"
proof -
  obtain sv where "executeIntent C (job_command jc) (timeoutCommand gid i) (job_services w) = (sv, Inr r)"
    "live C gid (result_state r) sv"
    using executeIntent_unfinished [OF C _ timeout_actor, of gid i s "job_services w" "job_command jc" r] live r by auto
  then show ?thesis using i
    by (intro exI [of _ sv]) (simp add: processExecuteTurnTimeout_def recovered_live [OF C live] current_is_same)
qed


section \<open>The end of a game\<close>

lemma finalizeExpired_redis:
  "redis (fst (finalizeExpiredWithSnapshot env gid s t sv)) = redis sv"
  by (auto simp: finalizeExpiredWithSnapshot_def finalizeWithSnapshot_def split: sum.splits)

lemma live_expired [simp]:
  "live C gid s (fst (finalizeExpiredWithSnapshot env gid' t ft sv)) \<longleftrightarrow> live C gid s sv"
  by (simp add: live_def finalizeExpired_redis)

lemma thenS_snd_fst: "fst (thenS (a, x) f) = (case x of Inl _ \<Rightarrow> a | Inr y \<Rightarrow> fst (f y a))"
  by (simp split: sum.split)

lemma thenS_twice: "fst (thenS (thenS (a, x) (\<lambda>_ w. (w, Inr u))) (\<lambda>_ w. (w, Inr v))) = a"
  by (cases x) simp_all

lemma finish_by_time_accepted:
  assumes "wf_state s" "\<not> terminal (phase s)" "0 < now" "expiresAt s = Some e" "e \<le> now"
  shows "\<exists>r. commandUpdate clk (timerCommand gid (Finish_game_by_time now)) s = Inr r \<and> phase (result_state r) = Finished"
  using finishGameByTime_succeeds [OF assms(1,2,3)] assms(4,5)
  by (fastforce simp: commandUpdate_def timerCommand_def getEffectiveIntentForCurrentTime_def Let_def finishedState_def)

lemma executeIntent_stores:
  assumes C: "codecOk C" and live: "live C (command_gameId input) s sv"
    and row: "findBy game_id (command_gameId input) (games (tables sv)) \<noteq> None"
    and actor: "assertIntentActorMatchesCommand input = Inr ()"
    and r: "commandUpdate (clocks (env False) 1) input s = Inr r"
  shows "live C (command_gameId input) (result_state r) (fst (executeIntent C env input sv)) \<and>
    (\<forall>r'. snd (executeIntent C env input sv) = Inr r' \<longrightarrow> r' = r)"
proof -
  obtain sv1 x where x: "tryCommand C (env False) input sv = (sv1, x)" by (cases "tryCommand C (env False) input sv")
  have "executeIntent C env input sv = (sv1, x)"
    using x actor tryCommand_found [OF C live row, of "env False"]
    by (auto simp: executeIntent_def executeIntentWithRecovery.simps [of C env input False] split: sum.splits)
  moreover have "live C (command_gameId input) (result_state r) sv1 \<and> (\<forall>r'. x = Inr r' \<longrightarrow> r' = r)"
    using x r by (auto simp: tryCommand_live [OF C live] afterSuccessfulCommand_def live_def state_set_def
        dest!: finalize_keeps_redis split: sum.splits prod.splits)
  ultimately show ?thesis by simp
qed

lemma timerCommand_simps [simp]:
  "command_gameId (timerCommand gid i) = gid"
  "assertIntentActorMatchesCommand (timerCommand gid (Finish_game_by_time t)) = Inr ()"
  by (simp_all add: timerCommand_def assertIntentActorMatchesCommand_def Let_def)

text \<open>
  C25. The expiry job ends the game in time and only then. On a running game it fails, and changes nothing, as long as the
  time is not up, so that the queue tries it again; once it is up the game in Redis is finished, whatever becomes of the
  result tables and of the publication. On a game that is over the state in Redis stays what it is.
\<close>

theorem expiry_jobs_end_games:
  assumes C: "codecOk C" and live: "live C (expiry_gameId d) s (job_services w)" and s: "wf_state s"
    and row: "findBy game_id (expiry_gameId d) (games (tables (job_services w))) \<noteq> None"
    and ends: "expiresAt s = Some e" and now: "0 < job_now jc"
    and run: "processFinishExpiredGame C jc d w = (w1, out)"
  shows "if terminal (phase s) then live C (expiry_gameId d) s (job_services w1)
    else if job_now jc < e then w1 = w \<and> isl out
    else \<exists>r. commandUpdate (clocks (job_command jc False) 1)
        (timerCommand (expiry_gameId d) (Finish_game_by_time (job_now jc))) s = Inr r \<and>
      phase (result_state r) = Finished \<and> live C (expiry_gameId d) (result_state r) (job_services w1)"
proof -
  let ?gid = "expiry_gameId d" and ?now = "job_now jc"
  have w1: "w1 = fst (processFinishExpiredGame C jc d w)" using run by simp
  note process = processFinishExpiredGame_def recovered_live [OF C live] Let_def
  consider (finished) "phase s = Finished" | (cancelled) "phase s = Cancelled" | (early) "\<not> terminal (phase s)" "?now < e"
    | (due) "\<not> terminal (phase s)" "e \<le> ?now"
    by (cases "?now < e"; cases "terminal (phase s)") (auto simp: terminal_def)
  then show ?thesis
  proof cases
    case finished
    then show ?thesis using live w1 by (simp add: process terminal_def thenS_snd_fst split: sum.split)
  next
    case cancelled
    then show ?thesis using live w1 by (simp add: process terminal_def)
  next
    case early
    then show ?thesis using run ends by (auto simp: process terminal_def)
  next
    case due
    let ?c = "timerCommand ?gid (Finish_game_by_time ?now)"
    obtain r where r: "commandUpdate (clocks (job_command jc False) 1) ?c s = Inr r" "phase (result_state r) = Finished"
      using finish_by_time_accepted [OF s due(1) now ends due(2), of _ ?gid] by blast
    obtain sv x where x: "executeIntent C (job_command jc) ?c (job_services w) = (sv, x)"
      by (cases "executeIntent C (job_command jc) ?c (job_services w)")
    have stored: "live C ?gid (result_state r) sv"
      using executeIntent_stores [OF C, of ?c s "job_services w" "job_command jc" r] live row x r(1) by simp
    have "live C ?gid (result_state r) (job_services w1)"
      using due ends x stored unfolding w1
      by (cases x) (simp_all add: process terminal_def thenS_twice thenS_snd_fst publishCommandResult_def recovered_live [OF C stored]
          split: sum.split)
    then show ?thesis using r due by auto
  qed
qed

section \<open>Samples\<close>

text \<open>A queue that keeps its jobs in a map.\<close>

definition mapQueue :: "(string \<rightharpoonup> JobState \<times> GameJob \<times> int) JobQueue" where
  "mapQueue = \<lparr>queue_state = (\<lambda>i q. map_option fst (q i)), queue_job = (\<lambda>i q. map_option snd (q i)),
     queue_remove = (\<lambda>i q. q(i := None)),
     queue_add = (\<lambda>i j d q. if q i \<noteq> None then q else q(i \<mapsto> (if d > 0 then Job_delayed else Job_waiting, j, d)))\<rparr>"

lemma mapQueue_ok: "queueOk mapQueue" "filed mapQueue Map.empty"
  by (auto simp: queueOk_def mapQueue_def filed_def)

definition sampleWorld :: "(GameEngineState option, string \<rightharpoonup> JobState \<times> GameJob \<times> int) JobWorld" where
  "sampleWorld = \<lparr>job_services = expiredServices\<lparr>redis := liveStore\<rparr>, job_queue = Map.empty, job_published = []\<rparr>"

definition jobsAt :: "int \<Rightarrow> JobConditions" where
  "jobsAt now = \<lparr>job_command = (\<lambda>_. calmConditions now), job_now = now, job_repairNow = now, job_dice = (3, 4), job_nextDice = (1, 2),
     job_random = 0, job_delayNow = now, publishUp = True, botQueueUp = True, timerQueueUp = True\<rparr>"

lemma sample_world:
  "live plainCodec ''g'' freshGame (job_services sampleWorld)" "job_queue sampleWorld = Map.empty"
  "findBy game_id ''g'' (games (tables (job_services sampleWorld))) \<noteq> None"
  by (simp_all add: sampleWorld_def live_def liveStore_holds expiredServices_def)

lemma sample_conditions:
  "job_now (jobsAt now) = now" "job_dice (jobsAt now) = (3, 4)" "timerQueueUp (jobsAt now)"
  "clocks (job_command (jobsAt now) b) n = tick now"
  by (simp_all add: jobsAt_def calmConditions_def)

lemma sample_clock: "0 < now \<Longrightarrow> clockFrom now (tick now)"
  by (simp add: clockFrom_def tick_def)

lemma sample_game:
  "plainIds freshGame" "plainId ''g''" "timerDue 90000 freshGame" "\<not> terminal (phase freshGame)"
  "chooseTimeoutIntent 90000 (3, 4) freshGame = Some (Roll_and_move ''a'' [3, 4])"
  "case commandUpdate (tick 90000) (timeoutCommand ''g'' (Roll_and_move ''a'' [3, 4])) freshGame of
     Inl _ \<Rightarrow> False | Inr r \<Rightarrow> \<not> terminal (phase (result_state r))"
  by code_simp+

theorem timers_fire_once_witness:
  "\<exists>w1 r. processExecuteTurnTimeout plainCodec mapQueue (jobsAt 90000) (timerJob ''g'' freshGame) sampleWorld =
      (w1, Inr (Job_executed r)) \<and>
    processExecuteTurnTimeout plainCodec mapQueue (jobsAt 90001) (timerJob ''g'' freshGame) w1 = (w1, Inr Job_skipped)"
proof -
  obtain r where r: "commandUpdate (tick 90000) (timeoutCommand ''g'' (Roll_and_move ''a'' [3, 4])) freshGame = Inr r"
    "phase (result_state r) \<noteq> Finished"
    using sample_game(6) by (auto simp: terminal_def split: sum.splits)
  obtain w1 where w1: "processExecuteTurnTimeout plainCodec mapQueue (jobsAt 90000) (timerJob ''g'' freshGame) sampleWorld =
      (w1, Inr (Job_executed r))"
    using timeout_job_runs [OF plainCodec_ok sample_world(1), of "jobsAt 90000" _ r mapQueue] r sample_game(5)
    by (auto simp: sample_conditions)
  show ?thesis
    using timers_fire_once [OF plainCodec_ok sample_world(1,3) freshGame_ok(1) sample_game(1) _ _ w1] w1 sample_game(3)
      sample_clock [of 90000] by (auto simp: sample_conditions)
qed


theorem expiry_jobs_end_games_witness:
  "\<exists>r w1 out. processFinishExpiredGame plainCodec (jobsAt 3600000) \<lparr>expiry_gameId = ''g'', expiry_expiresAt = 3600000\<rparr> sampleWorld =
      (w1, out) \<and> commandUpdate (tick 3600000) (timerCommand ''g'' (Finish_game_by_time 3600000)) freshGame = Inr r \<and>
    phase (result_state r) = Finished \<and> live plainCodec ''g'' (result_state r) (job_services w1)"
proof -
  let ?d = "\<lparr>expiry_gameId = ''g'', expiry_expiresAt = 3600000\<rparr>"
  obtain w1 out where run: "processFinishExpiredGame plainCodec (jobsAt 3600000) ?d sampleWorld = (w1, out)"
    by (cases "processFinishExpiredGame plainCodec (jobsAt 3600000) ?d sampleWorld")
  then obtain r where "commandUpdate (tick 3600000) (timerCommand ''g'' (Finish_game_by_time 3600000)) freshGame = Inr r \<and>
      phase (result_state r) = Finished \<and> live plainCodec ''g'' (result_state r) (job_services w1)"
    using expiry_jobs_end_games [OF plainCodec_ok _ freshGame_ok(1) _ freshGame_ok(6) _ run] sample_world(1,3) sample_game(4)
    by (auto simp: sample_conditions)
  then show ?thesis using run by blast
qed

end
