(* ===== verification/Game_Bot_Play.thy ===== *)
theory Game_Bot_Play
  imports Game_Bots
begin

text \<open>
  What the decisions of a bot are worth: whenever it is a bot's turn it decides, the engine carries its decision
  out, and its bids stay within its means.
\<close>

section \<open>Lookups that never fail\<close>

lemma getPropertySetTiles_eq: "getPropertySetTiles board key = setTilesOf board key"
  by (simp add: getPropertySetTiles_def setTilesOf_def)

lemma bot_isOwnable_iff: "bot_isOwnableTile t \<longleftrightarrow> ownableKind (kind t)"
  by (auto simp: bot_isOwnableTile_def ownableKind_def)

lemma getOwnableTile_Some:
  "getOwnableTile s key = Some t \<longleftrightarrow> findTile CLASSIC_GAME_BOARD key = Some t \<and> ownableKind (kind t)"
  by (auto simp: getOwnableTile_def bot_isOwnable_iff split: option.splits)

lemma set_property_found:
  assumes "wf_state s" "t \<in> set (setTilesOf CLASSIC_GAME_BOARD k)"
  obtains q where "bot_findPropertyState s (tile_key t) = Inr q" "findBy tileKey (tile_key t) (properties s) = Some q"
  using set_tiles_owned [OF wf_stateD(4) [OF assms(1)] assms(2)] that by (auto simp: bot_findPropertyState_def)

lemma set_properties_found:
  assumes "wf_state s"
  shows "mapM (\<lambda>t. bot_findPropertyState s (tile_key t)) (setTilesOf CLASSIC_GAME_BOARD k) =
    Inr (map (\<lambda>t. the (findBy tileKey (tile_key t) (properties s))) (setTilesOf CLASSIC_GAME_BOARD k))"
proof -
  have "mapM (\<lambda>t. bot_findPropertyState s (tile_key t)) ts =
      Inr (map (\<lambda>t. the (findBy tileKey (tile_key t) (properties s))) ts)"
    if "set ts \<subseteq> set (setTilesOf CLASSIC_GAME_BOARD k)" for ts
    using that
  proof (induction ts)
    case (Cons t ts)
    obtain q where "bot_findPropertyState s (tile_key t) = Inr q" "findBy tileKey (tile_key t) (properties s) = Some q"
      using set_property_found [OF assms, of t k] Cons.prems by auto
    then show ?case using Cons by simp
  qed simp
  then show ?thesis by simp
qed

lemma ownsCompletePropertySet_total:
  assumes "wf_state s"
  shows "\<exists>b. ownsCompletePropertySet s CLASSIC_GAME_BOARD pid k = Inr b"
proof -
  have "\<exists>b. everyM (\<lambda>t. andThen (bot_findPropertyState s (tile_key t)) (\<lambda>p. Inr (ownerRoomPlayerId p = Some pid))) ts = Inr b"
    if "set ts \<subseteq> set (setTilesOf CLASSIC_GAME_BOARD k)" for ts
    using that
  proof (induction ts)
    case (Cons t ts)
    obtain q where "bot_findPropertyState s (tile_key t) = Inr q"
      using set_property_found [OF assms, of t k] Cons.prems by auto
    then show ?case using Cons by (cases "ownerRoomPlayerId q = Some pid") auto
  qed auto
  then show ?thesis by (simp add: ownsCompletePropertySet_def getPropertySetTiles_eq)
qed

lemma hd_sorted_in: "sort_key f xs = y # ys \<Longrightarrow> y \<in> set xs"
  by (metis list.set_intros(1) set_sort)

lemma in_map_filter_id: "x \<in> set (List.map_filter id xs) \<longleftrightarrow> Some x \<in> set xs"
  by (induction xs) (auto simp: List.map_filter_def)

lemma first_candidate: "(case xs of [] \<Rightarrow> None | c # _ \<Rightarrow> Some (f c)) = Some y \<longleftrightarrow> (\<exists>c cs. xs = c # cs \<and> y = f c)"
  by (cases xs) auto

lemma reserve_pos: "0 < cashReserve p"
  by (cases "bot_difficulty p") (simp_all add: cashReserve_def)

section \<open>The player whose turn it is\<close>

definition onTurn :: "GameEngineState \<Rightarrow> GameEnginePlayer \<Rightarrow> bool" where
  "onTurn s robot \<longleftrightarrow> findBy roomPlayerId (currentTurnRoomPlayerId s) (players s) = Some robot \<and> \<not> bankrupt robot"

lemma onTurnD:
  assumes "wf_state s" "onTurn s robot"
  shows "roomPlayerId robot = currentTurnRoomPlayerId s" "findBy roomPlayerId (roomPlayerId robot) (players s) = Some robot"
    "assertCurrentTurn s (roomPlayerId robot) = Inr ()" "0 \<le> cash robot" "roomPlayerId robot \<noteq> []"
proof -
  show id: "roomPlayerId robot = currentTurnRoomPlayerId s" using assms(2) by (auto simp: onTurn_def dest: findBy_SomeD)
  show found: "findBy roomPlayerId (roomPlayerId robot) (players s) = Some robot" using assms(2) id by (simp add: onTurn_def)
  show "assertCurrentTurn s (roomPlayerId robot) = Inr ()" using assms(2) id by (simp add: assertCurrentTurn_Inr_iff onTurn_def)
  have "playerOk robot" using wf_stateD(3) [OF assms(1)] found by (auto simp: playersOk_def list_all_iff dest: findBy_SomeD)
  then show "0 \<le> cash robot" "roomPlayerId robot \<noteq> []" by (simp_all add: playerOk_def)
qed

lemma onTurn_pays:
  assumes "wf_state s" "onTurn s robot" "0 \<le> amount" "amount \<le> cash robot"
  shows "\<exists>t. debitPlayer s (roomPlayerId robot) amount = Inr t"
  using assms onTurnD [OF assms(1,2)] by (auto simp: debitPlayer_Inr_iff)

section \<open>Rolling, buying and bidding\<close>

lemma fine_accepted:
  assumes "wf_state s" "onTurn s robot" "inJail robot" "shouldPayJailFine robot"
  shows "\<exists>r. service_payJailFine s (roomPlayerId robot) = Inr r"
  using onTurn_pays [OF assms(1,2), of JAIL_FINE_AMOUNT] onTurnD [OF assms(1,2)] assms(3,4)
  by (auto simp: service_payJailFine_def payJailFine_def JAIL_FINE_AMOUNT_def shouldPayJailFine_def split: if_splits)

lemma pending_tile:
  assumes "wf_state s" "phase s = Awaiting_property_decision"
  obtains k tile q where "pendingTileKey s = Some k" "k \<noteq> []" "findTile CLASSIC_GAME_BOARD k = Some tile" "ownableKind (kind tile)"
    "findBy tileKey k (properties s) = Some q" "\<not> truthy (ownerRoomPlayerId q)"
proof -
  obtain k where k: "pendingTileKey s = Some k" "k \<in> unownedKeys (properties s)"
    using assms by (auto simp: wf_state_def phaseOk_def)
  obtain q where q: "findBy tileKey k (properties s) = Some q" "\<not> truthy (ownerRoomPlayerId q)"
    using k(2) unownedKeys_iff [OF wf_stateD(4) [OF assms(1)]] by blast
  have "k \<in> set ownableKeys" using propertiesOk_lookup [OF wf_stateD(4) [OF assms(1)], of k] q(1) by auto
  then obtain tile where tile: "tile \<in> set classicTiles" "tile_key tile = k" "isOwnableTile tile"
    by (auto simp: ownableKeys_def)
  have "findTile CLASSIC_GAME_BOARD k = Some tile" using findTile_key [OF tile(1)] tile(2) by simp
  moreover have "k \<noteq> []" using tileOk_classic [OF tile(1)] tile(2) by (cases tile) auto
  ultimately show thesis using that k q tile(3) by (simp add: isOwnableTile_iff)
qed

lemma purchase_accepted:
  assumes wf: "wf_state s" and turn: "onTurn s robot" and ph: "phase s = Awaiting_property_decision"
  shows "\<exists>r. reduceGameEngineIntent env s (choosePropertyDecision s robot) = Inr r"
proof -
  obtain k tile q where k: "pendingTileKey s = Some k" "k \<noteq> []" and tile: "findTile CLASSIC_GAME_BOARD k = Some tile"
    "ownableKind (kind tile)" and q: "findBy tileKey k (properties s) = Some q" "\<not> truthy (ownerRoomPlayerId q)"
    by (rule pending_tile [OF wf ph])
  have pending: "getPendingOwnableTile s = Some tile"
    using k tile by (cases k) (auto simp: getPendingOwnableTile_def getOwnableTile_Some)
  show ?thesis
  proof (cases "shouldBuyTile s robot tile")
    case True
    then have afford: "price tile \<le> cash robot" by (auto simp: shouldBuyTile_def split: if_splits)
    have "0 \<le> price tile" using price_nonneg [OF tile] .
    then obtain t where t: "debitPlayer s (roomPlayerId robot) (price tile) = Inr t" using onTurn_pays [OF wf turn _ afford] by blast
    have can: "assertCanBuyProperty s = Inr ()"
      using ph wf by (auto simp: assertCanBuyProperty_def assertGameActive_def assertNoDebtResolution_def wf_state_def phaseOk_def)
    have "getTileByKey CLASSIC_GAME_BOARD k = Inr tile" "tile_key tile = k"
      using tile(1) by (auto simp: getTileByKey_def dest: findTile_SomeD)
    then show ?thesis
      using True pending can onTurnD [OF wf turn] k tile q t
      by (auto simp: choosePropertyDecision_def service_buyProperty_def buyProperty_def findProperty_def isOwnableTile_iff Let_def)
  next
    case False
    then show ?thesis
      using decline_succeeds [OF wf ph, of env] pending onTurnD(1) [OF wf turn] by (simp add: choosePropertyDecision_def)
  qed
qed

lemma board_amounts:
  "list_all (\<lambda>t. (kind t = Kind_property \<longrightarrow> 0 \<le> hotelRent t \<and> 0 \<le> houseCost t) \<and>
     (ownableKind (kind t) \<longrightarrow> bot_getUnmortgageCost (mortgageValue t) = getUnmortgageCost (mortgageValue t) \<and>
        0 \<le> getUnmortgageCost (mortgageValue t) \<and> 0 < price t)) classicTiles"
  by code_simp

lemma tile_amounts:
  assumes "t \<in> set classicTiles"
  shows "kind t = Kind_property \<Longrightarrow> 0 \<le> hotelRent t" "kind t = Kind_property \<Longrightarrow> 0 \<le> houseCost t"
    "ownableKind (kind t) \<Longrightarrow> bot_getUnmortgageCost (mortgageValue t) = getUnmortgageCost (mortgageValue t)"
    "ownableKind (kind t) \<Longrightarrow> 0 \<le> getUnmortgageCost (mortgageValue t)" "ownableKind (kind t) \<Longrightarrow> 0 < price t"
  using board_amounts assms by (simp_all add: list_all_iff)

lemma bid_within:
  assumes "tile \<in> set classicTiles" "minimumBid \<le> maxBid" "minimumBid \<le> cash robot - cashReserve robot"
  shows "minimumBid \<le> getAuctionBidAmount robot tile minimumBid maxBid"
    "getAuctionBidAmount robot tile minimumBid maxBid \<le> min maxBid (cash robot - cashReserve robot)"
proof -
  have "0 \<le> mathFloor (rentPotentialScore tile)" if "kind tile = Kind_property"
    using tile_amounts(1) [OF assms(1) that] that by (simp add: rentPotentialScore_def fdiv_def fl_bounds mathFloor_def)
  then show "minimumBid \<le> getAuctionBidAmount robot tile minimumBid maxBid"
    using assms(2,3) by (auto simp: getAuctionBidAmount_def Let_def)
  show "getAuctionBidAmount robot tile minimumBid maxBid \<le> min maxBid (cash robot - cashReserve robot)"
    using assms(2,3) by (auto simp: getAuctionBidAmount_def Let_def)
qed

lemma bid_accepted:
  assumes wf: "wf_state s" and a: "auction s = Some a" and c: "getCurrentAuctionBidderRoomPlayerId (Some a) = Some c"
    and p: "findBy roomPlayerId c (players s) = Some p" "getMinimumAuctionBid a \<le> amount" "amount \<le> cash p"
  shows "\<exists>r. placeAuctionBid now s c amount = Inr r"
proof -
  have ok: "auctionOk (set (playerIds s)) (unownedKeys (properties s)) a" and ph: "phase s = Awaiting_auction_bid"
    using wf a by (auto simp: wf_state_def phaseOk_def)
  have member: "c \<in> set (activeRoomPlayerIds a)" "c \<notin> set (passedRoomPlayerIds a)"
    using c ok by (auto simp: getCurrentAuctionBidderRoomPlayerId_def auctionOk_def split: option.splits if_splits
        dest: find_SomeD)
  have "0 \<le> amount" using p(2) ok by (auto simp: getMinimumAuctionBid_def MINIMUM_AUCTION_BID_def split: if_splits)
  then have "\<exists>t. debitPlayer s c amount = Inr t" using p by (auto simp: debitPlayer_Inr_iff)
  then show ?thesis
    using a ph member c p
    by (auto simp: placeAuctionBid_def assertActiveAuction_def assertAuctionPlayerActive_def assertAuctionPlayerCanAct_def
        completeAuctionWithWinner_def completeAuctionWithoutWinner_def Let_def)
qed

lemma auction_decision_accepted:
  assumes wf: "wf_state s" and ph: "phase s = Awaiting_auction_bid" and robot: "findActionBot s = Some robot"
    and covered: "bidCovered s"
  shows "\<exists>i r. chooseAuctionDecision s robot = Some i \<and> reduceGameEngineIntent env s i = Inr r"
proof -
  obtain a where a: "auction s = Some a" using wf ph by (auto simp: wf_state_def phaseOk_def)
  obtain c r where c: "currentBidderRoomPlayerId a = Some c" "c \<noteq> []" "findAuctionTimeoutPlayer s = Some c"
    and pass: "passAuctionBid (dateNow env) s c = Inr r" using pass_succeeds [OF wf a covered] by blast
  have cur: "getCurrentAuctionBidderRoomPlayerId (Some a) = Some c" using c(3) a by (simp add: findAuctionTimeoutPlayer_def)
  have p: "findBy roomPlayerId c (players s) = Some robot"
    using robot ph a cur c(2) by (cases c) (auto simp: findActionBot_def Let_def bot_findPlayer_def split: option.splits if_splits)
  then have id: "roomPlayerId robot = c" by (auto dest: findBy_SomeD)
  have "auctionOk (set (playerIds s)) (unownedKeys (properties s)) a" using wf a by (auto simp: wf_state_def phaseOk_def)
  then have member: "c \<notin> set (passedRoomPlayerIds a)" using c by (auto simp: auctionOk_def)
  show ?thesis
  proof (cases "\<exists>amount. chooseAuctionDecision s robot = Some (Place_auction_bid c amount)")
    case True
    then obtain amount tile where bid: "chooseAuctionDecision s robot = Some (Place_auction_bid c amount)"
      "getOwnableTile s (auction_tileKey a) = Some tile"
      "amount = getAuctionBidAmount robot tile (getMinimumAuctionBid a) (getMaxAuctionBid s robot tile)"
      "getMinimumAuctionBid a \<le> getMaxAuctionBid s robot tile" "getMinimumAuctionBid a \<le> cash robot - cashReserve robot"
      using a id by (auto simp: chooseAuctionDecision_def Let_def split: option.splits if_splits)
    have "tile \<in> set classicTiles" using bid(2) by (auto simp: getOwnableTile_Some dest: findTile_SomeD)
    then have "getMinimumAuctionBid a \<le> amount" "amount \<le> cash robot"
      using bid_within [of tile] bid(3-5) reserve_pos [of robot] by fastforce+
    then show ?thesis using bid_accepted [OF wf a cur p] bid(1) by fastforce
  next
    case False
    then have "chooseAuctionDecision s robot = Some (Pass_auction_bid c)"
      using a id member by (auto simp: chooseAuctionDecision_def Let_def split: option.splits)
    then show ?thesis using pass by simp
  qed
qed

section \<open>Developing\<close>

lemma unmortgage_accepted:
  assumes wf: "wf_state s" and turn: "onTurn s robot" and ph: "phase s = Awaiting_turn_end"
  shows "\<exists>k. findPropertyToUnmortgage s robot = Inr k \<and>
    (truthy k \<longrightarrow> (\<exists>r. service_unmortgageProperty s (roomPlayerId robot) (the k) = Inr r))"
proof -
  have "\<exists>c. unmortgageCandidate s robot q = Inr c" for q
    using ownsCompletePropertySet_total [OF wf] by (auto simp: unmortgageCandidate_def split: option.split)
  then have "\<exists>found. mapM (unmortgageCandidate s robot)
      (filter (\<lambda>p. ownerRoomPlayerId p = Some (roomPlayerId robot) \<and> mortgaged p) (properties s)) = Inr found"
    by (intro mapM_total)
  then obtain found where found: "mapM (unmortgageCandidate s robot)
      (filter (\<lambda>p. ownerRoomPlayerId p = Some (roomPlayerId robot) \<and> mortgaged p) (properties s)) = Inr found" ..
  show ?thesis
  proof (cases "sort_key (\<lambda>c. - cand_score c)
      (filter (\<lambda>c. cash robot - cand_cost c \<ge> cashReserve robot) (List.map_filter id found))")
    case Nil
    then show ?thesis using found by (simp add: findPropertyToUnmortgage_def Let_def)
  next
    case (Cons c cs)
    then have c: "Some c \<in> set found" "cand_cost c + cashReserve robot \<le> cash robot"
      by (auto dest!: hd_sorted_in simp: in_map_filter_id)
    then obtain q where q: "q \<in> set (properties s)" "ownerRoomPlayerId q = Some (roomPlayerId robot)" "mortgaged q"
      "unmortgageCandidate s robot q = Inr (Some c)" using mapM_in_set [OF found] by auto
    then obtain tile where tile: "findTile CLASSIC_GAME_BOARD (tileKey q) = Some tile" "ownableKind (kind tile)"
      "cand_tileKey c = tileKey q" "cand_cost c = bot_getUnmortgageCost (mortgageValue tile)"
      by (auto simp: unmortgageCandidate_def getOwnableTile_Some split: option.splits)
    have "tile \<in> set classicTiles" "tile_key tile = tileKey q" using tile(1) by (auto dest: findTile_SomeD)
    then obtain t where t: "debitPlayer s (roomPlayerId robot) (getUnmortgageCost (mortgageValue tile)) = Inr t"
      using onTurn_pays [OF wf turn] tile_amounts(3,4) [of tile] tile c(2) reserve_pos [of robot] by fastforce
    have "findBy tileKey (tileKey q) (properties s) = Some q"
      using q(1) propertiesOk_find [OF wf_stateD(4) [OF wf]] by simp
    then have "\<exists>r. service_unmortgageProperty s (roomPlayerId robot) (tileKey q) = Inr r"
      using tile q t ph onTurnD(3) [OF wf turn] \<open>tile_key tile = tileKey q\<close>
      by (simp add: service_unmortgageProperty_def unmortgageProperty_def canManage_Inr_iff getMortgageableTileByKey_def
          isRentableTile_iff assertOwnedBy_def Let_def)
    then show ?thesis using found Cons tile(3) by (simp add: findPropertyToUnmortgage_def Let_def)
  qed
qed

lemma build_succeeds:
  assumes wf: "wf_state s" and turn: "onTurn s robot" and ph: "phase s = Awaiting_turn_end"
    and tile: "tile \<in> set classicTiles" "kind tile = Kind_property" "houseCost tile \<le> cash robot"
    and q: "findBy tileKey (tile_key tile) (properties s) = Some q" "getDevelopmentLevel q < 5"
    and others: "\<And>t r. t \<in> set (setTilesOf CLASSIC_GAME_BOARD (setKey tile)) \<Longrightarrow>
      findBy tileKey (tile_key t) (properties s) = Some r \<Longrightarrow>
      ownerRoomPlayerId r = Some (roomPlayerId robot) \<and> \<not> mortgaged r \<and> getDevelopmentLevel q \<le> getDevelopmentLevel r"
  shows "\<exists>r. buildProperty s (roomPlayerId robot) (tile_key tile) = Inr r"
proof -
  note ok = wf_stateD(4) [OF wf]
  have find: "findTile CLASSIC_GAME_BOARD (tile_key tile) = Some tile" by (rule findTile_key [OF tile(1)])
  have own: "getOwnedSetProperties s CLASSIC_GAME_BOARD tile (roomPlayerId robot) = Inr (setProperties s tile)"
    unfolding getOwnedSetProperties_Inr_iff using set_tiles_owned [OF ok] others by blast
  have set_props: "\<not> mortgaged r \<and> getDevelopmentLevel q \<le> getDevelopmentLevel r \<and> houseCount r \<le> 4"
    if "r \<in> set (setProperties s tile)" for r
    using that others propertiesOk_found [OF ok] unfolding set_setProperties by (fastforce simp: propertyOk_def)
  have mem: "q \<in> set (setProperties s tile)"
    using tile_in_own_set(1) [OF find tile(2)] q(1) unfolding set_setProperties by blast
  have level: "\<not> hasHotel q" "getDevelopmentLevel q = int (houseCount q)" using q(2) by (auto simp: getDevelopmentLevel_def split: if_splits)
  have plain: "hasHotel r \<or> houseCount q \<le> houseCount r" if "r \<in> set (setProperties s tile)" for r
    using set_props [OF that] level by (auto simp: getDevelopmentLevel_def split: if_splits)
  have house: "assertCanBuildHouseEvenly q (setProperties s tile) = Inr ()"
  proof -
    let ?counts = "map houseCount (filter (\<lambda>c. \<not> hasHotel c) (setProperties s tile))"
    have "houseCount q \<in> set ?counts" using mem level by auto
    moreover have "\<forall>n\<in>set ?counts. houseCount q \<le> n" using plain by auto
    ultimately have "min_list ?counts = houseCount q" by (subst min_list_Min) (auto simp: filter_empty_conv intro!: Min_eqI)
    then show ?thesis using mem level by (auto simp: assertCanBuildHouseEvenly_def Let_def filter_empty_conv)
  qed
  have hotel: "assertCanBuildHotelEvenly q (setProperties s tile) = Inr ()" if "\<not> houseCount q < 4"
  proof -
    have four: "houseCount q = 4" using that set_props [OF mem] by simp
    have "hasHotel r \<or> houseCount r = 4" if "r \<in> set (setProperties s tile)" for r
      using plain [OF that] set_props [OF that] four by auto
    moreover have "r = q" if "r \<in> set (setProperties s tile)" "tileKey r = tileKey q" for r
      using that q(1) unfolding set_setProperties by (metis findBy_SomeD option.inject)
    ultimately show ?thesis using four level
      by (auto simp: assertCanBuildHotelEvenly_def Let_def list_all_iff)
  qed
  obtain t where t: "debitPlayer s (roomPlayerId robot) (houseCost tile) = Inr t"
    using onTurn_pays [OF wf turn tile_amounts(2) [OF tile(1,2)] tile(3)] by blast
  have "debt s = None" using wf ph by (auto simp: wf_state_def phaseOk_def)
  moreover have "assertSetIsNotMortgaged (setProperties s tile) = Inr ()"
    using set_props by (auto simp: assertSetIsNotMortgaged_def list_ex_iff)
  ultimately show ?thesis
    using ph onTurnD(3) [OF wf turn] find tile(2) own q(1) level house hotel t
    by (auto simp: buildProperty_def canManage_Inr_iff getPropertyTileByKey_def Let_def)
qed

lemma buildCandidates_total:
  assumes "wf_state s"
  shows "\<exists>cs. buildCandidates s robot k = Inr cs"
proof -
  have "\<exists>found. mapM (\<lambda>tile. andThen (bot_findPropertyState s (tile_key tile)) (\<lambda>prop. Inr (f tile prop)))
      (setTilesOf CLASSIC_GAME_BOARD k) = Inr (found :: TileCandidate option list)" for f
  proof (rule mapM_total)
    fix t assume "t \<in> set (setTilesOf CLASSIC_GAME_BOARD k)"
    then show "\<exists>y. andThen (bot_findPropertyState s (tile_key t)) (\<lambda>prop. Inr (f t prop)) = Inr y"
      using set_property_found [OF assms] by (metis andThen_simps(2))
  qed
  then show ?thesis
    by (simp add: buildCandidates_def getPropertySetTiles_eq set_properties_found [OF assms] Let_def)
qed

lemma build_candidate:
  assumes wf: "wf_state s" and cs: "buildCandidates s robot k = Inr cs" and c: "c \<in> set cs"
  obtains tile q where "tile \<in> set (setTilesOf CLASSIC_GAME_BOARD k)" "cand_tileKey c = tile_key tile"
    "houseCost tile + cashReserve robot \<le> cash robot" "findBy tileKey (tile_key tile) (properties s) = Some q" "getDevelopmentLevel q < 5"
    "\<forall>t\<in>set (setTilesOf CLASSIC_GAME_BOARD k). \<forall>r. findBy tileKey (tile_key t) (properties s) = Some r \<longrightarrow>
      ownerRoomPlayerId r = Some (roomPlayerId robot) \<and> \<not> mortgaged r \<and> getDevelopmentLevel q \<le> getDevelopmentLevel r"
proof -
  let ?tiles = "setTilesOf CLASSIC_GAME_BOARD k"
  let ?props = "map (\<lambda>t. the (findBy tileKey (tile_key t) (properties s))) ?tiles"
  let ?low = "min_list (map getDevelopmentLevel ?props)"
  have max5: "maxDevelopmentLevel d \<le> 5" for d by (cases d) auto
  obtain found where owned: "\<not> list_ex (\<lambda>p. ownerRoomPlayerId p \<noteq> Some (roomPlayerId robot) \<or> mortgaged p) ?props"
    and found: "mapM (\<lambda>tile.
            andThen (bot_findPropertyState s (tile_key tile)) (\<lambda>prop.
            let level = getDevelopmentLevel prop in
            Inr (if level \<noteq> ?low \<or> level \<ge> maxDevelopmentLevel (bot_difficulty robot) then None
                 else if cash robot - houseCost tile < cashReserve robot then None
                 else Some \<lparr>cand_tileKey = tile_key tile, cand_cost = houseCost tile,
                            cand_score = rentPotentialScore tile, cand_level = level\<rparr>))) ?tiles = Inr found"
    and some: "Some c \<in> set found"
    using cs c by (auto simp: buildCandidates_def getPropertySetTiles_eq set_properties_found [OF wf] Let_def in_map_filter_id
        split: if_splits)
  from some mapM_in_set [OF found] obtain tile where tile: "tile \<in> set ?tiles" and pick:
    "andThen (bot_findPropertyState s (tile_key tile)) (\<lambda>prop.
            let level = getDevelopmentLevel prop in
            Inr (if level \<noteq> ?low \<or> level \<ge> maxDevelopmentLevel (bot_difficulty robot) then None
                 else if cash robot - houseCost tile < cashReserve robot then None
                 else Some \<lparr>cand_tileKey = tile_key tile, cand_cost = houseCost tile,
                            cand_score = rentPotentialScore tile, cand_level = level\<rparr>)) = Inr (Some c)" by auto
  then obtain q where q: "findBy tileKey (tile_key tile) (properties s) = Some q" "getDevelopmentLevel q = ?low"
    "getDevelopmentLevel q < maxDevelopmentLevel (bot_difficulty robot)" "cashReserve robot + houseCost tile \<le> cash robot"
    "cand_tileKey c = tile_key tile"
    by (auto simp: bot_findPropertyState_def Let_def split: if_splits)
  have low: "?low \<le> getDevelopmentLevel r" if "r \<in> set ?props" for r
    using that by (subst min_list_Min) auto
  have "ownerRoomPlayerId r = Some (roomPlayerId robot) \<and> \<not> mortgaged r \<and> getDevelopmentLevel q \<le> getDevelopmentLevel r"
    if "t \<in> set ?tiles" "findBy tileKey (tile_key t) (properties s) = Some r" for t r
  proof -
    have "r \<in> set ?props" using that by force
    then show ?thesis using owned low q(2) by (auto simp: list_ex_iff)
  qed
  then show thesis
    using that [OF tile q(5) _ q(1)] q(3,4) max5 [of "bot_difficulty robot"] by auto
qed

lemma build_accepted:
  assumes wf: "wf_state s" and turn: "onTurn s robot" and ph: "phase s = Awaiting_turn_end"
  shows "\<exists>k. findPropertyToBuild s robot = Inr k \<and>
    (truthy k \<longrightarrow> (\<exists>r. service_buildProperty s (roomPlayerId robot) (the k) = Inr r))"
proof -
  obtain found where found: "mapM (buildCandidates s robot) (boardSetKeys CLASSIC_GAME_BOARD) = Inr found"
    using mapM_total [of "boardSetKeys CLASSIC_GAME_BOARD" "buildCandidates s robot"] buildCandidates_total [OF wf] by metis
  show ?thesis
  proof (cases "sort_key (\<lambda>c. (cand_level c, - cand_score c)) (concat found)")
    case Nil
    show ?thesis using found unfolding findPropertyToBuild_def by (simp add: Nil del: concat_eq_Nil_conv sort_key_eq_Nil_iff)
  next
    case (Cons c cs)
    then have "c \<in> set (concat found)" by (rule hd_sorted_in)
    then obtain k cs' where cs': "buildCandidates s robot k = Inr cs'" "c \<in> set cs'" using mapM_in_set [OF found] by auto
    obtain tile q where tile: "tile \<in> set (setTilesOf CLASSIC_GAME_BOARD k)" "cand_tileKey c = tile_key tile"
      "houseCost tile + cashReserve robot \<le> cash robot" "findBy tileKey (tile_key tile) (properties s) = Some q"
      "getDevelopmentLevel q < 5" "\<forall>t\<in>set (setTilesOf CLASSIC_GAME_BOARD k). \<forall>r. findBy tileKey (tile_key t) (properties s) = Some r \<longrightarrow>
        ownerRoomPlayerId r = Some (roomPlayerId robot) \<and> \<not> mortgaged r \<and> getDevelopmentLevel q \<le> getDevelopmentLevel r"
      by (rule build_candidate [OF wf cs'])
    then have "tile \<in> set classicTiles" "kind tile = Kind_property" "setKey tile = k" by (auto simp: setTilesOf_def)
    then have "\<exists>r. buildProperty s (roomPlayerId robot) (tile_key tile) = Inr r"
      using tile reserve_pos [of robot] by (intro build_succeeds [OF wf turn ph]) auto
    then have "\<exists>r. service_buildProperty s (roomPlayerId robot) (tile_key tile) = Inr r"
      using onTurnD(3) [OF wf turn] by (simp add: service_buildProperty_def)
    then show ?thesis using found Cons tile(2) by (simp add: findPropertyToBuild_def)
  qed
qed

section \<open>Trading\<close>

lemma board_keys:
  "list_all (\<lambda>t. jsTrim (tile_key t) = tile_key t \<and> tile_key t \<noteq> []) classicTiles"
  by code_simp

lemma ratios_pos: "0 < tradeOfferPriceRatio d"
  by (cases d) (simp_all only: tradeOfferPriceRatio.simps, code_simp+)

lemma offer_pos:
  assumes "0 < price tile"
  shows "0 < mathCeil (fmul (of_int (price tile)) (offerRatio robot target))"
proof -
  let ?x = "of_int (price tile) * offerRatio robot target"
  have "0 < offerRatio robot target" using ratios_pos [of "bot_difficulty robot"] by (simp add: offerRatio_def less_max_iff_disj)
  then have "0 < ?x" using assms by simp
  moreover have "?x * (1 - unitRoundoff) \<le> fl ?x" using \<open>0 < ?x\<close> by (intro fl_bounds) simp
  moreover have "(0::rat) < 1 - unitRoundoff" by (simp add: unitRoundoff_def)
  ultimately have "0 < fl ?x" by (meson less_le_trans mult_pos_pos)
  then show ?thesis by (simp add: mathCeil_def fmul_def)
qed

text \<open>An offer of cash for one unbuilt property of another player, as a bot makes it.\<close>

definition fairOffer :: "GameEngineState \<Rightarrow> GameEngineTradeOffer \<Rightarrow> GameTile \<Rightarrow> bool" where
  "fairOffer s trade tile \<longleftrightarrow>
     tile \<in> set classicTiles \<and> kind tile = Kind_property \<and> fromRoomPlayerId trade \<noteq> toRoomPlayerId trade \<and>
     offeredPropertyKeys trade = [] \<and> requestedPropertyKeys trade = [tile_key tile] \<and> requestedCash trade = 0 \<and>
     0 < offeredCash trade \<and>
     (\<exists>p. findBy roomPlayerId (fromRoomPlayerId trade) (players s) = Some p \<and> \<not> bankrupt p \<and> offeredCash trade \<le> cash p) \<and>
     (\<exists>p. findBy roomPlayerId (toRoomPlayerId trade) (players s) = Some p \<and> \<not> bankrupt p \<and> 0 \<le> cash p) \<and>
     (\<exists>q. findBy tileKey (tile_key tile) (properties s) = Some q \<and>
        ownerRoomPlayerId q = Some (toRoomPlayerId trade) \<and> \<not> built q)"

lemma fairOffer_valid:
  assumes "fairOffer s trade tile"
  shows "validateTrade s trade = Inr ()"
  using assms findTile_key [of tile]
  by (auto simp: fairOffer_def validateTrade_def assertNoDuplicateCrossTradeProperties_def getTradeableTile_def
      isRentableTile_iff ownableKind_def findPlayer_def findPropertyState_def findProperty_def)

lemma fairOffer_executed:
  assumes fair: "fairOffer s trade tile"
  shows "\<exists>r. acceptTradeOffer s trade evs = Inr r"
proof -
  obtain q where q: "findBy tileKey (tile_key tile) (properties s) = Some q" "\<not> built q" using fair by (auto simp: fairOffer_def)
  have tile: "findTile CLASSIC_GAME_BOARD (tile_key tile) = Some tile" using fair findTile_key by (auto simp: fairOffer_def)
  have "buildingUnits q = 0" using q(2) by (simp add: buildingUnits_def built_def)
  then have keep: "liquidateTradeBuildings s i pid [tile_key tile] = Inr (s, [])" for i pid
    using q(1) tile fair
    by (simp add: getTradeableTile_def isRentableTile_iff ownableKind_def fairOffer_def findPropertyState_def findProperty_def Let_def)
  have to: "toRoomPlayerId trade \<in> set (playerIds s)" using fair findPlayer_in_ids by (auto simp: fairOffer_def)
  obtain u where u: "debitPlayer s (fromRoomPlayerId trade) (offeredCash trade) = Inr u"
    "playerIds u = playerIds s" using fair by (auto simp: fairOffer_def debitPlayer_Inr_iff)
  then have "\<exists>t. transferPlayerCash s (fromRoomPlayerId trade) (toRoomPlayerId trade) (offeredCash trade) = Inr t"
    using to fair by (simp add: transferPlayerCash_def creditPlayer_Inr_iff fairOffer_def)
  moreover have "offeredPropertyKeys trade = []" "requestedPropertyKeys trade = [tile_key tile]" "requestedCash trade = 0"
    "0 < offeredCash trade" using fair by (simp_all add: fairOffer_def)
  ultimately show ?thesis
    using fairOffer_valid [OF fair]
    by (auto simp: acceptTradeOffer_def keep Let_def simp del: liquidateTradeBuildings.simps(2))
qed

lemma getSetCompletionValue_total:
  assumes wf: "wf_state s" and tile: "\<forall>k\<in>set incoming. \<exists>t. getTradeableTile s k = Inr t"
  shows "\<exists>v. getSetCompletionValue s pid incoming outgoing = Inr v"
proof -
  have completes: "\<exists>b. completesSet s pid incoming outgoing t = Inr b" for t
  proof -
    have "\<exists>b. everyM (\<lambda>setTile.
       if tile_key setTile \<in> set outgoing then Inr False
       else if tile_key setTile \<in> set incoming then Inr True
       else andThen (findPropertyState s (tile_key setTile)) (\<lambda>p. Inr (ownerRoomPlayerId p = Some pid))) ts = Inr b"
      if "set ts \<subseteq> set (setTilesOf CLASSIC_GAME_BOARD k)" for ts k
      using that
    proof (induction ts)
      case (Cons t ts)
      obtain q where "findPropertyState s (tile_key t) = Inr q"
        using set_tiles_owned [OF wf_stateD(4) [OF wf], of t k] Cons.prems by (auto simp: findPropertyState_def findProperty_def)
      then show ?case using Cons by (cases "ownerRoomPlayerId q = Some pid") auto
    qed auto
    from this [of "setTilesOf CLASSIC_GAME_BOARD (setKey t)" "setKey t"] show ?thesis by (simp add: completesSet_def)
  qed
  have "\<exists>ks'. foldM (\<lambda>completedSetKeys key.
                andThen (getTradeableTile s key) (\<lambda>tile.
                if kind tile \<noteq> Kind_property \<or> setKey tile \<in> set completedSetKeys
                then Inr completedSetKeys
                else andThen (completesSet s pid incoming outgoing tile) (\<lambda>completes.
                     Inr (if completes then completedSetKeys @ [setKey tile] else completedSetKeys))))
               ks keys = Inr ks'" if "set keys \<subseteq> set incoming" for ks keys
    using that
  proof (induction keys arbitrary: ks)
    case (Cons key keys)
    obtain t where t: "getTradeableTile s key = Inr t" using tile Cons.prems by auto
    obtain b where "completesSet s pid incoming outgoing t = Inr b" using completes by blast
    then show ?case using Cons t by simp
  qed simp
  then obtain ks' where "foldM (\<lambda>completedSetKeys key.
                andThen (getTradeableTile s key) (\<lambda>tile.
                if kind tile \<noteq> Kind_property \<or> setKey tile \<in> set completedSetKeys
                then Inr completedSetKeys
                else andThen (completesSet s pid incoming outgoing tile) (\<lambda>completes.
                     Inr (if completes then completedSetKeys @ [setKey tile] else completedSetKeys))))
               [] incoming = Inr ks'" by blast
  then show ?thesis by (simp add: getSetCompletionValue_def)
qed

lemma fairOffer_judged:
  assumes wf: "wf_state s" and fair: "fairOffer s trade tile"
  shows "\<exists>b. shouldBotAcceptTrade s trade = Inr b"
proof -
  have shape: "offeredPropertyKeys trade = []" "requestedPropertyKeys trade = [tile_key tile]" using fair by (simp_all add: fairOffer_def)
  have "findTile CLASSIC_GAME_BOARD (tile_key tile) = Some tile" using fair findTile_key by (auto simp: fairOffer_def)
  then have tradeable: "getTradeableTile s (tile_key tile) = Inr tile"
    using fair by (simp add: getTradeableTile_def isRentableTile_iff ownableKind_def fairOffer_def)
  obtain v where v: "getSetCompletionValue s (fromRoomPlayerId trade) [tile_key tile] [] = Inr v"
    using getSetCompletionValue_total [OF wf, of "[tile_key tile]"] tradeable by auto
  obtain v' where "getSetCompletionValue s (toRoomPlayerId trade) [] [tile_key tile] = Inr v'"
    using getSetCompletionValue_total [OF wf, of "[]"] by auto
  then show ?thesis
    using fair shape tradeable v
    by (auto simp: shouldBotAcceptTrade_def getTradeValue_def fairOffer_def findPlayer_def findPropertyState_def findProperty_def Let_def)
qed

lemma set_mapM:
  assumes "wf_state s"
  shows "mapM (\<lambda>t. andThen (bot_findPropertyState s (tile_key t)) (\<lambda>q. Inr (f t q))) (setTilesOf CLASSIC_GAME_BOARD k) =
    Inr (map (\<lambda>t. f t (the (findBy tileKey (tile_key t) (properties s)))) (setTilesOf CLASSIC_GAME_BOARD k))"
proof -
  have "mapM (\<lambda>t. andThen (bot_findPropertyState s (tile_key t)) (\<lambda>q. Inr (f t q))) ts =
      Inr (map (\<lambda>t. f t (the (findBy tileKey (tile_key t) (properties s)))) ts)"
    if "set ts \<subseteq> set (setTilesOf CLASSIC_GAME_BOARD k)" for ts
    using that
  proof (induction ts)
    case (Cons t ts)
    obtain q where "bot_findPropertyState s (tile_key t) = Inr q" "findBy tileKey (tile_key t) (properties s) = Some q"
      using set_property_found [OF assms, of t k] Cons.prems by auto
    then show ?case using Cons by simp
  qed simp
  then show ?thesis by simp
qed

lemma tradeCandidate_total:
  assumes wf: "wf_state s"
  shows "\<exists>c. tradeCandidate s robot k = Inr c"
proof -
  let ?tiles = "setTilesOf CLASSIC_GAME_BOARD k"
  let ?mine = "\<lambda>t. ownerRoomPlayerId (the (findBy tileKey (tile_key t) (properties s))) = Some (roomPlayerId robot)"
  show ?thesis
  proof (cases "find (\<lambda>(_, mine). \<not> mine) (map (\<lambda>t. (t, ?mine t)) ?tiles)")
    case (Some x)
    then have "fst x \<in> set ?tiles" by (auto dest!: find_SomeD)
    then obtain q where "bot_findPropertyState s (tile_key (fst x)) = Inr q" using set_property_found [OF wf] by metis
    then show ?thesis using Some
      by (cases x) (auto simp: tradeCandidate_def getPropertySetTiles_eq set_mapM [OF wf] Let_def split: option.split)
  qed (simp add: tradeCandidate_def getPropertySetTiles_eq set_mapM [OF wf] Let_def)
qed

lemma trade_candidate:
  assumes wf: "wf_state s" and turn: "onTurn s robot" and c: "tradeCandidate s robot k = Inr (Some c)"
    and trade: "fromRoomPlayerId trade = roomPlayerId robot" "toRoomPlayerId trade = trade_toRoomPlayerId c"
      "offeredCash trade = trade_offeredCash c" "requestedCash trade = 0" "offeredPropertyKeys trade = []"
      "requestedPropertyKeys trade = [trade_tileKey c]"
  obtains tile where "trade_tileKey c = tile_key tile" "fairOffer s trade tile"
proof -
  let ?tiles = "setTilesOf CLASSIC_GAME_BOARD k"
  let ?mine = "\<lambda>t. ownerRoomPlayerId (the (findBy tileKey (tile_key t) (properties s))) = Some (roomPlayerId robot)"
  obtain tile mine where found: "find (\<lambda>(_, mine). \<not> mine) (map (\<lambda>t. (t, ?mine t)) ?tiles) = Some (tile, mine)"
    using c by (auto simp: tradeCandidate_def getPropertySetTiles_eq set_mapM [OF wf] Let_def split: if_splits option.splits)
  then have tile: "tile \<in> set ?tiles" "\<not> ?mine tile" by (auto dest!: find_SomeD)
  obtain q where q: "bot_findPropertyState s (tile_key tile) = Inr q" "findBy tileKey (tile_key tile) (properties s) = Some q"
    using set_property_found [OF wf tile(1)] by blast
  obtain target where target: "truthy (ownerRoomPlayerId q)" "bot_findPlayer s (the (ownerRoomPlayerId q)) = Some target"
    "\<not> bankrupt target" "houseCount q = 0" "\<not> hasHotel q" "cashReserve robot + trade_offeredCash c \<le> cash robot"
    "trade_tileKey c = tile_key tile" "trade_toRoomPlayerId c = roomPlayerId target"
    "trade_offeredCash c = mathCeil (fmul (of_int (price tile)) (offerRatio robot target))"
    using c found q by (auto simp: tradeCandidate_def getPropertySetTiles_eq set_mapM [OF wf] Let_def split: if_splits option.splits)
  have board: "tile \<in> set classicTiles" "kind tile = Kind_property" using tile(1) by (auto simp: setTilesOf_def)
  have owner: "ownerRoomPlayerId q = Some (roomPlayerId target)" "findBy roomPlayerId (roomPlayerId target) (players s) = Some target"
    using target(1,2) by (cases "ownerRoomPlayerId q"; auto simp: bot_findPlayer_def dest: findBy_SomeD)+
  have "playerOk target" using wf_stateD(3) [OF wf] owner(2) by (auto simp: playersOk_def list_all_iff dest: findBy_SomeD)
  then have "0 \<le> cash target" by (simp add: playerOk_def)
  moreover have "0 < trade_offeredCash c"
    using target(9) offer_pos tile_amounts(5) [OF board(1)] board(2) by (simp add: ownableKind_def)
  moreover have "trade_offeredCash c \<le> cash robot" using target(6) reserve_pos [of robot] by simp
  moreover have "roomPlayerId robot \<noteq> roomPlayerId target" using tile(2) q(2) owner(1) by auto
  moreover have "\<not> bankrupt robot" using turn by (simp add: onTurn_def)
  ultimately have "fairOffer s trade tile"
    using board owner q(2) target trade onTurnD(2) [OF wf turn] by (simp add: fairOffer_def built_def)
  with target(7) show thesis by (rule that)
qed

lemma fairOffer_marked:
  assumes wf: "wf_state s" and fair: "fairOffer s trade tile"
  shows "\<exists>t. markBotTradeProposal s (fromRoomPlayerId trade) = Inr t \<and> wf_state t \<and> fairOffer t trade tile"
proof -
  obtain p where p: "findBy roomPlayerId (fromRoomPlayerId trade) (players s) = Some p" using fair by (auto simp: fairOffer_def)
  let ?t = "modifyPlayer (fromRoomPlayerId trade) (\<lambda>c. c\<lparr>lastBotTradeProposalTurnNumber := Some (turnNumber s)\<rparr>) s"
  have "wf_state ?t" by (rule wf_modifyPlayer [OF wf]) (auto simp: playerOk_def heldKeys_def)
  moreover have "fairOffer ?t trade tile" using fair by (auto simp: fairOffer_def findBy_updateBy)
  ultimately show ?thesis using p wf fair by (auto simp: markBotTradeProposal_def findPlayer_def)
qed

lemma proposal_accepted:
  assumes wf: "wf_state s" and turn: "onTurn s robot" and ph: "phase s = Awaiting_turn_end" and offer: "tradeOffer s = None"
  shows "\<exists>i. chooseTradeProposal s robot = Inr i \<and> (\<forall>x. i = Some x \<longrightarrow> (\<exists>r. reduceGameEngineIntent env s x = Inr r))"
proof (cases "lastBotTradeProposalTurnNumber robot = Some (turnNumber s)")
  case False
  have "\<exists>found. mapM (tradeCandidate s robot) (boardSetKeys CLASSIC_GAME_BOARD) = Inr found"
    using tradeCandidate_total [OF wf] by (intro mapM_total)
  then obtain found where found: "mapM (tradeCandidate s robot) (boardSetKeys CLASSIC_GAME_BOARD) = Inr found" ..
  show ?thesis
  proof (cases "sort_key (\<lambda>c. - trade_score c) (List.map_filter id found)")
    case Nil
    then show ?thesis using False found by (simp add: chooseTradeProposal_def findSetCompletingTradeCandidates_def)
  next
    case (Cons c cs)
    then have "c \<in> set (List.map_filter id found)" by (rule hd_sorted_in)
    then obtain k where k: "tradeCandidate s robot k = Inr (Some c)" using mapM_in_set [OF found] in_map_filter_id by metis
    define trade where "trade = \<lparr>trade_id = randomUUID env, fromRoomPlayerId = roomPlayerId robot,
      toRoomPlayerId = trade_toRoomPlayerId c, offeredCash = trade_offeredCash c, requestedCash = 0,
      offeredPropertyKeys = [], requestedPropertyKeys = [trade_tileKey c], createdAt = dateNow env\<rparr>"
    obtain tile where tile: "trade_tileKey c = tile_key tile" and fair: "fairOffer s trade tile"
      using trade_candidate [OF wf turn k, of trade] by (auto simp: trade_def)
    obtain t where t: "markBotTradeProposal s (roomPlayerId robot) = Inr t" "wf_state t" "fairOffer t trade tile"
      using fairOffer_marked [OF wf fair] by (auto simp: trade_def)
    have "tile \<in> set classicTiles" using fair by (simp add: fairOffer_def)
    then have "jsTrim (tile_key tile) = tile_key tile \<and> tile_key tile \<noteq> []" using board_keys by (simp add: list_all_iff)
    then have keys: "uniquePropertyKeys [] = Inr []" "uniquePropertyKeys [tile_key tile] = Inr [tile_key tile]"
      by (auto simp: uniquePropertyKeys_def jsSet_def)
    have cash: "normalizeCash 0 = Inr 0" "normalizeCash (trade_offeredCash c) = Inr (trade_offeredCash c)"
      using fair by (auto simp: normalizeCash_def fairOffer_def trade_def)
    have can: "assertCanTrade s (roomPlayerId robot) = Inr ()"
      using wf ph turn onTurnD(2) [OF wf turn]
      by (auto simp: assertCanTrade_def wf_state_def phaseOk_def onTurn_def findPlayer_def Let_def)
    have other: "roomPlayerId robot \<noteq> trade_toRoomPlayerId c" using fair by (simp add: fairOffer_def trade_def)
    obtain target where target: "findPlayer t (trade_toRoomPlayerId c) = Inr target"
      using t(3) by (auto simp: fairOffer_def trade_def findPlayer_def)
    obtain answer where answer: "shouldBotAcceptTrade t trade = Inr answer" using fairOffer_judged [OF t(2,3)] by blast
    have executed: "\<exists>a b. acceptTradeOffer t trade evs = Inr (a, b)" for evs using fairOffer_executed [OF t(3), of evs] by auto
    have input: "chooseTradeProposal s robot = Inr (Some (Propose_trade
       \<lparr>propose_roomPlayerId = roomPlayerId robot, propose_toRoomPlayerId = trade_toRoomPlayerId c,
        propose_offeredCash = trade_offeredCash c, propose_requestedCash = 0,
        propose_offeredPropertyKeys = [], propose_requestedPropertyKeys = [tile_key tile],
        propose_tradeId = None\<rparr>))" (is "_ = Inr (Some (Propose_trade ?input))")
      using False found Cons tile by (simp add: chooseTradeProposal_def findSetCompletingTradeCandidates_def)
    have "\<exists>r. proposeTrade env s ?input = Inr r"
      using can other offer keys cash fairOffer_valid [OF fair] t(1) target answer executed
      unfolding proposeTrade_def trade_def tile
      by (cases "playerType target = Bot"; cases answer) (simp_all add: Let_def)
    then show ?thesis using input by simp
  qed
qed (simp add: chooseTradeProposal_def)

section \<open>Properties\<close>

lemma action_bot_on_turn:
  assumes "findActionBot s = Some robot" "phase s \<noteq> Awaiting_auction_bid"
  shows "onTurn s robot" "\<not> terminal (phase s)" "playerType robot = Bot"
  using assms by (auto simp: findActionBot_def onTurn_def bot_findPlayer_def terminal_def split: if_splits option.splits)

lemma chosen_intent_accepted:
  assumes wf: "wf_state s" and robot: "findActionBot s = Some robot"
    and dice: "fst dice \<in> {1..6}" "snd dice \<in> {1..6}"
    and debts: "wholeSets s" "ifSome (\<lambda>d. truthy (creditorRoomPlayerId d) \<longrightarrow>
      the (creditorRoomPlayerId d) \<in> activeIds (players s)) (debt s)"
    and bids: "bidCovered s" and offer: "phase s = Awaiting_turn_end \<Longrightarrow> tradeOffer s = None"
  shows "\<exists>i r. chooseIntentForBot dice s robot = Inr (Some i) \<and> reduceGameEngineIntent env s i = Inr r"
proof (cases "phase s = Awaiting_auction_bid")
  case True
  then show ?thesis using auction_decision_accepted [OF wf True robot bids] by (simp add: chooseIntentForBot_def)
next
  case False
  note turn = action_bot_on_turn [OF robot False]
  note current = onTurnD [OF wf turn(1)]
  from turn(2) False consider "phase s = Awaiting_first_turn \<or> phase s = Awaiting_roll" | "phase s = Awaiting_property_decision"
    | "phase s = Awaiting_debt_resolution" | "phase s = Awaiting_turn_end" by (cases "phase s") auto
  then show ?thesis
  proof cases
    case 1
    have "\<exists>r. service_rollAndMove s (roomPlayerId robot) [fst dice, snd dice] = Inr r"
      using roll_succeeds [OF wf 1, of "fst dice" "snd dice"] dice current(1) by simp
    then show ?thesis
      using 1 fine_accepted [OF wf turn(1)] by (auto simp: chooseIntentForBot_def)
  next
    case 2
    then show ?thesis using purchase_accepted [OF wf turn(1) 2] by (simp add: chooseIntentForBot_def)
  next
    case 3
    then obtain d where d: "debt s = Some d" using wf by (auto simp: wf_state_def phaseOk_def)
    then have "debt_roomPlayerId d = roomPlayerId robot" using wf current(1) by (auto simp: wf_state_def phaseOk_def debtOk_def)
    moreover have "owes s d (debt_roomPlayerId d)" using wf d by (simp add: owes_def)
    then have "\<exists>r. autoResolveDebt s (debt_roomPlayerId d) = Inr r"
      using autoResolveDebt_succeeds [of s d, OF _ debts(1)] debts(2) d by fastforce
    ultimately show ?thesis using d 3 by (auto simp: chooseIntentForBot_def chooseDebtDecision_def)
  next
    case 4
    obtain k where k: "findPropertyToUnmortgage s robot = Inr k"
      "truthy k \<longrightarrow> (\<exists>r. service_unmortgageProperty s (roomPlayerId robot) (the k) = Inr r)"
      using unmortgage_accepted [OF wf turn(1) 4] by blast
    obtain b where b: "findPropertyToBuild s robot = Inr b"
      "truthy b \<longrightarrow> (\<exists>r. service_buildProperty s (roomPlayerId robot) (the b) = Inr r)"
      using build_accepted [OF wf turn(1) 4] by blast
    obtain i where i: "chooseTradeProposal s robot = Inr i" "\<forall>x. i = Some x \<longrightarrow> (\<exists>r. reduceGameEngineIntent env s x = Inr r)"
      using proposal_accepted [OF wf turn(1) 4 offer [OF 4], of env] by blast
    have "\<exists>r. service_endTurn s (roomPlayerId robot) = Inr r" using end_turn_succeeds [OF wf 4] current(1) by simp
    then show ?thesis
      using 4 offer k b i by (cases i) (auto simp: chooseIntentForBot_def chooseTurnEndDecision_def)
  qed
qed

lemma intent_actor:
  assumes "chooseIntentForBot dice s robot = Inr (Some i)"
  shows "getIntentActorRoomPlayerId i = Some (roomPlayerId robot)"
proof -
  have purchase: "getIntentActorRoomPlayerId (choosePropertyDecision s robot) = Some (roomPlayerId robot)"
    by (simp add: choosePropertyDecision_def split: option.split)
  have bid: "chooseAuctionDecision s robot = Some x \<Longrightarrow> getIntentActorRoomPlayerId x = Some (roomPlayerId robot)" for x
    by (auto simp: chooseAuctionDecision_def Let_def split: option.splits if_splits)
  have settle: "chooseDebtDecision s robot = Some x \<Longrightarrow> getIntentActorRoomPlayerId x = Some (roomPlayerId robot)" for x
    by (auto simp: chooseDebtDecision_def split: option.splits if_splits)
  have respond: "chooseTradeResponseDecision s robot = Inr (Some x) \<Longrightarrow> getIntentActorRoomPlayerId x = Some (roomPlayerId robot)" for x
    by (auto simp: chooseTradeResponseDecision_def split: option.splits if_splits)
  have propose: "chooseTradeProposal s robot = Inr (Some x) \<Longrightarrow> getIntentActorRoomPlayerId x = Some (roomPlayerId robot)" for x
    by (auto simp: chooseTradeProposal_def first_candidate split: if_splits)
  show ?thesis using assms purchase bid settle
    by (auto simp: chooseIntentForBot_def chooseTurnEndDecision_def split: GamePhase.splits if_splits option.splits
        dest: respond propose)
qed


definition botGame :: GameEngineState where
  "botGame = (sampleGame [(samplePlayer ''a'' 1 1500)\<lparr>playerType := Bot, botDifficulty := Some Hard\<rparr>, samplePlayer ''b'' 2 1500])
     \<lparr>phase := Awaiting_property_decision, pendingTileKey := Some ''ghana''\<rparr>"

lemma botGame_ok:
  "wf_state botGame" "findActionBot botGame \<noteq> None" "wholeSets botGame" "debt botGame = None" "auction botGame = None"
  "phase botGame = Awaiting_property_decision"
  by code_simp+


text \<open>What a bot's intent costs it, as far as the bot decides the amount.\<close>

fun intentCost :: "GameEngineState \<Rightarrow> GameEngineIntent \<Rightarrow> int" where
  "intentCost s (Place_auction_bid _ amount) = amount"
| "intentCost s (Unmortgage_property _ k) =
     (case findTile CLASSIC_GAME_BOARD k of None \<Rightarrow> 0 | Some t \<Rightarrow> getUnmortgageCost (mortgageValue t))"
| "intentCost s (Build_property _ k) = (case findTile CLASSIC_GAME_BOARD k of None \<Rightarrow> 0 | Some t \<Rightarrow> houseCost t)"
| "intentCost s (Propose_trade input) = propose_offeredCash input"
| "intentCost s _ = 0"

lemma tradeCandidate_reserve:
  "tradeCandidate s robot k = Inr (Some c) \<Longrightarrow> trade_offeredCash c + cashReserve robot \<le> cash robot"
  by (auto simp: tradeCandidate_def Let_def split: if_splits option.splits)

lemma proposal_reserve:
  assumes "chooseTradeProposal s robot = Inr (Some i)"
  shows "intentCost s i + cashReserve robot \<le> cash robot"
proof -
  from assms obtain found c cs where found: "mapM (tradeCandidate s robot) (boardSetKeys CLASSIC_GAME_BOARD) = Inr found"
    and c: "sort_key (\<lambda>c. - trade_score c) (List.map_filter id found) = c # cs" and i: "intentCost s i = trade_offeredCash c"
    by (auto simp: chooseTradeProposal_def findSetCompletingTradeCandidates_def first_candidate split: if_splits)
  have "Some c \<in> set found" using hd_sorted_in [OF c] by (simp add: in_map_filter_id)
  then show ?thesis using mapM_in_set [OF found] i tradeCandidate_reserve by auto
qed

lemma unmortgage_reserve:
  assumes "findPropertyToUnmortgage s robot = Inr (Some k)"
  shows "intentCost s (Unmortgage_property pid k) + cashReserve robot \<le> cash robot"
proof -
  from assms obtain found c cs where found: "mapM (unmortgageCandidate s robot)
      (filter (\<lambda>p. ownerRoomPlayerId p = Some (roomPlayerId robot) \<and> mortgaged p) (properties s)) = Inr found"
    and c: "sort_key (\<lambda>c. - cand_score c)
      (filter (\<lambda>c. cash robot - cand_cost c \<ge> cashReserve robot) (List.map_filter id found)) = c # cs" and k: "k = cand_tileKey c"
    by (auto simp: findPropertyToUnmortgage_def Let_def first_candidate)
  have in_found: "Some c \<in> set found" "cand_cost c + cashReserve robot \<le> cash robot"
    using hd_sorted_in [OF c] by (auto simp: in_map_filter_id)
  then obtain q where "unmortgageCandidate s robot q = Inr (Some c)" using mapM_in_set [OF found] by auto
  then obtain tile where tile: "findTile CLASSIC_GAME_BOARD k = Some tile" "ownableKind (kind tile)"
    "cand_cost c = bot_getUnmortgageCost (mortgageValue tile)"
    by (auto simp: unmortgageCandidate_def getOwnableTile_Some k split: option.splits)
  then show ?thesis using in_found(2) tile_amounts(3) [of tile] by (auto dest: findTile_SomeD)
qed

lemma build_reserve:
  assumes wf: "wf_state s" and build: "findPropertyToBuild s robot = Inr (Some k)"
  shows "intentCost s (Build_property pid k) + cashReserve robot \<le> cash robot"
proof -
  from build obtain found c cs where found: "mapM (buildCandidates s robot) (boardSetKeys CLASSIC_GAME_BOARD) = Inr found"
    and c: "sort_key (\<lambda>c. (cand_level c, - cand_score c)) (concat found) = c # cs" and k: "k = cand_tileKey c"
    by (auto simp: findPropertyToBuild_def first_candidate)
  obtain key cs' where cs': "buildCandidates s robot key = Inr cs'" "c \<in> set cs'"
    using hd_sorted_in [OF c] mapM_in_set [OF found] by auto
  show ?thesis
  proof (rule build_candidate [OF wf cs'])
    fix tile assume "tile \<in> set (setTilesOf CLASSIC_GAME_BOARD key)" "cand_tileKey c = tile_key tile"
      "houseCost tile + cashReserve robot \<le> cash robot"
    then show ?thesis using findTile_key [of tile] k by (auto simp: setTilesOf_def)
  qed
qed

text \<open>A prudent intent: the reserve stays, a bid is in its range, a purchase can be paid.\<close>

definition prudent :: "GameEngineState \<Rightarrow> GameEnginePlayer \<Rightarrow> GameEngineIntent \<Rightarrow> bool" where
  "prudent s robot x \<longleftrightarrow>
     (intentCost s x = 0 \<or> intentCost s x + cashReserve robot \<le> cash robot) \<and>
     (\<forall>pid amount a. x = Place_auction_bid pid amount \<and> auction s = Some a \<longrightarrow>
        getMinimumAuctionBid a \<le> amount \<and>
        (\<exists>tile. getOwnableTile s (auction_tileKey a) = Some tile \<and> amount \<le> getMaxAuctionBid s robot tile)) \<and>
     (\<forall>pid. x = Buy_property pid \<longrightarrow> (\<exists>tile. getPendingOwnableTile s = Some tile \<and> price tile \<le> cash robot))"

lemma auction_prudent:
  assumes x: "chooseAuctionDecision s robot = Some x"
  shows "prudent s robot x"
proof -
  have bid: "\<exists>a tile. auction s = Some a \<and> getOwnableTile s (auction_tileKey a) = Some tile \<and>
      getMinimumAuctionBid a \<le> amount \<and> amount \<le> getMaxAuctionBid s robot tile \<and> amount + cashReserve robot \<le> cash robot"
    if "x = Place_auction_bid pid amount" for pid amount
  proof -
    from x that obtain a tile where a: "auction s = Some a" "getOwnableTile s (auction_tileKey a) = Some tile"
      "amount = getAuctionBidAmount robot tile (getMinimumAuctionBid a) (getMaxAuctionBid s robot tile)"
      "getMinimumAuctionBid a \<le> getMaxAuctionBid s robot tile" "getMinimumAuctionBid a \<le> cash robot - cashReserve robot"
      by (auto simp: chooseAuctionDecision_def Let_def split: option.splits if_splits)
    have "tile \<in> set classicTiles" using a(2) by (auto simp: getOwnableTile_Some dest: findTile_SomeD)
    then show ?thesis using bid_within [of tile, OF _ a(4,5)] a by fastforce
  qed
  have "(\<exists>pid. x = Pass_auction_bid pid) \<or> (\<exists>pid amount. x = Place_auction_bid pid amount)"
    using x by (auto simp: chooseAuctionDecision_def Let_def split: option.splits if_splits)
  then show ?thesis using bid by (auto simp: prudent_def)
qed

lemma settlement_prudent:
  "chooseDebtDecision s robot = Some x \<or> chooseTradeResponseDecision s robot = Inr (Some x) \<Longrightarrow> prudent s robot x"
  by (auto simp: prudent_def chooseDebtDecision_def chooseTradeResponseDecision_def split: option.splits if_splits)

lemma purchase_prudent: "prudent s robot (choosePropertyDecision s robot)"
  by (auto simp: prudent_def choosePropertyDecision_def shouldBuyTile_def split: option.splits if_splits)

lemma turn_end_prudent:
  assumes wf: "wf_state s" and end_of_turn: "chooseTurnEndDecision s robot = Inr (Some x)"
  shows "prudent s robot x"
proof (cases "tradeOffer s")
  case None
  have propose: "\<exists>input. y = Propose_trade input" if "chooseTradeProposal s robot = Inr (Some y)" for y
    using that by (auto simp: chooseTradeProposal_def first_candidate split: if_splits)
  obtain k b p where "findPropertyToUnmortgage s robot = Inr k" "truthy k \<and> x = Unmortgage_property (roomPlayerId robot) (the k) \<or>
      findPropertyToBuild s robot = Inr b \<and> (truthy b \<and> x = Build_property (roomPlayerId robot) (the b) \<or>
        chooseTradeProposal s robot = Inr p \<and> x = (case p of Some i \<Rightarrow> i | None \<Rightarrow> End_turn (roomPlayerId robot)))"
    using end_of_turn None by (auto simp: chooseTurnEndDecision_def split: if_splits)
  then show ?thesis
    using unmortgage_reserve [of s robot "the k" "roomPlayerId robot"] build_reserve [OF wf, of robot "the b" "roomPlayerId robot"]
      proposal_reserve [of s robot x] propose [of x]
    by (cases k; cases b; cases p) (auto simp: prudent_def)
qed (use settlement_prudent end_of_turn in \<open>simp add: chooseTurnEndDecision_def\<close>)

lemma choice_prudent:
  assumes "wf_state s" "chooseIntentForBot dice s robot = Inr (Some x)"
  shows "prudent s robot x"
proof -
  have "prudent s robot (Pay_jail_fine pid)" "prudent s robot (Roll_and_move pid ds)" for pid ds
    by (simp_all add: prudent_def)
  then show ?thesis
    using assms auction_prudent settlement_prudent purchase_prudent turn_end_prudent
    by (cases "phase s") (auto simp: chooseIntentForBot_def split: if_splits)
qed



end
