(* ===== verification/Game_Watchdog.thy ===== *)
theory Game_Watchdog
  imports Game_Timers Game_Bot_Play
begin

text \<open>
  The watchdog of \<^verbatim>\<open>src/src/game/timers/game-timer-watchdog.service.ts\<close> with its queries: every few seconds it looks
  at the active games and moves on those that nobody moves any more. The interval, the lock that keeps two workers from
  scanning at once and the metrics are left out; the counters are kept.
\<close>

section \<open>Queries\<close>

record ActiveGameTimerCandidate =
  candidate_id :: string
  candidate_roomId :: string
  candidate_expiresAt :: int

definition listActiveGames :: "nat \<Rightarrow> Tables \<Rightarrow> ActiveGameTimerCandidate list" where
  "listActiveGames limit t =
     map (\<lambda>g. \<lparr>candidate_id = game_id g, candidate_roomId = game_roomId g, candidate_expiresAt = game_expiresAt g\<rparr>)
       (take limit (sort_key game_expiresAt (filter (\<lambda>g. game_status g = ''active'') (games t))))"

definition countJoinedHumanPlayers :: "string \<Rightarrow> Tables \<Rightarrow> nat" where
  "countJoinedHumanPlayers rid t =
     length (filter (\<lambda>p. rp_roomId p = rid \<and> rp_playerType p = Human \<and> rp_status p = Joined) (roomPlayers t))"

section \<open>What is overdue\<close>

definition watchdogBatchSize :: nat where "watchdogBatchSize = 100"
definition deadlineGraceMs :: int where "deadlineGraceMs = 2000"

definition isPastGrace :: "int \<Rightarrow> int \<Rightarrow> bool" where
  "isPastGrace now deadline \<longleftrightarrow> now - deadlineGraceMs \<ge> deadline"

definition isTurnDeadlineOverdue :: "int \<Rightarrow> GameEngineState \<Rightarrow> bool" where
  "isTurnDeadlineOverdue now s =
     (let deadline = (if phase s = Awaiting_auction_bid
            then (case auction s of None \<Rightarrow> turnExpiresAt s
                  | Some a \<Rightarrow> (case bidExpiresAt a of None \<Rightarrow> turnExpiresAt s | Some d \<Rightarrow> Some d))
            else turnExpiresAt s) in
      if truthyNum deadline then isPastGrace now (the deadline) else False)"

definition watchdog_isGameExpired :: "int \<Rightarrow> GameEngineState \<Rightarrow> int \<Rightarrow> bool" where
  "watchdog_isGameExpired now s persistedExpiresAt =
     isPastGrace now (case expiresAt s of None \<Rightarrow> persistedExpiresAt | Some e \<Rightarrow> e)"

definition watchdog_isTerminal :: "GameEngineState \<Rightarrow> bool" where
  "watchdog_isTerminal s \<longleftrightarrow> phase s = Finished \<or> phase s = Cancelled"

definition watchdog_hasNoActiveHumanPlayers :: "GameEngineState \<Rightarrow> bool" where
  "watchdog_hasNoActiveHumanPlayers s \<longleftrightarrow>
     list_ex (\<lambda>p. playerType p = Human) (players s) \<and>
     \<not> list_ex (\<lambda>p. playerType p = Human \<and> \<not> bankrupt p) (players s)"

section \<open>A scan\<close>

record ('t, 'q) ScanState =
  scan_world :: "('t, 'q) JobWorld"
  botJobsEnsured :: nat
  turnTimersEnsured :: nat
  expiryJobsEnsured :: nat
  recoveryFailures :: nat

text \<open>The readings of the clock, in the order of the code, and the dice of \<^verbatim>\<open>executeOverdueBotAction\<close>.\<close>

record WatchConditions =
  watch_jobs :: JobConditions
  watch_expiryNow :: int
  watch_finishedAt :: int
  watch_overdueNow :: int
  watch_retryNow :: int
  watch_botDice :: DiceRoll

definition onWorld ::
  "(('t, 'q) JobWorld \<Rightarrow> ('t, 'q) JobWorld \<times> 'a) \<Rightarrow> ('t, 'q) ScanState \<Rightarrow> ('t, 'q) ScanState \<times> 'a" where
  "onWorld f st = (case f (scan_world st) of (w, x) \<Rightarrow> (st\<lparr>scan_world := w\<rparr>, x))"

definition onQueue ::
  "('q \<Rightarrow> ServiceError + 'q) \<Rightarrow> ('t, 'q) ScanState \<Rightarrow> ('t, 'q) ScanState \<times> (ServiceError + unit)" where
  "onQueue f st =
     (case f (job_queue (scan_world st)) of
        Inl e \<Rightarrow> (st, Inl e)
      | Inr q \<Rightarrow> (st\<lparr>scan_world := (scan_world st)\<lparr>job_queue := q\<rparr>\<rparr>, Inr ()))"

definition watch_execute ::
  "'t Codec \<Rightarrow> JobConditions \<Rightarrow> ExecuteGameIntentCommand \<Rightarrow> ('t, 'q) ScanState \<Rightarrow>
   ('t, 'q) ScanState \<times> (ServiceError + GameCommandResult)" where
  "watch_execute C jc input st =
     thenS (onWorld (onServices (executeIntent C (job_command jc) input)) st) (\<lambda>r st1.
     thenS (onWorld (publishCommandResult (publishUp jc) (command_gameId input) r) st1) (\<lambda>_ st2. (st2, Inr r)))"

definition executeOverdueBotAction ::
  "'t Codec \<Rightarrow> WatchConditions \<Rightarrow> string \<Rightarrow> GameEngineState \<Rightarrow> ('t, 'q) ScanState \<Rightarrow>
   ('t, 'q) ScanState \<times> (ServiceError + GameCommandResult)" where
  "executeOverdueBotAction C wc gid s st =
     (case chooseDecision (watch_botDice wc) s of
        Inl e \<Rightarrow> (st, Inl (Engine e))
      | Inr None \<Rightarrow> (st, Inl (Engine (JsError ''Watchdog found no bot decision for overdue bot action'')))
      | Inr (Some d) \<Rightarrow> watch_execute C (watch_jobs wc) (botCommand gid d) st)"

definition scanCandidate ::
  "'t Codec \<Rightarrow> 'q JobQueue \<Rightarrow> WatchConditions \<Rightarrow> ActiveGameTimerCandidate \<Rightarrow> ('t, 'q) ScanState \<Rightarrow>
   ('t, 'q) ScanState \<times> (ServiceError + unit)" where
  "scanCandidate C Q wc c st =
     (let gid = candidate_id c; jc = watch_jobs wc;
          enqueueBot = (\<lambda>s. onQueue (enqueueIfBotCanAct Q (botQueueUp jc) (job_nextDice jc) (job_random jc) gid s));
          enqueueTimer = (\<lambda>s. onQueue (enqueueTurnTimer Q (timerQueueUp jc) (job_delayNow jc) gid s)) in
      thenS (onWorld (onServices (recovered C gid)) st) (\<lambda>s st1.
      let joined = countJoinedHumanPlayers (candidate_roomId c) (tables (job_services (scan_world st1))) in
      if watchdog_isTerminal s then
        (if phase s \<noteq> Finished then (st1, Inr ())
         else if joined = 0 then
           onWorld (onServices (finalizeAbandonedWithSnapshot (job_command jc True) gid s (watch_finishedAt wc))) st1
         else if watchdog_isGameExpired (watch_expiryNow wc) s (candidate_expiresAt c) then
           onWorld (onServices (finalizeExpiredWithSnapshot (job_command jc True) gid s
             (max (watch_finishedAt wc) (case expiresAt s of None \<Rightarrow> candidate_expiresAt c | Some e \<Rightarrow> e)))) st1
         else (st1, Inr ()))
      else if joined = 0 \<or> watchdog_hasNoActiveHumanPlayers s then
        thenS (watch_execute C jc (timerCommand gid (Finish_game_after_last_human_left (watch_finishedAt wc))) st1)
          (\<lambda>_ st2. (st2, Inr ()))
      else if watchdog_isGameExpired (watch_expiryNow wc) s (candidate_expiresAt c) then
        thenS (onQueue (enqueueGameExpiry Q (timerQueueUp jc) (job_delayNow jc) gid
            (case expiresAt s of None \<Rightarrow> candidate_expiresAt c | Some e \<Rightarrow> e)) st1)
          (\<lambda>_ st2. (st2\<lparr>expiryJobsEnsured := expiryJobsEnsured st2 + 1\<rparr>, Inr ()))
      else
        let continue = (\<lambda>st2.
              thenS (enqueueBot s st2) (\<lambda>_ st3.
              let st4 = st3\<lparr>botJobsEnsured := botJobsEnsured st3 + 1\<rparr> in
              if isTurnDeadlineOverdue (watch_retryNow wc) s then
                thenS (enqueueTimer s st4) (\<lambda>_ st5. (st5\<lparr>turnTimersEnsured := turnTimersEnsured st5 + 1\<rparr>, Inr ()))
              else (st4, Inr ()))) in
        if \<not> isTurnDeadlineOverdue (watch_overdueNow wc) s then continue st1
        else case hasActionableBot (job_dice jc) s of
          Inl e \<Rightarrow> (st1, Inl (Engine e))
        | Inr False \<Rightarrow> continue st1
        | Inr True \<Rightarrow>
            thenS (executeOverdueBotAction C wc gid s st1) (\<lambda>r st2.
            let st3 = st2\<lparr>botJobsEnsured := botJobsEnsured st2 + 1\<rparr> in
            thenS (enqueueBot (result_state r) st3) (\<lambda>_ st4.
            thenS (enqueueTimer (result_state r) st4) (\<lambda>_ st5.
            (st5\<lparr>turnTimersEnsured := turnTimersEnsured st5 + 1\<rparr>, Inr ()))))))"

text \<open>An error ends the work on one game, not the scan.\<close>

fun scanLoop ::
  "'t Codec \<Rightarrow> 'q JobQueue \<Rightarrow> (string \<Rightarrow> WatchConditions) \<Rightarrow> ActiveGameTimerCandidate list \<Rightarrow> ('t, 'q) ScanState \<Rightarrow>
   ('t, 'q) ScanState" where
  "scanLoop C Q wcs [] st = st"
| "scanLoop C Q wcs (c # cs) st =
     scanLoop C Q wcs cs
       (case scanCandidate C Q (wcs (candidate_id c)) c st of
          (st', Inr _) \<Rightarrow> st'
        | (st', Inl _) \<Rightarrow> st'\<lparr>recoveryFailures := recoveryFailures st' + 1\<rparr>)"

definition scanActiveGames ::
  "'t Codec \<Rightarrow> 'q JobQueue \<Rightarrow> (string \<Rightarrow> WatchConditions) \<Rightarrow> ('t, 'q) JobWorld \<Rightarrow> ('t, 'q) ScanState" where
  "scanActiveGames C Q wcs w =
     scanLoop C Q wcs (listActiveGames watchdogBatchSize (tables (job_services w)))
       \<lparr>scan_world = w, botJobsEnsured = 0, turnTimersEnsured = 0, expiryJobsEnsured = 0, recoveryFailures = 0\<rparr>"

section \<open>What a scan does to a stalled game\<close>

abbreviation scanServices :: "('t, 'q) ScanState \<Rightarrow> 't Services" where
  "scanServices st \<equiv> job_services (scan_world st)"

lemma onQueue_services [simp]: "scanServices (fst (onQueue f st)) = scanServices st"
  by (simp add: onQueue_def split: sum.split)

lemma thenS_services:
  "(\<And>x st. scanServices (fst (f x st)) = scanServices st) \<Longrightarrow> scanServices (fst (thenS r f)) = scanServices (fst r)"
  by (cases r; cases "snd r") auto

lemma onWorld_simp [simp]:
  "onWorld f st = (st\<lparr>scan_world := fst (f (scan_world st))\<rparr>, snd (f (scan_world st)))"
  by (simp add: onWorld_def split: prod.split)

lemma publish_services [simp]: "job_services (fst (publishCommandResult up gid r w)) = job_services w"
  by (simp add: publishCommandResult_def)

lemma watch_execute_services:
  "scanServices (fst (watch_execute C jc input st)) = fst (executeIntent C (job_command jc) input (scanServices st))"
  unfolding watch_execute_def by (subst thenS_services) (simp_all add: thenS_services)

lemma abandoned_accepted:
  assumes "wf_state s" "\<not> terminal (phase s)" "0 < now" "truthyNum (expiresAt s) \<Longrightarrow> effectiveNow clk < the (expiresAt s)"
  shows "\<exists>r. commandUpdate clk (timerCommand gid (Finish_game_after_last_human_left now)) s = Inr r \<and>
    phase (result_state r) = Finished"
proof -
  obtain xs where "calculateNetWorthStandings s = Inr xs"
    using standings_succeed [OF playersOk_distinct [OF wf_stateD(3) [OF assms(1)]] wf_stateD(4) [OF assms(1)]] by auto
  then show ?thesis
    using assms(2-4)
    by (auto simp: commandUpdate_def timerCommand_def getEffectiveIntentForCurrentTime_def Let_def finishedState_def
        finishGameAfterLastHumanLeft_def assertCanFinishAfterLastHumanLeft_def terminal_def)
qed

lemma bot_command_accepted:
  assumes wf: "wf_state s" and robot: "findActionBot s = Some robot"
    and dice: "fst dice \<in> {1..6}" "snd dice \<in> {1..6}"
    and debts: "wholeSets s" "ifSome (\<lambda>d. truthy (creditorRoomPlayerId d) \<longrightarrow>
      the (creditorRoomPlayerId d) \<in> activeIds (players s)) (debt s)"
    and bids: "bidCovered s" and offer: "phase s = Awaiting_turn_end \<Longrightarrow> tradeOffer s = None"
    and time: "truthyNum (expiresAt s) \<Longrightarrow> effectiveNow clk < the (expiresAt s)"
  shows "\<exists>d r. chooseDecision dice s = Inr (Some d) \<and> decision_roomPlayerId d = roomPlayerId robot \<and>
    assertIntentActorMatchesCommand (botCommand gid d) = Inr () \<and> commandUpdate clk (botCommand gid d) s = Inr r"
proof -
  obtain i x where i: "chooseIntentForBot dice s robot = Inr (Some i)" "reduceGameEngineIntent (engineEnv clk) s i = Inr x"
    using chosen_intent_accepted [OF wf robot dice debts bids offer, of "engineEnv clk"] by blast
  let ?d = "\<lparr>decision_roomPlayerId = roomPlayerId robot, decision_intent = i\<rparr>"
  have "getEffectiveIntentForCurrentTime (effectiveNow clk) s i = i"
    using time by (auto simp: getEffectiveIntentForCurrentTime_def)
  then have "\<exists>r. commandUpdate clk (botCommand gid ?d) s = Inr r"
    using i(2) by (cases x) (simp add: commandUpdate_def botCommand_def Let_def)
  moreover have "assertIntentActorMatchesCommand (botCommand gid ?d) = Inr ()"
    using intent_actor [OF i(1)] by (simp add: assertIntentActorMatchesCommand_def botCommand_def Let_def raiseIf_def)
  ultimately show ?thesis using robot i(1) by (intro exI [of _ ?d]) (simp add: chooseDecision_def)
qed

lemma botCommand_gameId [simp]: "command_gameId (botCommand gid d) = gid"
  by (simp add: botCommand_def)

lemma abandoned_actor [simp]:
  "assertIntentActorMatchesCommand (timerCommand gid (Finish_game_after_last_human_left t)) = Inr ()"
  by (simp add: timerCommand_def assertIntentActorMatchesCommand_def Let_def)


text \<open>A bot that has not decided on a property for ninety seconds, with a human at the table.\<close>

definition stalledGame :: GameEngineState where
  "stalledGame = botGame\<lparr>turnExpiresAt := Some 90000, expiresAt := Some 3600000\<rparr>"

definition stalledScan :: "(GameEngineState option, string \<rightharpoonup> JobState \<times> GameJob \<times> int) ScanState" where
  "stalledScan = \<lparr>scan_world = \<lparr>job_services = expiredServices\<lparr>redis := [stateKey ''g'' \<mapsto> Some stalledGame],
       tables := (tables expiredServices)\<lparr>roomPlayers := [
         \<lparr>rp_id = ''b'', rp_roomId = ''r'', rp_userId = Some ''u'', rp_playerType = Human, rp_botDifficulty = None,
          rp_botName = None, rp_seatNumber = 2, rp_status = Joined, rp_joinedAt = 1, rp_leftAt = None\<rparr>]\<rparr>\<rparr>,
       job_queue = Map.empty, job_published = []\<rparr>,
     botJobsEnsured = 0, turnTimersEnsured = 0, expiryJobsEnsured = 0, recoveryFailures = 0\<rparr>"

definition watchAt :: "int \<Rightarrow> WatchConditions" where
  "watchAt now = \<lparr>watch_jobs = jobsAt now, watch_expiryNow = now, watch_finishedAt = now, watch_overdueNow = now,
     watch_retryNow = now, watch_botDice = (3, 4)\<rparr>"

lemma stalled_game:
  "wf_state stalledGame" "plainIds stalledGame" "\<not> terminal (phase stalledGame)" "wholeSets stalledGame" "debt stalledGame = None"
  "auction stalledGame = None" "phase stalledGame = Awaiting_property_decision" "expiresAt stalledGame = Some 3600000"
  "isTurnDeadlineOverdue 92000 stalledGame" "\<not> watchdog_hasNoActiveHumanPlayers stalledGame"
  "map_option roomPlayerId (findActionBot stalledGame) = Some ''a''"
  by code_simp+

lemma stalled_scan:
  "live plainCodec ''g'' stalledGame (scanServices stalledScan)" "filed mapQueue (job_queue (scan_world stalledScan))"
  "findBy game_id ''g'' (games (tables (scanServices stalledScan))) \<noteq> None"
  "countJoinedHumanPlayers ''r'' (tables (scanServices stalledScan)) = 1"
  using mapQueue_ok(2)
  by (simp_all add: stalledScan_def live_def plainCodec_def expiredServices_def countJoinedHumanPlayers_def)


end
