(* ===== verification/Auth_Tables.thy ===== *)
theory Auth_Tables
  imports Game_Commands
begin

text \<open>
  The tables of accounts and sessions and the queries on them: \<^verbatim>\<open>src/src/auth/auth.repository.ts\<close>, the account part of
  \<^verbatim>\<open>src/src/users/repositories/users-profile.repository.ts\<close> and \<^verbatim>\<open>src/src/admin/admin.repository.ts\<close>, over
  \<^verbatim>\<open>src/src/infra/database/schema/user.schema.ts\<close> and \<^verbatim>\<open>auth.schema.ts\<close>. A table is the list of its rows in the order of
  their insertion; identifiers and the clock are arguments.
\<close>

section \<open>Strings\<close>

text \<open>
  \<^verbatim>\<open>trim()\<close> and \<^verbatim>\<open>toLowerCase()\<close> on the ASCII letters, the only letters that the validation of an address
  or a name lets through.
\<close>

definition isBlank :: "char \<Rightarrow> bool" where
  "isBlank c \<longleftrightarrow> c \<in> set [CHR '' '', CHR 0x09, CHR 0x0A, CHR 0x0B, CHR 0x0C, CHR 0x0D]"

definition trim :: "string \<Rightarrow> string" where
  "trim s = rev (dropWhile isBlank (rev (dropWhile isBlank s)))"

definition lowerChar :: "char \<Rightarrow> char" where
  "lowerChar c = (if 65 \<le> (of_char c :: nat) \<and> (of_char c :: nat) \<le> 90 then char_of ((of_char c :: nat) + 32) else c)"

definition toLowerCase :: "string \<Rightarrow> string" where
  "toLowerCase s = map lowerChar s"

definition normalized :: "string \<Rightarrow> string" where
  "normalized s = toLowerCase (trim s)"

lemma lowerChar_idem: "lowerChar (lowerChar c) = lowerChar c"
  by (auto simp: lowerChar_def)

lemma lower_normalized [simp]: "toLowerCase (normalized s) = normalized s"
  by (simp add: normalized_def toLowerCase_def lowerChar_idem)

section \<open>The tables\<close>

datatype UserRole = Player_role | Admin_role
datatype UserStatus = User_active | User_suspended

record UserRow =
  user_id :: string
  user_email :: string
  user_username :: string
  passwordHash :: "string option"
  emailVerified :: bool
  tokenVersion :: int
  avatarObjectKey :: "string option"
  user_bio :: "string option"
  user_role :: UserRole
  user_status :: UserStatus
  user_createdAt :: int
  user_updatedAt :: int
  deletedAt :: "int option"

record AuthRequestContext =
  context_ip :: "string option"
  context_userAgent :: "string option"

record SessionRow =
  session_id :: string
  session_userId :: string
  refreshTokenHash :: string
  session_context :: AuthRequestContext
  session_createdAt :: int
  lastUsedAt :: int
  session_expiresAt :: int
  revokedAt :: "int option"

datatype OAuthProvider = Google | Discord

record OAuthAccountRow =
  oauth_userId :: string
  oauth_provider :: OAuthProvider
  providerAccountId :: string
  providerEmail :: string
  oauth_updatedAt :: int

record AuthDb =
  users :: "UserRow list"
  sessions :: "SessionRow list"
  oauthAccounts :: "OAuthAccountRow list"

text \<open>\<^verbatim>\<open>update ... set ... where ... returning ...\<close>, and the first row of a result.\<close>

definition updateWhere :: "('a \<Rightarrow> bool) \<Rightarrow> ('a \<Rightarrow> 'a) \<Rightarrow> 'a list \<Rightarrow> 'a list \<times> 'a list" where
  "updateWhere P f xs = (map (\<lambda>x. if P x then f x else x) xs, map f (filter P xs))"

definition firstRow :: "'a list \<Rightarrow> 'a option" where
  "firstRow xs = (case xs of [] \<Rightarrow> None | x # _ \<Rightarrow> Some x)"

section \<open>Users\<close>

definition userCheck :: "UserRow \<Rightarrow> bool" where
  "userCheck u \<longleftrightarrow> user_email u = toLowerCase (user_email u) \<and> user_username u = toLowerCase (user_username u)"

definition usersClash :: "UserRow \<Rightarrow> UserRow \<Rightarrow> bool" where
  "usersClash u v \<longleftrightarrow> user_id u = user_id v \<or> user_email u = user_email v \<or> user_username u = user_username v"

definition insertUser :: "UserRow \<Rightarrow> AuthDb \<Rightarrow> ServiceError + AuthDb" where
  "insertUser u d =
     (if \<not> userCheck u then Inl checkViolation
      else if list_ex (usersClash u) (users d) then Inl uniqueViolation
      else Inr (d\<lparr>users := users d @ [u]\<rparr>))"

definition newUser :: "string \<Rightarrow> int \<Rightarrow> string \<Rightarrow> string \<Rightarrow> string option \<Rightarrow> bool \<Rightarrow> UserRow" where
  "newUser freshId now mailAddress name pwHash verified =
     \<lparr>user_id = freshId, user_email = mailAddress, user_username = name, passwordHash = pwHash, emailVerified = verified,
      tokenVersion = 0, avatarObjectKey = None, user_bio = None, user_role = Player_role, user_status = User_active,
      user_createdAt = now, user_updatedAt = now, deletedAt = None\<rparr>"

definition createUser ::
  "string \<Rightarrow> int \<Rightarrow> string \<Rightarrow> string \<Rightarrow> string \<Rightarrow> AuthDb \<Rightarrow> ServiceError + (AuthDb \<times> UserRow)" where
  "createUser freshId now mailAddress name pwHash d =
     (let u = newUser freshId now mailAddress name (Some pwHash) False in
      andThen (insertUser u d) (\<lambda>d'. Inr (d', u)))"

definition findUserByEmail :: "string \<Rightarrow> AuthDb \<Rightarrow> UserRow option" where
  "findUserByEmail mailAddress d = findBy user_email mailAddress (users d)"

definition findUserByUsername :: "string \<Rightarrow> AuthDb \<Rightarrow> UserRow option" where
  "findUserByUsername name d = findBy user_username name (users d)"

definition findUserByIdForAuthToken :: "string \<Rightarrow> AuthDb \<Rightarrow> UserRow option" where
  "findUserByIdForAuthToken uid d = findBy user_id uid (users d)"

definition markEmailVerified :: "int \<Rightarrow> string \<Rightarrow> AuthDb \<Rightarrow> AuthDb" where
  "markEmailVerified now uid d =
     d\<lparr>users := fst (updateWhere (\<lambda>u. user_id u = uid) (\<lambda>u. u\<lparr>emailVerified := True, user_updatedAt := now\<rparr>) (users d))\<rparr>"

definition updateUsers :: "(UserRow \<Rightarrow> bool) \<Rightarrow> (UserRow \<Rightarrow> UserRow) \<Rightarrow> AuthDb \<Rightarrow> AuthDb \<times> UserRow option" where
  "updateUsers P f d = (let (rows, changed) = updateWhere P f (users d) in (d\<lparr>users := rows\<rparr>, firstRow changed))"

definition updatePassword :: "int \<Rightarrow> string \<Rightarrow> string \<Rightarrow> AuthDb \<Rightarrow> AuthDb \<times> UserRow option" where
  "updatePassword now uid pwHash d =
     updateUsers (\<lambda>u. user_id u = uid)
       (\<lambda>u. u\<lparr>passwordHash := Some pwHash, tokenVersion := tokenVersion u + 1, user_updatedAt := now\<rparr>) d"

text \<open>Only the fields that are given change.\<close>

definition updateUser ::
  "int \<Rightarrow> string \<Rightarrow> string option \<Rightarrow> string option option \<Rightarrow> AuthDb \<Rightarrow> ServiceError + (AuthDb \<times> UserRow option)" where
  "updateUser now uid name bio d =
     (let due = (\<lambda>u. user_id u = uid \<and> deletedAt u = None);
          f = (\<lambda>u. u\<lparr>user_username := (case name of None \<Rightarrow> user_username u | Some n \<Rightarrow> n),
                       user_bio := (case bio of None \<Rightarrow> user_bio u | Some b \<Rightarrow> b), user_updatedAt := now\<rparr>) in
      if \<not> list_all (\<lambda>u. due u \<longrightarrow> userCheck (f u)) (users d) then Inl checkViolation
      else if list_ex due (users d) \<and> list_ex (\<lambda>q. \<not> due q \<and> Some (user_username q) = name) (users d) then Inl uniqueViolation
      else Inr (updateUsers due f d))"

definition deleteUser :: "int \<Rightarrow> string \<Rightarrow> AuthDb \<Rightarrow> AuthDb \<times> UserRow option" where
  "deleteUser now uid d =
     updateUsers (\<lambda>u. user_id u = uid \<and> deletedAt u = None)
       (\<lambda>u. u\<lparr>deletedAt := Some now, user_updatedAt := now, tokenVersion := tokenVersion u + 1\<rparr>) d"

definition repo_updateUserStatus :: "int \<Rightarrow> string \<Rightarrow> UserStatus \<Rightarrow> AuthDb \<Rightarrow> AuthDb \<times> UserRow option" where
  "repo_updateUserStatus now uid status d =
     updateUsers (\<lambda>u. user_id u = uid \<and> deletedAt u = None)
       (\<lambda>u. u\<lparr>user_status := status, tokenVersion := tokenVersion u + 1, user_updatedAt := now\<rparr>) d"

definition repo_restoreDeletedUser :: "int \<Rightarrow> string \<Rightarrow> AuthDb \<Rightarrow> AuthDb \<times> UserRow option" where
  "repo_restoreDeletedUser now uid d =
     updateUsers (\<lambda>u. user_id u = uid \<and> deletedAt u \<noteq> None)
       (\<lambda>u. u\<lparr>avatarObjectKey := None, deletedAt := None, user_status := User_active, tokenVersion := tokenVersion u + 1,
              user_updatedAt := now\<rparr>) d"

definition admin_findUserByUsername :: "string \<Rightarrow> AuthDb \<Rightarrow> UserRow option" where
  "admin_findUserByUsername name d = find (\<lambda>u. user_username u = name \<and> deletedAt u = None) (users d)"

definition findDeletedUserByUsername :: "string \<Rightarrow> AuthDb \<Rightarrow> UserRow option" where
  "findDeletedUserByUsername name d = find (\<lambda>u. user_username u = name \<and> deletedAt u \<noteq> None) (users d)"

section \<open>Accounts of other providers\<close>

definition findUserByOAuthAccount :: "OAuthProvider \<Rightarrow> string \<Rightarrow> AuthDb \<Rightarrow> UserRow option" where
  "findUserByOAuthAccount p account d =
     (case find (\<lambda>a. oauth_provider a = p \<and> providerAccountId a = account) (oauthAccounts d) of
        None \<Rightarrow> None
      | Some a \<Rightarrow> findBy user_id (oauth_userId a) (users d))"

definition linkOAuthAccount ::
  "int \<Rightarrow> string \<Rightarrow> OAuthProvider \<Rightarrow> string \<Rightarrow> string \<Rightarrow> AuthDb \<Rightarrow> ServiceError + AuthDb" where
  "linkOAuthAccount now uid p account mailAddress d =
     (if list_ex (\<lambda>a. oauth_provider a = p \<and> (providerAccountId a = account \<or> oauth_userId a = uid)) (oauthAccounts d)
      then Inl uniqueViolation
      else Inr (d\<lparr>oauthAccounts := oauthAccounts d @
        [\<lparr>oauth_userId = uid, oauth_provider = p, providerAccountId = account, providerEmail = mailAddress, oauth_updatedAt = now\<rparr>]\<rparr>))"

definition createOAuthUser ::
  "string \<Rightarrow> int \<Rightarrow> string \<Rightarrow> string \<Rightarrow> OAuthProvider \<Rightarrow> string \<Rightarrow> AuthDb \<Rightarrow> ServiceError + (AuthDb \<times> UserRow)" where
  "createOAuthUser freshId now mailAddress name p account d =
     (let u = newUser freshId now mailAddress name None True in
      andThen (insertUser u d) (\<lambda>d1.
      andThen (linkOAuthAccount now (user_id u) p account mailAddress d1) (\<lambda>d2. Inr (d2, u))))"

definition updateOAuthAccountEmail :: "int \<Rightarrow> OAuthProvider \<Rightarrow> string \<Rightarrow> string \<Rightarrow> AuthDb \<Rightarrow> AuthDb" where
  "updateOAuthAccountEmail now p account mailAddress d =
     d\<lparr>oauthAccounts := fst (updateWhere (\<lambda>a. oauth_provider a = p \<and> providerAccountId a = account)
        (\<lambda>a. a\<lparr>providerEmail := mailAddress, oauth_updatedAt := now\<rparr>) (oauthAccounts d))\<rparr>"

section \<open>Sessions\<close>

definition sessionLive :: "int \<Rightarrow> SessionRow \<Rightarrow> bool" where
  "sessionLive now s \<longleftrightarrow> revokedAt s = None \<and> now < session_expiresAt s"

definition activeSession :: "int \<Rightarrow> string \<Rightarrow> SessionRow \<Rightarrow> bool" where
  "activeSession now uid s \<longleftrightarrow> session_userId s = uid \<and> sessionLive now s"

definition countActiveSessions :: "int \<Rightarrow> string \<Rightarrow> AuthDb \<Rightarrow> nat" where
  "countActiveSessions now uid d = length (filter (activeSession now uid) (sessions d))"

definition revokeOldestActiveSession :: "int \<Rightarrow> string \<Rightarrow> AuthDb \<Rightarrow> AuthDb \<times> SessionRow option" where
  "revokeOldestActiveSession now uid d =
     (case sort_key session_createdAt (filter (activeSession now uid) (sessions d)) of
        [] \<Rightarrow> (d, None)
      | oldest # _ \<Rightarrow>
          (d\<lparr>sessions := fst (updateWhere (\<lambda>s. session_id s = session_id oldest) (\<lambda>s. s\<lparr>revokedAt := Some now\<rparr>) (sessions d))\<rparr>,
           Some oldest))"

definition createSession ::
  "string \<Rightarrow> int \<Rightarrow> string \<Rightarrow> string \<Rightarrow> int \<Rightarrow> AuthRequestContext \<Rightarrow> AuthDb \<Rightarrow> ServiceError + (AuthDb \<times> SessionRow)" where
  "createSession freshId now uid h expires ctx d =
     (let s = \<lparr>session_id = freshId, session_userId = uid, refreshTokenHash = h, session_context = ctx, session_createdAt = now,
               lastUsedAt = now, session_expiresAt = expires, revokedAt = None\<rparr> in
      if list_ex (\<lambda>q. session_id q = freshId \<or> refreshTokenHash q = h) (sessions d) then Inl uniqueViolation
      else Inr (d\<lparr>sessions := sessions d @ [s]\<rparr>, s))"

definition findActiveSessionByRefreshTokenHash :: "int \<Rightarrow> string \<Rightarrow> AuthDb \<Rightarrow> SessionRow option" where
  "findActiveSessionByRefreshTokenHash now h d = find (\<lambda>s. refreshTokenHash s = h \<and> sessionLive now s) (sessions d)"

definition updateSessions :: "(SessionRow \<Rightarrow> bool) \<Rightarrow> (SessionRow \<Rightarrow> SessionRow) \<Rightarrow> AuthDb \<Rightarrow> AuthDb \<times> SessionRow list" where
  "updateSessions P f d = (let (rows, changed) = updateWhere P f (sessions d) in (d\<lparr>sessions := rows\<rparr>, changed))"

text \<open>The new hash meets the unique index like every other.\<close>

definition rotateSessionRefreshToken ::
  "int \<Rightarrow> string \<Rightarrow> string \<Rightarrow> string \<Rightarrow> int \<Rightarrow> AuthDb \<Rightarrow> ServiceError + (AuthDb \<times> SessionRow option)" where
  "rotateSessionRefreshToken now sid h h' expires d =
     (let due = (\<lambda>s. session_id s = sid \<and> refreshTokenHash s = h \<and> sessionLive now s);
          (d', changed) = updateSessions due (\<lambda>s. s\<lparr>refreshTokenHash := h', session_expiresAt := expires, lastUsedAt := now\<rparr>) d in
      if changed \<noteq> [] \<and> list_ex (\<lambda>q. \<not> due q \<and> refreshTokenHash q = h') (sessions d) then Inl uniqueViolation
      else Inr (d', firstRow changed))"

definition revokeSession :: "int \<Rightarrow> string \<Rightarrow> AuthDb \<Rightarrow> AuthDb" where
  "revokeSession now h d =
     fst (updateSessions (\<lambda>s. refreshTokenHash s = h \<and> revokedAt s = None) (\<lambda>s. s\<lparr>revokedAt := Some now\<rparr>) d)"

definition revokeUserSessions :: "int \<Rightarrow> string \<Rightarrow> AuthDb \<Rightarrow> AuthDb \<times> SessionRow list" where
  "revokeUserSessions now uid d =
     updateSessions (\<lambda>s. session_userId s = uid \<and> revokedAt s = None) (\<lambda>s. s\<lparr>revokedAt := Some now\<rparr>) d"

end
