(* ===== verification/Auth_Service.thy ===== *)
theory Auth_Service
  imports Auth_Tables
begin

text \<open>
  Signing up, signing in and staying signed in: \<^verbatim>\<open>src/src/auth/auth.service.ts\<close> with the caches it uses
  (\<^verbatim>\<open>otp/otp.service.ts\<close>, \<^verbatim>\<open>session/session-cache.service.ts\<close>, \<^verbatim>\<open>auth/auth-token-version-cache.service.ts\<close>,
  \<^verbatim>\<open>auth/oauth-state.service.ts\<close>), the guard of every request (\<^verbatim>\<open>auth/guards/auth.guard.ts\<close>), the deletion of an account
  (\<^verbatim>\<open>users/services/users-profile.service.ts\<close>) and its suspension by an admin (\<^verbatim>\<open>admin/admin.service.ts\<close>).
  SHA-256 and argon2 are the functions of a \<open>Crypto\<close> record. Codes, tokens and identifiers that the code draws at random
  are arguments. An operation reads the clock once, in milliseconds. Mails and the clean-up of deleted accounts are queues of jobs. Security events are
  left out.
\<close>

section \<open>Parameters and state\<close>

record Crypto =
  hashToken :: "string \<Rightarrow> string"
  hashPassword :: "nat \<Rightarrow> string \<Rightarrow> string"
  verifyPassword :: "string \<Rightarrow> string \<Rightarrow> bool"

text \<open>What the code relies on: a password verifies against its own hash and no other password does.\<close>

definition cryptoOk :: "Crypto \<Rightarrow> bool" where
  "cryptoOk K \<longleftrightarrow> (\<forall>salt p q. verifyPassword K (hashPassword K salt p) q \<longleftrightarrow> p = q)"

record CachedSession =
  cached_id :: string
  cached_userId :: string
  cached_refreshTokenHash :: string
  cached_expiresAt :: int

datatype CacheValue = Cached_text string | Cached_session CachedSession | Cached_number int | Cached_true

text \<open>A key holds a value until its time to live is over.\<close>

type_synonym Cache = "string \<rightharpoonup> CacheValue \<times> int"

definition cache_get :: "int \<Rightarrow> string \<Rightarrow> Cache \<Rightarrow> CacheValue option" where
  "cache_get now key c = (case c key of None \<Rightarrow> None | Some (v, until) \<Rightarrow> if now < until then Some v else None)"

definition cache_set :: "int \<Rightarrow> string \<Rightarrow> CacheValue \<Rightarrow> int \<Rightarrow> Cache \<Rightarrow> Cache" where
  "cache_set now key v ttlSeconds c = c(key \<mapsto> (v, now + ttlSeconds * 1000))"

definition cache_del :: "string \<Rightarrow> Cache \<Rightarrow> Cache" where
  "cache_del key c = c(key := None)"

datatype Mail = Email_verification_otp string string | Password_reset_otp string string

record DeletedUserCleanup =
  cleanup_userId :: string
  cleanup_email :: string
  cleanup_username :: string
  cleanup_avatarObjectKey :: "string option"
  cleanup_deletedAt :: int

record AuthState =
  db :: AuthDb
  cache :: Cache
  mails :: "Mail list"
  cleanups :: "DeletedUserCleanup list"
  searchVersionBumps :: nat

definition refreshTokenTtlDays :: int where "refreshTokenTtlDays = 7"
definition emailOtpTtlMinutes :: int where "emailOtpTtlMinutes = 15"
definition passwordResetOtpTtlMinutes :: int where "passwordResetOtpTtlMinutes = 5"
definition maxActiveSessions :: nat where "maxActiveSessions = 3"
definition TOKEN_VERSION_CACHE_TTL_SECONDS :: int where "TOKEN_VERSION_CACHE_TTL_SECONDS = 24 * 60 * 60"
definition OAUTH_STATE_TTL_SECONDS :: int where "OAUTH_STATE_TTL_SECONDS = 10 * 60"

definition commitDb :: "AuthState \<Rightarrow> ServiceError + (AuthDb \<times> 'a) \<Rightarrow> AuthState \<times> (ServiceError + 'a)" where
  "commitDb st r = (case r of Inl e \<Rightarrow> (st, Inl e) | Inr (d, x) \<Rightarrow> (st\<lparr>db := d\<rparr>, Inr x))"

lemma commitDb_simps [simp]:
  "commitDb st (Inl e) = (st, Inl e)"
  "commitDb st (Inr (d, x)) = (st\<lparr>db := d\<rparr>, Inr x)"
  by (simp_all add: commitDb_def)

section \<open>The caches\<close>

definition emailVerificationKey :: "string \<Rightarrow> string" where "emailVerificationKey uid = ''otp:email-verification:'' @ uid"
definition passwordResetKey :: "string \<Rightarrow> string" where "passwordResetKey uid = ''otp:password-reset:'' @ uid"
definition sessionKey :: "string \<Rightarrow> string" where "sessionKey h = ''session:refresh:'' @ h"
definition tokenVersionKey :: "string \<Rightarrow> string" where "tokenVersionKey uid = ''auth:user-token-version:'' @ uid"

definition providerName :: "OAuthProvider \<Rightarrow> string" where
  "providerName p = (case p of Google \<Rightarrow> ''google'' | Discord \<Rightarrow> ''discord'')"

definition oauthStateKey :: "OAuthProvider \<Rightarrow> string \<Rightarrow> string" where
  "oauthStateKey p s = ''oauth:state:'' @ providerName p @ '':'' @ s"

definition storeEmailVerificationOtp :: "Crypto \<Rightarrow> int \<Rightarrow> string \<Rightarrow> string \<Rightarrow> int \<Rightarrow> Cache \<Rightarrow> Cache" where
  "storeEmailVerificationOtp K now uid code ttl c =
     cache_set now (emailVerificationKey uid) (Cached_text (hashToken K code)) ttl c"

text \<open>An empty text counts as absent.\<close>

definition validOtp :: "Crypto \<Rightarrow> CacheValue option \<Rightarrow> string \<Rightarrow> bool" where
  "validOtp K stored code \<longleftrightarrow> hashToken K code \<noteq> [] \<and> stored = Some (Cached_text (hashToken K code))"

definition isValidEmailVerificationOtp :: "Crypto \<Rightarrow> int \<Rightarrow> string \<Rightarrow> string \<Rightarrow> Cache \<Rightarrow> bool" where
  "isValidEmailVerificationOtp K now uid code c \<longleftrightarrow> validOtp K (cache_get now (emailVerificationKey uid) c) code"

definition deleteEmailVerificationOtp :: "string \<Rightarrow> Cache \<Rightarrow> Cache" where
  "deleteEmailVerificationOtp uid c = cache_del (emailVerificationKey uid) c"

definition storePasswordResetOtp :: "Crypto \<Rightarrow> int \<Rightarrow> string \<Rightarrow> string \<Rightarrow> int \<Rightarrow> Cache \<Rightarrow> Cache" where
  "storePasswordResetOtp K now uid code ttl c =
     cache_set now (passwordResetKey uid) (Cached_text (hashToken K code)) ttl c"

definition isValidPasswordResetOtp :: "Crypto \<Rightarrow> int \<Rightarrow> string \<Rightarrow> string \<Rightarrow> Cache \<Rightarrow> bool" where
  "isValidPasswordResetOtp K now uid code c \<longleftrightarrow> validOtp K (cache_get now (passwordResetKey uid) c) code"

definition deletePasswordResetOtp :: "string \<Rightarrow> Cache \<Rightarrow> Cache" where
  "deletePasswordResetOtp uid c = cache_del (passwordResetKey uid) c"

definition storeSession :: "int \<Rightarrow> SessionRow \<Rightarrow> int \<Rightarrow> Cache \<Rightarrow> Cache" where
  "storeSession now s ttl c =
     cache_set now (sessionKey (refreshTokenHash s))
       (Cached_session \<lparr>cached_id = session_id s, cached_userId = session_userId s,
          cached_refreshTokenHash = refreshTokenHash s, cached_expiresAt = session_expiresAt s\<rparr>) ttl c"

definition getSession :: "int \<Rightarrow> string \<Rightarrow> Cache \<Rightarrow> CachedSession option" where
  "getSession now h c = (case cache_get now (sessionKey h) c of Some (Cached_session s) \<Rightarrow> Some s | _ \<Rightarrow> None)"

definition deleteSession :: "string \<Rightarrow> Cache \<Rightarrow> Cache" where
  "deleteSession h c = cache_del (sessionKey h) c"

definition deleteSessions :: "SessionRow list \<Rightarrow> Cache \<Rightarrow> Cache" where
  "deleteSessions rows c = foldl (\<lambda>c s. deleteSession (refreshTokenHash s) c) c rows"

definition setTokenVersion :: "int \<Rightarrow> string \<Rightarrow> int \<Rightarrow> Cache \<Rightarrow> Cache" where
  "setTokenVersion now uid v c = cache_set now (tokenVersionKey uid) (Cached_number v) TOKEN_VERSION_CACHE_TTL_SECONDS c"

definition getTokenVersion :: "int \<Rightarrow> string \<Rightarrow> Cache \<Rightarrow> int option" where
  "getTokenVersion now uid c = (case cache_get now (tokenVersionKey uid) c of Some (Cached_number v) \<Rightarrow> Some v | _ \<Rightarrow> None)"

definition createState :: "int \<Rightarrow> OAuthProvider \<Rightarrow> string \<Rightarrow> Cache \<Rightarrow> Cache" where
  "createState now p s c = cache_set now (oauthStateKey p s) Cached_true OAUTH_STATE_TTL_SECONDS c"

definition consumeState :: "int \<Rightarrow> OAuthProvider \<Rightarrow> string \<Rightarrow> Cache \<Rightarrow> ServiceError + Cache" where
  "consumeState now p s c =
     (if cache_get now (oauthStateKey p s) c = None then Inl (UnauthorizedException ''Invalid OAuth state'')
      else Inr (cache_del (oauthStateKey p s) c))"

section \<open>Sessions\<close>

record SessionResult =
  result_refreshToken :: string
  result_sessionId :: string
  result_user :: UserRow

definition createSessionTx ::
  "int \<Rightarrow> string \<Rightarrow> string \<Rightarrow> string \<Rightarrow> int \<Rightarrow> AuthRequestContext \<Rightarrow> AuthDb \<Rightarrow>
   ServiceError + (AuthDb \<times> (SessionRow \<times> SessionRow option))" where
  "createSessionTx now sid uid h expires ctx d =
     (let (d1, revoked) = (if maxActiveSessions \<le> countActiveSessions now uid d
                           then revokeOldestActiveSession now uid d else (d, None)) in
      andThen (createSession sid now uid h expires ctx d1) (\<lambda>(d2, s). Inr (d2, s, revoked)))"

definition refreshExpiry :: "int \<Rightarrow> int" where
  "refreshExpiry now = now + refreshTokenTtlDays * 24 * 60 * 60 * 1000"

definition createSessionForUser ::
  "Crypto \<Rightarrow> int \<Rightarrow> string \<Rightarrow> string \<Rightarrow> AuthRequestContext \<Rightarrow> UserRow \<Rightarrow> AuthState \<Rightarrow> AuthState \<times> (ServiceError + SessionResult)" where
  "createSessionForUser K now sid token ctx u st =
     thenS (commitDb st (createSessionTx now sid (user_id u) (hashToken K token) (refreshExpiry now) ctx (db st)))
       (\<lambda>(s, revoked) st1.
        let c1 = (case revoked of None \<Rightarrow> cache st1 | Some old \<Rightarrow> deleteSession (refreshTokenHash old) (cache st1));
            c2 = storeSession now s (refreshTokenTtlDays * 24 * 60 * 60) c1;
            c3 = setTokenVersion now (user_id u) (tokenVersion u) c2 in
        (st1\<lparr>cache := c3\<rparr>, Inr \<lparr>result_refreshToken = token, result_sessionId = session_id s, result_user = u\<rparr>))"

text \<open>The payload of an access token; signing and checking the signature is the library's.\<close>

record AccessToken =
  token_sub :: string
  token_sid :: string
  token_tv :: int
  token_email :: string
  token_username :: string

record LoginResult =
  login_accessToken :: AccessToken
  login_refreshToken :: string
  login_user :: UserRow

definition accessTokenFor :: "UserRow \<Rightarrow> string \<Rightarrow> AccessToken" where
  "accessTokenFor u sid =
     \<lparr>token_sub = user_id u, token_sid = sid, token_tv = tokenVersion u, token_email = user_email u,
      token_username = user_username u\<rparr>"

section \<open>Signing up\<close>

definition sendEmailVerificationOtp :: "Crypto \<Rightarrow> int \<Rightarrow> string \<Rightarrow> UserRow \<Rightarrow> AuthState \<Rightarrow> AuthState" where
  "sendEmailVerificationOtp K now code u st =
     st\<lparr>cache := storeEmailVerificationOtp K now (user_id u) code (emailOtpTtlMinutes * 60) (cache st),
        mails := mails st @ [Email_verification_otp (user_email u) code]\<rparr>"

definition bumpUserSearchCacheVersion :: "AuthState \<Rightarrow> AuthState" where
  "bumpUserSearchCacheVersion st = st\<lparr>searchVersionBumps := searchVersionBumps st + 1\<rparr>"

definition hasPassword :: "UserRow \<Rightarrow> bool" where
  "hasPassword u \<longleftrightarrow> passwordHash u \<noteq> None \<and> passwordHash u \<noteq> Some []"

definition accountExists :: ServiceError where
  "accountExists = ConflictException ''Email or username already exists''"

definition signup ::
  "Crypto \<Rightarrow> int \<Rightarrow> string \<Rightarrow> nat \<Rightarrow> string \<Rightarrow> string \<Rightarrow> string \<Rightarrow> string \<Rightarrow> AuthState \<Rightarrow> AuthState \<times> (ServiceError + string)" where
  "signup K now freshId salt code dtoEmail dtoUsername dtoPassword st =
     (let mailAddress = normalized dtoEmail; name = normalized dtoUsername in
      case findUserByEmail mailAddress (db st) of
        Some u \<Rightarrow>
          if \<not> emailVerified u \<and> hasPassword u then (sendEmailVerificationOtp K now code u st, Inr ''Verification code sent'')
          else (st, Inl accountExists)
      | None \<Rightarrow>
          if findUserByUsername name (db st) \<noteq> None then (st, Inl accountExists)
          else thenS (commitDb st (createUser freshId now mailAddress name (hashPassword K salt dtoPassword) (db st)))
            (\<lambda>u st1. (sendEmailVerificationOtp K now code u (bumpUserSearchCacheVersion st1), Inr ''Verification code sent'')))"

definition verifyEmail :: "Crypto \<Rightarrow> int \<Rightarrow> string \<Rightarrow> string \<Rightarrow> AuthState \<Rightarrow> AuthState \<times> (ServiceError + string)" where
  "verifyEmail K now dtoEmail code st =
     (case findUserByEmail (normalized dtoEmail) (db st) of
        None \<Rightarrow> (st, Inl (NotFoundException ''User not found''))
      | Some u \<Rightarrow>
          if emailVerified u then (st, Inr ''Email already verified'')
          else if \<not> isValidEmailVerificationOtp K now (user_id u) code (cache st)
          then (st, Inl (BadRequestException ''Invalid or expired verification code''))
          else (bumpUserSearchCacheVersion (st\<lparr>db := markEmailVerified now (user_id u) (db st),
                  cache := deleteEmailVerificationOtp (user_id u) (cache st)\<rparr>), Inr ''Email verified''))"

definition resendEmailVerification :: "Crypto \<Rightarrow> int \<Rightarrow> string \<Rightarrow> string \<Rightarrow> AuthState \<Rightarrow> AuthState" where
  "resendEmailVerification K now code dtoEmail st =
     (case findUserByEmail (normalized dtoEmail) (db st) of
        None \<Rightarrow> st
      | Some u \<Rightarrow> if emailVerified u then st else sendEmailVerificationOtp K now code u st)"

section \<open>Signing in\<close>

definition invalidLogin :: ServiceError where
  "invalidLogin = UnauthorizedException ''Invalid email or password''"

definition login ::
  "Crypto \<Rightarrow> int \<Rightarrow> string \<Rightarrow> string \<Rightarrow> string \<Rightarrow> AuthRequestContext \<Rightarrow> string \<Rightarrow> string \<Rightarrow> AuthState \<Rightarrow>
   AuthState \<times> (ServiceError + LoginResult)" where
  "login K now sid token code ctx dtoEmail dtoPassword st =
     (case findUserByEmail (normalized dtoEmail) (db st) of
        None \<Rightarrow> (st, Inl invalidLogin)
      | Some u \<Rightarrow>
          if \<not> hasPassword u then (st, Inl invalidLogin)
          else if \<not> verifyPassword K (the (passwordHash u)) dtoPassword then (st, Inl invalidLogin)
          else if deletedAt u \<noteq> None then (st, Inl (ForbiddenException ''Unable to sign in''))
          else if \<not> emailVerified u then
            (sendEmailVerificationOtp K now code u st, Inl (ForbiddenException ''Email verification required''))
          else if user_status u \<noteq> User_active then (st, Inl invalidLogin)
          else thenS (createSessionForUser K now sid token ctx u st) (\<lambda>r st1.
            (st1, Inr \<lparr>login_accessToken = accessTokenFor u (result_sessionId r), login_refreshToken = result_refreshToken r,
                       login_user = u\<rparr>)))"

definition invalidRefreshToken :: ServiceError where
  "invalidRefreshToken = UnauthorizedException ''Invalid refresh token''"

text \<open>The session that a token belongs to, from the cache or else from the table: its identifier and its user.\<close>

definition lookupSession :: "int \<Rightarrow> string \<Rightarrow> AuthState \<Rightarrow> (string \<times> string) option" where
  "lookupSession now h st =
     (case getSession now h (cache st) of
        Some s \<Rightarrow> Some (cached_id s, cached_userId s)
      | None \<Rightarrow> map_option (\<lambda>s. (session_id s, session_userId s)) (findActiveSessionByRefreshTokenHash now h (db st)))"

definition refresh ::
  "Crypto \<Rightarrow> int \<Rightarrow> string \<Rightarrow> string option \<Rightarrow> AuthState \<Rightarrow> AuthState \<times> (ServiceError + LoginResult)" where
  "refresh K now nextToken refreshToken st =
     (if \<not> truthy refreshToken then (st, Inl (UnauthorizedException ''Refresh token required''))
      else let h = hashToken K (the refreshToken) in
      case lookupSession now h st of
        None \<Rightarrow> (st, Inl invalidRefreshToken)
      | Some (sid, uid) \<Rightarrow>
          (case findUserByIdForAuthToken uid (db st) of
             None \<Rightarrow> (st, Inl invalidRefreshToken)
           | Some u \<Rightarrow>
               if deletedAt u \<noteq> None then (st, Inl invalidRefreshToken)
               else if \<not> emailVerified u then (st, Inl invalidRefreshToken)
               else if user_status u \<noteq> User_active then (st, Inl invalidRefreshToken)
               else thenS (commitDb st (rotateSessionRefreshToken now sid h (hashToken K nextToken) (refreshExpiry now) (db st)))
                 (\<lambda>rotated st1. case rotated of
                    None \<Rightarrow> (st1, Inl invalidRefreshToken)
                  | Some s \<Rightarrow>
                      let c1 = deleteSession h (cache st1);
                          c2 = storeSession now s (refreshTokenTtlDays * 24 * 60 * 60) c1;
                          c3 = setTokenVersion now (user_id u) (tokenVersion u) c2 in
                      (st1\<lparr>cache := c3\<rparr>,
                       Inr \<lparr>login_accessToken = accessTokenFor u (session_id s), login_refreshToken = nextToken, login_user = u\<rparr>))))"

definition logout :: "Crypto \<Rightarrow> int \<Rightarrow> string option \<Rightarrow> AuthState \<Rightarrow> AuthState" where
  "logout K now refreshToken st =
     (if \<not> truthy refreshToken then st
      else let h = hashToken K (the refreshToken) in
        st\<lparr>db := revokeSession now h (db st), cache := deleteSession h (cache st)\<rparr>)"

section \<open>Forgotten passwords\<close>

definition forgotPassword :: "Crypto \<Rightarrow> int \<Rightarrow> string \<Rightarrow> string \<Rightarrow> AuthState \<Rightarrow> AuthState" where
  "forgotPassword K now code dtoEmail st =
     (case findUserByEmail (normalized dtoEmail) (db st) of
        None \<Rightarrow> st
      | Some u \<Rightarrow>
          st\<lparr>cache := storePasswordResetOtp K now (user_id u) code (passwordResetOtpTtlMinutes * 60) (cache st),
             mails := mails st @ [Password_reset_otp (user_email u) code]\<rparr>)"

definition resetPasswordTx :: "int \<Rightarrow> string \<Rightarrow> string \<Rightarrow> AuthDb \<Rightarrow> ServiceError + (AuthDb \<times> (SessionRow list \<times> int))" where
  "resetPasswordTx now uid pwHash d =
     (case updatePassword now uid pwHash d of
        (d1, None) \<Rightarrow> Inl (InternalServerErrorException ''Failed to update password'')
      | (d1, Some u) \<Rightarrow> (case revokeUserSessions now uid d1 of (d2, revoked) \<Rightarrow> Inr (d2, revoked, tokenVersion u)))"

definition invalidResetCode :: ServiceError where
  "invalidResetCode = BadRequestException ''Invalid or expired password reset code''"

definition resetPassword ::
  "Crypto \<Rightarrow> int \<Rightarrow> nat \<Rightarrow> string \<Rightarrow> string \<Rightarrow> string \<Rightarrow> AuthState \<Rightarrow> AuthState \<times> (ServiceError + string)" where
  "resetPassword K now salt dtoEmail code dtoPassword st =
     (case findUserByEmail (normalized dtoEmail) (db st) of
        None \<Rightarrow> (st, Inl invalidResetCode)
      | Some u \<Rightarrow>
          if \<not> isValidPasswordResetOtp K now (user_id u) code (cache st) then (st, Inl invalidResetCode)
          else thenS (commitDb st (resetPasswordTx now (user_id u) (hashPassword K salt dtoPassword) (db st)))
            (\<lambda>(revoked, v) st1.
             (st1\<lparr>cache := deleteSessions revoked (setTokenVersion now (user_id u) v (deletePasswordResetOtp (user_id u) (cache st1)))\<rparr>,
              Inr ''Password reset successful'')))"

section \<open>Other providers\<close>

record OAuthProfile =
  profile_provider :: OAuthProvider
  profile_accountId :: string
  profile_email :: string
  profile_emailVerified :: bool
  profile_usernameSeed :: string

definition usernameChar :: "char \<Rightarrow> bool" where
  "usernameChar c \<longleftrightarrow> c \<in> set ''abcdefghijklmnopqrstuvwxyz0123456789_''"

definition usernameBase :: "string \<Rightarrow> string" where
  "usernameBase seed = (let b = take 20 (filter usernameChar (normalized seed)) in if b = [] then ''player'' else b)"

text \<open>\<open>suffix i\<close> is the random number of the \<open>i\<close>-th attempt, \<open>suffix 8\<close> the one of the last resort.\<close>

definition generateAvailableUsername :: "(nat \<Rightarrow> string) \<Rightarrow> string \<Rightarrow> AuthDb \<Rightarrow> string" where
  "generateAvailableUsername suffix seed d =
     (case find (\<lambda>name. findUserByUsername name d = None)
             (map (\<lambda>i. usernameBase seed @ (if i = 0 then [] else suffix i)) [0..<8]) of
        Some name \<Rightarrow> name
      | None \<Rightarrow> ''player'' @ suffix 8)"

definition authenticationRequired :: ServiceError where
  "authenticationRequired = UnauthorizedException ''Authentication required''"

text \<open>The transaction links the account to the user of the same address or creates a user; the flag says whether the search
  cache is outdated.\<close>

definition oauthUserTx ::
  "int \<Rightarrow> string \<Rightarrow> (nat \<Rightarrow> string) \<Rightarrow> OAuthProfile \<Rightarrow> AuthDb \<Rightarrow> ServiceError + (AuthDb \<times> (UserRow \<times> bool))" where
  "oauthUserTx now freshId suffix p d =
     (case findUserByEmail (profile_email p) d of
        Some u \<Rightarrow>
          if deletedAt u \<noteq> None then Inl authenticationRequired
          else if user_status u \<noteq> User_active then Inl authenticationRequired
          else andThen (linkOAuthAccount now (user_id u) (profile_provider p) (profile_accountId p) (profile_email p) d) (\<lambda>d1.
            if emailVerified u then Inr (d1, u, False) else Inr (markEmailVerified now (user_id u) d1, u, True))
      | None \<Rightarrow>
          andThen (createOAuthUser freshId now (profile_email p) (generateAvailableUsername suffix (profile_usernameSeed p) d)
                     (profile_provider p) (profile_accountId p) d) (\<lambda>(d1, u). Inr (d1, u, True)))"

definition loginOrCreateOAuthUser ::
  "Crypto \<Rightarrow> int \<Rightarrow> string \<Rightarrow> (nat \<Rightarrow> string) \<Rightarrow> string \<Rightarrow> string \<Rightarrow> OAuthProfile \<Rightarrow> AuthRequestContext \<Rightarrow> AuthState \<Rightarrow>
   AuthState \<times> (ServiceError + SessionResult)" where
  "loginOrCreateOAuthUser K now freshId suffix sid token p ctx st =
     (if \<not> profile_emailVerified p then (st, Inl (UnauthorizedException ''OAuth email must be verified''))
      else case findUserByOAuthAccount (profile_provider p) (profile_accountId p) (db st) of
        Some u \<Rightarrow>
          if deletedAt u \<noteq> None then (st, Inl authenticationRequired)
          else if user_status u \<noteq> User_active then (st, Inl authenticationRequired)
          else createSessionForUser K now sid token ctx u
            (st\<lparr>db := updateOAuthAccountEmail now (profile_provider p) (profile_accountId p) (profile_email p) (db st)\<rparr>)
      | None \<Rightarrow>
          thenS (commitDb st (oauthUserTx now freshId suffix p (db st))) (\<lambda>(u, outdated) st1.
          createSessionForUser K now sid token ctx u (if outdated then bumpUserSearchCacheVersion st1 else st1)))"

text \<open>\<open>exchange\<close> asks the provider who the bearer of a code is; both callbacks differ only in the provider.\<close>

definition handleOAuthCallback ::
  "Crypto \<Rightarrow> (string \<Rightarrow> ServiceError + OAuthProfile) \<Rightarrow> OAuthProvider \<Rightarrow> int \<Rightarrow> string \<Rightarrow> (nat \<Rightarrow> string) \<Rightarrow> string \<Rightarrow> string \<Rightarrow>
   string option \<Rightarrow> string option \<Rightarrow> AuthRequestContext \<Rightarrow> AuthState \<Rightarrow> AuthState \<times> (ServiceError + string)" where
  "handleOAuthCallback K exchange provider now freshId suffix sid token code state ctx st =
     (if \<not> truthy code \<or> \<not> truthy state then (st, Inl (BadRequestException ''Invalid OAuth callback''))
      else case consumeState now provider (the state) (cache st) of
        Inl e \<Rightarrow> (st, Inl e)
      | Inr c \<Rightarrow>
          let st1 = st\<lparr>cache := c\<rparr> in
          (case exchange (the code) of
             Inl e \<Rightarrow> (st1, Inl e)
           | Inr p \<Rightarrow> thenS (loginOrCreateOAuthUser K now freshId suffix sid token p ctx st1)
               (\<lambda>r st2. (st2, Inr (result_refreshToken r)))))"

section \<open>The guard of a request\<close>

record AuthUser =
  auth_id :: string
  auth_email :: string
  auth_username :: string
  auth_role :: UserRole
  auth_status :: UserStatus
  auth_sessionId :: string
  auth_tokenVersion :: int

text \<open>\<open>payload\<close> is what the library read from the bearer token, if there was one and its signature was good.\<close>

definition canActivate :: "int \<Rightarrow> AccessToken option \<Rightarrow> AuthState \<Rightarrow> AuthState \<times> (ServiceError + AuthUser)" where
  "canActivate now payload st =
     (case payload of
        None \<Rightarrow> (st, Inl authenticationRequired)
      | Some t \<Rightarrow>
          let cached = getTokenVersion now (token_sub t) (cache st) in
          if cached \<noteq> None \<and> cached \<noteq> Some (token_tv t) then (st, Inl authenticationRequired)
          else case findUserByIdForAuthToken (token_sub t) (db st) of
            None \<Rightarrow> (st, Inl authenticationRequired)
          | Some u \<Rightarrow>
              if \<not> emailVerified u \<or> user_status u \<noteq> User_active \<or> deletedAt u \<noteq> None \<or> tokenVersion u \<noteq> token_tv t then
                (if tokenVersion u \<noteq> token_tv t then st\<lparr>cache := setTokenVersion now (user_id u) (tokenVersion u) (cache st)\<rparr> else st,
                 Inl authenticationRequired)
              else
                (if cached \<noteq> Some (tokenVersion u) then st\<lparr>cache := setTokenVersion now (user_id u) (tokenVersion u) (cache st)\<rparr> else st,
                 Inr \<lparr>auth_id = user_id u, auth_email = user_email u, auth_username = user_username u, auth_role = user_role u,
                      auth_status = user_status u, auth_sessionId = token_sid t, auth_tokenVersion = tokenVersion u\<rparr>))"

section \<open>Changing and closing accounts\<close>

definition updateMe :: "int \<Rightarrow> AuthUser \<Rightarrow> string option \<Rightarrow> string option \<Rightarrow> AuthState \<Rightarrow> AuthState \<times> (ServiceError + UserRow)" where
  "updateMe now me dtoUsername dtoBio st =
     (let name = map_option normalized dtoUsername;
          bio = map_option (\<lambda>b. if trim b = [] then None else Some (trim b)) dtoBio;
          taken = ConflictException ''Username already exists'' in
      if name = None \<and> bio = None then (st, Inl (BadRequestException ''No profile updates provided''))
      else if truthy name \<and> name \<noteq> Some (auth_username me) \<and> findUserByUsername (the name) (db st) \<noteq> None then (st, Inl taken)
      else case updateUser now (auth_id me) (if truthy name then name else None) bio (db st) of
        Inl e \<Rightarrow> (st, Inl (if e = uniqueViolation then taken else e))
      | Inr (d, None) \<Rightarrow> (st\<lparr>db := d\<rparr>, Inl (NotFoundException ''User not found''))
      | Inr (d, Some u) \<Rightarrow> (bumpUserSearchCacheVersion (st\<lparr>db := d\<rparr>), Inr u))"

definition deleteMeTx :: "int \<Rightarrow> string \<Rightarrow> AuthDb \<Rightarrow> AuthDb \<times> (UserRow \<times> SessionRow list) option" where
  "deleteMeTx now uid d =
     (case deleteUser now uid d of
        (d1, None) \<Rightarrow> (d1, None)
      | (d1, Some u) \<Rightarrow> (case revokeUserSessions now uid d1 of (d2, revoked) \<Rightarrow> (d2, Some (u, revoked))))"

definition deleteMe :: "int \<Rightarrow> AuthUser \<Rightarrow> AuthState \<Rightarrow> AuthState \<times> (ServiceError + unit)" where
  "deleteMe now me st =
     (if auth_role me = Admin_role then (st, Inl (ForbiddenException ''Account deletion is not available''))
      else case deleteMeTx now (auth_id me) (db st) of
        (d, None) \<Rightarrow> (st\<lparr>db := d\<rparr>, Inl (NotFoundException ''User not found''))
      | (d, Some (u, revoked)) \<Rightarrow>
          (bumpUserSearchCacheVersion (st\<lparr>db := d, cache := deleteSessions revoked (cache st), cleanups := cleanups st @
             [\<lparr>cleanup_userId = user_id u, cleanup_email = user_email u, cleanup_username = user_username u,
               cleanup_avatarObjectKey = avatarObjectKey u, cleanup_deletedAt = now\<rparr>]\<rparr>), Inr ()))"

definition updateUserStatusTx ::
  "int \<Rightarrow> AuthUser \<Rightarrow> string \<Rightarrow> UserStatus \<Rightarrow> AuthDb \<Rightarrow> ServiceError + (AuthDb \<times> (UserRow option \<times> SessionRow list))" where
  "updateUserStatusTx now me name status d =
     (case admin_findUserByUsername name d of
        None \<Rightarrow> Inr (d, None, [])
      | Some existing \<Rightarrow>
          if user_id existing = auth_id me then Inl (BadRequestException ''Admin cannot update their own status'')
          else case repo_updateUserStatus now (user_id existing) status d of (d1, target) \<Rightarrow>
            if status = User_suspended
            then (case revokeUserSessions now (user_id existing) d1 of (d2, revoked) \<Rightarrow> Inr (d2, target, revoked))
            else Inr (d1, target, []))"

definition updateUserStatus ::
  "int \<Rightarrow> AuthUser \<Rightarrow> string \<Rightarrow> UserStatus \<Rightarrow> AuthState \<Rightarrow> AuthState \<times> (ServiceError + UserRow)" where
  "updateUserStatus now me dtoUsername status st =
     thenS (commitDb st (updateUserStatusTx now me (normalized dtoUsername) status (db st))) (\<lambda>(target, revoked) st1.
     case target of
       None \<Rightarrow> (st1, Inl (NotFoundException ''User not found''))
     | Some u \<Rightarrow> (st1\<lparr>cache := deleteSessions revoked (cache st1)\<rparr>, Inr u))"

definition restoreDeletedUserTx :: "int \<Rightarrow> AuthUser \<Rightarrow> string \<Rightarrow> AuthDb \<Rightarrow> ServiceError + (AuthDb \<times> UserRow option)" where
  "restoreDeletedUserTx now me name d =
     (case findDeletedUserByUsername name d of
        None \<Rightarrow> Inr (d, None)
      | Some deleted \<Rightarrow>
          if user_id deleted = auth_id me then Inl (BadRequestException ''Admin cannot restore their own account'')
          else Inr (repo_restoreDeletedUser now (user_id deleted) d))"

definition restoreDeletedUser :: "int \<Rightarrow> AuthUser \<Rightarrow> string \<Rightarrow> AuthState \<Rightarrow> AuthState \<times> (ServiceError + UserRow)" where
  "restoreDeletedUser now me dtoUsername st =
     thenS (commitDb st (restoreDeletedUserTx now me (normalized dtoUsername) (db st))) (\<lambda>target st1.
     case target of
       None \<Rightarrow> (st1, Inl (NotFoundException ''Deleted user not found''))
     | Some u \<Rightarrow> (bumpUserSearchCacheVersion st1, Inr u))"

end
