(* ===== verification/Game_Realtime.thy ===== *)
theory Game_Realtime
  imports Game_Timers Auth_Service
begin

text \<open>
  What a client can do over its socket: \<^verbatim>\<open>src/src/game/realtime/game-realtime.service.ts\<close> with
  \<^verbatim>\<open>game-access.repository.ts\<close>, and the message handlers of \<^verbatim>\<open>game.gateway.ts\<close>. The rate limiter, the presence
  store and the text of error messages are left out; whether the limiter lets a message pass is an argument.
\<close>

section \<open>Who may use a game\<close>

definition gameInPlay :: "string \<Rightarrow> Tables \<Rightarrow> GameRow option" where
  "gameInPlay gid t =
     (case findBy game_id gid (games t) of
        None \<Rightarrow> None
      | Some g \<Rightarrow>
          if game_status g \<noteq> ''active'' then None
          else case findBy room_id (game_roomId g) (rooms t) of
            None \<Rightarrow> None
          | Some room \<Rightarrow> if room_status room = ''active'' then Some g else None)"

definition findActivePlayerForGame :: "string \<Rightarrow> string \<Rightarrow> Tables \<Rightarrow> RoomPlayerRow option" where
  "findActivePlayerForGame gid user t =
     (case gameInPlay gid t of
        None \<Rightarrow> None
      | Some g \<Rightarrow> find (\<lambda>p. rp_roomId p = game_roomId g \<and> rp_userId p = Some user \<and> rp_playerType p = Human \<and>
                        rp_status p = Joined) (roomPlayers t))"

definition findCurrentSpectatorForGame :: "string \<Rightarrow> string \<Rightarrow> Tables \<Rightarrow> RoomSpectatorRow option" where
  "findCurrentSpectatorForGame gid user t =
     (case gameInPlay gid t of
        None \<Rightarrow> None
      | Some g \<Rightarrow> find (\<lambda>p. rs_roomId p = game_roomId g \<and> rs_userId p = user \<and> rs_leftAt p = None) (roomSpectators t))"

definition gameAccessDenied :: ServiceError where
  "gameAccessDenied = ForbiddenException ''Game access denied''"

definition requireActiveAccount :: "AuthDb \<Rightarrow> string \<Rightarrow> ServiceError + unit" where
  "requireActiveAccount d user =
     (case findUserByIdForAuthToken user d of
        None \<Rightarrow> Inl authenticationRequired
      | Some u \<Rightarrow> raiseIf (\<not> emailVerified u \<or> user_status u \<noteq> User_active \<or> deletedAt u \<noteq> None) authenticationRequired)"

definition requireActivePlayer :: "AuthDb \<Rightarrow> string \<Rightarrow> string \<Rightarrow> Tables \<Rightarrow> ServiceError + RoomPlayerRow" where
  "requireActivePlayer d gid user t =
     andThen (requireActiveAccount d user) (\<lambda>_.
     ofOption gameAccessDenied (findActivePlayerForGame gid user t))"

datatype GameLiveAccess = Live_player string | Live_spectator string

definition requireLiveGameAccess :: "AuthDb \<Rightarrow> string \<Rightarrow> string \<Rightarrow> Tables \<Rightarrow> ServiceError + GameLiveAccess" where
  "requireLiveGameAccess d gid user t =
     andThen (requireActiveAccount d user) (\<lambda>_.
     case findActivePlayerForGame gid user t of
       Some p \<Rightarrow> Inr (Live_player (rp_id p))
     | None \<Rightarrow>
         (case findCurrentSpectatorForGame gid user t of
            Some sp \<Rightarrow> Inr (Live_spectator (rs_id sp))
          | None \<Rightarrow> Inl gameAccessDenied))"

section \<open>After a command\<close>

definition scheduleBotTurn ::
  "'q JobQueue \<Rightarrow> JobConditions \<Rightarrow> string \<Rightarrow> GameEngineState \<Rightarrow> ('t, 'q) JobWorld \<Rightarrow> ('t, 'q) JobWorld" where
  "scheduleBotTurn Q jc gid s =
     queueTry (enqueueIfBotCanAct Q (botQueueUp jc) (job_nextDice jc) (job_random jc) gid s)"

definition scheduleTurnTimer ::
  "'q JobQueue \<Rightarrow> JobConditions \<Rightarrow> string \<Rightarrow> GameEngineState \<Rightarrow> ('t, 'q) JobWorld \<Rightarrow> ('t, 'q) JobWorld" where
  "scheduleTurnTimer Q jc gid s = queueTry (enqueueTurnTimer Q (timerQueueUp jc) (job_delayNow jc) gid s)"

definition realtime_publishCommandResult ::
  "JobConditions \<Rightarrow> string \<Rightarrow> GameCommandResult \<Rightarrow> ('t, 'q) JobWorld \<Rightarrow> ('t, 'q) JobWorld" where
  "realtime_publishCommandResult jc gid r w = fst (publishCommandResult (publishUp jc) gid r w)"

definition afterHumanCommandSucceeded ::
  "'q JobQueue \<Rightarrow> JobConditions \<Rightarrow> string \<Rightarrow> GameCommandResult \<Rightarrow> ('t, 'q) JobWorld \<Rightarrow> ('t, 'q) JobWorld" where
  "afterHumanCommandSucceeded Q jc gid r w =
     scheduleTurnTimer Q jc gid (result_state r)
       (scheduleBotTurn Q jc gid (result_state r) (realtime_publishCommandResult jc gid r w))"

definition repairLiveGameScheduling ::
  "'q JobQueue \<Rightarrow> JobConditions \<Rightarrow> string \<Rightarrow> GameEngineState \<Rightarrow> ('t, 'q) JobWorld \<Rightarrow> ('t, 'q) JobWorld" where
  "repairLiveGameScheduling Q jc gid s w = scheduleTurnTimer Q jc gid s (scheduleBotTurn Q jc gid s w)"

section \<open>The commands of a player\<close>

text \<open>What a command takes from its surroundings, and its result; \<open>job_dice\<close> are the dice the server would roll.\<close>

record ('t, 'q) Realtime =
  rt_codec :: "'t Codec"
  rt_queue :: "'q JobQueue"
  rt_conditions :: JobConditions
  rt_accounts :: AuthDb

type_synonym ('t, 'q) served = "('t, 'q) JobWorld \<Rightarrow> ('t, 'q) JobWorld \<times> (ServiceError + GameCommandResult)"

text \<open>The common shape of the methods: the player is looked up, his command is executed, then the rest of the game is told.\<close>

definition humanCommand ::
  "('t, 'q) Realtime \<Rightarrow> string \<Rightarrow> string \<Rightarrow> (string \<Rightarrow> ExecuteGameIntentCommand) \<Rightarrow> ('t, 'q) served" where
  "humanCommand rt gid user command w =
     (case requireActivePlayer (rt_accounts rt) gid user (tables (job_services w)) of
        Inl e \<Rightarrow> (w, Inl e)
      | Inr player \<Rightarrow>
          thenS (onServices (executeIntent (rt_codec rt) (job_command (rt_conditions rt)) (command (rp_id player))) w) (\<lambda>r w1.
          (afterHumanCommandSucceeded (rt_queue rt) (rt_conditions rt) gid r w1, Inr r)))"

definition realtime_rollAndMove :: "('t, 'q) Realtime \<Rightarrow> string \<Rightarrow> string \<Rightarrow> int list option \<Rightarrow> ('t, 'q) served" where
  "realtime_rollAndMove rt gid user dice =
     humanCommand rt gid user (\<lambda>pid. command_rollAndMove gid pid
       (case dice of Some d \<Rightarrow> d | None \<Rightarrow> [fst (job_dice (rt_conditions rt)), snd (job_dice (rt_conditions rt))]))"

definition realtime_endTurn :: "('t, 'q) Realtime \<Rightarrow> string \<Rightarrow> string \<Rightarrow> ('t, 'q) served" where
  "realtime_endTurn rt gid user = humanCommand rt gid user (command_endTurn gid)"

definition realtime_buyProperty :: "('t, 'q) Realtime \<Rightarrow> string \<Rightarrow> string \<Rightarrow> ('t, 'q) served" where
  "realtime_buyProperty rt gid user = humanCommand rt gid user (command_buyProperty gid)"

definition realtime_declinePropertyPurchase :: "('t, 'q) Realtime \<Rightarrow> string \<Rightarrow> string \<Rightarrow> ('t, 'q) served" where
  "realtime_declinePropertyPurchase rt gid user = humanCommand rt gid user (command_declinePropertyPurchase gid)"

definition realtime_placeAuctionBid :: "('t, 'q) Realtime \<Rightarrow> string \<Rightarrow> string \<Rightarrow> int \<Rightarrow> ('t, 'q) served" where
  "realtime_placeAuctionBid rt gid user amount =
     humanCommand rt gid user (\<lambda>pid. command_placeAuctionBid gid pid amount)"

definition realtime_passAuctionBid :: "('t, 'q) Realtime \<Rightarrow> string \<Rightarrow> string \<Rightarrow> ('t, 'q) served" where
  "realtime_passAuctionBid rt gid user = humanCommand rt gid user (command_passAuctionBid gid)"

definition realtime_payDebt :: "('t, 'q) Realtime \<Rightarrow> string \<Rightarrow> string \<Rightarrow> ('t, 'q) served" where
  "realtime_payDebt rt gid user = humanCommand rt gid user (command_payDebt gid)"

definition realtime_payJailFine :: "('t, 'q) Realtime \<Rightarrow> string \<Rightarrow> string \<Rightarrow> ('t, 'q) served" where
  "realtime_payJailFine rt gid user = humanCommand rt gid user (command_payJailFine gid)"

definition realtime_useGetOutOfJailCard :: "('t, 'q) Realtime \<Rightarrow> string \<Rightarrow> string \<Rightarrow> ('t, 'q) served" where
  "realtime_useGetOutOfJailCard rt gid user = humanCommand rt gid user (command_useGetOutOfJailCard gid)"

definition realtime_declareBankruptcy :: "('t, 'q) Realtime \<Rightarrow> string \<Rightarrow> string \<Rightarrow> ('t, 'q) served" where
  "realtime_declareBankruptcy rt gid user = humanCommand rt gid user (command_declareBankruptcy gid)"

definition realtime_buildProperty :: "('t, 'q) Realtime \<Rightarrow> string \<Rightarrow> string \<Rightarrow> string \<Rightarrow> ('t, 'q) served" where
  "realtime_buildProperty rt gid user key = humanCommand rt gid user (\<lambda>pid. command_buildProperty gid pid key)"

definition realtime_sellBuilding :: "('t, 'q) Realtime \<Rightarrow> string \<Rightarrow> string \<Rightarrow> string \<Rightarrow> ('t, 'q) served" where
  "realtime_sellBuilding rt gid user key = humanCommand rt gid user (\<lambda>pid. command_sellBuilding gid pid key)"

definition realtime_mortgageProperty :: "('t, 'q) Realtime \<Rightarrow> string \<Rightarrow> string \<Rightarrow> string \<Rightarrow> ('t, 'q) served" where
  "realtime_mortgageProperty rt gid user key = humanCommand rt gid user (\<lambda>pid. command_mortgageProperty gid pid key)"

definition realtime_unmortgageProperty :: "('t, 'q) Realtime \<Rightarrow> string \<Rightarrow> string \<Rightarrow> string \<Rightarrow> ('t, 'q) served" where
  "realtime_unmortgageProperty rt gid user key =
     humanCommand rt gid user (\<lambda>pid. command_unmortgageProperty gid pid key)"

definition realtime_proposeTrade ::
  "('t, 'q) Realtime \<Rightarrow> string \<Rightarrow> string \<Rightarrow> string \<Rightarrow> int \<Rightarrow> int \<Rightarrow> string list \<Rightarrow> string list \<Rightarrow> ('t, 'q) served" where
  "realtime_proposeTrade rt gid user toId offered requested offeredKeys requestedKeys =
     humanCommand rt gid user (\<lambda>pid. command_proposeTrade gid pid toId offered requested offeredKeys requestedKeys)"

definition realtime_acceptTrade :: "('t, 'q) Realtime \<Rightarrow> string \<Rightarrow> string \<Rightarrow> string \<Rightarrow> ('t, 'q) served" where
  "realtime_acceptTrade rt gid user tradeId = humanCommand rt gid user (\<lambda>pid. command_acceptTrade gid pid tradeId)"

definition realtime_rejectTrade :: "('t, 'q) Realtime \<Rightarrow> string \<Rightarrow> string \<Rightarrow> string \<Rightarrow> ('t, 'q) served" where
  "realtime_rejectTrade rt gid user tradeId = humanCommand rt gid user (\<lambda>pid. command_rejectTrade gid pid tradeId)"

definition realtime_cancelTrade :: "('t, 'q) Realtime \<Rightarrow> string \<Rightarrow> string \<Rightarrow> string \<Rightarrow> ('t, 'q) served" where
  "realtime_cancelTrade rt gid user tradeId = humanCommand rt gid user (\<lambda>pid. command_cancelTrade gid pid tradeId)"

definition realtime_joinGame ::
  "('t, 'q) Realtime \<Rightarrow> string \<Rightarrow> string \<Rightarrow> ('t, 'q) JobWorld \<Rightarrow>
   ('t, 'q) JobWorld \<times> (ServiceError + (GameLiveAccess \<times> GameEngineState))" where
  "realtime_joinGame rt gid user w =
     (case requireLiveGameAccess (rt_accounts rt) gid user (tables (job_services w)) of
        Inl e \<Rightarrow> (w, Inl e)
      | Inr access \<Rightarrow>
          thenS (onServices (recovered (rt_codec rt) gid) w) (\<lambda>s w1.
          (repairLiveGameScheduling (rt_queue rt) (rt_conditions rt) gid s w1, Inr (access, s))))"

definition realtime_recoverEvents ::
  "('t, 'q) Realtime \<Rightarrow> CursorCodec \<Rightarrow> string \<Rightarrow> string \<Rightarrow> string option \<Rightarrow> ('t, 'q) JobWorld \<Rightarrow>
   ServiceError + GameEventRecoveryResponse" where
  "realtime_recoverEvents rt K gid user cursor w =
     andThen (requireLiveGameAccess (rt_accounts rt) gid user (tables (job_services w))) (\<lambda>_.
     listEvents K gid cursor (eventLog (job_services w)))"

section \<open>The socket\<close>

record GameSocket =
  socket_id :: string
  socket_user :: "AuthUser option"
  socket_gameId :: "string option"

text \<open>\<open>Ws_error\<close> carries the code and message of an error of the services.\<close>

datatype WsException = Ws_message string | Ws_rate_limited | Ws_error ServiceError

record GameCommandRejectedEvent =
  rejected_gameId :: string
  rejected_command :: string
  rejected_error :: ServiceError

definition wsAuthenticationRequired :: WsException where
  "wsAuthenticationRequired = Ws_message ''Authentication required''"

definition assertAuthenticated :: "GameSocket \<Rightarrow> WsException + AuthUser" where
  "assertAuthenticated sock = ofOption wsAuthenticationRequired (socket_user sock)"

definition assertGameId :: "string \<Rightarrow> WsException + unit" where
  "assertGameId gid = raiseIf (gid = []) (Ws_message ''Invalid game id'')"

text \<open>\<open>payload\<close> is what the library read from the token of the handshake, if there was one and its signature was good.\<close>

definition gateway_authenticate :: "int \<Rightarrow> AccessToken option \<Rightarrow> AuthState \<Rightarrow> AuthState \<times> (WsException + AuthUser)" where
  "gateway_authenticate now payload st =
     (case payload of
        None \<Rightarrow> (st, Inl wsAuthenticationRequired)
      | Some t \<Rightarrow>
          let cached = getTokenVersion now (token_sub t) (cache st) in
          if (case cached of None \<Rightarrow> False | Some v \<Rightarrow> v \<noteq> token_tv t) then (st, Inl wsAuthenticationRequired)
          else
            let remember = (\<lambda>u. st\<lparr>cache := setTokenVersion now (user_id u) (tokenVersion u) (cache st)\<rparr>) in
            case findUserByIdForAuthToken (token_sub t) (db st) of
              None \<Rightarrow> (st, Inl wsAuthenticationRequired)
            | Some u \<Rightarrow>
                if \<not> emailVerified u \<or> user_status u \<noteq> User_active \<or> deletedAt u \<noteq> None \<or> tokenVersion u \<noteq> token_tv t
                then (if tokenVersion u \<noteq> token_tv t then remember u else st, Inl wsAuthenticationRequired)
                else (if cached = None \<or> cached \<noteq> Some (tokenVersion u) then remember u else st,
                  Inr \<lparr>auth_id = user_id u, auth_email = user_email u, auth_username = user_username u,
                    auth_role = user_role u, auth_status = user_status u, auth_sessionId = token_sid t,
                    auth_tokenVersion = tokenVersion u\<rparr>))"

text \<open>The socket that stays open, or none when the server disconnects it.\<close>

definition handleConnection ::
  "bool \<Rightarrow> int \<Rightarrow> AccessToken option \<Rightarrow> string \<Rightarrow> AuthState \<Rightarrow> AuthState \<times> GameSocket option" where
  "handleConnection allowed now payload sid st =
     (if \<not> allowed then (st, None)
      else case gateway_authenticate now payload st of
        (st', Inl _) \<Rightarrow> (st', None)
      | (st', Inr u) \<Rightarrow> (st', Some \<lparr>socket_id = sid, socket_user = Some u, socket_gameId = None\<rparr>))"

section \<open>The message handlers\<close>

type_synonym ('t, 'q) handled =
  "('t, 'q) JobWorld \<Rightarrow> ('t, 'q) JobWorld \<times> GameCommandRejectedEvent list \<times>
     (WsException + (GameEngineState \<times> GameEngineEvent list))"

text \<open>The common shape of the command handlers.\<close>

definition handleCommand :: "GameSocket \<Rightarrow> string \<Rightarrow> string \<Rightarrow> (string \<Rightarrow> ('t, 'q) served) \<Rightarrow> ('t, 'q) handled" where
  "handleCommand sock gid event serve w =
     (case andThen (assertAuthenticated sock) (\<lambda>u. andThen (assertGameId gid) (\<lambda>_. Inr u)) of
        Inl e \<Rightarrow> (w, [], Inl e)
      | Inr u \<Rightarrow>
          (case serve (auth_id u) w of
             (w', Inr r) \<Rightarrow> (w', [], Inr (result_state r, result_events r))
           | (w', Inl e) \<Rightarrow>
               (w', [\<lparr>rejected_gameId = gid, rejected_command = event, rejected_error = e\<rparr>], Inl (Ws_error e))))"

definition gateway_rollAndMove ::
  "('t, 'q) Realtime \<Rightarrow> GameSocket \<Rightarrow> string \<Rightarrow> int list option \<Rightarrow> ('t, 'q) handled" where
  "gateway_rollAndMove rt sock gid dice =
     handleCommand sock gid ''game:roll-and-move'' (\<lambda>user. realtime_rollAndMove rt gid user dice)"

definition gateway_endTurn ::
  "('t, 'q) Realtime \<Rightarrow> GameSocket \<Rightarrow> string \<Rightarrow> ('t, 'q) handled" where
  "gateway_endTurn rt sock gid =
     handleCommand sock gid ''game:end-turn'' (\<lambda>user. realtime_endTurn rt gid user)"

definition gateway_buyProperty ::
  "('t, 'q) Realtime \<Rightarrow> GameSocket \<Rightarrow> string \<Rightarrow> ('t, 'q) handled" where
  "gateway_buyProperty rt sock gid =
     handleCommand sock gid ''game:buy-property'' (\<lambda>user. realtime_buyProperty rt gid user)"

definition gateway_declinePropertyPurchase ::
  "('t, 'q) Realtime \<Rightarrow> GameSocket \<Rightarrow> string \<Rightarrow> ('t, 'q) handled" where
  "gateway_declinePropertyPurchase rt sock gid =
     handleCommand sock gid ''game:decline-property-purchase'' (\<lambda>user. realtime_declinePropertyPurchase rt gid user)"

definition gateway_placeAuctionBid ::
  "('t, 'q) Realtime \<Rightarrow> GameSocket \<Rightarrow> string \<Rightarrow> int \<Rightarrow> ('t, 'q) handled" where
  "gateway_placeAuctionBid rt sock gid amount =
     handleCommand sock gid ''game:place-auction-bid'' (\<lambda>user. realtime_placeAuctionBid rt gid user amount)"

definition gateway_passAuctionBid ::
  "('t, 'q) Realtime \<Rightarrow> GameSocket \<Rightarrow> string \<Rightarrow> ('t, 'q) handled" where
  "gateway_passAuctionBid rt sock gid =
     handleCommand sock gid ''game:pass-auction-bid'' (\<lambda>user. realtime_passAuctionBid rt gid user)"

definition gateway_payDebt ::
  "('t, 'q) Realtime \<Rightarrow> GameSocket \<Rightarrow> string \<Rightarrow> ('t, 'q) handled" where
  "gateway_payDebt rt sock gid =
     handleCommand sock gid ''game:pay-debt'' (\<lambda>user. realtime_payDebt rt gid user)"

definition gateway_payJailFine ::
  "('t, 'q) Realtime \<Rightarrow> GameSocket \<Rightarrow> string \<Rightarrow> ('t, 'q) handled" where
  "gateway_payJailFine rt sock gid =
     handleCommand sock gid ''game:pay-jail-fine'' (\<lambda>user. realtime_payJailFine rt gid user)"

definition gateway_useGetOutOfJailCard ::
  "('t, 'q) Realtime \<Rightarrow> GameSocket \<Rightarrow> string \<Rightarrow> ('t, 'q) handled" where
  "gateway_useGetOutOfJailCard rt sock gid =
     handleCommand sock gid ''game:use-get-out-of-jail-card'' (\<lambda>user. realtime_useGetOutOfJailCard rt gid user)"

definition gateway_declareBankruptcy ::
  "('t, 'q) Realtime \<Rightarrow> GameSocket \<Rightarrow> string \<Rightarrow> ('t, 'q) handled" where
  "gateway_declareBankruptcy rt sock gid =
     handleCommand sock gid ''game:declare-bankruptcy'' (\<lambda>user. realtime_declareBankruptcy rt gid user)"

definition gateway_buildProperty ::
  "('t, 'q) Realtime \<Rightarrow> GameSocket \<Rightarrow> string \<Rightarrow> string \<Rightarrow> ('t, 'q) handled" where
  "gateway_buildProperty rt sock gid key =
     handleCommand sock gid ''game:build-property'' (\<lambda>user. realtime_buildProperty rt gid user key)"

definition gateway_sellBuilding ::
  "('t, 'q) Realtime \<Rightarrow> GameSocket \<Rightarrow> string \<Rightarrow> string \<Rightarrow> ('t, 'q) handled" where
  "gateway_sellBuilding rt sock gid key =
     handleCommand sock gid ''game:sell-building'' (\<lambda>user. realtime_sellBuilding rt gid user key)"

definition gateway_mortgageProperty ::
  "('t, 'q) Realtime \<Rightarrow> GameSocket \<Rightarrow> string \<Rightarrow> string \<Rightarrow> ('t, 'q) handled" where
  "gateway_mortgageProperty rt sock gid key =
     handleCommand sock gid ''game:mortgage-property'' (\<lambda>user. realtime_mortgageProperty rt gid user key)"

definition gateway_unmortgageProperty ::
  "('t, 'q) Realtime \<Rightarrow> GameSocket \<Rightarrow> string \<Rightarrow> string \<Rightarrow> ('t, 'q) handled" where
  "gateway_unmortgageProperty rt sock gid key =
     handleCommand sock gid ''game:unmortgage-property'' (\<lambda>user. realtime_unmortgageProperty rt gid user key)"

definition gateway_proposeTrade ::
  "('t, 'q) Realtime \<Rightarrow> GameSocket \<Rightarrow> string \<Rightarrow> string \<Rightarrow> int \<Rightarrow> int \<Rightarrow> string list \<Rightarrow> string list \<Rightarrow> ('t, 'q) handled" where
  "gateway_proposeTrade rt sock gid toId offered requested offeredKeys requestedKeys =
     handleCommand sock gid ''game:propose-trade'' (\<lambda>user. realtime_proposeTrade rt gid user toId offered requested offeredKeys requestedKeys)"

definition gateway_acceptTrade ::
  "('t, 'q) Realtime \<Rightarrow> GameSocket \<Rightarrow> string \<Rightarrow> string \<Rightarrow> ('t, 'q) handled" where
  "gateway_acceptTrade rt sock gid tradeId =
     handleCommand sock gid ''game:accept-trade'' (\<lambda>user. realtime_acceptTrade rt gid user tradeId)"

definition gateway_rejectTrade ::
  "('t, 'q) Realtime \<Rightarrow> GameSocket \<Rightarrow> string \<Rightarrow> string \<Rightarrow> ('t, 'q) handled" where
  "gateway_rejectTrade rt sock gid tradeId =
     handleCommand sock gid ''game:reject-trade'' (\<lambda>user. realtime_rejectTrade rt gid user tradeId)"

definition gateway_cancelTrade ::
  "('t, 'q) Realtime \<Rightarrow> GameSocket \<Rightarrow> string \<Rightarrow> string \<Rightarrow> ('t, 'q) handled" where
  "gateway_cancelTrade rt sock gid tradeId =
     handleCommand sock gid ''game:cancel-trade'' (\<lambda>user. realtime_cancelTrade rt gid user tradeId)"

text \<open>The messages a client may send to act, by the event that carries them.\<close>

datatype GameMessage =
  Msg_roll_and_move "int list option"
| Msg_end_turn
| Msg_buy_property
| Msg_decline_property_purchase
| Msg_place_auction_bid int
| Msg_pass_auction_bid
| Msg_pay_debt
| Msg_pay_jail_fine
| Msg_use_get_out_of_jail_card
| Msg_declare_bankruptcy
| Msg_build_property string
| Msg_sell_building string
| Msg_mortgage_property string
| Msg_unmortgage_property string
| Msg_propose_trade string int int "string list" "string list"
| Msg_accept_trade string
| Msg_reject_trade string
| Msg_cancel_trade string

fun gateway_message :: "('t, 'q) Realtime \<Rightarrow> GameSocket \<Rightarrow> string \<Rightarrow> GameMessage \<Rightarrow> ('t, 'q) handled" where
  "gateway_message rt sock gid (Msg_roll_and_move dice) = gateway_rollAndMove rt sock gid dice"
| "gateway_message rt sock gid Msg_end_turn = gateway_endTurn rt sock gid"
| "gateway_message rt sock gid Msg_buy_property = gateway_buyProperty rt sock gid"
| "gateway_message rt sock gid Msg_decline_property_purchase = gateway_declinePropertyPurchase rt sock gid"
| "gateway_message rt sock gid (Msg_place_auction_bid amount) = gateway_placeAuctionBid rt sock gid amount"
| "gateway_message rt sock gid Msg_pass_auction_bid = gateway_passAuctionBid rt sock gid"
| "gateway_message rt sock gid Msg_pay_debt = gateway_payDebt rt sock gid"
| "gateway_message rt sock gid Msg_pay_jail_fine = gateway_payJailFine rt sock gid"
| "gateway_message rt sock gid Msg_use_get_out_of_jail_card = gateway_useGetOutOfJailCard rt sock gid"
| "gateway_message rt sock gid Msg_declare_bankruptcy = gateway_declareBankruptcy rt sock gid"
| "gateway_message rt sock gid (Msg_build_property key) = gateway_buildProperty rt sock gid key"
| "gateway_message rt sock gid (Msg_sell_building key) = gateway_sellBuilding rt sock gid key"
| "gateway_message rt sock gid (Msg_mortgage_property key) = gateway_mortgageProperty rt sock gid key"
| "gateway_message rt sock gid (Msg_unmortgage_property key) = gateway_unmortgageProperty rt sock gid key"
| "gateway_message rt sock gid (Msg_propose_trade toId offered requested offeredKeys requestedKeys) = gateway_proposeTrade rt sock gid toId offered requested offeredKeys requestedKeys"
| "gateway_message rt sock gid (Msg_accept_trade tradeId) = gateway_acceptTrade rt sock gid tradeId"
| "gateway_message rt sock gid (Msg_reject_trade tradeId) = gateway_rejectTrade rt sock gid tradeId"
| "gateway_message rt sock gid (Msg_cancel_trade tradeId) = gateway_cancelTrade rt sock gid tradeId"


section \<open>A message acts for the seat of its sender\<close>

lemma handshake_is_guard:
  "gateway_authenticate now payload st =
     (case canActivate now payload st of
        (st', Inl _) \<Rightarrow> (st', Inl wsAuthenticationRequired)
      | (st', Inr u) \<Rightarrow> (st', Inr u))"
  by (auto simp: gateway_authenticate_def canActivate_def Let_def split: option.splits)

text \<open>The intent a message stands for when it comes from seat \<open>pid\<close>; \<open>rolled\<close> are the dice of the server.\<close>

fun messageIntent :: "int list \<Rightarrow> string \<Rightarrow> GameMessage \<Rightarrow> GameEngineIntent" where
  "messageIntent rolled pid (Msg_roll_and_move dice) = Roll_and_move pid (case dice of Some d \<Rightarrow> d | None \<Rightarrow> rolled)"
| "messageIntent rolled pid Msg_end_turn = End_turn pid"
| "messageIntent rolled pid Msg_buy_property = Buy_property pid"
| "messageIntent rolled pid Msg_decline_property_purchase = Decline_property_purchase pid"
| "messageIntent rolled pid (Msg_place_auction_bid amount) = Place_auction_bid pid amount"
| "messageIntent rolled pid Msg_pass_auction_bid = Pass_auction_bid pid"
| "messageIntent rolled pid Msg_pay_debt = Pay_debt pid"
| "messageIntent rolled pid Msg_pay_jail_fine = Pay_jail_fine pid"
| "messageIntent rolled pid Msg_use_get_out_of_jail_card = Use_get_out_of_jail_card pid"
| "messageIntent rolled pid Msg_declare_bankruptcy = Declare_bankruptcy pid None"
| "messageIntent rolled pid (Msg_build_property key) = Build_property pid key"
| "messageIntent rolled pid (Msg_sell_building key) = Sell_building pid key"
| "messageIntent rolled pid (Msg_mortgage_property key) = Mortgage_property pid key"
| "messageIntent rolled pid (Msg_unmortgage_property key) = Unmortgage_property pid key"
| "messageIntent rolled pid (Msg_propose_trade toId offered requested offeredKeys requestedKeys) =
    command_intent (command_proposeTrade [] pid toId offered requested offeredKeys requestedKeys)"
| "messageIntent rolled pid (Msg_accept_trade tradeId) = Accept_trade pid tradeId"
| "messageIntent rolled pid (Msg_reject_trade tradeId) = Reject_trade pid tradeId"
| "messageIntent rolled pid (Msg_cancel_trade tradeId) = Cancel_trade pid tradeId"

definition rolledDice :: "('t, 'q) Realtime \<Rightarrow> int list" where
  "rolledDice rt = [fst (job_dice (rt_conditions rt)), snd (job_dice (rt_conditions rt))]"

text \<open>The command of the player in seat \<open>pid\<close>, for himself, that a message stands for.\<close>

definition messageCommand :: "('t, 'q) Realtime \<Rightarrow> string \<Rightarrow> string \<Rightarrow> GameMessage \<Rightarrow> ExecuteGameIntentCommand" where
  "messageCommand rt gid pid msg = playerCommand gid pid (messageIntent (rolledDice rt) pid msg)"

lemma messageCommand_own:
  "command_gameId (messageCommand rt gid pid msg) = gid" "command_roomPlayerId (messageCommand rt gid pid msg) = Some pid"
  "command_source (messageCommand rt gid pid msg) = Some Source_player"
  "getIntentActorRoomPlayerId (command_intent (messageCommand rt gid pid msg)) = Some pid"
  by (simp_all add: messageCommand_def playerCommand_def)
    (cases msg; simp add: command_proposeTrade_def playerCommand_def)

lemmas gateway_handlers = gateway_rollAndMove_def gateway_endTurn_def gateway_buyProperty_def
  gateway_declinePropertyPurchase_def gateway_placeAuctionBid_def gateway_passAuctionBid_def gateway_payDebt_def
  gateway_payJailFine_def gateway_useGetOutOfJailCard_def gateway_declareBankruptcy_def gateway_buildProperty_def
  gateway_sellBuilding_def gateway_mortgageProperty_def gateway_unmortgageProperty_def gateway_proposeTrade_def
  gateway_acceptTrade_def gateway_rejectTrade_def gateway_cancelTrade_def

lemmas realtime_methods = realtime_rollAndMove_def realtime_endTurn_def realtime_buyProperty_def
  realtime_declinePropertyPurchase_def realtime_placeAuctionBid_def realtime_passAuctionBid_def realtime_payDebt_def
  realtime_payJailFine_def realtime_useGetOutOfJailCard_def realtime_declareBankruptcy_def realtime_buildProperty_def
  realtime_sellBuilding_def realtime_mortgageProperty_def realtime_unmortgageProperty_def realtime_proposeTrade_def
  realtime_acceptTrade_def realtime_rejectTrade_def realtime_cancelTrade_def

lemmas player_commands = command_rollAndMove_def command_endTurn_def command_buyProperty_def
  command_declinePropertyPurchase_def command_placeAuctionBid_def command_passAuctionBid_def command_payDebt_def
  command_payJailFine_def command_useGetOutOfJailCard_def command_declareBankruptcy_def command_buildProperty_def
  command_sellBuilding_def command_mortgageProperty_def command_unmortgageProperty_def command_proposeTrade_def
  command_acceptTrade_def command_rejectTrade_def command_cancelTrade_def playerCommand_def

lemma message_command:
  "\<exists>event. gateway_message rt sock gid msg = handleCommand sock gid event (\<lambda>user. humanCommand rt gid user
     (\<lambda>pid. messageCommand rt gid pid msg))"
  by (cases msg; (simp only: gateway_message.simps gateway_handlers realtime_methods messageCommand_def rolledDice_def
        messageIntent.simps player_commands [abs_def] ExecuteGameIntentCommand.select_convs; (intro exI, rule refl)?))

lemma queue_only [simp]:
  "job_services (afterHumanCommandSucceeded Q jc gid r w) = job_services w"
  by (simp add: afterHumanCommandSucceeded_def scheduleTurnTimer_def scheduleBotTurn_def realtime_publishCommandResult_def
      publishCommandResult_def)

lemma humanCommand_Inr:
  assumes "humanCommand rt gid user mk w = (w', Inr r)"
  obtains p where "requireActivePlayer (rt_accounts rt) gid user (tables (job_services w)) = Inr p"
    "executeIntent (rt_codec rt) (job_command (rt_conditions rt)) (mk (rp_id p)) (job_services w) = (job_services w', Inr r)"
proof -
  obtain p where p: "requireActivePlayer (rt_accounts rt) gid user (tables (job_services w)) = Inr p"
    using assms by (auto simp: humanCommand_def split: sum.splits)
  obtain sv x where x: "executeIntent (rt_codec rt) (job_command (rt_conditions rt)) (mk (rp_id p)) (job_services w) = (sv, x)"
    by (cases "executeIntent (rt_codec rt) (job_command (rt_conditions rt)) (mk (rp_id p)) (job_services w)")
  show ?thesis using p that [OF p] assms x by (cases x) (auto simp: humanCommand_def)
qed

lemma requireActivePlayer_Inr:
  assumes "requireActivePlayer d gid user t = Inr p"
  obtains a g where "findUserByIdForAuthToken user d = Some a" "emailVerified a" "user_status a = User_active" "deletedAt a = None"
    "gameInPlay gid t = Some g" "p \<in> set (roomPlayers t)" "rp_roomId p = game_roomId g" "rp_userId p = Some user"
    "rp_playerType p = Human" "rp_status p = Joined"
  using assms that
  by (auto simp: requireActivePlayer_def requireActiveAccount_def findActivePlayerForGame_def find_Some_iff
      split: option.splits)

text \<open>
  C27. A message over the socket acts for the seat of its sender and for no other. If it is answered with a state, the
  socket belongs to a signed-in user whose account is verified, active and not deleted, who sits in the room of this
  game, game and room being in play, and what was executed is exactly the command the message stands for, sent and acted
  by that seat. A message of anybody else is refused and changes nothing at all; an error of the services reaches the
  sender once as a rejected command and once as the answer.
\<close>

theorem messages_act_for_their_sender:
  assumes "gateway_message rt sock gid msg w = (w', rejections, answer)"
  shows "case answer of
      Inr (s, events) \<Rightarrow> \<exists>u a g p r. socket_user sock = Some u \<and>
        findUserByIdForAuthToken (auth_id u) (rt_accounts rt) = Some a \<and> emailVerified a \<and> user_status a = User_active \<and>
        deletedAt a = None \<and> gameInPlay gid (tables (job_services w)) = Some g \<and> p \<in> set (roomPlayers (tables (job_services w))) \<and>
        rp_roomId p = game_roomId g \<and> rp_userId p = Some (auth_id u) \<and> rp_playerType p = Human \<and> rp_status p = Joined \<and>
        getIntentActorRoomPlayerId (command_intent (messageCommand rt gid (rp_id p) msg)) = Some (rp_id p) \<and>
        executeIntent (rt_codec rt) (job_command (rt_conditions rt)) (messageCommand rt gid (rp_id p) msg) (job_services w) =
          (job_services w', Inr r) \<and>
        s = result_state r \<and> events = result_events r \<and> rejections = []
    | Inl e \<Rightarrow>
        (case socket_user sock of None \<Rightarrow> w' = w | Some u \<Rightarrow>
          isl (requireActivePlayer (rt_accounts rt) gid (auth_id u) (tables (job_services w))) \<longrightarrow> w' = w) \<and>
        (case e of Ws_error x \<Rightarrow> map rejected_gameId rejections = [gid] \<and> map rejected_error rejections = [x]
         | _ \<Rightarrow> rejections = [] \<and> w' = w)"
proof -
  let ?mk = "\<lambda>pid. messageCommand rt gid pid msg"
  obtain event where handled: "handleCommand sock gid event (\<lambda>user. humanCommand rt gid user ?mk) w = (w', rejections, answer)"
    using assms message_command [of rt sock gid msg] by metis
  show ?thesis
  proof (cases answer)
    case (Inl e)
    then show ?thesis
      using handled by (auto simp: handleCommand_def assertAuthenticated_def assertGameId_def wsAuthenticationRequired_def
          raiseIf_def ofOption_def humanCommand_def isl_def split: option.splits sum.splits prod.splits if_splits)
  next
    case (Inr x)
    then obtain u r where u: "socket_user sock = Some u" "humanCommand rt gid (auth_id u) ?mk w = (w', Inr r)"
      "x = (result_state r, result_events r)" "rejections = []"
      using handled by (auto simp: handleCommand_def assertAuthenticated_def assertGameId_def
          split: option.splits sum.splits prod.splits if_splits)
    obtain p where p: "requireActivePlayer (rt_accounts rt) gid (auth_id u) (tables (job_services w)) = Inr p"
      "executeIntent (rt_codec rt) (job_command (rt_conditions rt)) (?mk (rp_id p)) (job_services w) = (job_services w', Inr r)"
      using u(2) by (rule humanCommand_Inr)
    from p(1) show ?thesis
      by (rule requireActivePlayer_Inr) (use u Inr p(2) messageCommand_own(4) [of rt gid "rp_id p" msg] in \<open>auto intro!: exI\<close>)
  qed
qed

text \<open>User u in seat a of a game that has just started.\<close>

definition sampleAccount :: UserRow where
  "sampleAccount = \<lparr>user_id = ''u'', user_email = ''u@x'', user_username = ''u'', passwordHash = None, emailVerified = True,
     tokenVersion = 1, avatarObjectKey = None, user_bio = None, user_role = Player_role, user_status = User_active,
     user_createdAt = 1, user_updatedAt = 1, deletedAt = None\<rparr>"

definition sampleSeat :: RoomPlayerRow where
  "sampleSeat = \<lparr>rp_id = ''a'', rp_roomId = ''r'', rp_userId = Some ''u'', rp_playerType = Human, rp_botDifficulty = None,
     rp_botName = None, rp_seatNumber = 1, rp_status = Joined, rp_joinedAt = 1, rp_leftAt = None\<rparr>"

definition sampleRoom :: RoomRow where
  "sampleRoom = \<lparr>room_id = ''r'', room_code = ''ABC234'', room_hostUserId = ''u'', room_status = ''active'', room_maxPlayers = 4,
     room_durationMinutes = 60, room_boardKey = Classic, room_createdAt = 1, room_startedAt = Some 1, room_endedAt = None\<rparr>"

definition sampleTable :: "(GameEngineState option, string \<rightharpoonup> JobState \<times> GameJob \<times> int) JobWorld" where
  "sampleTable = sampleWorld\<lparr>job_services := (job_services sampleWorld)\<lparr>tables :=
     (tables expiredServices)\<lparr>rooms := [sampleRoom], roomPlayers := [sampleSeat]\<rparr>\<rparr>\<rparr>"

definition sampleRealtime :: "(GameEngineState option, string \<rightharpoonup> JobState \<times> GameJob \<times> int) Realtime" where
  "sampleRealtime = \<lparr>rt_codec = plainCodec, rt_queue = mapQueue, rt_conditions = jobsAt 5,
     rt_accounts = \<lparr>users = [sampleAccount], sessions = [], oauthAccounts = []\<rparr>\<rparr>"

definition sampleSocket :: GameSocket where
  "sampleSocket = \<lparr>socket_id = ''s'', socket_user = Some \<lparr>auth_id = ''u'', auth_email = ''u@x'', auth_username = ''u'',
     auth_role = Player_role, auth_status = User_active, auth_sessionId = ''i'', auth_tokenVersion = 1\<rparr>, socket_gameId = None\<rparr>"

lemma sample_seat:
  "requireActivePlayer (rt_accounts sampleRealtime) ''g'' ''u'' (tables (job_services sampleTable)) = Inr sampleSeat"
  by (simp add: requireActivePlayer_def requireActiveAccount_def findUserByIdForAuthToken_def findActivePlayerForGame_def
      gameInPlay_def sampleRealtime_def sampleAccount_def sampleTable_def expiredServices_def sampleRoom_def sampleSeat_def
      raiseIf_def findBy_def firstRow_def)

theorem messages_act_for_their_sender_witness:
  "\<exists>w' r. gateway_message sampleRealtime sampleSocket ''g'' (Msg_roll_and_move (Some [1, 2])) sampleTable =
      (w', [], Inr (result_state r, result_events r)) \<and>
    executeIntent plainCodec (\<lambda>_. calmConditions 5) (playerCommand ''g'' ''a'' (Roll_and_move ''a'' [1, 2]))
      (job_services sampleTable) = (job_services w', Inr r)"
proof -
  obtain r where r: "commandUpdate (tick 5) rollInTurn freshGame = Inr r" "phase (result_state r) \<noteq> Finished"
    by (rule rollInTurn_accepted)
  have "live plainCodec ''g'' freshGame (job_services sampleTable)"
    using sample_world(1) by (simp add: sampleTable_def live_def)
  then obtain sv where sv: "executeIntent plainCodec (\<lambda>_. calmConditions 5) rollInTurn (job_services sampleTable) = (sv, Inr r)"
    using executeIntent_unfinished [OF plainCodec_ok, of rollInTurn freshGame "job_services sampleTable" "\<lambda>_. calmConditions 5" r]
      r rollInTurn_facts(1,2) by (auto simp: calmConditions_def)
  have rt: "rt_codec sampleRealtime = plainCodec" "job_command (rt_conditions sampleRealtime) = (\<lambda>_. calmConditions 5)"
    "rp_id sampleSeat = ''a''" "socket_user sampleSocket \<noteq> None" "auth_id (the (socket_user sampleSocket)) = ''u''"
    by (simp_all add: sampleRealtime_def jobsAt_def sampleSeat_def sampleSocket_def)
  obtain w' where run: "gateway_message sampleRealtime sampleSocket ''g'' (Msg_roll_and_move (Some [1, 2])) sampleTable =
      (w', [], Inr (result_state r, result_events r))"
    using sv rt sample_seat
    by (auto simp: gateway_rollAndMove_def realtime_rollAndMove_def handleCommand_def assertAuthenticated_def assertGameId_def
        humanCommand_def raiseIf_def ofOption_def rollInTurn_def [symmetric])
  show ?thesis
    using messages_act_for_their_sender [OF run] run rt
    by (auto simp: messageCommand_def sampleTable_def sampleSeat_def)
qed

section \<open>What a client gets away with\<close>

text \<open>The dice of a roll are those of the message, if it names any, whatever the server would have rolled.\<close>

lemma clients_choose_their_dice:
  "gateway_message rt sock gid (Msg_roll_and_move (Some dice)) =
   handleCommand sock gid ''game:roll-and-move'' (\<lambda>user. humanCommand rt gid user (\<lambda>pid. command_rollAndMove gid pid dice))"
  by (simp add: gateway_rollAndMove_def realtime_rollAndMove_def)

text \<open>A socket that is open keeps acting after a password reset or a sign-out: only the account is looked at again.\<close>

lemma sockets_outlive_tokens:
  assumes "findUserByIdForAuthToken user d = Some a" "findUserByIdForAuthToken user d' = Some (a\<lparr>tokenVersion := v, passwordHash := h\<rparr>)"
  shows "humanCommand (rt\<lparr>rt_accounts := d\<rparr>) gid user mk = humanCommand (rt\<lparr>rt_accounts := d'\<rparr>) gid user mk"
  using assms by (simp add: fun_eq_iff humanCommand_def requireActivePlayer_def requireActiveAccount_def split: sum.split)

end
