(* ===== verification/Rooms_Start.thy ===== *)
theory Rooms_Start
  imports Rooms_Lobby
begin

text \<open>
  From a room to a game: \<^verbatim>\<open>src/src/rooms/services/rooms-game.service.ts\<close>. The host starts the room; in a casual game
  bots take the empty seats. One transaction writes bots, room, game and the first snapshot; afterwards the state
  goes to Redis and the timers to their queue, and when that fails the game is cancelled. The initial state itself
  is \<open>createInitialGameState\<close> of \<open>Game_Engine\<close>. Usernames come from the table of users, an argument.
\<close>

section \<open>Bots for the empty seats\<close>

record BotPlayerInput =
  bot_seatNumber :: int
  bot_botName :: "string option"

definition botNameHash :: "string \<Rightarrow> 32 word" where
  "botNameHash rid = foldl (\<lambda>value c. value * 31 + of_char c) 0 rid"

definition getBotNameOffset :: "string \<Rightarrow> int \<Rightarrow> int" where
  "getBotNameOffset rid nameCount = jsRem (uint (botNameHash rid)) nameCount"

definition buildBotPlayers :: "string \<Rightarrow> RoomPlayerRow list \<Rightarrow> BotPlayerInput list" where
  "buildBotPlayers rid joined =
     (let occupied = map rp_seatNumber joined;
          assigned = List.map_filter rp_botName joined;
          available = filter (\<lambda>n. n \<notin> set assigned) BOT_NAMES;
          nameCount = int (length available);
          offset = getBotNameOffset rid nameCount;
          free = filter (\<lambda>seat. seat \<notin> set occupied) [1..ROOM_MAX_PLAYERS] in
      map (\<lambda>(i, seat). \<lparr>bot_seatNumber = seat, bot_botName = jsNth available (jsRem (offset + int i) nameCount)\<rparr>)
        (enumerate 0 free))"

section \<open>The transaction\<close>

record StartMoment =
  start_clock :: int
  start_roomNow :: int
  start_botIds :: "int \<Rightarrow> string"
  start_gameId :: string
  start_snapshotNow :: int

record StartResult =
  start_room :: RoomRow
  start_game :: GameRow
  start_mode :: GameMode
  start_humanPlayerCount :: nat
  start_players :: "RoomPlayerRow list"
  start_state :: GameEngineState

definition joinedRoomPlayer :: "(string \<rightharpoonup> string) \<Rightarrow> RoomPlayerRow \<Rightarrow> JoinedRoomPlayer" where
  "joinedRoomPlayer usernames p =
     \<lparr>joined_id = rp_id p, joined_userId = rp_userId p,
      joined_username = (case rp_userId p of None \<Rightarrow> None | Some u \<Rightarrow> usernames u),
      joined_playerType = rp_playerType p, joined_botDifficulty = rp_botDifficulty p,
      joined_botName = rp_botName p, joined_seatNumber = rp_seatNumber p\<rparr>"

definition roomGameMode :: "RoomPlayerRow list \<Rightarrow> GameMode" where
  "roomGameMode joined =
     (if list_all (\<lambda>p. rp_playerType p = Human) joined \<and>
         length (filter (\<lambda>p. rp_playerType p = Human) joined) \<ge> ROOM_MIN_RANKED_HUMANS
      then Ranked else Casual)"

definition gameDurationMinutes :: "GameMode \<Rightarrow> RoomRow \<Rightarrow> int" where
  "gameDurationMinutes m room = (if m = Ranked then RANKED_ROOM_DURATION_MINUTES else room_durationMinutes room)"

fun addBots ::
  "StartMoment \<Rightarrow> string \<Rightarrow> BotDifficulty \<Rightarrow> BotPlayerInput list \<Rightarrow> Tables \<Rightarrow> ServiceError + (Tables \<times> RoomPlayerRow list)" where
  "addBots mom rid difficulty [] t = Inr (t, [])"
| "addBots mom rid difficulty (b # bs) t =
     andThen (addBotPlayer (start_botIds mom (bot_seatNumber b)) (start_roomNow mom) rid (bot_seatNumber b)
                (bot_botName b) difficulty t) (\<lambda>(t1, p).
     andThen (addBots mom rid difficulty bs t1) (\<lambda>(t2, ps). Inr (t2, p # ps)))"

definition startChecks :: "string \<Rightarrow> string \<Rightarrow> Tables \<Rightarrow> ServiceError + RoomRow" where
  "startChecks user code t =
     andThen (ofOption (NotFoundException ''Room not found'') (lockRoomByCode code t)) (\<lambda>room.
     andThen (raiseIf (room_status room \<noteq> ''waiting'') (ConflictException ''Room is not open'')) (\<lambda>_.
     andThen (raiseIf (room_hostUserId room \<noteq> user) (ForbiddenException ''Only the host can start the room'')) (\<lambda>_.
     andThen (ofOption (NotFoundException ''Room player not found'') (findJoinedPlayer (room_id room) user t)) (\<lambda>_.
     andThen (raiseIf (listJoinedPlayers (room_id room) t = []) (ConflictException ''Room has no joined players'')) (\<lambda>_.
     Inr room)))))"

definition startRoomTx ::
  "(string \<rightharpoonup> string) \<Rightarrow> StartMoment \<Rightarrow> string \<Rightarrow> string \<Rightarrow> BotDifficulty option \<Rightarrow> Tables \<Rightarrow>
   ServiceError + (Tables \<times> StartResult)" where
  "startRoomTx usernames mom user code difficulty t =
     andThen (startChecks user code t) (\<lambda>room.
     let joined = listJoinedPlayers (room_id room) t;
         m = roomGameMode joined;
         bots = (if m = Casual then buildBotPlayers (room_id room) joined else []) in
     andThen (addBots mom (room_id room) (case difficulty of None \<Rightarrow> DEFAULT_BOT_DIFFICULTY | Some d \<Rightarrow> d) bots t) (\<lambda>(t1, created).
     let allPlayers = sort_key rp_seatNumber (joined @ created) in
     case repo_startRoom (start_roomNow mom) (room_id room) t1 of
       (t2, None) \<Rightarrow> Inl (ConflictException ''Room is not open'')
     | (t2, Some activeRoom) \<Rightarrow>
         andThen (case createInitialGameState (start_clock mom) (room_id room) (room_code room) (room_startedAt activeRoom)
                         (gameDurationMinutes m room) m (map (joinedRoomPlayer usernames) allPlayers) of
                    Inl e \<Rightarrow> Inl (Engine e) | Inr s \<Rightarrow> Inr s) (\<lambda>initialState.
         andThen (repo_createGame (start_gameId mom) (room_id room) m (rp_id (hd allPlayers)) initialState
                    (case expiresAt initialState of None \<Rightarrow> start_clock mom | Some x \<Rightarrow> x) t2) (\<lambda>(t3, game).
         Inr (t3, \<lparr>start_room = activeRoom, start_game = game, start_mode = m,
                   start_humanPlayerCount = length (filter (\<lambda>p. rp_playerType p = Human) joined),
                   start_players = allPlayers, start_state = initialState\<rparr>)))))"

section \<open>Redis and the timers\<close>

record SetupConditions =
  redisAvailable :: bool
  queueAvailable :: bool
  deleteWorks :: bool
  setup_finishedAt :: int

definition cancelStartedGameAfterSetupFailure ::
  "SetupConditions \<Rightarrow> StartResult \<Rightarrow> 't Services \<Rightarrow> 't Services" where
  "cancelStartedGameAfterSetupFailure setup r sv =
     sv\<lparr>redis := (if deleteWorks setup then state_delete (game_id (start_game r)) (redis sv) else redis sv),
        tables := cancelStartedGame (setup_finishedAt setup) (room_id (start_room r)) (game_id (start_game r)) (tables sv)\<rparr>"

definition startRoom ::
  "'t Codec \<Rightarrow> (string \<rightharpoonup> string) \<Rightarrow> StartMoment \<Rightarrow> SetupConditions \<Rightarrow> string \<Rightarrow> string \<Rightarrow> BotDifficulty option \<Rightarrow>
   't Services \<Rightarrow> 't Services \<times> (ServiceError + StartResult)" where
  "startRoom C usernames mom setup user code difficulty sv =
     (case startRoomTx usernames mom user code difficulty (tables sv) of
        Inl e \<Rightarrow> (sv, Inl e)
      | Inr (t, r) \<Rightarrow>
          let gid = game_id (start_game r);
              sv1 = sv\<lparr>tables := t,
                       snapshots := createStartSnapshot (start_snapshotNow mom) gid (start_state r) (snapshots sv)\<rparr>;
              sv2 = (if redisAvailable setup then sv1\<lparr>redis := state_set C gid (start_state r) (redis sv1)\<rparr> else sv1) in
          if redisAvailable setup \<and> queueAvailable setup then (sv2, Inr r)
          else (cancelStartedGameAfterSetupFailure setup r sv2,
                Inl (InternalServerErrorException ''Game could not be started'')))"

end
