(* ===== verification/Rooms_Invariant.thy ===== *)
theory Rooms_Invariant
  imports Rooms_Start
begin

text \<open>
  What the transactions of the lobby keep true, in whatever order users, timers and the ends of games run them:
  codes and seats are unique, nobody sits in two open rooms, rooms are never overfull, and a room is in play exactly
  while it has a game in play.
\<close>

section \<open>Consistent tables\<close>

definition statusOf :: "Tables \<Rightarrow> string \<Rightarrow> string option" where
  "statusOf t rid = map_option room_status (findBy room_id rid (rooms t))"

definition roomOpen :: "Tables \<Rightarrow> string \<Rightarrow> bool" where
  "roomOpen t rid \<longleftrightarrow> statusOf t rid = Some ''waiting'' \<or> statusOf t rid = Some ''active''"

definition roomRowsOk :: "RoomRow list \<Rightarrow> bool" where
  "roomRowsOk rs \<longleftrightarrow> distinct (map room_id rs) \<and> distinct (map room_code rs) \<and> list_all roomCheck rs"

definition seatRowsOk :: "RoomPlayerRow list \<Rightarrow> bool" where
  "seatRowsOk ps \<longleftrightarrow> list_all roomPlayerCheck ps \<and> sorted_wrt (\<lambda>p q. \<not> roomPlayersClash p q) ps"

text \<open>The user of both rows is in two open rooms, or twice in one.\<close>

definition sitsTwice :: "Tables \<Rightarrow> RoomPlayerRow \<Rightarrow> RoomPlayerRow \<Rightarrow> bool" where
  "sitsTwice t p q \<longleftrightarrow> rp_status p = Joined \<and> rp_status q = Joined \<and> rp_userId p \<noteq> None \<and> rp_userId p = rp_userId q \<and>
     roomOpen t (rp_roomId p) \<and> roomOpen t (rp_roomId q)"

definition placesOk :: "Tables \<Rightarrow> bool" where
  "placesOk t \<longleftrightarrow> list_all (\<lambda>p. statusOf t (rp_roomId p) \<noteq> None) (roomPlayers t) \<and>
     sorted_wrt (\<lambda>p q. \<not> sitsTwice t p q) (roomPlayers t) \<and>
     list_all (\<lambda>p. rp_status p = Joined \<and> statusOf t (rp_roomId p) = Some ''waiting'' \<longrightarrow> rp_playerType p = Human) (roomPlayers t)"

definition watchingTogether :: "RoomSpectatorRow \<Rightarrow> RoomSpectatorRow \<Rightarrow> bool" where
  "watchingTogether v w \<longleftrightarrow> rs_id v = rs_id w \<or>
     rs_leftAt v = None \<and> rs_leftAt w = None \<and> rs_roomId v = rs_roomId w \<and> rs_userId v = rs_userId w"

definition spectatorRowsOk :: "Tables \<Rightarrow> bool" where
  "spectatorRowsOk t \<longleftrightarrow> sorted_wrt (\<lambda>v w. \<not> watchingTogether v w) (roomSpectators t) \<and>
     list_all (\<lambda>v. countCurrentSpectators (rs_roomId v) t \<le> ROOM_MAX_SPECTATORS) (roomSpectators t)"

definition gameRowsOk :: "Tables \<Rightarrow> bool" where
  "gameRowsOk t \<longleftrightarrow> distinct (map game_id (games t)) \<and> distinct (map game_roomId (games t)) \<and>
     list_all (\<lambda>g. game_status g = ''active'' \<longleftrightarrow> statusOf t (game_roomId g) = Some ''active'') (games t) \<and>
     list_all (\<lambda>r. room_status r \<noteq> ''waiting'' \<and> room_status r \<noteq> ''cancelled'' \<longrightarrow> room_id r \<in> set (map game_roomId (games t))) (rooms t) \<and>
     list_all (\<lambda>g. statusOf t (game_roomId g) \<noteq> None \<and> statusOf t (game_roomId g) \<noteq> Some ''waiting'') (games t)"

definition lobbyOk :: "Tables \<Rightarrow> bool" where
  "lobbyOk t \<longleftrightarrow> roomRowsOk (rooms t) \<and> seatRowsOk (roomPlayers t) \<and> placesOk t \<and> spectatorRowsOk t \<and> gameRowsOk t"

section \<open>Elementary changes\<close>

lemma isActiveRoom_iff: "isActiveRoom r \<longleftrightarrow> room_status r = ''waiting'' \<or> room_status r = ''active''"
  by (auto simp: isActiveRoom_def ACTIVE_ROOM_STATUSES_def)

lemma roomOpen_find: "roomOpen t rid \<longleftrightarrow> (\<exists>r. findBy room_id rid (rooms t) = Some r \<and> isActiveRoom r)"
  by (auto simp: roomOpen_def statusOf_def isActiveRoom_iff)

lemma noActiveRoom:
  "findActiveRoomForUser user t = None \<longleftrightarrow>
     (\<forall>p\<in>set (roomPlayers t). rp_userId p = Some user \<and> rp_status p = Joined \<longrightarrow> \<not> roomOpen t (rp_roomId p))"
proof -
  let ?sits = "\<lambda>p. rp_userId p = Some user \<and> rp_status p = Joined \<and>
     (case findBy room_id (rp_roomId p) (rooms t) of None \<Rightarrow> False | Some r \<Rightarrow> isActiveRoom r)"
  have found: "List.map_filter (\<lambda>p. findBy room_id (rp_roomId p) (rooms t)) (filter ?sits ps) = [] \<longleftrightarrow> filter ?sits ps = []" for ps
    by (induction ps) (auto simp: List.map_filter_simps split: option.splits)
  have first: "(case xs of [] \<Rightarrow> None | r # _ \<Rightarrow> Some r) = None \<longleftrightarrow> xs = []" for xs :: "RoomRow list"
    by (cases xs) auto
  have "findActiveRoomForUser user t = None \<longleftrightarrow> filter ?sits (roomPlayers t) = []"
    by (simp only: findActiveRoomForUser_def first found)
  then show ?thesis by (auto simp: filter_empty_conv roomOpen_find split: option.splits)
qed

lemma clash_sym: "roomPlayersClash p q \<longleftrightarrow> roomPlayersClash q p"
  by (auto simp: roomPlayersClash_def dest: sym)

lemma insertRoomPlayer_Inr:
  "insertRoomPlayer p t = Inr t' \<longleftrightarrow>
     roomPlayerCheck p \<and> (\<forall>q\<in>set (roomPlayers t). \<not> roomPlayersClash p q) \<and> t' = t\<lparr>roomPlayers := roomPlayers t @ [p]\<rparr>"
  by (auto simp: insertRoomPlayer_def list_ex_iff)

lemma seatRows_insert:
  assumes "insertRoomPlayer p t = Inr t'" "seatRowsOk (roomPlayers t)"
  shows "seatRowsOk (roomPlayers t')"
  using assms by (auto simp: insertRoomPlayer_Inr seatRowsOk_def sorted_wrt_append clash_sym [of p])

lemma seatRows_map:
  assumes "seatRowsOk ps" "\<And>p. roomPlayerCheck p \<Longrightarrow> roomPlayerCheck (f p)"
    and "\<And>p q. roomPlayersClash (f p) (f q) \<Longrightarrow> roomPlayersClash p q"
  shows "seatRowsOk (map f ps)"
proof -
  have "sorted_wrt (\<lambda>p q. \<not> roomPlayersClash (f p) (f q)) ps"
    using assms(1,3) by (auto simp: seatRowsOk_def intro: sorted_wrt_mono_rel [rotated])
  then show ?thesis using assms(1,2) by (auto simp: seatRowsOk_def sorted_wrt_map list_all_iff)
qed

text \<open>Rooms only close, waiting rooms start, players only leave.\<close>

lemma placesOk_mono:
  assumes ok: "placesOk t" and ps: "roomPlayers t' = map f (roomPlayers t)"
    and f: "\<And>p. rp_roomId (f p) = rp_roomId p \<and> rp_userId (f p) = rp_userId p \<and> rp_playerType (f p) = rp_playerType p \<and>
      (rp_status (f p) = Joined \<longrightarrow> rp_status p = Joined)"
    and st: "\<And>rid. statusOf t' rid = None \<Longrightarrow> statusOf t rid = None" "\<And>rid. roomOpen t' rid \<Longrightarrow> roomOpen t rid"
      "\<And>rid. statusOf t' rid = Some ''waiting'' \<Longrightarrow> statusOf t rid = Some ''waiting''"
  shows "placesOk t'"
proof -
  have "sitsTwice t p q" if "sitsTwice t' (f p) (f q)" for p q
    using that f st(2) unfolding sitsTwice_def by metis
  then have "sorted_wrt (\<lambda>p q. \<not> sitsTwice t' (f p) (f q)) (roomPlayers t)"
    using ok by (auto simp: placesOk_def intro: sorted_wrt_mono_rel [rotated])
  moreover have "list_all (\<lambda>p. statusOf t' (rp_roomId p) \<noteq> None) (roomPlayers t')"
    using ok f st(1) by (auto simp: placesOk_def ps list_all_iff simp del: not_None_eq)
  moreover have "list_all (\<lambda>p. rp_status p = Joined \<and> statusOf t' (rp_roomId p) = Some ''waiting'' \<longrightarrow> rp_playerType p = Human)
      (roomPlayers t')"
    using ok f st(3) by (auto simp: placesOk_def ps list_all_iff)
  ultimately show ?thesis by (simp add: placesOk_def ps sorted_wrt_map)
qed

text \<open>A user without an open room takes a seat.\<close>

lemma placesOk_sit:
  assumes ok: "placesOk t" and free: "findActiveRoomForUser user t = None"
    and p: "rp_userId p = Some user" "rp_playerType p = Human" "statusOf t (rp_roomId p) \<noteq> None"
  shows "placesOk (t\<lparr>roomPlayers := roomPlayers t @ [p]\<rparr>)"
proof -
  have same: "statusOf (t\<lparr>roomPlayers := ps\<rparr>) = statusOf t" "roomOpen (t\<lparr>roomPlayers := ps\<rparr>) = roomOpen t"
    "sitsTwice (t\<lparr>roomPlayers := ps\<rparr>) = sitsTwice t" for ps
    by (simp_all add: fun_eq_iff statusOf_def roomOpen_def sitsTwice_def)
  have "\<not> sitsTwice t q p" if "q \<in> set (roomPlayers t)" for q
    using free that p(1) by (auto simp: noActiveRoom sitsTwice_def)
  then show ?thesis
    using ok p by (auto simp: placesOk_def same sorted_wrt_append)
qed

section \<open>Statuses\<close>

lemma findBy_append: "findBy key k (xs @ ys) = (case findBy key k xs of None \<Rightarrow> findBy key k ys | Some x \<Rightarrow> Some x)"
  by (induction xs) auto

lemma findBy_map:
  assumes "\<And>x. key (f x) = key x"
  shows "findBy key k (map f xs) = map_option f (findBy key k xs)"
  using assms by (induction xs) auto

lemma status_frame [simp]:
  "statusOf (t\<lparr>roomPlayers := ps\<rparr>) = statusOf t" "statusOf (t\<lparr>roomSpectators := vs\<rparr>) = statusOf t"
  "statusOf (t\<lparr>games := gs\<rparr>) = statusOf t"
  "roomOpen (t\<lparr>roomPlayers := ps\<rparr>) = roomOpen t" "roomOpen (t\<lparr>roomSpectators := vs\<rparr>) = roomOpen t"
  "roomOpen (t\<lparr>games := gs\<rparr>) = roomOpen t"
  by (simp_all add: fun_eq_iff statusOf_def roomOpen_def)

lemma spectatorRows_frame [simp]:
  "spectatorRowsOk (t\<lparr>roomPlayers := ps\<rparr>) = spectatorRowsOk t" "spectatorRowsOk (t\<lparr>rooms := rs\<rparr>) = spectatorRowsOk t"
  "spectatorRowsOk (t\<lparr>games := gs\<rparr>) = spectatorRowsOk t"
  by (simp_all add: spectatorRowsOk_def countCurrentSpectators_def)

lemma gameRows_frame [simp]:
  "gameRowsOk (t\<lparr>roomPlayers := ps\<rparr>) = gameRowsOk t" "gameRowsOk (t\<lparr>roomSpectators := vs\<rparr>) = gameRowsOk t"
  by (simp_all add: gameRowsOk_def)

lemma placesOk_frame [simp]:
  "placesOk (t\<lparr>roomSpectators := vs\<rparr>) = placesOk t" "placesOk (t\<lparr>games := gs\<rparr>) = placesOk t"
  by (simp_all add: placesOk_def sitsTwice_def)

lemma statusOf_None: "statusOf t rid = None \<longleftrightarrow> rid \<notin> room_id ` set (rooms t)"
  by (auto simp: statusOf_def findBy_None_iff)

lemma statusOf_new:
  assumes "room_id r \<notin> room_id ` set (rooms t)"
  shows "statusOf (t\<lparr>rooms := rooms t @ [r]\<rparr>) rid = (if rid = room_id r then Some (room_status r) else statusOf t rid)"
proof -
  have "findBy room_id (room_id r) (rooms t) = None" using assms by (simp add: findBy_None_iff)
  then show ?thesis by (auto simp: statusOf_def findBy_append split: option.split)
qed

lemma statusOf_map:
  assumes "\<And>r. room_id (f r) = room_id r"
  shows "statusOf (t\<lparr>rooms := map f (rooms t)\<rparr>) rid = map_option (\<lambda>r. room_status (f r)) (findBy room_id rid (rooms t))"
  using assms by (simp add: statusOf_def findBy_map option.map_comp comp_def)

lemma roomRowsD:
  assumes "roomRowsOk rs" "r \<in> set rs"
  shows "findBy room_id (room_id r) rs = Some r" "findBy room_code (room_code r) rs = Some r"
  using assms findBy_Some_iff [of room_id rs] findBy_Some_iff [of room_code rs] by (auto simp: roomRowsOk_def)

lemma roomRows_map:
  assumes "roomRowsOk rs" "\<And>r. room_id (f r) = room_id r \<and> room_code (f r) = room_code r \<and> (roomCheck r \<longrightarrow> roomCheck (f r))"
  shows "roomRowsOk (map f rs)"
  using assms by (auto simp: roomRowsOk_def list_all_iff comp_def)

section \<open>Opening and entering a room\<close>

lemma openRoom_ok:
  assumes ok: "lobbyOk t" and new: "room_id r \<notin> room_id ` set (rooms t)" "room_code r \<notin> room_code ` set (rooms t)"
    and r: "roomCheck r" "room_status r = ''waiting''"
  shows "lobbyOk (t\<lparr>rooms := rooms t @ [r]\<rparr>)"
    "findActiveRoomForUser user (t\<lparr>rooms := rooms t @ [r]\<rparr>) = None \<longleftrightarrow> findActiveRoomForUser user t = None"
proof -
  let ?t = "t\<lparr>rooms := rooms t @ [r]\<rparr>"
  have st: "statusOf ?t rid = (if rid = room_id r then Some ''waiting'' else statusOf t rid)" for rid
    using statusOf_new [OF new(1)] r(2) by simp
  have here: "rp_roomId p \<noteq> room_id r" if "p \<in> set (roomPlayers t)" for p
  proof -
    have "statusOf t (rp_roomId p) \<noteq> None"
      using ok that by (auto simp: lobbyOk_def placesOk_def list_all_iff simp del: not_None_eq)
    then show ?thesis using new(1) by (auto simp: statusOf_None simp del: not_None_eq)
  qed
  have same: "statusOf ?t (rp_roomId p) = statusOf t (rp_roomId p)" "roomOpen ?t (rp_roomId p) = roomOpen t (rp_roomId p)"
    if "p \<in> set (roomPlayers t)" for p
    using here [OF that] by (simp_all add: st roomOpen_def)
  have "sorted_wrt (\<lambda>p q. \<not> sitsTwice ?t p q) (roomPlayers t)"
    using ok same(2) by (auto simp: lobbyOk_def placesOk_def sitsTwice_def intro: sorted_wrt_mono_rel [rotated])
  then have "placesOk ?t" using ok same(1) by (simp add: lobbyOk_def placesOk_def list_all_iff)
  moreover have "game_roomId g \<noteq> room_id r" if "g \<in> set (games t)" for g
  proof -
    have "statusOf t (game_roomId g) \<noteq> None"
      using ok that by (auto simp: lobbyOk_def gameRowsOk_def list_all_iff simp del: not_None_eq)
    then show ?thesis using new(1) by (auto simp: statusOf_None simp del: not_None_eq)
  qed
  then have "gameRowsOk ?t" using ok r(2) by (auto simp: lobbyOk_def gameRowsOk_def list_all_iff st)
  moreover have "roomRowsOk (rooms ?t)" using ok new r(1) by (auto simp: lobbyOk_def roomRowsOk_def)
  ultimately show "lobbyOk ?t" using ok by (simp add: lobbyOk_def)
  show "findActiveRoomForUser user ?t = None \<longleftrightarrow> findActiveRoomForUser user t = None"
    using same(2) by (auto simp: noActiveRoom)
qed

lemma enterRoom_ok:
  assumes ok: "lobbyOk t" and free: "findActiveRoomForUser user t = None"
    and add: "addHumanPlayer pid now rid user seat t = Inr t'" and room: "statusOf t rid \<noteq> None"
  shows "lobbyOk t'"
proof -
  obtain p where ins: "insertRoomPlayer p t = Inr t'"
    and p: "rp_userId p = Some user" "rp_playerType p = Human" "rp_roomId p = rid"
    using add by (auto simp: addHumanPlayer_def)
  have t': "t' = t\<lparr>roomPlayers := roomPlayers t @ [p]\<rparr>" using ins by (simp add: insertRoomPlayer_Inr)
  have "seatRowsOk (roomPlayers t')" using seatRows_insert [OF ins] ok by (simp add: lobbyOk_def)
  moreover have "placesOk t'" unfolding t' using ok room p free by (intro placesOk_sit) (auto simp: lobbyOk_def)
  ultimately show ?thesis using ok by (simp add: lobbyOk_def t')
qed

lemma createRoomTx_ok:
  assumes ok: "lobbyOk t" and tx: "createRoomTx user duration a t = Inr (t', room)"
  shows "lobbyOk t'"
proof -
  obtain t1 where free: "findActiveRoomForUser user t = None"
    and t1: "lobby_createRoom (attempt_roomId a) (attempt_now a) (generateRoomCode (attempt_draws a)) user
        (case duration of None \<Rightarrow> DEFAULT_ROOM_DURATION_MINUTES | Some d \<Rightarrow> d) t = Inr (t1, room)"
    and add: "addHumanPlayer (attempt_playerId a) (attempt_now a) (room_id room) user 1 t1 = Inr t'"
    using tx by (auto simp: createRoomTx_def ensureUserHasNoActiveRoom_def)
  have r: "t1 = t\<lparr>rooms := rooms t @ [room]\<rparr>" "roomCheck room" "room_status room = ''waiting''"
    "room_id room \<notin> room_id ` set (rooms t)" "room_code room \<notin> room_code ` set (rooms t)"
    using t1 by (auto simp: lobby_createRoom_def Let_def list_ex_iff split: if_splits)
  note opened = openRoom_ok [OF ok r(4,5,2,3), folded r(1)]
  show ?thesis
    using enterRoom_ok [OF opened(1) _ add] opened(2) free r by (simp add: statusOf_None)
qed

lemma createRoomLoop_ok:
  "lobbyOk t \<Longrightarrow> createRoomLoop user duration as t = Inr (t', room) \<Longrightarrow> lobbyOk t'"
  by (induction as) (auto dest: createRoomTx_ok split: sum.splits if_splits)

lemma joinRoomTx_Inr:
  assumes "joinRoomTx user code pid now t = Inr (t', room, seat)"
  shows "findActiveRoomForUser user t = None" "lockRoomByCode code t = Some room" "room_status room = ''waiting''"
    "\<not> isExpiredWaitingRoom now room" "findFirstFreeSeat (map rp_seatNumber (listJoinedPlayers (room_id room) t)) = Some seat"
    "addHumanPlayer pid now (room_id room) user seat t = Inr t'"
proof -
  have seated: "(case r of Inl e \<Rightarrow> if isSeatUniqueViolation e then Inl x else Inl e | Inr u \<Rightarrow> Inr (u, v)) = Inr (u', v') \<longleftrightarrow>
      r = Inr u' \<and> v' = v" for r :: "ServiceError + Tables" and x u' and v v' :: "RoomRow \<times> int"
    by (cases r) auto
  show "findActiveRoomForUser user t = None" "lockRoomByCode code t = Some room" "room_status room = ''waiting''"
    "\<not> isExpiredWaitingRoom now room" "findFirstFreeSeat (map rp_seatNumber (listJoinedPlayers (room_id room) t)) = Some seat"
    "addHumanPlayer pid now (room_id room) user seat t = Inr t'"
    using assms by (auto simp: joinRoomTx_def ensureUserHasNoActiveRoom_def seated)
qed

lemma joinRoomTx_ok:
  assumes ok: "lobbyOk t" and tx: "joinRoomTx user code pid now t = Inr (t', room, seat)"
  shows "lobbyOk t'"
proof -
  have "room \<in> set (rooms t)" using joinRoomTx_Inr(2) [OF tx] by (auto simp: lockRoomByCode_def dest: findBy_SomeD)
  then have "statusOf t (room_id room) \<noteq> None" by (simp add: statusOf_None)
  then show ?thesis using enterRoom_ok [OF ok joinRoomTx_Inr(1,6) [OF tx]] by blast
qed

section \<open>Closing a waiting room and leaving\<close>

lemma cancelled_frame [simp]:
  "room_id (cancelled now r) = room_id r" "room_code (cancelled now r) = room_code r"
  "roomCheck (cancelled now r) = roomCheck r" "room_status (cancelled now r) = ''cancelled''"
  by (simp_all add: cancelled_def roomCheck_def)

text \<open>Some waiting rooms are cancelled.\<close>

definition closes :: "int \<Rightarrow> (RoomRow \<Rightarrow> RoomRow) \<Rightarrow> bool" where
  "closes now f \<longleftrightarrow> (\<forall>r. f r = r \<or> room_status r = ''waiting'' \<and> f r = cancelled now r)"

lemma closes_ok:
  assumes ok: "lobbyOk t" and f: "closes now f"
  shows "lobbyOk (t\<lparr>rooms := map f (rooms t)\<rparr>)"
proof -
  let ?t = "t\<lparr>rooms := map f (rooms t)\<rparr>"
  have f_cases: "f r = r \<or> room_status r = ''waiting'' \<and> f r = cancelled now r" for r using f by (simp add: closes_def)
  then have key: "room_id (f r) = room_id r" for r by (metis cancelled_frame(1))
  note st = statusOf_map [of f t, OF key]
  have status: "statusOf ?t rid = statusOf t rid \<or> statusOf t rid = Some ''waiting'' \<and> statusOf ?t rid = Some ''cancelled''" for rid
  proof (cases "findBy room_id rid (rooms t)")
    case (Some r)
    then have "statusOf ?t rid = Some (room_status (f r))" "statusOf t rid = Some (room_status r)"
      using st [of rid] by (simp_all add: statusOf_def)
    then show ?thesis using f_cases [of r] by auto
  next
    case None
    then show ?thesis using st [of rid] by (simp add: statusOf_def)
  qed
  have "placesOk ?t"
  proof (rule placesOk_mono [of t _ id])
    show "placesOk t" using ok by (simp add: lobbyOk_def)
    show "statusOf t rid = None" if "statusOf ?t rid = None" for rid using status [of rid] that by auto
    show "roomOpen t rid" if "roomOpen ?t rid" for rid using status [of rid] that by (auto simp: roomOpen_def)
    show "statusOf t rid = Some ''waiting''" if "statusOf ?t rid = Some ''waiting''" for rid using status [of rid] that by auto
  qed simp_all
  moreover have "gameRowsOk ?t"
  proof -
    have g: "gameRowsOk t" using ok by (simp add: lobbyOk_def)
    have "statusOf t (game_roomId g) \<noteq> Some ''waiting''" if "g \<in> set (games t)" for g
      using g that by (simp add: gameRowsOk_def list_all_iff)
    then have same: "statusOf ?t (game_roomId g) = statusOf t (game_roomId g)" if "g \<in> set (games t)" for g
      using status [of "game_roomId g"] that by blast
    have "room_id (f r) \<in> set (map game_roomId (games t))"
      if "r \<in> set (rooms t)" "room_status (f r) \<noteq> ''waiting''" "room_status (f r) \<noteq> ''cancelled''" for r
      using f_cases [of r] that g unfolding gameRowsOk_def list_all_iff by (metis cancelled_frame(4))
    then show ?thesis using g same by (simp add: gameRowsOk_def list_all_iff)
  qed
  moreover have "roomRowsOk (rooms ?t)"
    using ok f_cases key by (auto simp: lobbyOk_def intro!: roomRows_map) (metis cancelled_frame(2,3))+
  ultimately show ?thesis using ok by (simp add: lobbyOk_def)
qed

lemma updateBy_map: "updateBy key k f xs = map (\<lambda>c. if key c \<noteq> k then c else f c) xs"
  by (simp add: updateBy_def)

lemma cancelRoom_closes:
  assumes ok: "lobbyOk t"
  shows "\<exists>f. closes now f \<and> fst (updateWaitingRoom (cancelled now) rid t) = t\<lparr>rooms := map f (rooms t)\<rparr>"
proof (cases "statusOf t rid = Some ''waiting''")
  case True
  then obtain r where r: "findBy room_id rid (rooms t) = Some r" "room_status r = ''waiting''" by (auto simp: statusOf_def)
  let ?f = "\<lambda>c. if room_id c = rid \<and> room_status c = ''waiting'' then cancelled now c else c"
  have "c = r" if "c \<in> set (rooms t)" "room_id c = rid" for c
    using roomRowsD(1) [of "rooms t" c] ok that r(1) by (simp add: lobbyOk_def)
  then have "fst (updateWaitingRoom (cancelled now) rid t) = t\<lparr>rooms := map ?f (rooms t)\<rparr>"
    using r by (auto simp: updateWaitingRoom_def updateBy_map intro!: arg_cong [of _ _ "\<lambda>rs. t\<lparr>rooms := rs\<rparr>"])
  moreover have "closes now ?f" by (simp add: closes_def)
  ultimately show ?thesis by blast
next
  case False
  then have "fst (updateWaitingRoom (cancelled now) rid t) = t\<lparr>rooms := map id (rooms t)\<rparr>"
    by (auto simp: updateWaitingRoom_def statusOf_def split: option.splits)
  moreover have "closes now id" by (simp add: closes_def)
  ultimately show ?thesis by blast
qed

lemma cancelRoom_ok: "lobbyOk t \<Longrightarrow> lobbyOk (fst (updateWaitingRoom (cancelled now) rid t))"
  using cancelRoom_closes closes_ok by metis

lemma expiries_ok:
  assumes "lobbyOk t"
  shows "lobbyOk (fst (expireWaitingRoom now rid t))" "lobbyOk (fst (expireWaitingRooms now endedAt t))"
proof -
  show "lobbyOk (fst (expireWaitingRoom now rid t))"
    using cancelRoom_ok [OF assms] by (simp add: expireWaitingRoom_def repo_expireWaitingRoom_def split_beta)
  have closing: "closes endedAt (\<lambda>r. if room_status r = ''waiting'' \<and> room_createdAt r \<le> cutoff then cancelled endedAt r else r)" for cutoff
    by (simp add: closes_def)
  show "lobbyOk (fst (expireWaitingRooms now endedAt t))"
    by (simp add: expireWaitingRooms_def repo_expireWaitingRooms_def Let_def closes_ok [OF assms closing])
qed

lemma leave_ok:
  assumes ok: "lobbyOk t"
  shows "lobbyOk (repo_leaveRoom now rid user t)"
proof -
  let ?f = "\<lambda>p. if joinedIn rid p \<and> rp_userId p = Some user then p\<lparr>rp_status := Left, rp_leftAt := Some now\<rparr> else p"
  have f: "rp_roomId (?f p) = rp_roomId p \<and> rp_userId (?f p) = rp_userId p \<and> rp_playerType (?f p) = rp_playerType p \<and>
      (rp_status (?f p) = Joined \<longrightarrow> rp_status p = Joined)" for p by simp
  have "placesOk (repo_leaveRoom now rid user t)"
    by (rule placesOk_mono [of t _ ?f, OF _ _ f]) (use ok in \<open>simp_all add: repo_leaveRoom_def lobbyOk_def\<close>)
  moreover have "seatRowsOk (map ?f (roomPlayers t))"
    using ok by (intro seatRows_map) (auto simp: lobbyOk_def roomPlayerCheck_def roomPlayersClash_def split: if_splits)
  ultimately show ?thesis using ok by (simp add: lobbyOk_def repo_leaveRoom_def)
qed

lemma leaving_ok:
  assumes ok: "lobbyOk t"
  shows "lobbyOk (hostLeaveTx now user room t)" "leaveRoomTx now user code player t = Inr (t', r) \<Longrightarrow> lobbyOk t'"
    "leaveFinalTx now user code t = Inr (t', u) \<Longrightarrow> lobbyOk t'"
  using ok leave_ok [OF ok] cancelRoom_ok [OF leave_ok [OF ok]]
  by (auto simp: hostLeaveTx_def cancelRoom_def leaveRoomTx_def leaveFinalTx_def split: option.splits)

section \<open>Spectators\<close>

lemma spectate_ok:
  assumes ok: "lobbyOk t" and tx: "spectateTx user code vid now t = Inr (t', v)"
  shows "lobbyOk t'"
proof -
  obtain room :: RoomRow where few: "countCurrentSpectators (room_id room) t < ROOM_MAX_SPECTATORS"
    and create: "createSpectator vid now (room_id room) user t = Inr (t', v)"
    using tx by (auto simp: spectateTx_def not_le)
  have t': "t' = t\<lparr>roomSpectators := roomSpectators t @ [v]\<rparr>" and v: "rs_roomId v = room_id room" "rs_leftAt v = None"
    and new: "\<forall>w\<in>set (roomSpectators t). \<not> watchingTogether w v"
    using create by (auto simp: createSpectator_def Let_def list_ex_iff watchingTogether_def spectatingIn_def split: if_splits)
  have "countCurrentSpectators rid t' = countCurrentSpectators rid t + (if rid = room_id room then 1 else 0)" for rid
    using v by (simp add: t' countCurrentSpectators_def spectatingIn_def)
  then have "spectatorRowsOk t'"
    using ok few v new by (auto simp: lobbyOk_def spectatorRowsOk_def list_all_iff t' sorted_wrt_append)
  then show ?thesis using ok by (simp add: lobbyOk_def t')
qed

lemma endSpectatorSession_ok:
  assumes ok: "lobbyOk t"
  shows "lobbyOk (fst (endSpectatorSession now rid user t))"
proof -
  define f where "f v = (if spectatingIn rid v \<and> rs_userId v = user then v\<lparr>rs_leftAt := Some now\<rparr> else v)" for v
  let ?t = "t\<lparr>roomSpectators := map f (roomSpectators t)\<rparr>"
  have f: "rs_id (f v) = rs_id v" "rs_roomId (f v) = rs_roomId v" "rs_userId (f v) = rs_userId v"
    "rs_leftAt (f v) = None \<Longrightarrow> rs_leftAt v = None" for v
    by (simp_all add: f_def split: if_splits)
  have "spectatorRowsOk t" using ok by (simp add: lobbyOk_def)
  then have rows: "sorted_wrt (\<lambda>v w. \<not> watchingTogether v w) (roomSpectators t)"
    "\<forall>v\<in>set (roomSpectators t). countCurrentSpectators (rs_roomId v) t \<le> ROOM_MAX_SPECTATORS"
    by (simp_all add: spectatorRowsOk_def list_all_iff)
  have "\<not> watchingTogether v w \<Longrightarrow> \<not> watchingTogether (f v) (f w)" for v w
    using f(4) [of v] f(4) [of w] by (auto simp: watchingTogether_def f(1-3))
  then have "sorted_wrt (\<lambda>v w. \<not> watchingTogether (f v) (f w)) (roomSpectators t)"
    by (rule sorted_wrt_mono_rel [OF _ rows(1)])
  moreover have "length (filter (spectatingIn r) (map f vs)) \<le> length (filter (spectatingIn r) vs)" for r vs
    by (induction vs) (auto simp: spectatingIn_def f(1-3) dest: f(4))
  then have "countCurrentSpectators r ?t \<le> countCurrentSpectators r t" for r
    by (simp add: countCurrentSpectators_def)
  then have "countCurrentSpectators (rs_roomId v) ?t \<le> ROOM_MAX_SPECTATORS" if "v \<in> set (roomSpectators t)" for v
    using rows(2) that le_trans by blast
  ultimately have "spectatorRowsOk ?t"
    by (simp add: spectatorRowsOk_def sorted_wrt_map list_all_iff f)
  then have "lobbyOk ?t" using ok by (simp add: lobbyOk_def)
  moreover have "fst (endSpectatorSession now rid user t) = ?t"
    by (simp add: endSpectatorSession_def Let_def f_def [abs_def])
  ultimately show ?thesis by simp
qed

section \<open>Starting and ending games\<close>

lemma addBots_result:
  assumes "addBots mom rid difficulty bs t = Inr (t', ps)" "seatRowsOk (roomPlayers t)"
  shows "t' = t\<lparr>roomPlayers := roomPlayers t @ ps\<rparr> \<and> seatRowsOk (roomPlayers t @ ps) \<and>
    (\<forall>p\<in>set ps. rp_roomId p = rid \<and> rp_userId p = None \<and> rp_playerType p = Bot \<and> rp_status p = Joined) \<and>
    map rp_seatNumber ps = map bot_seatNumber bs \<and> map rp_botName ps = map bot_botName bs"
  using assms
proof (induction bs arbitrary: t ps)
  case (Cons b bs)
  obtain t1 p ps' where add: "addBotPlayer (start_botIds mom (bot_seatNumber b)) (start_roomNow mom) rid (bot_seatNumber b)
      (bot_botName b) difficulty t = Inr (t1, p)" and rest: "addBots mom rid difficulty bs t1 = Inr (t', ps')" and ps: "ps = p # ps'"
    using Cons.prems(1) by auto
  have ins: "insertRoomPlayer p t = Inr t1" and p: "rp_roomId p = rid" "rp_userId p = None" "rp_playerType p = Bot"
    "rp_status p = Joined" "rp_seatNumber p = bot_seatNumber b" "rp_botName p = bot_botName b"
    using add by (auto simp: addBotPlayer_def Let_def)
  have t1: "t1 = t\<lparr>roomPlayers := roomPlayers t @ [p]\<rparr>" using ins by (simp add: insertRoomPlayer_Inr)
  show ?case using Cons.IH [OF rest seatRows_insert [OF ins Cons.prems(2)]] p by (simp add: t1 ps)
qed simp

lemma startChecks_Inr:
  assumes "startChecks user code t = Inr room"
  shows "room \<in> set (rooms t)" "room_code room = code" "room_status room = ''waiting''" "room_hostUserId room = user"
    "listJoinedPlayers (room_id room) t \<noteq> []"
  using assms by (auto simp: startChecks_def lockRoomByCode_def dest: findBy_SomeD)

text \<open>What a committed start wrote.\<close>

lemma startRoomTx_result:
  assumes ok: "lobbyOk t" and tx: "startRoomTx usernames mom user code difficulty t = Inr (t', r)"
  obtains room created where "startChecks user code t = Inr room"
    "start_room r = room\<lparr>room_status := ''active'', room_startedAt := Some (start_roomNow mom)\<rparr>"
    "t' = t\<lparr>roomPlayers := roomPlayers t @ created,
            rooms := updateBy room_id (room_id room) (\<lambda>r. r\<lparr>room_status := ''active'', room_startedAt := Some (start_roomNow mom)\<rparr>) (rooms t),
            games := games t @ [start_game r]\<rparr>"
    "\<forall>p\<in>set created. rp_roomId p = room_id room \<and> rp_userId p = None \<and> rp_playerType p = Bot \<and> rp_status p = Joined"
    "seatRowsOk (roomPlayers t @ created)"
    "map rp_seatNumber created = map bot_seatNumber
       (if start_mode r = Casual then buildBotPlayers (room_id room) (listJoinedPlayers (room_id room) t) else [])"
    "map rp_botName created = map bot_botName
       (if start_mode r = Casual then buildBotPlayers (room_id room) (listJoinedPlayers (room_id room) t) else [])"
    "start_players r = sort_key rp_seatNumber (listJoinedPlayers (room_id room) t @ created)"
    "start_mode r = roomGameMode (listJoinedPlayers (room_id room) t)"
    "createInitialGameState (start_clock mom) (room_id room) (room_code room) (Some (start_roomNow mom))
       (gameDurationMinutes (start_mode r) room) (start_mode r) (map (joinedRoomPlayer usernames) (start_players r)) = Inr (start_state r)"
    "game_id (start_game r) = start_gameId mom" "game_roomId (start_game r) = room_id room" "game_status (start_game r) = ''active''"
    "game_state (start_game r) = start_state r" "game_mode (start_game r) = start_mode r"
    "start_gameId mom \<notin> game_id ` set (games t)" "room_id room \<notin> game_roomId ` set (games t)"
    "start_humanPlayerCount r = length (filter (\<lambda>p. rp_playerType p = Human) (listJoinedPlayers (room_id room) t))"
proof -
  let ?f = "\<lambda>r. r\<lparr>room_status := ''active'', room_startedAt := Some (start_roomNow mom)\<rparr>"
  obtain room where room: "startChecks user code t = Inr room" using tx by (auto simp: startRoomTx_def)
  let ?joined = "listJoinedPlayers (room_id room) t"
  let ?bots = "if roomGameMode ?joined = Casual then buildBotPlayers (room_id room) ?joined else []"
  obtain t1 created where bots: "addBots mom (room_id room) (case difficulty of None \<Rightarrow> DEFAULT_BOT_DIFFICULTY | Some d \<Rightarrow> d) ?bots t
      = Inr (t1, created)"
    using tx room by (auto simp: startRoomTx_def Let_def)
  note b = addBots_result [OF bots, THEN conjunct1] addBots_result [OF bots, THEN conjunct2]
  have t1: "t1 = t\<lparr>roomPlayers := roomPlayers t @ created\<rparr>" using b(1) ok by (simp add: lobbyOk_def)
  have found: "findBy room_id (room_id room) (rooms t1) = Some room" "room_status room = ''waiting''"
    using startChecks_Inr [OF room] roomRowsD(1) [of "rooms t" room] ok by (simp_all add: lobbyOk_def t1)
  have start: "repo_startRoom (start_roomNow mom) (room_id room) t1 =
      (t1\<lparr>rooms := updateBy room_id (room_id room) ?f (rooms t1)\<rparr>, Some (?f room))"
    using found by (simp add: repo_startRoom_def updateWaitingRoom_def)
  let ?all = "sort_key rp_seatNumber (?joined @ created)"
  obtain s where s: "createInitialGameState (start_clock mom) (room_id room) (room_code room) (Some (start_roomNow mom))
      (gameDurationMinutes (roomGameMode ?joined) room) (roomGameMode ?joined) (map (joinedRoomPlayer usernames) ?all) = Inr s"
    using tx room bots start by (auto simp: startRoomTx_def Let_def split: sum.splits)
  obtain g where g: "repo_createGame (start_gameId mom) (room_id room) (roomGameMode ?joined) (rp_id (hd ?all)) s
      (case expiresAt s of None \<Rightarrow> start_clock mom | Some x \<Rightarrow> x)
      (t1\<lparr>rooms := updateBy room_id (room_id room) ?f (rooms t1)\<rparr>) = Inr (t', g)"
    and r: "r = \<lparr>start_room = ?f room, start_game = g, start_mode = roomGameMode ?joined,
      start_humanPlayerCount = length (filter (\<lambda>p. rp_playerType p = Human) ?joined), start_players = ?all, start_state = s\<rparr>"
    using tx room bots start s by (auto simp: startRoomTx_def Let_def)
  have game: "t' = t\<lparr>roomPlayers := roomPlayers t @ created, rooms := updateBy room_id (room_id room) ?f (rooms t),
      games := games t @ [g]\<rparr>" "game_id g = start_gameId mom" "game_roomId g = room_id room" "game_status g = ''active''"
    "game_state g = s" "game_mode g = roomGameMode ?joined"
    "start_gameId mom \<notin> game_id ` set (games t)" "room_id room \<notin> game_roomId ` set (games t)"
    using g by (auto simp: repo_createGame_def Let_def list_ex_iff t1 split: if_splits)
  show thesis
    by (rule that [OF room]) (use b ok game s in \<open>auto simp: r lobbyOk_def\<close>)
qed

lemma statusOf_update:
  assumes "roomRowsOk (rooms t)" "room \<in> set (rooms t)" "\<And>r. room_id (f r) = room_id r"
  shows "statusOf (t\<lparr>rooms := updateBy room_id (room_id room) f (rooms t)\<rparr>) rid =
    (if rid = room_id room then Some (room_status (f room)) else statusOf t rid)"
  using roomRowsD(1) [OF assms(1,2)] assms(3) by (simp add: statusOf_def findBy_updateBy)

lemma startRoomTx_ok:
  assumes ok: "lobbyOk t" and tx: "startRoomTx usernames mom user code difficulty t = Inr (t', r)"
  shows "lobbyOk t'"
proof -
  let ?f = "\<lambda>r. r\<lparr>room_status := ''active'', room_startedAt := Some (start_roomNow mom)\<rparr>"
  obtain room created where room: "startChecks user code t = Inr room"
    and t': "t' = t\<lparr>roomPlayers := roomPlayers t @ created, rooms := updateBy room_id (room_id room) ?f (rooms t),
      games := games t @ [start_game r]\<rparr>"
    and created: "\<forall>p\<in>set created. rp_roomId p = room_id room \<and> rp_userId p = None \<and> rp_playerType p = Bot \<and> rp_status p = Joined"
    and seats: "seatRowsOk (roomPlayers t @ created)"
    and game: "game_id (start_game r) = start_gameId mom" "game_roomId (start_game r) = room_id room" "game_status (start_game r) = ''active''"
      "start_gameId mom \<notin> game_id ` set (games t)" "room_id room \<notin> game_roomId ` set (games t)"
    by (rule startRoomTx_result [OF ok tx]) (rule that; assumption)
  have parts: "roomRowsOk (rooms t)" "placesOk t" "gameRowsOk t" "spectatorRowsOk t" using ok by (simp_all add: lobbyOk_def)
  note here = startChecks_Inr [OF room]
  let ?t1 = "t\<lparr>rooms := updateBy room_id (room_id room) ?f (rooms t)\<rparr>"
  have st: "statusOf ?t1 rid = (if rid = room_id room then Some ''active'' else statusOf t rid)" for rid
    using statusOf_update [OF parts(1) here(1), of ?f] by simp
  have was: "statusOf t (room_id room) = Some ''waiting''"
    using roomRowsD(1) [OF parts(1) here(1)] here(3) by (simp add: statusOf_def)
  have status: "statusOf t' = statusOf ?t1" "roomOpen t' = roomOpen ?t1" by (simp_all add: t' fun_eq_iff statusOf_def roomOpen_def)
  have "placesOk ?t1"
    by (rule placesOk_mono [of t _ id]) (use parts(2) was in \<open>auto simp: st roomOpen_def split: if_splits\<close>)
  moreover have "sitsTwice t' = sitsTwice ?t1" using status by (simp add: fun_eq_iff sitsTwice_def)
  moreover have "\<not> sitsTwice ?t1 p q" if "q \<in> set created" for p q using that created by (auto simp: sitsTwice_def)
  moreover have "sorted_wrt (\<lambda>p q. \<not> sitsTwice ?t1 p q) created" using calculation(3) by (induction created) auto
  ultimately have "placesOk t'"
    using created unfolding placesOk_def status(1) by (auto simp: t' st list_all_iff sorted_wrt_append)
  moreover have "roomRowsOk (rooms t')"
    using roomRows_map [OF parts(1), of "\<lambda>c. if room_id c \<noteq> room_id room then c else ?f c"]
    by (simp add: t' updateBy_map roomCheck_def)
  moreover have "gameRowsOk t'"
  proof -
    have "game_roomId g \<noteq> room_id room" if "g \<in> set (games t)" for g using game(5) that by (metis imageI)
    moreover have "games t' = games t @ [start_game r]"
      "rooms t' = map (\<lambda>c. if room_id c \<noteq> room_id room then c else ?f c) (rooms t)"
      by (simp_all add: t' updateBy_map)
    ultimately show ?thesis using parts(3) game by (auto simp: gameRowsOk_def status(1) st list_all_iff)
  qed
  moreover have "spectatorRowsOk t'" using parts(4) by (simp add: t')
  ultimately show ?thesis using seats by (simp add: lobbyOk_def t')
qed

text \<open>
  A game leaves play together with its room. \<open>f\<close> is what happens to the row of the game, \<open>h\<close> to that of the
  room.
\<close>

lemma endGame_ok:
  assumes ok: "lobbyOk t" and g: "findBy game_id gid (games t) = Some g" and rid: "game_roomId g = rid"
    and f: "\<And>g. game_id (f g) = game_id g \<and> game_roomId (f g) = game_roomId g \<and> game_status (f g) \<noteq> ''active''"
    and h: "\<And>r. room_id (h r) = room_id r \<and> room_code (h r) = room_code r \<and> (roomCheck r \<longrightarrow> roomCheck (h r)) \<and>
      (room_status (h r) \<noteq> ''waiting'' \<and> room_status (h r) \<noteq> ''active'')"
  shows "lobbyOk (t\<lparr>games := updateBy game_id gid f (games t), rooms := updateBy room_id rid h (rooms t)\<rparr>)"
proof -
  define u where "u = t\<lparr>games := updateBy game_id gid f (games t), rooms := updateBy room_id rid h (rooms t)\<rparr>"
  have u: "games u = map (\<lambda>c. if game_id c \<noteq> gid then c else f c) (games t)"
    "rooms u = map (\<lambda>c. if room_id c \<noteq> rid then c else h c) (rooms t)" "roomPlayers u = roomPlayers t"
    by (simp_all add: u_def updateBy_map)
  have parts: "roomRowsOk (rooms t)" "placesOk t" "gameRowsOk t" "spectatorRowsOk t" using ok by (simp_all add: lobbyOk_def)
  have "g \<in> set (games t)" using g by (auto dest: findBy_SomeD)
  then have "statusOf t rid \<noteq> None" using parts(3) rid by (auto simp: gameRowsOk_def list_all_iff)
  then obtain room where room: "room \<in> set (rooms t)" "room_id room = rid" by (auto simp: statusOf_None simp del: not_None_eq)
  have st: "statusOf u x = (if x = rid then Some (room_status (h room)) else statusOf t x)" for x
    using statusOf_update [OF parts(1) room(1), of h x] h room(2) by (simp add: u_def statusOf_def)
  have closed: "room_status (h room) \<noteq> ''waiting''" "room_status (h room) \<noteq> ''active''" using h by auto
  have "placesOk u"
    by (rule placesOk_mono [of t _ id]) (use parts(2) closed in \<open>auto simp: u st roomOpen_def split: if_splits\<close>)
  moreover have "roomRowsOk (rooms u)"
    using roomRows_map [OF parts(1), of "\<lambda>c. if room_id c \<noteq> rid then c else h c"] h by (simp add: u)
  moreover have "gameRowsOk u"
  proof -
    have ids: "map game_id (games u) = map game_id (games t)" "map game_roomId (games u) = map game_roomId (games t)"
      using f by (simp_all add: u)
    have other: "game_roomId g' \<noteq> rid" if "g' \<in> set (games t)" "game_id g' \<noteq> gid" for g'
    proof
      assume "game_roomId g' = rid"
      then have "findBy game_roomId rid (games t) = Some g'" "findBy game_roomId rid (games t) = Some g"
        using parts(3) that(1) \<open>g \<in> set (games t)\<close> rid by (simp_all add: findBy_Some_iff gameRowsOk_def)
      then show False using that(2) g by (auto dest: findBy_SomeD)
    qed
    have own: "game_roomId g' = rid" if "g' \<in> set (games t)" "game_id g' = gid" for g'
    proof -
      have "findBy game_id gid (games t) = Some g'" using that parts(3) by (simp add: findBy_Some_iff gameRowsOk_def)
      then show ?thesis using g rid by simp
    qed
    have "list_all (\<lambda>g. game_status g = ''active'' \<longleftrightarrow> statusOf u (game_roomId g) = Some ''active'') (games u)"
      using parts(3) f closed other own by (auto simp: gameRowsOk_def list_all_iff u st)
    moreover have "list_all (\<lambda>g. statusOf u (game_roomId g) \<noteq> None \<and> statusOf u (game_roomId g) \<noteq> Some ''waiting'') (games u)"
      using parts(3) f closed by (auto simp: gameRowsOk_def list_all_iff u st)
    moreover have "list_all (\<lambda>r. room_status r \<noteq> ''waiting'' \<and> room_status r \<noteq> ''cancelled'' \<longrightarrow>
        room_id r \<in> set (map game_roomId (games u))) (rooms u)"
      using parts(3) h \<open>g \<in> set (games t)\<close> rid unfolding ids by (auto simp: gameRowsOk_def list_all_iff u)
    ultimately show ?thesis using parts(3) ids by (simp add: gameRowsOk_def)
  qed
  moreover have "spectatorRowsOk u" using parts(4) by (simp add: u_def)
  ultimately show ?thesis using ok u(3) unfolding u_def [symmetric] by (simp add: lobbyOk_def)
qed

lemma cancelStartedGame_ok:
  assumes ok: "lobbyOk t" and g: "findBy game_id gid (games t) = Some g" "game_roomId g = rid"
  shows "lobbyOk (cancelStartedGame now rid gid t)"
proof (cases "game_status g = ''active''")
  case True
  let ?f = "\<lambda>g. g\<lparr>game_status := ''cancelled'', game_finishedAt := Some now\<rparr>"
  have parts: "roomRowsOk (rooms t)" "gameRowsOk t" using ok by (simp_all add: lobbyOk_def)
  have g_in: "g \<in> set (games t)" "game_id g = gid" using g(1) by (auto dest: findBy_SomeD)
  then have "statusOf t rid = Some ''active''" using parts(2) True g(2) by (auto simp: gameRowsOk_def list_all_iff)
  then obtain room where room: "findBy room_id rid (rooms t) = Some room" "room_status room = ''active''"
    by (auto simp: statusOf_def)
  have one: "c = room" if "c \<in> set (rooms t)" "room_id c = rid" for c
    using roomRowsD(1) [OF parts(1) that(1)] that(2) room(1) by simp
  have "c = g" if "c \<in> set (games t)" "game_id c = gid" for c
  proof -
    have "findBy game_id gid (games t) = Some c" using that parts(2) by (simp add: findBy_Some_iff gameRowsOk_def)
    then show ?thesis using g(1) by simp
  qed
  then have "cancelStartedGame now rid gid t =
      t\<lparr>games := updateBy game_id gid ?f (games t), rooms := updateBy room_id rid (cancelled now) (rooms t)\<rparr>"
    using one room(2) True
    by (auto simp: cancelStartedGame_def updateBy_map intro!: arg_cong2 [of _ _ _ _ "\<lambda>gs rs. t\<lparr>games := gs, rooms := rs\<rparr>"])
  then show ?thesis using endGame_ok [OF ok g, of ?f "cancelled now"] by simp
next
  case False
  have parts: "roomRowsOk (rooms t)" "gameRowsOk t" using ok by (simp_all add: lobbyOk_def)
  have g_in: "g \<in> set (games t)" "game_id g = gid" using g(1) by (auto dest: findBy_SomeD)
  then have "statusOf t rid \<noteq> Some ''active''" using parts(2) False g(2) by (auto simp: gameRowsOk_def list_all_iff)
  then have "room_status c \<noteq> ''active''" if "c \<in> set (rooms t)" "room_id c = rid" for c
    using roomRowsD(1) [OF parts(1) that(1)] that(2) by (auto simp: statusOf_def)
  moreover have "game_status c \<noteq> ''active''" if "c \<in> set (games t)" "game_id c = gid" for c
  proof -
    have "findBy game_id gid (games t) = Some c" using that parts(2) by (simp add: findBy_Some_iff gameRowsOk_def)
    then show ?thesis using g(1) False by simp
  qed
  ultimately have "map (\<lambda>g. if game_id g = gid \<and> game_status g = ''active''
      then g\<lparr>game_status := ''cancelled'', game_finishedAt := Some now\<rparr> else g) (games t) = games t"
    "map (\<lambda>r. if room_id r = rid \<and> room_status r = ''active'' then cancelled now r else r) (rooms t) = rooms t"
    by (auto intro!: map_idI)
  then have "cancelStartedGame now rid gid t = t" by (simp add: cancelStartedGame_def)
  then show ?thesis using ok by simp
qed

text \<open>The results and statistics of a game change no table of the lobby but the rows of the game and its room.\<close>

lemma applyUserResult_lobby:
  "games (applyUserResult room stats changes ur t) = games t \<and> rooms (applyUserResult room stats changes ur t) = rooms t \<and>
   roomPlayers (applyUserResult room stats changes ur t) = roomPlayers t \<and>
   roomSpectators (applyUserResult room stats changes ur t) = roomSpectators t"
  by (simp add: applyUserResult_def split: option.split)

lemma applyFinishedGameStats_lobby:
  assumes "applyFinishedGameStats p room s rs t = Inr t'"
  shows "games t' = games t \<and> rooms t' = rooms t \<and> roomPlayers t' = roomPlayers t \<and> roomSpectators t' = roomSpectators t"
proof -
  have fold: "games (foldl (\<lambda>u ur. applyUserResult room stats changes ur u) t urs) = games t \<and>
      rooms (foldl (\<lambda>u ur. applyUserResult room stats changes ur u) t urs) = rooms t \<and>
      roomPlayers (foldl (\<lambda>u ur. applyUserResult room stats changes ur u) t urs) = roomPlayers t \<and>
      roomSpectators (foldl (\<lambda>u ur. applyUserResult room stats changes ur u) t urs) = roomSpectators t" for stats changes urs t
    by (induction urs arbitrary: t) (simp_all add: applyUserResult_lobby)
  show ?thesis
    using assms by (auto simp: applyFinishedGameStats_def Let_def createMissingPlayerStats_def fold split: if_splits)
qed

lemma saveFinishedGame_lobby:
  "roomPlayers (saveFinishedGame input t) = roomPlayers t" "roomSpectators (saveFinishedGame input t) = roomSpectators t"
  "games (saveFinishedGame input t) = updateBy game_id (save_gameId input) (\<lambda>g. g\<lparr>game_status := ''finished'',
     game_currentTurnRoomPlayerId := Some (currentTurnRoomPlayerId (save_state input)),
     game_turnNumber := turnNumber (save_state input), game_state := save_state input,
     game_finishedAt := Some (save_completedAt input)\<rparr>) (games t)"
  "rooms (saveFinishedGame input t) = updateBy room_id (save_roomId input) (\<lambda>r. r\<lparr>room_status := ''finished'',
     room_endedAt := Some (save_completedAt input)\<rparr>) (rooms t)"
proof -
  have fold: "games (foldl (\<lambda>u r. u\<lparr>roomPlayerResults := (roomPlayerResults u)((result_roomId r, result_roomPlayerId r) \<mapsto> r)\<rparr>) t rs) = games t \<and>
     rooms (foldl (\<lambda>u r. u\<lparr>roomPlayerResults := (roomPlayerResults u)((result_roomId r, result_roomPlayerId r) \<mapsto> r)\<rparr>) t rs) = rooms t \<and>
     roomPlayers (foldl (\<lambda>u r. u\<lparr>roomPlayerResults := (roomPlayerResults u)((result_roomId r, result_roomPlayerId r) \<mapsto> r)\<rparr>) t rs) = roomPlayers t \<and>
     roomSpectators (foldl (\<lambda>u r. u\<lparr>roomPlayerResults := (roomPlayerResults u)((result_roomId r, result_roomPlayerId r) \<mapsto> r)\<rparr>) t rs) = roomSpectators t"
    for t rs by (induction rs arbitrary: t) simp_all
  show "roomPlayers (saveFinishedGame input t) = roomPlayers t" "roomSpectators (saveFinishedGame input t) = roomSpectators t"
    "games (saveFinishedGame input t) = updateBy game_id (save_gameId input) (\<lambda>g. g\<lparr>game_status := ''finished'',
     game_currentTurnRoomPlayerId := Some (currentTurnRoomPlayerId (save_state input)),
     game_turnNumber := turnNumber (save_state input), game_state := save_state input,
     game_finishedAt := Some (save_completedAt input)\<rparr>) (games t)"
    "rooms (saveFinishedGame input t) = updateBy room_id (save_roomId input) (\<lambda>r. r\<lparr>room_status := ''finished'',
     room_endedAt := Some (save_completedAt input)\<rparr>) (rooms t)"
    by (simp_all add: saveFinishedGame_def Let_def fold)
qed

lemma lobbyOk_cong:
  assumes "games t' = games t" "rooms t' = rooms t" "roomPlayers t' = roomPlayers t" "roomSpectators t' = roomSpectators t"
  shows "lobbyOk t' = lobbyOk t"
proof -
  have "statusOf t' = statusOf t" "roomOpen t' = roomOpen t" using assms by (simp_all add: fun_eq_iff statusOf_def roomOpen_def)
  moreover from this have "sitsTwice t' = sitsTwice t" by (simp add: fun_eq_iff sitsTwice_def)
  ultimately show ?thesis
    using assms by (simp add: lobbyOk_def placesOk_def spectatorRowsOk_def gameRowsOk_def countCurrentSpectators_def)
qed

lemma finalizeFinishedGame_ok:
  assumes ok: "lobbyOk t" and fin: "finalizeFinishedGame p now gid s evs t = Inr t'"
    and room: "\<And>g. findBy game_id gid (games t) = Some g \<Longrightarrow> game_roomId g = roomId s"
  shows "lobbyOk t'"
proof (cases "phase s = Finished")
  case True
  then obtain g where g: "findBy game_id gid (games t) = Some g"
    using fin by (cases "findBy game_id gid (games t)") (auto simp: finalizeFinishedGame_def)
  obtain input where input: "save_gameId input = gid" "save_roomId input = roomId s"
    and saved: "games t' = games (saveFinishedGame input t)" "rooms t' = rooms (saveFinishedGame input t)"
      "roomPlayers t' = roomPlayers (saveFinishedGame input t)" "roomSpectators t' = roomSpectators (saveFinishedGame input t)"
  proof -
    obtain winner results where "applyFinishedGameStats p (roomId s) s results (saveFinishedGame
        \<lparr>save_gameId = gid, save_roomId = roomId s, save_state = s, save_endReason = getEndReason evs,
         save_winnerRoomPlayerId = winner, save_completedAt = getCompletedAt now evs,
         save_durationSeconds = getDurationSeconds s (getCompletedAt now evs), save_playerResults = results\<rparr> t) = Inr t'"
      using fin True g by (auto simp: finalizeFinishedGame_def Let_def split: sum.splits)
    from that [OF _ _ applyFinishedGameStats_lobby [OF this, THEN conjunct1]
        applyFinishedGameStats_lobby [OF this, THEN conjunct2, THEN conjunct1]] applyFinishedGameStats_lobby [OF this]
    show thesis by simp
  qed
  let ?f = "\<lambda>g. g\<lparr>game_status := ''finished'',
     game_currentTurnRoomPlayerId := Some (currentTurnRoomPlayerId (save_state input)),
     game_turnNumber := turnNumber (save_state input), game_state := save_state input,
     game_finishedAt := Some (save_completedAt input)\<rparr>"
  let ?h = "\<lambda>r. r\<lparr>room_status := ''finished'', room_endedAt := Some (save_completedAt input)\<rparr>"
  have "lobbyOk (t\<lparr>games := updateBy game_id gid ?f (games t), rooms := updateBy room_id (roomId s) ?h (rooms t)\<rparr>)"
    using endGame_ok [OF ok g room [OF g], of ?f ?h] by (simp add: roomCheck_def)
  then show ?thesis
    by (rule lobbyOk_cong [THEN iffD2, rotated 4]) (simp_all add: saved saveFinishedGame_lobby input)
qed (use fin ok in \<open>simp add: finalizeFinishedGame_def\<close>)

section \<open>Any order of transactions\<close>

text \<open>
  One transaction of somebody. The two transactions of a player who leaves a game are separate steps, with anything in
  between. A game is finished with a state of its own room, which no intent changes (\<open>games_keep_their_frame\<close>).
\<close>

inductive lobby_step :: "Tables \<Rightarrow> Tables \<Rightarrow> bool" where
  created: "createRoomLoop user duration attempts t = Inr (t', room) \<Longrightarrow> lobby_step t t'"
| joined: "joinRoomTx user code pid now t = Inr (t', room, seat) \<Longrightarrow> lobby_step t t'"
| host_left: "lobby_step t (hostLeaveTx now user room t)"
| left: "leaveRoomTx now user code player t = Inr (t', r) \<Longrightarrow> lobby_step t t'"
| left_finally: "leaveFinalTx now user code t = Inr (t', u) \<Longrightarrow> lobby_step t t'"
| watched: "spectateTx user code vid now t = Inr (t', v) \<Longrightarrow> lobby_step t t'"
| unwatched: "lobby_step t (fst (endSpectatorSession now rid user t))"
| started: "startRoomTx usernames mom user code difficulty t = Inr (t', r) \<Longrightarrow> lobby_step t t'"
| start_failed: "findBy game_id gid (games t) = Some g \<Longrightarrow> lobby_step t (cancelStartedGame now (game_roomId g) gid t)"
| finished: "finalizeFinishedGame p now gid s evs t = Inr t' \<Longrightarrow>
    \<forall>g. findBy game_id gid (games t) = Some g \<longrightarrow> game_roomId g = roomId s \<Longrightarrow> lobby_step t t'"
| expired: "lobby_step t (fst (expireWaitingRoom now rid t))"
| swept: "lobby_step t (fst (expireWaitingRooms now endedAt t))"

inductive lobby_reachable :: "Tables \<Rightarrow> bool" where
  empty: "games t = [] \<Longrightarrow> rooms t = [] \<Longrightarrow> roomPlayers t = [] \<Longrightarrow> roomSpectators t = [] \<Longrightarrow> lobby_reachable t"
| step: "lobby_reachable t \<Longrightarrow> lobby_step t t' \<Longrightarrow> lobby_reachable t'"

lemma lobby_step_ok: "lobby_step t t' \<Longrightarrow> lobbyOk t \<Longrightarrow> lobbyOk t'"
  by (induction rule: lobby_step.induct)
    (auto intro: createRoomLoop_ok joinRoomTx_ok leaving_ok spectate_ok endSpectatorSession_ok startRoomTx_ok
      cancelStartedGame_ok finalizeFinishedGame_ok expiries_ok)

lemma lobby_reachable_ok: "lobby_reachable t \<Longrightarrow> lobbyOk t"
proof (induction rule: lobby_reachable.induct)
  case (empty t)
  then show ?case by (simp add: lobbyOk_def roomRowsOk_def seatRowsOk_def placesOk_def spectatorRowsOk_def gameRowsOk_def)
qed (rule lobby_step_ok)

section \<open>What the invariant means\<close>

lemma sorted_wrt_pair: "sorted_wrt P xs \<Longrightarrow> x \<in> set xs \<Longrightarrow> y \<in> set xs \<Longrightarrow> x \<noteq> y \<Longrightarrow> P x y \<or> P y x"
  by (induction xs) auto

lemma seats_distinct:
  assumes "seatRowsOk ps"
  shows "distinct (map rp_seatNumber (filter (joinedIn rid) ps))"
  using assms
proof (induction ps)
  case (Cons p ps)
  then show ?case by (auto simp: seatRowsOk_def roomPlayersClash_def joinedIn_def)
qed simp

lemma seats_range:
  assumes "seatRowsOk ps"
  shows "set (map rp_seatNumber (filter (joinedIn rid) ps)) \<subseteq> {1..4}"
  using assms by (auto simp: seatRowsOk_def list_all_iff roomPlayerCheck_def)

lemma at_most_four:
  assumes "seatRowsOk ps"
  shows "length (filter (joinedIn rid) ps) \<le> 4"
proof -
  have "length (filter (joinedIn rid) ps) = card (set (map rp_seatNumber (filter (joinedIn rid) ps)))"
    using distinct_card [OF seats_distinct [OF assms, of rid]] by simp
  also have "\<dots> \<le> card {1..4::int}" using seats_range [OF assms] by (intro card_mono) auto
  finally show ?thesis by simp
qed

lemma one_open_room:
  assumes "placesOk t" "p \<in> set (roomPlayers t)" "q \<in> set (roomPlayers t)" "sitsTwice t p q"
  shows "p = q"
proof (rule ccontr)
  assume "p \<noteq> q"
  then have "\<not> sitsTwice t p q \<or> \<not> sitsTwice t q p" using assms(1-3) sorted_wrt_pair by (fastforce simp: placesOk_def)
  then show False using assms(4) by (auto simp: sitsTwice_def)
qed

lemma few_spectators:
  assumes "spectatorRowsOk t"
  shows "countCurrentSpectators rid t \<le> ROOM_MAX_SPECTATORS"
proof (cases "filter (spectatingIn rid) (roomSpectators t)")
  case (Cons v vs)
  then have "v \<in> set (filter (spectatingIn rid) (roomSpectators t))" by simp
  then show ?thesis using assms by (auto simp: spectatorRowsOk_def list_all_iff spectatingIn_def)
qed (simp add: countCurrentSpectators_def)

lemma playing_room:
  assumes "lobbyOk t"
  shows "statusOf t rid = Some ''active'' \<longleftrightarrow> (\<exists>g. findActiveGameByRoomId rid t = Some g)"
proof
  assume active: "statusOf t rid = Some ''active''"
  then obtain r where "r \<in> set (rooms t)" "room_id r = rid" "room_status r = ''active''"
    by (auto simp: statusOf_def dest: findBy_SomeD)
  then obtain g where "g \<in> set (games t)" "game_roomId g = rid"
    using assms by (auto simp: lobbyOk_def gameRowsOk_def list_all_iff)
  moreover from this have "game_status g = ''active''" using assms active by (auto simp: lobbyOk_def gameRowsOk_def list_all_iff)
  ultimately show "\<exists>g. findActiveGameByRoomId rid t = Some g"
    by (auto simp: findActiveGameByRoomId_def find_None_iff not_None_eq [symmetric] simp del: not_None_eq)
next
  assume "\<exists>g. findActiveGameByRoomId rid t = Some g"
  then obtain g where "findActiveGameByRoomId rid t = Some g" ..
  then have "g \<in> set (games t)" "game_roomId g = rid" "game_status g = ''active''"
    by (auto simp: findActiveGameByRoomId_def find_Some_iff in_set_conv_nth)
  then show "statusOf t rid = Some ''active''" using assms by (auto simp: lobbyOk_def gameRowsOk_def list_all_iff)
qed

text \<open>
  C28. The lobby stays consistent whatever users, timers and ending games do and in whatever order: codes are unique and
  well formed, a room has at most four players in different seats from one to four and at most twenty current spectators, no user
  sits in two rooms that are waiting or playing, and a room is in play exactly while it has a game in play.
\<close>

theorem lobby_stays_consistent:
  assumes "lobby_reachable t"
  shows "distinct (map room_code (rooms t)) \<and> (\<forall>r\<in>set (rooms t). length (room_code r) = 8 \<and> list_all isAlphanumeric (room_code r)) \<and>
    (\<forall>rid. distinct (map rp_seatNumber (filter (joinedIn rid) (roomPlayers t))) \<and>
       set (map rp_seatNumber (filter (joinedIn rid) (roomPlayers t))) \<subseteq> {1..4} \<and>
       length (filter (joinedIn rid) (roomPlayers t)) \<le> 4 \<and> countCurrentSpectators rid t \<le> 20 \<and>
       (statusOf t rid = Some ''active'' \<longleftrightarrow> (\<exists>g. findActiveGameByRoomId rid t = Some g))) \<and>
    (\<forall>p\<in>set (roomPlayers t). \<forall>q\<in>set (roomPlayers t). sitsTwice t p q \<longrightarrow> p = q)"
proof -
  have ok: "lobbyOk t" using assms by (rule lobby_reachable_ok)
  then have parts: "roomRowsOk (rooms t)" "seatRowsOk (roomPlayers t)" "placesOk t" "spectatorRowsOk t"
    by (simp_all add: lobbyOk_def)
  have "countCurrentSpectators rid t \<le> 20" for rid using few_spectators [OF parts(4)] by (simp add: ROOM_MAX_SPECTATORS_def)
  then show ?thesis
    using parts(1) seats_distinct [OF parts(2)] seats_range [OF parts(2)] at_most_four [OF parts(2)] playing_room [OF ok]
      one_open_room [OF parts(3)]
    by (simp add: roomRowsOk_def list_all_iff roomCheck_def)
qed

text \<open>A room that user a opens and user b enters.\<close>

definition sampleAttempt :: Attempt where
  "sampleAttempt = \<lparr>attempt_draws = (\<lambda>i. i), attempt_roomId = ''r'', attempt_playerId = ''pa'', attempt_now = 0\<rparr>"

definition openLobby :: Tables where
  "openLobby = (case createRoomLoop ''a'' None [sampleAttempt] emptyTables of Inl e \<Rightarrow> emptyTables | Inr (t, room) \<Rightarrow> t)"

definition twoPlayerLobby :: Tables where
  "twoPlayerLobby = (case joinRoomTx ''b'' ''ABCDEFGH'' ''pb'' 5 openLobby of Inl e \<Rightarrow> openLobby | Inr (t, room, seat) \<Rightarrow> t)"

lemma sample_lobby_facts:
  "case createRoomLoop ''a'' None [sampleAttempt] emptyTables of Inl _ \<Rightarrow> False | Inr (t, room) \<Rightarrow> room_code room = ''ABCDEFGH''"
  "case joinRoomTx ''b'' ''ABCDEFGH'' ''pb'' 5 openLobby of Inl _ \<Rightarrow> False | Inr (t, room, seat) \<Rightarrow> seat = 2"
  "length (filter (joinedIn ''r'') (roomPlayers twoPlayerLobby)) = 2"
  by code_simp+

lemma openLobby_reachable: "lobby_reachable openLobby"
proof -
  obtain t room where t: "createRoomLoop ''a'' None [sampleAttempt] emptyTables = Inr (t, room)"
    using sample_lobby_facts(1) by (auto split: sum.splits)
  have "lobby_reachable t" by (rule lobby_reachable.step [OF lobby_reachable.empty lobby_step.created [OF t]]) (simp_all add: emptyTables_def)
  with t show ?thesis by (simp add: openLobby_def)
qed

lemma twoPlayerLobby_reachable: "lobby_reachable twoPlayerLobby"
proof -
  obtain t room seat where t: "joinRoomTx ''b'' ''ABCDEFGH'' ''pb'' 5 openLobby = Inr (t, room, seat)"
    using sample_lobby_facts(2) by (auto split: sum.splits)
  have "lobby_reachable t" by (rule lobby_reachable.step [OF openLobby_reachable lobby_step.joined [OF t]])
  with t show ?thesis by (simp add: twoPlayerLobby_def)
qed

theorem lobby_stays_consistent_witness:
  "length (filter (joinedIn ''r'') (roomPlayers twoPlayerLobby)) = 2 \<and>
   distinct (map room_code (rooms twoPlayerLobby)) \<and>
   distinct (map rp_seatNumber (filter (joinedIn ''r'') (roomPlayers twoPlayerLobby))) \<and>
   (statusOf twoPlayerLobby ''r'' = Some ''active'' \<longleftrightarrow> (\<exists>g. findActiveGameByRoomId ''r'' twoPlayerLobby = Some g))"
  using lobby_stays_consistent [OF twoPlayerLobby_reachable] sample_lobby_facts(3) by blast

end
