(* ===== verification/Rooms_Games.thy ===== *)
theory Rooms_Games
  imports Rooms_Invariant
begin

text \<open>
  What the operations on rooms achieve: a started room is a game that can be played and recovered, a failed start is
  undone, and joining succeeds exactly when the rules of the lobby allow it.
\<close>

section \<open>Who sits in a started room\<close>

lemma joined_list:
  assumes "lobbyOk t"
  shows "set (listJoinedPlayers rid t) = {p \<in> set (roomPlayers t). joinedIn rid p}"
    "distinct (map rp_seatNumber (listJoinedPlayers rid t))"
    "set (map rp_seatNumber (listJoinedPlayers rid t)) \<subseteq> {1..4}"
    "length (listJoinedPlayers rid t) = length (filter (joinedIn rid) (roomPlayers t))"
proof -
  have seats: "seatRowsOk (roomPlayers t)" using assms by (simp add: lobbyOk_def)
  have same: "mset (map rp_seatNumber (listJoinedPlayers rid t)) = mset (map rp_seatNumber (filter (joinedIn rid) (roomPlayers t)))"
    by (simp add: listJoinedPlayers_def)
  show "distinct (map rp_seatNumber (listJoinedPlayers rid t))"
    using seats_distinct [OF seats, of rid] mset_eq_imp_distinct_iff [OF same] by simp
  show "set (map rp_seatNumber (listJoinedPlayers rid t)) \<subseteq> {1..4}"
    using seats_range [OF seats, of rid] mset_eq_setD [OF same] by simp
qed (auto simp: listJoinedPlayers_def)

lemma waiting_humans:
  assumes "lobbyOk t" "startChecks user code t = Inr room" "p \<in> set (listJoinedPlayers (room_id room) t)"
  shows "rp_playerType p = Human"
proof -
  note room = startChecks_Inr [OF assms(2)]
  have "statusOf t (room_id room) = Some ''waiting''"
    using roomRowsD(1) [of "rooms t" room] room assms(1) by (simp add: lobbyOk_def statusOf_def)
  then show ?thesis
    using assms(1,3) joined_list(1) [OF assms(1)] by (auto simp: lobbyOk_def placesOk_def list_all_iff joinedIn_def)
qed

lemma humans_only:
  assumes "\<forall>p\<in>set ps. rp_playerType p = Human"
  shows "roomGameMode ps = (if 3 \<le> length ps then Ranked else Casual)" "filter (\<lambda>p. rp_playerType p = Human) ps = ps"
proof -
  show "filter (\<lambda>p. rp_playerType p = Human) ps = ps" using assms by simp
  then show "roomGameMode ps = (if 3 \<le> length ps then Ranked else Casual)"
    using assms by (simp add: roomGameMode_def list_all_iff ROOM_MIN_RANKED_HUMANS_def)
qed

lemma human_without_bot_name:
  assumes "lobbyOk t" "\<forall>p\<in>set (listJoinedPlayers rid t). rp_playerType p = Human"
  shows "List.map_filter rp_botName (listJoinedPlayers rid t) = []"
proof -
  have "rp_botName p = None" if "p \<in> set (listJoinedPlayers rid t)" for p
    using assms that joined_list(1) [OF assms(1)] by (auto simp: lobbyOk_def seatRowsOk_def list_all_iff roomPlayerCheck_def)
  then show ?thesis by (auto simp: List.map_filter_def filter_empty_conv)
qed

definition freeSeats :: "RoomPlayerRow list \<Rightarrow> int list" where
  "freeSeats joined = filter (\<lambda>seat. seat \<notin> set (map rp_seatNumber joined)) [1..4]"

lemma botNameOffset_bound: "0 \<le> getBotNameOffset rid 6" "getBotNameOffset rid 6 < 6"
  by (simp_all add: getBotNameOffset_def)

lemma buildBotPlayers_humans:
  assumes "List.map_filter rp_botName joined = []"
  shows "map bot_seatNumber (buildBotPlayers rid joined) = freeSeats joined"
    "map bot_botName (buildBotPlayers rid joined) =
       map (\<lambda>i. Some (BOT_NAMES ! nat ((getBotNameOffset rid 6 + int i) mod 6))) [0..<length (freeSeats joined)]"
proof -
  have names: "filter (\<lambda>n. n \<notin> set (List.map_filter rp_botName joined)) BOT_NAMES = BOT_NAMES" "int (length BOT_NAMES) = 6"
    by (simp_all add: assms BOT_NAMES_def)
  have free: "filter (\<lambda>seat. seat \<notin> rp_seatNumber ` set joined) [1..ROOM_MAX_PLAYERS] = freeSeats joined"
    by (simp only: freeSeats_def ROOM_MAX_PLAYERS_def set_map)
  have pick: "jsNth BOT_NAMES (jsRem (getBotNameOffset rid 6 + int i) 6) = Some (BOT_NAMES ! nat ((getBotNameOffset rid 6 + int i) mod 6))" for i
  proof -
    have "jsRem (getBotNameOffset rid 6 + int i) 6 = (getBotNameOffset rid 6 + int i) mod 6"
      using botNameOffset_bound(1) by simp
    moreover have "0 \<le> (getBotNameOffset rid 6 + int i) mod 6" "(getBotNameOffset rid 6 + int i) mod 6 < 6" by simp_all
    ultimately show ?thesis using names(2) by (simp add: jsNth_def nat_less_iff)
  qed
  have map_enum: "map (\<lambda>x. f (fst x)) (enumerate 0 xs) = map f [0..<length xs]" for f :: "nat \<Rightarrow> string option" and xs :: "int list"
    using arg_cong [OF map_fst_enumerate [of 0 xs], of "map f"] by (simp add: comp_def del: map_fst_enumerate)
  show "map bot_seatNumber (buildBotPlayers rid joined) = freeSeats joined"
    by (simp add: buildBotPlayers_def Let_def names free comp_def case_prod_beta)
  show "map bot_botName (buildBotPlayers rid joined) =
       map (\<lambda>i. Some (BOT_NAMES ! nat ((getBotNameOffset rid 6 + int i) mod 6))) [0..<length (freeSeats joined)]"
    by (simp add: buildBotPlayers_def Let_def names free comp_def case_prod_beta pick)
      (rule map_enum [of "\<lambda>i. Some (BOT_NAMES ! nat ((getBotNameOffset rid 6 + int i) mod 6))"])
qed


lemma bot_names_distinct:
  assumes "length (freeSeats joined) \<le> 6" "List.map_filter rp_botName joined = []"
  shows "distinct (map bot_botName (buildBotPlayers rid joined))"
    "set (map bot_botName (buildBotPlayers rid joined)) \<subseteq> Some ` set BOT_NAMES"
proof -
  let ?k = "\<lambda>i. nat ((getBotNameOffset rid 6 + int i) mod 6)"
  have k: "?k i < length BOT_NAMES" for i by (simp add: BOT_NAMES_def nat_less_iff)
  have names: "distinct BOT_NAMES" by (simp add: BOT_NAMES_def)
  have same: "i = j" if "i < 6" "j < 6" "?k i = ?k j" for i j :: nat
  proof -
    have "(getBotNameOffset rid 6 + int i) mod 6 = (getBotNameOffset rid 6 + int j) mod 6"
      using that(3) by (simp add: nat_eq_iff2)
    then have "6 dvd (getBotNameOffset rid 6 + int i) - (getBotNameOffset rid 6 + int j)" by (simp only: mod_eq_dvd_iff)
    then have "6 dvd int i - int j" by simp
    then show ?thesis using that(1,2) by presburger
  qed
  have "inj_on (\<lambda>i. Some (BOT_NAMES ! ?k i)) {0..<length (freeSeats joined)}"
  proof (rule inj_onI)
    fix i j
    assume ij: "i \<in> {0..<length (freeSeats joined)}" "j \<in> {0..<length (freeSeats joined)}"
      and "Some (BOT_NAMES ! ?k i) = Some (BOT_NAMES ! ?k j)"
    then have "BOT_NAMES ! ?k i = BOT_NAMES ! ?k j" by (simp only: option.inject)
    then have "?k i = ?k j" by (simp only: nth_eq_iff_index_eq [OF names k k])
    moreover have "i < length (freeSeats joined)" "j < length (freeSeats joined)" using ij by (simp_all only: atLeastLessThan_iff)
    ultimately show "i = j" using same less_le_trans [OF _ assms(1)] by blast
  qed
  then show "distinct (map bot_botName (buildBotPlayers rid joined))"
    by (simp add: buildBotPlayers_humans(2) [OF assms(2)] distinct_map)
  show "set (map bot_botName (buildBotPlayers rid joined)) \<subseteq> Some ` set BOT_NAMES"
    using k by (simp only: buildBotPlayers_humans(2) [OF assms(2)] set_map image_subset_iff) (simp add: image_iff)
qed

lemma freeSeats_fill:
  assumes "distinct seats" "set seats \<subseteq> {1..4}"
  shows "sort (seats @ filter (\<lambda>s. s \<notin> set seats) [1..4]) = [1, 2, 3, 4::int]"
proof (rule sorted_distinct_set_unique)
  show "distinct (sort (seats @ filter (\<lambda>s. s \<notin> set seats) [1..4]))" using assms(1) by auto
  have "set [1, 2, 3, 4::int] = {1..4}" by auto
  then show "set (sort (seats @ filter (\<lambda>s. s \<notin> set seats) [1..4])) = set [1, 2, 3, 4::int]" using assms(2) by auto
qed simp_all


section \<open>A started room\<close>

lemma seatRows_ids:
  assumes "seatRowsOk ps"
  shows "distinct (map rp_id ps)" "[] \<notin> set (map rp_id ps)"
proof -
  show "distinct (map rp_id ps)"
    using assms by (induction ps) (auto simp: seatRowsOk_def roomPlayersClash_def)
  show "[] \<notin> set (map rp_id ps)" using assms by (auto simp: seatRowsOk_def list_all_iff roomPlayerCheck_def)
qed

lemma started_ids:
  assumes seats: "seatRowsOk (roomPlayers t @ created)"
    and ps: "ps = sort_key rp_seatNumber (listJoinedPlayers rid t @ created)"
  shows "joinedOk (map (joinedRoomPlayer usernames) ps) \<longleftrightarrow> ps \<noteq> []"
proof -
  have ids: "distinct (map rp_id (roomPlayers t @ created))" "[] \<notin> set (map rp_id (roomPlayers t @ created))"
    using seatRows_ids [OF seats] by blast+
  have "distinct (map rp_id (filter (joinedIn rid) (roomPlayers t) @ created))"
    using ids(1) by (auto simp: distinct_map_filter)
  moreover have "mset (map rp_id ps) = mset (map rp_id (filter (joinedIn rid) (roomPlayers t) @ created))"
    by (simp add: ps listJoinedPlayers_def)
  ultimately have "distinct (map rp_id ps)" using mset_eq_imp_distinct_iff by metis
  moreover have "[] \<notin> set (map rp_id ps)" using ids(2) by (auto simp: ps listJoinedPlayers_def)
  moreover have same: "map joined_id (map (joinedRoomPlayer usernames) ps) = map rp_id ps"
    by (simp add: joinedRoomPlayer_def)
  ultimately show ?thesis unfolding joinedOk_def same by simp
qed

lemma fill_seats:
  assumes "lobbyOk t" "map rp_seatNumber created = freeSeats (listJoinedPlayers rid t)"
  shows "map rp_seatNumber (sort_key rp_seatNumber (listJoinedPlayers rid t @ created)) = [1, 2, 3, 4]"
proof (rule sorted_distinct_set_unique)
  let ?joined = "listJoinedPlayers rid t"
  have same: "mset (map rp_seatNumber (sort_key rp_seatNumber (?joined @ created))) = mset (map rp_seatNumber ?joined @ freeSeats ?joined)"
    unfolding assms(2) [symmetric] by simp
  have "distinct (map rp_seatNumber ?joined @ freeSeats ?joined)"
    using joined_list(2) [OF assms(1)] by (auto simp: freeSeats_def simp del: upto_rec_numeral)
  then show "distinct (map rp_seatNumber (sort_key rp_seatNumber (?joined @ created)))"
    using mset_eq_imp_distinct_iff [OF same] by simp
  have "set (map rp_seatNumber ?joined @ freeSeats ?joined) = {1..4}"
    using joined_list(3) [OF assms(1), of rid] by (auto simp: freeSeats_def simp del: upto_rec_numeral)
  moreover have "set [1, 2, 3, 4::int] = {1..4}" by auto
  ultimately show "set (map rp_seatNumber (sort_key rp_seatNumber (?joined @ created))) = set [1, 2, 3, 4]"
    using mset_eq_setD [OF same] by simp
qed simp_all


lemma initial_state_result:
  assumes "createInitialGameState now rid code started duration m joined = Inr s"
  shows "players s = map joinPlayer joined" "joined \<noteq> []" "currentTurnRoomPlayerId s = joined_id (hd joined)"
    "mode s = m" "roomId s = rid" "phase s = Awaiting_first_turn"
  using assms by (auto simp: createInitialGameState_def Let_def jsNth_def hd_conv_nth split: if_splits)

lemma started_mode:
  assumes ok: "lobbyOk t" and humans: "\<forall>p\<in>set (listJoinedPlayers rid t). rp_playerType p = Human"
    and m: "m = roomGameMode (listJoinedPlayers rid t)"
    and bots: "bots = (if m = Casual then buildBotPlayers rid (listJoinedPlayers rid t) else [])"
    and created: "map rp_seatNumber created = map bot_seatNumber bots" "map rp_botName created = map bot_botName bots"
    and ps: "ps = sort_key rp_seatNumber (listJoinedPlayers rid t @ created)"
  shows "if 3 \<le> length (listJoinedPlayers rid t)
     then m = Ranked \<and> list_all (\<lambda>p. rp_playerType p = Human) ps
     else m = Casual \<and> map rp_seatNumber ps = [1, 2, 3, 4] \<and> distinct (List.map_filter rp_botName ps)"
proof (cases "3 \<le> length (listJoinedPlayers rid t)")
  case True
  then have "m = Ranked" using humans_only(1) [OF humans] m by simp
  moreover from this have "created = []" using bots created(1) by simp
  ultimately show ?thesis using True humans by (simp add: ps list_all_iff)
next
  case False
  let ?joined = "listJoinedPlayers rid t"
  note nameless = human_without_bot_name [OF ok humans]
  have casual: "m = Casual" "bots = buildBotPlayers rid ?joined"
    using False humans_only(1) [OF humans] m bots by simp_all
  have seats: "map rp_seatNumber created = freeSeats ?joined"
    using created(1) casual(2) buildBotPlayers_humans(1) [OF nameless] by simp
  have "length (freeSeats ?joined) \<le> length [1..4::int]" unfolding freeSeats_def by (rule length_filter_le)
  then have "distinct (map rp_botName created)" "set (map rp_botName created) \<subseteq> Some ` set BOT_NAMES"
    using bot_names_distinct [OF _ nameless, of rid] created(2) casual(2) by simp_all
  then have "distinct (List.map_filter rp_botName (?joined @ created))" 
    using nameless by (auto simp: List.map_filter_def distinct_map inj_on_def)
  moreover have "mset (List.map_filter rp_botName ps) = mset (List.map_filter rp_botName (?joined @ created))"
    by (simp add: ps List.map_filter_def)
  ultimately have "distinct (List.map_filter rp_botName ps)" using mset_eq_imp_distinct_iff by metis
  then show ?thesis using False casual(1) fill_seats [OF ok seats] by (simp add: ps)
qed

text \<open>What the transaction wrote, once more, with what it says about seats and names.\<close>

lemma started_facts:
  assumes ok: "lobbyOk t" and tx: "startRoomTx usernames mom user code difficulty t = Inr (t', r)"
  obtains room created where "startChecks user code t = Inr room" "room_id (start_room r) = room_id room"
    "games t' = games t @ [start_game r]" "roomPlayers t' = roomPlayers t @ created"
    "\<forall>p\<in>set created. joinedIn (room_id room) p" "seatRowsOk (roomPlayers t @ created)"
    "if 3 \<le> length (listJoinedPlayers (room_id room) t)
     then start_mode r = Ranked \<and> list_all (\<lambda>p. rp_playerType p = Human) (start_players r)
     else start_mode r = Casual \<and> map rp_seatNumber (start_players r) = [1, 2, 3, 4] \<and>
       distinct (List.map_filter rp_botName (start_players r))"
    "start_players r = sort_key rp_seatNumber (listJoinedPlayers (room_id room) t @ created)"
    "createInitialGameState (start_clock mom) (room_id room) (room_code room) (Some (start_roomNow mom))
       (gameDurationMinutes (start_mode r) room) (start_mode r) (map (joinedRoomPlayer usernames) (start_players r)) = Inr (start_state r)"
    "game_id (start_game r) = start_gameId mom" "game_roomId (start_game r) = room_id room"
    "game_status (start_game r) = ''active''" "game_state (start_game r) = start_state r"
    "room_id room \<notin> game_roomId ` set (games t)"
    "start_humanPlayerCount r = length (listJoinedPlayers (room_id room) t)"
    "\<forall>rid. statusOf t' rid = (if rid = room_id room then Some ''active'' else statusOf t rid)"
    "findBy game_id (start_gameId mom) (games t') = Some (start_game r)"
    "\<forall>p\<in>set created. rp_userId p = None"
proof (rule startRoomTx_result [OF ok tx])
  fix room created
  assume room: "startChecks user code t = Inr room"
    and r: "start_room r = room\<lparr>room_status := ''active'', room_startedAt := Some (start_roomNow mom)\<rparr>"
    and t': "t' = t\<lparr>roomPlayers := roomPlayers t @ created,
            rooms := updateBy room_id (room_id room) (\<lambda>r. r\<lparr>room_status := ''active'', room_startedAt := Some (start_roomNow mom)\<rparr>) (rooms t),
            games := games t @ [start_game r]\<rparr>"
    and created: "\<forall>p\<in>set created. rp_roomId p = room_id room \<and> rp_userId p = None \<and> rp_playerType p = Bot \<and> rp_status p = Joined"
    and seats: "seatRowsOk (roomPlayers t @ created)"
    and bots: "map rp_seatNumber created = map bot_seatNumber
       (if start_mode r = Casual then buildBotPlayers (room_id room) (listJoinedPlayers (room_id room) t) else [])"
      "map rp_botName created = map bot_botName
       (if start_mode r = Casual then buildBotPlayers (room_id room) (listJoinedPlayers (room_id room) t) else [])"
    and ps: "start_players r = sort_key rp_seatNumber (listJoinedPlayers (room_id room) t @ created)"
    and m: "start_mode r = roomGameMode (listJoinedPlayers (room_id room) t)"
    and rest: "createInitialGameState (start_clock mom) (room_id room) (room_code room) (Some (start_roomNow mom))
       (gameDurationMinutes (start_mode r) room) (start_mode r) (map (joinedRoomPlayer usernames) (start_players r)) = Inr (start_state r)"
      "game_id (start_game r) = start_gameId mom" "game_roomId (start_game r) = room_id room" "game_status (start_game r) = ''active''"
      "game_state (start_game r) = start_state r" "game_mode (start_game r) = start_mode r"
      "start_gameId mom \<notin> game_id ` set (games t)" "room_id room \<notin> game_roomId ` set (games t)"
    and count: "start_humanPlayerCount r = length (filter (\<lambda>p. rp_playerType p = Human) (listJoinedPlayers (room_id room) t))"
  have humans: "\<forall>p\<in>set (listJoinedPlayers (room_id room) t). rp_playerType p = Human"
    using waiting_humans [OF ok room] by blast
  have gt: "games t' = games t @ [start_game r]" "roomPlayers t' = roomPlayers t @ created" "room_id (start_room r) = room_id room"
    by (simp_all add: t' r)
  have here: "\<forall>p\<in>set created. joinedIn (room_id room) p" using created by (simp add: joinedIn_def)
  note filled = started_mode [OF ok humans m refl bots ps]
  have "start_humanPlayerCount r = length (listJoinedPlayers (room_id room) t)"
    using count humans_only(2) [OF humans] by simp
  moreover have "\<forall>rid. statusOf t' rid = (if rid = room_id room then Some ''active'' else statusOf t rid)"
  proof
    let ?f = "\<lambda>r. r\<lparr>room_status := ''active'', room_startedAt := Some (start_roomNow mom)\<rparr>"
    let ?t = "t\<lparr>rooms := updateBy room_id (room_id room) ?f (rooms t)\<rparr>"
    fix rid
    have "statusOf t' rid = statusOf ?t rid" by (simp add: t' statusOf_def)
    then show "statusOf t' rid = (if rid = room_id room then Some ''active'' else statusOf t rid)"
      using statusOf_update [of t room ?f rid] startChecks_Inr(1) [OF room] ok by (simp add: lobbyOk_def)
  qed
  moreover have "findBy game_id (start_gameId mom) (games t) = None" using rest(7) by (simp add: findBy_None_iff)
  then have "findBy game_id (start_gameId mom) (games t') = Some (start_game r)"
    using rest(2) by (simp add: gt(1) findBy_append)
  ultimately show thesis
    using that [OF room gt(3,1,2) here seats filled ps rest(1-5,8)] created by blast
qed

text \<open>
  C29. A started room is a game that can be played: in its first state, which lies ready in Redis and in the snapshots
  that a recovery reads, exactly the players who sit in the room play, in the order of their seats, and the first
  of them is to move. With three or four humans the game is ranked and has no bots; otherwise it is casual and
  bots with different names fill the seats up to four.
\<close>

theorem started_rooms_are_playable:
  assumes reach: "lobby_reachable (tables sv)"
    and start: "startRoom C usernames mom setup user code difficulty sv = (sv', Inr r)"
    and fresh: "distinct (map snapshotKey (snapshots sv))" "start_gameId mom \<notin> snap_gameId ` set (snapshots sv)"
  shows "reachable (start_state r) \<and> live C (start_gameId mom) (start_state r) sv' \<and>
    saved (start_gameId mom) (start_snapshotNow mom) (start_state r) (snapshots sv') \<and>
    statusOf (tables sv') (room_id (start_room r)) = Some ''active'' \<and>
    findActiveGameByRoomId (room_id (start_room r)) (tables sv') = Some (start_game r) \<and>
    game_id (start_game r) = start_gameId mom \<and> game_state (start_game r) = start_state r \<and>
    set (start_players r) = {p \<in> set (roomPlayers (tables sv')). joinedIn (room_id (start_room r)) p} \<and>
    map roomPlayerId (players (start_state r)) = map rp_id (start_players r) \<and>
    sorted (map rp_seatNumber (start_players r)) \<and>
    currentTurnRoomPlayerId (start_state r) = rp_id (hd (start_players r)) \<and>
    (if 3 \<le> start_humanPlayerCount r
     then start_mode r = Ranked \<and> list_all (\<lambda>p. rp_playerType p = Human) (start_players r)
     else start_mode r = Casual \<and> map rp_seatNumber (start_players r) = [1, 2, 3, 4] \<and>
       distinct (List.map_filter rp_botName (start_players r)))"
proof -
  have ok: "lobbyOk (tables sv)" using reach by (rule lobby_reachable_ok)
  obtain t where tx: "startRoomTx usernames mom user code difficulty (tables sv) = Inr (t, r)"
    and sv': "sv' = sv\<lparr>tables := t, snapshots := createStartSnapshot (start_snapshotNow mom) (game_id (start_game r)) (start_state r) (snapshots sv),
      redis := state_set C (game_id (start_game r)) (start_state r) (redis sv)\<rparr>"
    using start by (auto simp: startRoom_def Let_def split: sum.splits if_splits)
  let ?T = "tables sv"
  obtain room created where room: "startChecks user code ?T = Inr room"
    and rid: "room_id (start_room r) = room_id room"
    and t: "games t = games ?T @ [start_game r]" "roomPlayers t = roomPlayers ?T @ created"
    and bots: "\<forall>p\<in>set created. joinedIn (room_id room) p" and seats: "seatRowsOk (roomPlayers ?T @ created)"
    and filled: "if 3 \<le> length (listJoinedPlayers (room_id room) ?T)
     then start_mode r = Ranked \<and> list_all (\<lambda>p. rp_playerType p = Human) (start_players r)
     else start_mode r = Casual \<and> map rp_seatNumber (start_players r) = [1, 2, 3, 4] \<and>
       distinct (List.map_filter rp_botName (start_players r))"
    and ps: "start_players r = sort_key rp_seatNumber (listJoinedPlayers (room_id room) ?T @ created)"
    and s: "createInitialGameState (start_clock mom) (room_id room) (room_code room) (Some (start_roomNow mom))
       (gameDurationMinutes (start_mode r) room) (start_mode r) (map (joinedRoomPlayer usernames) (start_players r)) = Inr (start_state r)"
    and game: "game_id (start_game r) = start_gameId mom" "game_roomId (start_game r) = room_id room"
      "game_status (start_game r) = ''active''" "game_state (start_game r) = start_state r"
      "room_id room \<notin> game_roomId ` set (games ?T)"
    and humans: "start_humanPlayerCount r = length (listJoinedPlayers (room_id room) ?T)"
    by (rule started_facts [OF ok tx]) (rule that; assumption)
  note state = initial_state_result [OF s]
  have "joinedOk (map (joinedRoomPlayer usernames) (start_players r))" using started_ids [OF seats ps] state(2) by simp
  then have "reachable (start_state r)" using s by (rule reachable.start)
  moreover have "live C (start_gameId mom) (start_state r) sv'" by (simp add: live_def state_set_def sv' game(1))
  moreover have "saved (start_gameId mom) (start_snapshotNow mom) (start_state r) (snapshots sv')"
    using saved.start [OF fresh] by (simp add: sv' game(1))
  moreover have found: "findActiveGameByRoomId (room_id room) t = Some (start_game r)"
  proof -
    have "find (\<lambda>g. game_roomId g = room_id room \<and> game_status g = ''active'') (games ?T) = None"
      using game(5) unfolding find_None_iff by (metis imageI)
    then show ?thesis using game(2,3) by (simp add: findActiveGameByRoomId_def t(1) find_append)
  qed
  moreover have "statusOf t (room_id room) = Some ''active''"
    using playing_room [OF startRoomTx_ok [OF ok tx]] found by blast
  moreover have "set (start_players r) = {p \<in> set (roomPlayers t). joinedIn (room_id room) p}"
    using bots joined_list(1) [OF ok, of "room_id room"] by (auto simp: ps t(2))
  moreover have "map roomPlayerId (players (start_state r)) = map rp_id (start_players r)"
    "currentTurnRoomPlayerId (start_state r) = rp_id (hd (start_players r))"
    using state(1-3) by (simp_all add: joinPlayer_def joinedRoomPlayer_def comp_def hd_map)
  moreover have "sorted (map rp_seatNumber (start_players r))" by (simp add: ps)
  ultimately show ?thesis using filled humans game(1,4) rid by (simp add: sv')
qed


lemma startRoom_outcome:
  assumes "startRoomTx usernames mom user code difficulty (tables sv) = Inr (t, r)"
  shows "\<exists>sv'. startRoom C usernames mom setup user code difficulty sv =
    (sv', if redisAvailable setup \<and> queueAvailable setup then Inr r
          else Inl (InternalServerErrorException ''Game could not be started''))"
  using assms by (simp add: startRoom_def Let_def)

text \<open>User a starts the room of two players.\<close>

definition sampleMoment :: StartMoment where
  "sampleMoment = \<lparr>start_clock = 10, start_roomNow = 10, start_botIds = (\<lambda>seat. if seat = 3 then ''p3'' else ''p4''),
     start_gameId = ''g'', start_snapshotNow = 11\<rparr>"

definition lobbyServices :: "GameEngineState option Services" where
  "lobbyServices = \<lparr>redis = Map.empty, snapshots = [], eventLog = [], tables = twoPlayerLobby\<rparr>"

definition allWorks :: SetupConditions where
  "allWorks = \<lparr>redisAvailable = True, queueAvailable = True, deleteWorks = True, setup_finishedAt = 12\<rparr>"

text \<open>What decides whether the transaction commits; the initial state never does.\<close>

definition canStart :: "StartMoment \<Rightarrow> string \<Rightarrow> string \<Rightarrow> Tables \<Rightarrow> bool" where
  "canStart mom user code t =
     (case startChecks user code t of Inl _ \<Rightarrow> False | Inr room \<Rightarrow>
        let joined = listJoinedPlayers (room_id room) t;
            bots = (if roomGameMode joined = Casual then buildBotPlayers (room_id room) joined else []) in
        case addBots mom (room_id room) DEFAULT_BOT_DIFFICULTY bots t of Inl _ \<Rightarrow> False | Inr (t1, created) \<Rightarrow>
        let ps = sort_key rp_seatNumber (joined @ created) in
        snd (repo_startRoom (start_roomNow mom) (room_id room) t1) \<noteq> None \<and> ps \<noteq> [] \<and>
        list_all (\<lambda>g. game_id g \<noteq> start_gameId mom \<and> game_roomId g \<noteq> room_id room) (games t1) \<and>
        list_ex (\<lambda>p. rp_roomId p = room_id room \<and> rp_id p = rp_id (hd ps)) (roomPlayers t1))"

lemma repo_startRoom_rest:
  assumes "repo_startRoom now rid t = (t', r)"
  shows "games t' = games t" "roomPlayers t' = roomPlayers t"
  using assms by (auto simp: repo_startRoom_def updateWaitingRoom_def split: option.splits if_splits)

lemma canStart_starts:
  assumes "canStart mom user code t"
  shows "\<exists>t' r. startRoomTx usernames mom user code None t = Inr (t', r)"
proof -
  obtain room where room: "startChecks user code t = Inr room" using assms by (auto simp: canStart_def split: sum.splits)
  let ?joined = "listJoinedPlayers (room_id room) t"
  let ?bots = "if roomGameMode ?joined = Casual then buildBotPlayers (room_id room) ?joined else []"
  obtain t1 created where bots: "addBots mom (room_id room) DEFAULT_BOT_DIFFICULTY ?bots t = Inr (t1, created)"
    using assms room by (auto simp: canStart_def Let_def split: sum.splits)
  let ?ps = "sort_key rp_seatNumber (?joined @ created)"
  obtain t2 active where active: "repo_startRoom (start_roomNow mom) (room_id room) t1 = (t2, Some active)"
    using assms room bots by (cases "repo_startRoom (start_roomNow mom) (room_id room) t1") (auto simp: canStart_def Let_def)
  obtain p ps where ps: "?ps = p # ps"
    using assms room bots by (cases ?ps) (auto simp: canStart_def Let_def)
  have rows: "list_all (\<lambda>g. game_id g \<noteq> start_gameId mom \<and> game_roomId g \<noteq> room_id room) (games t2)"
    "list_ex (\<lambda>q. rp_roomId q = room_id room \<and> rp_id q = rp_id p) (roomPlayers t2)"
    using assms room bots ps repo_startRoom_rest [OF active] by (simp_all add: canStart_def Let_def)
  have fresh: "\<not> list_ex (\<lambda>g. game_id g = start_gameId mom \<or> game_roomId g = room_id room) (games t2)"
    using rows(1) by (auto simp: list_ex_iff list_all_iff)
  obtain s where s: "createInitialGameState (start_clock mom) (room_id room) (room_code room) (room_startedAt active)
      (gameDurationMinutes (roomGameMode ?joined) room) (roomGameMode ?joined) (map (joinedRoomPlayer usernames) ?ps) = Inr s"
    by (simp add: createInitialGameState_def Let_def jsNth_def ps)
  have game: "\<exists>t3 g. repo_createGame (start_gameId mom) (room_id room) m (rp_id (hd ?ps)) s x t2 = Inr (t3, g)" for m x
    unfolding ps using rows(2) fresh by (simp add: repo_createGame_def Let_def)
  then show ?thesis using s by (force simp: startRoomTx_def Let_def room bots active)
qed

lemma sample_start:
  obtains t r where "startRoomTx (\<lambda>_. None) sampleMoment ''a'' ''ABCDEFGH'' None twoPlayerLobby = Inr (t, r)"
    "start_humanPlayerCount r = 2"
proof -
  have "canStart sampleMoment ''a'' ''ABCDEFGH'' twoPlayerLobby" by code_simp
  then obtain t r where tx: "startRoomTx (\<lambda>_. None) sampleMoment ''a'' ''ABCDEFGH'' None twoPlayerLobby = Inr (t, r)"
    using canStart_starts by blast
  have ok: "lobbyOk twoPlayerLobby" using twoPlayerLobby_reachable by (rule lobby_reachable_ok)
  obtain room where room: "startChecks ''a'' ''ABCDEFGH'' twoPlayerLobby = Inr room"
    and count: "start_humanPlayerCount r = length (listJoinedPlayers (room_id room) twoPlayerLobby)"
    by (rule started_facts [OF ok tx]) (rule that; assumption)
  have "case startChecks ''a'' ''ABCDEFGH'' twoPlayerLobby of Inl _ \<Rightarrow> False | Inr room \<Rightarrow>
      length (listJoinedPlayers (room_id room) twoPlayerLobby) = 2" by code_simp
  with room count have "start_humanPlayerCount r = 2" by simp
  with tx show thesis by (rule that)
qed

theorem started_rooms_are_playable_witness:
  "\<exists>sv' r. startRoom plainCodec (\<lambda>_. None) sampleMoment allWorks ''a'' ''ABCDEFGH'' None lobbyServices = (sv', Inr r) \<and>
     reachable (start_state r) \<and> live plainCodec ''g'' (start_state r) sv' \<and> start_mode r = Casual \<and>
     map rp_seatNumber (start_players r) = [1, 2, 3, 4]"
proof -
  obtain t r where tx: "startRoomTx (\<lambda>_. None) sampleMoment ''a'' ''ABCDEFGH'' None twoPlayerLobby = Inr (t, r)"
    and two: "start_humanPlayerCount r = 2"
    by (rule sample_start)
  obtain sv' where start: "startRoom plainCodec (\<lambda>_. None) sampleMoment allWorks ''a'' ''ABCDEFGH'' None lobbyServices = (sv', Inr r)"
    using startRoom_outcome [of "\<lambda>_. None" sampleMoment "''a''" "''ABCDEFGH''" None lobbyServices t r plainCodec allWorks] tx
    by (auto simp: lobbyServices_def allWorks_def)
  have sample: "lobby_reachable (tables lobbyServices)" "distinct (map snapshotKey (snapshots lobbyServices))"
    "start_gameId sampleMoment \<notin> snap_gameId ` set (snapshots lobbyServices)" "start_gameId sampleMoment = ''g''"
    using twoPlayerLobby_reachable by (simp_all add: lobbyServices_def sampleMoment_def)
  note all = started_rooms_are_playable [OF sample(1) start sample(2,3), unfolded sample(4)]
  then have "reachable (start_state r)" "live plainCodec ''g'' (start_state r) sv'" by blast+
  moreover from all have "if 3 \<le> start_humanPlayerCount r
     then start_mode r = Ranked \<and> list_all (\<lambda>p. rp_playerType p = Human) (start_players r)
     else start_mode r = Casual \<and> map rp_seatNumber (start_players r) = [1, 2, 3, 4] \<and>
       distinct (List.map_filter rp_botName (start_players r))" by blast
  ultimately show ?thesis using start two by (intro exI [of _ sv'] exI [of _ r]) simp
qed

section \<open>A start that fails\<close>

lemma cancelStartedGame_status:
  assumes "statusOf t rid = Some ''active''"
  shows "statusOf (cancelStartedGame now rid gid t) rid' = (if rid' = rid then Some ''cancelled'' else statusOf t rid')"
proof -
  let ?f = "\<lambda>r. if room_id r = rid \<and> room_status r = ''active'' then cancelled now r else r"
  have "statusOf (cancelStartedGame now rid gid t) rid' = statusOf (t\<lparr>rooms := map ?f (rooms t)\<rparr>) rid'"
    by (simp add: cancelStartedGame_def statusOf_def)
  also have "\<dots> = map_option (\<lambda>r. room_status (?f r)) (findBy room_id rid' (rooms t))"
    by (rule statusOf_map) simp
  finally show ?thesis
    using assms by (cases "findBy room_id rid' (rooms t)") (auto simp: statusOf_def cancelled_def dest: findBy_SomeD)
qed

lemma nowhere_else:
  assumes ok: "lobbyOk t" and p: "p \<in> set (roomPlayers t)" "joinedIn rid p" "rp_userId p = Some user" and "roomOpen t rid"
    and t': "roomPlayers t' = roomPlayers t @ created" "\<forall>q\<in>set created. rp_userId q = None"
    and st: "\<forall>r. roomOpen t' r \<longrightarrow> r \<noteq> rid \<and> roomOpen t r"
  shows "findActiveRoomForUser user t' = None"
  unfolding noActiveRoom
proof (intro ballI impI notI)
  fix q assume q: "q \<in> set (roomPlayers t')" "rp_userId q = Some user \<and> rp_status q = Joined" "roomOpen t' (rp_roomId q)"
  have row: "q \<in> set (roomPlayers t)" using q t' by auto
  have "sitsTwice t p q" using p q assms(5) st by (simp add: sitsTwice_def joinedIn_def)
  then have "p = q" using one_open_room [of t p q] ok p(1) row by (simp add: lobbyOk_def)
  then show False using q(3) p(2) st by (auto simp: joinedIn_def)
qed

lemma undone_start:
  assumes reach: "lobby_reachable t" and tx: "startRoomTx usernames mom user code difficulty t = Inr (t1, r)"
    and t2: "t2 = cancelStartedGame now (room_id (start_room r)) (start_gameId mom) t1"
  shows "lobby_reachable t2 \<and>
    (\<exists>room. findRoomByCode code t = Some room \<and> statusOf t2 (room_id room) = Some ''cancelled'' \<and>
       findActiveGameByRoomId (room_id room) t2 = None \<and>
       (\<forall>p\<in>set (roomPlayers t). joinedIn (room_id room) p \<longrightarrow>
          (\<exists>u. rp_userId p = Some u \<and> findActiveRoomForUser u t2 = None)))"
proof -
  have ok: "lobbyOk t" using reach by (rule lobby_reachable_ok)
  obtain room created where room: "startChecks user code t = Inr room" and rid: "room_id (start_room r) = room_id room"
    and rows: "roomPlayers t1 = roomPlayers t @ created" "\<forall>p\<in>set created. rp_userId p = None"
    and game: "findBy game_id (start_gameId mom) (games t1) = Some (start_game r)" "game_roomId (start_game r) = room_id room"
    and st1: "\<forall>rid. statusOf t1 rid = (if rid = room_id room then Some ''active'' else statusOf t rid)"
    by (rule started_facts [OF ok tx]) (rule that; assumption)
  note here = startChecks_Inr [OF room]
  have rooms: "roomRowsOk (rooms t)" using ok by (simp add: lobbyOk_def)
  have waiting: "statusOf t (room_id room) = Some ''waiting''"
    using roomRowsD(1) [OF rooms here(1)] here(3) by (simp add: statusOf_def)
  have st2: "statusOf t2 rid' = (if rid' = room_id room then Some ''cancelled'' else statusOf t rid')" for rid'
    using cancelStartedGame_status [of t1 "room_id room" now "start_gameId mom" rid'] st1 by (simp add: t2 rid)
  have reach2: "lobby_reachable t2"
    using lobby_reachable.step [OF lobby_reachable.step [OF reach lobby_step.started [OF tx]] lobby_step.start_failed [OF game(1)]]
    by (simp add: t2 rid game(2))
  moreover have "findRoomByCode code t = Some room"
    using roomRowsD(2) [OF rooms here(1)] here(2) by (simp add: findRoomByCode_def)
  moreover have "findActiveGameByRoomId (room_id room) t2 = None"
    using playing_room [OF lobby_reachable_ok [OF reach2], of "room_id room"] st2 by (cases "findActiveGameByRoomId (room_id room) t2") auto
  moreover have "\<exists>u. rp_userId p = Some u \<and> findActiveRoomForUser u t2 = None"
    if p: "p \<in> set (roomPlayers t)" "joinedIn (room_id room) p" for p
  proof -
    have "rp_playerType p = Human" using waiting_humans [OF ok room] joined_list(1) [OF ok] p by auto
    then obtain u where u: "rp_userId p = Some u"
      using ok p(1) by (auto simp: lobbyOk_def seatRowsOk_def list_all_iff roomPlayerCheck_def)
    have "findActiveRoomForUser u t2 = None"
    proof (rule nowhere_else [OF ok p u])
      show "roomOpen t (room_id room)" using waiting by (simp add: roomOpen_def)
      show "roomPlayers t2 = roomPlayers t @ created" by (simp add: t2 cancelStartedGame_def rows(1))
      show "\<forall>r. roomOpen t2 r \<longrightarrow> r \<noteq> room_id room \<and> roomOpen t r" using st2 by (auto simp: roomOpen_def)
    qed (rule rows(2))
    with u show ?thesis by blast
  qed
  ultimately show ?thesis using st2 [of "room_id room"] by auto
qed

text \<open>
  C30. A room that cannot be started is left as it was: an exception of the transaction changes nothing. When Redis or
  the timers fail after it, the room and its game are cancelled, every player of the room is free to enter another one,
  no other key of Redis is touched and the state is gone from Redis if it can be deleted.
\<close>

theorem failed_starts_are_undone:
  assumes reach: "lobby_reachable (tables sv)"
    and start: "startRoom C usernames mom setup user code difficulty sv = (sv', Inl e)"
  shows "startRoomTx usernames mom user code difficulty (tables sv) = Inl e \<and> sv' = sv \<or>
    e = InternalServerErrorException ''Game could not be started'' \<and> lobby_reachable (tables sv') \<and>
    (\<exists>room. findRoomByCode code (tables sv) = Some room \<and> statusOf (tables sv') (room_id room) = Some ''cancelled'' \<and>
       findActiveGameByRoomId (room_id room) (tables sv') = None \<and>
       (\<forall>p\<in>set (roomPlayers (tables sv)). joinedIn (room_id room) p \<longrightarrow>
          (\<exists>u. rp_userId p = Some u \<and> findActiveRoomForUser u (tables sv') = None))) \<and>
    (deleteWorks setup \<longrightarrow> redis sv' (stateKey (start_gameId mom)) = None) \<and>
    (\<forall>k. k \<noteq> stateKey (start_gameId mom) \<longrightarrow> redis sv' k = redis sv k)"
proof (cases "startRoomTx usernames mom user code difficulty (tables sv)")
  case (Inl e')
  then show ?thesis using start by (simp add: startRoom_def)
next
  case (Inr x)
  then obtain t r where tx: "startRoomTx usernames mom user code difficulty (tables sv) = Inr (t, r)" by (cases x) auto
  have gid: "game_id (start_game r) = start_gameId mom"
    by (rule started_facts [OF lobby_reachable_ok [OF reach] tx])
  have e: "e = InternalServerErrorException ''Game could not be started''"
    and tables: "tables sv' = cancelStartedGame (setup_finishedAt setup) (room_id (start_room r)) (start_gameId mom) t"
    and key: "deleteWorks setup \<longrightarrow> redis sv' (stateKey (start_gameId mom)) = None"
    and others: "\<forall>k. k \<noteq> stateKey (start_gameId mom) \<longrightarrow> redis sv' k = redis sv k"
    using start tx gid
    by (auto simp: startRoom_def Let_def cancelStartedGameAfterSetupFailure_def state_delete_def state_set_def split: if_splits)
  show ?thesis using e key others undone_start [OF reach tx tables] by blast
qed


text \<open>The same start while the queue of the timers is down.\<close>

theorem failed_starts_are_undone_witness:
  "\<exists>sv'. startRoom plainCodec (\<lambda>_. None) sampleMoment (allWorks\<lparr>queueAvailable := False\<rparr>) ''a'' ''ABCDEFGH'' None lobbyServices =
       (sv', Inl (InternalServerErrorException ''Game could not be started'')) \<and>
     lobby_reachable (tables sv') \<and> redis sv' (stateKey ''g'') = None"
proof -
  let ?e = "InternalServerErrorException ''Game could not be started''"
  obtain t r where tx: "startRoomTx (\<lambda>_. None) sampleMoment ''a'' ''ABCDEFGH'' None twoPlayerLobby = Inr (t, r)"
    by (rule sample_start)
  obtain sv' where start: "startRoom plainCodec (\<lambda>_. None) sampleMoment (allWorks\<lparr>queueAvailable := False\<rparr>) ''a'' ''ABCDEFGH'' None
      lobbyServices = (sv', Inl ?e)"
    using startRoom_outcome [of "\<lambda>_. None" sampleMoment "''a''" "''ABCDEFGH''" None lobbyServices t r plainCodec "allWorks\<lparr>queueAvailable := False\<rparr>"] tx
    by (auto simp: lobbyServices_def allWorks_def)
  have sample: "lobby_reachable (tables lobbyServices)" "deleteWorks (allWorks\<lparr>queueAvailable := False\<rparr>)"
      "start_gameId sampleMoment = ''g''" "tables lobbyServices = twoPlayerLobby"
    using twoPlayerLobby_reachable by (simp_all add: lobbyServices_def allWorks_def sampleMoment_def)
  show ?thesis using start tx sample(2-4) failed_starts_are_undone [OF sample(1) start] by auto
qed

section \<open>Joining\<close>

lemma firstFreeSeat:
  assumes "distinct seats" "set seats \<subseteq> {1..4}"
  shows "findFirstFreeSeat seats = None \<longleftrightarrow> length seats = 4"
    "findFirstFreeSeat seats = Some n \<Longrightarrow> n \<notin> set seats \<and> 1 \<le> n \<and> n \<le> 4 \<and> {1..<n} \<subseteq> set seats"
proof -
  have "findFirstFreeSeat seats = None \<longleftrightarrow> {1..4} \<subseteq> set seats"
    by (auto simp: findFirstFreeSeat_def ROOM_MAX_PLAYERS_def find_None_iff simp del: upto_rec_numeral)
  also have "\<dots> \<longleftrightarrow> card (set seats) = card {1..4::int}"
    using assms(2) by (metis card_subset_eq finite_atLeastAtMost_int order.antisym order_refl)
  finally show "findFirstFreeSeat seats = None \<longleftrightarrow> length seats = 4" using distinct_card [OF assms(1)] by simp
  assume "findFirstFreeSeat seats = Some n"
  then have n: "n = 1 \<and> 1 \<notin> set seats \<or> n = 2 \<and> 1 \<in> set seats \<and> 2 \<notin> set seats \<or>
      n = 3 \<and> 1 \<in> set seats \<and> 2 \<in> set seats \<and> 3 \<notin> set seats \<or>
      n = 4 \<and> 1 \<in> set seats \<and> 2 \<in> set seats \<and> 3 \<in> set seats \<and> 4 \<notin> set seats"
    unfolding findFirstFreeSeat_def ROOM_MAX_PLAYERS_def by (auto simp: upto_rec_numeral upto.simps split: if_splits)
  have ranges: "{1..<1::int} = {}" "{1..<2::int} = {1}" "{1..<3::int} = {1, 2}" "{1..<4} = {1, 2, 3::int}" by auto
  show "n \<notin> set seats \<and> 1 \<le> n \<and> n \<le> 4 \<and> {1..<n} \<subseteq> set seats" using n by (auto simp only: ranges)
qed

lemma sits_there:
  assumes "findActiveRoomForUser user t = None" "rp_userId p = Some user" "rp_status p = Joined"
    and "findBy room_id (rp_roomId p) (rooms t) = Some room" "isActiveRoom room"
  shows "findActiveRoomForUser user (t\<lparr>roomPlayers := roomPlayers t @ [p]\<rparr>) = Some room"
proof -
  let ?sits = "\<lambda>p. rp_userId p = Some user \<and> rp_status p = Joined \<and>
     (case findBy room_id (rp_roomId p) (rooms t) of None \<Rightarrow> False | Some r \<Rightarrow> isActiveRoom r)"
  have "filter ?sits (roomPlayers t) = []"
    using assms(1) by (auto simp: noActiveRoom filter_empty_conv roomOpen_find split: option.splits)
  then have "filter ?sits (roomPlayers t @ [p]) = [p]" using assms(2-5) by simp
  then show ?thesis using assms(4) by (simp add: findActiveRoomForUser_def List.map_filter_simps)
qed

lemma seat_is_free:
  assumes ok: "lobbyOk t" and fresh: "pid \<notin> rp_id ` set (roomPlayers t)" "pid \<noteq> []"
    and free: "findActiveRoomForUser user t = None" and room: "findBy room_id rid (rooms t) = Some room" "isActiveRoom room"
    and seat: "seat \<notin> set (map rp_seatNumber (listJoinedPlayers rid t))" "1 \<le> seat" "seat \<le> 4"
  shows "\<exists>p. addHumanPlayer pid now rid user seat t = Inr (t\<lparr>roomPlayers := roomPlayers t @ [p]\<rparr>) \<and>
    rp_userId p = Some user \<and> rp_status p = Joined \<and> rp_roomId p = rid \<and> rp_seatNumber p = seat"
proof -
  let ?p = "\<lparr>rp_id = pid, rp_roomId = rid, rp_userId = Some user, rp_playerType = Human, rp_botDifficulty = None,
    rp_botName = None, rp_seatNumber = seat, rp_status = Joined, rp_joinedAt = now, rp_leftAt = None\<rparr>"
  have "\<not> roomPlayersClash ?p q" if q: "q \<in> set (roomPlayers t)" for q
  proof
    assume clash: "roomPlayersClash ?p q"
    have "rp_id q \<noteq> pid" using fresh(1) q by (metis imageI)
    then have here: "joinedIn rid q" and "rp_userId q = Some user \<or> rp_seatNumber q = seat"
      using clash by (auto simp: roomPlayersClash_def joinedIn_def)
    moreover have "rp_seatNumber q \<noteq> seat" using here q seat(1) joined_list(1) [OF ok, of rid] by auto
    moreover have "roomOpen t rid" using room by (auto simp: roomOpen_find)
    ultimately show False using free q by (auto simp: noActiveRoom joinedIn_def)
  qed
  then have "insertRoomPlayer ?p t = Inr (t\<lparr>roomPlayers := roomPlayers t @ [?p]\<rparr>)"
    using fresh(2) seat(2,3) by (simp add: insertRoomPlayer_Inr roomPlayerCheck_def)
  then show ?thesis by (intro exI [of _ ?p]) (simp add: addHumanPlayer_def)
qed

text \<open>
  A user joins a room exactly when nothing speaks against it: the user sits in no open room, the room exists, is
  waiting, is younger than an hour and has a seat left. Then the user gets the lowest free seat and is from now on in
  this room; a seat is never found taken after it was found free. Otherwise the answer names the first of these reasons.
\<close>

theorem joining_a_room:
  assumes reach: "lobby_reachable t" and fresh: "pid \<notin> rp_id ` set (roomPlayers t)" "pid \<noteq> []"
  shows "case joinRoomTx user code pid now t of
    Inl e \<Rightarrow>
      if findActiveRoomForUser user t \<noteq> None then e = ConflictException ''You are already in an active room''
      else (case findRoomByCode code t of
              None \<Rightarrow> e = NotFoundException ''Room not found''
            | Some room \<Rightarrow>
                if room_status room \<noteq> ''waiting'' \<or> room_createdAt room + 3600000 \<le> now then e = ConflictException ''Room is not open''
                else e = ConflictException ''Room is full'' \<and> length (filter (joinedIn (room_id room)) (roomPlayers t)) = 4)
  | Inr (t', room, seat) \<Rightarrow>
      findActiveRoomForUser user t = None \<and> findRoomByCode code t = Some room \<and> room_status room = ''waiting'' \<and>
      now < room_createdAt room + 3600000 \<and> findActiveRoomForUser user t' = Some room \<and>
      map rp_seatNumber (filter (joinedIn (room_id room)) (roomPlayers t')) =
        map rp_seatNumber (filter (joinedIn (room_id room)) (roomPlayers t)) @ [seat] \<and>
      seat \<notin> set (map rp_seatNumber (filter (joinedIn (room_id room)) (roomPlayers t))) \<and>
      {1..<seat} \<subseteq> set (map rp_seatNumber (filter (joinedIn (room_id room)) (roomPlayers t)))"
proof -
  have ok: "lobbyOk t" using reach by (rule lobby_reachable_ok)
  show ?thesis
  proof (cases "findActiveRoomForUser user t = None \<and> (\<exists>room. findRoomByCode code t = Some room \<and>
      room_status room = ''waiting'' \<and> \<not> isExpiredWaitingRoom now room)")
    case False
    note defs = joinRoomTx_def ensureUserHasNoActiveRoom_def lockRoomByCode_def findRoomByCode_def isExpiredWaitingRoom_def
      WAITING_ROOM_EXPIRY_MS_def raiseIf_def
    show ?thesis
    proof (cases "findActiveRoomForUser user t = None")
      case True
      with False show ?thesis by (cases "findBy room_code code (rooms t)") (auto simp: defs)
    qed (simp add: defs)
  next
    case True
    then obtain room :: RoomRow where free: "findActiveRoomForUser user t = None" and room: "findRoomByCode code t = Some room"
      "room_status room = ''waiting''" "\<not> isExpiredWaitingRoom now room" by blast
    let ?rid = "room_id room" and ?seats = "map rp_seatNumber (listJoinedPlayers (room_id room) t)"
    have young: "now < room_createdAt room + 3600000" using room by (simp add: isExpiredWaitingRoom_def WAITING_ROOM_EXPIRY_MS_def)
    have found: "findBy room_id ?rid (rooms t) = Some room" "isActiveRoom room"
      using roomRowsD(1) [of "rooms t" room] room ok by (auto simp: findRoomByCode_def lobbyOk_def isActiveRoom_iff dest: findBy_SomeD)
    note js = joined_list [OF ok, of ?rid]
    note seats = firstFreeSeat [OF js(2,3)]
    have tx: "joinRoomTx user code pid now t = (case findFirstFreeSeat ?seats of None \<Rightarrow> Inl (ConflictException ''Room is full'')
      | Some seat \<Rightarrow> (case addHumanPlayer pid now ?rid user seat t of
          Inl e \<Rightarrow> if isSeatUniqueViolation e then Inl (ConflictException ''Room seat is no longer available'') else Inl e
        | Inr t' \<Rightarrow> Inr (t', room, seat)))"
      using free room by (simp add: joinRoomTx_def ensureUserHasNoActiveRoom_def lockRoomByCode_def findRoomByCode_def split: option.split)
    show ?thesis
    proof (cases "findFirstFreeSeat ?seats")
      case None
      then show ?thesis using seats(1) js(4) room free young by (simp add: tx)
    next
      case (Some seat)
      note s = seats(2) [OF Some]
      obtain p where p: "addHumanPlayer pid now ?rid user seat t = Inr (t\<lparr>roomPlayers := roomPlayers t @ [p]\<rparr>)"
        "rp_userId p = Some user" "rp_status p = Joined" "rp_roomId p = ?rid" "rp_seatNumber p = seat"
        using seat_is_free [OF ok fresh free found, of seat now] s by auto
      have same: "set ?seats = set (map rp_seatNumber (filter (joinedIn ?rid) (roomPlayers t)))" by (simp add: js(1))
      show ?thesis
        using Some s p free room young sits_there [OF free p(2,3) _ found(2)] found(1) unfolding same
        by (simp add: tx joinedIn_def)
    qed
  qed
qed


text \<open>User b enters the open room of user a.\<close>

theorem joining_a_room_witness:
  "findActiveRoomForUser ''b'' openLobby = None \<and>
   (\<exists>t' room. joinRoomTx ''b'' ''ABCDEFGH'' ''pb'' 5 openLobby = Inr (t', room, 2) \<and> findActiveRoomForUser ''b'' t' = Some room)"
proof -
  obtain t' room where join: "joinRoomTx ''b'' ''ABCDEFGH'' ''pb'' 5 openLobby = Inr (t', room, 2)"
    using sample_lobby_facts(2) by (auto split: sum.splits)
  have "list_all (\<lambda>p. rp_id p \<noteq> ''pb'') (roomPlayers openLobby)" by code_simp
  then have "''pb'' \<notin> rp_id ` set (roomPlayers openLobby)" by (auto simp: list_all_iff)
  from joining_a_room [OF openLobby_reachable this, where user = "''b''" and code = "''ABCDEFGH''" and now = 5] join show ?thesis by simp
qed

end
