(* ===== verification/Auth_Sessions.thy ===== *)
theory Auth_Sessions
  imports Auth_Service
begin

text \<open>
  Which sessions live and which tokens are accepted, whatever users, admins and attackers do and in whatever order their
  transactions run. Time only passes; a hash that was ever stored is never drawn again.
\<close>

section \<open>Transactions\<close>

inductive auth_step :: "int \<Rightarrow> string set \<Rightarrow> AuthDb \<Rightarrow> int \<Rightarrow> string set \<Rightarrow> AuthDb \<Rightarrow> bool" where
  signed_up: "now \<le> now' \<Longrightarrow> createUser freshId now' mailAddress name pwHash d = Inr (d', u) \<Longrightarrow> auth_step now seen d now' seen d'"
| verified: "now \<le> now' \<Longrightarrow> auth_step now seen d now' seen (markEmailVerified now' uid d)"
| oauth_user: "now \<le> now' \<Longrightarrow> oauthUserTx now' freshId suffix p d = Inr (d', x) \<Longrightarrow> auth_step now seen d now' seen d'"
| oauth_mail: "now \<le> now' \<Longrightarrow> auth_step now seen d now' seen (updateOAuthAccountEmail now' pr account mailAddress d)"
| signed_in: "now \<le> now' \<Longrightarrow> createSessionTx now' sid uid h (refreshExpiry now') ctx d = Inr (d', y) \<Longrightarrow> h \<notin> seen \<Longrightarrow>
    auth_step now seen d now' (insert h seen) d'"
| rotated: "now \<le> now' \<Longrightarrow> rotateSessionRefreshToken now' sid h h' (refreshExpiry now') d = Inr (d', z) \<Longrightarrow> h' \<notin> seen \<Longrightarrow>
    auth_step now seen d now' (insert h' seen) d'"
| logged_out: "now \<le> now' \<Longrightarrow> auth_step now seen d now' seen (revokeSession now' h d)"
| reset: "now \<le> now' \<Longrightarrow> resetPasswordTx now' uid pwHash d = Inr (d', v) \<Longrightarrow> auth_step now seen d now' seen d'"
| updated: "now \<le> now' \<Longrightarrow> updateUser now' uid nm bio d = Inr (d', w) \<Longrightarrow> auth_step now seen d now' seen d'"
| deleted: "now \<le> now' \<Longrightarrow> auth_step now seen d now' seen (fst (deleteMeTx now' uid d))"
| status: "now \<le> now' \<Longrightarrow> updateUserStatusTx now' me name st d = Inr (d', a) \<Longrightarrow> auth_step now seen d now' seen d'"
| restored: "now \<le> now' \<Longrightarrow> restoreDeletedUserTx now' me name d = Inr (d', b) \<Longrightarrow> auth_step now seen d now' seen d'"

inductive auth_steps :: "int \<Rightarrow> string set \<Rightarrow> AuthDb \<Rightarrow> int \<Rightarrow> string set \<Rightarrow> AuthDb \<Rightarrow> bool" for now seen d where
  none: "auth_steps now seen d now seen d"
| more: "auth_steps now seen d n1 s1 d1 \<Longrightarrow> auth_step n1 s1 d1 n2 s2 d2 \<Longrightarrow> auth_steps now seen d n2 s2 d2"

definition emptyDb :: AuthDb where
  "emptyDb = \<lparr>users = [], sessions = [], oauthAccounts = []\<rparr>"

definition auth_reachable :: "int \<Rightarrow> string set \<Rightarrow> AuthDb \<Rightarrow> bool" where
  "auth_reachable now seen d \<longleftrightarrow> (\<exists>start. auth_steps start {} emptyDb now seen d)"

text \<open>A small history: Ann signs up, verifies her address and signs in.\<close>

definition sampleUser :: UserRow where
  "sampleUser = (newUser ''u1'' 0 ''ann@post'' ''ann'' (Some ''#old'') False)\<lparr>emailVerified := True\<rparr>"

definition sampleSession :: SessionRow where
  "sampleSession = \<lparr>session_id = ''s1'', session_userId = ''u1'', refreshTokenHash = ''t0'',
     session_context = \<lparr>context_ip = None, context_userAgent = None\<rparr>, session_createdAt = 0, lastUsedAt = 0,
     session_expiresAt = refreshExpiry 0, revokedAt = None\<rparr>"

definition sampleDb :: AuthDb where
  "sampleDb = \<lparr>users = [sampleUser], sessions = [sampleSession], oauthAccounts = []\<rparr>"

definition sampleCrypto :: Crypto where
  "sampleCrypto = \<lparr>hashToken = \<lambda>t. t, hashPassword = \<lambda>salt p. CHR ''#'' # p, verifyPassword = \<lambda>h p. h = CHR ''#'' # p\<rparr>"

definition sampleState :: AuthState where
  "sampleState = \<lparr>db = sampleDb, cache = (\<lambda>_. None), mails = [], cleanups = [], searchVersionBumps = 0\<rparr>"

lemma sample_reachable: "auth_reachable 0 {''t0''} sampleDb"
proof -
  let ?u = "newUser ''u1'' 0 ''ann@post'' ''ann'' (Some ''#old'') False"
  let ?d1 = "emptyDb\<lparr>users := [?u]\<rparr>" and ?d2 = "emptyDb\<lparr>users := [sampleUser]\<rparr>"
  have "createUser ''u1'' 0 ''ann@post'' ''ann'' ''#old'' emptyDb = Inr (?d1, ?u)"
    by (simp add: createUser_def insertUser_def newUser_def userCheck_def toLowerCase_def lowerChar_def emptyDb_def Let_def)
  then have 1: "auth_step 0 {} emptyDb 0 {} ?d1" by (rule auth_step.signed_up [OF order_refl])
  have "markEmailVerified 0 ''u1'' ?d1 = ?d2"
    by (simp add: markEmailVerified_def updateWhere_def sampleUser_def newUser_def)
  then have 2: "auth_step 0 {} ?d1 0 {} ?d2" using auth_step.verified [of 0 0 "{}" ?d1 "''u1''"] by simp
  have "createSessionTx 0 ''s1'' ''u1'' ''t0'' (refreshExpiry 0) \<lparr>context_ip = None, context_userAgent = None\<rparr> ?d2 =
      Inr (sampleDb, sampleSession, None)"
    by (simp add: createSessionTx_def createSession_def maxActiveSessions_def countActiveSessions_def sampleDb_def
        sampleSession_def emptyDb_def Let_def)
  then have 3: "auth_step 0 {} ?d2 0 {''t0''} sampleDb" by (rule auth_step.signed_in [OF order_refl]) simp
  show ?thesis unfolding auth_reachable_def using auth_steps.more [OF auth_steps.more [OF auth_steps.more [OF auth_steps.none 1] 2] 3]
    by blast
qed

section \<open>What a step does to sessions\<close>

lemma updateSessions_eq [simp]:
  "updateSessions P f d = (d\<lparr>sessions := map (\<lambda>s. if P s then f s else s) (sessions d)\<rparr>, map f (filter P (sessions d)))"
  by (simp add: updateSessions_def updateWhere_def)

lemma updateUsers_eq [simp]:
  "updateUsers P f d = (d\<lparr>users := map (\<lambda>u. if P u then f u else u) (users d)\<rparr>, firstRow (map f (filter P (users d))))"
  by (simp add: updateUsers_def updateWhere_def)

text \<open>A change that keeps every session what it is, except that it may end.\<close>

definition onlyEnds :: "AuthDb \<Rightarrow> AuthDb \<Rightarrow> bool" where
  "onlyEnds d d' \<longleftrightarrow> (\<exists>f. sessions d' = map f (sessions d) \<and>
     (\<forall>s. session_id (f s) = session_id s \<and> refreshTokenHash (f s) = refreshTokenHash s \<and>
        session_userId (f s) = session_userId s \<and> (\<forall>n. sessionLive n (f s) \<longrightarrow> sessionLive n s)))"

lemma onlyEnds_same: "sessions d' = sessions d \<Longrightarrow> onlyEnds d d'"
  by (auto simp: onlyEnds_def intro: exI [of _ id])

lemma onlyEnds_revoke:
  "sessions d' = map (\<lambda>s. if P s then s\<lparr>revokedAt := Some now\<rparr> else s) (sessions d) \<Longrightarrow> onlyEnds d d'"
  unfolding onlyEnds_def
  by (intro exI [of _ "\<lambda>s. if P s then s\<lparr>revokedAt := Some now\<rparr> else s"]) (simp add: sessionLive_def)

lemma insertUser_sessions: "insertUser u d = Inr d' \<Longrightarrow> sessions d' = sessions d"
  by (auto simp: insertUser_def split: if_splits)

lemma linkOAuth_sessions: "linkOAuthAccount now uid p account m d = Inr d' \<Longrightarrow> sessions d' = sessions d"
  by (auto simp: linkOAuthAccount_def split: if_splits)

lemma oauthUserTx_sessions: "oauthUserTx now freshId suffix p d = Inr (d', x) \<Longrightarrow> sessions d' = sessions d"
  by (cases "findUserByEmail (profile_email p) d")
    (auto simp: oauthUserTx_def createOAuthUser_def Let_def markEmailVerified_def split: if_splits
      dest!: insertUser_sessions linkOAuth_sessions)

lemma deleteMe_ends: "onlyEnds d (fst (deleteMeTx now uid d))"
proof (cases "snd (deleteUser now uid d)")
  case None
  then have "sessions (fst (deleteMeTx now uid d)) = sessions d" by (simp add: deleteMeTx_def deleteUser_def)
  then show ?thesis by (rule onlyEnds_same)
next
  case (Some u)
  then have "sessions (fst (deleteMeTx now uid d)) =
      map (\<lambda>s. if session_userId s = uid \<and> revokedAt s = None then s\<lparr>revokedAt := Some now\<rparr> else s) (sessions d)"
    by (simp add: deleteMeTx_def deleteUser_def revokeUserSessions_def)
  then show ?thesis by (rule onlyEnds_revoke)
qed

lemma reset_ends:
  assumes "resetPasswordTx now uid pwHash d = Inr (d', v)"
  shows "onlyEnds d d'"
proof -
  have "sessions d' = map (\<lambda>s. if session_userId s = uid \<and> revokedAt s = None then s\<lparr>revokedAt := Some now\<rparr> else s) (sessions d)"
    using assms by (cases "snd (updatePassword now uid pwHash d)")
      (auto simp: resetPasswordTx_def updatePassword_def revokeUserSessions_def)
  then show ?thesis by (rule onlyEnds_revoke)
qed

lemma status_ends:
  assumes "updateUserStatusTx now me name st d = Inr (d', a)"
  shows "onlyEnds d d'"
proof (cases "admin_findUserByUsername name d")
  case None
  then show ?thesis using assms by (intro onlyEnds_same) (simp add: updateUserStatusTx_def)
next
  case (Some u)
  show ?thesis
  proof (cases "st = User_suspended")
    case True
    then have "sessions d' = map (\<lambda>s. if session_userId s = user_id u \<and> revokedAt s = None then s\<lparr>revokedAt := Some now\<rparr> else s) (sessions d)"
      using assms Some by (auto simp: updateUserStatusTx_def repo_updateUserStatus_def revokeUserSessions_def split: if_splits)
    then show ?thesis by (rule onlyEnds_revoke)
  next
    case False
    then have "sessions d' = sessions d"
      using assms Some by (auto simp: updateUserStatusTx_def repo_updateUserStatus_def split: if_splits)
    then show ?thesis by (rule onlyEnds_same)
  qed
qed

lemma plain_ends:
  "createUser freshId now m n pw d = Inr (d', u) \<Longrightarrow> onlyEnds d d'" "oauthUserTx now freshId suffix p d = Inr (d', x) \<Longrightarrow> onlyEnds d d'"
  "onlyEnds d (markEmailVerified now uid d)" "onlyEnds d (updateOAuthAccountEmail now pr account m d)"
  "onlyEnds d (revokeSession now h d)" "updateUser now uid nm bio d = Inr (d', w) \<Longrightarrow> onlyEnds d d'"
  "restoreDeletedUserTx now me name d = Inr (d', b) \<Longrightarrow> onlyEnds d d'"
proof -
  show "createUser freshId now m n pw d = Inr (d', u) \<Longrightarrow> onlyEnds d d'"
    by (auto simp: createUser_def Let_def intro!: onlyEnds_same dest: insertUser_sessions)
  show "onlyEnds d (revokeSession now h d)"
    by (rule onlyEnds_revoke [of _ "\<lambda>s. refreshTokenHash s = h \<and> revokedAt s = None" now]) (simp add: revokeSession_def)
  show "restoreDeletedUserTx now me name d = Inr (d', b) \<Longrightarrow> onlyEnds d d'"
    by (cases "findDeletedUserByUsername name d")
      (auto simp: restoreDeletedUserTx_def repo_restoreDeletedUser_def intro!: onlyEnds_same split: if_splits)
  show "updateUser now uid nm bio d = Inr (d', w) \<Longrightarrow> onlyEnds d d'"
    by (rule onlyEnds_same) (auto simp: updateUser_def Let_def split: if_splits)
qed (auto simp: markEmailVerified_def updateOAuthAccountEmail_def intro!: onlyEnds_same dest: oauthUserTx_sessions)

lemma step_cases:
  assumes "auth_step now seen d now' seen' d'"
  shows "now \<le> now' \<and> (seen' = seen \<and> onlyEnds d d' \<or>
    (\<exists>h sid uid ctx y. h \<notin> seen \<and> seen' = insert h seen \<and> createSessionTx now' sid uid h (refreshExpiry now') ctx d = Inr (d', y)) \<or>
    (\<exists>h' sid h z. h' \<notin> seen \<and> seen' = insert h' seen \<and> rotateSessionRefreshToken now' sid h h' (refreshExpiry now') d = Inr (d', z)))"
  using assms by cases (blast intro: plain_ends deleteMe_ends reset_ends status_ends)+

section \<open>At most three live sessions\<close>

definition sessionsOk :: "int \<Rightarrow> string set \<Rightarrow> AuthDb \<Rightarrow> bool" where
  "sessionsOk now seen d \<longleftrightarrow> distinct (map session_id (sessions d)) \<and> distinct (map refreshTokenHash (sessions d)) \<and>
     refreshTokenHash ` set (sessions d) \<subseteq> seen \<and> (\<forall>uid. countActiveSessions now uid d \<le> 3)"

lemma length_filter_map_le:
  "(\<And>x. x \<in> set xs \<Longrightarrow> P (f x) \<Longrightarrow> Q x) \<Longrightarrow> length (filter P (map f xs)) \<le> length (filter Q xs)"
  by (induction xs) auto

lemma fewer_later: "now \<le> now' \<Longrightarrow> countActiveSessions now' uid d \<le> countActiveSessions now uid d"
  unfolding countActiveSessions_def
  using length_filter_map_le [of "sessions d" "activeSession now' uid" id "activeSession now uid"]
  by (simp add: activeSession_def sessionLive_def)

lemma onlyEnds_ok:
  assumes "sessionsOk now seen d" "onlyEnds d d'" "now \<le> now'"
  shows "sessionsOk now' seen d'"
proof -
  obtain f where f: "sessions d' = map f (sessions d)"
    "\<And>s. session_id (f s) = session_id s \<and> refreshTokenHash (f s) = refreshTokenHash s \<and>
        session_userId (f s) = session_userId s \<and> (\<forall>n. sessionLive n (f s) \<longrightarrow> sessionLive n s)"
    using assms(2) by (auto simp: onlyEnds_def)
  have "countActiveSessions now' uid d' \<le> countActiveSessions now' uid d" for uid
    unfolding countActiveSessions_def f(1) using f(2) by (intro length_filter_map_le) (auto simp: activeSession_def)
  then have "countActiveSessions now' uid d' \<le> 3" for uid
    using fewer_later [OF assms(3)] assms(1) by (meson sessionsOk_def le_trans)
  moreover have "session_id \<circ> f = session_id" "refreshTokenHash \<circ> f = refreshTokenHash" using f(2) by auto
  ultimately show ?thesis using assms(1) f by (auto simp: sessionsOk_def)
qed


lemma length_filter_map_less:
  "x \<in> set xs \<Longrightarrow> Q x \<Longrightarrow> \<not> P (f x) \<Longrightarrow> (\<And>y. P (f y) \<Longrightarrow> Q y) \<Longrightarrow>
   length (filter P (map f xs)) < length (filter Q xs)"
proof (induction xs)
  case (Cons a xs)
  have le: "length (filter P (map f xs)) \<le> length (filter Q xs)" using Cons.prems(4) by (intro length_filter_map_le)
  show ?case
  proof (cases "x = a")
    case True
    then show ?thesis using Cons.prems(2,3) le by simp
  next
    case False
    then show ?thesis using Cons by auto
  qed
qed simp

lemma revokeOldest:
  assumes ok: "sessionsOk now seen d" and rev: "revokeOldestActiveSession now uid d = (d1, old)"
  shows "onlyEnds d d1" "countActiveSessions now uid d \<noteq> 0 \<Longrightarrow> countActiveSessions now uid d1 < countActiveSessions now uid d"
proof -
  show "onlyEnds d d1"
  proof (cases "sort_key session_createdAt (filter (activeSession now uid) (sessions d))")
    case Nil
    then show ?thesis using rev by (intro onlyEnds_same) (simp add: revokeOldestActiveSession_def del: sort_key_eq_Nil_iff)
  next
    case (Cons x xs)
    have "sessions d1 = map (\<lambda>s. if session_id s = session_id x then s\<lparr>revokedAt := Some now\<rparr> else s) (sessions d)"
      using rev Cons by (auto simp: revokeOldestActiveSession_def updateWhere_def)
    then show ?thesis by (rule onlyEnds_revoke)
  qed
  assume "countActiveSessions now uid d \<noteq> 0"
  then obtain oldest rest where srt: "sort_key session_createdAt (filter (activeSession now uid) (sessions d)) = oldest # rest"
    by (cases "sort_key session_createdAt (filter (activeSession now uid) (sessions d))") (auto simp: countActiveSessions_def)
  let ?f = "\<lambda>s. if session_id s = session_id oldest then s\<lparr>revokedAt := Some now\<rparr> else s"
  have "oldest \<in> set (filter (activeSession now uid) (sessions d))"
    using srt by (metis list.set_intros(1) set_sort)
  then have "length (filter (activeSession now uid) (map ?f (sessions d))) < length (filter (activeSession now uid) (sessions d))"
    by (intro length_filter_map_less [of oldest]) (auto simp: activeSession_def sessionLive_def split: if_splits)
  then show "countActiveSessions now uid d1 < countActiveSessions now uid d"
    using rev srt by (auto simp: countActiveSessions_def revokeOldestActiveSession_def updateWhere_def)
qed

lemma createSessionTx_ok:
  assumes ok: "sessionsOk now seen d" and "now \<le> now'" and h: "h \<notin> seen"
    and tx: "createSessionTx now' sid uid h (refreshExpiry now') ctx d = Inr (d', y)"
  shows "sessionsOk now' (insert h seen) d'"
proof -
  have ok': "sessionsOk now' seen d" using onlyEnds_ok [OF ok onlyEnds_same assms(2)] by simp
  obtain d1 revoked s where d1: "(if maxActiveSessions \<le> countActiveSessions now' uid d
      then revokeOldestActiveSession now' uid d else (d, None)) = (d1, revoked)"
    and create: "createSession sid now' uid h (refreshExpiry now') ctx d1 = Inr (d', s)"
    using tx by (auto simp: createSessionTx_def split: prod.splits)
  have ends: "onlyEnds d d1" and few: "countActiveSessions now' uid d1 \<le> 2"
  proof -
    have "countActiveSessions now' uid d \<le> 3" using ok' by (simp add: sessionsOk_def)
    then show "onlyEnds d d1" "countActiveSessions now' uid d1 \<le> 2"
      using d1 revokeOldest [OF ok', of uid d1 revoked] by (auto simp: maxActiveSessions_def intro: onlyEnds_same split: if_splits)
  qed
  have ok1: "sessionsOk now' seen d1" using onlyEnds_ok [OF ok' ends] by simp
  have s: "sessions d' = sessions d1 @ [s]" "session_userId s = uid" "refreshTokenHash s = h" "session_id s = sid"
    "\<forall>q\<in>set (sessions d1). session_id q \<noteq> sid \<and> refreshTokenHash q \<noteq> h"
    using create by (auto simp: createSession_def Let_def list_ex_iff split: if_splits)
  have "countActiveSessions now' v d' \<le> 3" for v
    using ok1 few s(1,2) by (cases "v = uid") (auto simp: sessionsOk_def countActiveSessions_def activeSession_def)
  then show ?thesis using ok1 s by (auto simp: sessionsOk_def)
qed

lemma rotate_rows:
  assumes "rotateSessionRefreshToken now sid h h' expires d = Inr (d', z)"
  shows "d' = d\<lparr>sessions := map (\<lambda>s. if session_id s = sid \<and> refreshTokenHash s = h \<and> sessionLive now s
      then s\<lparr>refreshTokenHash := h', session_expiresAt := expires, lastUsedAt := now\<rparr> else s) (sessions d)\<rparr>"
    "z = firstRow (map (\<lambda>s. s\<lparr>refreshTokenHash := h', session_expiresAt := expires, lastUsedAt := now\<rparr>)
       (filter (\<lambda>s. session_id s = sid \<and> refreshTokenHash s = h \<and> sessionLive now s) (sessions d)))"
  using assms by (auto simp: rotateSessionRefreshToken_def Let_def split: if_splits)

lemma rotate_ok:
  assumes ok: "sessionsOk now seen d" and "now \<le> now'" and h': "h' \<notin> seen"
    and tx: "rotateSessionRefreshToken now' sid h h' (refreshExpiry now') d = Inr (d', z)"
  shows "sessionsOk now' (insert h' seen) d'"
proof -
  have ok': "sessionsOk now' seen d" using onlyEnds_ok [OF ok onlyEnds_same assms(2)] by simp
  let ?due = "\<lambda>s. session_id s = sid \<and> refreshTokenHash s = h \<and> sessionLive now' s"
  let ?f = "\<lambda>s. if ?due s then s\<lparr>refreshTokenHash := h', session_expiresAt := refreshExpiry now', lastUsedAt := now'\<rparr> else s"
  have d': "sessions d' = map ?f (sessions d)" using rotate_rows(1) [OF tx] by simp
  have ids: "map session_id (sessions d') = map session_id (sessions d)" by (simp add: d')
  have hashes: "distinct (map refreshTokenHash (sessions d'))"
  proof -
    have "distinct (map refreshTokenHash (map ?f xs))" if "distinct (map session_id xs)" "distinct (map refreshTokenHash xs)"
      "h' \<notin> refreshTokenHash ` set xs" for xs
      using that by (induction xs) (auto simp: image_iff)
    from this [of "sessions d"] show ?thesis using ok' h' unfolding d' sessionsOk_def by blast
  qed
  have "countActiveSessions now' v d' \<le> 3" for v
  proof -
    have "countActiveSessions now' v d' \<le> countActiveSessions now' v d"
      unfolding countActiveSessions_def d' by (intro length_filter_map_le) (auto simp: activeSession_def split: if_splits)
    then show ?thesis using ok' le_trans by (metis sessionsOk_def)
  qed
  moreover have "refreshTokenHash ` set (sessions d') \<subseteq> insert h' seen" using ok' by (auto simp: d' sessionsOk_def)
  ultimately show ?thesis using ok' hashes unfolding sessionsOk_def ids by blast
qed

lemma step_ok:
  assumes "auth_step now seen d now' seen' d'" "sessionsOk now seen d"
  shows "sessionsOk now' seen' d'"
proof -
  have le: "now \<le> now'" using step_cases [OF assms(1)] by blast
  from step_cases [OF assms(1)] consider "seen' = seen" "onlyEnds d d'"
    | h sid uid ctx y where "h \<notin> seen" "seen' = insert h seen" "createSessionTx now' sid uid h (refreshExpiry now') ctx d = Inr (d', y)"
    | h' sid h z where "h' \<notin> seen" "seen' = insert h' seen" "rotateSessionRefreshToken now' sid h h' (refreshExpiry now') d = Inr (d', z)"
    by blast
  then show ?thesis
  proof cases
    case 1
    then show ?thesis using onlyEnds_ok [OF assms(2) _ le] by simp
  next
    case 2
    then show ?thesis using createSessionTx_ok [OF assms(2) le 2(1,3)] by simp
  next
    case 3
    then show ?thesis using rotate_ok [OF assms(2) le 3(1,3)] by simp
  qed
qed

lemma steps_ok: "auth_steps now seen d now' seen' d' \<Longrightarrow> sessionsOk now seen d \<Longrightarrow> sessionsOk now' seen' d'"
  by (induction rule: auth_steps.induct) (auto intro: step_ok)

lemma reachable_ok:
  assumes "auth_reachable now seen d"
  shows "sessionsOk now seen d"
proof -
  obtain start where "auth_steps start {} emptyDb now seen d" using assms by (auto simp: auth_reachable_def)
  then show ?thesis by (rule steps_ok) (simp add: sessionsOk_def emptyDb_def countActiveSessions_def)
qed

text \<open>
  C31. Whatever users, admins and clients do at once, nobody ever has more than three live sessions, and no two sessions share a
  refresh token.
\<close>

theorem sessions_are_limited:
  assumes "auth_reachable now seen d"
  shows "countActiveSessions now uid d \<le> 3 \<and> distinct (map refreshTokenHash (sessions d))"
  using reachable_ok [OF assms] by (simp add: sessionsOk_def)

lemma sessions_are_limited_witness:
  "countActiveSessions 0 ''u1'' sampleDb \<le> 3 \<and> distinct (map refreshTokenHash (sessions sampleDb))"
  by (rule sessions_are_limited [OF sample_reachable])

section \<open>Dead tokens\<close>

definition deadHash :: "int \<Rightarrow> string \<Rightarrow> AuthDb \<Rightarrow> bool" where
  "deadHash now h d \<longleftrightarrow> (\<forall>s\<in>set (sessions d). refreshTokenHash s = h \<longrightarrow> \<not> sessionLive now s)"

lemma live_before: "now \<le> now' \<Longrightarrow> sessionLive now' s \<Longrightarrow> sessionLive now s"
  by (simp add: sessionLive_def)

lemma dead_later: "deadHash now h d \<Longrightarrow> now \<le> now' \<Longrightarrow> deadHash now' h d"
  by (auto simp: deadHash_def dest: live_before)

lemma dead_ends: "deadHash now h d \<Longrightarrow> onlyEnds d d' \<Longrightarrow> deadHash now h d'"
  unfolding deadHash_def onlyEnds_def by (metis (no_types, lifting) imageE set_map)

lemma dead_step:
  assumes "auth_step now seen d now' seen' d'" "h \<in> seen" "deadHash now h d" "sessionsOk now seen d"
  shows "h \<in> seen' \<and> deadHash now' h d'"
proof -
  have le: "now \<le> now'" and dead: "deadHash now' h d" using step_cases [OF assms(1)] dead_later [OF assms(3)] by auto
  from step_cases [OF assms(1)] consider "seen' = seen" "onlyEnds d d'"
    | h2 sid uid ctx y where "h2 \<notin> seen" "seen' = insert h2 seen" "createSessionTx now' sid uid h2 (refreshExpiry now') ctx d = Inr (d', y)"
    | h' sid h2 z where "h' \<notin> seen" "seen' = insert h' seen" "rotateSessionRefreshToken now' sid h2 h' (refreshExpiry now') d = Inr (d', z)"
    by blast
  then show ?thesis
  proof cases
    case 1
    then show ?thesis using dead_ends [OF dead] assms(2) by blast
  next
    case 2
    obtain d1 revoked s where d1: "(if maxActiveSessions \<le> countActiveSessions now' uid d
        then revokeOldestActiveSession now' uid d else (d, None)) = (d1, revoked)"
      and create: "createSession sid now' uid h2 (refreshExpiry now') ctx d1 = Inr (d', s)"
      using 2(3) by (auto simp: createSessionTx_def split: prod.splits)
    have "onlyEnds d d1"
      using d1 revokeOldest(1) [OF onlyEnds_ok [OF assms(4) onlyEnds_same le]] by (auto intro: onlyEnds_same split: if_splits)
    then have "deadHash now' h d1" by (rule dead_ends [OF dead])
    moreover have "sessions d' = sessions d1 @ [s]" "refreshTokenHash s = h2"
      using create by (auto simp: createSession_def Let_def split: if_splits)
    ultimately show ?thesis using 2(1,2) assms(2) by (auto simp: deadHash_def)
  next
    case 3
    then show ?thesis using dead assms(2) rotate_rows(1) [OF 3(3)] by (auto simp: deadHash_def)
  qed
qed

lemma dead_steps:
  assumes "auth_steps now seen d n2 s2 d2" "h \<in> seen" "deadHash now h d" "sessionsOk now seen d"
  shows "h \<in> s2 \<and> deadHash n2 h d2 \<and> sessionsOk n2 s2 d2"
  using assms by (induction rule: auth_steps.induct) (auto intro: step_ok dest: dead_step)

text \<open>What the cache holds does not matter.\<close>

lemma refresh_dead:
  assumes "deadHash now (hashToken K token) (db st)" "token \<noteq> []"
  shows "refresh K now next (Some token) st = (st, Inl invalidRefreshToken)"
proof -
  have none: "\<not> (session_id s = sid \<and> refreshTokenHash s = hashToken K token \<and> sessionLive now s)"
    if "s \<in> set (sessions (db st))" for s sid
    using assms(1) that by (auto simp: deadHash_def)
  have "rotateSessionRefreshToken now sid (hashToken K token) h' e (db st) = Inr (db st, None)" for sid h' e
  proof -
    have "filter (\<lambda>s. session_id s = sid \<and> refreshTokenHash s = hashToken K token \<and> sessionLive now s) (sessions (db st)) = []"
      using none by (auto simp: filter_empty_conv)
    moreover have "map (\<lambda>s. if session_id s = sid \<and> refreshTokenHash s = hashToken K token \<and> sessionLive now s
        then s\<lparr>refreshTokenHash := h', session_expiresAt := e, lastUsedAt := now\<rparr> else s) (sessions (db st)) = sessions (db st)"
      using none by (intro map_idI) auto
    ultimately show ?thesis by (simp add: rotateSessionRefreshToken_def Let_def firstRow_def)
  qed
  then show ?thesis using assms(2) by (auto simp: refresh_def Let_def split: option.splits)
qed

end
