(* ===== verification/Auth_Safety.thy ===== *)
theory Auth_Safety
  imports Auth_Sessions
begin

text \<open>
  What tokens, codes and passwords are worth: who can sign in, that a refresh token works once, that a password reset ends
  everything that came before it, and what signing in with another provider leaves behind.
\<close>

section \<open>Refresh tokens\<close>

lemma firstRow_Some: "firstRow xs = Some x \<Longrightarrow> x \<in> set xs"
  by (cases xs) (auto simp: firstRow_def)

lemma refresh_rotates:
  assumes "refresh K now nextToken (Some token) st = (st1, Inr r)"
  shows "token \<noteq> [] \<and> (\<exists>sid z. rotateSessionRefreshToken now sid (hashToken K token) (hashToken K nextToken) (refreshExpiry now) (db st)
      = Inr (db st1, Some z) \<and> session_id z = sid \<and> token_sid (login_accessToken r) = sid)"
proof -
  obtain sid uid u where token: "token \<noteq> []" and "lookupSession now (hashToken K token) st = Some (sid, uid)"
    and u: "findUserByIdForAuthToken uid (db st) = Some u"
    using assms by (auto simp: refresh_def Let_def split: if_splits option.splits)
  let ?rot = "rotateSessionRefreshToken now sid (hashToken K token) (hashToken K nextToken) (refreshExpiry now) (db st)"
  have "thenS (commitDb st ?rot) (\<lambda>rotated st1. case rotated of
                    None \<Rightarrow> (st1, Inl invalidRefreshToken)
                  | Some s \<Rightarrow>
                      let c1 = deleteSession (hashToken K token) (cache st1);
                          c2 = storeSession now s (refreshTokenTtlDays * 24 * 60 * 60) c1;
                          c3 = setTokenVersion now (user_id u) (tokenVersion u) c2 in
                      (st1\<lparr>cache := c3\<rparr>,
                       Inr \<lparr>login_accessToken = accessTokenFor u (session_id s), login_refreshToken = nextToken, login_user = u\<rparr>))
      = (st1, Inr r)"
    using assms token u \<open>lookupSession now (hashToken K token) st = Some (sid, uid)\<close>
    by (simp add: refresh_def Let_def split: if_splits)
  then obtain d z where z: "?rot = Inr (d, Some z)" "db st1 = d" "token_sid (login_accessToken r) = session_id z"
    by (cases ?rot) (auto simp: Let_def accessTokenFor_def split: option.splits prod.splits)
  have "session_id z = sid" using firstRow_Some [OF rotate_rows(2) [OF z(1), symmetric]] by auto
  then show ?thesis using token z by blast
qed

text \<open>
  C32. A refresh token works once. Who gets new tokens held the current token of a live session, and the token handed in is
  worthless from then on, whatever happens in between and whatever the cache says.
\<close>

theorem refresh_tokens_work_once:
  assumes reach: "auth_reachable n seen (db st)" "n \<le> now"
    and used: "refresh K now nextToken (Some token) st = (st1, Inr r)" "hashToken K nextToken \<notin> seen"
    and rest: "auth_steps now (insert (hashToken K nextToken) seen) (db st1) n2 seen2 (db st2)" "n2 \<le> later"
  shows "(\<exists>s\<in>set (sessions (db st)). refreshTokenHash s = hashToken K token \<and> sessionLive now s \<and>
      session_id s = token_sid (login_accessToken r)) \<and>
    refresh K later anotherToken (Some token) st2 = (st2, Inl invalidRefreshToken)"
proof -
  let ?h = "hashToken K token"
  have ok: "sessionsOk n seen (db st)" using reachable_ok [OF reach(1)] .
  obtain sid z where token: "token \<noteq> []" and sid: "token_sid (login_accessToken r) = sid"
    and rot: "rotateSessionRefreshToken now sid ?h (hashToken K nextToken) (refreshExpiry now) (db st) = Inr (db st1, Some z)"
    using refresh_rotates [OF used(1)] by blast
  have "filter (\<lambda>s. session_id s = sid \<and> refreshTokenHash s = ?h \<and> sessionLive now s) (sessions (db st)) \<noteq> []"
    using rotate_rows(2) [OF rot] by (auto simp: firstRow_def)
  then obtain s where s: "s \<in> set (sessions (db st))" "session_id s = sid" "refreshTokenHash s = ?h" "sessionLive now s"
    by (auto simp: filter_empty_conv)
  then have seen: "?h \<in> seen" using ok by (auto simp: sessionsOk_def)
  have inj: "inj_on refreshTokenHash (set (sessions (db st)))" using ok by (simp add: sessionsOk_def distinct_map)
  have others: "q = s" if "q \<in> set (sessions (db st))" "refreshTokenHash q = ?h" for q
    using inj_onD [OF inj _ that(1) s(1)] that(2) s(3) by simp
  have "\<not> sessionLive now q" if q: "q \<in> set (sessions (db st1))" "refreshTokenHash q = ?h" for q
  proof -
    let ?due = "\<lambda>s. session_id s = sid \<and> refreshTokenHash s = ?h \<and> sessionLive now s"
    obtain r where r: "r \<in> set (sessions (db st))" "q = (if ?due r then r\<lparr>refreshTokenHash := hashToken K nextToken,
        session_expiresAt := refreshExpiry now, lastUsedAt := now\<rparr> else r)"
      using q(1) unfolding rotate_rows(1) [OF rot] by auto
    show ?thesis
    proof (cases "?due r")
      case True
      then show ?thesis using r(2) q(2) used(2) seen by simp
    next
      case False
      then show ?thesis using r others [OF r(1)] q(2) s by (simp split: if_splits)
    qed
  qed
  then have "deadHash now ?h (db st1)" by (simp add: deadHash_def)
  moreover have "sessionsOk now (insert (hashToken K nextToken) seen) (db st1)"
    by (rule step_ok [OF auth_step.rotated [OF reach(2) rot used(2)] ok])
  ultimately have "deadHash n2 ?h (db st2)" using dead_steps [OF rest(1)] seen by blast
  then have "deadHash later ?h (db st2)" using rest(2) by (rule dead_later)
  then show ?thesis using refresh_dead token s sid by auto
qed

lemma refresh_tokens_work_once_witness:
  "snd (refresh sampleCrypto 2 ''t2'' (Some ''t0'') (fst (refresh sampleCrypto 1 ''t1'' (Some ''t0'') sampleState)))
    = Inl invalidRefreshToken"
proof -
  let ?r = "refresh sampleCrypto 1 ''t1'' (Some ''t0'') sampleState"
  obtain st1 r where st1: "?r = (st1, Inr r)"
    by (simp add: refresh_def lookupSession_def getSession_def cache_get_def sampleState_def sampleDb_def sampleSession_def
        sampleUser_def newUser_def sampleCrypto_def findActiveSessionByRefreshTokenHash_def findUserByIdForAuthToken_def
        sessionLive_def refreshExpiry_def refreshTokenTtlDays_def rotateSessionRefreshToken_def firstRow_def Let_def)
  have "refresh sampleCrypto 2 ''t2'' (Some ''t0'') st1 = (st1, Inl invalidRefreshToken)"
    using refresh_tokens_work_once [OF _ _ st1 _ auth_steps.none, of 0 "{''t0''}" 2 "''t2''"] sample_reachable
    by (simp add: sampleState_def sampleCrypto_def)
  then show ?thesis by (simp add: st1)
qed

section \<open>Token versions\<close>

text \<open>Rows of users stay, their token versions never fall and no two get the same identifier.\<close>

definition usersGrow :: "AuthDb \<Rightarrow> AuthDb \<Rightarrow> bool" where
  "usersGrow d d' \<longleftrightarrow> (\<exists>f xs. users d' = map f (users d) @ xs \<and>
     (\<forall>u. user_id (f u) = user_id u \<and> tokenVersion u \<le> tokenVersion (f u))) \<and>
     (distinct (map user_id (users d)) \<longrightarrow> distinct (map user_id (users d')))"

lemma grow_same: "users d' = users d \<Longrightarrow> usersGrow d d'"
  unfolding usersGrow_def by (intro conjI exI [of _ id] exI [of _ "[]"]) simp_all

lemma grow_append: "users d' = users d @ [x] \<Longrightarrow> user_id x \<notin> user_id ` set (users d) \<Longrightarrow> usersGrow d d'"
  unfolding usersGrow_def by (intro conjI exI [of _ id] exI [of _ "[x]"]) simp_all

lemma grow_map:
  assumes "users d' = map (\<lambda>u. if P u then f u else u) (users d)" "\<And>u. user_id (f u) = user_id u \<and> tokenVersion u \<le> tokenVersion (f u)"
  shows "usersGrow d d'"
proof -
  have "map user_id (users d') = map user_id (users d)" using assms by simp
  then have "distinct (map user_id (users d)) \<longrightarrow> distinct (map user_id (users d'))" by metis
  moreover have "\<exists>g xs. users d' = map g (users d) @ xs \<and> (\<forall>u. user_id (g u) = user_id u \<and> tokenVersion u \<le> tokenVersion (g u))"
    using assms by (intro exI [of _ "\<lambda>u. if P u then f u else u"] exI [of _ "[]"]) simp
  ultimately show ?thesis unfolding usersGrow_def by blast
qed

lemma grow_trans:
  assumes "usersGrow d d1" "usersGrow d1 d2"
  shows "usersGrow d d2"
proof -
  obtain f xs where "users d1 = map f (users d) @ xs" "\<forall>u. user_id (f u) = user_id u \<and> tokenVersion u \<le> tokenVersion (f u)"
    using assms(1) unfolding usersGrow_def by blast
  moreover obtain g ys where "users d2 = map g (users d1) @ ys" "\<forall>u. user_id (g u) = user_id u \<and> tokenVersion u \<le> tokenVersion (g u)"
    using assms(2) unfolding usersGrow_def by blast
  moreover have "distinct (map user_id (users d)) \<longrightarrow> distinct (map user_id (users d2))"
    using assms by (simp add: usersGrow_def)
  ultimately show ?thesis
    unfolding usersGrow_def by (intro conjI exI [of _ "g \<circ> f"] exI [of _ "map g xs @ ys"]) (auto intro: order_trans)
qed

lemma grow_version:
  assumes "usersGrow d d'" "findBy user_id uid (users d) = Some u"
  shows "\<exists>u'. findBy user_id uid (users d') = Some u' \<and> tokenVersion u \<le> tokenVersion u'"
proof -
  obtain f xs where f: "users d' = map f (users d) @ xs" "\<forall>u. user_id (f u) = user_id u \<and> tokenVersion u \<le> tokenVersion (f u)"
    using assms(1) by (auto simp: usersGrow_def)
  have "findBy user_id uid (map f us @ xs) = (case findBy user_id uid us of None \<Rightarrow> findBy user_id uid xs | Some u \<Rightarrow> Some (f u))" for us
    using f(2) by (induction us) auto
  then show ?thesis using assms(2) f by simp
qed

lemma insertUser_grows: "insertUser u d = Inr d' \<Longrightarrow> usersGrow d d'"
  by (rule grow_append [of _ _ u]) (auto simp: insertUser_def usersClash_def list_ex_iff split: if_splits)

lemma link_users: "linkOAuthAccount now uid p account m d = Inr d' \<Longrightarrow> users d' = users d"
  by (auto simp: linkOAuthAccount_def split: if_splits)

lemma verified_grows: "usersGrow d (markEmailVerified now uid d)"
  by (rule grow_map [of _ "\<lambda>u. user_id u = uid" "\<lambda>u. u\<lparr>emailVerified := True, user_updatedAt := now\<rparr>"])
    (simp_all add: markEmailVerified_def updateWhere_def)

lemma oauth_grows:
  assumes "oauthUserTx now freshId suffix p d = Inr (d', x)"
  shows "usersGrow d d'"
proof (cases "findUserByEmail (profile_email p) d")
  case None
  then obtain u d1 where "insertUser u d = Inr d1" "users d' = users d1"
    using assms by (auto simp: oauthUserTx_def createOAuthUser_def Let_def dest: link_users)
  then show ?thesis using insertUser_grows by (simp add: usersGrow_def)
next
  case (Some u)
  then obtain d1 where d1: "linkOAuthAccount now (user_id u) (profile_provider p) (profile_accountId p) (profile_email p) d = Inr d1"
    "d' = d1 \<or> d' = markEmailVerified now (user_id u) d1"
    using assms by (auto simp: oauthUserTx_def split: if_splits)
  have "usersGrow d d1" using link_users [OF d1(1)] by (rule grow_same)
  then show ?thesis using d1(2) grow_trans verified_grows by blast
qed

lemma createSessionTx_users: "createSessionTx now sid uid h e ctx d = Inr (d', y) \<Longrightarrow> users d' = users d"
  by (auto simp: createSessionTx_def createSession_def revokeOldestActiveSession_def Let_def split: if_splits list.splits)

lemma reset_users:
  assumes "resetPasswordTx now uid pwHash d = Inr (d', revoked, v)"
  shows "users d' = map (\<lambda>u. if user_id u = uid then u\<lparr>passwordHash := Some pwHash, tokenVersion := tokenVersion u + 1,
      user_updatedAt := now\<rparr> else u) (users d)"
    "sessions d' = map (\<lambda>s. if session_userId s = uid \<and> revokedAt s = None then s\<lparr>revokedAt := Some now\<rparr> else s) (sessions d)"
  using assms by (cases "snd (updatePassword now uid pwHash d)"; auto simp: resetPasswordTx_def updatePassword_def revokeUserSessions_def)+

lemma status_grows:
  assumes "updateUserStatusTx now me name st d = Inr (d', a)"
  shows "usersGrow d d'"
proof (cases "admin_findUserByUsername name d")
  case None
  then show ?thesis using assms by (intro grow_same) (simp add: updateUserStatusTx_def)
next
  case (Some u)
  then have "users d' = map (\<lambda>q. if user_id q = user_id u \<and> deletedAt q = None
      then q\<lparr>user_status := st, tokenVersion := tokenVersion q + 1, user_updatedAt := now\<rparr> else q) (users d)"
    using assms by (auto simp: updateUserStatusTx_def repo_updateUserStatus_def revokeUserSessions_def split: if_splits)
  then show ?thesis by (rule grow_map) simp
qed

lemma deleted_grows: "usersGrow d (fst (deleteMeTx now uid d))"
proof (rule grow_map)
  show "users (fst (deleteMeTx now uid d)) = map (\<lambda>u. if user_id u = uid \<and> deletedAt u = None
      then u\<lparr>deletedAt := Some now, user_updatedAt := now, tokenVersion := tokenVersion u + 1\<rparr> else u) (users d)"
    by (cases "snd (deleteUser now uid d)") (simp_all add: deleteMeTx_def deleteUser_def revokeUserSessions_def)
qed simp

lemma updated_grows:
  assumes "updateUser now uid nm bio d = Inr (d', w)"
  shows "usersGrow d d'"
proof (rule grow_map)
  show "users d' = map (\<lambda>u. if user_id u = uid \<and> deletedAt u = None
      then u\<lparr>user_username := (case nm of None \<Rightarrow> user_username u | Some n \<Rightarrow> n),
             user_bio := (case bio of None \<Rightarrow> user_bio u | Some b \<Rightarrow> b), user_updatedAt := now\<rparr> else u) (users d)"
    using assms by (auto simp: updateUser_def Let_def split: if_splits)
qed simp

lemma restored_grows:
  assumes "restoreDeletedUserTx now me name d = Inr (d', b)"
  shows "usersGrow d d'"
proof (cases "findDeletedUserByUsername name d")
  case None
  then show ?thesis using assms by (intro grow_same) (simp add: restoreDeletedUserTx_def)
next
  case (Some q)
  then have "users d' = map (\<lambda>u. if user_id u = user_id q \<and> deletedAt u \<noteq> None
      then u\<lparr>avatarObjectKey := None, deletedAt := None, user_status := User_active, tokenVersion := tokenVersion u + 1,
             user_updatedAt := now\<rparr> else u) (users d)"
    using assms by (auto simp: restoreDeletedUserTx_def repo_restoreDeletedUser_def split: if_splits)
  then show ?thesis by (rule grow_map) simp
qed

lemma step_grows: "auth_step now seen d now' seen' d' \<Longrightarrow> usersGrow d d'"
proof (induction rule: auth_step.induct)
  case (signed_up now now' freshId mailAddress name pwHash d d' u seen)
  then show ?case by (auto simp: createUser_def Let_def intro: insertUser_grows)
next
  case (reset now now' uid pwHash d d' v seen)
  obtain revoked n where "v = (revoked, n)" by (cases v)
  then show ?case using reset by (intro grow_map [OF reset_users(1)]) simp_all
next
  case (rotated now now' sid h h' d d' z seen)
  show ?case using rotate_rows(1) [OF rotated(2)] by (intro grow_same) simp
next
  case (oauth_mail now now' d pr account mailAddress seen)
  show ?case by (rule grow_same) (simp add: updateOAuthAccountEmail_def)
next
  case (logged_out now now' d h seen)
  show ?case by (rule grow_same) (simp add: revokeSession_def)
next
  case (signed_in now now' d sid uid h ctx d' y seen)
  then show ?case by (intro grow_same createSessionTx_users)
next
  case (oauth_user now now' freshId suffix p d d' x seen)
  then show ?case by (cases x) (auto intro: oauth_grows)
next
  case (status now now' me name st d d' a seen)
  then show ?case by (cases a) (auto intro: status_grows)
qed (auto intro: verified_grows deleted_grows updated_grows restored_grows)

lemma steps_grow: "auth_steps now seen d now' seen' d' \<Longrightarrow> usersGrow d d'"
  by (induction rule: auth_steps.induct) (auto intro: grow_same grow_trans step_grows)

lemma reachable_ids:
  assumes "auth_reachable now seen d"
  shows "distinct (map user_id (users d))"
proof -
  obtain start where "auth_steps start {} emptyDb now seen d" using assms by (auto simp: auth_reachable_def)
  then have "usersGrow emptyDb d" by (rule steps_grow)
  then show ?thesis by (simp add: usersGrow_def emptyDb_def)
qed

lemma guard_needs_version:
  assumes "findBy user_id (token_sub t) (users (db st)) = Some u" "token_tv t < tokenVersion u"
  shows "snd (canActivate now (Some t) st) = Inl authenticationRequired"
  using assms by (auto simp: canActivate_def Let_def findUserByIdForAuthToken_def)

end
