(* ===== verification/Auth_Passwords.thy ===== *)
theory Auth_Passwords
  imports Auth_Safety
begin

text \<open>
  Passwords: who can sign in and what for, what a reset of a password ends, and what becomes of the password of an account
  that somebody signs in to with another provider.
\<close>

section \<open>Signing in\<close>

text \<open>The identifier and the token of a new session are new.\<close>

definition freshSession :: "Crypto \<Rightarrow> string \<Rightarrow> string \<Rightarrow> AuthDb \<Rightarrow> bool" where
  "freshSession K sid token d \<longleftrightarrow>
     list_all (\<lambda>q. session_id q \<noteq> sid \<and> refreshTokenHash q \<noteq> hashToken K token) (sessions d)"

lemma createSessionTx_fresh:
  assumes "freshSession K sid token d"
  shows "\<exists>d' s old. createSessionTx now sid uid (hashToken K token) e ctx d = Inr (d', s, old) \<and> users d' = users d \<and>
    sessions d' \<noteq> [] \<and> s = last (sessions d') \<and> session_id s = sid \<and> session_userId s = uid \<and>
    refreshTokenHash s = hashToken K token \<and> session_expiresAt s = e \<and> revokedAt s = None"
proof -
  obtain d1 old where d1: "(if maxActiveSessions \<le> countActiveSessions now uid d
      then revokeOldestActiveSession now uid d else (d, None)) = (d1, old)"
    by (cases "if maxActiveSessions \<le> countActiveSessions now uid d then revokeOldestActiveSession now uid d else (d, None)")
  have "users d1 = users d \<and> (\<exists>f. sessions d1 = map f (sessions d) \<and>
      (\<forall>s. session_id (f s) = session_id s \<and> refreshTokenHash (f s) = refreshTokenHash s))"
  proof (cases "d1 = d")
    case True
    then show ?thesis by (auto intro: exI [of _ id])
  next
    case False
    then obtain x where "d1 = d\<lparr>sessions := map (\<lambda>s. if session_id s = x then s\<lparr>revokedAt := Some now\<rparr> else s) (sessions d)\<rparr>"
      using d1 by (auto simp: revokeOldestActiveSession_def updateWhere_def split: if_splits list.splits)
    then show ?thesis by (auto intro!: exI [of _ "\<lambda>s. if session_id s = x then s\<lparr>revokedAt := Some now\<rparr> else s"])
  qed
  then have "users d1 = users d" "\<not> list_ex (\<lambda>q. session_id q = sid \<or> refreshTokenHash q = hashToken K token) (sessions d1)"
    using assms by (simp, fastforce simp: freshSession_def list_ex_iff list_all_iff)
  then show ?thesis by (simp add: createSessionTx_def d1 createSession_def Let_def)
qed

lemma createSessionForUser_fresh:
  assumes "freshSession K sid token (db st)"
  shows "\<exists>st'. createSessionForUser K now sid token ctx u st =
      (st', Inr \<lparr>result_refreshToken = token, result_sessionId = sid, result_user = u\<rparr>) \<and>
    users (db st') = users (db st) \<and> getTokenVersion now (user_id u) (cache st') = Some (tokenVersion u)"
proof -
  obtain d' s old where "createSessionTx now sid (user_id u) (hashToken K token) (refreshExpiry now) ctx (db st) = Inr (d', s, old)"
    "users d' = users (db st)" "session_id s = sid"
    using createSessionTx_fresh [OF assms] by blast
  then show ?thesis
    by (simp add: createSessionForUser_def Let_def getTokenVersion_def setTokenVersion_def cache_get_def cache_set_def
        TOKEN_VERSION_CACHE_TTL_SECONDS_def)
qed

lemma login_users: "users (db (fst (login K now sid token code ctx e pw st))) = users (db st)"
  by (auto simp: login_def sendEmailVerificationOtp_def createSessionForUser_def commitDb_def thenS_def Let_def
      split: option.splits sum.splits prod.splits dest: createSessionTx_users)

lemma login_ok:
  assumes "findUserByEmail (normalized e) (db st) = Some u" "hasPassword u" "verifyPassword K (the (passwordHash u)) pw"
    "deletedAt u = None" "emailVerified u" "user_status u = User_active" "freshSession K sid token (db st)"
  shows "\<exists>st'. login K now sid token code ctx e pw st =
      (st', Inr \<lparr>login_accessToken = accessTokenFor u sid, login_refreshToken = token, login_user = u\<rparr>) \<and>
    users (db st') = users (db st) \<and> getTokenVersion now (user_id u) (cache st') = Some (tokenVersion u)"
  using createSessionForUser_fresh [OF assms(7), of now ctx u] assms(1-6) by (auto simp: login_def)

lemma byId: "distinct (map user_id (users d)) \<Longrightarrow> findUserByEmail e d = Some u \<Longrightarrow> findBy user_id (user_id u) (users d) = Some u"
  unfolding findUserByEmail_def by (drule findBy_SomeD) (simp add: findBy_Some_iff)

text \<open>
  C33. Who can sign in. For an account with a password, a sign-in succeeds exactly when the password is the account's and the
  account is verified, active and not deleted; a wrong password is answered as an unknown address is and changes nothing; and
  the access token that a sign-in hands out passes the guard of every request as that user.
\<close>

theorem who_can_sign_in:
  assumes "cryptoOk K" "distinct (map user_id (users (db st)))" "freshSession K sid token (db st)"
    and u: "findUserByEmail (normalized e) (db st) = Some u" "passwordHash u = Some (hashPassword K salt mine)"
      "hashPassword K salt mine \<noteq> []"
  shows "((\<exists>st' r. login K now sid token code ctx e pw st = (st', Inr r)) =
        (pw = mine \<and> deletedAt u = None \<and> emailVerified u \<and> user_status u = User_active)) \<and>
    (pw = mine \<or> login K now sid token code ctx e pw st = (st, Inl invalidLogin)) \<and>
    (findUserByEmail (normalized other) (db st) = None \<longrightarrow>
       login K now sid token code ctx other pw st = (st, Inl invalidLogin)) \<and>
    (\<forall>st' r. login K now sid token code ctx e pw st = (st', Inr r) \<longrightarrow>
       canActivate now (Some (login_accessToken r)) st' = (st', Inr
         \<lparr>auth_id = user_id u, auth_email = user_email u, auth_username = user_username u, auth_role = user_role u,
          auth_status = User_active, auth_sessionId = sid, auth_tokenVersion = tokenVersion u\<rparr>))"
proof -
  have pass: "verifyPassword K (the (passwordHash u)) p \<longleftrightarrow> p = mine" for p
    using assms(1) u(2) by (auto simp: cryptoOk_def)
  have has: "hasPassword u" using u by (simp add: hasPassword_def)
  have wrong: "pw = mine \<or> login K now sid token code ctx e pw st = (st, Inl invalidLogin)"
    using pass u(1) has by (simp add: login_def)
  have unknown: "findUserByEmail (normalized other) (db st) = None \<Longrightarrow>
      login K now sid token code ctx other pw st = (st, Inl invalidLogin)"
    by (simp add: login_def)
  have needs: "pw = mine \<and> deletedAt u = None \<and> emailVerified u \<and> user_status u = User_active"
    if "login K now sid token code ctx e pw st = (st', Inr r)" for st' r
    using that pass u(1) has by (auto simp: login_def split: if_splits)
  have good: "\<exists>st'. login K now sid token code ctx e pw st =
      (st', Inr \<lparr>login_accessToken = accessTokenFor u sid, login_refreshToken = token, login_user = u\<rparr>) \<and>
    users (db st') = users (db st) \<and> getTokenVersion now (user_id u) (cache st') = Some (tokenVersion u)"
    if "pw = mine \<and> deletedAt u = None \<and> emailVerified u \<and> user_status u = User_active"
    using that login_ok [OF u(1) has _ _ _ _ assms(3)] pass by blast
  have found: "findBy user_id (user_id u) (users (db st)) = Some u"
    by (rule byId [OF assms(2) u(1)])
  have "canActivate now (Some (login_accessToken r)) st' = (st', Inr
         \<lparr>auth_id = user_id u, auth_email = user_email u, auth_username = user_username u, auth_role = user_role u,
          auth_status = User_active, auth_sessionId = sid, auth_tokenVersion = tokenVersion u\<rparr>)"
    if r: "login K now sid token code ctx e pw st = (st', Inr r)" for st' r
  proof -
    have ok: "deletedAt u = None" "emailVerified u" "user_status u = User_active" using needs [OF r] by simp_all
    obtain "login_accessToken r = accessTokenFor u sid" "users (db st') = users (db st)"
      "getTokenVersion now (user_id u) (cache st') = Some (tokenVersion u)"
      using good [OF needs [OF r]] r by (metis Pair_inject sum.inject(2) LoginResult.select_convs(1))
    then show ?thesis using found ok by (simp add: canActivate_def accessTokenFor_def findUserByIdForAuthToken_def)
  qed
  moreover have "(\<exists>st' r. login K now sid token code ctx e pw st = (st', Inr r)) =
      (pw = mine \<and> deletedAt u = None \<and> emailVerified u \<and> user_status u = User_active)"
    using needs good by metis
  ultimately show ?thesis using wrong unknown by metis
qed

lemma sampleCrypto_ok: "cryptoOk sampleCrypto"
  by (simp add: cryptoOk_def sampleCrypto_def)

lemma sample_found: "findUserByEmail (normalized '' Ann@Post'') (db sampleState) = Some sampleUser"
proof -
  have "normalized '' Ann@Post'' = ''ann@post''" by code_simp
  then show ?thesis by (simp add: findUserByEmail_def sampleState_def sampleDb_def sampleUser_def newUser_def)
qed

lemma who_can_sign_in_witness:
  "(\<exists>st' r. login sampleCrypto 1 ''s2'' ''t1'' ''123456'' (session_context sampleSession) '' Ann@Post'' ''old'' sampleState = (st', Inr r)) \<and>
   login sampleCrypto 1 ''s2'' ''t1'' ''123456'' (session_context sampleSession) '' Ann@Post'' ''new'' sampleState
     = (sampleState, Inl invalidLogin)"
proof -
  have "distinct (map user_id (users (db sampleState)))" "freshSession sampleCrypto ''s2'' ''t1'' (db sampleState)"
    "passwordHash sampleUser = Some (hashPassword sampleCrypto 0 ''old'')" "hashPassword sampleCrypto 0 ''old'' \<noteq> []"
    by (simp_all add: sampleState_def sampleDb_def freshSession_def sampleSession_def sampleCrypto_def sampleUser_def newUser_def)
  note facts = who_can_sign_in [OF sampleCrypto_ok this(1,2) sample_found this(3,4)]
  have "deletedAt sampleUser = None" "emailVerified sampleUser" "user_status sampleUser = User_active"
    by (simp_all add: sampleUser_def newUser_def)
  then show ?thesis using facts [of 1 "''123456''" "session_context sampleSession" "''old''"]
    facts [of 1 "''123456''" "session_context sampleSession" "''new''"] by simp
qed

section \<open>Resetting a password\<close>

lemma findBy_map_if:
  "(\<And>x. key (f x) = key x) \<Longrightarrow>
   findBy key k (map (\<lambda>x. if P x then f x else x) xs) = map_option (\<lambda>x. if P x then f x else x) (findBy key k xs)"
  by (induction xs) simp_all

lemma resetPassword_tx:
  assumes "resetPassword K now salt e code pw st = (st1, Inr msg)" "findUserByEmail (normalized e) (db st) = Some u"
  shows "isValidPasswordResetOtp K now (user_id u) code (cache st) \<and>
    (\<exists>revoked v. resetPasswordTx now (user_id u) (hashPassword K salt pw) (db st) = Inr (db st1, revoked, v) \<and>
      cache st1 = deleteSessions revoked (setTokenVersion now (user_id u) v (deletePasswordResetOtp (user_id u) (cache st))))"
proof -
  let ?tx = "resetPasswordTx now (user_id u) (hashPassword K salt pw) (db st)"
  have valid: "isValidPasswordResetOtp K now (user_id u) code (cache st)"
    using assms by (auto simp: resetPassword_def split: if_splits)
  then have "thenS (commitDb st ?tx) (\<lambda>(revoked, v) st1.
      (st1\<lparr>cache := deleteSessions revoked (setTokenVersion now (user_id u) v (deletePasswordResetOtp (user_id u) (cache st1)))\<rparr>,
       Inr ''Password reset successful'')) = (st1, Inr msg)"
    using assms by (simp add: resetPassword_def)
  then show ?thesis using valid by (cases ?tx) auto
qed

lemma otp_gone:
  "cache_get now (passwordResetKey uid) (deleteSessions rows (setTokenVersion now uid v (deletePasswordResetOtp uid c))) = None"
proof -
  have other: "cache_get now (passwordResetKey uid) (deleteSession h c) = cache_get now (passwordResetKey uid) c" for h c
    by (simp add: deleteSession_def cache_del_def cache_get_def sessionKey_def passwordResetKey_def)
  have "cache_get now (passwordResetKey uid) (deleteSessions rows c) = cache_get now (passwordResetKey uid) c" for c
    by (induction rows arbitrary: c) (simp_all add: deleteSessions_def other)
  then show ?thesis
    by (simp add: setTokenVersion_def deletePasswordResetOtp_def cache_set_def cache_del_def cache_get_def tokenVersionKey_def
        passwordResetKey_def)
qed

lemma same_hash:
  assumes "sessionsOk n seen d" "q \<in> set (sessions d)" "s \<in> set (sessions d)" "refreshTokenHash q = refreshTokenHash s"
  shows "q = s"
  using assms inj_onD [of refreshTokenHash "set (sessions d)" q s] by (simp add: sessionsOk_def distinct_map)

text \<open>
  C34. A password reset ends everything that came before it. It needs a code that was mailed and not used; from then on, in
  every later state, a refresh token of the user that was ever in a session is refused and so is every access token that the
  user held; the code cannot be used again; and the stored password is the new one.
\<close>

theorem password_reset_ends_everything:
  assumes reach: "auth_reachable n seen (db st)" "n \<le> now"
    and reset: "resetPassword K now salt e code pw st = (st1, Inr msg)" "findUserByEmail (normalized e) (db st) = Some u"
    and rest: "auth_steps now seen (db st1) n2 seen2 (db st2)" "n2 \<le> later"
    and s: "s \<in> set (sessions (db st))" "session_userId s = user_id u" "refreshTokenHash s = hashToken K token" "token \<noteq> []"
    and t: "token_sub t = user_id u" "token_tv t \<le> tokenVersion u"
  shows "refresh K later nextToken (Some token) st2 = (st2, Inl invalidRefreshToken) \<and>
    snd (canActivate later (Some t) st2) = Inl authenticationRequired \<and>
    isValidPasswordResetOtp K now (user_id u) code (cache st) \<and>
    resetPassword K now salt' e code pw' st1 = (st1, Inl invalidResetCode) \<and>
    map_option passwordHash (findUserByEmail (normalized e) (db st1)) = Some (Some (hashPassword K salt pw))"
proof -
  obtain revoked v where valid: "isValidPasswordResetOtp K now (user_id u) code (cache st)"
    and tx: "resetPasswordTx now (user_id u) (hashPassword K salt pw) (db st) = Inr (db st1, revoked, v)"
    and c: "cache st1 = deleteSessions revoked (setTokenVersion now (user_id u) v (deletePasswordResetOtp (user_id u) (cache st)))"
    using resetPassword_tx [OF reset] by blast
  have ok: "sessionsOk n seen (db st)" using reachable_ok [OF reach(1)] .
  have ids: "distinct (map user_id (users (db st)))" by (rule reachable_ids [OF reach(1)])
  have u: "u \<in> set (users (db st))" "user_email u = normalized e"
    using findBy_SomeD [OF reset(2) [unfolded findUserByEmail_def]] by simp_all
  let ?f = "\<lambda>q. if user_id q = user_id u then q\<lparr>passwordHash := Some (hashPassword K salt pw), tokenVersion := tokenVersion q + 1,
      user_updatedAt := now\<rparr> else q"
  have new: "findBy user_id (user_id u) (users (db st1)) = Some (?f u)"
    using byId [OF ids reset(2)] by (simp add: reset_users(1) [OF tx] findBy_map_if)
  have mail: "findUserByEmail (normalized e) (db st1) = Some (?f u)"
    using reset(2) by (simp add: findUserByEmail_def reset_users(1) [OF tx] findBy_map_if)
  have step: "auth_step n seen (db st) now seen (db st1)" by (rule auth_step.reset [OF reach(2) tx])
  have dead: "deadHash now (hashToken K token) (db st1)"
    unfolding deadHash_def reset_users(2) [OF tx] using same_hash [OF ok _ s(1)] s(2,3) by (auto simp: sessionLive_def)
  have "deadHash later (hashToken K token) (db st2)"
    using dead_steps [OF rest(1) _ dead step_ok [OF step ok]] ok s(1,3) rest(2)
    by (metis dead_later imageI sessionsOk_def subsetD)
  then have r: "refresh K later nextToken (Some token) st2 = (st2, Inl invalidRefreshToken)" using refresh_dead s(4) by simp
  obtain u' where "findBy user_id (user_id u) (users (db st2)) = Some u'" "tokenVersion (?f u) \<le> tokenVersion u'"
    using grow_version [OF steps_grow [OF rest(1)] new] by blast
  then have g: "snd (canActivate later (Some t) st2) = Inl authenticationRequired"
    using guard_needs_version [of t st2 u'] t by simp
  have "resetPassword K now salt' e code pw' st1 = (st1, Inl invalidResetCode)"
    using mail by (simp add: resetPassword_def isValidPasswordResetOtp_def c otp_gone validOtp_def)
  then show ?thesis using r g valid mail by simp
qed

definition sampleForgotten :: AuthState where
  "sampleForgotten = forgotPassword sampleCrypto 1 ''123456'' '' Ann@Post'' sampleState"

definition sampleReset :: "AuthState \<times> (ServiceError + string)" where
  "sampleReset = resetPassword sampleCrypto 2 0 '' Ann@Post'' ''123456'' ''new'' sampleForgotten"

lemma password_reset_ends_everything_witness:
  "snd (refresh sampleCrypto 3 ''t1'' (Some ''t0'') (fst sampleReset)) = Inl invalidRefreshToken \<and>
   snd (canActivate 3 (Some (accessTokenFor sampleUser ''s1'')) (fst sampleReset)) = Inl authenticationRequired"
proof -
  have db: "db sampleForgotten = db sampleState"
    by (simp add: sampleForgotten_def forgotPassword_def sample_found)
  have "isValidPasswordResetOtp sampleCrypto 2 ''u1'' ''123456'' (cache sampleForgotten)"
    by (simp add: sampleForgotten_def forgotPassword_def sample_found isValidPasswordResetOtp_def validOtp_def
        storePasswordResetOtp_def cache_set_def cache_get_def passwordResetOtpTtlMinutes_def sampleCrypto_def)
       (simp add: sampleUser_def newUser_def)
  moreover obtain d' rows v where tx: "resetPasswordTx 2 ''u1'' (hashPassword sampleCrypto 0 ''new'') sampleDb = Inr (d', rows, v)"
    by (simp add: resetPasswordTx_def updatePassword_def firstRow_def sampleDb_def sampleUser_def newUser_def revokeUserSessions_def)
  moreover have "db sampleState = sampleDb" "user_id sampleUser = ''u1''"
    by (simp_all add: sampleState_def sampleUser_def newUser_def)
  ultimately obtain st1 where st1: "sampleReset = (st1, Inr ''Password reset successful'')"
    using sample_found db by (simp add: sampleReset_def resetPassword_def)
  have "sampleSession \<in> set (sessions (db sampleForgotten))" "session_userId sampleSession = user_id sampleUser"
    "refreshTokenHash sampleSession = hashToken sampleCrypto ''t0''" "''t0'' \<noteq> []"
    "token_sub (accessTokenFor sampleUser ''s1'') = user_id sampleUser"
    "token_tv (accessTokenFor sampleUser ''s1'') \<le> tokenVersion sampleUser"
    by (simp_all add: db sampleState_def sampleDb_def sampleSession_def sampleUser_def newUser_def sampleCrypto_def accessTokenFor_def)
  moreover have "auth_reachable 0 {''t0''} (db sampleForgotten)" using sample_reachable db by (simp add: sampleState_def)
  ultimately show ?thesis
    using password_reset_ends_everything [OF _ _ st1 [unfolded sampleReset_def] sample_found [folded db] auth_steps.none, of 0 "{''t0''}" 3]
    by (simp add: st1)
qed

section \<open>A password that outlives a take-over\<close>

lemma link_keeps_users:
  assumes "linkOAuthAccount now uid p account m d = Inr d'"
  shows "findUserByEmail e d' = findUserByEmail e d \<and> sessions d' = sessions d"
  using assms by (auto simp: linkOAuthAccount_def findUserByEmail_def split: if_splits)

lemma marked_verified:
  assumes "findUserByEmail e d = Some u"
  shows "findUserByEmail e (markEmailVerified now (user_id u) d) = Some (u\<lparr>emailVerified := True, user_updatedAt := now\<rparr>)"
  using assms by (simp add: findUserByEmail_def markEmailVerified_def updateWhere_def findBy_map_if)

text \<open>
  C35. Signing in with another provider keeps the password of an account of the same address. Who signed up with somebody
  else's address, and could not verify it, signs in with the chosen password once the owner of the address has signed in with
  a provider: the account is marked verified, the password is not removed.
\<close>

theorem oauth_keeps_the_old_password:
  assumes K: "cryptoOk K" "hashPassword K salt pw \<noteq> []"
    and signup: "signup K n1 uid salt code e name pw st = (st1, Inr msg)" "findUserByEmail (normalized e) (db st) = None"
    and owner: "profile_emailVerified p" "profile_email p = normalized e"
      "findUserByOAuthAccount (profile_provider p) (profile_accountId p) (db st1) = None"
    and oauth: "loginOrCreateOAuthUser K n2 f suffix sid token p ctx st1 = (st2, Inr r)"
    and new: "freshSession K sid' token' (db st2)"
  shows "snd (login K n2 sid token code ctx e pw st1) = Inl (ForbiddenException ''Email verification required'') \<and>
    (\<exists>st3 r'. login K n3 sid' token' code' ctx' e pw st2 = (st3, Inr r') \<and>
       user_id (login_user r') = user_id (result_user r))"
proof -
  obtain d1 u where create: "createUser uid n1 (normalized e) (normalized name) (hashPassword K salt pw) (db st) = Inr (d1, u)"
    and d1: "db st1 = d1"
    using signup by (cases "createUser uid n1 (normalized e) (normalized name) (hashPassword K salt pw) (db st)")
      (auto simp: signup_def sendEmailVerificationOtp_def bumpUserSearchCacheVersion_def Let_def split: if_splits)
  have u: "u = newUser uid n1 (normalized e) (normalized name) (Some (hashPassword K salt pw)) False"
    and rows: "users d1 = users (db st) @ [u]"
    using create by (auto simp: createUser_def insertUser_def Let_def split: if_splits)
  have app: "findBy k v (xs @ ys) = (case findBy k v xs of None \<Rightarrow> findBy k v ys | Some x \<Rightarrow> Some x)" for k :: "UserRow \<Rightarrow> string" and v xs ys
    by (induction xs) simp_all
  have found: "findUserByEmail (normalized e) d1 = Some u"
    using signup(2) rows by (simp add: findUserByEmail_def app) (simp add: u newUser_def)
  have fields: "passwordHash u = Some (hashPassword K salt pw)" "\<not> emailVerified u" "deletedAt u = None" "user_status u = User_active"
    by (simp_all add: u newUser_def)
  have pass: "verifyPassword K (hashPassword K salt pw) pw" using K by (simp add: cryptoOk_def)
  have before: "snd (login K n2 sid token code ctx e pw st1) = Inl (ForbiddenException ''Email verification required'')"
    using found fields pass K(2) by (simp add: login_def d1 hasPassword_def)
  let ?v = "u\<lparr>emailVerified := True, user_updatedAt := n2\<rparr>"
  obtain d2 where link: "linkOAuthAccount n2 (user_id u) (profile_provider p) (profile_accountId p) (profile_email p) d1 = Inr d2"
    and cs: "createSessionForUser K n2 sid token ctx u (bumpUserSearchCacheVersion (st1\<lparr>db := markEmailVerified n2 (user_id u) d2\<rparr>)) = (st2, Inr r)"
    using oauth owner found fields
    by (cases "linkOAuthAccount n2 (user_id u) (profile_provider p) (profile_accountId p) (profile_email p) d1")
      (auto simp: loginOrCreateOAuthUser_def oauthUserTx_def d1)
  have "users (db st2) = users (markEmailVerified n2 (user_id u) d2) \<and> result_user r = u"
    using cs by (auto simp: createSessionForUser_def commitDb_def thenS_def Let_def bumpUserSearchCacheVersion_def
        split: sum.splits prod.splits dest: createSessionTx_users)
  then have "findUserByEmail (normalized e) (db st2) = Some ?v" and same: "result_user r = u"
    using marked_verified [of "normalized e" d2 u n2] link_keeps_users [OF link, of "normalized e"] found
    by (simp_all add: findUserByEmail_def)
  then have "\<exists>st3. login K n3 sid' token' code' ctx' e pw st2 =
      (st3, Inr \<lparr>login_accessToken = accessTokenFor ?v sid', login_refreshToken = token', login_user = ?v\<rparr>)"
    using login_ok [of e st2 ?v K pw sid' token' n3 code' ctx'] new fields pass K(2) by (auto simp: hasPassword_def)
  then show ?thesis using before same by auto
qed

text \<open>Eve signs up with Ann's address; Ann signs in with her Google account; Eve signs in.\<close>

definition annAtGoogle :: OAuthProfile where
  "annAtGoogle = \<lparr>profile_provider = Google, profile_accountId = ''g1'', profile_email = ''ann@post'', profile_emailVerified = True,
     profile_usernameSeed = ''ann''\<rparr>"

definition eveSignedUp :: "AuthState \<times> (ServiceError + string)" where
  "eveSignedUp = signup sampleCrypto 0 ''u1'' 0 ''123456'' ''ann@post'' ''eve'' ''evil'' (sampleState\<lparr>db := emptyDb\<rparr>)"

definition annSignedIn :: "AuthState \<times> (ServiceError + SessionResult)" where
  "annSignedIn = loginOrCreateOAuthUser sampleCrypto 1 ''u2'' (\<lambda>_. ''17'') ''s1'' ''t1'' annAtGoogle (session_context sampleSession)
     (fst eveSignedUp)"

lemma oauth_keeps_the_old_password_witness:
  "\<exists>st r. login sampleCrypto 2 ''s2'' ''t2'' ''654321'' (session_context sampleSession) ''ann@post'' ''evil'' (fst annSignedIn) = (st, Inr r)"
proof -
  have norm: "normalized ''ann@post'' = ''ann@post''" "normalized ''eve'' = ''eve''"
    by (simp_all add: normalized_def trim_def isBlank_def toLowerCase_def lowerChar_def)
  obtain st1 where st1: "eveSignedUp = (st1, Inr ''Verification code sent'')"
    and rows: "db st1 = emptyDb\<lparr>users := [newUser ''u1'' 0 ''ann@post'' ''eve'' (Some ''#evil'') False]\<rparr>"
    by (simp add: eveSignedUp_def signup_def norm findUserByEmail_def findUserByUsername_def emptyDb_def createUser_def insertUser_def
        userCheck_def newUser_def toLowerCase_def lowerChar_def sampleCrypto_def Let_def sendEmailVerificationOtp_def
        bumpUserSearchCacheVersion_def)
  obtain st2 r where st2: "annSignedIn = (st2, Inr r)" and hashes: "freshSession sampleCrypto ''s2'' ''t2'' (db st2)"
    by (simp add: annSignedIn_def st1 loginOrCreateOAuthUser_def annAtGoogle_def findUserByOAuthAccount_def rows emptyDb_def
        oauthUserTx_def findUserByEmail_def newUser_def linkOAuthAccount_def markEmailVerified_def updateWhere_def
        bumpUserSearchCacheVersion_def createSessionForUser_def createSessionTx_def createSession_def countActiveSessions_def
        maxActiveSessions_def sampleCrypto_def freshSession_def Let_def)
  have "hashPassword sampleCrypto 0 ''evil'' \<noteq> []" "findUserByEmail (normalized ''ann@post'') (db (sampleState\<lparr>db := emptyDb\<rparr>)) = None"
    "profile_emailVerified annAtGoogle" "profile_email annAtGoogle = normalized ''ann@post''"
    "findUserByOAuthAccount (profile_provider annAtGoogle) (profile_accountId annAtGoogle) (db st1) = None"
    by (simp_all add: sampleCrypto_def findUserByEmail_def emptyDb_def annAtGoogle_def norm findUserByOAuthAccount_def rows)
  note facts = oauth_keeps_the_old_password [OF sampleCrypto_ok this(1) st1 [unfolded eveSignedUp_def] this(2-5)
      st2 [unfolded annSignedIn_def st1 fst_conv] hashes]
  show ?thesis using facts [of 2 "''654321''" "session_context sampleSession"]
    unfolding st2 fst_conv by blast
qed

end
