(* ===== verification/Outbox.thy ===== *)
theory Outbox
  imports Auth_Tables
begin

text \<open>
  The outbox of events that are published to the users: \<^verbatim>\<open>src/src/outbox/outbox.repository.ts\<close>, \<^verbatim>\<open>outbox.publisher.ts\<close>,
  the worker \<^verbatim>\<open>jobs/outbox.processor.ts\<close> and the recovery \<^verbatim>\<open>jobs/outbox-recovery.service.ts\<close> over
  \<^verbatim>\<open>src/src/infra/database/schema/outbox.schema.ts\<close>. Times are in milliseconds. The payload of an event is the map of
  its text fields. Whether the publishing client works, and what it says when it does not, are arguments.
\<close>

section \<open>Events\<close>

datatype OutboxStatus = Outbox_queued | Outbox_processing | Outbox_published | Outbox_failed

record OutboxEventRow =
  outbox_id :: string
  outbox_key :: string
  outbox_topic :: string
  outbox_payload :: "string \<rightharpoonup> string"
  outbox_status :: OutboxStatus
  attempts :: nat
  maxAttempts :: nat
  outbox_error :: "string option"
  availableAt :: int
  outbox_startedAt :: "int option"
  publishedAt :: "int option"
  failedAt :: "int option"
  outbox_createdAt :: int
  outbox_updatedAt :: int

record CreateOutboxEventInput =
  input_key :: string
  input_topic :: string
  input_payload :: "string \<rightharpoonup> string"
  input_maxAttempts :: "nat option"

definition STALE_PROCESSING_MINUTES :: int where "STALE_PROCESSING_MINUTES = 10"
definition RETRY_DELAY_MS :: int where "RETRY_DELAY_MS = 30000"
definition OUTBOX_RECOVERY_BATCH_SIZE :: nat where "OUTBOX_RECOVERY_BATCH_SIZE = 100"
definition topicNotificationCreated :: string where "topicNotificationCreated = ''notification.created''"

text \<open>A key that exists already returns its row as it is.\<close>

definition outbox_createOrGet ::
  "string \<Rightarrow> int \<Rightarrow> CreateOutboxEventInput \<Rightarrow> OutboxEventRow list \<Rightarrow> ServiceError + (OutboxEventRow list \<times> OutboxEventRow)" where
  "outbox_createOrGet freshId now input rows =
     (case findBy outbox_key (input_key input) rows of
        Some r \<Rightarrow> Inr (rows, r)
      | None \<Rightarrow>
          let r = \<lparr>outbox_id = freshId, outbox_key = input_key input, outbox_topic = input_topic input,
                   outbox_payload = input_payload input, outbox_status = Outbox_queued, attempts = 0,
                   maxAttempts = (case input_maxAttempts input of None \<Rightarrow> 3 | Some n \<Rightarrow> n), outbox_error = None, availableAt = now,
                   outbox_startedAt = None, publishedAt = None, failedAt = None, outbox_createdAt = now, outbox_updatedAt = now\<rparr> in
          if list_ex (\<lambda>q. outbox_id q = freshId) rows then Inl uniqueViolation else Inr (rows @ [r], r))"

definition waiting :: "int \<Rightarrow> OutboxEventRow \<Rightarrow> bool" where
  "waiting now r \<longleftrightarrow> (outbox_status r = Outbox_queued \<or> outbox_status r = Outbox_failed) \<and> availableAt r \<le> now"

definition findAvailable :: "nat \<Rightarrow> int \<Rightarrow> OutboxEventRow list \<Rightarrow> string list" where
  "findAvailable limit now rows =
     map outbox_id (take limit (sort_key (\<lambda>r. (availableAt r, outbox_createdAt r))
       (filter (\<lambda>r. waiting now r \<and> attempts r < maxAttempts r) rows)))"

definition claimable :: "int \<Rightarrow> OutboxEventRow \<Rightarrow> bool" where
  "claimable now r \<longleftrightarrow> attempts r < maxAttempts r \<and>
     (waiting now r \<or> outbox_status r = Outbox_processing \<and>
        (case outbox_startedAt r of None \<Rightarrow> False | Some s \<Rightarrow> s < now - STALE_PROCESSING_MINUTES * 60 * 1000))"

definition outbox_start :: "int \<Rightarrow> string \<Rightarrow> OutboxEventRow list \<Rightarrow> OutboxEventRow list \<times> OutboxEventRow option" where
  "outbox_start now eid rows =
     (let (rows', changed) = updateWhere (\<lambda>r. outbox_id r = eid \<and> claimable now r)
        (\<lambda>r. r\<lparr>outbox_status := Outbox_processing, attempts := attempts r + 1, outbox_startedAt := Some now, outbox_updatedAt := now\<rparr>) rows in
      (rows', firstRow changed))"

definition markPublished :: "int \<Rightarrow> string \<Rightarrow> OutboxEventRow list \<Rightarrow> OutboxEventRow list" where
  "markPublished now eid rows = fst (updateWhere (\<lambda>r. outbox_id r = eid)
     (\<lambda>r. r\<lparr>outbox_status := Outbox_published, publishedAt := Some now, outbox_error := None, outbox_updatedAt := now\<rparr>) rows)"

definition markFailed :: "int \<Rightarrow> string \<Rightarrow> string \<Rightarrow> OutboxEventRow list \<Rightarrow> OutboxEventRow list" where
  "markFailed now eid message rows = fst (updateWhere (\<lambda>r. outbox_id r = eid)
     (\<lambda>r. r\<lparr>outbox_status := Outbox_failed, failedAt := Some now, outbox_error := Some message,
            availableAt := now + RETRY_DELAY_MS, outbox_updatedAt := now\<rparr>) rows)"

definition outbox_fail :: "int \<Rightarrow> string \<Rightarrow> string \<Rightarrow> OutboxEventRow list \<Rightarrow> OutboxEventRow list" where
  "outbox_fail now eid message rows = markFailed now eid (take 2000 message) rows"

section \<open>Publishing\<close>

record NotificationCreated =
  payload_notificationId :: string
  payload_userId :: string
  payload_type :: string
  payload_createdAt :: string

definition parsePayload :: "(string \<rightharpoonup> string) \<Rightarrow> NotificationCreated option" where
  "parsePayload p =
     (case (p ''notificationId'', p ''userId'', p ''type'', p ''createdAt'') of
        (Some a, Some b, Some c, Some d) \<Rightarrow>
          if a \<noteq> [] \<and> b \<noteq> [] \<and> c \<noteq> [] \<and> d \<noteq> []
          then Some \<lparr>payload_notificationId = a, payload_userId = b, payload_type = c, payload_createdAt = d\<rparr> else None
      | _ \<Rightarrow> None)"

record Message =
  message_channel :: string
  message_event :: string
  message_data :: NotificationCreated

definition notificationMessage :: "NotificationCreated \<Rightarrow> Message" where
  "notificationMessage p =
     \<lparr>message_channel = ''user:'' @ payload_userId p @ '':notifications'', message_event = topicNotificationCreated, message_data = p\<rparr>"

text \<open>What an attempt to publish meets: the error of the client, if it fails, and the text of a refused payload.\<close>

record Delivery =
  clientError :: "string option"
  payloadError :: string

record OutboxState =
  outboxEvents :: "OutboxEventRow list"
  messages :: "Message list"

definition publishNotificationCreated :: "Delivery \<Rightarrow> OutboxEventRow \<Rightarrow> string + Message" where
  "publishNotificationCreated env r =
     (case parsePayload (outbox_payload r) of
        None \<Rightarrow> Inl (payloadError env)
      | Some p \<Rightarrow> (case clientError env of Some e \<Rightarrow> Inl e | None \<Rightarrow> Inr (notificationMessage p)))"

definition publishEvent :: "Delivery \<Rightarrow> int \<Rightarrow> OutboxEventRow \<Rightarrow> OutboxState \<Rightarrow> OutboxState \<times> (string + unit)" where
  "publishEvent env now r st =
     (let outcome = (if outbox_topic r = topicNotificationCreated then publishNotificationCreated env r
                     else Inl (''Unknown outbox topic: '' @ outbox_topic r)) in
      case outcome of
        Inl e \<Rightarrow> (st\<lparr>outboxEvents := outbox_fail now (outbox_id r) e (outboxEvents st)\<rparr>, Inl e)
      | Inr m \<Rightarrow> (st\<lparr>messages := messages st @ [m], outboxEvents := markPublished now (outbox_id r) (outboxEvents st)\<rparr>, Inr ()))"

definition publishById :: "Delivery \<Rightarrow> int \<Rightarrow> string \<Rightarrow> OutboxState \<Rightarrow> OutboxState \<times> (string + unit)" where
  "publishById env now eid st =
     (case outbox_start now eid (outboxEvents st) of
        (rows, None) \<Rightarrow> (st\<lparr>outboxEvents := rows\<rparr>, Inr ())
      | (rows, Some r) \<Rightarrow> publishEvent env now r (st\<lparr>outboxEvents := rows\<rparr>))"

section \<open>Jobs\<close>

record OutboxJob =
  job_name :: string
  job_outboxEventId :: "string option"

definition publishEventJob :: string where "publishEventJob = ''publish-event''"

definition outbox_process :: "Delivery \<Rightarrow> int \<Rightarrow> OutboxJob \<Rightarrow> OutboxState \<Rightarrow> OutboxState \<times> (string + unit)" where
  "outbox_process env now job st =
     (if job_name job = publishEventJob
      then (case job_outboxEventId job of
              None \<Rightarrow> (st, Inl ''Invalid outbox publish job payload'')
            | Some eid \<Rightarrow> publishById env now eid st)
      else (st, Inr ()))"

text \<open>The options of a job: how often the queue tries it, and the base of its exponential delay between tries.\<close>

definition enqueuePublishEvent :: "string \<Rightarrow> OutboxJob" where
  "enqueuePublishEvent eid = \<lparr>job_name = publishEventJob, job_outboxEventId = Some eid\<rparr>"

definition publishAttempts :: nat where "publishAttempts = 3"
definition publishDelay :: int where "publishDelay = 1000"

definition recoverAvailableEvents :: "int \<Rightarrow> OutboxEventRow list \<Rightarrow> OutboxJob list" where
  "recoverAvailableEvents now rows = map enqueuePublishEvent (findAvailable OUTBOX_RECOVERY_BATCH_SIZE now rows)"

text \<open>How the queue runs a job: an attempt that fails is followed by the next one, until one succeeds or none is left.\<close>

fun runJob :: "(int \<times> Delivery) list \<Rightarrow> OutboxJob \<Rightarrow> OutboxState \<Rightarrow> OutboxState \<times> bool" where
  "runJob [] job st = (st, False)"
| "runJob ((now, env) # rest) job st =
     (case outbox_process env now job st of (st', Inr _) \<Rightarrow> (st', True) | (st', Inl _) \<Rightarrow> runJob rest job st')"

section \<open>What a claim changes\<close>

lemma start_rows:
  "fst (outbox_start now eid rows) = map (\<lambda>r. if outbox_id r = eid \<and> claimable now r
     then r\<lparr>outbox_status := Outbox_processing, attempts := attempts r + 1, outbox_startedAt := Some now, outbox_updatedAt := now\<rparr> else r) rows"
  by (simp add: outbox_start_def updateWhere_def Let_def)

lemma start_ids: "map outbox_id (fst (outbox_start now eid rows)) = map outbox_id rows"
  by (simp add: start_rows)

lemma start_claimed:
  assumes "outbox_start now eid rows = (rows', Some r)"
  shows "\<exists>q\<in>set rows. outbox_id q = eid \<and> claimable now q \<and>
    r = q\<lparr>outbox_status := Outbox_processing, attempts := attempts q + 1, outbox_startedAt := Some now, outbox_updatedAt := now\<rparr>"
proof -
  have "filter (\<lambda>r. outbox_id r = eid \<and> claimable now r) rows \<noteq> []"
    using assms by (auto simp: outbox_start_def updateWhere_def firstRow_def)
  then obtain q qs where q: "filter (\<lambda>r. outbox_id r = eid \<and> claimable now r) rows = q # qs" by (cases "filter (\<lambda>r. outbox_id r = eid \<and> claimable now r) rows") auto
  then have "q \<in> set (filter (\<lambda>r. outbox_id r = eid \<and> claimable now r) rows)" by simp
  then have "q \<in> set rows \<and> outbox_id q = eid \<and> claimable now q" by simp
  moreover have "r = q\<lparr>outbox_status := Outbox_processing, attempts := attempts q + 1, outbox_startedAt := Some now, outbox_updatedAt := now\<rparr>"
    using assms q by (auto simp: outbox_start_def updateWhere_def firstRow_def)
  ultimately show ?thesis by blast
qed

lemma start_none:
  assumes "\<And>r. r \<in> set rows \<Longrightarrow> outbox_id r = eid \<Longrightarrow> \<not> claimable now r"
  shows "outbox_start now eid rows = (rows, None)"
proof -
  have "map (\<lambda>r. if outbox_id r = eid \<and> claimable now r then f r else r) rows = rows" for f
    using assms by (intro map_idI) auto
  moreover have "filter (\<lambda>r. outbox_id r = eid \<and> claimable now r) rows = []" using assms by (auto simp: filter_empty_conv)
  ultimately show ?thesis by (simp add: outbox_start_def updateWhere_def firstRow_def)
qed

text \<open>
  C37. A failed publication is not tried again by its job. When the first try of a job fails to publish an event, the event is
  put off by thirty seconds; a second try within that time, and the queue makes it about a second later, finds nothing to
  claim, counts as a success and ends the job: the event stays failed and unpublished, whatever further tries were left.
\<close>

theorem retries_come_too_early:
  assumes ids: "distinct (map outbox_id (outboxEvents st))"
    and first: "outbox_process env1 t1 (enqueuePublishEvent eid) st = (st1, Inl e)"
    and second: "t1 \<le> t2" "t2 < t1 + RETRY_DELAY_MS"
  shows "runJob ((t1, env1) # (t2, env2) # rest) (enqueuePublishEvent eid) st = (st1, True) \<and> messages st1 = messages st \<and>
    (\<exists>r\<in>set (outboxEvents st1). outbox_id r = eid \<and> outbox_status r = Outbox_failed \<and> outbox_error r = Some (take 2000 e))"
proof -
  obtain rows q where start: "outbox_start t1 eid (outboxEvents st) = (rows, Some q)"
    and pub: "publishEvent env1 t1 q (st\<lparr>outboxEvents := rows\<rparr>) = (st1, Inl e)"
    using first by (cases "outbox_start t1 eid (outboxEvents st)")
      (auto simp: outbox_process_def enqueuePublishEvent_def publishById_def split: option.splits)
  obtain p where p: "p \<in> set (outboxEvents st)" "outbox_id p = eid" "claimable t1 p" "outbox_id q = eid"
    using start_claimed [OF start] by auto
  have st1: "st1 = st\<lparr>outboxEvents := outbox_fail t1 eid e rows\<rparr>"
    using pub p(4) by (auto simp: publishEvent_def Let_def split: sum.splits)
  have rows: "rows = fst (outbox_start t1 eid (outboxEvents st))" by (simp add: start)
  let ?f = "\<lambda>r. r\<lparr>outbox_status := Outbox_failed, failedAt := Some t1, outbox_error := Some (take 2000 e),
            availableAt := t1 + RETRY_DELAY_MS, outbox_updatedAt := t1\<rparr>"
  have failed: "outboxEvents st1 = map (\<lambda>r. if outbox_id r = eid then ?f r else r) rows"
    by (simp add: st1 outbox_fail_def markFailed_def updateWhere_def)
  have none: "\<not> claimable t2 r" if "r \<in> set (outboxEvents st1)" "outbox_id r = eid" for r
  proof -
    have "r \<in> (\<lambda>r. if outbox_id r = eid then ?f r else r) ` set rows" using that(1) unfolding failed by simp
    then obtain x where "r = (if outbox_id x = eid then ?f x else x)" by blast
    then have "outbox_status r = Outbox_failed" "availableAt r = t1 + RETRY_DELAY_MS" using that(2) by (auto split: if_splits)
    then show ?thesis using second by (simp add: claimable_def waiting_def)
  qed
  have "outbox_start t2 eid (outboxEvents st1) = (outboxEvents st1, None)" using none by (rule start_none)
  then have "outbox_process env2 t2 (enqueuePublishEvent eid) st1 = (st1, Inr ())"
    by (simp add: outbox_process_def enqueuePublishEvent_def publishById_def)
  moreover have "eid \<in> set (map outbox_id rows)" using p(1,2) by (auto simp: rows start_ids)
  then obtain x where "x \<in> set rows" "outbox_id x = eid" by auto
  then have "?f x \<in> set (outboxEvents st1)" unfolding failed by force
  then have "\<exists>r\<in>set (outboxEvents st1). outbox_id r = eid \<and> outbox_status r = Outbox_failed \<and> outbox_error r = Some (take 2000 e)"
    using \<open>outbox_id x = eid\<close> by (intro bexI [of _ "?f x"]) simp_all
  ultimately show ?thesis using first st1 by simp
qed

definition sampleEvent :: CreateOutboxEventInput where
  "sampleEvent = \<lparr>input_key = ''notification.created:n1'', input_topic = topicNotificationCreated,
     input_payload = [''notificationId'' \<mapsto> ''n1'', ''userId'' \<mapsto> ''u1'', ''type'' \<mapsto> ''friend_request'', ''createdAt'' \<mapsto> ''0''],
     input_maxAttempts = None\<rparr>"

definition sampleRow :: OutboxEventRow where
  "sampleRow = \<lparr>outbox_id = ''o1'', outbox_key = ''notification.created:n1'', outbox_topic = topicNotificationCreated,
     outbox_payload = input_payload sampleEvent, outbox_status = Outbox_queued, attempts = 0, maxAttempts = 3, outbox_error = None,
     availableAt = 0, outbox_startedAt = None, publishedAt = None, failedAt = None, outbox_createdAt = 0, outbox_updatedAt = 0\<rparr>"

lemma sampleRow_created: "outbox_createOrGet ''o1'' 0 sampleEvent [] = Inr ([sampleRow], sampleRow)"
  by (simp add: outbox_createOrGet_def sampleRow_def sampleEvent_def Let_def)

lemma retries_come_too_early_witness:
  "snd (runJob [(0, \<lparr>clientError = Some ''down'', payloadError = []\<rparr>), (1000, \<lparr>clientError = None, payloadError = []\<rparr>)]
     (enqueuePublishEvent ''o1'') \<lparr>outboxEvents = [sampleRow], messages = []\<rparr>) = True"
proof -
  have "outbox_start 0 ''o1'' [sampleRow] = ([sampleRow\<lparr>outbox_status := Outbox_processing, attempts := 1, outbox_startedAt := Some 0\<rparr>],
      Some (sampleRow\<lparr>outbox_status := Outbox_processing, attempts := 1, outbox_startedAt := Some 0\<rparr>))"
    by (simp add: outbox_start_def updateWhere_def firstRow_def claimable_def waiting_def sampleRow_def)
  then obtain st1 where "outbox_process \<lparr>clientError = Some ''down'', payloadError = []\<rparr> 0 (enqueuePublishEvent ''o1'')
      \<lparr>outboxEvents = [sampleRow], messages = []\<rparr> = (st1, Inl ''down'')"
    by (simp add: outbox_process_def enqueuePublishEvent_def publishById_def publishEvent_def publishNotificationCreated_def
        parsePayload_def sampleRow_def sampleEvent_def)
  then show ?thesis
    using retries_come_too_early [of "\<lparr>outboxEvents = [sampleRow], messages = []\<rparr>" "\<lparr>clientError = Some ''down'', payloadError = []\<rparr>"
      0 "''o1''" st1 "''down''" 1000 "\<lparr>clientError = None, payloadError = []\<rparr>" "[]"]
    by (simp add: RETRY_DELAY_MS_def)
qed

section \<open>Several workers\<close>

text \<open>
  Workers run side by side. A worker holds the rows it claimed until it has sent their message, and remembers the sent ones
  until it has marked them; it may fail, or stop for good, at any point. Clocks do not matter here.
\<close>

record Workers =
  rows :: "OutboxEventRow list"
  holding :: "OutboxEventRow list"
  unmarked :: "OutboxEventRow list"
  sent :: "(string \<times> Message) list"

inductive worker_step :: "Workers \<Rightarrow> Workers \<Rightarrow> bool" where
  created: "outbox_createOrGet freshId now input (rows w) = Inr (rs, r) \<Longrightarrow> worker_step w (w\<lparr>rows := rs\<rparr>)"
| claimed: "outbox_start now eid (rows w) = (rs, Some r) \<Longrightarrow> worker_step w (w\<lparr>rows := rs, holding := r # holding w\<rparr>)"
| delivered: "holding w = xs @ r # ys \<Longrightarrow> outbox_topic r = topicNotificationCreated \<Longrightarrow> publishNotificationCreated env r = Inr m \<Longrightarrow>
    worker_step w (w\<lparr>holding := xs @ ys, unmarked := r # unmarked w, sent := sent w @ [(outbox_id r, m)]\<rparr>)"
| marked: "r \<in> set (unmarked w) \<Longrightarrow> worker_step w (w\<lparr>rows := markPublished now (outbox_id r) (rows w)\<rparr>)"
| gave_up: "holding w = xs @ r # ys \<Longrightarrow>
    worker_step w (w\<lparr>rows := outbox_fail now (outbox_id r) message (rows w), holding := xs @ ys\<rparr>)"
| mark_failed: "r \<in> set (unmarked w) \<Longrightarrow> worker_step w (w\<lparr>rows := outbox_fail now (outbox_id r) message (rows w)\<rparr>)"
| crashed: "holding w = xs @ r # ys \<Longrightarrow> worker_step w (w\<lparr>holding := xs @ ys\<rparr>)"

definition idle :: Workers where
  "idle = \<lparr>rows = [], holding = [], unmarked = [], sent = []\<rparr>"

definition workers_reachable :: "Workers \<Rightarrow> bool" where
  "workers_reachable w \<longleftrightarrow> worker_step\<^sup>*\<^sup>* idle w"

definition heldOf :: "string \<Rightarrow> Workers \<Rightarrow> nat" where
  "heldOf eid w = length (filter (\<lambda>r. outbox_id r = eid) (holding w))"

definition sentOf :: "string \<Rightarrow> Workers \<Rightarrow> (string \<times> Message) list" where
  "sentOf eid w = filter (\<lambda>x. fst x = eid) (sent w)"

text \<open>Every message was paid for with an attempt, and says what the row says.\<close>

definition samePayload :: "OutboxEventRow \<Rightarrow> OutboxEventRow \<Rightarrow> bool" where
  "samePayload r q \<longleftrightarrow> outbox_id r = outbox_id q \<and> outbox_payload r = outbox_payload q"

definition attemptsOk :: "OutboxEventRow list \<Rightarrow> string \<Rightarrow> nat \<Rightarrow> bool" where
  "attemptsOk rs eid n \<longleftrightarrow> n = 0 \<or> (\<exists>r\<in>set rs. outbox_id r = eid \<and> n \<le> attempts r)"

definition workersOk :: "Workers \<Rightarrow> bool" where
  "workersOk w \<longleftrightarrow> distinct (map outbox_id (rows w)) \<and> (\<forall>r\<in>set (rows w). attempts r \<le> maxAttempts r) \<and>
     (\<forall>eid. attemptsOk (rows w) eid (length (sentOf eid w) + heldOf eid w)) \<and>
     (\<forall>r\<in>set (holding w). \<exists>q\<in>set (rows w). samePayload r q) \<and>
     (\<forall>x\<in>set (sent w). \<exists>q\<in>set (rows w). outbox_id q = fst x \<and>
        map_option notificationMessage (parsePayload (outbox_payload q)) = Some (snd x))"

text \<open>A change of the rows that keeps what the invariant is about.\<close>

definition keeps :: "OutboxEventRow list \<Rightarrow> OutboxEventRow list \<Rightarrow> bool" where
  "keeps rs rs' \<longleftrightarrow> (\<exists>f. rs' = map f rs \<and> (\<forall>r. outbox_id (f r) = outbox_id r \<and> outbox_payload (f r) = outbox_payload r \<and>
     attempts (f r) = attempts r \<and> maxAttempts (f r) = maxAttempts r))"

lemma keeps_update:
  assumes "\<And>r. outbox_id (f r) = outbox_id r \<and> outbox_payload (f r) = outbox_payload r \<and> attempts (f r) = attempts r \<and>
    maxAttempts (f r) = maxAttempts r"
  shows "keeps rs (fst (updateWhere P f rs))"
  unfolding keeps_def updateWhere_def using assms by (intro exI [of _ "\<lambda>r. if P r then f r else r"]) simp

lemma keeps_marks: "keeps rs (markPublished now eid rs)" "keeps rs (outbox_fail now eid message rs)"
  unfolding markPublished_def outbox_fail_def markFailed_def by (rule keeps_update; simp)+

lemma keeps_ok:
  assumes ok: "workersOk w" and k: "keeps (rows w) rs"
  shows "workersOk (w\<lparr>rows := rs\<rparr>)"
proof -
  obtain f where rs: "rs = map f (rows w)" and f: "\<And>r. outbox_id (f r) = outbox_id r" "\<And>r. outbox_payload (f r) = outbox_payload r"
    "\<And>r. attempts (f r) = attempts r" "\<And>r. maxAttempts (f r) = maxAttempts r"
    using k unfolding keeps_def by blast
  have "outbox_id \<circ> f = outbox_id" using f(1) by auto
  moreover have "attemptsOk rs eid n \<longleftrightarrow> attemptsOk (rows w) eid n" for eid n by (simp add: attemptsOk_def rs f)
  ultimately show ?thesis using ok
    by (auto simp: workersOk_def sentOf_def heldOf_def samePayload_def rs f split: prod.splits)
qed

lemma dropped_ok:
  assumes ok: "workersOk w" and hold: "holding w = xs @ r # ys"
  shows "workersOk (w\<lparr>holding := xs @ ys\<rparr>)"
proof -
  have "attemptsOk (rows w) eid (length (sentOf eid w) + length (filter (\<lambda>r. outbox_id r = eid) (xs @ ys)))" for eid
  proof -
    have "attemptsOk (rows w) eid (length (sentOf eid w) + heldOf eid w)" using ok by (simp add: workersOk_def)
    then show ?thesis unfolding attemptsOk_def heldOf_def hold by (auto split: if_splits intro: le_trans)
  qed
  then show ?thesis using ok unfolding workersOk_def by (simp add: sentOf_def heldOf_def hold)
qed

lemma claimed_ok:
  assumes ok: "workersOk w" and start: "outbox_start now eid (rows w) = (rs, Some r)"
  shows "workersOk (w\<lparr>rows := rs, holding := r # holding w\<rparr>)"
proof -
  let ?g = "\<lambda>r. if outbox_id r = eid \<and> claimable now r then r\<lparr>outbox_status := Outbox_processing, attempts := attempts r + 1,
    outbox_startedAt := Some now, outbox_updatedAt := now\<rparr> else r"
  have rs: "rs = map ?g (rows w)" using start_rows [of now eid "rows w"] start by simp
  have ids: "distinct (map outbox_id (rows w))" using ok by (simp add: workersOk_def)
  obtain q where q: "q \<in> set (rows w)" "outbox_id q = eid" "claimable now q" and r: "r = ?g q"
    using start_claimed [OF start] by auto
  have only: "x = q" if "x \<in> set (rows w)" "outbox_id x = eid" for x
    using that q(1,2) ids by (metis distinct_map inj_onD)
  have "attempts (?g x) \<le> maxAttempts (?g x)" if "x \<in> set (rows w)" for x
    using that ok by (auto simp: workersOk_def claimable_def)
  then have max: "\<forall>x\<in>set rs. attempts x \<le> maxAttempts x" unfolding rs set_map by blast
  have "attemptsOk rs i (length (sentOf i w) + (heldOf i w + (if i = eid then 1 else 0)))" for i
  proof -
    have "attemptsOk (rows w) i (length (sentOf i w) + heldOf i w)" using ok by (simp add: workersOk_def)
    then consider "length (sentOf i w) + heldOf i w = 0"
      | x where "x \<in> set (rows w)" "outbox_id x = i" "length (sentOf i w) + heldOf i w \<le> attempts x"
      by (auto simp: attemptsOk_def)
    then show ?thesis
    proof cases
      case 1
      have "outbox_id (?g q) = eid" "1 \<le> attempts (?g q)" "?g q \<in> set rs" using q by (auto simp: rs)
      then show ?thesis using 1 by (auto simp: attemptsOk_def)
    next
      case 2
      then have "?g x \<in> set rs" "outbox_id (?g x) = i" "i = eid \<Longrightarrow> attempts (?g x) = attempts x + 1" "attempts x \<le> attempts (?g x)"
        using only q(3) by (auto simp: rs)
      then show ?thesis using 2(3) unfolding attemptsOk_def by (intro disjI2 bexI [of _ "?g x"]) auto
    qed
  qed
  moreover have "length (sentOf i (w\<lparr>rows := rs, holding := r # holding w\<rparr>)) + heldOf i (w\<lparr>rows := rs, holding := r # holding w\<rparr>) =
      length (sentOf i w) + (heldOf i w + (if i = eid then 1 else 0))" for i
    using q(2) r by (auto simp: sentOf_def heldOf_def)
  ultimately have att: "attemptsOk rs i (length (sentOf i (w\<lparr>rows := rs, holding := r # holding w\<rparr>)) +
      heldOf i (w\<lparr>rows := rs, holding := r # holding w\<rparr>))" for i
    by metis
  have same: "samePayload x (?g y)" if "samePayload x y" for x y using that by (auto simp: samePayload_def)
  have "samePayload r (?g q)" by (simp add: r samePayload_def)
  then have hold: "\<forall>x\<in>set (r # holding w). \<exists>y\<in>set rs. samePayload x y"
    using ok q(1) same unfolding workersOk_def rs by (metis (no_types, lifting) imageI set_ConsD set_map)
  have said: "\<forall>x\<in>set (sent w). \<exists>q\<in>set (rows w). outbox_id q = fst x \<and>
      map_option notificationMessage (parsePayload (outbox_payload q)) = Some (snd x)"
    using ok unfolding workersOk_def by (elim conjE)
  have "\<exists>y\<in>set rs. outbox_id y = fst x \<and> map_option notificationMessage (parsePayload (outbox_payload y)) = Some (snd x)"
    if x: "x \<in> set (sent w)" for x
  proof -
    obtain y where "y \<in> set (rows w)" "outbox_id y = fst x" "map_option notificationMessage (parsePayload (outbox_payload y)) = Some (snd x)"
      using bspec [OF said x] by blast
    then show ?thesis by (intro bexI [of _ "?g y"]) (auto simp: rs)
  qed
  moreover have "distinct (map outbox_id rs)" using ids start_ids [of now eid "rows w"] start by simp
  ultimately show ?thesis using max att hold unfolding workersOk_def by auto
qed

lemma created_ok:
  assumes ok: "workersOk w" and c: "outbox_createOrGet freshId now input (rows w) = Inr (rs, r)"
  shows "workersOk (w\<lparr>rows := rs\<rparr>)"
proof (cases "findBy outbox_key (input_key input) (rows w)")
  case (Some x)
  then have "w\<lparr>rows := rs\<rparr> = w" using c by (cases w) (simp add: outbox_createOrGet_def)
  then show ?thesis using ok by simp
next
  case None
  then have rs: "rs = rows w @ [r]" "outbox_id r \<notin> outbox_id ` set (rows w)" "attempts r = 0"
    using c by (auto simp: outbox_createOrGet_def Let_def list_ex_iff split: if_splits)
  have "attemptsOk (rows w @ [r]) i n" if "attemptsOk (rows w) i n" for i n using that by (auto simp: attemptsOk_def)
  then show ?thesis using ok rs unfolding workersOk_def by (fastforce simp: sentOf_def heldOf_def)
qed

lemma delivered_ok:
  assumes ok: "workersOk w" and hold: "holding w = xs @ r # ys" and pub: "publishNotificationCreated env r = Inr m"
  shows "workersOk (w\<lparr>holding := xs @ ys, unmarked := r # unmarked w, sent := sent w @ [(outbox_id r, m)]\<rparr>)"
proof -
  obtain q where q: "q \<in> set (rows w)" "samePayload r q" using ok hold by (auto simp: workersOk_def)
  have "map_option notificationMessage (parsePayload (outbox_payload r)) = Some m"
    using pub by (auto simp: publishNotificationCreated_def split: option.splits)
  then have m: "outbox_id q = outbox_id r \<and> map_option notificationMessage (parsePayload (outbox_payload q)) = Some m"
    using q(2) by (simp add: samePayload_def)
  have count: "length (sentOf i (w\<lparr>holding := xs @ ys, unmarked := r # unmarked w, sent := sent w @ [(outbox_id r, m)]\<rparr>)) +
      heldOf i (w\<lparr>holding := xs @ ys, unmarked := r # unmarked w, sent := sent w @ [(outbox_id r, m)]\<rparr>) =
      length (sentOf i w) + heldOf i w" for i
    by (simp add: sentOf_def heldOf_def hold)
  show ?thesis using ok q(1) m unfolding workersOk_def count by (auto simp: hold)
qed

lemma workers_ok: "workers_reachable w \<Longrightarrow> workersOk w"
  unfolding workers_reachable_def
proof (induction rule: rtranclp_induct)
  case base
  show ?case by (simp add: workersOk_def idle_def attemptsOk_def sentOf_def heldOf_def)
next
  case (step v w)
  from step.hyps(2) show ?case
  proof cases
    case gave_up
    then show ?thesis using dropped_ok [OF keeps_ok [OF step.IH keeps_marks(2)]] by simp
  qed (auto intro: step.IH created_ok claimed_ok delivered_ok dropped_ok keeps_ok keeps_marks)
qed

text \<open>
  C36. However many workers publish the outbox, and however often they fail or die half-way, no event is published more often
  than its attempts allow, three times unless it says otherwise, and all messages of an event are the same, so that a
  receiver can tell repetitions by the notification they name.
\<close>

theorem events_are_published_few_times:
  assumes "workers_reachable w" "r \<in> set (rows w)"
  shows "length (sentOf (outbox_id r) w) \<le> attempts r \<and> attempts r \<le> maxAttempts r \<and>
    (\<forall>x\<in>set (sentOf (outbox_id r) w).
       map_option notificationMessage (parsePayload (outbox_payload r)) = Some (snd x))"
proof -
  have ok: "workersOk w" by (rule workers_ok [OF assms(1)])
  have only: "q = r" if "q \<in> set (rows w)" "outbox_id q = outbox_id r" for q
    using that assms(2) ok by (metis (no_types, lifting) distinct_map inj_onD workersOk_def)
  have "attemptsOk (rows w) (outbox_id r) (length (sentOf (outbox_id r) w) + heldOf (outbox_id r) w)"
    using ok by (simp add: workersOk_def)
  then have "length (sentOf (outbox_id r) w) \<le> attempts r" using only by (fastforce simp: attemptsOk_def)
  moreover have "map_option notificationMessage (parsePayload (outbox_payload r)) = Some (snd x)"
    if "x \<in> set (sentOf (outbox_id r) w)" for x
    using ok that only by (fastforce simp: workersOk_def sentOf_def)
  ultimately show ?thesis using ok assms(2) by (auto simp: workersOk_def)
qed

lemma events_are_published_few_times_witness:
  "length (sentOf ''o1'' (idle\<lparr>rows := [sampleRow]\<rparr>)) \<le> 3"
proof -
  have "worker_step idle (idle\<lparr>rows := [sampleRow]\<rparr>)"
    by (rule worker_step.created [of "''o1''" 0 sampleEvent _ _ sampleRow]) (simp add: idle_def sampleRow_created)
  then have "workers_reachable (idle\<lparr>rows := [sampleRow]\<rparr>)" unfolding workers_reachable_def by (rule r_into_rtranclp)
  from events_are_published_few_times [OF this, of sampleRow] show ?thesis by (simp add: sampleRow_def)
qed

end
