(* ===== verification/Paging.thy ===== *)
theory Paging
  imports Prelude "HOL-Library.Sublist" "HOL-Library.List_Lexorder" "HOL-Library.Char_ord"
begin

text \<open>
  Lists that are read page by page, newest row first, as notifications (\<^verbatim>\<open>src/src/notifications\<close>) and friends
  (\<^verbatim>\<open>src/src/friends\<close>) are. A row is placed by the time of its creation, which the database keeps in microseconds, and its
  identifier; the cursor of a page names the last row of the page, but its time has passed through a \<^verbatim>\<open>Date\<close>, which
  keeps milliseconds.
\<close>

type_synonym Place = "int \<times> string"
type_synonym PageCursor = "int \<times> string"

definition cursorOf :: "Place \<Rightarrow> PageCursor" where
  "cursorOf p = (fst p div 1000, snd p)"

definition beforeCursor :: "PageCursor option \<Rightarrow> Place \<Rightarrow> bool" where
  "beforeCursor cursor p =
     (case cursor of
        None \<Rightarrow> True
      | Some (ms, i) \<Rightarrow> fst p < ms * 1000 \<or> fst p = ms * 1000 \<and> snd p < i)"

definition newestFirst :: "('r \<Rightarrow> Place) \<Rightarrow> 'r list \<Rightarrow> 'r list" where
  "newestFirst place rows = rev (sort_key place rows)"

definition fetchRows :: "('r \<Rightarrow> Place) \<Rightarrow> nat \<Rightarrow> PageCursor option \<Rightarrow> 'r list \<Rightarrow> 'r list" where
  "fetchRows place limit cursor rows =
     take (limit + 1) (newestFirst place (filter (\<lambda>r. beforeCursor cursor (place r)) rows))"

definition pageOf :: "('r \<Rightarrow> Place) \<Rightarrow> nat \<Rightarrow> 'r list \<Rightarrow> 'r list \<times> PageCursor option" where
  "pageOf place limit rows =
     (let items = take limit rows in
      (items, if limit < length rows then Some (cursorOf (place (last items))) else None))"

section \<open>Following the cursors\<close>

fun followPages :: "nat \<Rightarrow> (PageCursor option \<Rightarrow> 'r list \<times> PageCursor option) \<Rightarrow> PageCursor option \<Rightarrow> 'r list" where
  "followPages 0 load cursor = []"
| "followPages (Suc n) load cursor =
     (case load cursor of
        (items, None) \<Rightarrow> items
      | (items, Some c) \<Rightarrow> items @ followPages n load (Some c))"

text \<open>A cursor is a threshold in the order of the places, not above the place it was made from.\<close>

definition below :: "PageCursor option \<Rightarrow> Place \<Rightarrow> bool" where
  "below cursor p = (case cursor of None \<Rightarrow> True | Some (ms, i) \<Rightarrow> p < (ms * 1000, i))"

lemma before_below: "beforeCursor cursor p = below cursor p"
  by (cases p) (auto simp: beforeCursor_def below_def less_prod_simp split: option.splits)

lemma below_down: "below cursor p \<Longrightarrow> q < p \<Longrightarrow> below cursor q"
  by (auto simp: below_def split: option.splits prod.splits intro: order.strict_trans)

lemma cursor_below: "below (Some (cursorOf p)) q \<Longrightarrow> q < p"
proof -
  assume "below (Some (cursorOf p)) q"
  then have "q < (fst p div 1000 * 1000, snd p)" by (simp add: below_def cursorOf_def)
  moreover have "(fst p div 1000 * 1000, snd p) \<le> p"
    using pos_mod_sign [of 1000 "fst p"] div_mult_mod_eq [of "fst p" 1000] by (cases p) (simp add: less_eq_prod_simp, linarith)
  ultimately show "q < p" by (rule order.strict_trans2)
qed

lemma cursor_other_ms: "q < p \<Longrightarrow> fst q div 1000 \<noteq> fst p div 1000 \<Longrightarrow> below (Some (cursorOf p)) q"
proof -
  assume "q < p" "fst q div 1000 \<noteq> fst p div 1000"
  then have "fst q \<le> fst p" by (auto simp: less_prod_def)
  then have "fst q div 1000 \<le> fst p div 1000" by (rule zdiv_mono1) simp
  then have "fst q div 1000 < fst p div 1000" using \<open>fst q div 1000 \<noteq> fst p div 1000\<close> by simp
  then have "fst q < fst p div 1000 * 1000" 
    using div_mult_mod_eq [of "fst q" 1000] pos_mod_bound [of 1000 "fst q"] by linarith
  then show ?thesis by (simp add: below_def cursorOf_def less_prod_def)
qed

section \<open>A page is the top of what is left\<close>

definition descending :: "('r \<Rightarrow> Place) \<Rightarrow> 'r list \<Rightarrow> bool" where
  "descending place xs \<longleftrightarrow> sorted_wrt (\<lambda>a b. place b < place a) xs"

lemma newestFirst_set [simp]: "set (newestFirst place rows) = set rows"
  by (simp add: newestFirst_def)

lemma newestFirst_descending:
  assumes "inj_on place (set rows)" "distinct rows"
  shows "descending place (newestFirst place rows)"
proof -
  let ?s = "sort_key place rows"
  have "distinct (map place ?s)" using assms by (simp add: distinct_map)
  moreover have "sorted (map place ?s)" by simp
  ultimately have "sorted_wrt (<) (map place ?s)" by (simp add: strict_sorted_iff)
  then show ?thesis by (simp add: descending_def newestFirst_def sorted_wrt_rev sorted_wrt_map)
qed

lemma newestFirst_filter:
  "newestFirst place (filter P rows) = filter P (newestFirst place rows)"
  by (simp add: newestFirst_def rev_filter filter_sort [symmetric])

definition loadPage :: "('r \<Rightarrow> Place) \<Rightarrow> nat \<Rightarrow> 'r list \<Rightarrow> PageCursor option \<Rightarrow> 'r list \<times> PageCursor option" where
  "loadPage place limit rows cursor = pageOf place limit (fetchRows place limit cursor rows)"

lemma loadPage_eq:
  fixes rows :: "'r list" and place :: "'r \<Rightarrow> Place"
  defines "left \<equiv> \<lambda>cursor. filter (\<lambda>r. below cursor (place r)) (newestFirst place rows)"
  shows "loadPage place limit rows cursor = (take limit (left cursor),
    if limit < length (left cursor) then Some (cursorOf (place (last (take limit (left cursor))))) else None)"
proof -
  have "fetchRows place limit cursor rows = take (limit + 1) (left cursor)"
    by (simp add: fetchRows_def left_def newestFirst_filter before_below)
  then show ?thesis by (simp add: loadPage_def pageOf_def Let_def min_def)
qed

lemma left_after:
  assumes desc: "descending place xs" and limit: "0 < limit" "limit < length xs"
  defines "c \<equiv> cursorOf (place (last (take limit xs)))"
  shows "filter (\<lambda>r. below (Some c) (place r)) xs = filter (\<lambda>r. below (Some c) (place r)) (drop limit xs)"
    "(\<And>a b. a \<in> set xs \<Longrightarrow> b \<in> set xs \<Longrightarrow> a \<noteq> b \<Longrightarrow> fst (place a) div 1000 \<noteq> fst (place b) div 1000) \<Longrightarrow>
     filter (\<lambda>r. below (Some c) (place r)) xs = drop limit xs"
proof -
  let ?l = "last (take limit xs)"
  have ne: "take limit xs \<noteq> []" using limit by (metis length_greater_0_conv less_trans take_eq_Nil neq0_conv)
  have parts: "sorted_wrt (\<lambda>a b. place b < place a) (take limit xs @ drop limit xs)"
    using desc by (simp add: descending_def)
  have up: "\<not> below (Some c) (place r)" if "r \<in> set (take limit xs)" for r
  proof
    assume "below (Some c) (place r)"
    then have "place r < place ?l" unfolding c_def by (rule cursor_below)
    moreover have "sorted_wrt (\<lambda>a b. place b < place a) (butlast (take limit xs) @ [?l])"
      using parts ne by (simp add: sorted_wrt_append)
    moreover have "r \<in> set (butlast (take limit xs)) \<or> r = ?l"
      using that ne by (metis append_butlast_last_id in_set_conv_decomp_last list.set_intros(1) set_ConsD rotate1.simps(2) set_rotate1)
    ultimately show False by (auto simp: sorted_wrt_append)
  qed
  then have none: "filter (\<lambda>r. below (Some c) (place r)) (take limit xs) = []" by (auto simp: filter_empty_conv)
  have "filter (\<lambda>r. below (Some c) (place r)) (take limit xs @ drop limit xs) = filter (\<lambda>r. below (Some c) (place r)) (drop limit xs)"
    unfolding filter_append none by simp
  then show eq: "filter (\<lambda>r. below (Some c) (place r)) xs = filter (\<lambda>r. below (Some c) (place r)) (drop limit xs)" by simp
  assume ms: "\<And>a b. a \<in> set xs \<Longrightarrow> b \<in> set xs \<Longrightarrow> a \<noteq> b \<Longrightarrow> fst (place a) div 1000 \<noteq> fst (place b) div 1000"
  have "below (Some c) (place r)" if r: "r \<in> set (drop limit xs)" for r
  proof -
    have "?l \<in> set (take limit xs)" using ne by simp
    then have "place r < place ?l" using sorted_wrt_append [THEN iffD1, OF parts] r by blast
    moreover have "r \<in> set xs" "?l \<in> set xs" "r \<noteq> ?l"
      using r \<open>?l \<in> set (take limit xs)\<close> calculation by (auto dest: in_set_dropD in_set_takeD)
    ultimately show ?thesis unfolding c_def using ms by (intro cursor_other_ms) auto
  qed
  then show "filter (\<lambda>r. below (Some c) (place r)) xs = drop limit xs" unfolding eq by (simp add: filter_True)
qed

definition leftOf :: "('r \<Rightarrow> Place) \<Rightarrow> 'r list \<Rightarrow> PageCursor option \<Rightarrow> 'r list" where
  "leftOf place rows cursor = filter (\<lambda>r. below cursor (place r)) (newestFirst place rows)"

lemma leftOf_None: "leftOf place rows None = newestFirst place rows"
  by (simp add: leftOf_def below_def)

lemma leftOf_descending: "inj_on place (set rows) \<Longrightarrow> distinct rows \<Longrightarrow> descending place (leftOf place rows cursor)"
  using newestFirst_descending unfolding descending_def leftOf_def by (rule sorted_wrt_filter)

text \<open>What is left after a page is part of what the page did not show, and all of it if no two rows share a millisecond.\<close>

lemma leftOf_next:
  assumes rows: "inj_on place (set rows)" "distinct rows" and limit: "0 < limit" "limit < length (leftOf place rows cursor)"
  defines "c \<equiv> cursorOf (place (last (take limit (leftOf place rows cursor))))"
  shows "subseq (leftOf place rows (Some c)) (drop limit (leftOf place rows cursor))"
    "inj_on (\<lambda>r. fst (place r) div 1000) (set rows) \<Longrightarrow> leftOf place rows (Some c) = drop limit (leftOf place rows cursor)"
proof -
  let ?xs = "leftOf place rows cursor"
  have ne: "take limit ?xs \<noteq> []" using limit by (metis length_greater_0_conv less_trans take_eq_Nil neq0_conv)
  have "last (take limit ?xs) \<in> set ?xs" using ne by (meson in_set_takeD last_in_set)
  then have "below cursor (place (last (take limit ?xs)))" by (simp add: leftOf_def)
  then have imp: "below (Some c) (place r) \<Longrightarrow> below cursor (place r)" for r
    using below_down cursor_below unfolding c_def by blast
  have eq: "leftOf place rows (Some c) = filter (\<lambda>r. below (Some c) (place r)) ?xs"
    unfolding leftOf_def filter_filter by (rule filter_cong [OF refl]) (use imp in blast)
  note left = left_after [OF leftOf_descending [OF rows, of cursor] limit, folded c_def]
  show "subseq (leftOf place rows (Some c)) (drop limit ?xs)" unfolding eq left(1) by (rule subseq_filter_left)
  assume ms: "inj_on (\<lambda>r. fst (place r) div 1000) (set rows)"
  show "leftOf place rows (Some c) = drop limit ?xs" unfolding eq
  proof (rule left(2))
    fix a b assume "a \<in> set ?xs" "b \<in> set ?xs" "a \<noteq> b"
    then show "fst (place a) div 1000 \<noteq> fst (place b) div 1000" using ms by (auto simp: leftOf_def dest: inj_onD)
  qed
qed

lemma drop_shorter: "length xs < Suc n \<Longrightarrow> 0 < k \<Longrightarrow> k < length xs \<Longrightarrow> length (drop k xs) < n"
  by simp

lemma followPages_left:
  fixes limit n :: nat
  assumes rows: "inj_on place (set rows)" "distinct rows" "0 < limit" and fuel: "length (leftOf place rows cursor) < n"
  shows "subseq (followPages n (loadPage place limit rows) cursor) (leftOf place rows cursor)"
    "inj_on (\<lambda>r. fst (place r) div 1000) (set rows) \<Longrightarrow>
     followPages n (loadPage place limit rows) cursor = leftOf place rows cursor"
  using fuel
proof (induction n arbitrary: cursor)
  case (Suc n)
  have load: "loadPage place limit rows cursor = (take limit (leftOf place rows cursor),
      if limit < length (leftOf place rows cursor) then Some (cursorOf (place (last (take limit (leftOf place rows cursor))))) else None)"
    for cursor
    by (simp add: loadPage_eq leftOf_def)
  {
    case (1 cursor)
    let ?xs = "leftOf place rows cursor"
    let ?c = "cursorOf (place (last (take limit ?xs)))"
    show ?case
    proof (cases "limit < length ?xs")
      case True
      note after = leftOf_next(1) [OF rows True]
      have "length (leftOf place rows (Some ?c)) \<le> length (drop limit ?xs)" by (rule list_emb_length [OF after])
      also have "length (drop limit ?xs) < n" using drop_shorter [OF 1 rows(3) True] .
      finally have "length (leftOf place rows (Some ?c)) < n" .
      then have "subseq (followPages n (loadPage place limit rows) (Some ?c)) (drop limit ?xs)"
        using Suc.IH(1) after subseq_order.trans by blast
      then have "subseq (take limit ?xs @ followPages n (loadPage place limit rows) (Some ?c)) (take limit ?xs @ drop limit ?xs)"
        by (intro list_emb_append_mono) simp_all
      then show ?thesis using True by (simp add: load [of cursor])
    qed (simp add: load [of cursor])
  next
    case (2 cursor)
    let ?xs = "leftOf place rows cursor"
    let ?c = "cursorOf (place (last (take limit ?xs)))"
    show ?case
    proof (cases "limit < length ?xs")
      case True
      note after = leftOf_next(2) [OF rows True 2(1)]
      have "length (leftOf place rows (Some ?c)) < n" unfolding after by (rule drop_shorter [OF 2(2) rows(3) True])
      then show ?thesis using True Suc.IH(2) [OF 2(1)] by (simp add: load [of cursor] after)
    qed (simp add: load [of cursor])
  }
qed simp_all

end
