(* ===== verification/Notifications.thy ===== *)
theory Notifications
  imports Outbox Paging
begin

text \<open>
  Notifications: \<^verbatim>\<open>src/src/notifications/notifications.service.ts\<close> and \<^verbatim>\<open>notifications.repository.ts\<close> over
  \<^verbatim>\<open>src/src/infra/database/schema/notification.schema.ts\<close>. A notification and the event that announces it are written in
  one transaction. The database clock runs in microseconds, a \<^verbatim>\<open>Date\<close> in milliseconds. The text of dates and cursors
  enters as a codec.
\<close>

section \<open>The table\<close>

datatype NotificationType =
  Friend_request | Friend_accepted | Room_invite | Leaderboard_note | Game_finished_note | Turn_reminder | System_note

datatype NotificationData =
  Friend_request_data string string string "string option" "string option" string
| Friend_accepted_data string string string "string option" "string option" string
| Room_invite_data string string string string "string option" "string option" string
| Leaderboard_data string string int int int int string

record NotificationRow =
  note_id :: string
  note_userId :: string
  note_type :: NotificationType
  note_title :: string
  note_body :: string
  note_data :: "NotificationData option"
  note_read :: bool
  note_createdAt :: int
  note_readAt :: "int option"

record CreateNotificationInput =
  new_userId :: string
  new_type :: NotificationType
  new_title :: string
  new_body :: string
  new_data :: "NotificationData option"

definition readStateCheck :: "NotificationRow \<Rightarrow> bool" where
  "readStateCheck n \<longleftrightarrow> note_read n = (note_readAt n \<noteq> None)"

definition createNotification ::
  "string \<Rightarrow> int \<Rightarrow> CreateNotificationInput \<Rightarrow> NotificationRow list \<Rightarrow> ServiceError + (NotificationRow list \<times> NotificationRow)" where
  "createNotification freshId now input ns =
     (let n = \<lparr>note_id = freshId, note_userId = new_userId input, note_type = new_type input, note_title = new_title input,
               note_body = new_body input, note_data = new_data input, note_read = False, note_createdAt = now, note_readAt = None\<rparr> in
      if list_ex (\<lambda>q. note_id q = freshId) ns then Inl uniqueViolation else Inr (ns @ [n], n))"

definition notePlace :: "NotificationRow \<Rightarrow> Place" where
  "notePlace n = (note_createdAt n, note_id n)"

definition repo_listNotifications ::
  "string \<Rightarrow> nat \<Rightarrow> PageCursor option \<Rightarrow> NotificationRow list \<Rightarrow> NotificationRow list" where
  "repo_listNotifications uid limit cursor ns =
     fetchRows notePlace limit cursor (filter (\<lambda>n. note_userId n = uid) ns)"

definition leaderboardKeyOf :: "NotificationRow \<Rightarrow> string option" where
  "leaderboardKeyOf n = (case note_data n of Some (Leaderboard_data _ key _ _ _ _ _) \<Rightarrow> Some key | _ \<Rightarrow> None)"

definition findLeaderboardNotification :: "string \<Rightarrow> string \<Rightarrow> NotificationRow list \<Rightarrow> NotificationRow option" where
  "findLeaderboardNotification uid key ns =
     find (\<lambda>n. note_userId n = uid \<and> note_type n = Leaderboard_note \<and> leaderboardKeyOf n = Some key) ns"

definition repo_markAsRead :: "int \<Rightarrow> string \<Rightarrow> string \<Rightarrow> NotificationRow list \<Rightarrow> NotificationRow list \<times> NotificationRow option" where
  "repo_markAsRead now nid uid ns =
     (let (rs, changed) = updateWhere (\<lambda>n. note_id n = nid \<and> note_userId n = uid)
        (\<lambda>n. n\<lparr>note_read := True, note_readAt := (case note_readAt n of None \<Rightarrow> Some now | Some t \<Rightarrow> Some t)\<rparr>) ns in
      (rs, firstRow changed))"

definition repo_markAllAsRead :: "int \<Rightarrow> string \<Rightarrow> NotificationRow list \<Rightarrow> NotificationRow list" where
  "repo_markAllAsRead now uid ns = fst (updateWhere (\<lambda>n. note_userId n = uid \<and> \<not> note_read n)
     (\<lambda>n. n\<lparr>note_read := True, note_readAt := Some now\<rparr>) ns)"

section \<open>Writing a notification\<close>

record DateText =
  isoString :: "int \<Rightarrow> string"
  parseDate :: "string \<Rightarrow> int option"

record PlaceCodec =
  dates :: DateText
  cursorJson :: "int \<Rightarrow> string \<Rightarrow> string \<Rightarrow> string"
  parseCursorJson :: "string \<Rightarrow> (int option \<times> string option \<times> string option) option"

definition placeCodecOk :: "PlaceCodec \<Rightarrow> bool" where
  "placeCodecOk K \<longleftrightarrow> (\<forall>ms i. isoString (dates K) ms \<noteq> [] \<and> parseDate (dates K) (isoString (dates K) ms) = Some ms \<and>
     cursorJson K 1 (isoString (dates K) ms) i \<noteq> [] \<and>
     parseCursorJson K (cursorJson K 1 (isoString (dates K) ms) i) = Some (Some 1, Some (isoString (dates K) ms), Some i))"

definition typeName :: "NotificationType \<Rightarrow> string" where
  "typeName t = (case t of Friend_request \<Rightarrow> ''friend_request'' | Friend_accepted \<Rightarrow> ''friend_accepted'' | Room_invite \<Rightarrow> ''room_invite''
     | Leaderboard_note \<Rightarrow> ''leaderboard'' | Game_finished_note \<Rightarrow> ''game_finished'' | Turn_reminder \<Rightarrow> ''turn_reminder''
     | System_note \<Rightarrow> ''system'')"

text \<open>Notifications and the outbox, the tables that a transaction writes together.\<close>

record NoteDb =
  notifications :: "NotificationRow list"
  events :: "OutboxEventRow list"

definition notificationEvent :: "DateText \<Rightarrow> NotificationRow \<Rightarrow> CreateOutboxEventInput" where
  "notificationEvent D n =
     \<lparr>input_key = ''notification.created:'' @ note_id n, input_topic = topicNotificationCreated,
      input_payload = [''notificationId'' \<mapsto> note_id n, ''userId'' \<mapsto> note_userId n, ''type'' \<mapsto> typeName (note_type n),
        ''createdAt'' \<mapsto> isoString D (note_createdAt n div 1000)],
      input_maxAttempts = None\<rparr>"

definition createNotificationOutbox ::
  "DateText \<Rightarrow> string \<times> string \<Rightarrow> int \<Rightarrow> CreateNotificationInput \<Rightarrow> NoteDb \<Rightarrow> ServiceError + (NoteDb \<times> (NotificationRow \<times> string))" where
  "createNotificationOutbox D ids now input d =
     andThen (createNotification (fst ids) now input (notifications d)) (\<lambda>(ns, n).
     andThen (outbox_createOrGet (snd ids) (now div 1000) (notificationEvent D n) (events d)) (\<lambda>(rs, r).
     Inr (\<lparr>notifications = ns, events = rs\<rparr>, n, outbox_id r)))"

definition resolveAvatarUrl :: "string \<Rightarrow> string option \<Rightarrow> string option" where
  "resolveAvatarUrl baseUrl key =
     (if \<not> truthy key then None
      else Some ((if baseUrl \<noteq> [] \<and> last baseUrl = CHR ''/'' then butlast baseUrl else baseUrl) @ ''/'' @ the key))"

definition friendRequestNote ::
  "string \<Rightarrow> string \<Rightarrow> string \<Rightarrow> string \<Rightarrow> string option \<Rightarrow> string \<Rightarrow> CreateNotificationInput" where
  "friendRequestNote baseUrl uid requesterId requesterUsername avatar friendshipId =
     \<lparr>new_userId = uid, new_type = Friend_request, new_title = ''New friend request'',
      new_body = requesterUsername @ '' sent you a friend request'',
      new_data = Some (Friend_request_data friendshipId requesterId requesterUsername avatar (resolveAvatarUrl baseUrl avatar)
        (''/users/'' @ requesterUsername))\<rparr>"

definition friendAcceptedNote ::
  "string \<Rightarrow> string \<Rightarrow> string \<Rightarrow> string \<Rightarrow> string option \<Rightarrow> string \<Rightarrow> CreateNotificationInput" where
  "friendAcceptedNote baseUrl uid friendId friendUsername avatar friendshipId =
     \<lparr>new_userId = uid, new_type = Friend_accepted, new_title = ''Friend request accepted'',
      new_body = friendUsername @ '' accepted your friend request'',
      new_data = Some (Friend_accepted_data friendshipId friendId friendUsername avatar (resolveAvatarUrl baseUrl avatar)
        (''/users/'' @ friendUsername))\<rparr>"

definition roomInviteNote ::
  "string \<Rightarrow> string \<Rightarrow> string \<Rightarrow> string \<Rightarrow> string \<Rightarrow> string \<Rightarrow> string option \<Rightarrow> CreateNotificationInput" where
  "roomInviteNote baseUrl uid rid rcode inviterId inviterUsername avatar =
     \<lparr>new_userId = uid, new_type = Room_invite, new_title = ''Room invite'',
      new_body = inviterUsername @ '' invited you to a room'',
      new_data = Some (Room_invite_data rid rcode inviterId inviterUsername avatar (resolveAvatarUrl baseUrl avatar)
        (''/rooms/'' @ rcode))\<rparr>"

section \<open>Reading notifications\<close>

definition defaultLimit :: nat where "defaultLimit = 50"
definition maxLimit :: nat where "maxLimit = 100"

definition pageLimit :: "nat option \<Rightarrow> nat" where
  "pageLimit dtoLimit = min (case dtoLimit of None \<Rightarrow> defaultLimit | Some n \<Rightarrow> n) maxLimit"

definition encodePlace :: "PlaceCodec \<Rightarrow> PageCursor \<Rightarrow> string" where
  "encodePlace K c = cursorJson K 1 (isoString (dates K) (fst c)) (snd c)"

definition decodePlace :: "PlaceCodec \<Rightarrow> ServiceError \<Rightarrow> string option \<Rightarrow> ServiceError + PageCursor option" where
  "decodePlace K invalid cursor =
     (if \<not> truthy cursor then Inr None
      else case parseCursorJson K (the cursor) of
        None \<Rightarrow> Inl invalid
      | Some (v, created, i) \<Rightarrow>
          if v \<noteq> Some 1 \<or> \<not> truthy created \<or> \<not> truthy i then Inl invalid
          else case parseDate (dates K) (the created) of None \<Rightarrow> Inl invalid | Some ms \<Rightarrow> Inr (Some (ms, the i)))"

definition invalidNotificationCursor :: ServiceError where
  "invalidNotificationCursor = BadRequestException ''Invalid notification cursor''"

definition list_notifications ::
  "PlaceCodec \<Rightarrow> string \<Rightarrow> nat option \<Rightarrow> string option \<Rightarrow> NotificationRow list \<Rightarrow>
   ServiceError + (NotificationRow list \<times> string option)" where
  "list_notifications K uid dtoLimit dtoCursor ns =
     andThen (decodePlace K invalidNotificationCursor dtoCursor) (\<lambda>cursor.
     let limit = pageLimit dtoLimit;
         (items, next) = pageOf notePlace limit (repo_listNotifications uid limit cursor ns) in
     Inr (items, map_option (encodePlace K) next))"

definition markAsRead :: "int \<Rightarrow> string \<Rightarrow> string \<Rightarrow> NotificationRow list \<Rightarrow> NotificationRow list \<times> (ServiceError + NotificationRow)" where
  "markAsRead now uid nid ns =
     (case repo_markAsRead now nid uid ns of
        (rs, None) \<Rightarrow> (rs, Inl (NotFoundException ''Notification not found''))
      | (rs, Some n) \<Rightarrow> (rs, Inr n))"

definition markAllAsRead :: "int \<Rightarrow> string \<Rightarrow> NotificationRow list \<Rightarrow> NotificationRow list \<times> string" where
  "markAllAsRead now uid ns = (repo_markAllAsRead now uid ns, ''Notifications marked as read'')"

section \<open>Reading all pages\<close>

text \<open>A client that follows the cursors.\<close>

fun readPages :: "nat \<Rightarrow> (string option \<Rightarrow> ServiceError + ('r list \<times> string option)) \<Rightarrow> string option \<Rightarrow> ServiceError + 'r list" where
  "readPages 0 load cursor = Inr []"
| "readPages (Suc n) load cursor =
     andThen (load cursor) (\<lambda>(items, next).
     case next of None \<Rightarrow> Inr items | Some c \<Rightarrow> andThen (readPages n load (Some c)) (\<lambda>others. Inr (items @ others)))"

lemma decodePlace_encodePlace: "placeCodecOk K \<Longrightarrow> i \<noteq> [] \<Longrightarrow> decodePlace K e (Some (encodePlace K (ms, i))) = Inr (Some (ms, i))"
  by (simp add: placeCodecOk_def decodePlace_def encodePlace_def)

lemma readPages_follow:
  assumes K: "placeCodecOk K" and load: "\<And>text cursor. decodePlace K e text = Inr cursor \<Longrightarrow>
      load text = Inr (map_prod id (map_option (encodePlace K)) (loadPage place limit rs cursor))"
    and ids: "\<forall>r\<in>set rs. snd (place r) \<noteq> []" "0 < limit"
  shows "(\<forall>ms i. cursor = Some (ms, i) \<longrightarrow> i \<noteq> []) \<Longrightarrow>
    readPages n load (map_option (encodePlace K) cursor) = Inr (followPages n (loadPage place limit rs) cursor)"
proof (induction n arbitrary: cursor)
  case (Suc n)
  have "decodePlace K e (map_option (encodePlace K) cursor) = Inr cursor"
  proof (cases cursor)
    case None
    then show ?thesis by (simp add: decodePlace_def)
  next
    case (Some c)
    then show ?thesis using Suc.prems decodePlace_encodePlace [OF K, of "snd c" e "fst c"] by (cases c) simp
  qed
  note loaded = load [OF this]
  show ?case
  proof (cases "snd (loadPage place limit rs cursor)")
    case None
    then show ?thesis by (cases "loadPage place limit rs cursor") (simp add: loaded)
  next
    case (Some c)
    let ?xs = "leftOf place rs cursor"
    have c: "limit < length ?xs" "c = cursorOf (place (last (take limit ?xs)))"
      using Some by (auto simp: loadPage_eq leftOf_def split: if_splits)
    have "last (take limit ?xs) \<in> set ?xs" using c(1) ids(2)
      by (metis in_set_takeD last_in_set length_greater_0_conv less_trans neq0_conv take_eq_Nil)
    then have "last (take limit ?xs) \<in> set rs" by (simp add: leftOf_def)
    then have "snd c \<noteq> []" using ids(1) c(2) by (simp add: cursorOf_def)
    then have "readPages n load (map_option (encodePlace K) (Some c)) = Inr (followPages n (loadPage place limit rs) (Some c))"
      by (intro Suc.IH) auto
    then show ?thesis using Some by (cases "loadPage place limit rs cursor") (simp add: loaded)
  qed
qed simp

lemma list_notifications_page:
  assumes "decodePlace K invalidNotificationCursor text = Inr cursor"
  shows "list_notifications K uid dtoLimit text ns =
    Inr (map_prod id (map_option (encodePlace K)) (loadPage notePlace (pageLimit dtoLimit) (filter (\<lambda>n. note_userId n = uid) ns) cursor))"
  using assms by (simp add: list_notifications_def repo_listNotifications_def loadPage_def Let_def split: prod.splits)

lemma notePlace_inj: "distinct (map note_id ns) \<Longrightarrow> inj_on notePlace (set (filter P ns)) \<and> distinct (filter P ns)"
  by (auto simp: notePlace_def distinct_map inj_on_def)

text \<open>
  Who pages through the notifications of a user sees none twice and each in its place, newest first; and sees all of them
  unless two were created within one millisecond.
\<close>

theorem notifications_are_read_once:
  assumes K: "placeCodecOk K" and ids: "distinct (map note_id ns)" "[] \<notin> note_id ` set ns"
    and limit: "dtoLimit \<noteq> Some 0" and fuel: "length ns < n"
  shows "\<exists>items. readPages n (\<lambda>c. list_notifications K uid dtoLimit c ns) None = Inr items \<and>
    subseq items (newestFirst notePlace (filter (\<lambda>n. note_userId n = uid) ns)) \<and>
    (distinct (map (\<lambda>n. note_createdAt n div 1000) (filter (\<lambda>n. note_userId n = uid) ns)) \<longrightarrow>
       items = newestFirst notePlace (filter (\<lambda>n. note_userId n = uid) ns))"
proof -
  let ?rs = "filter (\<lambda>n. note_userId n = uid) ns"
  let ?load = "loadPage notePlace (pageLimit dtoLimit) ?rs"
  have lim: "0 < pageLimit dtoLimit" using limit by (cases dtoLimit) (auto simp: pageLimit_def defaultLimit_def maxLimit_def)
  have "readPages n (\<lambda>c. list_notifications K uid dtoLimit c ns) (map_option (encodePlace K) None) = Inr (followPages n ?load None)"
    using ids(2) by (intro readPages_follow [OF K list_notifications_page _ lim]) (auto simp: notePlace_def image_iff)
  moreover have "length (leftOf notePlace ?rs None) < n"
    using le_less_trans [OF length_filter_le fuel] by (simp add: leftOf_None newestFirst_def)
  note follow = followPages_left [OF conjunct1 [OF notePlace_inj [OF ids(1)]] conjunct2 [OF notePlace_inj [OF ids(1)]] lim this,
      unfolded leftOf_None]
  moreover have "distinct (map (\<lambda>n. note_createdAt n div 1000) ?rs) \<Longrightarrow> inj_on (\<lambda>r. fst (notePlace r) div 1000) (set ?rs)"
    by (simp add: distinct_map notePlace_def)
  ultimately show ?thesis by auto
qed

text \<open>
  Paging skips rows. The cursor of a page has lost the microseconds of its last row; an older row of the same
  millisecond, unless it was created on the millisecond itself, comes on no later page, however many are read.
\<close>

theorem pages_skip_rows:
  assumes K: "placeCodecOk K" and ids: "distinct (map note_id ns)" "[] \<notin> note_id ` set ns"
    and limit: "dtoLimit \<noteq> Some 0" and fuel: "length ns < n"
    and l: "l \<in> set ns" and r: "note_createdAt r div 1000 = note_createdAt l div 1000" "note_createdAt r mod 1000 \<noteq> 0"
  shows "\<exists>items. readPages n (\<lambda>c. list_notifications K uid dtoLimit c ns) (Some (encodePlace K (cursorOf (notePlace l)))) = Inr items \<and>
    r \<notin> set items"
proof -
  let ?rs = "filter (\<lambda>n. note_userId n = uid) ns"
  let ?load = "loadPage notePlace (pageLimit dtoLimit) ?rs"
  let ?c = "Some (cursorOf (notePlace l))"
  have lim: "0 < pageLimit dtoLimit" using limit by (cases dtoLimit) (auto simp: pageLimit_def defaultLimit_def maxLimit_def)
  have read: "readPages n (\<lambda>c. list_notifications K uid dtoLimit c ns) (map_option (encodePlace K) ?c) = Inr (followPages n ?load ?c)"
    using ids(2) l by (intro readPages_follow [OF K list_notifications_page _ lim]) (auto simp: notePlace_def cursorOf_def image_iff)
  have "length (newestFirst notePlace ?rs) < n" using le_less_trans [OF length_filter_le fuel] by (simp add: newestFirst_def)
  then have "length (leftOf notePlace ?rs ?c) < n" unfolding leftOf_def by (rule le_less_trans [OF length_filter_le])
  then have sub: "subseq (followPages n ?load ?c) (leftOf notePlace ?rs ?c)"
    using followPages_left(1) notePlace_inj [OF ids(1)] lim by blast
  have "0 < note_createdAt r mod 1000" using r(2) by (simp add: order_less_le)
  then have "note_createdAt l div 1000 * 1000 < note_createdAt r"
    using r(1) div_mult_mod_eq [of "note_createdAt r" 1000] by linarith
  then have "\<not> below ?c (notePlace r)"
    by (simp add: below_def cursorOf_def notePlace_def less_prod_simp)
  then have "r \<notin> set (leftOf notePlace ?rs ?c)" by (simp add: leftOf_def)
  then have "r \<notin> set (followPages n ?load ?c)" using list_emb_set [OF sub] by metis
  then show ?thesis using read by simp
qed

text \<open>Two notifications of one millisecond, read in pages of one.\<close>

definition sampleCodec :: PlaceCodec where
  "sampleCodec = \<lparr>dates = \<lparr>isoString = \<lambda>ms. (if ms < 0 then CHR ''-'' else CHR ''+'') # replicate (nat \<bar>ms\<bar>) CHR ''i'',
       parseDate = \<lambda>t. Some (if hd t = CHR ''-'' then - int (length (tl t)) else int (length (tl t)))\<rparr>,
     cursorJson = \<lambda>v d i. replicate (length d) CHR ''d'' @ CHR ''.'' # d @ i,
     parseCursorJson = \<lambda>t. let k = length (takeWhile (\<lambda>c. c = CHR ''d'') t); u = drop (k + 1) t in Some (Some 1, Some (take k u), Some (drop k u))\<rparr>"

lemma sampleCodec_ok: "placeCodecOk sampleCodec"
proof -
  have "takeWhile (\<lambda>c. c = CHR ''d'') (replicate k CHR ''d'' @ CHR ''.'' # u) = replicate k CHR ''d''" for k u
    by (induction k) simp_all
  then show ?thesis by (simp add: placeCodecOk_def sampleCodec_def Let_def)
qed

definition sampleNote :: "string \<Rightarrow> int \<Rightarrow> NotificationRow" where
  "sampleNote i t = \<lparr>note_id = i, note_userId = ''u1'', note_type = Friend_request, note_title = [], note_body = [], note_data = None,
     note_read = False, note_createdAt = t, note_readAt = None\<rparr>"

lemma pages_skip_rows_witness:
  "\<exists>items. readPages 3 (\<lambda>c. list_notifications sampleCodec ''u1'' (Some 1) c [sampleNote ''a'' 5001, sampleNote ''b'' 5002])
     (Some (encodePlace sampleCodec (cursorOf (notePlace (sampleNote ''b'' 5002))))) = Inr items \<and> sampleNote ''a'' 5001 \<notin> set items"
  by (rule pages_skip_rows [OF sampleCodec_ok]) (simp_all add: sampleNote_def)

lemma notifications_are_read_once_witness:
  "readPages 3 (\<lambda>c. list_notifications sampleCodec ''u1'' (Some 1) c [sampleNote ''a'' 5001, sampleNote ''b'' 7002]) None
     = Inr [sampleNote ''b'' 7002, sampleNote ''a'' 5001]"
proof -
  have "newestFirst notePlace [sampleNote ''a'' 5001, sampleNote ''b'' 7002] = [sampleNote ''b'' 7002, sampleNote ''a'' 5001]"
    by (simp add: newestFirst_def notePlace_def sampleNote_def insort_key.simps less_eq_prod_simp)
  moreover have "filter (\<lambda>n. note_userId n = ''u1'') [sampleNote ''a'' 5001, sampleNote ''b'' 7002] = [sampleNote ''a'' 5001, sampleNote ''b'' 7002]"
    by (simp add: sampleNote_def)
  ultimately show ?thesis
    using notifications_are_read_once [OF sampleCodec_ok, of "[sampleNote ''a'' 5001, sampleNote ''b'' 7002]" "Some 1" 3 "''u1''"]
    by (simp add: sampleNote_def)
qed

end
