(* ===== verification/Friends.thy ===== *)
theory Friends
  imports Notifications Auth_Service
begin

text \<open>
  Friend requests and friendships: \<^verbatim>\<open>src/src/friends/friends.service.ts\<close> and \<^verbatim>\<open>friends.repository.ts\<close> over the table
  \<^verbatim>\<open>friendships\<close> of \<^verbatim>\<open>src/src/infra/database/schema/user.schema.ts\<close>. The clock of the database runs in microseconds. The
  keys of cached pages are tuples.
\<close>

section \<open>The table\<close>

datatype FriendshipStatus = Friendship_pending | Friendship_accepted | Friendship_blocked

record FriendshipRow =
  friendship_id :: string
  requesterId :: string
  addresseeId :: string
  friendship_status :: FriendshipStatus
  friendship_createdAt :: int
  friendship_updatedAt :: int

record SocialDb =
  accounts :: AuthDb
  friendships :: "FriendshipRow list"
  noteDb :: NoteDb

definition samePair :: "FriendshipRow \<Rightarrow> FriendshipRow \<Rightarrow> bool" where
  "samePair a b \<longleftrightarrow> min (requesterId a) (addresseeId a) = min (requesterId b) (addresseeId b) \<and>
     max (requesterId a) (addresseeId a) = max (requesterId b) (addresseeId b)"

definition involves :: "string \<Rightarrow> FriendshipRow \<Rightarrow> bool" where
  "involves uid f \<longleftrightarrow> requesterId f = uid \<or> addresseeId f = uid"

definition findActiveUserById :: "string \<Rightarrow> SocialDb \<Rightarrow> UserRow option" where
  "findActiveUserById uid d = find (\<lambda>u. user_id u = uid \<and> deletedAt u = None) (users (accounts d))"

definition findActiveUserByUsername :: "string \<Rightarrow> SocialDb \<Rightarrow> UserRow option" where
  "findActiveUserByUsername name d =
     find (\<lambda>u. user_username u = name \<and> user_status u = User_active \<and> emailVerified u \<and> deletedAt u = None) (users (accounts d))"

definition findFriendshipBetween :: "string \<Rightarrow> string \<Rightarrow> SocialDb \<Rightarrow> FriendshipRow option" where
  "findFriendshipBetween a b d =
     find (\<lambda>f. requesterId f = a \<and> addresseeId f = b \<or> requesterId f = b \<and> addresseeId f = a) (friendships d)"

definition createFriendRequest ::
  "string \<Rightarrow> int \<Rightarrow> string \<Rightarrow> string \<Rightarrow> SocialDb \<Rightarrow> ServiceError + (SocialDb \<times> FriendshipRow)" where
  "createFriendRequest freshId now requester addressee d =
     (let f = \<lparr>friendship_id = freshId, requesterId = requester, addresseeId = addressee, friendship_status = Friendship_pending,
               friendship_createdAt = now, friendship_updatedAt = now\<rparr> in
      if requester = addressee then Inl checkViolation
      else if list_ex (\<lambda>q. friendship_id q = freshId \<or> samePair q f) (friendships d) then Inl uniqueViolation
      else Inr (d\<lparr>friendships := friendships d @ [f]\<rparr>, f))"

definition acceptFriendRequest :: "int \<Rightarrow> string \<Rightarrow> string \<Rightarrow> SocialDb \<Rightarrow> SocialDb \<times> FriendshipRow option" where
  "acceptFriendRequest now fid addressee d =
     (let (rs, changed) = updateWhere
            (\<lambda>f. friendship_id f = fid \<and> addresseeId f = addressee \<and> friendship_status f = Friendship_pending)
            (\<lambda>f. f\<lparr>friendship_status := Friendship_accepted, friendship_updatedAt := now\<rparr>) (friendships d) in
      (d\<lparr>friendships := rs\<rparr>, firstRow changed))"

text \<open>\<^verbatim>\<open>delete ... where ... returning ...\<close>\<close>

definition deleteFriendships :: "(FriendshipRow \<Rightarrow> bool) \<Rightarrow> SocialDb \<Rightarrow> SocialDb \<times> FriendshipRow option" where
  "deleteFriendships P d = (d\<lparr>friendships := filter (\<lambda>f. \<not> P f) (friendships d)\<rparr>, firstRow (filter P (friendships d)))"

definition rejectFriendRequest :: "string \<Rightarrow> string \<Rightarrow> SocialDb \<Rightarrow> SocialDb \<times> FriendshipRow option" where
  "rejectFriendRequest fid addressee d =
     deleteFriendships (\<lambda>f. friendship_id f = fid \<and> addresseeId f = addressee \<and> friendship_status f = Friendship_pending) d"

definition cancelFriendRequest :: "string \<Rightarrow> string \<Rightarrow> SocialDb \<Rightarrow> SocialDb \<times> FriendshipRow option" where
  "cancelFriendRequest fid requester d =
     deleteFriendships (\<lambda>f. friendship_id f = fid \<and> requesterId f = requester \<and> friendship_status f = Friendship_pending) d"

definition repo_removeFriend :: "string \<Rightarrow> string \<Rightarrow> SocialDb \<Rightarrow> SocialDb \<times> FriendshipRow option" where
  "repo_removeFriend fid uid d =
     deleteFriendships (\<lambda>f. friendship_id f = fid \<and> friendship_status f = Friendship_accepted \<and> involves uid f) d"

section \<open>The service\<close>

record FriendSummaryRow =
  summary_friendshipId :: string
  summary_userId :: string
  summary_email :: string
  summary_username :: string
  summary_avatarObjectKey :: "string option"
  summary_createdAt :: int
  summary_updatedAt :: int

record FriendRequestSummaryRow =
  request_friendshipId :: string
  request_requesterId :: string
  request_addresseeId :: string
  request_requesterUsername :: string
  request_requesterAvatarObjectKey :: "string option"
  request_addresseeUsername :: string
  request_addresseeAvatarObjectKey :: "string option"
  request_createdAt :: int
  request_updatedAt :: int

type_synonym FriendsPage = "FriendSummaryRow list \<times> string option"
type_synonym RequestsPage = "FriendRequestSummaryRow list \<times> string option"

record SocialState =
  social :: SocialDb
  publishJobs :: "OutboxJob list"
  friendVersions :: "string \<rightharpoonup> int"
  friendPages :: "string \<times> int \<times> nat \<rightharpoonup> FriendsPage \<times> int"
  requestPages :: "string \<times> int \<times> nat \<rightharpoonup> (RequestsPage \<times> RequestsPage) \<times> int"

definition incrVersion :: "(string \<rightharpoonup> int) \<Rightarrow> string \<Rightarrow> (string \<rightharpoonup> int)" where
  "incrVersion m uid = m(uid \<mapsto> (case m uid of None \<Rightarrow> 0 | Some n \<Rightarrow> n) + 1)"

definition invalidateFriendListCache :: "string list \<Rightarrow> SocialState \<Rightarrow> SocialState" where
  "invalidateFriendListCache uids st =
     st\<lparr>friendVersions := foldl incrVersion (friendVersions st) (remdups (filter (\<lambda>u. u \<noteq> []) uids))\<rparr>"

definition getFriendListCacheVersion :: "string \<Rightarrow> SocialState \<Rightarrow> int" where
  "getFriendListCacheVersion uid st = (case friendVersions st uid of None \<Rightarrow> 1 | Some n \<Rightarrow> n)"

definition enqueue :: "string \<Rightarrow> SocialState \<Rightarrow> SocialState" where
  "enqueue eid st = st\<lparr>publishJobs := publishJobs st @ [enqueuePublishEvent eid]\<rparr>"

text \<open>Fresh identifiers of the friendship, of the notification and of its event.\<close>

type_synonym FreshIds = "string \<times> string \<times> string"

definition sendRequestTx ::
  "DateText \<Rightarrow> string \<Rightarrow> FreshIds \<Rightarrow> int \<Rightarrow> UserRow \<Rightarrow> UserRow \<Rightarrow> string \<Rightarrow> SocialDb \<Rightarrow> ServiceError + (SocialDb \<times> (FriendshipRow \<times> string))" where
  "sendRequestTx D baseUrl ids now requester addressee me d =
     andThen (createFriendRequest (fst ids) now me (user_id addressee) d) (\<lambda>(d1, f).
     andThen (createNotificationOutbox D (snd ids) now
        (friendRequestNote baseUrl (user_id addressee) (user_id requester) (user_username requester) (avatarObjectKey requester)
           (friendship_id f)) (noteDb d1)) (\<lambda>(ns, n, eid).
     Inr (d1\<lparr>noteDb := ns\<rparr>, f, eid)))"

definition sendRequest ::
  "DateText \<Rightarrow> string \<Rightarrow> FreshIds \<Rightarrow> int \<Rightarrow> AuthUser \<Rightarrow> string \<Rightarrow> SocialState \<Rightarrow> SocialState \<times> (ServiceError + FriendshipRow)" where
  "sendRequest D baseUrl ids now me dtoUsername st =
     (let name = normalized dtoUsername in
      if name = auth_username me then (st, Inl (BadRequestException ''You cannot add yourself as a friend''))
      else case findActiveUserByUsername name (social st) of
        None \<Rightarrow> (st, Inl (NotFoundException ''User not found''))
      | Some addressee \<Rightarrow>
          if findFriendshipBetween (auth_id me) (user_id addressee) (social st) \<noteq> None
          then (st, Inl (ConflictException ''Friendship already exists''))
          else case findActiveUserById (auth_id me) (social st) of
            None \<Rightarrow> (st, Inl (NotFoundException ''User not found''))
          | Some requester \<Rightarrow>
              (case sendRequestTx D baseUrl ids now requester addressee (auth_id me) (social st) of
                 Inl e \<Rightarrow> (st, Inl (if e = uniqueViolation then ConflictException ''Friendship already exists'' else e))
               | Inr (d, f, eid) \<Rightarrow>
                   (enqueue eid (invalidateFriendListCache [auth_id me, user_id addressee] (st\<lparr>social := d\<rparr>)), Inr f)))"

definition acceptRequestTx ::
  "DateText \<Rightarrow> string \<Rightarrow> string \<times> string \<Rightarrow> int \<Rightarrow> UserRow \<Rightarrow> string \<Rightarrow> string \<Rightarrow> SocialDb \<Rightarrow>
   ServiceError + (SocialDb \<times> (FriendshipRow \<times> string) option)" where
  "acceptRequestTx D baseUrl ids now accepter me fid d =
     (case acceptFriendRequest now fid me d of
        (d1, None) \<Rightarrow> Inr (d1, None)
      | (d1, Some f) \<Rightarrow>
          andThen (createNotificationOutbox D ids now
             (friendAcceptedNote baseUrl (requesterId f) (user_id accepter) (user_username accepter) (avatarObjectKey accepter)
                (friendship_id f)) (noteDb d1)) (\<lambda>(ns, n, eid).
          Inr (d1\<lparr>noteDb := ns\<rparr>, Some (f, eid))))"

definition acceptRequest ::
  "DateText \<Rightarrow> string \<Rightarrow> string \<times> string \<Rightarrow> int \<Rightarrow> AuthUser \<Rightarrow> string \<Rightarrow> SocialState \<Rightarrow> SocialState \<times> (ServiceError + FriendshipRow)" where
  "acceptRequest D baseUrl ids now me fid st =
     (case findActiveUserById (auth_id me) (social st) of
        None \<Rightarrow> (st, Inl (NotFoundException ''User not found''))
      | Some accepter \<Rightarrow>
          (case acceptRequestTx D baseUrl ids now accepter (auth_id me) fid (social st) of
             Inl e \<Rightarrow> (st, Inl e)
           | Inr (d, None) \<Rightarrow> (st\<lparr>social := d\<rparr>, Inl (NotFoundException ''Friend request not found''))
           | Inr (d, Some (f, eid)) \<Rightarrow>
               (enqueue eid (invalidateFriendListCache [requesterId f, addresseeId f] (st\<lparr>social := d\<rparr>)), Inr f)))"

definition ended ::
  "string \<Rightarrow> SocialDb \<times> FriendshipRow option \<Rightarrow> SocialState \<Rightarrow> SocialState \<times> (ServiceError + unit)" where
  "ended missing r st =
     (case r of
        (d, None) \<Rightarrow> (st\<lparr>social := d\<rparr>, Inl (NotFoundException missing))
      | (d, Some f) \<Rightarrow> (invalidateFriendListCache [requesterId f, addresseeId f] (st\<lparr>social := d\<rparr>), Inr ()))"

definition rejectRequest :: "AuthUser \<Rightarrow> string \<Rightarrow> SocialState \<Rightarrow> SocialState \<times> (ServiceError + unit)" where
  "rejectRequest me fid st = ended ''Friend request not found'' (rejectFriendRequest fid (auth_id me) (social st)) st"

definition cancelRequest :: "AuthUser \<Rightarrow> string \<Rightarrow> SocialState \<Rightarrow> SocialState \<times> (ServiceError + unit)" where
  "cancelRequest me fid st = ended ''Friend request not found'' (cancelFriendRequest fid (auth_id me) (social st)) st"

definition removeFriend :: "AuthUser \<Rightarrow> string \<Rightarrow> SocialState \<Rightarrow> SocialState \<times> (ServiceError + unit)" where
  "removeFriend me fid st = ended ''Friendship not found'' (repo_removeFriend fid (auth_id me) (social st)) st"

section \<open>Lists\<close>

definition friendshipPlace :: "FriendshipRow \<Rightarrow> Place" where
  "friendshipPlace f = (friendship_createdAt f, friendship_id f)"

text \<open>The join: a friendship with the other user of it, if that account is not deleted.\<close>

definition otherUser :: "string \<Rightarrow> FriendshipRow \<Rightarrow> SocialDb \<Rightarrow> UserRow option" where
  "otherUser uid f d =
     find (\<lambda>u. (requesterId f = uid \<and> user_id u = addresseeId f \<or> addresseeId f = uid \<and> user_id u = requesterId f) \<and> deletedAt u = None)
       (users (accounts d))"

definition friendsOf :: "string \<Rightarrow> SocialDb \<Rightarrow> FriendshipRow list" where
  "friendsOf uid d =
     filter (\<lambda>f. friendship_status f = Friendship_accepted \<and> involves uid f \<and> otherUser uid f d \<noteq> None) (friendships d)"

definition summaryOf :: "string \<Rightarrow> SocialDb \<Rightarrow> FriendshipRow \<Rightarrow> FriendSummaryRow" where
  "summaryOf uid d f =
     (let u = the (otherUser uid f d) in
      \<lparr>summary_friendshipId = friendship_id f, summary_userId = user_id u, summary_email = user_email u,
       summary_username = user_username u, summary_avatarObjectKey = avatarObjectKey u,
       summary_createdAt = friendship_createdAt f div 1000, summary_updatedAt = friendship_updatedAt f div 1000\<rparr>)"

definition loadFriends :: "PlaceCodec \<Rightarrow> string \<Rightarrow> nat \<Rightarrow> PageCursor option \<Rightarrow> SocialDb \<Rightarrow> FriendsPage" where
  "loadFriends K uid limit cursor d =
     (let (items, next) = pageOf friendshipPlace limit (fetchRows friendshipPlace limit cursor (friendsOf uid d)) in
      (map (summaryOf uid d) items, map_option (encodePlace K) next))"

definition firstPageTtlSeconds :: int where "firstPageTtlSeconds = 60"

definition invalidFriendsCursor :: ServiceError where
  "invalidFriendsCursor = BadRequestException ''Invalid friends cursor''"

text \<open>The first page is cached under the version of the list; \<open>ttl\<close> is its time to live, in milliseconds, after the jitter.\<close>

definition getOrSet :: "int \<Rightarrow> int \<Rightarrow> 'k \<Rightarrow> 'v \<Rightarrow> ('k \<rightharpoonup> 'v \<times> int) \<Rightarrow> ('k \<rightharpoonup> 'v \<times> int) \<times> 'v" where
  "getOrSet now ttl key fresh pages =
     (let store = (pages(key \<mapsto> (fresh, now + ttl)), fresh) in
      case pages key of None \<Rightarrow> store | Some (page, until) \<Rightarrow> if now < until then (pages, page) else store)"

definition listFriends ::
  "PlaceCodec \<Rightarrow> int \<Rightarrow> int \<Rightarrow> AuthUser \<Rightarrow> nat option \<Rightarrow> string option \<Rightarrow> SocialState \<Rightarrow> SocialState \<times> (ServiceError + FriendsPage)" where
  "listFriends K now ttl me dtoLimit dtoCursor st =
     (let limit = pageLimit dtoLimit in
      case decodePlace K invalidFriendsCursor dtoCursor of
        Inl e \<Rightarrow> (st, Inl e)
      | Inr None \<Rightarrow>
          (case getOrSet now ttl (auth_id me, getFriendListCacheVersion (auth_id me) st, limit)
              (loadFriends K (auth_id me) limit None (social st)) (friendPages st) of
             (pages, page) \<Rightarrow> (st\<lparr>friendPages := pages\<rparr>, Inr page))
      | Inr (Some c) \<Rightarrow> (st, Inr (loadFriends K (auth_id me) limit (Some c) (social st))))"

definition requestsOf :: "bool \<Rightarrow> string \<Rightarrow> SocialDb \<Rightarrow> FriendshipRow list" where
  "requestsOf incoming uid d =
     filter (\<lambda>f. friendship_status f = Friendship_pending \<and> (if incoming then addresseeId f = uid else requesterId f = uid) \<and>
        findActiveUserById (requesterId f) d \<noteq> None \<and> findActiveUserById (addresseeId f) d \<noteq> None) (friendships d)"

definition requestSummaryOf :: "SocialDb \<Rightarrow> FriendshipRow \<Rightarrow> FriendRequestSummaryRow" where
  "requestSummaryOf d f =
     (let r = the (findActiveUserById (requesterId f) d); a = the (findActiveUserById (addresseeId f) d) in
      \<lparr>request_friendshipId = friendship_id f, request_requesterId = requesterId f, request_addresseeId = addresseeId f,
       request_requesterUsername = user_username r, request_requesterAvatarObjectKey = avatarObjectKey r,
       request_addresseeUsername = user_username a, request_addresseeAvatarObjectKey = avatarObjectKey a,
       request_createdAt = friendship_createdAt f div 1000, request_updatedAt = friendship_updatedAt f div 1000\<rparr>)"

definition loadFriendRequests ::
  "PlaceCodec \<Rightarrow> string \<Rightarrow> nat \<Rightarrow> PageCursor option \<Rightarrow> PageCursor option \<Rightarrow> SocialDb \<Rightarrow> RequestsPage \<times> RequestsPage" where
  "loadFriendRequests K uid limit incomingCursor outgoingCursor d =
     (let load = (\<lambda>incoming cursor. map_prod (map (requestSummaryOf d)) (map_option (encodePlace K))
            (pageOf friendshipPlace limit (fetchRows friendshipPlace limit cursor (requestsOf incoming uid d)))) in
      (load True incomingCursor, load False outgoingCursor))"

definition listRequests ::
  "PlaceCodec \<Rightarrow> int \<Rightarrow> int \<Rightarrow> AuthUser \<Rightarrow> nat option \<Rightarrow> string option \<Rightarrow> string option \<Rightarrow> SocialState \<Rightarrow>
   SocialState \<times> (ServiceError + (RequestsPage \<times> RequestsPage))" where
  "listRequests K now ttl me dtoLimit dtoIncoming dtoOutgoing st =
     (let limit = pageLimit dtoLimit in
      case decodePlace K invalidFriendsCursor dtoIncoming of
        Inl e \<Rightarrow> (st, Inl e)
      | Inr incoming \<Rightarrow>
          (case decodePlace K invalidFriendsCursor dtoOutgoing of
             Inl e \<Rightarrow> (st, Inl e)
           | Inr outgoing \<Rightarrow>
               if incoming = None \<and> outgoing = None
               then (case getOrSet now ttl (auth_id me, getFriendListCacheVersion (auth_id me) st, limit)
                       (loadFriendRequests K (auth_id me) limit None None (social st)) (requestPages st) of
                      (pages, page) \<Rightarrow> (st\<lparr>requestPages := pages\<rparr>, Inr page))
               else (st, Inr (loadFriendRequests K (auth_id me) limit incoming outgoing (social st)))))"

end
