(* ===== verification/Friends_Safety.thy ===== *)
theory Friends_Safety
  imports Friends
begin

text \<open>
  What holds of friendships, notifications and their events, whoever does what in which order, and what a user of the service
  gets to see.
\<close>

section \<open>Transactions\<close>

inductive social_step :: "DateText \<Rightarrow> SocialDb \<Rightarrow> SocialDb \<Rightarrow> bool" for D where
  requested: "sendRequestTx D baseUrl ids now requester addressee me d = Inr (d', x) \<Longrightarrow> social_step D d d'"
| accepted: "acceptRequestTx D baseUrl ids2 now accepter me fid d = Inr (d', y) \<Longrightarrow> social_step D d d'"
| rejected: "social_step D d (fst (rejectFriendRequest fid me d))"
| withdrawn: "social_step D d (fst (cancelFriendRequest fid me d))"
| removed: "social_step D d (fst (repo_removeFriend fid me d))"
| notified: "createNotificationOutbox D ids2 now input (noteDb d) = Inr (nd, z) \<Longrightarrow> social_step D d (d\<lparr>noteDb := nd\<rparr>)"
| read: "social_step D d (d\<lparr>noteDb := (noteDb d)\<lparr>notifications := fst (repo_markAsRead now nid me (notifications (noteDb d)))\<rparr>\<rparr>)"
| read_all: "social_step D d (d\<lparr>noteDb := (noteDb d)\<lparr>notifications := repo_markAllAsRead now me (notifications (noteDb d))\<rparr>\<rparr>)"
| claimed: "social_step D d (d\<lparr>noteDb := (noteDb d)\<lparr>events := fst (outbox_start now eid (events (noteDb d)))\<rparr>\<rparr>)"
| published: "social_step D d (d\<lparr>noteDb := (noteDb d)\<lparr>events := markPublished now eid (events (noteDb d))\<rparr>\<rparr>)"
| failed: "social_step D d (d\<lparr>noteDb := (noteDb d)\<lparr>events := outbox_fail now eid message (events (noteDb d))\<rparr>\<rparr>)"
| account: "social_step D d (d\<lparr>accounts := a\<rparr>)"

definition emptySocial :: SocialDb where
  "emptySocial = \<lparr>accounts = \<lparr>users = [], sessions = [], oauthAccounts = []\<rparr>, friendships = [],
     noteDb = \<lparr>notifications = [], events = []\<rparr>\<rparr>"

definition social_reachable :: "DateText \<Rightarrow> SocialDb \<Rightarrow> bool" where
  "social_reachable D d \<longleftrightarrow> (social_step D)\<^sup>*\<^sup>* emptySocial d"

section \<open>The invariant\<close>

definition pairOf :: "FriendshipRow \<Rightarrow> string \<times> string" where
  "pairOf f = (min (requesterId f) (addresseeId f), max (requesterId f) (addresseeId f))"

lemma samePair_pairOf: "samePair a b \<longleftrightarrow> pairOf a = pairOf b"
  by (simp add: samePair_def pairOf_def)

definition friendshipsOk :: "FriendshipRow list \<Rightarrow> bool" where
  "friendshipsOk fs \<longleftrightarrow> distinct (map friendship_id fs) \<and> distinct (map pairOf fs) \<and> (\<forall>f\<in>set fs. requesterId f \<noteq> addresseeId f)"

definition noteKey :: "NotificationRow \<Rightarrow> string" where
  "noteKey n = ''notification.created:'' @ note_id n"

definition announces :: "DateText \<Rightarrow> OutboxEventRow \<Rightarrow> NotificationRow \<Rightarrow> bool" where
  "announces D e n \<longleftrightarrow> outbox_key e = noteKey n \<and> outbox_payload e = input_payload (notificationEvent D n)"

definition notesOk :: "DateText \<Rightarrow> NoteDb \<Rightarrow> bool" where
  "notesOk D nd \<longleftrightarrow> distinct (map note_id (notifications nd)) \<and> distinct (map outbox_key (events nd)) \<and>
     outbox_key ` set (events nd) \<subseteq> noteKey ` set (notifications nd) \<and>
     (\<forall>n\<in>set (notifications nd). readStateCheck n \<and> (\<exists>e\<in>set (events nd). announces D e n))"

lemma friendshipsOk_map:
  assumes "friendshipsOk fs" "\<And>f. friendship_id (g f) = friendship_id f \<and> requesterId (g f) = requesterId f \<and> addresseeId (g f) = addresseeId f"
  shows "friendshipsOk (map g fs)"
proof -
  have "friendship_id \<circ> g = friendship_id" "pairOf \<circ> g = pairOf" using assms(2) by (auto simp: pairOf_def)
  then show ?thesis using assms by (simp add: friendshipsOk_def)
qed

lemma friendshipsOk_filter: "friendshipsOk fs \<Longrightarrow> friendshipsOk (filter P fs)"
  by (simp add: friendshipsOk_def distinct_map_filter)

lemma createNotificationOutbox_rows:
  assumes "createNotificationOutbox D ids now input nd = Inr (nd', n, eid)" "notesOk D nd"
  shows "notifications nd' = notifications nd @ [n]" "note_id n = fst ids" "fst ids \<notin> note_id ` set (notifications nd)"
    "note_userId n = new_userId input" "note_type n = new_type input" "note_data n = new_data input" "\<not> note_read n" "note_readAt n = None"
    "\<exists>e. events nd' = events nd @ [e] \<and> outbox_id e = eid \<and> announces D e n \<and> outbox_status e = Outbox_queued \<and> attempts e = 0"
    "noteKey n \<notin> outbox_key ` set (events nd)"
proof -
  obtain ns rs r where n: "createNotification (fst ids) now input (notifications nd) = Inr (ns, n)"
    and r: "outbox_createOrGet (snd ids) (now div 1000) (notificationEvent D n) (events nd) = Inr (rs, r)"
    and nd': "nd' = \<lparr>notifications = ns, events = rs\<rparr>" "eid = outbox_id r"
    using assms(1) by (auto simp: createNotificationOutbox_def)
  show "notifications nd' = notifications nd @ [n]" "note_id n = fst ids" "note_userId n = new_userId input"
    "note_type n = new_type input" "note_data n = new_data input" "\<not> note_read n" "note_readAt n = None"
    using n by (auto simp: createNotification_def Let_def nd' split: if_splits)
  show id: "fst ids \<notin> note_id ` set (notifications nd)"
    using n by (auto simp: createNotification_def Let_def list_ex_iff split: if_splits)
  show key: "noteKey n \<notin> outbox_key ` set (events nd)"
  proof -
    have "outbox_key ` set (events nd) \<subseteq> noteKey ` set (notifications nd)" using assms(2) by (simp add: notesOk_def)
    moreover have "noteKey n \<notin> noteKey ` set (notifications nd)" using id \<open>note_id n = fst ids\<close> by (auto simp: noteKey_def)
    ultimately show ?thesis by blast
  qed
  then have "findBy outbox_key (input_key (notificationEvent D n)) (events nd) = None"
    by (simp add: findBy_None_iff notificationEvent_def noteKey_def)
  then show "\<exists>e. events nd' = events nd @ [e] \<and> outbox_id e = eid \<and> announces D e n \<and> outbox_status e = Outbox_queued \<and> attempts e = 0"
    using r by (auto simp: outbox_createOrGet_def Let_def nd' announces_def noteKey_def notificationEvent_def split: if_splits)
qed

lemma createNotificationOutbox_ok:
  assumes "createNotificationOutbox D ids now input nd = Inr (nd', z)" "notesOk D nd"
  shows "notesOk D nd'"
proof -
  obtain n eid where z: "z = (n, eid)" by (cases z)
  note new = createNotificationOutbox_rows [OF assms(1) [unfolded z] assms(2)]
  obtain e where "events nd' = events nd @ [e]" "announces D e n" using new(9) by blast
  then show ?thesis using assms(2) new by (auto simp: notesOk_def announces_def readStateCheck_def)
qed

lemma notesOk_events:
  assumes "notesOk D nd" "\<And>e. outbox_key (g e) = outbox_key e \<and> outbox_payload (g e) = outbox_payload e"
  shows "notesOk D (nd\<lparr>events := map g (events nd)\<rparr>)"
proof -
  have "outbox_key \<circ> g = outbox_key" using assms(2) by auto
  moreover have "announces D (g e) n = announces D e n" for e n using assms(2) by (simp add: announces_def)
  ultimately show ?thesis using assms by (auto simp: notesOk_def)
qed

lemma notesOk_notes:
  assumes "notesOk D nd" "\<And>n. note_id (g n) = note_id n \<and> note_userId (g n) = note_userId n \<and> note_type (g n) = note_type n \<and>
    note_createdAt (g n) = note_createdAt n \<and> (readStateCheck n \<longrightarrow> readStateCheck (g n))"
  shows "notesOk D (nd\<lparr>notifications := map g (notifications nd)\<rparr>)"
proof -
  have "note_id \<circ> g = note_id" "noteKey \<circ> g = noteKey" using assms(2) by (auto simp: noteKey_def)
  moreover have "announces D e (g n) = announces D e n" for e n using assms(2) by (simp add: announces_def noteKey_def notificationEvent_def)
  moreover have "noteKey (g n) = noteKey n" for n using assms(2) by (simp add: noteKey_def)
  ultimately show ?thesis using assms by (auto simp: notesOk_def image_image)
qed

lemma created_friendships:
  assumes "createFriendRequest fid now a b d = Inr (d', f)" "friendshipsOk (friendships d)"
  shows "friendshipsOk (friendships d')" "noteDb d' = noteDb d"
proof -
  have f: "friendships d' = friendships d @ [f]" "\<forall>q\<in>set (friendships d). friendship_id q \<noteq> friendship_id f \<and> pairOf q \<noteq> pairOf f"
    "requesterId f \<noteq> addresseeId f"
    using assms(1) by (auto simp: createFriendRequest_def Let_def list_ex_iff samePair_pairOf split: if_splits)
  then show "friendshipsOk (friendships d')" using assms(2) by (auto simp: friendshipsOk_def)
  show "noteDb d' = noteDb d" using assms(1) by (auto simp: createFriendRequest_def Let_def split: if_splits)
qed

lemma accepted_friendships:
  "friendships (fst (acceptFriendRequest now fid me d)) =
     map (\<lambda>f. if friendship_id f = fid \<and> addresseeId f = me \<and> friendship_status f = Friendship_pending
       then f\<lparr>friendship_status := Friendship_accepted, friendship_updatedAt := now\<rparr> else f) (friendships d)"
  "noteDb (fst (acceptFriendRequest now fid me d)) = noteDb d"
  by (simp_all add: acceptFriendRequest_def updateWhere_def)

definition socialOk :: "DateText \<Rightarrow> SocialDb \<Rightarrow> bool" where
  "socialOk D d \<longleftrightarrow> friendshipsOk (friendships d) \<and> notesOk D (noteDb d)"

lemma requested_ok:
  assumes "sendRequestTx D baseUrl ids now requester addressee me d = Inr (d', x)" "socialOk D d"
  shows "socialOk D d'"
proof -
  obtain d1 f ns z where c: "createFriendRequest (fst ids) now me (user_id addressee) d = Inr (d1, f)"
    and n: "createNotificationOutbox D (snd ids) now (friendRequestNote baseUrl (user_id addressee) (user_id requester)
      (user_username requester) (avatarObjectKey requester) (friendship_id f)) (noteDb d1) = Inr (ns, z)"
    and d': "d' = d1\<lparr>noteDb := ns\<rparr>"
    using assms(1) by (auto simp: sendRequestTx_def)
  have "notesOk D (noteDb d1)" using created_friendships(2) [OF c] assms(2) by (simp add: socialOk_def)
  then have "notesOk D ns" by (rule createNotificationOutbox_ok [OF n])
  then show ?thesis using created_friendships(1) [OF c] assms(2) by (simp add: socialOk_def d')
qed

lemma accepted_ok:
  assumes "acceptRequestTx D baseUrl ids now accepter me fid d = Inr (d', y)" "socialOk D d"
  shows "socialOk D d'"
proof -
  obtain d1 r where acc: "acceptFriendRequest now fid me d = (d1, r)" by (cases "acceptFriendRequest now fid me d")
  have fs: "friendshipsOk (friendships d1)" and nd: "noteDb d1 = noteDb d"
    using accepted_friendships [of now fid me d] assms(2) by (simp_all add: acc socialOk_def friendshipsOk_map)
  show ?thesis
  proof (cases r)
    case None
    then show ?thesis using assms fs nd by (simp add: acceptRequestTx_def acc socialOk_def)
  next
    case (Some f)
    then obtain ns z where "createNotificationOutbox D ids now (friendAcceptedNote baseUrl (requesterId f) (user_id accepter)
        (user_username accepter) (avatarObjectKey accepter) (friendship_id f)) (noteDb d) = Inr (ns, z)" "d' = d1\<lparr>noteDb := ns\<rparr>"
      using assms(1) by (auto simp: acceptRequestTx_def acc nd)
    then show ?thesis using createNotificationOutbox_ok assms(2) fs by (simp add: socialOk_def)
  qed
qed

lemma social_step_ok: "social_step D d d' \<Longrightarrow> socialOk D d \<Longrightarrow> socialOk D d'"
proof (induction rule: social_step.induct)
  case (read d now nid me)
  have "fst (repo_markAsRead now nid me xs) = map (\<lambda>n. if note_id n = nid \<and> note_userId n = me
      then n\<lparr>note_read := True, note_readAt := (case note_readAt n of None \<Rightarrow> Some now | Some t \<Rightarrow> Some t)\<rparr> else n) xs" for xs
    by (simp add: repo_markAsRead_def updateWhere_def)
  then show ?case using read by (auto simp: socialOk_def readStateCheck_def split: option.splits intro!: notesOk_notes)
next
  case (read_all d now me)
  have "repo_markAllAsRead now me xs = map (\<lambda>n. if note_userId n = me \<and> \<not> note_read n
      then n\<lparr>note_read := True, note_readAt := Some now\<rparr> else n) xs" for xs
    by (simp add: repo_markAllAsRead_def updateWhere_def)
  then show ?case using read_all by (auto simp: socialOk_def readStateCheck_def intro!: notesOk_notes)
next
  case (claimed d now eid)
  then show ?case unfolding start_rows by (simp add: socialOk_def notesOk_events)
next
  case (published d now eid)
  then show ?case by (simp add: socialOk_def markPublished_def updateWhere_def notesOk_events)
next
  case (failed d now eid message)
  then show ?case by (simp add: socialOk_def outbox_fail_def markFailed_def updateWhere_def notesOk_events)
next
  case (notified ids2 now input d nd z)
  then show ?case using createNotificationOutbox_ok by (simp add: socialOk_def)
next
  case (requested baseUrl ids now requester addressee me d d' x)
  then show ?case by (rule requested_ok)
next
  case (accepted baseUrl ids2 now accepter me fid d d' y)
  then show ?case by (rule accepted_ok)
qed (auto simp: socialOk_def rejectFriendRequest_def cancelFriendRequest_def repo_removeFriend_def
    deleteFriendships_def friendshipsOk_filter)

lemma reachable_social_ok: "social_reachable D d \<Longrightarrow> socialOk D d"
  unfolding social_reachable_def
proof (induction rule: rtranclp_induct)
  case base
  show ?case by (simp add: socialOk_def friendshipsOk_def notesOk_def emptySocial_def)
qed (rule social_step_ok)


section \<open>Friend requests\<close>

lemma pairOf_eq: "pairOf a = pairOf b \<longleftrightarrow> requesterId a = requesterId b \<and> addresseeId a = addresseeId b \<or>
    requesterId a = addresseeId b \<and> addresseeId a = requesterId b"
  by (auto simp: pairOf_def min_def max_def split: if_splits)

lemma createNotificationOutbox_works:
  assumes "notesOk D nd" "fst ids \<notin> note_id ` set (notifications nd)" "snd ids \<notin> outbox_id ` set (events nd)"
  shows "\<exists>nd' n eid. createNotificationOutbox D ids now input nd = Inr (nd', n, eid)"
proof -
  have "\<not> list_ex (\<lambda>q. note_id q = fst ids) (notifications nd)" using assms(2) by (auto simp: list_ex_iff image_iff)
  then obtain ns n where n: "createNotification (fst ids) now input (notifications nd) = Inr (ns, n)" "note_id n = fst ids"
    by (simp add: createNotification_def Let_def)
  have "noteKey n \<notin> noteKey ` set (notifications nd)" using assms(2) n(2) by (auto simp: noteKey_def)
  then have "input_key (notificationEvent D n) \<notin> outbox_key ` set (events nd)"
    using assms(1) by (auto simp: notesOk_def notificationEvent_def noteKey_def)
  then have "findBy outbox_key (input_key (notificationEvent D n)) (events nd) = None" by (simp add: findBy_None_iff)
  moreover have "\<not> list_ex (\<lambda>q. outbox_id q = snd ids) (events nd)" using assms(3) by (auto simp: list_ex_iff image_iff)
  ultimately show ?thesis using n(1) by (simp add: createNotificationOutbox_def outbox_createOrGet_def Let_def)
qed

lemma invalidate_keeps [simp]:
  "social (enqueue eid (invalidateFriendListCache uids st)) = social st"
  "publishJobs (enqueue eid (invalidateFriendListCache uids st)) = publishJobs st @ [enqueuePublishEvent eid]"
  "social (invalidateFriendListCache uids st) = social st"
  "friendPages (invalidateFriendListCache uids st) = friendPages st"
  by (simp_all add: enqueue_def invalidateFriendListCache_def)

lemma sendRequestTx_works:
  assumes ok: "socialOk D d"
    and fresh: "fst ids \<notin> friendship_id ` set (friendships d)" "fst (snd ids) \<notin> note_id ` set (notifications (noteDb d))"
      "snd (snd ids) \<notin> outbox_id ` set (events (noteDb d))"
    and free: "user_id a \<noteq> me" "findFriendshipBetween me (user_id a) d = None"
  shows "\<exists>d' f n e. sendRequestTx D baseUrl ids now u a me d = Inr (d', f, outbox_id e) \<and> friendships d' = friendships d @ [f] \<and>
    requesterId f = me \<and> addresseeId f = user_id a \<and> friendship_status f = Friendship_pending \<and>
    notifications (noteDb d') = notifications (noteDb d) @ [n] \<and> note_userId n = user_id a \<and> note_type n = Friend_request \<and>
    events (noteDb d') = events (noteDb d) @ [e] \<and> announces D e n \<and> outbox_status e = Outbox_queued \<and> accounts d' = accounts d"
proof -
  let ?f = "\<lparr>friendship_id = fst ids, requesterId = me, addresseeId = user_id a, friendship_status = Friendship_pending,
    friendship_createdAt = now, friendship_updatedAt = now\<rparr>"
  let ?d1 = "d\<lparr>friendships := friendships d @ [?f]\<rparr>"
  let ?input = "friendRequestNote baseUrl (user_id a) (user_id u) (user_username u) (avatarObjectKey u) (friendship_id ?f)"
  have "\<not> list_ex (\<lambda>q. friendship_id q = fst ids \<or> samePair q ?f) (friendships d)"
    using fresh(1) free(2) by (auto simp: list_ex_iff samePair_pairOf pairOf_eq findFriendshipBetween_def find_None_iff image_iff)
  then have c: "createFriendRequest (fst ids) now me (user_id a) d = Inr (?d1, ?f)"
    using free(1) by (simp add: createFriendRequest_def Let_def)
  have nd: "notesOk D (noteDb ?d1)" using ok by (simp add: socialOk_def)
  obtain ns n eid where w: "createNotificationOutbox D (snd ids) now ?input (noteDb ?d1) = Inr (ns, n, eid)"
    using createNotificationOutbox_works [OF nd, of "snd ids" now ?input] fresh(2,3) by auto
  note new = createNotificationOutbox_rows [OF w nd]
  obtain e where "events ns = events (noteDb ?d1) @ [e] \<and> outbox_id e = eid \<and> announces D e n \<and> outbox_status e = Outbox_queued \<and> attempts e = 0"
    using new(9) by blast
  then show ?thesis using c w new(1,4,5) by (simp add: sendRequestTx_def friendRequestNote_def)
qed

text \<open>
  C39. What becomes of a friend request. It succeeds exactly when the name is that of an active, verified user other than the
  sender and the two share no friendship or request yet; then one pending request, one notification for the addressee, one
  queued event with its data and one job to publish the event are added, all of them for this request, and nothing else
  changes in the tables. Otherwise nothing changes at all.
\<close>

theorem friend_requests_reach_their_addressee:
  assumes ok: "social_reachable D (social st)"
    and fresh: "fst ids \<notin> friendship_id ` set (friendships (social st))" "fst (snd ids) \<notin> note_id ` set (notifications (noteDb (social st)))"
      "snd (snd ids) \<notin> outbox_id ` set (events (noteDb (social st)))"
    and me: "findActiveUserById (auth_id me) (social st) = Some u" "user_username u = auth_username me" "user_id u = auth_id me"
  shows "case sendRequest D baseUrl ids now me name st of
      (st', Inl e) \<Rightarrow> st' = st \<and>
        (normalized name = auth_username me \<or> (case findActiveUserByUsername (normalized name) (social st) of
           None \<Rightarrow> True | Some a \<Rightarrow> user_id a = auth_id me \<or> findFriendshipBetween (auth_id me) (user_id a) (social st) \<noteq> None))
    | (st', Inr f) \<Rightarrow> \<exists>a n e. findActiveUserByUsername (normalized name) (social st) = Some a \<and> normalized name \<noteq> auth_username me \<and>
        findFriendshipBetween (auth_id me) (user_id a) (social st) = None \<and>
        friendships (social st') = friendships (social st) @ [f] \<and> requesterId f = auth_id me \<and> addresseeId f = user_id a \<and>
        friendship_status f = Friendship_pending \<and>
        notifications (noteDb (social st')) = notifications (noteDb (social st)) @ [n] \<and> note_userId n = user_id a \<and>
        note_type n = Friend_request \<and>
        events (noteDb (social st')) = events (noteDb (social st)) @ [e] \<and> announces D e n \<and> outbox_status e = Outbox_queued \<and>
        publishJobs st' = publishJobs st @ [enqueuePublishEvent (outbox_id e)] \<and> accounts (social st') = accounts (social st)"
proof (cases "normalized name = auth_username me")
  case True
  then show ?thesis by (simp add: sendRequest_def)
next
  case other: False
  show ?thesis
  proof (cases "findActiveUserByUsername (normalized name) (social st)")
    case None
    then show ?thesis using other by (simp add: sendRequest_def Let_def)
  next
    case (Some a)
    show ?thesis
    proof (cases "user_id a = auth_id me \<or> findFriendshipBetween (auth_id me) (user_id a) (social st) \<noteq> None")
      case True
      then show ?thesis
      proof
        assume "user_id a = auth_id me"
        then have "createFriendRequest (fst ids) now (auth_id me) (user_id a) (social st) = Inl checkViolation"
          by (simp add: createFriendRequest_def)
        then have "sendRequestTx D baseUrl ids now u a (auth_id me) (social st) = Inl checkViolation"
          by (simp add: sendRequestTx_def)
        then show ?thesis using other Some me(1) \<open>user_id a = auth_id me\<close> by (auto simp: sendRequest_def Let_def)
      next
        assume "findFriendshipBetween (auth_id me) (user_id a) (social st) \<noteq> None"
        then show ?thesis using other Some by (simp add: sendRequest_def Let_def)
      qed
    next
      case free: False
      obtain d' f n e where tx: "sendRequestTx D baseUrl ids now u a (auth_id me) (social st) = Inr (d', f, outbox_id e)"
        and new: "friendships d' = friendships (social st) @ [f]" "requesterId f = auth_id me" "addresseeId f = user_id a"
          "friendship_status f = Friendship_pending" "notifications (noteDb d') = notifications (noteDb (social st)) @ [n]"
          "note_userId n = user_id a" "note_type n = Friend_request" "events (noteDb d') = events (noteDb (social st)) @ [e]"
          "announces D e n" "outbox_status e = Outbox_queued" "accounts d' = accounts (social st)"
        using sendRequestTx_works [OF reachable_social_ok [OF ok] fresh, of a "auth_id me" baseUrl now u] free by auto
      then have "sendRequest D baseUrl ids now me name st =
          (enqueue (outbox_id e) (invalidateFriendListCache [auth_id me, user_id a] (st\<lparr>social := d'\<rparr>)), Inr f)"
        using other Some free me(1) by (simp add: sendRequest_def Let_def)
      then show ?thesis using new other Some free by auto
    qed
  qed
qed

lemma acceptRequest_rows:
  "friendships (social (fst (acceptRequest D baseUrl ids now me fid st))) = friendships (fst (acceptFriendRequest now fid (auth_id me) (social st))) \<or>
   friendships (social (fst (acceptRequest D baseUrl ids now me fid st))) = friendships (social st)"
proof (cases "findActiveUserById (auth_id me) (social st)")
  case None
  then show ?thesis by (simp add: acceptRequest_def)
next
  case (Some u)
  let ?tx = "acceptRequestTx D baseUrl ids now u (auth_id me) fid (social st)"
  obtain d1 r where acc: "acceptFriendRequest now fid (auth_id me) (social st) = (d1, r)"
    by (cases "acceptFriendRequest now fid (auth_id me) (social st)")
  have "friendships d = friendships d1" if "?tx = Inr (d, y)" for d y
    using that by (cases r) (auto simp: acceptRequestTx_def acc)
  then show ?thesis
    by (cases ?tx) (auto simp: acceptRequest_def Some acc split: option.splits)
qed

text \<open>
  Only the parties decide. Accepting, rejecting, withdrawing and ending leave every friendship alone that the user is not
  part of, and turn no request into a friendship unless it was pending and the user is the one it was sent to.
\<close>

theorem only_the_parties_decide:
  assumes "social_reachable D (social st)"
    and "st' \<in> {fst (acceptRequest D baseUrl ids now me fid st), fst (rejectRequest me fid st), fst (cancelRequest me fid st),
      fst (removeFriend me fid st)}"
  shows "filter (\<lambda>f. \<not> involves (auth_id me) f) (friendships (social st')) = filter (\<lambda>f. \<not> involves (auth_id me) f) (friendships (social st)) \<and>
    (\<forall>f\<in>set (friendships (social st')). f \<in> set (friendships (social st)) \<or>
       friendship_id f = fid \<and> addresseeId f = auth_id me \<and> friendship_status f = Friendship_accepted \<and>
       (\<exists>g\<in>set (friendships (social st)). friendship_id g = fid \<and> requesterId g = requesterId f \<and> addresseeId g = addresseeId f \<and>
          friendship_status g = Friendship_pending))"
proof -
  consider (accept) "st' = fst (acceptRequest D baseUrl ids now me fid st)" | (reject) "st' = fst (rejectRequest me fid st)"
    | (withdraw) "st' = fst (cancelRequest me fid st)" | (remove) "st' = fst (removeFriend me fid st)"
    using assms(2) by blast
  then show ?thesis
  proof cases
    case accept
    let ?g = "\<lambda>f. if friendship_id f = fid \<and> addresseeId f = auth_id me \<and> friendship_status f = Friendship_pending
        then f\<lparr>friendship_status := Friendship_accepted, friendship_updatedAt := now\<rparr> else f"
    have rows: "friendships (social st') = map ?g (friendships (social st)) \<or> friendships (social st') = friendships (social st)"
      using acceptRequest_rows [of D baseUrl ids now me fid st] unfolding accept accepted_friendships(1) by blast
    have same: "filter (\<lambda>f. \<not> involves (auth_id me) f) (map ?g fs) = filter (\<lambda>f. \<not> involves (auth_id me) f) fs" for fs
      by (induction fs) (auto simp: involves_def)
    have turned: "f \<in> set (map ?g fs) \<Longrightarrow> f \<in> set fs \<or> friendship_id f = fid \<and> addresseeId f = auth_id me \<and>
        friendship_status f = Friendship_accepted \<and> (\<exists>g\<in>set fs. friendship_id g = fid \<and> requesterId g = requesterId f \<and>
          addresseeId g = addresseeId f \<and> friendship_status g = Friendship_pending)" for f fs
      by (auto split: if_splits)
    from rows show ?thesis
    proof
      assume new: "friendships (social st') = map ?g (friendships (social st))"
      show ?thesis unfolding new by (intro conjI same ballI turned)
    qed simp
  next
    case reject
    then have "friendships (social st') = filter (\<lambda>f. \<not> (friendship_id f = fid \<and> addresseeId f = auth_id me \<and>
        friendship_status f = Friendship_pending)) (friendships (social st))"
      by (simp add: rejectRequest_def ended_def rejectFriendRequest_def deleteFriendships_def split: option.splits)
    then show ?thesis by (auto simp: involves_def intro!: filter_cong)
  next
    case withdraw
    then have "friendships (social st') = filter (\<lambda>f. \<not> (friendship_id f = fid \<and> requesterId f = auth_id me \<and>
        friendship_status f = Friendship_pending)) (friendships (social st))"
      by (simp add: cancelRequest_def ended_def cancelFriendRequest_def deleteFriendships_def split: option.splits)
    then show ?thesis by (auto simp: involves_def intro!: filter_cong)
  next
    case remove
    then have "friendships (social st') = filter (\<lambda>f. \<not> (friendship_id f = fid \<and> friendship_status f = Friendship_accepted \<and>
        involves (auth_id me) f)) (friendships (social st))"
      by (simp add: removeFriend_def ended_def repo_removeFriend_def deleteFriendships_def split: option.splits)
    then show ?thesis by (auto intro!: filter_cong)
  qed
qed

lemma incr_fold:
  "distinct us \<Longrightarrow> foldl incrVersion m us u = (if u \<in> set us then Some ((case m u of None \<Rightarrow> 0 | Some n \<Rightarrow> n) + 1) else m u)"
  by (induction us arbitrary: m) (auto simp: incrVersion_def)

text \<open>
  The first change to a list of friends is not seen. While no version of the list was ever counted, its pages are cached
  under version one; the first change counts to one, and the page of before is served until it expires.
\<close>

theorem first_change_is_not_seen:
  assumes cold: "friendVersions st (auth_id me) = None" "friendPages st (auth_id me, 1, pageLimit dtoLimit) = Some (page, until)" "later < until"
    and removed: "removeFriend me fid st = (st', Inr ())" "auth_id me \<noteq> []"
  shows "listFriends K later ttl me dtoLimit None st' = (st', Inr page) \<and>
    fid \<notin> friendship_id ` set (friendsOf (auth_id me) (social st'))"
proof -
  obtain f where f: "firstRow (filter (\<lambda>f. friendship_id f = fid \<and> friendship_status f = Friendship_accepted \<and> involves (auth_id me) f)
      (friendships (social st))) = Some f"
    and st': "st' = invalidateFriendListCache [requesterId f, addresseeId f]
      (st\<lparr>social := fst (repo_removeFriend fid (auth_id me) (social st))\<rparr>)"
    using removed(1) by (auto simp: removeFriend_def ended_def repo_removeFriend_def deleteFriendships_def split: option.splits)
  have "f \<in> set (filter (\<lambda>f. friendship_id f = fid \<and> friendship_status f = Friendship_accepted \<and> involves (auth_id me) f)
      (friendships (social st)))"
    using f by (auto simp: firstRow_def split: list.splits dest!: arg_cong [where f = set])
  then have "involves (auth_id me) f" by simp
  then have "auth_id me \<in> set (remdups (filter (\<lambda>u. u \<noteq> []) [requesterId f, addresseeId f]))"
    using removed(2) by (auto simp: involves_def)
  then have "friendVersions st' (auth_id me) = Some 1"
    using cold(1) by (simp add: st' invalidateFriendListCache_def incr_fold del: remdups.simps filter.simps)
  then have "getFriendListCacheVersion (auth_id me) st' = 1" by (simp add: getFriendListCacheVersion_def)
  moreover have "friendPages st' = friendPages st" by (simp add: st')
  ultimately have "getOrSet later ttl (auth_id me, getFriendListCacheVersion (auth_id me) st', pageLimit dtoLimit) fresh (friendPages st')
      = (friendPages st', page)" for fresh
    using cold(2,3) by (simp add: getOrSet_def)
  then have "listFriends K later ttl me dtoLimit None st' = (st', Inr page)" by (simp add: listFriends_def decodePlace_def)
  moreover have "fid \<notin> friendship_id ` set (friendsOf (auth_id me) (social st'))"
    by (auto simp: st' friendsOf_def repo_removeFriend_def deleteFriendships_def)
  ultimately show ?thesis by blast
qed

section \<open>A small world\<close>

text \<open>Ann and Bob.\<close>

definition ann :: UserRow where "ann = (newUser ''u1'' 0 ''ann@post'' ''ann'' None True)"
definition bob :: UserRow where "bob = (newUser ''u2'' 0 ''bob@post'' ''bob'' None True)"

definition annSigned :: AuthUser where
  "annSigned = \<lparr>auth_id = ''u1'', auth_email = ''ann@post'', auth_username = ''ann'', auth_role = Player_role, auth_status = User_active,
     auth_sessionId = ''s1'', auth_tokenVersion = 0\<rparr>"

definition sampleSocial :: SocialState where
  "sampleSocial = \<lparr>social = emptySocial\<lparr>accounts := \<lparr>users = [ann, bob], sessions = [], oauthAccounts = []\<rparr>\<rparr>, publishJobs = [],
     friendVersions = (\<lambda>_. None), friendPages = (\<lambda>_. None), requestPages = (\<lambda>_. None)\<rparr>"

abbreviation "sampleDates \<equiv> dates sampleCodec"
abbreviation "sampleIds \<equiv> (''f1'', ''n1'', ''o1'')"

lemma sampleSocial_reachable: "social_reachable D (social sampleSocial)"
  unfolding social_reachable_def sampleSocial_def by (simp add: social_step.account r_into_rtranclp)

lemma sampleSocial_found:
  "findActiveUserById (auth_id annSigned) (social sampleSocial) = Some ann"
  "findActiveUserByUsername (normalized '' Bob'') (social sampleSocial) = Some bob"
proof -
  have "normalized '' Bob'' = ''bob''" by code_simp
  then show "findActiveUserByUsername (normalized '' Bob'') (social sampleSocial) = Some bob"
    by (simp add: findActiveUserByUsername_def sampleSocial_def ann_def bob_def newUser_def)
qed (simp add: findActiveUserById_def sampleSocial_def ann_def annSigned_def newUser_def)

lemma sampleSocial_fresh:
  "fst sampleIds \<notin> friendship_id ` set (friendships (social sampleSocial))"
  "fst (snd sampleIds) \<notin> note_id ` set (notifications (noteDb (social sampleSocial)))"
  "snd (snd sampleIds) \<notin> outbox_id ` set (events (noteDb (social sampleSocial)))"
  by (simp_all add: sampleSocial_def emptySocial_def)

lemma friend_requests_reach_their_addressee_witness:
  "case sendRequest sampleDates [] sampleIds 0 annSigned '' Bob'' sampleSocial of
     (st', Inl e) \<Rightarrow> False
   | (st', Inr f) \<Rightarrow> friendships (social st') = [f] \<and> requesterId f = ''u1'' \<and> addresseeId f = ''u2''"
proof -
  have me: "user_username ann = auth_username annSigned" "user_id ann = auth_id annSigned" "auth_id annSigned = ''u1''" "user_id bob = ''u2''"
    by (simp_all add: ann_def bob_def newUser_def annSigned_def)
  have "findFriendshipBetween ''u1'' ''u2'' (social sampleSocial) = None" "friendships (social sampleSocial) = []"
    by (simp_all add: findFriendshipBetween_def sampleSocial_def emptySocial_def)
  moreover have "normalized '' Bob'' \<noteq> auth_username annSigned"
  proof -
    have "normalized '' Bob'' = ''bob''" by code_simp
    then show ?thesis by (simp add: annSigned_def)
  qed
  ultimately show ?thesis
    using friend_requests_reach_their_addressee [OF sampleSocial_reachable [of sampleDates] sampleSocial_fresh sampleSocial_found(1) me(1,2),
        where baseUrl = "[]" and now = 0 and name = "'' Bob''"] sampleSocial_found(2) me(3,4)
    by (auto split: prod.splits sum.splits)
qed

text \<open>The tables after Ann asked Bob.\<close>

definition sampleRequested :: SocialDb where
  "sampleRequested = (case sendRequestTx sampleDates [] sampleIds 0 ann bob ''u1'' (social sampleSocial) of
     Inr (d, f, eid) \<Rightarrow> d | Inl e \<Rightarrow> social sampleSocial)"

lemma sampleRequested_reachable: "social_reachable sampleDates sampleRequested"
proof (cases "sendRequestTx sampleDates [] sampleIds 0 ann bob ''u1'' (social sampleSocial)")
  case (Inl e)
  then show ?thesis using sampleSocial_reachable by (simp add: sampleRequested_def)
next
  case (Inr z)
  then obtain d x where "sendRequestTx sampleDates [] sampleIds 0 ann bob ''u1'' (social sampleSocial) = Inr (d, x)" by (cases z) simp
  then have "social_step sampleDates (social sampleSocial) d" "sampleRequested = d"
    by (auto simp: sampleRequested_def intro: social_step.requested split: prod.splits)
  then show ?thesis using sampleSocial_reachable rtranclp.rtrancl_into_rtrancl unfolding social_reachable_def by metis
qed


lemma only_the_parties_decide_witness:
  "filter (\<lambda>f. \<not> involves ''u1'' f) (friendships (social (fst (rejectRequest annSigned ''f1'' (sampleSocial\<lparr>social := sampleRequested\<rparr>))))) =
   filter (\<lambda>f. \<not> involves ''u1'' f) (friendships sampleRequested)"
proof -
  have "social_reachable sampleDates (social (sampleSocial\<lparr>social := sampleRequested\<rparr>))" using sampleRequested_reachable by simp
  moreover have "auth_id annSigned = ''u1''" by (simp add: annSigned_def)
  ultimately show ?thesis
    using only_the_parties_decide [of sampleDates "sampleSocial\<lparr>social := sampleRequested\<rparr>"
        "fst (rejectRequest annSigned ''f1'' (sampleSocial\<lparr>social := sampleRequested\<rparr>))" "[]" "(''n2'', ''o2'')" 1 annSigned "''f1''"]
    by simp
qed

definition sampleFriends :: SocialState where
  "sampleFriends = sampleSocial\<lparr>
     social := (social sampleSocial)\<lparr>friendships := [\<lparr>friendship_id = ''f1'', requesterId = ''u1'', addresseeId = ''u2'',
       friendship_status = Friendship_accepted, friendship_createdAt = 0, friendship_updatedAt = 0\<rparr>]\<rparr>,
     friendPages := [(''u1'', 1, 50) \<mapsto> (([\<lparr>summary_friendshipId = ''f1'', summary_userId = ''u2'', summary_email = ''bob@post'',
       summary_username = ''bob'', summary_avatarObjectKey = None, summary_createdAt = 0, summary_updatedAt = 0\<rparr>], None), 60000)]\<rparr>"

lemma first_change_is_not_seen_witness:
  "\<exists>page. snd (listFriends sampleCodec 1000 60000 annSigned None None (fst (removeFriend annSigned ''f1'' sampleFriends))) = Inr page \<and>
     map summary_friendshipId (fst page) = [''f1'']"
proof -
  let ?page = "([\<lparr>summary_friendshipId = ''f1'', summary_userId = ''u2'', summary_email = ''bob@post'', summary_username = ''bob'',
    summary_avatarObjectKey = None, summary_createdAt = 0, summary_updatedAt = 0\<rparr>], None :: string option)"
  have id: "auth_id annSigned = ''u1''" "pageLimit None = 50" by (simp_all add: annSigned_def pageLimit_def defaultLimit_def maxLimit_def)
  have "friendVersions sampleFriends (auth_id annSigned) = None"
    "friendPages sampleFriends (auth_id annSigned, 1, pageLimit None) = Some (?page, 60000)"
    unfolding id by (simp_all add: sampleFriends_def sampleSocial_def)
  moreover obtain st' where st': "removeFriend annSigned ''f1'' sampleFriends = (st', Inr ())"
    by (simp add: removeFriend_def ended_def repo_removeFriend_def deleteFriendships_def id sampleFriends_def involves_def firstRow_def)
  ultimately show ?thesis using first_change_is_not_seen [of sampleFriends annSigned None ?page 60000 1000 "''f1''" st' sampleCodec 60000] id
    by simp
qed

end
