(* ===== verification/Rooms_Invites.thy ===== *)
theory Rooms_Invites
  imports Rooms_Lobby Friends_Safety
begin

text \<open>
  Inviting a friend to a room: \<^verbatim>\<open>inviteToRoom\<close> of \<^verbatim>\<open>src/src/rooms/services/rooms-lobby.service.ts\<close>, which reads the rooms and
  the friendships and writes a notification with its event.
\<close>

definition findAcceptedFriendship :: "string \<Rightarrow> string \<Rightarrow> SocialDb \<Rightarrow> FriendshipRow option" where
  "findAcceptedFriendship a b d =
     find (\<lambda>f. friendship_status f = Friendship_accepted \<and>
       (requesterId f = a \<and> addresseeId f = b \<or> requesterId f = b \<and> addresseeId f = a)) (friendships d)"

text \<open>The checks before the transaction, in their order: the room, the invited user, the inviter.\<close>

definition inviteChecks ::
  "int \<Rightarrow> AuthUser \<Rightarrow> string \<Rightarrow> string \<Rightarrow> Tables \<Rightarrow> SocialDb \<Rightarrow> ServiceError + (RoomRow \<times> UserRow \<times> UserRow)" where
  "inviteChecks now me code dtoUsername t d =
     (let name = normalized dtoUsername in
      andThen (raiseIf (name = auth_username me) (BadRequestException ''You cannot invite yourself'')) (\<lambda>_.
      andThen (ofOption (NotFoundException ''Room not found'') (findRoomByCode code t)) (\<lambda>room.
      andThen (raiseIf (room_status room \<noteq> ''waiting'') (ConflictException ''Room is not open'')) (\<lambda>_.
      andThen (raiseIf (isExpiredWaitingRoom now room) (ConflictException ''Room is not open'')) (\<lambda>_.
      andThen (raiseIf (findJoinedPlayer (room_id room) (auth_id me) t = None) (NotFoundException ''Room player not found'')) (\<lambda>_.
      andThen (ofOption (NotFoundException ''User not found'') (findActiveUserByUsername name d)) (\<lambda>invitee.
      andThen (raiseIf (findAcceptedFriendship (auth_id me) (user_id invitee) d = None)
         (ConflictException ''You can only invite friends'')) (\<lambda>_.
      andThen (raiseIf (findActiveRoomForUser (user_id invitee) t \<noteq> None)
         (ConflictException ''User is already in an active room'')) (\<lambda>_.
      andThen (ofOption (NotFoundException ''User not found'') (findActiveUserById (auth_id me) d)) (\<lambda>inviter.
      Inr (room, invitee, inviter)))))))))))"

definition inviteToRoom ::
  "DateText \<Rightarrow> string \<Rightarrow> string \<times> string \<Rightarrow> int \<Rightarrow> AuthUser \<Rightarrow> string \<Rightarrow> string \<Rightarrow> Tables \<Rightarrow> SocialState \<Rightarrow>
   SocialState \<times> (ServiceError + string)" where
  "inviteToRoom D baseUrl ids now me code dtoUsername t st =
     (case inviteChecks (now div 1000) me code dtoUsername t (social st) of
        Inl e \<Rightarrow> (st, Inl e)
      | Inr (room, invitee, inviter) \<Rightarrow>
          (case createNotificationOutbox D ids now
              (roomInviteNote baseUrl (user_id invitee) (room_id room) (room_code room) (user_id inviter) (user_username inviter)
                 (avatarObjectKey inviter)) (noteDb (social st)) of
             Inl e \<Rightarrow> (st, Inl e)
           | Inr (ns, n, eid) \<Rightarrow> (enqueue eid (st\<lparr>social := (social st)\<lparr>noteDb := ns\<rparr>\<rparr>), Inr (room_code room))))"



end
