(* ===== verification/Spec2Isabelle.thy ===== *)
theory Spec2Isabelle
  imports Game_Watchdog Game_Realtime Rooms_Games Auth_Passwords Rooms_Invites
begin

text \<open>
  A verification of livepoly-server, the server of a multiplayer property-trading board game.

  \<^bold>\<open>The program.\<close> The server keeps one \<^verbatim>\<open>GameEngineState\<close> per game. Every player command, bot decision and timer
  becomes an intent; \<^verbatim>\<open>reduceGameEngineIntent\<close> (\<^verbatim>\<open>src/src/game/engine/game-engine-intents.ts\<close>) maps a state and
  an intent to a new state and a list of events, or throws a \<^verbatim>\<open>GameEngineError\<close>. The command service
  (\<^verbatim>\<open>game/commands\<close>) checks the sender, runs the reducer inside an optimistic update of the state in Redis
  (\<^verbatim>\<open>game/state\<close>), appends the events to a log (\<^verbatim>\<open>game/events\<close>), saves a snapshot (\<^verbatim>\<open>game/snapshots\<close>) and, when the
  game is over, writes results, statistics and ratings in one transaction (\<^verbatim>\<open>game/results\<close>, \<^verbatim>\<open>game/stats\<close>). A state
  that is gone from Redis comes back from the snapshots (\<^verbatim>\<open>game/recovery\<close>). Timers and bots (\<^verbatim>\<open>game/timers\<close>,
  \<^verbatim>\<open>game/bots\<close>) choose intents for players who do not act themselves. Games come from rooms (\<^verbatim>\<open>src/src/rooms\<close>):
  users open, join, leave and watch a room, its host starts the game, bots take the seats left over.

  \<^bold>\<open>The theories.\<close> Paths are relative to \<^verbatim>\<open>src/src/game\<close> unless they say otherwise.
  \<^item> \<open>Prelude\<close>: the error monad on sums, JavaScript's truthiness, remainder, \<^verbatim>\<open>find\<close> and \<^verbatim>\<open>Set\<close>, and the lemmas and
    collections the components share. \<open>Js_Number\<close>: doubles as rationals with rounding after every operation.
  \<^item> \<open>Game_Types\<close> (\<^verbatim>\<open>game-engine.types.ts\<close>, \<^verbatim>\<open>game-board.types.ts\<close>), \<open>Game_Board\<close> (the board), \<open>Game_Invariant\<close>
    (well-formed states, the invariant of all that follows).
  \<^item> The engine, one theory per group of files: \<open>Game_Money\<close>, \<open>Game_Turns\<close> (guards, dice, turns), \<open>Game_Decks\<close> and
    \<open>Game_Cards\<close>, \<open>Game_Properties\<close> (purchase, rent, tax), \<open>Game_Estate\<close> (buildings, mortgages), \<open>Game_Auctions\<close>,
    \<open>Game_Trades\<close>, \<open>Game_Settlement\<close> (debts, bankruptcy, net worth, end of the game), \<open>Game_Movement\<close> (rolling,
    jail, landing), \<open>Game_Engine\<close> (service and reducer).
  \<^item> What the engine does, as theorems: \<open>Game_Errors\<close> (it fails only with coded refusals), \<open>Game_Liveness\<close> (debts are
    settled, turns come round), \<open>Game_Rules\<close>, \<open>Game_Deals\<close>, \<open>Game_Endings\<close>.
  \<^item> Around the engine: \<open>Game_Commands\<close> (\<^verbatim>\<open>commands/\<close> and the timeout policy of \<^verbatim>\<open>timers/\<close>), \<open>Game_Results\<close> and
    \<open>Game_Stats\<close>, \<open>Game_Store\<close> (\<^verbatim>\<open>state/\<close>), \<open>Game_Snapshots\<close> (\<^verbatim>\<open>snapshots/\<close>, \<^verbatim>\<open>recovery/\<close>), \<open>Game_Events\<close> (\<^verbatim>\<open>events/\<close>),
    \<open>Game_Service\<close> (a command from end to end), \<open>Game_Bots\<close> (\<^verbatim>\<open>bots/\<close>) and \<open>Game_Bot_Play\<close> (what bots achieve).
    \<open>Game_Frame\<close>: what no intent changes. \<open>Game_Jobs\<close> (\<^verbatim>\<open>jobs/\<close>, the queues of \<^verbatim>\<open>timers/\<close> and \<^verbatim>\<open>bots/\<close>) and
    \<open>Game_Timers\<close> (a timer fires once, the clock of a running game does not stop, the end of a game is not missed).
    \<open>Game_Watchdog\<close>: the scan that moves stalled games on. \<open>Game_Realtime\<close> (\<^verbatim>\<open>realtime/\<close>): the handshake of a
    socket and the messages of the players, each the command of its sender's seat and of no other.
  \<^item> Rooms: \<open>Rooms_Tables\<close> (\<^verbatim>\<open>src/src/rooms/repositories\<close> and the schema in \<^verbatim>\<open>src/src/infra/database/schema\<close>),
    \<open>Rooms_Lobby\<close> and \<open>Rooms_Start\<close> (\<^verbatim>\<open>src/src/rooms/services\<close>), \<open>Rooms_Invariant\<close> (the tables stay consistent under any
    order of transactions, the transaction that finishes a game among them), \<open>Rooms_Games\<close> (from a room to a game).
  \<^item> Accounts: \<open>Auth_Tables\<close> (users, sessions and provider accounts with their queries), \<open>Auth_Service\<close>
    (\<^verbatim>\<open>src/src/auth\<close>, \<^verbatim>\<open>session\<close>, \<^verbatim>\<open>otp\<close>, \<^verbatim>\<open>admin\<close> and the account part of \<^verbatim>\<open>users\<close>), \<open>Auth_Sessions\<close> (at most three
    live sessions under any order of transactions), \<open>Auth_Safety\<close> (refresh tokens work once, token versions never fall) and
    \<open>Auth_Passwords\<close> (who can sign in, what a password reset ends).
  \<^item> Messages: \<open>Outbox\<close> (\<^verbatim>\<open>src/src/outbox\<close>, with workers side by side), \<open>Paging\<close> (lists read page by page),
    \<open>Notifications\<close> and \<open>Friends\<close> (\<^verbatim>\<open>src/src/notifications\<close>, \<^verbatim>\<open>friends\<close>), \<open>Friends_Safety\<close> (what holds of them in
    any order of transactions) and \<open>Rooms_Invites\<close>.

  \<^bold>\<open>Conventions.\<close> A TypeScript object is a record, a union a datatype, \<^verbatim>\<open>null\<close> and \<^verbatim>\<open>undefined\<close> are \<^term>\<open>None\<close>; a
  thrown exception is \<^term>\<open>Inl\<close>. Amounts of money and positions are integers, as in the source; the card shuffle
  works on 32-bit words; scores, ratings and the cost of lifting a mortgage are rounded doubles. The clock, dice, fresh
  identifiers and the power function are arguments. Where the source mutates a clone, the model returns the new
  value. Several definitions may model one long function of the source, each for a part of its lines.

  \<^bold>\<open>Interfaces.\<close> The locale \<open>ledger\<close> is the contract of the cash accounts, interpreted as \<open>cash_ledger\<close> by the debit
  and credit operations; \<open>turn_cycle\<close> that of whoever passes the turn (\<open>turns\<close>); \<open>card_store\<close> that of the decks
  (\<open>decks\<close>).

  \<^bold>\<open>Bounds and fuel.\<close> Automatic debt resolution runs with \<open>resolutionFuel\<close>, one more than the sales and mortgages
  that the properties allow; every round uses one up, and the theorem on debts shows the loop ends before the fuel does.
  An update makes at most \<open>updateMaxAttempts\<close> = 5 attempts, hence eleven steps of its own. Paging through the log
  takes one unit of fuel per page of a hundred events.

  \<^bold>\<open>Assumptions.\<close> \<^verbatim>\<open>JSON.stringify\<close> and \<^verbatim>\<open>JSON.parse\<close> are a codec that restores a state; the text of a cursor
  restores its number. The job queue ignores a job added under an id it still knows and otherwise keeps it.
  Among snapshots equal in turn and time the newest row counts. One SQL transaction or one Redis command or script is atomic. A failure of the database may strike the log and the snapshots, whose errors
  the code swallows; a failure within the final transaction is not modelled. Transactions of the lobby that lock the same room or user
  exclude each other; those without a lock are steps between which others may run. That a user of a request exists is
  not checked again by the tables. An operation on an account reads the clock once and draws no token twice; the lock per user
  makes the opening and the rotation of a session atomic; a password verifies against the hash of no other password; the
  letters of addresses and names are ASCII, as the validation of requests demands.

  \<^bold>\<open>Not modelled.\<close> Logging and metrics, HTTP controllers, the job queue itself, mail, object storage
  and start-up code are I/O without logic of their own. Of the rooms, the
  publishing of changes to listeners is left out, of the sockets the limits on messages, the presence of users and the
  parsing of payloads: a message carries values of the declared types.
\<close>

end
